(* ===== verification/Prelude.thy ===== *)
theory Prelude
  imports Main
begin

text \<open>
  Shared vocabulary of the development.

  \<^item> \<open>proc\<close>: the shape of an asynchronous handler of the services. It takes the state, and
    returns the thrown exception or the result together with the state it leaves. A throw does not undo
    earlier writes; \<open>in_tx\<close> is the one construct that does (a database transaction).
  \<^item> Row tables: a database table is the list of its rows. \<open>find_row\<close>, \<open>update_where\<close> and
    \<open>count_where\<close> are the lookup by key, \<open>UPDATE ... WHERE\<close> and its row count.
  \<^item> Decimal strings: the amounts the services keep as text (\<open>BigInt(s)\<close> and
    \<open>n.toString()\<close>) with their round trip.
\<close>

named_theorems keeps_intros \<open>rules that show a handler keeps a state predicate\<close>
named_theorems proc_simps \<open>unfolding rules of the sequencing operators\<close>

section \<open>Exceptions and handlers\<close>

text \<open>
  \<open>Http st c d\<close> is a Nest \<open>HttpException\<close> with status \<open>st\<close>, machine-readable code \<open>c\<close>
  and details \<open>d\<close>; the human-readable message text is not kept. \<open>Crash t\<close> is any other thrown
  \<open>Error\<close>, which the API answers with a 500 and a worker records as a failed job.
\<close>

datatype 'd exn = Http nat string 'd | Crash string

type_synonym ('s, 'e, 'a) proc = "'s \<Rightarrow> ('e + 'a) \<times> 's"

definition ret :: "'a \<Rightarrow> ('s, 'e, 'a) proc" where
  "ret x = (\<lambda>s. (Inr x, s))"

definition raise :: "'e \<Rightarrow> ('s, 'e, 'a) proc" where
  "raise e = (\<lambda>s. (Inl e, s))"

definition seq :: "('s, 'e, 'a) proc \<Rightarrow> ('a \<Rightarrow> ('s, 'e, 'b) proc) \<Rightarrow> ('s, 'e, 'b) proc" where
  "seq m k = (\<lambda>s. case m s of (Inl e, s') \<Rightarrow> (Inl e, s') | (Inr x, s') \<Rightarrow> k x s')"

definition gets :: "('s \<Rightarrow> 'a) \<Rightarrow> ('s, 'e, 'a) proc" where
  "gets f = (\<lambda>s. (Inr (f s), s))"

definition modify :: "('s \<Rightarrow> 's) \<Rightarrow> ('s, 'e, unit) proc" where
  "modify f = (\<lambda>s. (Inr (), f s))"

definition require :: "bool \<Rightarrow> 'e \<Rightarrow> ('s, 'e, unit) proc" where
  "require c e = (if c then ret () else raise e)"

text \<open>A database transaction: an exception inside undoes every write made inside.\<close>

definition in_tx :: "('s, 'e, 'a) proc \<Rightarrow> ('s, 'e, 'a) proc" where
  "in_tx m = (\<lambda>s. case m s of (Inl e, _) \<Rightarrow> (Inl e, s) | (Inr x, s') \<Rightarrow> (Inr x, s'))"

definition catch :: "('s, 'e, 'a) proc \<Rightarrow> ('e \<Rightarrow> ('s, 'e, 'a) proc) \<Rightarrow> ('s, 'e, 'a) proc" where
  "catch m h = (\<lambda>s. case m s of (Inl e, s') \<Rightarrow> h e s' | (Inr x, s') \<Rightarrow> (Inr x, s'))"

fun for_each :: "('a \<Rightarrow> ('s, 'e, 'b) proc) \<Rightarrow> 'a list \<Rightarrow> ('s, 'e, 'b list) proc" where
  "for_each f [] = ret []"
| "for_each f (x # xs) = seq (f x) (\<lambda>y. seq (for_each f xs) (\<lambda>ys. ret (y # ys)))"

lemmas proc_defs = ret_def raise_def seq_def gets_def modify_def require_def in_tx_def catch_def

lemma ret_app [simp, proc_simps]: "ret x s = (Inr x, s)"
  by (simp add: ret_def)

lemma raise_app [simp, proc_simps]: "raise e s = (Inl e, s)"
  by (simp add: raise_def)

lemma gets_app [simp, proc_simps]: "gets f s = (Inr (f s), s)"
  by (simp add: gets_def)

lemma modify_app [simp, proc_simps]: "modify f s = (Inr (), f s)"
  by (simp add: modify_def)

lemma require_app [simp, proc_simps]:
  "require c e s = (if c then (Inr (), s) else (Inl e, s))"
  by (simp add: require_def)

lemma seq_ret [simp]: "seq (ret x) k = k x"
  by (simp add: seq_def ret_def)

lemma seq_raise [simp]: "seq (raise e) k = raise e"
  by (simp add: seq_def raise_def)

lemma seq_gets [simp, proc_simps]: "seq (gets f) k s = k (f s) s"
  by (simp add: seq_def)

lemma seq_modify [simp, proc_simps]: "seq (modify f) k s = k () (f s)"
  by (simp add: seq_def)

lemma seq_require [simp, proc_simps]:
  "seq (require c e) k s = (if c then k () s else (Inl e, s))"
  by (simp add: seq_def)

lemma snd_seq_ret [simp]: "snd (seq m (\<lambda>y. ret (f y)) s) = snd (m s)"
  by (simp add: seq_def split: prod.split sum.split)

lemma seq_assoc: "seq (seq m k) l = seq m (\<lambda>x. seq (k x) l)"
  by (rule ext) (simp add: seq_def split: prod.split sum.split)

lemma seq_Inr: "m s = (Inr x, s') \<Longrightarrow> seq m k s = k x s'"
  by (simp add: seq_def)

lemma seq_Inl: "m s = (Inl e, s') \<Longrightarrow> seq m k s = (Inl e, s')"
  by (simp add: seq_def)

text \<open>Elimination rules: what a run of a sequence says about its parts.\<close>

lemma seq_InrE:
  assumes "seq m k s = (Inr y, s'')"
  obtains x s' where "m s = (Inr x, s')" and "k x s' = (Inr y, s'')"
  using assms by (auto simp: seq_def split: prod.splits sum.splits)

lemma seq_InlE:
  assumes "seq m k s = (Inl e, s'')"
  obtains (first) "m s = (Inl e, s'')"
        | (second) x s' where "m s = (Inr x, s')" and "k x s' = (Inl e, s'')"
  using assms by (auto simp: seq_def split: prod.splits sum.splits)

lemma seq_Inr_iff:
  "seq m k s = (Inr y, s'') \<longleftrightarrow> (\<exists>x s'. m s = (Inr x, s') \<and> k x s' = (Inr y, s''))"
  by (auto simp: seq_def split: prod.splits sum.splits)

lemma in_tx_Inr [simp]: "in_tx m s = (Inr x, s') \<longleftrightarrow> m s = (Inr x, s')"
  by (auto simp: in_tx_def split: prod.splits sum.splits)

lemma in_tx_Inl: "in_tx m s = (Inl e, s') \<longleftrightarrow> s' = s \<and> (\<exists>t. m s = (Inl e, t))"
  by (auto simp: in_tx_def split: prod.splits sum.splits)

text \<open>Whether a run returned: the form in which concrete runs are evaluated.\<close>

definition returned :: "('e + 'a) \<times> 's \<Rightarrow> bool" where
  "returned r \<longleftrightarrow> (case fst r of Inl _ \<Rightarrow> False | Inr _ \<Rightarrow> True)"

lemma returnedE:
  assumes "returned r"
  obtains x s' where "r = (Inr x, s')"
  using assms by (cases r) (auto simp: returned_def split: sum.splits)

section \<open>Preservation of a state predicate\<close>

text \<open>
  \<open>keeps I m\<close>: whatever \<open>m\<close> does, exception or not, it leaves a state that satisfies \<open>I\<close>
  when it starts in one. The rules are collected in \<open>keeps_intros\<close>, so that the preservation lemma of
  a handler is \<open>intro keeps_intros\<close> over its steps.
\<close>

definition keeps :: "('s \<Rightarrow> bool) \<Rightarrow> ('s, 'e, 'a) proc \<Rightarrow> bool" where
  "keeps I m \<longleftrightarrow> (\<forall>s. I s \<longrightarrow> I (snd (m s)))"

lemma keepsI: "(\<And>s. I s \<Longrightarrow> I (snd (m s))) \<Longrightarrow> keeps I m"
  by (simp add: keeps_def)

lemma keepsD: "keeps I m \<Longrightarrow> I s \<Longrightarrow> m s = (r, s') \<Longrightarrow> I s'"
  by (metis keeps_def snd_conv)

lemma keeps_ret [keeps_intros]: "keeps I (ret x)"
  by (simp add: keeps_def)

lemma keeps_raise [keeps_intros]: "keeps I (raise e)"
  by (simp add: keeps_def)

lemma keeps_gets [keeps_intros]: "keeps I (gets f)"
  by (simp add: keeps_def)

lemma keeps_require [keeps_intros]: "keeps I (require c e)"
  by (simp add: keeps_def)

lemma keeps_modify [keeps_intros]: "(\<And>s. I s \<Longrightarrow> I (f s)) \<Longrightarrow> keeps I (modify f)"
  by (simp add: keeps_def)

lemma keeps_seq [keeps_intros]:
  "keeps I m \<Longrightarrow> (\<And>x. keeps I (k x)) \<Longrightarrow> keeps I (seq m k)"
  by (fastforce simp: keeps_def seq_def split: prod.splits sum.splits)

lemma keeps_in_tx [keeps_intros]: "keeps I m \<Longrightarrow> keeps I (in_tx m)"
  by (fastforce simp: keeps_def in_tx_def split: prod.splits sum.splits)

lemma keeps_catch [keeps_intros]:
  "keeps I m \<Longrightarrow> (\<And>e. keeps I (h e)) \<Longrightarrow> keeps I (catch m h)"
  by (fastforce simp: keeps_def catch_def split: prod.splits sum.splits)

lemma keeps_if [keeps_intros]: "keeps I m \<Longrightarrow> keeps I n \<Longrightarrow> keeps I (if c then m else n)"
  by simp

lemma keeps_case_option [keeps_intros]:
  "keeps I m \<Longrightarrow> (\<And>x. keeps I (k x)) \<Longrightarrow> keeps I (case_option m k o')"
  by (simp split: option.split)

lemma keeps_for_each [keeps_intros]: "(\<And>x. keeps I (f x)) \<Longrightarrow> keeps I (for_each f xs)"
  by (induction xs) (auto intro!: keeps_intros)

section \<open>Row tables\<close>

definition find_row :: "('r \<Rightarrow> 'k) \<Rightarrow> 'k \<Rightarrow> 'r list \<Rightarrow> 'r option" where
  "find_row key k t = find (\<lambda>r. key r = k) t"

definition update_where :: "('r \<Rightarrow> bool) \<Rightarrow> ('r \<Rightarrow> 'r) \<Rightarrow> 'r list \<Rightarrow> 'r list" where
  "update_where P f t = map (\<lambda>r. if P r then f r else r) t"

definition count_where :: "('r \<Rightarrow> bool) \<Rightarrow> 'r list \<Rightarrow> nat" where
  "count_where P t = length (filter P t)"

text \<open>
  \<open>findFirst\<close> with \<open>orderBy ... desc\<close>: the first row with the greatest value of \<open>f\<close>.
\<close>

fun latest_by :: "('r \<Rightarrow> int) \<Rightarrow> 'r list \<Rightarrow> 'r option" where
  "latest_by f [] = None"
| "latest_by f (x # xs) =
     (case latest_by f xs of None \<Rightarrow> Some x | Some y \<Rightarrow> if f x < f y then Some y else Some x)"

lemma find_row_Some: "find_row key k t = Some r \<Longrightarrow> r \<in> set t \<and> key r = k"
  by (auto simp: find_row_def find_Some_iff)

lemma find_row_None: "find_row key k t = None \<longleftrightarrow> (\<forall>r\<in>set t. key r \<noteq> k)"
  by (auto simp: find_row_def find_None_iff)

lemma find_row_Nil [simp]: "find_row key k [] = None"
  by (simp add: find_row_def)

lemma find_row_Cons [simp]:
  "find_row key k (r # t) = (if key r = k then Some r else find_row key k t)"
  by (simp add: find_row_def)

lemma update_where_Nil [simp]: "update_where P f [] = []"
  by (simp add: update_where_def)

lemma update_where_Cons [simp]:
  "update_where P f (r # t) = (if P r then f r else r) # update_where P f t"
  by (simp add: update_where_def)

lemma length_update_where [simp]: "length (update_where P f t) = length t"
  by (simp add: update_where_def)

lemma count_where_Nil [simp]: "count_where P [] = 0"
  by (simp add: count_where_def)

lemma count_where_Cons [simp]:
  "count_where P (r # t) = (if P r then Suc (count_where P t) else count_where P t)"
  by (simp add: count_where_def)

lemma count_where_zero: "count_where P t = 0 \<longleftrightarrow> (\<forall>r\<in>set t. \<not> P r)"
  by (induction t) auto

lemma update_where_none: "(\<And>r. r \<in> set t \<Longrightarrow> \<not> P r) \<Longrightarrow> update_where P f t = t"
  by (induction t) auto

lemma set_update_where:
  "r \<in> set (update_where P f t) \<longleftrightarrow> (\<exists>q\<in>set t. r = (if P q then f q else q))"
  by (auto simp: update_where_def)

lemma find_row_self: "distinct (map key t) \<Longrightarrow> r \<in> set t \<Longrightarrow> find_row key (key r) t = Some r"
  by (induction t) (auto simp: image_iff)

lemma find_row_and:
  "distinct (map key t) \<Longrightarrow>
   find (\<lambda>r. key r = k \<and> Q r) t =
     (case find_row key k t of None \<Rightarrow> None | Some r \<Rightarrow> if Q r then Some r else None)"
proof (induction t)
  case Nil
  then show ?case by simp
next
  case (Cons a t)
  show ?case
  proof (cases "key a = k")
    case True
    with Cons.prems have "\<forall>r\<in>set t. key r \<noteq> k" by (metis distinct.simps(2) image_eqI list.set_map list.simps(9))
    then have "find (\<lambda>r. key r = k \<and> Q r) t = None" by (auto simp: find_None_iff)
    with True show ?thesis by simp
  next
    case False
    with Cons show ?thesis by simp
  qed
qed

lemma update_where_cong:
  "(\<And>r. r \<in> set t \<Longrightarrow> P r = Q r) \<Longrightarrow> (\<And>r. r \<in> set t \<Longrightarrow> Q r \<Longrightarrow> f r = g r) \<Longrightarrow>
   update_where P f t = update_where Q g t"
  by (induction t) auto

lemma distinct_key_eq:
  "distinct (map key t) \<Longrightarrow> find_row key k t = Some r \<Longrightarrow> q \<in> set t \<Longrightarrow> key q = k \<Longrightarrow> q = r"
  using find_row_Some [of key k t r] by (auto simp: distinct_map inj_on_def)

lemma find_row_append [simp]:
  "find_row key k (xs @ ys) = (case find_row key k xs of None \<Rightarrow> find_row key k ys | Some r \<Rightarrow> Some r)"
  by (induction xs) (auto simp: find_row_def)

lemma count_where_append [simp]: "count_where P (xs @ ys) = count_where P xs + count_where P ys"
  by (simp add: count_where_def)

lemma update_where_append [simp]: "update_where P f (xs @ ys) = update_where P f xs @ update_where P f ys"
  by (simp add: update_where_def)

lemma map_update_where: "(\<And>r. f (g r) = f r) \<Longrightarrow> map f (update_where P g t) = map f t"
  by (induction t) simp_all

lemma latest_by_None [simp]: "latest_by f xs = None \<longleftrightarrow> xs = []"
  by (cases xs) (auto split: option.split)

lemma latest_by_Some: "latest_by f xs = Some x \<Longrightarrow> x \<in> set xs \<and> (\<forall>y\<in>set xs. f y \<le> f x)"
proof (induction xs arbitrary: x)
  case Nil
  then show ?case by simp
next
  case (Cons a xs)
  show ?case
  proof (cases "latest_by f xs")
    case None
    with Cons.prems show ?thesis by simp
  next
    case (Some y)
    from Cons.IH [OF Some] Cons.prems Some show ?thesis
      by (auto split: if_splits)
  qed
qed

text \<open>
  An update that leaves the key alone: the interface every \<open>UPDATE\<close> of the services meets. The
  parameter \<open>p\<close> is whatever the statement writes (a status, a timestamp, a pair of them).
\<close>

locale row_update =
  fixes key :: "'r \<Rightarrow> 'k"
    and upd :: "'p \<Rightarrow> 'r \<Rightarrow> 'r"
  assumes key_upd [simp]: "key (upd p r) = key r"
begin

lemma map_key_update [simp]: "map key (update_where P (upd p) t) = map key t"
  by (induction t) auto

lemma find_row_update:
  "find_row key k (update_where P (upd p) t) =
     map_option (\<lambda>r. if P r then upd p r else r) (find_row key k t)"
  by (induction t) auto

lemma distinct_update [simp]:
  "distinct (map key (update_where P (upd p) t)) = distinct (map key t)"
  by simp

lemma count_update:
  "distinct (map key t) \<Longrightarrow> find_row key k t = Some r \<Longrightarrow>
   count_where A (update_where (\<lambda>r. key r = k \<and> Q r) (upd p) t) + (if A r then 1 else 0) =
   count_where A t + (if A (if Q r then upd p r else r) then 1 else 0)"
proof (induction t)
  case Nil
  then show ?case by simp
next
  case (Cons a t)
  show ?case
  proof (cases "key a = k")
    case True
    with Cons.prems have "\<forall>r\<in>set t. key r \<noteq> k" by (metis distinct.simps(2) image_eqI list.set_map list.simps(9))
    then have "update_where (\<lambda>r. key r = k \<and> Q r) (upd p) t = t"
      by (auto simp: update_where_none)
    with True Cons.prems show ?thesis by simp
  next
    case False
    with Cons show ?thesis by simp
  qed
qed

lemma count_key:
  "distinct (map key t) \<Longrightarrow>
   count_where (\<lambda>r. key r = k \<and> Q r) t =
     (case find_row key k t of None \<Rightarrow> 0 | Some r \<Rightarrow> if Q r then 1 else 0)"
proof (induction t)
  case Nil
  then show ?case by simp
next
  case (Cons a t)
  show ?case
  proof (cases "key a = k")
    case True
    with Cons.prems have "\<forall>r\<in>set t. key r \<noteq> k" by (metis distinct.simps(2) image_eqI list.set_map list.simps(9))
    then have "count_where (\<lambda>r. key r = k \<and> Q r) t = 0"
      by (auto simp: count_where_zero)
    with True show ?thesis by simp
  next
    case False
    with Cons show ?thesis by simp
  qed
qed

end

section \<open>Decimal strings\<close>

definition digit_of :: "char \<Rightarrow> nat" where
  "digit_of c = of_char c - 48"

definition char_of_digit :: "nat \<Rightarrow> char" where
  "char_of_digit d = char_of (48 + d)"

text \<open>\<open>x ?? y\<close>.\<close>

definition or_else :: "'a option \<Rightarrow> 'a option \<Rightarrow> 'a option" where
  "or_else x y = (case x of None \<Rightarrow> y | Some v \<Rightarrow> Some v)"

text \<open>A field of a patch: absent, or the new value.\<close>

definition set_or :: "'a option \<Rightarrow> 'a \<Rightarrow> 'a" where
  "set_or x old = (case x of None \<Rightarrow> old | Some v \<Rightarrow> v)"

definition is_digit :: "char \<Rightarrow> bool" where
  "is_digit c \<longleftrightarrow> (48::nat) \<le> of_char c \<and> of_char c \<le> (57::nat)"

text \<open>The value of a string of decimal digits: \<open>BigInt(s)\<close> on the amounts the schemas let in.\<close>

definition big_nat :: "string \<Rightarrow> nat" where
  "big_nat s = foldl (\<lambda>a c. 10 * a + digit_of c) 0 s"

definition BigInt :: "string \<Rightarrow> int" where
  "BigInt s = int (big_nat s)"

fun show_nat :: "nat \<Rightarrow> string" where
  "show_nat n = (if n < 10 then [char_of_digit n] else show_nat (n div 10) @ [char_of_digit (n mod 10)])"

declare show_nat.simps [simp del]

definition show_int :: "int \<Rightarrow> string" where
  "show_int i = (if i < 0 then ''-'' @ show_nat (nat (- i)) else show_nat (nat i))"

lemma digit_chars [simp]:
  "char_of_digit 0 = CHR ''0''" "char_of_digit 1 = CHR ''1''" "char_of_digit (Suc 0) = CHR ''1''"
  "char_of_digit 2 = CHR ''2''" "char_of_digit 3 = CHR ''3''" "char_of_digit 4 = CHR ''4''"
  "char_of_digit 5 = CHR ''5''" "char_of_digit 6 = CHR ''6''" "char_of_digit 7 = CHR ''7''"
  "char_of_digit 8 = CHR ''8''" "char_of_digit 9 = CHR ''9''"
  by (simp_all add: char_of_digit_def char_of_def bit_iff_odd)

lemma digit_of_char_of_digit: "d < 10 \<Longrightarrow> digit_of (char_of_digit d) = d"
  by (simp add: digit_of_def char_of_digit_def of_char_of)

lemma is_digit_char_of_digit: "d < 10 \<Longrightarrow> is_digit (char_of_digit d)"
  by (simp add: is_digit_def char_of_digit_def of_char_of)

lemma big_nat_snoc: "big_nat (s @ [c]) = 10 * big_nat s + digit_of c"
  by (simp add: big_nat_def)

lemma big_nat_show_nat [simp]: "big_nat (show_nat n) = n"
proof (induction n rule: show_nat.induct)
  case (1 n)
  show ?case
  proof (cases "n < 10")
    case True
    then show ?thesis
      by (subst show_nat.simps) (simp add: big_nat_def digit_of_char_of_digit)
  next
    case False
    with 1 have "big_nat (show_nat (n div 10)) = n div 10" by simp
    with False show ?thesis
      by (subst show_nat.simps) (simp add: big_nat_snoc digit_of_char_of_digit)
  qed
qed

lemma show_nat_digits: "list_all is_digit (show_nat n)"
proof (induction n rule: show_nat.induct)
  case (1 n)
  then show ?case
    by (subst show_nat.simps) (simp add: is_digit_char_of_digit)
qed

lemma show_nat_inj: "show_nat m = show_nat n \<longleftrightarrow> m = n"
  by (metis big_nat_show_nat)

lemma BigInt_show_int [simp]: "0 \<le> n \<Longrightarrow> BigInt (show_int n) = n"
  by (simp add: BigInt_def show_int_def)

lemma BigInt_nonneg [simp]: "0 \<le> BigInt s"
  by (simp add: BigInt_def)

section \<open>Strings\<close>

definition ascii_lower :: "char \<Rightarrow> char" where
  "ascii_lower c = (if (65::nat) \<le> of_char c \<and> of_char c \<le> (90::nat) then char_of (of_char c + 32 :: nat) else c)"

text \<open>\<open>toLowerCase\<close> on ASCII text (addresses and hex data).\<close>

definition to_lower :: "string \<Rightarrow> string" where
  "to_lower = map ascii_lower"

text \<open>The white space JavaScript strips, within Latin-1, and \<open>String.prototype.trim\<close>.\<close>

definition is_space :: "char \<Rightarrow> bool" where
  "is_space c \<longleftrightarrow> (of_char c :: nat) \<in> {9, 10, 11, 12, 13, 32, 160}"

definition js_trim :: "string \<Rightarrow> string" where
  "js_trim s = rev (dropWhile is_space (rev (dropWhile is_space s)))"

definition starts_with :: "string \<Rightarrow> string \<Rightarrow> bool" where
  "starts_with s p \<longleftrightarrow> take (length p) s = p"

lemma ascii_lower_idem: "ascii_lower (ascii_lower c) = ascii_lower c"
  by (auto simp: ascii_lower_def of_char_of)

lemma to_lower_idem [simp]: "to_lower (to_lower s) = to_lower s"
  by (simp add: to_lower_def ascii_lower_idem)

lemma length_to_lower [simp]: "length (to_lower s) = length s"
  by (simp add: to_lower_def)

text \<open>JavaScript truthiness of an optional string: \<open>null\<close>, \<open>undefined\<close> and \<open>''\<close> are falsy.\<close>

definition truthy :: "string option \<Rightarrow> bool" where
  "truthy x \<longleftrightarrow> (case x of None \<Rightarrow> False | Some s \<Rightarrow> s \<noteq> [])"

lemma truthy_simps [simp]: "\<not> truthy None" "truthy (Some s) = (s \<noteq> [])"
  by (simp_all add: truthy_def)

lemma truthyE: "truthy x \<Longrightarrow> (\<And>s. x = Some s \<Longrightarrow> s \<noteq> [] \<Longrightarrow> P) \<Longrightarrow> P"
  by (auto simp: truthy_def split: option.splits)

end
