(* ===== verification/Api_Error.thy ===== *)
theory Api_Error
  imports Prelude
begin

text \<open>
  What an API exception carries: the \<open>details\<close> of the services' \<open>HttpException\<close> payloads. Most are
  lists of field names or values; the two relay conflicts carry the view of the earlier submission, so the
  view type of \<open>apps/api/src/modules/relay/relay.types.ts\<close> is declared here.
\<close>

datatype relay_reason = PayWithAuthorization | PermitAndCreateSubscription | RegisterMerchant

datatype relay_submission_status = Queued | Signing | Broadcasted | Confirmed_Status | Reverted_Status | Failed_Status

text \<open>\<open>enqueuedAt\<close> is kept as the instant (milliseconds) whose ISO-8601 form goes on the wire.\<close>

record submission_view =
  sv_id :: string
  sv_idempotency_key :: string
  sv_status :: relay_submission_status
  sv_tx_hash :: "string option"
  sv_reason :: relay_reason
  sv_error_reason :: "string option"
  sv_attempt_count :: nat
  sv_enqueued_at :: int

datatype details = No_Details | Fields "string list" | Submission "submission_view option"

type_synonym api_exn = "details exn"

abbreviation bad_request :: "string \<Rightarrow> api_exn" where
  "bad_request c \<equiv> Http 400 c No_Details"

abbreviation forbidden :: "string \<Rightarrow> api_exn" where
  "forbidden c \<equiv> Http 403 c No_Details"

abbreviation not_found :: api_exn where
  "not_found \<equiv> Http 404 ''not_found'' No_Details"

abbreviation conflict :: "string \<Rightarrow> api_exn" where
  "conflict c \<equiv> Http 409 c No_Details"

text \<open>\<open>findUniqueOrThrow\<close> of a missing row: Prisma's \<open>P2025\<close>.\<close>

abbreviation p2025 :: api_exn where
  "p2025 \<equiv> Crash ''P2025''"

text \<open>Lifting a pure result into a handler, and unwrapping an optional row.\<close>

definition lift_sum :: "'e + 'a \<Rightarrow> ('s, 'e, 'a) proc" where
  "lift_sum r = (case r of Inl e \<Rightarrow> raise e | Inr x \<Rightarrow> ret x)"

definition or_raise :: "'e \<Rightarrow> 'a option \<Rightarrow> ('s, 'e, 'a) proc" where
  "or_raise e x = (case x of None \<Rightarrow> raise e | Some y \<Rightarrow> ret y)"

lemma lift_sum_app [simp, proc_simps]: "lift_sum r s = (r, s)"
  by (cases r) (simp_all add: lift_sum_def)

lemma or_raise_app [simp, proc_simps]:
  "or_raise e x s = (case x of None \<Rightarrow> (Inl e, s) | Some y \<Rightarrow> (Inr y, s))"
  by (simp add: or_raise_def split: option.split)

lemma seq_lift_sum [simp, proc_simps]:
  "seq (lift_sum r) k s = (case r of Inl e \<Rightarrow> (Inl e, s) | Inr x \<Rightarrow> k x s)"
  by (cases r) (simp_all add: seq_def)

lemma seq_or_raise [simp, proc_simps]:
  "seq (or_raise e x) k s = (case x of None \<Rightarrow> (Inl e, s) | Some y \<Rightarrow> k y s)"
  by (simp add: seq_def split: option.split)

lemma keeps_lift_sum [keeps_intros]: "keeps I (lift_sum r)"
  by (simp add: keeps_def)

lemma keeps_or_raise [keeps_intros]: "keeps I (or_raise e x)"
  by (simp add: keeps_def split: option.split)

end
