(* ===== verification/Config.thy ===== *)
theory Config
  imports Api_Error
begin

text \<open>
  The constants and pure functions of \<open>packages/shared-config/src\<close>: pricing plans
  (\<open>tiers.ts\<close>), payment tokens (\<open>tokens.ts\<close>), the two Arc networks (\<open>chains.ts\<close>),
  API key prefixes (\<open>api-keys.ts\<close>) and the webhook retry table (\<open>webhooks.ts\<close>). Plans are
  ordered by their position in \<open>PLAN_ORDER\<close>, as an instance of the library's \<open>linorder\<close>.
\<close>

section \<open>Tokens\<close>

datatype payment_currency = USDC | EURC

datatype token_symbol = Pay payment_currency | USYC

record token_descriptor =
  td_symbol :: token_symbol
  td_name :: string
  td_decimals :: nat
  td_payment_eligible :: bool
  td_yield_bearing :: bool

definition PAYMENT_TOKENS :: "payment_currency list" where
  "PAYMENT_TOKENS = [USDC, EURC]"

fun TOKENS :: "token_symbol \<Rightarrow> token_descriptor" where
  "TOKENS (Pay USDC) = \<lparr>td_symbol = Pay USDC, td_name = ''USD Coin'', td_decimals = 6,
     td_payment_eligible = True, td_yield_bearing = False\<rparr>"
| "TOKENS (Pay EURC) = \<lparr>td_symbol = Pay EURC, td_name = ''Euro Coin'', td_decimals = 6,
     td_payment_eligible = True, td_yield_bearing = False\<rparr>"
| "TOKENS USYC = \<lparr>td_symbol = USYC, td_name = ''US Yield Coin'', td_decimals = 6,
     td_payment_eligible = False, td_yield_bearing = True\<rparr>"

definition isPaymentToken :: "token_symbol \<Rightarrow> bool" where
  "isPaymentToken s \<longleftrightarrow> s \<in> Pay ` set PAYMENT_TOKENS"

definition MINIMUM_PAYMENT_AMOUNT :: int where
  "MINIMUM_PAYMENT_AMOUNT = 1000000"

lemma payment_token_iff_eligible: "isPaymentToken s \<longleftrightarrow> td_payment_eligible (TOKENS s)"
  by (cases s rule: TOKENS.cases) (auto simp: isPaymentToken_def PAYMENT_TOKENS_def)

section \<open>Arc networks\<close>

datatype arc_environment = Testnet | Mainnet

definition ARC_TESTNET_CHAIN_ID :: nat where "ARC_TESTNET_CHAIN_ID = 5042002"
definition ARC_MAINNET_CHAIN_ID :: nat where "ARC_MAINNET_CHAIN_ID = 5042"

definition ARC_ENVIRONMENTS :: "arc_environment list" where
  "ARC_ENVIRONMENTS = [Testnet, Mainnet]"

fun env_name :: "arc_environment \<Rightarrow> string" where
  "env_name Testnet = ''testnet''"
| "env_name Mainnet = ''mainnet''"

fun arc_chain_id :: "arc_environment \<Rightarrow> nat" where
  "arc_chain_id Testnet = ARC_TESTNET_CHAIN_ID"
| "arc_chain_id Mainnet = ARC_MAINNET_CHAIN_ID"

fun explorer_url :: "arc_environment \<Rightarrow> string" where
  "explorer_url Testnet = ''https://explorer.testnet.arc.io''"
| "explorer_url Mainnet = ''https://explorer.arc.io''"

definition parseArcEnvironment :: "string \<Rightarrow> api_exn + arc_environment" where
  "parseArcEnvironment v =
     (case find (\<lambda>e. env_name e = v) ARC_ENVIRONMENTS of
        Some e \<Rightarrow> Inr e
      | None \<Rightarrow> Inl (Crash ''unknown Arc environment''))"

definition arcExplorerTxUrl :: "arc_environment \<Rightarrow> string \<Rightarrow> string" where
  "arcExplorerTxUrl e txHash = explorer_url e @ ''/tx/'' @ txHash"

definition arcEnvironmentForChainId :: "nat \<Rightarrow> api_exn + arc_environment" where
  "arcEnvironmentForChainId c =
     (case find (\<lambda>e. arc_chain_id e = c) ARC_ENVIRONMENTS of
        Some e \<Rightarrow> Inr e
      | None \<Rightarrow> Inl (Crash ''chain id is not an Arc chain''))"

definition assertArcChainId :: "arc_environment \<Rightarrow> nat \<Rightarrow> api_exn + unit" where
  "assertArcChainId e rpc = (if rpc \<noteq> arc_chain_id e then Inl (Crash ''wrong chain id'') else Inr ())"

definition isArcChain :: "nat \<Rightarrow> bool" where
  "isArcChain c \<longleftrightarrow> c = ARC_TESTNET_CHAIN_ID \<or> c = ARC_MAINNET_CHAIN_ID"

lemma parseArcEnvironment_name [simp]: "parseArcEnvironment (env_name e) = Inr e"
  by (cases e) (simp_all add: parseArcEnvironment_def ARC_ENVIRONMENTS_def)

lemma arcEnvironmentForChainId_id [simp]: "arcEnvironmentForChainId (arc_chain_id e) = Inr e"
  by (cases e)
     (simp_all add: arcEnvironmentForChainId_def ARC_ENVIRONMENTS_def
        ARC_TESTNET_CHAIN_ID_def ARC_MAINNET_CHAIN_ID_def)

lemma isArcChain_iff: "isArcChain c \<longleftrightarrow> (\<exists>e. arcEnvironmentForChainId c = Inr e)"
  by (auto simp: isArcChain_def arcEnvironmentForChainId_def ARC_ENVIRONMENTS_def)

section \<open>API keys\<close>

datatype api_mode = Test | Live
datatype api_key_kind = Secret | Publishable

fun prefixFor :: "api_key_kind \<Rightarrow> api_mode \<Rightarrow> string" where
  "prefixFor Secret Test = ''sk_test_''"
| "prefixFor Secret Live = ''sk_live_''"
| "prefixFor Publishable Test = ''pk_test_''"
| "prefixFor Publishable Live = ''pk_live_''"

definition modeFromKey :: "string \<Rightarrow> api_mode option" where
  "modeFromKey key =
     (if starts_with key ''sk_test_'' \<or> starts_with key ''pk_test_'' then Some Test
      else if starts_with key ''sk_live_'' \<or> starts_with key ''pk_live_'' then Some Live
      else None)"

definition kindFromKey :: "string \<Rightarrow> api_key_kind option" where
  "kindFromKey key =
     (if starts_with key ''sk_'' then Some Secret
      else if starts_with key ''pk_'' then Some Publishable
      else None)"

fun arcModeFor :: "arc_environment \<Rightarrow> api_mode" where
  "arcModeFor Testnet = Test"
| "arcModeFor Mainnet = Live"

lemma key_prefix_roundtrip:
  "modeFromKey (prefixFor k m @ rest) = Some m \<and> kindFromKey (prefixFor k m @ rest) = Some k"
  by (cases k; cases m) (simp_all add: modeFromKey_def kindFromKey_def starts_with_def)

section \<open>Pricing plans\<close>

datatype merchant_tier = Free | Starter | Growth | Enterprise

datatype plan_feature = Storefront_Builder | Anomaly_Alerts | Yield_Recommendations

record plan_definition =
  pd_name :: string
  pd_fee_bps :: "nat option"
  pd_enters_at_volume :: "nat option"
  pd_features :: "plan_feature list"
  pd_priority_support :: bool

definition PAID_FEATURES :: "plan_feature list" where
  "PAID_FEATURES = [Storefront_Builder, Anomaly_Alerts, Yield_Recommendations]"

fun PLANS :: "merchant_tier \<Rightarrow> plan_definition" where
  "PLANS Free = \<lparr>pd_name = ''Free'', pd_fee_bps = Some 0, pd_enters_at_volume = Some 0,
     pd_features = [], pd_priority_support = False\<rparr>"
| "PLANS Starter = \<lparr>pd_name = ''Starter'', pd_fee_bps = Some 50, pd_enters_at_volume = Some 1000,
     pd_features = PAID_FEATURES, pd_priority_support = True\<rparr>"
| "PLANS Growth = \<lparr>pd_name = ''Growth'', pd_fee_bps = Some 40, pd_enters_at_volume = Some 50000,
     pd_features = PAID_FEATURES, pd_priority_support = True\<rparr>"
| "PLANS Enterprise = \<lparr>pd_name = ''Enterprise'', pd_fee_bps = None, pd_enters_at_volume = None,
     pd_features = PAID_FEATURES, pd_priority_support = True\<rparr>"

definition PLAN_ORDER :: "merchant_tier list" where
  "PLAN_ORDER = [Free, Starter, Growth, Enterprise]"

definition VOLUME_PLANS :: "merchant_tier list" where
  "VOLUME_PLANS = [Free, Starter, Growth]"

text \<open>\<open>PLAN_ORDER.indexOf(plan)\<close>; every plan occurs in the list.\<close>

fun plan_index :: "merchant_tier \<Rightarrow> nat" where
  "plan_index Free = 0"
| "plan_index Starter = 1"
| "plan_index Growth = 2"
| "plan_index Enterprise = 3"

lemma PLAN_ORDER_index: "PLAN_ORDER ! plan_index p = p \<and> plan_index p < length PLAN_ORDER"
  by (cases p) (simp_all add: PLAN_ORDER_def)

lemma plan_index_inj: "plan_index p = plan_index q \<longleftrightarrow> p = q"
  by (cases p; cases q) simp_all

instantiation merchant_tier :: linorder
begin

definition less_eq_merchant_tier :: "merchant_tier \<Rightarrow> merchant_tier \<Rightarrow> bool" where
  "less_eq_merchant_tier p q \<longleftrightarrow> plan_index p \<le> plan_index q"

definition less_merchant_tier :: "merchant_tier \<Rightarrow> merchant_tier \<Rightarrow> bool" where
  "less_merchant_tier p q \<longleftrightarrow> plan_index p < plan_index q"

instance
  by standard (auto simp: less_eq_merchant_tier_def less_merchant_tier_def plan_index_inj)

end

lemmas tier_order_defs = less_eq_merchant_tier_def less_merchant_tier_def

definition PLAN_FEE_CEILING_BPS :: nat where
  "PLAN_FEE_CEILING_BPS =
     Max (set (map (\<lambda>p. case pd_fee_bps (PLANS p) of None \<Rightarrow> 0 | Some f \<Rightarrow> f) VOLUME_PLANS))"

definition planFeeBps :: "merchant_tier \<Rightarrow> nat option" where
  "planFeeBps plan = pd_fee_bps (PLANS plan)"

definition planIncludes :: "merchant_tier \<Rightarrow> plan_feature \<Rightarrow> bool" where
  "planIncludes plan feature \<longleftrightarrow> feature \<in> set (pd_features (PLANS plan))"

definition plansWith :: "plan_feature \<Rightarrow> merchant_tier list" where
  "plansWith feature = filter (\<lambda>plan. planIncludes plan feature) PLAN_ORDER"

definition lowestPlanWith :: "plan_feature \<Rightarrow> api_exn + merchant_tier" where
  "lowestPlanWith feature =
     (case find (\<lambda>c. planIncludes c feature) PLAN_ORDER of
        Some p \<Rightarrow> Inr p
      | None \<Rightarrow> Inl (Crash ''no plan includes the feature''))"

type_synonym payment_volumes = "payment_currency \<Rightarrow> int"

definition thresholdInBaseUnits :: "merchant_tier \<Rightarrow> payment_currency \<Rightarrow> api_exn + int" where
  "thresholdInBaseUnits plan token =
     (case pd_enters_at_volume (PLANS plan) of
        None \<Rightarrow> Inl (Crash ''no volume threshold'')
      | Some whole \<Rightarrow> Inr (int whole * 10 ^ td_decimals (TOKENS (Pay token))))"

fun reaches_any :: "payment_volumes \<Rightarrow> merchant_tier \<Rightarrow> payment_currency list \<Rightarrow> api_exn + bool" where
  "reaches_any v plan [] = Inr False"
| "reaches_any v plan (t # ts) =
     (case thresholdInBaseUnits plan t of
        Inl e \<Rightarrow> Inl e
      | Inr limit \<Rightarrow> if limit \<le> v t then Inr True else reaches_any v plan ts)"

fun reach_plans :: "payment_volumes \<Rightarrow> merchant_tier list \<Rightarrow> merchant_tier \<Rightarrow> api_exn + merchant_tier" where
  "reach_plans v [] reached = Inr reached"
| "reach_plans v (p # ps) reached =
     (case reaches_any v p PAYMENT_TOKENS of
        Inl e \<Rightarrow> Inl e
      | Inr b \<Rightarrow> reach_plans v ps (if b then p else reached))"

definition planForVolume :: "payment_volumes \<Rightarrow> api_exn + merchant_tier" where
  "planForVolume v = reach_plans v VOLUME_PLANS Free"

definition planUpgradeFor :: "merchant_tier \<Rightarrow> payment_volumes \<Rightarrow> api_exn + merchant_tier option" where
  "planUpgradeFor current v =
     (if current = Enterprise then Inr None
      else case planForVolume v of
        Inl e \<Rightarrow> Inl e
      | Inr earned \<Rightarrow> Inr (if plan_index current < plan_index earned then Some earned else None))"

lemma PLAN_FEE_CEILING_BPS_value [simp]: "PLAN_FEE_CEILING_BPS = 50"
  by (simp add: PLAN_FEE_CEILING_BPS_def VOLUME_PLANS_def)

lemma planFeeBps_ceiling: "planFeeBps p = Some f \<Longrightarrow> f \<le> PLAN_FEE_CEILING_BPS"
  by (cases p) (auto simp: planFeeBps_def)

lemma planFeeBps_None [simp]: "planFeeBps p = None \<longleftrightarrow> p = Enterprise"
  by (cases p) (simp_all add: planFeeBps_def)

lemma planForVolume_eq:
  "planForVolume v =
     Inr (if 50000000000 \<le> v USDC \<or> 50000000000 \<le> v EURC then Growth
          else if 1000000000 \<le> v USDC \<or> 1000000000 \<le> v EURC then Starter else Free)"
  by (simp add: planForVolume_def VOLUME_PLANS_def PAYMENT_TOKENS_def thresholdInBaseUnits_def)

lemma planForVolume_mono:
  assumes "\<And>t. v t \<le> w t" and "planForVolume v = Inr p" and "planForVolume w = Inr q"
  shows "p \<le> q"
proof -
  from assms(1) have "v USDC \<le> w USDC" "v EURC \<le> w EURC" by blast+
  with assms(2,3) show ?thesis
    by (auto simp: planForVolume_eq tier_order_defs split: if_splits)
qed

lemma planUpgradeFor_up:
  "planUpgradeFor c v = Inr (Some p) \<Longrightarrow> c < p \<and> p \<noteq> Enterprise \<and> planFeeBps p \<noteq> None"
  by (cases c) (auto simp: planUpgradeFor_def planForVolume_eq tier_order_defs split: if_splits)

lemma planUpgradeFor_None_earned:
  assumes "planUpgradeFor c v = Inr None" and "planForVolume v = Inr e"
  shows "e \<le> c"
  using assms
  by (cases c) (auto simp: planUpgradeFor_def planForVolume_eq tier_order_defs split: if_splits)

lemma lowestPlanWith_Starter [simp]: "lowestPlanWith f = Inr Starter"
  by (cases f) (simp_all add: lowestPlanWith_def PLAN_ORDER_def planIncludes_def PAID_FEATURES_def)

lemma planIncludes_iff [simp]: "planIncludes p f \<longleftrightarrow> p \<noteq> Free"
  by (cases p; cases f) (simp_all add: planIncludes_def PAID_FEATURES_def)

lemma plansWith_upward: "p \<in> set (plansWith f) \<longleftrightarrow> Starter \<le> p"
  by (cases p) (simp_all add: plansWith_def PLAN_ORDER_def tier_order_defs)

section \<open>Webhook retries\<close>

definition WEBHOOK_RETRY_SCHEDULE_SECONDS :: "nat list" where
  "WEBHOOK_RETRY_SCHEDULE_SECONDS = [60, 300, 1800, 7200, 86400]"

definition WEBHOOK_MAX_ATTEMPTS :: nat where
  "WEBHOOK_MAX_ATTEMPTS = length WEBHOOK_RETRY_SCHEDULE_SECONDS + 1"

end
