(* ===== verification/Money.thy ===== *)
theory Money
  imports Config
begin

text \<open>
  \<open>apps/api/src/common/money\<close>: the fee split of the contracts, the payment minimum and the
  per-currency totals of an aggregate query; \<open>apps/api/src/common/plans/plan-access.ts\<close>: the feature
  gate. Amounts are unbounded integers (\<open>bigint\<close>) of the token's smallest unit.
\<close>

section \<open>Fee split\<close>

definition MAX_FEE_BPS :: int where
  "MAX_FEE_BPS = 500"

text \<open>
  \<open>bigint\<close> division truncates towards zero; \<open>js_div\<close> is that division.
\<close>

definition js_div :: "int \<Rightarrow> int \<Rightarrow> int" where
  "js_div a b = sgn a * sgn b * (\<bar>a\<bar> div \<bar>b\<bar>)"

lemma js_div_nonneg [simp]: "0 \<le> a \<Longrightarrow> 0 < b \<Longrightarrow> js_div a b = a div b"
  by (cases "a = 0") (simp_all add: js_div_def)

text \<open>The pair is \<open>(feeAmount, netAmount)\<close>.\<close>

definition feeSplit :: "int \<Rightarrow> int \<Rightarrow> api_exn + int \<times> int" where
  "feeSplit amount feeBps =
     (if feeBps < 0 \<or> MAX_FEE_BPS < feeBps then Inl (Crash ''fee rate out of range'')
      else let fee = js_div (amount * feeBps) 10000 in Inr (fee, amount - fee))"

lemma feeSplit_sum: "feeSplit amount bps = Inr (fee, net) \<Longrightarrow> fee + net = amount"
  by (auto simp: feeSplit_def Let_def split: if_splits)

lemma feeSplit_bounds:
  assumes "feeSplit amount bps = Inr (fee, net)" and "0 \<le> amount"
  shows "0 \<le> fee \<and> 20 * fee \<le> amount \<and> 0 \<le> net \<and> net \<le> amount"
proof -
  from assms(1) have bps: "0 \<le> bps" "bps \<le> 500" and fee: "fee = js_div (amount * bps) 10000"
    and net: "net = amount - fee"
    by (auto simp: feeSplit_def MAX_FEE_BPS_def Let_def split: if_splits)
  from assms(2) bps fee have fee': "fee = amount * bps div 10000" by simp
  have "amount * bps \<le> amount * 500" using assms(2) bps(2) by (simp add: mult_left_mono)
  then have "fee \<le> amount * 500 div 10000" unfolding fee' by (simp add: zdiv_mono1)
  then have "20 * fee \<le> amount" by linarith
  moreover have "0 \<le> fee" unfolding fee' using assms(2) bps(1) by (simp add: pos_imp_zdiv_nonneg_iff)
  ultimately show ?thesis using net assms(2) by linarith
qed

text \<open>Rounded down: the fee is never above the exact rate, and less than one unit below it.\<close>

lemma feeSplit_floor:
  assumes "feeSplit amount bps = Inr (fee, net)" and "0 \<le> amount"
  shows "10000 * fee \<le> amount * bps \<and> amount * bps < 10000 * (fee + 1)"
proof -
  from assms(1) have bps: "0 \<le> bps" and fee: "fee = js_div (amount * bps) 10000"
    by (auto simp: feeSplit_def Let_def split: if_splits)
  with assms(2) have eq: "fee = amount * bps div 10000" by simp
  define x where "x = amount * bps"
  from eq have "fee = x div 10000" by (simp add: x_def)
  then have "10000 * fee \<le> x \<and> x < 10000 * (fee + 1)" by presburger
  then show ?thesis by (simp add: x_def)
qed

lemma feeSplit_defined:
  "(\<exists>fee net. feeSplit amount bps = Inr (fee, net)) \<longleftrightarrow> 0 \<le> bps \<and> bps \<le> 500"
  by (auto simp: feeSplit_def MAX_FEE_BPS_def Let_def)

section \<open>Minimum amount\<close>

definition assertMinimumAmount :: "int \<Rightarrow> ('s, api_exn, unit) proc" where
  "assertMinimumAmount amount =
     (if MINIMUM_PAYMENT_AMOUNT \<le> amount then ret ()
      else raise (Http 400 ''amount_below_minimum'' (Fields [show_int MINIMUM_PAYMENT_AMOUNT])))"

lemma assertMinimumAmount_Inr [simp]:
  "assertMinimumAmount a s = (Inr u, s') \<longleftrightarrow> MINIMUM_PAYMENT_AMOUNT \<le> a \<and> s' = s"
  by (auto simp: assertMinimumAmount_def)

lemma assertMinimumAmount_keeps [keeps_intros]: "keeps I (assertMinimumAmount a)"
  by (simp add: assertMinimumAmount_def keeps_ret keeps_raise)

section \<open>Per-currency totals\<close>

text \<open>
  \<open>toCurrencyAmounts\<close> folds the rows of a \<open>GROUP BY currency\<close> query into the pair of totals. A row
  of another currency, a second row of the same one and an amount that is not a string of decimal digits
  are programming errors and throw.
\<close>

fun parse_currency :: "string \<Rightarrow> payment_currency option" where
  "parse_currency c = (if c = ''USDC'' then Some USDC else if c = ''EURC'' then Some EURC else None)"

fun currency_name :: "payment_currency \<Rightarrow> string" where
  "currency_name USDC = ''USDC''"
| "currency_name EURC = ''EURC''"

definition token_amount_ok :: "string \<Rightarrow> bool" where
  "token_amount_ok a \<longleftrightarrow> a \<noteq> [] \<and> list_all is_digit a"

definition zeroCurrencyAmounts :: "payment_currency \<Rightarrow> string" where
  "zeroCurrencyAmounts = (\<lambda>_. ''0'')"

fun collect_amounts ::
  "(string \<times> string) list \<Rightarrow> payment_currency list \<Rightarrow> (payment_currency \<Rightarrow> string) \<Rightarrow>
   api_exn + (payment_currency \<Rightarrow> string)" where
  "collect_amounts [] seen out = Inr out"
| "collect_amounts ((c, a) # rows) seen out =
     (case parse_currency c of
        None \<Rightarrow> Inl (Crash ''unknown currency in aggregate row'')
      | Some cur \<Rightarrow>
          if cur \<in> set seen then Inl (Crash ''more than one row in aggregate'')
          else if token_amount_ok a then collect_amounts rows (cur # seen) (out(cur := a))
          else Inl (Crash ''ZodError''))"

definition toCurrencyAmounts ::
  "(string \<times> string) list \<Rightarrow> api_exn + (payment_currency \<Rightarrow> string)" where
  "toCurrencyAmounts rows = collect_amounts rows [] zeroCurrencyAmounts"

lemma parse_currency_name [simp]: "parse_currency (currency_name c) = Some c"
  by (cases c) simp_all

lemma parse_currency_Some: "parse_currency c = Some cur \<longleftrightarrow> c = currency_name cur"
  by (cases cur) auto

declare parse_currency.simps [simp del]

lemma collect_amounts_Inr:
  assumes "collect_amounts rows seen out = Inr res"
  shows "distinct (map fst rows) \<and> (\<forall>c\<in>set seen. currency_name c \<notin> fst ` set rows) \<and>
         (\<forall>c. res c = (case map_of rows (currency_name c) of None \<Rightarrow> out c | Some a \<Rightarrow> a))"
  using assms
proof (induction rows seen out rule: collect_amounts.induct)
  case (1 seen out)
  then show ?case by simp
next
  case (2 c a rows seen out)
  from "2.prems" obtain cur where p: "parse_currency c = Some cur" and seen: "cur \<notin> set seen"
    and ok: "token_amount_ok a" and rest: "collect_amounts rows (cur # seen) (out(cur := a)) = Inr res"
    by (auto split: option.splits if_splits)
  from p have cur: "c = currency_name cur" by (simp add: parse_currency_Some)
  from "2.IH" [OF p seen ok rest] have IH: "distinct (map fst rows)"
    "\<forall>d\<in>set (cur # seen). currency_name d \<notin> fst ` set rows"
    "\<forall>d. res d = (case map_of rows (currency_name d) of None \<Rightarrow> (out(cur := a)) d | Some a \<Rightarrow> a)"
    by blast+
  have inj: "currency_name d = currency_name cur \<longleftrightarrow> d = cur" for d
    by (cases d; cases cur) simp_all
  have "map_of rows (currency_name cur) = None"
    using IH(2) by (auto simp: map_of_eq_None_iff)
  with IH cur inj seen show ?case
    by (auto split: option.splits)
qed

section \<open>Plan features\<close>

fun feature_name :: "plan_feature \<Rightarrow> string" where
  "feature_name Storefront_Builder = ''storefront''"
| "feature_name Anomaly_Alerts = ''anomaly_alerts''"
| "feature_name Yield_Recommendations = ''yield_recommendations''"

fun tier_name :: "merchant_tier \<Rightarrow> string" where
  "tier_name Free = ''free''"
| "tier_name Starter = ''starter''"
| "tier_name Growth = ''growth''"
| "tier_name Enterprise = ''enterprise''"

definition assertPlanIncludes :: "merchant_tier \<Rightarrow> plan_feature \<Rightarrow> ('s, api_exn, unit) proc" where
  "assertPlanIncludes plan feature =
     (if planIncludes plan feature then ret ()
      else case lowestPlanWith feature of
        Inl e \<Rightarrow> raise e
      | Inr requiredPlan \<Rightarrow>
          raise (Http 403 ''plan_required'' (Fields [feature_name feature, tier_name plan, tier_name requiredPlan])))"

lemma assertPlanIncludes_eq:
  "assertPlanIncludes plan feature s =
     (if plan = Free then (Inl (Http 403 ''plan_required'' (Fields [feature_name feature, ''free'', ''starter''])), s)
      else (Inr (), s))"
  by (simp add: assertPlanIncludes_def)

lemma assertPlanIncludes_keeps [keeps_intros]: "keeps I (assertPlanIncludes p f)"
  by (simp add: keeps_def assertPlanIncludes_eq)

end
