(* ===== verification/Queue_Jobs.thy ===== *)
theory Queue_Jobs
  imports Money
begin

text \<open>
  The job payloads of \<open>packages/queue-contracts/src/jobs.ts\<close> and their schemas. A payload is a datatype
  with the source's fields; a schema is the predicate it enforces, and \<open>parse\<close> throws when it fails. The
  union of a schema is a datatype, so the discriminant always fits its fields.
\<close>

section \<open>Hex and decimal patterns\<close>

definition is_hex_char :: "char \<Rightarrow> bool" where
  "is_hex_char c \<longleftrightarrow>
     (let n = of_char c :: nat in (48 \<le> n \<and> n \<le> 57) \<or> (65 \<le> n \<and> n \<le> 70) \<or> (97 \<le> n \<and> n \<le> 102))"

definition hex_body :: "string \<Rightarrow> string option" where
  "hex_body s = (if starts_with s ''0x'' \<and> list_all is_hex_char (drop 2 s) then Some (drop 2 s) else None)"

definition hex_of_length :: "nat \<Rightarrow> string \<Rightarrow> bool" where
  "hex_of_length n s \<longleftrightarrow> (case hex_body s of None \<Rightarrow> False | Some b \<Rightarrow> length b = n)"

definition tx_hash_ok :: "string \<Rightarrow> bool" where
  "tx_hash_ok = hex_of_length 64"

definition address_ok :: "string \<Rightarrow> bool" where
  "address_ok = hex_of_length 40"

definition calldata_ok :: "string \<Rightarrow> bool" where
  "calldata_ok s \<longleftrightarrow> (case hex_body s of None \<Rightarrow> False | Some b \<Rightarrow> even (length b))"

definition nonempty_hex_ok :: "string \<Rightarrow> bool" where
  "nonempty_hex_ok s \<longleftrightarrow> (case hex_body s of None \<Rightarrow> False | Some b \<Rightarrow> b \<noteq> [])"

abbreviation digits_ok :: "string \<Rightarrow> bool" where
  "digits_ok \<equiv> token_amount_ok"

definition opt_ok :: "('a \<Rightarrow> bool) \<Rightarrow> 'a option \<Rightarrow> bool" where
  "opt_ok P x \<longleftrightarrow> (case x of None \<Rightarrow> True | Some y \<Rightarrow> P y)"

lemma opt_ok_simps [simp]: "opt_ok P None" "opt_ok P (Some y) = P y"
  by (simp_all add: opt_ok_def)

lemma starts_with_append [simp]: "starts_with (p @ s) p"
  by (simp add: starts_with_def)

lemma digits_ok_show_int [simp]: "0 \<le> n \<Longrightarrow> digits_ok (show_int n)"
  using show_nat_digits [of "nat n"]
  by (auto simp: token_amount_ok_def show_int_def) (subst (asm) show_nat.simps, simp split: if_splits)

lemma is_hex_char_lower: "is_hex_char c \<Longrightarrow> is_hex_char (ascii_lower c)"
  by (auto simp: is_hex_char_def ascii_lower_def Let_def of_char_of)

lemma address_ok_lower: "address_ok a \<Longrightarrow> address_ok (to_lower a)"
proof -
  assume "address_ok a"
  then have a: "starts_with a ''0x''" "list_all is_hex_char (drop 2 a)" "length (drop 2 a) = 40"
    by (auto simp: address_ok_def hex_of_length_def hex_body_def split: option.splits if_splits)
  from a(1) have "take 2 a = ''0x''" by (simp add: starts_with_def numeral_2_eq_2)
  then have "take 2 (to_lower a) = map ascii_lower ''0x''" by (simp add: to_lower_def take_map)
  then have "starts_with (to_lower a) ''0x''" by (simp add: starts_with_def ascii_lower_def numeral_2_eq_2)
  moreover have "list_all is_hex_char (drop 2 (to_lower a))"
    using a(2) by (auto simp: to_lower_def drop_map list_all_iff is_hex_char_lower)
  ultimately show ?thesis
    using a(3) by (simp add: address_ok_def hex_of_length_def hex_body_def)
qed

section \<open>Relay submissions\<close>

record relay_broadcast =
  bc_tx_hash :: string
  bc_nonce :: string
  bc_from :: "string option"
  bc_max_fee :: "string option"
  bc_max_priority_fee :: "string option"

record relay_call_fields =
  rc_idempotency_key :: string
  rc_to_address :: string
  rc_call_data :: string
  rc_gas_limit :: string
  rc_merchant_internal_id :: "string option"
  rc_session_id :: "string option"
  rc_subscription_internal_id :: "string option"
  rc_broadcast :: "relay_broadcast option"

record relay_registration_fields =
  rr_idempotency_key :: string
  rr_merchant_internal_id :: string
  rr_broadcast :: "relay_broadcast option"

datatype relay_job =
    Pay_Job relay_call_fields
  | Enrol_Job relay_call_fields
  | Register_Job relay_registration_fields

fun job_reason :: "relay_job \<Rightarrow> relay_reason" where
  "job_reason (Pay_Job _) = PayWithAuthorization"
| "job_reason (Enrol_Job _) = PermitAndCreateSubscription"
| "job_reason (Register_Job _) = RegisterMerchant"

fun job_key :: "relay_job \<Rightarrow> string" where
  "job_key (Pay_Job c) = rc_idempotency_key c"
| "job_key (Enrol_Job c) = rc_idempotency_key c"
| "job_key (Register_Job r) = rr_idempotency_key r"

fun job_merchant :: "relay_job \<Rightarrow> string option" where
  "job_merchant (Pay_Job c) = rc_merchant_internal_id c"
| "job_merchant (Enrol_Job c) = rc_merchant_internal_id c"
| "job_merchant (Register_Job r) = Some (rr_merchant_internal_id r)"

fun job_broadcast :: "relay_job \<Rightarrow> relay_broadcast option" where
  "job_broadcast (Pay_Job c) = rc_broadcast c"
| "job_broadcast (Enrol_Job c) = rc_broadcast c"
| "job_broadcast (Register_Job r) = rr_broadcast r"

fun set_broadcast :: "relay_broadcast \<Rightarrow> relay_job \<Rightarrow> relay_job" where
  "set_broadcast b (Pay_Job c) = Pay_Job (c\<lparr>rc_broadcast := Some b\<rparr>)"
| "set_broadcast b (Enrol_Job c) = Enrol_Job (c\<lparr>rc_broadcast := Some b\<rparr>)"
| "set_broadcast b (Register_Job r) = Register_Job (r\<lparr>rr_broadcast := Some b\<rparr>)"

definition relay_broadcast_ok :: "relay_broadcast \<Rightarrow> bool" where
  "relay_broadcast_ok b \<longleftrightarrow>
     tx_hash_ok (bc_tx_hash b) \<and> digits_ok (bc_nonce b) \<and> opt_ok address_ok (bc_from b) \<and>
     opt_ok digits_ok (bc_max_fee b) \<and> opt_ok digits_ok (bc_max_priority_fee b)"

definition relay_call_ok :: "relay_call_fields \<Rightarrow> bool" where
  "relay_call_ok c \<longleftrightarrow>
     rc_idempotency_key c \<noteq> [] \<and> address_ok (rc_to_address c) \<and> calldata_ok (rc_call_data c) \<and>
     digits_ok (rc_gas_limit c) \<and> opt_ok relay_broadcast_ok (rc_broadcast c)"

fun relay_job_ok :: "relay_job \<Rightarrow> bool" where
  "relay_job_ok (Pay_Job c) = relay_call_ok c"
| "relay_job_ok (Enrol_Job c) = relay_call_ok c"
| "relay_job_ok (Register_Job r) =
     (rr_idempotency_key r \<noteq> [] \<and> rr_merchant_internal_id r \<noteq> [] \<and>
      opt_ok relay_broadcast_ok (rr_broadcast r))"

definition parse_relay_job :: "relay_job \<Rightarrow> ('s, api_exn, relay_job) proc" where
  "parse_relay_job j = (if relay_job_ok j then ret j else raise (Crash ''ZodError''))"

lemma job_broadcast_set [simp]: "job_broadcast (set_broadcast b j) = Some b"
  by (cases j) simp_all

lemma job_key_set_broadcast [simp]: "job_key (set_broadcast b j) = job_key j"
  by (cases j) simp_all

lemma job_reason_set_broadcast [simp]: "job_reason (set_broadcast b j) = job_reason j"
  by (cases j) simp_all

lemma relay_job_ok_set_broadcast:
  "relay_job_ok j \<Longrightarrow> relay_broadcast_ok b \<Longrightarrow> relay_job_ok (set_broadcast b j)"
  by (cases j) (simp_all add: relay_call_ok_def)

lemma keeps_parse_relay_job [keeps_intros]: "keeps I (parse_relay_job j)"
  by (simp add: parse_relay_job_def keeps_ret keeps_raise)

section \<open>The other queues\<close>

record webhook_delivery_job =
  wj_delivery_id :: string
  wj_endpoint_id :: string
  wj_url :: string
  wj_signing_secret_hash :: string
  wj_event_id :: string

datatype agent_action_job =
    Cancel_Subscription_Onchain (ca_subscription_id: string) (ca_onchain_id: "nat option")
      (ca_merchant_id: string) (ca_reason: "string option")
  | Create_Job_Onchain string
  | Release_Job_Onchain string
  | Dispute_Job_Onchain string string
  | Cancel_Job_Onchain string string
  | Cctp_Settle (cs_merchant_id: string) (cs_source_domain: nat) (cs_source_tx: string)
      (cs_message: string) (cs_attestation: string) (cs_ref: "string option")

fun agent_action_job_ok :: "agent_action_job \<Rightarrow> bool" where
  "agent_action_job_ok (Cctp_Settle m d t msg att r) =
     (tx_hash_ok t \<and> nonempty_hex_ok msg \<and> nonempty_hex_ok att)"
| "agent_action_job_ok _ = True"

end
