(* ===== verification/Store.thy ===== *)
theory Store
  imports Queue_Jobs
begin

text \<open>
  The state the services share: the tables of \<open>packages/db/prisma/schema\<close>, the Redis keys and the
  BullMQ queues, as one record \<open>store\<close> that every handler takes and returns. A table is the list of its
  rows; the fields are those the modelled code reads or writes, with the schema's types. Amounts stay
  decimal strings, dates are instants in milliseconds, \<open>metadata\<close> is a list of key/value pairs.
  Queries are translated from the call in the source: \<open>findUnique\<close> is \<open>find_row\<close> on the key,
  \<open>updateMany\<close> is \<open>update_where\<close> with its count.
\<close>

section \<open>Enumerations\<close>

datatype session_status =
  Created | Awaiting_Payment | Submitted | Confirmed | Failed | Expired | Cancelled

datatype subscription_interval = Daily | Weekly | Monthly | Quarterly | Yearly

datatype plan_status = Plan_Active | Plan_Archived

datatype subscription_status =
  Trialing | Sub_Active | At_Risk | Paused | Sub_Cancelled | Lapsed

datatype transaction_status = Tx_Pending | Tx_Confirmed | Tx_Failed

datatype transaction_kind =
  One_Shot | Subscription_Charge | Refund_Kind | Invoice_Payment | Storefront_Purchase

datatype charge_status =
  Ch_Pending | Ch_In_Flight | Ch_Succeeded | Ch_Failed | Ch_Retrying | Ch_Abandoned

datatype charge_outcome =
  Oc_Charged | Oc_Insufficient_Funds | Oc_Revoked_Approval | Oc_Cancelled | Oc_Not_Due | Oc_Ended |
  Oc_Duplicate | Oc_Unknown | Oc_Merchant_Inactive | Oc_Transfer_Failed | Oc_Skipped

datatype refund_status =
  Rf_Pending | Awaiting_Signature | Rf_Submitted | Rf_Completed | Rf_Failed | Rf_Cancelled

datatype invoice_status = Draft | Sent | Paid | Overdue | Void

datatype storefront_status = Sf_Draft | Sf_Published | Sf_Archived

datatype product_type = One_Time | Subscription_Product

datatype endpoint_status = Ep_Active | Ep_Disabled

datatype delivery_status = Dl_Pending | Dl_Delivered | Dl_Retrying | Dl_Permanently_Failed

datatype agent_job_status =
  Aj_Proposed | Aj_Accepted | Aj_Funded | Aj_In_Progress | Aj_Delivered | Aj_Approved |
  Aj_Completed | Aj_Disputed | Aj_Cancelled | Aj_Resolved | Aj_Reclaimed

type_synonym metadata = "(string \<times> string) list"

datatype merchant_status = Merchant_Active | Merchant_Suspended | Merchant_Closed

datatype api_key_scope =
    Sessions_Read | Sessions_Write | Subscriptions_Read | Subscriptions_Write | Refunds_Read | Refunds_Write
  | Transactions_Read | Webhooks_Read | Webhooks_Write | Invoices_Read | Invoices_Write
  | Storefronts_Read | Storefronts_Write | Agents_Read | Agents_Write | Relay_Read | Relay_Write
  | Api_Keys_Read | Api_Keys_Write | Merchants_Read | Customers_Read | Customers_Write | Analytics_Read

datatype admin_role = Super_Admin | Admin | Read_Only

datatype agent_capability =
  Cap_Identity | Cap_Recovery | Cap_Routing | Cap_Cashflow | Cap_Commerce | Cap_Pricing_Intelligence

section \<open>Rows\<close>

record merchant_row =
  m_id :: string
  m_email :: string
  m_business_name :: "string option"
  m_tier :: merchant_tier
  m_wallet_address :: "string option"
  m_payout_address :: "string option"
  m_onboarding_completed :: bool
  m_onchain_merchant_id :: "nat option"
  m_onchain_registration_tx_hash :: "string option"
  m_onchain_registration_requested_at :: "int option"
  m_onchain_fee_bps :: "nat option"
  m_onchain_fee_tx_hash :: "string option"
  m_onchain_fee_changed_at :: "int option"
  m_privy_user_id :: "string option"
  m_email_verified :: bool
  m_two_factor_enabled :: bool
  m_status :: merchant_status
  m_business_sector :: "string option"
  m_default_currency :: payment_currency
  m_country_code :: "string option"
  m_phone :: "string option"
  m_website_url :: "string option"
  m_logo_url :: "string option"
  m_email_prefs :: "(string \<times> bool) list"
  m_metadata :: metadata
  m_last_login_at :: "int option"
  m_notifications_last_read_at :: "int option"
  m_created_at :: int

record api_key_row =
  ak_id :: string
  ak_merchant_id :: string
  ak_name :: string
  ak_kind :: api_key_kind
  ak_mode :: api_mode
  ak_hash :: string
  ak_prefix :: string
  ak_last_four :: string
  ak_scopes :: "api_key_scope list"
  ak_last_used_at :: "int option"
  ak_revoked_at :: "int option"
  ak_created_at :: int

record admin_user_row =
  ad_id :: string
  ad_privy_user_id :: "string option"
  ad_email :: string
  ad_role :: admin_role
  ad_active :: bool
  ad_name :: "string option"
  ad_invited_by :: "string option"
  ad_invite_token_hash :: "string option"
  ad_invite_expires_at :: "int option"
  ad_last_login_at :: "int option"
  ad_created_at :: int

record broadcast_row =
  bc_id :: string
  bc_sender_id :: string
  bc_to_all :: bool
  bc_merchant_id :: "string option"
  bc_title :: string
  bc_body :: string
  bc_emailed_at :: "int option"
  bc_created_at :: int

record customer_row =
  cu_id :: string
  cu_merchant_id :: string
  cu_wallet_address :: string
  cu_email :: "string option"
  cu_external_ref :: "string option"
  cu_display_name :: "string option"
  cu_email_history :: "(string \<times> int) list"
  cu_metadata :: metadata
  cu_first_seen_at :: int
  cu_last_seen_at :: int

record session_row =
  ps_id :: string
  ps_merchant_id :: string
  ps_customer_id :: "string option"
  ps_status :: session_status
  ps_amount :: string
  ps_currency :: payment_currency
  ps_fee_amount :: string
  ps_net_amount :: string
  ps_description :: "string option"
  ps_payer_wallet_address :: "string option"
  ps_payer_email :: "string option"
  ps_success_url :: "string option"
  ps_cancel_url :: "string option"
  ps_source_chain :: "string option"
  ps_bridge_tx_hash :: "string option"
  ps_onchain_tx_hash :: "string option"
  ps_checkout_url :: string
  ps_storefront_product_id :: "string option"
  ps_mode :: api_mode
  ps_metadata :: metadata
  ps_expires_at :: int
  ps_created_at :: int
  ps_updated_at :: int

record plan_row =
  pl_id :: string
  pl_merchant_id :: string
  pl_name :: string
  pl_description :: "string option"
  pl_amount :: string
  pl_currency :: payment_currency
  pl_interval :: subscription_interval
  pl_interval_count :: nat
  pl_trial_period_days :: "int option"
  pl_status :: plan_status
  pl_success_url :: "string option"
  pl_cancel_url :: "string option"
  pl_metadata :: metadata
  pl_created_at :: int
  pl_updated_at :: int

record sub_row =
  su_id :: string
  su_onchain_subscription_id :: "nat option"
  su_enrolment_tx_hash :: "string option"
  su_merchant_id :: string
  su_customer_id :: string
  su_plan_id :: string
  su_status :: subscription_status
  su_payer_address :: string
  su_currency :: payment_currency
  su_amount :: string
  su_interval :: subscription_interval
  su_interval_count :: nat
  su_trial_ends_at :: "int option"
  su_current_period_start_at :: int
  su_current_period_end_at :: int
  su_next_charge_at :: "int option"
  su_grace_period_hours :: int
  su_charge_lock :: bool
  su_charge_lock_acquired_at :: "int option"
  su_next_retry_at :: "int option"
  su_cancelled_at :: "int option"
  su_cancellation_reason :: "string option"
  su_mode :: api_mode
  su_metadata :: metadata
  su_created_at :: int
  su_updated_at :: int

record tx_row =
  tx_id :: string
  tx_merchant_id :: string
  tx_kind :: transaction_kind
  tx_status :: transaction_status
  tx_customer_id :: "string option"
  tx_session_id :: "string option"
  tx_subscription_id :: "string option"
  tx_subscription_charge_id :: "string option"
  tx_refund_id :: "string option"
  tx_amount :: string
  tx_fee_amount :: string
  tx_net_amount :: string
  tx_currency :: payment_currency
  tx_payer_address :: string
  tx_merchant_address :: string
  tx_onchain_tx_hash :: string
  tx_block_number :: nat
  tx_block_timestamp :: int
  tx_mode :: api_mode
  tx_created_at :: int

record refund_row =
  rf_id :: string
  rf_merchant_id :: string
  rf_transaction_id :: string
  rf_amount :: string
  rf_currency :: payment_currency
  rf_reason :: string
  rf_note :: "string option"
  rf_status :: refund_status
  rf_payer_address :: string
  rf_refund_tx_hash :: "string option"
  rf_failure_reason :: "string option"
  rf_initiated_by_id :: string
  rf_mode :: api_mode
  rf_created_at :: int
  rf_completed_at :: "int option"

record line_item =
  li_description :: string
  li_quantity :: nat
  li_unit_amount :: string

record invoice_row =
  iv_id :: string
  iv_merchant_id :: string
  iv_number :: string
  iv_customer_name :: "string option"
  iv_customer_email :: "string option"
  iv_line_items :: "line_item list"
  iv_subtotal :: string
  iv_total :: string
  iv_currency :: payment_currency
  iv_status :: invoice_status
  iv_note :: "string option"
  iv_session_id :: "string option"
  iv_mode :: api_mode
  iv_due_at :: int
  iv_paid_at :: "int option"
  iv_sent_at :: "int option"
  iv_created_at :: int
  iv_updated_at :: int

record storefront_row =
  sf_id :: string
  sf_merchant_id :: string
  sf_slug :: string
  sf_name :: string
  sf_description :: "string option"
  sf_logo_url :: "string option"
  sf_cover_image_url :: "string option"
  sf_accent_color :: "string option"
  sf_social_links :: "string list"
  sf_status :: storefront_status
  sf_created_at :: int
  sf_updated_at :: int

record product_row =
  pr_id :: string
  pr_storefront_id :: string
  pr_name :: string
  pr_description :: "string option"
  pr_image_url :: "string option"
  pr_price :: string
  pr_currency :: payment_currency
  pr_type :: product_type
  pr_interval :: "subscription_interval option"
  pr_interval_count :: "nat option"
  pr_stock :: "int option"
  pr_plan_id :: "string option"
  pr_is_active :: bool
  pr_sort_order :: int
  pr_created_at :: int
  pr_updated_at :: int

record usage_row =
  ru_merchant_id :: string
  ru_day :: int
  ru_submissions :: nat
  ru_gas_used_wei :: int
  ru_warned_at :: "int option"
  ru_exhausted_at :: "int option"

record charge_row =
  ch_id :: string
  ch_subscription_id :: string
  ch_merchant_id :: string
  ch_charge_attempt_id :: string
  ch_period_start_at :: int
  ch_period_end_at :: int
  ch_amount :: string
  ch_currency :: payment_currency
  ch_status :: charge_status
  ch_outcome :: "charge_outcome option"
  ch_attempt_number :: nat
  ch_scheduled_at :: int
  ch_executed_at :: "int option"
  ch_onchain_tx_hash :: "string option"
  ch_failure_reason :: "string option"
  ch_created_at :: int
  ch_updated_at :: int

record agent_config_row =
  ac_merchant_id :: string
  ac_enabled_capabilities :: "agent_capability list"
  ac_grace_period_hours :: nat
  ac_strategy :: string
  ac_notification_template :: "string option"
  ac_digest_enabled :: bool
  ac_anomaly_sensitivity :: string
  ac_auto_convert_to_yield :: bool
  ac_minimum_reserve_cents :: nat
  ac_approval_above_cents :: nat
  ac_approved_vendors :: "string list"
  ac_monthly_cap_cents :: "nat option"

record agent_job_row =
  aj_id :: string
  aj_merchant_id :: string
  aj_onchain_job_id :: "nat option"
  aj_vendor_address :: string
  aj_description :: string
  aj_amount :: string
  aj_currency :: payment_currency
  aj_status :: agent_job_status
  aj_assessor_address :: string
  aj_escrow_tx_hash :: "string option"
  aj_created_at :: int

datatype activity_outcome = Act_Success | Act_Failure | Act_Pending | Act_Skipped

record activity_row =
  at_id :: string
  at_merchant_id :: string
  at_capability :: agent_capability
  at_action_type :: string
  at_outcome :: activity_outcome
  at_subscription_id :: "string option"
  at_transaction_id :: "string option"
  at_job_id :: "string option"
  at_metadata :: metadata
  at_created_at :: int

record endpoint_row =
  ep_id :: string
  ep_merchant_id :: string
  ep_mode :: api_mode
  ep_url :: string
  ep_events :: "string list"
  ep_status :: endpoint_status
  ep_signing_secret_hash :: string
  ep_signing_secret_ciphertext :: "string option"
  ep_signing_secret_prefix :: string
  ep_description :: "string option"
  ep_last_delivered_at :: "int option"
  ep_created_at :: int

record delivery_row =
  dl_id :: string
  dl_delivery_id :: string
  dl_merchant_id :: string
  dl_endpoint_id :: string
  dl_event_id :: string
  dl_event_name :: string
  dl_status :: delivery_status
  dl_attempt :: nat
  dl_response_code :: "nat option"
  dl_response_ms :: "int option"
  dl_response_body :: "string option"
  dl_last_error :: "string option"
  dl_next_attempt_at :: "int option"
  dl_delivered_at :: "int option"
  dl_created_at :: int

text \<open>
  The stub payload a producer leaves in the outbox (\<open>infra/webhook-outbox/outbox-ref.ts\<close>), with the
  identifiers of the rows the dispatcher loads.
\<close>

datatype outbox_ref =
    Ref_Payment_Completed (rp_session: string) (rp_transaction: string)
  | Ref_Payment_Failed string "string option"
  | Ref_Invoice_Paid string string
  | Ref_Invoice_Overdue string
  | Ref_Subscription_Created string
  | Ref_Subscription_Lapsed string
  | Ref_Subscription_Charged string string string
  | Ref_Charge_Failed string string
  | Ref_Recovery_Attempt string int
  | Ref_Refund_Completed string

text \<open>
  A payment session as the API and the webhooks show it: the columns of the row but the internal ones,
  plus the merchant's on-chain id (a decimal string) and the token address of the currency.
\<close>

record session_wire =
  sw_id :: string
  sw_merchant_id :: string
  sw_chain_merchant_id :: "string option"
  sw_token_address :: "string option"
  sw_customer_id :: "string option"
  sw_status :: session_status
  sw_amount :: string
  sw_currency :: payment_currency
  sw_fee_amount :: string
  sw_net_amount :: string
  sw_description :: "string option"
  sw_payer_wallet_address :: "string option"
  sw_payer_email :: "string option"
  sw_success_url :: "string option"
  sw_cancel_url :: "string option"
  sw_source_chain :: "string option"
  sw_bridge_tx_hash :: "string option"
  sw_onchain_tx_hash :: "string option"
  sw_checkout_url :: string
  sw_metadata :: metadata
  sw_expires_at :: int
  sw_created_at :: int
  sw_updated_at :: int

text \<open>
  The other wire forms. The serialisers of the API (\<open>serialise\<close> of the invoice, refund and subscription
  services) and of the scheduler (\<open>infra/webhook-outbox/serialisers.ts\<close>) are the same projections.
\<close>

record invoice_wire =
  iw_id :: string
  iw_merchant_id :: string
  iw_number :: string
  iw_customer_name :: "string option"
  iw_customer_email :: "string option"
  iw_line_items :: "line_item list"
  iw_subtotal :: string
  iw_total :: string
  iw_currency :: payment_currency
  iw_status :: invoice_status
  iw_note :: "string option"
  iw_session_id :: "string option"
  iw_due_at :: int
  iw_paid_at :: "int option"
  iw_sent_at :: "int option"
  iw_created_at :: int
  iw_updated_at :: int

definition serialise_invoice :: "invoice_row \<Rightarrow> invoice_wire" where
  "serialise_invoice r = \<lparr>
     iw_id = iv_id r, iw_merchant_id = iv_merchant_id r, iw_number = iv_number r,
     iw_customer_name = iv_customer_name r, iw_customer_email = iv_customer_email r,
     iw_line_items = iv_line_items r, iw_subtotal = iv_subtotal r, iw_total = iv_total r,
     iw_currency = iv_currency r, iw_status = iv_status r, iw_note = iv_note r,
     iw_session_id = iv_session_id r, iw_due_at = iv_due_at r, iw_paid_at = iv_paid_at r,
     iw_sent_at = iv_sent_at r, iw_created_at = iv_created_at r, iw_updated_at = iv_updated_at r\<rparr>"

record refund_wire =
  fw_id :: string
  fw_merchant_id :: string
  fw_transaction_id :: string
  fw_amount :: string
  fw_currency :: payment_currency
  fw_reason :: string
  fw_note :: "string option"
  fw_status :: refund_status
  fw_payer_address :: string
  fw_refund_tx_hash :: "string option"
  fw_failure_reason :: "string option"
  fw_initiated_by :: string
  fw_created_at :: int
  fw_completed_at :: "int option"

definition serialise_refund :: "refund_row \<Rightarrow> refund_wire" where
  "serialise_refund r = \<lparr>
     fw_id = rf_id r, fw_merchant_id = rf_merchant_id r, fw_transaction_id = rf_transaction_id r,
     fw_amount = rf_amount r, fw_currency = rf_currency r, fw_reason = rf_reason r, fw_note = rf_note r,
     fw_status = rf_status r, fw_payer_address = rf_payer_address r, fw_refund_tx_hash = rf_refund_tx_hash r,
     fw_failure_reason = rf_failure_reason r, fw_initiated_by = rf_initiated_by_id r,
     fw_created_at = rf_created_at r, fw_completed_at = rf_completed_at r\<rparr>"

record sub_wire =
  uw_id :: string
  uw_onchain_subscription_id :: "nat option"
  uw_merchant_id :: string
  uw_customer_id :: string
  uw_plan_id :: string
  uw_status :: subscription_status
  uw_payer_address :: string
  uw_currency :: payment_currency
  uw_amount :: string
  uw_interval :: subscription_interval
  uw_interval_count :: nat
  uw_trial_ends_at :: "int option"
  uw_current_period_start_at :: int
  uw_current_period_end_at :: int
  uw_next_charge_at :: "int option"
  uw_grace_period_hours :: int
  uw_cancelled_at :: "int option"
  uw_metadata :: metadata
  uw_created_at :: int
  uw_updated_at :: int

definition serialise_sub :: "sub_row \<Rightarrow> sub_wire" where
  "serialise_sub r = \<lparr>
     uw_id = su_id r, uw_onchain_subscription_id = su_onchain_subscription_id r,
     uw_merchant_id = su_merchant_id r, uw_customer_id = su_customer_id r, uw_plan_id = su_plan_id r,
     uw_status = su_status r, uw_payer_address = su_payer_address r, uw_currency = su_currency r,
     uw_amount = su_amount r, uw_interval = su_interval r, uw_interval_count = su_interval_count r,
     uw_trial_ends_at = su_trial_ends_at r, uw_current_period_start_at = su_current_period_start_at r,
     uw_current_period_end_at = su_current_period_end_at r, uw_next_charge_at = su_next_charge_at r,
     uw_grace_period_hours = su_grace_period_hours r, uw_cancelled_at = su_cancelled_at r,
     uw_metadata = su_metadata r, uw_created_at = su_created_at r, uw_updated_at = su_updated_at r\<rparr>"

record tx_wire =
  tw_id :: string
  tw_merchant_id :: string
  tw_kind :: transaction_kind
  tw_status :: transaction_status
  tw_session_id :: "string option"
  tw_subscription_id :: "string option"
  tw_subscription_charge_id :: "string option"
  tw_refund_id :: "string option"
  tw_customer_id :: "string option"
  tw_amount :: string
  tw_fee_amount :: string
  tw_net_amount :: string
  tw_currency :: payment_currency
  tw_payer_address :: string
  tw_merchant_address :: string
  tw_onchain_tx_hash :: string
  tw_block_number :: nat
  tw_block_timestamp :: int
  tw_created_at :: int

definition serialise_tx :: "tx_row \<Rightarrow> tx_wire" where
  "serialise_tx r = \<lparr>
     tw_id = tx_id r, tw_merchant_id = tx_merchant_id r, tw_kind = tx_kind r, tw_status = tx_status r,
     tw_session_id = tx_session_id r, tw_subscription_id = tx_subscription_id r,
     tw_subscription_charge_id = tx_subscription_charge_id r, tw_refund_id = tx_refund_id r,
     tw_customer_id = tx_customer_id r, tw_amount = tx_amount r, tw_fee_amount = tx_fee_amount r,
     tw_net_amount = tx_net_amount r, tw_currency = tx_currency r, tw_payer_address = tx_payer_address r,
     tw_merchant_address = tx_merchant_address r, tw_onchain_tx_hash = tx_onchain_tx_hash r,
     tw_block_number = tx_block_number r, tw_block_timestamp = tx_block_timestamp r,
     tw_created_at = tx_created_at r\<rparr>"

text \<open>A charge is shown with every column the model keeps, so its wire form is the row.\<close>

datatype wire_body =
    Session_Body session_wire
  | Invoice_Body invoice_wire
  | Subscription_Body sub_wire
  | Refund_Body refund_wire
  | Paid_Session_Body session_wire tx_wire
  | Paid_Invoice_Body invoice_wire tx_wire
  | Charged_Body sub_wire charge_row tx_wire
  | Charge_Failed_Body sub_wire charge_row
  | Refunded_Body refund_wire tx_wire
  | Recovery_Body sub_wire int
  | Session_Failed_Body session_wire string

datatype event_payload =
    Envelope (en_type: string) (en_mode: api_mode) (en_created_at: int) (en_body: wire_body)
  | Ref_Payload outbox_ref
  | Bad_Ref

record event_row =
  ev_id :: string
  ev_merchant_id :: string
  ev_type :: string
  ev_mode :: api_mode
  ev_payload :: event_payload
  ev_dispatched_at :: "int option"
  ev_dispatch_error :: "string option"
  ev_created_at :: int

text \<open>
  The metadata of the audit entries the operators are alerted to, \<open>alertMetadataSchema\<close> of
  \<open>crons/contract-alerts\<close>: all fields optional but, for an entry that parses, the transaction hash.
\<close>

record alert_metadata =
  al_transaction_hash :: "string option"
  al_contract_name :: "string option"
  al_role_name :: "string option"
  al_previous_admin_role_name :: "string option"
  al_new_admin_role_name :: "string option"
  al_account :: "string option"
  al_sender :: "string option"
  al_implementation :: "string option"
  al_operation_id :: "string option"
  al_target :: "string option"
  al_value :: "string option"
  al_data :: "string option"
  al_delay :: "string option"
  al_old_duration :: "string option"
  al_new_duration :: "string option"
  al_merchant_id :: "string option"
  al_business_name :: "string option"
  al_tier :: "merchant_tier option"
  al_plan_fee_bps :: "nat option"
  al_onchain_fee_bps :: "nat option"
  al_onchain_merchant_id :: "string option"
  al_above_plan :: "bool option"
  al_new_payout_address :: "string option"
  al_commit_at :: "int option"
  al_current_owner :: "string option"
  al_pending_owner :: "string option"
  al_acceptable_at :: "int option"

text \<open>An audit entry, with the metadata of the actions the modelled code records.\<close>

datatype audit_metadata =
    Plan_Upgraded_Meta (am_previous: merchant_tier) (am_next: merchant_tier) nat "string option" "(payment_currency \<times> string) list"
  | Alert_Meta alert_metadata
  | Merchant_Status_Meta merchant_status merchant_status
  | Merchant_Tier_Meta merchant_tier merchant_tier nat nat
  | Admin_Invite_Meta string admin_role
  | Invite_Accepted_Meta string
  | Admin_Role_Meta admin_role admin_role
  | Admin_Status_Meta bool bool
  | Broadcast_Meta bool "string option" nat nat

record audit_row =
  au_id :: "string option"
  au_merchant_id :: "string option"
  au_actor_id :: "string option"
  au_category :: string
  au_action :: string
  au_target_type :: string
  au_target_id :: string
  au_metadata :: audit_metadata

record contract_alert_row =
  ca_audit_log_id :: string
  ca_chain_id :: nat
  ca_created_at :: int
  ca_alerted_at :: "int option"

record security_alert_row =
  sa_id :: string
  sa_audit_log_id :: string
  sa_merchant_id :: string
  sa_created_at :: int

text \<open>
  The mails that are sent once per row: one constructor per column \<open>welcomeNotifiedAt\<close>, \<open>merchantNotifiedAt\<close>,
  \<open>notifiedAt\<close> and \<open>customerNotifiedAt\<close> of the tables that have it. The store keeps these columns as one
  function of the column and the identifier of the row.
\<close>

datatype notice =
    Merchant_Welcome | Merchant_Payment | Merchant_Sub_Started | Merchant_Charged | Merchant_Security
  | Payer_Payment | Payer_Sub_Started | Payer_Charged | Payer_Refund

text \<open>A BullMQ job of the relay queue, with the states BullMQ reports.\<close>

datatype job_state =
  Q_Waiting | Q_Active | Q_Delayed | Q_Completed | Q_Failed | Q_Paused | Q_Waiting_Children

datatype relay_job_result =
    Relayed (rs_tx_hash: string) (rs_block_number: nat) (rs_block_hash: string)
  | Skipped_Registered nat

record queued_job =
  qj_id :: string
  qj_data :: relay_job
  qj_state :: job_state
  qj_returnvalue :: "relay_job_result option"
  qj_failed_reason :: "string option"
  qj_attempts_made :: nat
  qj_timestamp :: int

record email =
  em_to :: string
  em_subject :: string
  em_about :: "string list"

section \<open>The shared state\<close>

record store =
  merchants :: "merchant_row list"
  api_keys :: "api_key_row list"
  admin_users :: "admin_user_row list"
  customers :: "customer_row list"
  sessions :: "session_row list"
  plans :: "plan_row list"
  subs :: "sub_row list"
  transactions :: "tx_row list"
  refunds :: "refund_row list"
  charges :: "charge_row list"
  invoices :: "invoice_row list"
  storefronts :: "storefront_row list"
  products :: "product_row list"
  usage :: "usage_row list"
  agent_configs :: "agent_config_row list"
  agent_jobs :: "agent_job_row list"
  activity :: "activity_row list"
  endpoints :: "endpoint_row list"
  deliveries :: "delivery_row list"
  events :: "event_row list"
  broadcasts :: "broadcast_row list"
  audit :: "audit_row list"
  contract_alerts :: "contract_alert_row list"
  security_alerts :: "security_alert_row list"
  notified :: "notice \<Rightarrow> string \<Rightarrow> int option"
  redis :: "string \<Rightarrow> string option"
  relay_queue :: "queued_job list"
  agent_queue :: "agent_action_job list"
  due_queue :: "string list"
  delivery_queue :: "(int \<times> webhook_delivery_job) list"
  emails :: "email list"

definition empty_store :: store where
  "empty_store = \<lparr>merchants = [], api_keys = [], admin_users = [], customers = [], sessions = [], plans = [], subs = [],
     transactions = [], refunds = [], charges = [], invoices = [], storefronts = [], products = [], usage = [],
     agent_configs = [], agent_jobs = [], activity = [], endpoints = [], deliveries = [], events = [], broadcasts = [], audit = [],
     contract_alerts = [], security_alerts = [], notified = (\<lambda>_ _. None),
     redis = (\<lambda>_. None), relay_queue = [], agent_queue = [], due_queue = [], delivery_queue = [],
     emails = []\<rparr>"

text \<open>The settings the modelled code reads (\<open>config/env.schema.ts\<close> of the API and the scheduler).\<close>

record config =
  cf_arc_usdc_address :: "string option"
  cf_arc_eurc_address :: "string option"
  cf_checkout_origin :: string
  cf_api_base_url :: string
  cf_payments_address :: "string option"
  cf_subscriptions_address :: "string option"
  cf_registry_address :: string
  cf_ops_alert_email :: "string option"
  cf_arc_environment :: arc_environment
  cf_webhook_max_attempts :: nat
  cf_sweep_limit :: nat

section \<open>Outbox events\<close>

fun dot_to_underscore :: "string \<Rightarrow> string" where
  "dot_to_underscore [] = []"
| "dot_to_underscore (c # cs) = (if c = CHR ''.'' then CHR ''_'' else c) # dot_to_underscore cs"

text \<open>
  \<open>WebhookEventService.fire\<close> (\<open>apps/api/src/infra/events\<close>): one undispatched row with the full
  envelope. \<open>eid\<close> is the fresh \<open>evt_<uuid>\<close>.
\<close>

definition fire ::
  "string \<Rightarrow> int \<Rightarrow> string \<Rightarrow> api_mode \<Rightarrow> string \<Rightarrow> wire_body \<Rightarrow> (store, api_exn, unit) proc" where
  "fire eid now merchantId mode name body =
     modify (\<lambda>s. s\<lparr>events := events s @ [\<lparr>ev_id = eid, ev_merchant_id = merchantId,
       ev_type = dot_to_underscore name, ev_mode = mode,
       ev_payload = Envelope name mode now body, ev_dispatched_at = None, ev_dispatch_error = None,
       ev_created_at = now\<rparr>]\<rparr>)"

lemma fire_app [simp]:
  "fire eid now mid mode name body s =
     (Inr (), s\<lparr>events := events s @ [\<lparr>ev_id = eid, ev_merchant_id = mid,
       ev_type = dot_to_underscore name, ev_mode = mode,
       ev_payload = Envelope name mode now body, ev_dispatched_at = None, ev_dispatch_error = None,
       ev_created_at = now\<rparr>]\<rparr>)"
  by (simp add: fire_def)

lemma seq_fire [simp]:
  "seq (fire eid now mid mode name body) k s = k () (snd (fire eid now mid mode name body s))"
  by (simp add: seq_def)

end
