(* ===== verification/Merchant_Chain.thy ===== *)
theory Merchant_Chain
  imports Store
begin

text \<open>
  The merchant's on-chain identity: \<open>apps/api/src/modules/merchants/registration.ts\<close> and
  \<open>merchant-chain.service.ts\<close>, with the queue entry of \<open>infra/queue/queue.service.ts\<close>. The registry
  contract and the ABI codec are parameters: \<open>registry\<close> is the result of the reads (\<open>None\<close> when the
  RPC fails), \<open>decode\<close> the event decoder (\<open>None\<close> when it throws), \<open>encode\<close> the call encoder.
\<close>

section \<open>Registration\<close>

definition REGISTER_MERCHANT_GAS_LIMIT :: int where
  "REGISTER_MERCHANT_GAS_LIMIT = 300000"

definition NO_PARENT :: nat where
  "NO_PARENT = 0"

definition registrationGaps :: "merchant_row \<Rightarrow> string list" where
  "registrationGaps m =
     (if truthy (m_wallet_address m) then [] else [''walletAddress'']) @
     (if truthy (m_payout_address m) then [] else [''payoutAddress'']) @
     (if m_onboarding_completed m then [] else [''onboardingCompleted''])"

definition registrationFeeBps :: "merchant_tier \<Rightarrow> api_exn + nat" where
  "registrationFeeBps tier =
     (case planFeeBps tier of None \<Rightarrow> Inl (Crash ''plan has no fixed fee'') | Some f \<Rightarrow> Inr f)"

text \<open>The arguments of \<open>registerMerchant(owner, payout, feeBps, maxFeeBps, parent)\<close>.\<close>

record register_args =
  ra_owner :: "string option"
  ra_payout :: "string option"
  ra_fee_bps :: nat
  ra_max_fee_bps :: nat
  ra_parent :: nat

definition registerMerchantCallData ::
  "(register_args \<Rightarrow> string) \<Rightarrow> merchant_row \<Rightarrow> api_exn + string" where
  "registerMerchantCallData encode m =
     (case registrationFeeBps (m_tier m) of
        Inl e \<Rightarrow> Inl e
      | Inr fee \<Rightarrow> Inr (encode \<lparr>ra_owner = m_wallet_address m, ra_payout = m_payout_address m,
          ra_fee_bps = fee, ra_max_fee_bps = PLAN_FEE_CEILING_BPS, ra_parent = NO_PARENT\<rparr>))"

record log_entry =
  lg_address :: string
  lg_topics :: "string list"
  lg_data :: string

datatype decoded_event = Merchant_Registered nat | Other_Event

fun first_registered ::
  "(log_entry \<Rightarrow> decoded_event option) \<Rightarrow> string \<Rightarrow> log_entry list \<Rightarrow> nat option" where
  "first_registered decode registry [] = None"
| "first_registered decode registry (l # ls) =
     (if to_lower (lg_address l) \<noteq> to_lower registry then first_registered decode registry ls
      else case decode l of
        Some (Merchant_Registered i) \<Rightarrow> Some i
      | _ \<Rightarrow> first_registered decode registry ls)"

definition decodeMerchantRegisteredId ::
  "(log_entry \<Rightarrow> decoded_event option) \<Rightarrow> (string \<Rightarrow> nat) \<Rightarrow> log_entry list \<Rightarrow> string \<Rightarrow> api_exn + nat" where
  "decodeMerchantRegisteredId decode hexToBigInt logs registry =
     (case first_registered decode registry logs of
        Some i \<Rightarrow> Inr i
      | None \<Rightarrow>
          (case find (\<lambda>l. to_lower (lg_address l) = to_lower registry \<and> 2 \<le> length (lg_topics l)) logs of
             Some l \<Rightarrow> if lg_topics l ! 1 \<noteq> [] then Inr (hexToBigInt (lg_topics l ! 1))
                       else Inl (Crash ''MerchantRegistered event not found'')
           | None \<Rightarrow> Inl (Crash ''MerchantRegistered event not found'')))"

lemma registrationGaps_Nil:
  "registrationGaps m = [] \<longleftrightarrow>
     truthy (m_wallet_address m) \<and> truthy (m_payout_address m) \<and> m_onboarding_completed m"
  by (auto simp: registrationGaps_def)

lemma first_registered_Some:
  "first_registered decode r ls = Some i \<Longrightarrow>
   \<exists>l\<in>set ls. to_lower (lg_address l) = to_lower r \<and> decode l = Some (Merchant_Registered i)"
  by (induction ls) (auto split: if_splits option.splits decoded_event.splits)

text \<open>The id always comes from a log of the registry itself.\<close>

lemma decodeMerchantRegisteredId_source:
  assumes "decodeMerchantRegisteredId decode h logs r = Inr i"
  obtains l where "l \<in> set logs" "to_lower (lg_address l) = to_lower r"
    "decode l = Some (Merchant_Registered i) \<or> (2 \<le> length (lg_topics l) \<and> i = h (lg_topics l ! 1))"
proof (cases "first_registered decode r logs")
  case (Some j)
  with assms have "j = i" by (simp add: decodeMerchantRegisteredId_def)
  with first_registered_Some [OF Some] that show ?thesis by blast
next
  case None
  with assms obtain l where
    l: "find (\<lambda>l. to_lower (lg_address l) = to_lower r \<and> 2 \<le> length (lg_topics l)) logs = Some l"
    "i = h (lg_topics l ! 1)"
    by (auto simp: decodeMerchantRegisteredId_def split: option.splits if_splits)
  from l(1) have "l \<in> set logs" "to_lower (lg_address l) = to_lower r" "2 \<le> length (lg_topics l)"
    by (auto simp: find_Some_iff)
  with l(2) that show ?thesis by blast
qed

section \<open>The relay queue\<close>

text \<open>
  \<open>queue.add\<close> with a job id: a second job with the id of one that is still in the queue is not added.
\<close>

definition find_job :: "string \<Rightarrow> queued_job list \<Rightarrow> queued_job option" where
  "find_job = find_row qj_id"

definition queue_add :: "int \<Rightarrow> relay_job \<Rightarrow> queued_job list \<Rightarrow> queued_job list" where
  "queue_add now j q =
     (case find_job (job_key j) q of
        Some _ \<Rightarrow> q
      | None \<Rightarrow> q @ [\<lparr>qj_id = job_key j, qj_data = j, qj_state = Q_Waiting, qj_returnvalue = None,
          qj_failed_reason = None, qj_attempts_made = 0, qj_timestamp = now\<rparr>])"

definition addRelaySubmission :: "int \<Rightarrow> relay_job \<Rightarrow> (store, api_exn, unit) proc" where
  "addRelaySubmission now job =
     seq (parse_relay_job job) (\<lambda>parsed.
     modify (\<lambda>s. s\<lparr>relay_queue := queue_add now parsed (relay_queue s)\<rparr>))"

lemma find_job_add_same: "\<exists>j'. find_job (job_key j) (queue_add now j q) = Some j'"
  by (auto simp: queue_add_def find_job_def split: option.splits)

lemma find_job_add_other:
  "k \<noteq> job_key j \<Longrightarrow> find_job k (queue_add now j q) = find_job k q"
  by (auto simp: queue_add_def find_job_def split: option.splits)

lemma queue_add_idem: "queue_add t' j (queue_add t j q) = queue_add t j q"
  using find_job_add_same [of j t q] by (auto simp: queue_add_def [of t'])

lemma distinct_queue_add: "distinct (map qj_id q) \<Longrightarrow> distinct (map qj_id (queue_add now j q))"
  by (auto simp: queue_add_def find_job_def find_row_None split: option.split)

section \<open>The chain service\<close>

definition registration_key :: "string \<Rightarrow> string" where
  "registration_key merchantId = ''merchant-register:'' @ merchantId"

definition find_merchant :: "string \<Rightarrow> (store, api_exn, merchant_row) proc" where
  "find_merchant i = seq (gets (\<lambda>s. find_row m_id i (merchants s))) (or_raise p2025)"

definition enqueueRegistration :: "int \<Rightarrow> string \<Rightarrow> (store, api_exn, unit) proc" where
  "enqueueRegistration now merchantId =
     seq (addRelaySubmission now (Register_Job
            \<lparr>rr_idempotency_key = registration_key merchantId, rr_merchant_internal_id = merchantId,
             rr_broadcast = None\<rparr>)) (\<lambda>_.
     modify (\<lambda>s. s\<lparr>merchants := update_where (\<lambda>r. m_id r = merchantId)
       (\<lambda>r. r\<lparr>m_onchain_registration_requested_at := Some now\<rparr>) (merchants s)\<rparr>))"

definition requestRegistration :: "int \<Rightarrow> string \<Rightarrow> (store, api_exn, unit) proc" where
  "requestRegistration now merchantId =
     seq (find_merchant merchantId) (\<lambda>m.
     if m_onchain_merchant_id m \<noteq> None then ret ()
     else let missing = registrationGaps m in
       if missing \<noteq> []
       then raise (Http 412 ''merchant_not_eligible_for_onchain_registration'' (Fields missing))
       else enqueueRegistration now merchantId)"

definition startRegistrationIfEligible :: "int \<Rightarrow> string \<Rightarrow> (store, api_exn, bool) proc" where
  "startRegistrationIfEligible now merchantId =
     seq (find_merchant merchantId) (\<lambda>m.
     if m_onchain_merchant_id m \<noteq> None \<or> registrationGaps m \<noteq> [] then ret False
     else seq (enqueueRegistration now merchantId) (\<lambda>_. ret True))"

record chain_status =
  cs_onchain_id :: "nat option"
  cs_wallet :: "string option"
  cs_payout :: "string option"
  cs_eligible :: bool
  cs_missing :: "string list"

definition getStatus :: "string \<Rightarrow> (store, api_exn, chain_status) proc" where
  "getStatus merchantId =
     seq (find_merchant merchantId) (\<lambda>m.
     ret \<lparr>cs_onchain_id = m_onchain_merchant_id m, cs_wallet = m_wallet_address m,
          cs_payout = m_payout_address m, cs_eligible = (registrationGaps m = []),
          cs_missing = registrationGaps m\<rparr>)"

record registry_record =
  rg_owner :: string
  rg_payout_address :: string
  rg_fee_bps :: nat
  rg_max_fee_bps :: nat
  rg_active :: bool
  rg_pending_owner :: string
  rg_pending_payout_address :: string
  rg_payout_change_commit_at :: nat

record onchain_state =
  os_merchant_id :: nat
  os_registry :: string
  os_chain_id :: nat
  os_record :: registry_record
  os_pending_owner :: "string option"
  os_pending_owner_acceptable_at :: "nat option"
  os_pending_payout :: "string option"
  os_payout_change_commit_at :: "nat option"
  os_payout_change_delay :: nat

definition ZERO_ADDRESS :: string where
  "ZERO_ADDRESS = ''0x'' @ replicate 40 (CHR ''0'')"

definition unless_zero_address :: "string \<Rightarrow> string option" where
  "unless_zero_address a = (if a = ZERO_ADDRESS then None else Some a)"

text \<open>\<open>Number(n) || null\<close>.\<close>

definition nonzero :: "nat \<Rightarrow> nat option" where
  "nonzero n = (if n = 0 then None else Some n)"

text \<open>
  \<open>reads\<close> stands for the three contract reads of one \<open>Promise.all\<close>: the record, the payout delay and
  the time the pending owner may accept; \<open>None\<close> when any of them throws, which the code answers with
  \<open>null\<close> whatever the error is.
\<close>

definition getOnchainState ::
  "config \<Rightarrow> nat \<Rightarrow> (nat \<Rightarrow> (registry_record \<times> nat \<times> nat) option) \<Rightarrow> string \<Rightarrow>
   (store, api_exn, onchain_state option) proc" where
  "getOnchainState cfg chainId reads merchantId =
     seq (gets (\<lambda>s. find_row m_id merchantId (merchants s))) (\<lambda>row.
     case Option.bind row m_onchain_merchant_id of
       None \<Rightarrow> ret None
     | Some oid \<Rightarrow>
         if oid = 0 then ret None
         else case reads oid of
           None \<Rightarrow> ret None
         | Some (rec, delay, acceptableAt) \<Rightarrow>
             ret (Some \<lparr>os_merchant_id = oid, os_registry = cf_registry_address cfg, os_chain_id = chainId,
               os_record = rec, os_pending_owner = unless_zero_address (rg_pending_owner rec),
               os_pending_owner_acceptable_at = nonzero acceptableAt,
               os_pending_payout = unless_zero_address (rg_pending_payout_address rec),
               os_payout_change_commit_at = nonzero (rg_payout_change_commit_at rec),
               os_payout_change_delay = delay\<rparr>))"

type_synonym registry_fees = "nat \<Rightarrow> (nat \<times> nat) option"

definition readRegistryFee :: "registry_fees \<Rightarrow> nat \<Rightarrow> (store, api_exn, nat \<times> nat) proc" where
  "readRegistryFee registry oid =
     (case registry oid of
        None \<Rightarrow> raise (Http 503 ''chain_unavailable'' No_Details)
      | Some fees \<Rightarrow> ret fees)"

definition feeBpsFor :: "registry_fees \<Rightarrow> merchant_row \<Rightarrow> (store, api_exn, nat) proc" where
  "feeBpsFor registry m =
     (case planFeeBps (m_tier m) of
        Some f \<Rightarrow> ret f
      | None \<Rightarrow>
          (case m_onchain_merchant_id m of
             None \<Rightarrow> raise (conflict ''merchant_not_registered'')
           | Some oid \<Rightarrow> seq (readRegistryFee registry oid) (\<lambda>(fee, maxFee). ret fee)))"

lemma feeBpsFor_pure: "snd (feeBpsFor registry m s) = s"
  by (simp add: feeBpsFor_def readRegistryFee_def seq_def split: option.splits prod.splits)

lemma feeBpsFor_state: "feeBpsFor registry m s = (r, s') \<Longrightarrow> s' = s"
  by (metis feeBpsFor_pure snd_conv)

lemma find_merchant_app [simp]:
  "find_merchant i s = (case find_row m_id i (merchants s) of None \<Rightarrow> (Inl p2025, s) | Some m \<Rightarrow> (Inr m, s))"
  by (simp add: find_merchant_def)

lemma seq_find_merchant [simp]:
  "seq (find_merchant i) k s =
     (case find_row m_id i (merchants s) of None \<Rightarrow> (Inl p2025, s) | Some m \<Rightarrow> k m s)"
  by (simp add: seq_def split: option.split)

text \<open>What a registration request leaves alone: every table but the merchants', every key of Redis.\<close>

lemma requestRegistration_frame:
  assumes "requestRegistration now mid s = (r, s')"
  shows "\<exists>ms q. s' = s\<lparr>merchants := ms, relay_queue := q\<rparr> \<and>
           map m_id ms = map m_id (merchants s) \<and>
           (\<forall>k. k \<noteq> registration_key mid \<longrightarrow> find_job k q = find_job k (relay_queue s))"
proof -
  have same: "\<exists>ms q. s = s\<lparr>merchants := ms, relay_queue := q\<rparr> \<and> map m_id ms = map m_id (merchants s) \<and>
           (\<forall>k. k \<noteq> registration_key mid \<longrightarrow> find_job k q = find_job k (relay_queue s))"
    by (rule exI [of _ "merchants s"], rule exI [of _ "relay_queue s"]) simp
  have keys: "map m_id (update_where P (\<lambda>r. r\<lparr>m_onchain_registration_requested_at := Some now\<rparr>) t) =
    map m_id t" for P t
    by (induction t) auto
  show ?thesis
  proof (cases "find_row m_id mid (merchants s)")
    case None
    with assms same show ?thesis by (simp add: requestRegistration_def)
  next
    case (Some m)
    show ?thesis
    proof (cases "m_onchain_merchant_id m \<noteq> None \<or> registrationGaps m \<noteq> [] \<or> mid = []")
      case True
      with assms Some have "s' = s"
        by (auto simp: requestRegistration_def enqueueRegistration_def addRelaySubmission_def
            parse_relay_job_def seq_def Let_def registration_key_def split: if_splits)
      with same show ?thesis by blast
    next
      case False
      with assms Some have "s' = s\<lparr>merchants := update_where (\<lambda>r. m_id r = mid)
            (\<lambda>r. r\<lparr>m_onchain_registration_requested_at := Some now\<rparr>) (merchants s),
          relay_queue := queue_add now (Register_Job
            \<lparr>rr_idempotency_key = registration_key mid, rr_merchant_internal_id = mid,
             rr_broadcast = None\<rparr>) (relay_queue s)\<rparr>"
        by (auto simp: requestRegistration_def enqueueRegistration_def addRelaySubmission_def
            parse_relay_job_def seq_def registration_key_def)
      then show ?thesis
        by (intro exI, intro conjI, assumption) (auto simp: keys find_job_add_other)
    qed
  qed
qed

text \<open>Asking again for a registration that waits in the queue adds no second job.\<close>

lemma requestRegistration_idem:
  assumes "requestRegistration t mid s = (Inr u, s1)" and "requestRegistration t' mid s1 = (r, s2)"
  shows "relay_queue s2 = relay_queue s1"
  using assms
  by (auto simp: requestRegistration_def enqueueRegistration_def addRelaySubmission_def
      parse_relay_job_def seq_def Let_def queue_add_idem split: option.splits if_splits)

end
