(* ===== verification/Paging.thy ===== *)
theory Paging
  imports Store
begin

text \<open>
  The cursor pages every \<open>list\<close> handler of the API answers with: at most 100 rows (25 by default) in the
  handler's order, one row more fetched to learn whether there is a next page, and the id of the last row as
  the cursor. The query starts behind the cursor row (\<open>cursor: { id }, skip: 1\<close>). Following the cursors
  over an unchanged table visits every row once, in order (locale \<open>paged_rows\<close>).
\<close>

record list_params =
  lp_limit :: "nat option"
  lp_cursor :: "string option"

record 'r page =
  pg_data :: "'r list"
  pg_next_cursor :: "string option"
  pg_has_more :: bool

definition page_limit :: "list_params \<Rightarrow> nat" where
  "page_limit p = min (case lp_limit p of None \<Rightarrow> 25 | Some l \<Rightarrow> l) 100"

definition behind_cursor :: "('r \<Rightarrow> string) \<Rightarrow> string option \<Rightarrow> 'r list \<Rightarrow> 'r list" where
  "behind_cursor key c rows =
     (if truthy c then drop 1 (dropWhile (\<lambda>r. Some (key r) \<noteq> c) rows) else rows)"

definition list_page :: "('r \<Rightarrow> string) \<Rightarrow> list_params \<Rightarrow> 'r list \<Rightarrow> 'r page" where
  "list_page key p ordered =
     (let limit = page_limit p;
          rows = take (limit + 1) (behind_cursor key (lp_cursor p) ordered);
          more = limit < length rows;
          dat = take limit rows
      in \<lparr>pg_data = dat,
          pg_next_cursor = (if more then (if dat = [] then None else Some (key (last dat))) else None),
          pg_has_more = more\<rparr>)"

text \<open>The page as it is sent: every row through the handler's serialiser.\<close>

definition map_page :: "('r \<Rightarrow> 'w) \<Rightarrow> 'r page \<Rightarrow> 'w page" where
  "map_page f pg = \<lparr>pg_data = map f (pg_data pg), pg_next_cursor = pg_next_cursor pg, pg_has_more = pg_has_more pg\<rparr>"

text \<open>\<open>orderBy: { createdAt: 'desc' }\<close>.\<close>

definition newest_first :: "('r \<Rightarrow> int) \<Rightarrow> 'r list \<Rightarrow> 'r list" where
  "newest_first f rows = sort_key (\<lambda>r. - f r) rows"

lemma set_newest_first [simp]: "set (newest_first f rows) = set rows"
  by (simp add: newest_first_def)

lemma list_page_bound: "length (pg_data (list_page key p rows)) \<le> page_limit p \<and> page_limit p \<le> 100"
  by (simp add: list_page_def Let_def) (simp add: page_limit_def)

lemma set_behind_cursor: "set (behind_cursor key c rows) \<subseteq> set rows"
  by (auto simp: behind_cursor_def dest: set_dropWhileD in_set_dropD)

lemma list_page_subset: "set (pg_data (list_page key p rows)) \<subseteq> set rows"
  using set_behind_cursor [of key "lp_cursor p" rows]
  by (auto simp: list_page_def Let_def dest: in_set_takeD)

text \<open>A client that follows the cursor until there is no next page, with fuel for the requests it makes.\<close>

fun all_pages :: "nat \<Rightarrow> ('r \<Rightarrow> string) \<Rightarrow> nat \<Rightarrow> string option \<Rightarrow> 'r list \<Rightarrow> 'r list option" where
  "all_pages 0 key limit c rows = None"
| "all_pages (Suc fuel) key limit c rows =
     (let p = list_page key \<lparr>lp_limit = Some limit, lp_cursor = c\<rparr> rows
      in if pg_has_more p
         then map_option (\<lambda>rest. pg_data p @ rest) (all_pages fuel key limit (pg_next_cursor p) rows)
         else Some (pg_data p))"

text \<open>
  The contract of a listed table: in every state that satisfies \<open>ok\<close> its rows have distinct, nonempty
  keys (a primary key).
\<close>

locale paged_rows =
  fixes key :: "'r \<Rightarrow> string"
    and rows :: "'s \<Rightarrow> 'r list"
    and ok :: "'s \<Rightarrow> bool"
  assumes distinct_keys: "ok s \<Longrightarrow> distinct (map key (rows s))"
    and keys_nonempty: "ok s \<Longrightarrow> r \<in> set (rows s) \<Longrightarrow> key r \<noteq> []"
begin

lemma behind_split:
  assumes "ok s" and "rows s = xs @ r # ys"
  shows "behind_cursor key (Some (key r)) (rows s) = ys"
proof -
  have "key r \<noteq> []" using keys_nonempty assms by simp
  moreover have "\<And>x. x \<in> set xs \<Longrightarrow> key x \<noteq> key r"
    using distinct_keys [OF assms(1)] assms(2) by (auto simp: rev_image_eqI)
  ultimately show ?thesis
    using assms by (simp add: behind_cursor_def dropWhile_append2)
qed

lemma page_after:
  assumes ok: "ok s" and split: "rows s = xs @ ys" and c: "behind_cursor key c (rows s) = ys"
    and lim: "0 < limit" "limit \<le> 100"
  defines "p \<equiv> list_page key \<lparr>lp_limit = Some limit, lp_cursor = c\<rparr> (rows s)"
  shows "pg_data p = take limit ys \<and> (pg_has_more p \<longleftrightarrow> limit < length ys) \<and>
         (pg_has_more p \<longrightarrow> behind_cursor key (pg_next_cursor p) (rows s) = drop limit ys)"
proof -
  have pl: "page_limit \<lparr>lp_limit = Some limit, lp_cursor = c\<rparr> = limit"
    using lim by (simp add: page_limit_def)
  have dat: "pg_data p = take limit ys" and more: "pg_has_more p \<longleftrightarrow> limit < length ys"
    using pl c by (auto simp: p_def list_page_def Let_def min_def)
  have "behind_cursor key (pg_next_cursor p) (rows s) = drop limit ys" if m: "limit < length ys"
  proof -
    have ne: "take limit ys \<noteq> []" using m lim by auto
    then have next_c: "pg_next_cursor p = Some (key (last (take limit ys)))"
      using pl c m by (auto simp: p_def list_page_def Let_def min_def)
    have "rows s = (xs @ butlast (take limit ys)) @ last (take limit ys) # drop limit ys"
      using split ne by (metis append.assoc append_Cons append_Nil append_butlast_last_id append_take_drop_id)
    from ok this show ?thesis unfolding next_c by (rule behind_split)
  qed
  with dat more show ?thesis by blast
qed

lemma all_pages_from:
  assumes "ok s" and "rows s = xs @ ys" and "behind_cursor key c (rows s) = ys"
    and "0 < limit" "limit \<le> 100" and "length ys < fuel"
  shows "all_pages fuel key limit c (rows s) = Some ys"
  using assms
proof (induction fuel arbitrary: xs ys c)
  case 0
  then show ?case by simp
next
  case (Suc fuel)
  let ?p = "list_page key \<lparr>lp_limit = Some limit, lp_cursor = c\<rparr> (rows s)"
  note page = page_after [OF Suc.prems(1-5)]
  show ?case
  proof (cases "limit < length ys")
    case True
    have split: "rows s = (xs @ take limit ys) @ drop limit ys" using Suc.prems(2) by simp
    have "length (drop limit ys) < fuel" using Suc.prems(4,6) True by simp
    then have "all_pages fuel key limit (pg_next_cursor ?p) (rows s) = Some (drop limit ys)"
      using Suc.IH [OF Suc.prems(1) split _ Suc.prems(4,5)] page True by blast
    with page True show ?thesis by (simp add: Let_def)
  next
    case False
    with page show ?thesis by (simp add: Let_def)
  qed
qed

lemma pages_complete:
  "ok s \<Longrightarrow> 0 < limit \<Longrightarrow> limit \<le> 100 \<Longrightarrow> length (rows s) < fuel \<Longrightarrow>
   all_pages fuel key limit None (rows s) = Some (rows s)"
  by (rule all_pages_from [where xs = "[]"]) (simp_all add: behind_cursor_def)

end

text \<open>Keys of a filtered and reordered table.\<close>

lemma distinct_map_filter_sort:
  "distinct (map key t) \<Longrightarrow> distinct (map key (newest_first f (filter P t)))"
proof -
  assume d: "distinct (map key t)"
  then have "distinct (filter P t)" by (simp add: distinct_map)
  moreover have "inj_on key (set (filter P t))" using d by (auto simp: distinct_map intro: inj_on_subset)
  ultimately show ?thesis by (simp add: distinct_map newest_first_def)
qed

end
