(* ===== verification/Samples.thy ===== *)
theory Samples
  imports Merchant_Chain Paging
begin

text \<open>
  A small concrete state on which the witnesses of the properties are evaluated: one registered merchant
  on the starter plan and one that is not registered, a storefront product with two units left, and the
  settings of the test network.
\<close>

named_theorems sample_defs \<open>definitions of the sample state\<close>

definition sample_address :: string where
  [sample_defs]: "sample_address = ''0x'' @ replicate 40 (CHR ''a'')"

definition other_address :: string where
  [sample_defs]: "other_address = ''0x'' @ replicate 40 (CHR ''b'')"

definition sample_hash :: string where
  [sample_defs]: "sample_hash = ''0x'' @ replicate 64 (CHR ''c'')"

definition sample_config :: config where
  [sample_defs]: "sample_config = \<lparr>
     cf_arc_usdc_address = Some sample_address, cf_arc_eurc_address = Some other_address,
     cf_checkout_origin = ''https://pay.test/'', cf_api_base_url = ''https://api.test'',
     cf_payments_address = Some sample_address, cf_subscriptions_address = Some sample_address,
     cf_registry_address = sample_address, cf_ops_alert_email = Some ''ops@test'',
     cf_arc_environment = Testnet, cf_webhook_max_attempts = 6, cf_sweep_limit = 100\<rparr>"

definition sample_merchant :: merchant_row where
  [sample_defs]: "sample_merchant = \<lparr>
     m_id = ''m1'', m_email = ''m1@test'', m_business_name = Some ''Shop'', m_tier = Starter,
     m_wallet_address = Some sample_address, m_payout_address = Some sample_address,
     m_onboarding_completed = True, m_onchain_merchant_id = Some 7,
     m_onchain_registration_tx_hash = None, m_onchain_registration_requested_at = None,
     m_onchain_fee_bps = None, m_onchain_fee_tx_hash = None, m_onchain_fee_changed_at = None,
     m_privy_user_id = Some ''did:m1'', m_email_verified = True, m_two_factor_enabled = False,
     m_status = Merchant_Active, m_business_sector = None, m_default_currency = USDC, m_country_code = None,
     m_phone = None, m_website_url = None, m_logo_url = None, m_email_prefs = [], m_metadata = [],
     m_last_login_at = None, m_notifications_last_read_at = None, m_created_at = 0\<rparr>"

definition unregistered_merchant :: merchant_row where
  [sample_defs]: "unregistered_merchant = sample_merchant\<lparr>m_id := ''m2'', m_onchain_merchant_id := None, m_privy_user_id := None\<rparr>"

definition sample_session :: session_row where
  [sample_defs]: "sample_session = \<lparr>
     ps_id = ''ps1'', ps_merchant_id = ''m1'', ps_customer_id = None, ps_status = Created,
     ps_amount = ''2000000'', ps_currency = USDC, ps_fee_amount = ''10000'', ps_net_amount = ''1990000'',
     ps_description = None, ps_payer_wallet_address = None, ps_payer_email = None,
     ps_success_url = None, ps_cancel_url = None, ps_source_chain = None, ps_bridge_tx_hash = None,
     ps_onchain_tx_hash = None, ps_checkout_url = ''https://pay.test/pay/ps1'',
     ps_storefront_product_id = Some ''pr1'', ps_mode = Test, ps_metadata = [],
     ps_expires_at = 1800000, ps_created_at = 0, ps_updated_at = 0\<rparr>"

definition sample_plan :: plan_row where
  [sample_defs]: "sample_plan = \<lparr>
     pl_id = ''pl1'', pl_merchant_id = ''m1'', pl_name = ''Pro'', pl_description = None,
     pl_amount = ''5000000'', pl_currency = USDC, pl_interval = Monthly, pl_interval_count = 1,
     pl_trial_period_days = Some 14, pl_status = Plan_Active, pl_success_url = None, pl_cancel_url = None,
     pl_metadata = [], pl_created_at = 0, pl_updated_at = 0\<rparr>"

definition sample_storefront :: storefront_row where
  [sample_defs]: "sample_storefront = \<lparr>
     sf_id = ''sf1'', sf_merchant_id = ''m1'', sf_slug = ''shop'', sf_name = ''Shop'', sf_description = None,
     sf_logo_url = None, sf_cover_image_url = None, sf_accent_color = None, sf_social_links = [],
     sf_status = Sf_Published, sf_created_at = 0, sf_updated_at = 0\<rparr>"

definition sample_product :: product_row where
  [sample_defs]: "sample_product = \<lparr>
     pr_id = ''pr1'', pr_storefront_id = ''sf1'', pr_name = ''Mug'', pr_description = None,
     pr_image_url = None, pr_price = ''2000000'', pr_currency = USDC, pr_type = One_Time,
     pr_interval = None, pr_interval_count = None, pr_stock = Some 2, pr_plan_id = None,
     pr_is_active = True, pr_sort_order = 0, pr_created_at = 0, pr_updated_at = 0\<rparr>"

definition sample_store :: store where
  [sample_defs]: "sample_store = empty_store\<lparr>
     merchants := [sample_merchant, unregistered_merchant], sessions := [sample_session],
     plans := [sample_plan], storefronts := [sample_storefront], products := [sample_product]\<rparr>"

definition no_fees :: registry_fees where
  [sample_defs]: "no_fees = (\<lambda>_. None)"

declare empty_store_def [sample_defs]

end
