(* ===== verification/Sessions.thy ===== *)
theory Sessions
  imports Samples
begin

text \<open>
  \<open>apps/api/src/modules/payment-sessions\<close>: creating, reading, binding, closing and listing payment
  sessions, with \<open>token-resolver.ts\<close>. A session is open while it is \<open>created\<close> or
  \<open>awaiting_payment\<close>; closing an open session gives the reserved unit of a storefront product back.
  Fresh identifiers (\<open>cuid()\<close>, \<open>uuid()\<close>) are arguments.
\<close>

definition tokenAddressForCurrency :: "config \<Rightarrow> payment_currency \<Rightarrow> string option" where
  "tokenAddressForCurrency cfg currency =
     (let addr = (if currency = USDC then cf_arc_usdc_address cfg else cf_arc_eurc_address cfg)
      in if truthy addr then map_option to_lower addr else None)"

definition OPEN_SESSION_STATUSES :: "session_status list" where
  "OPEN_SESSION_STATUSES = [Created, Awaiting_Payment]"

definition find_session :: "string \<Rightarrow> store \<Rightarrow> session_row option" where
  "find_session i s = find_row ps_id i (sessions s)"

text \<open>\<open>findFirst({ where: { id, merchantId, mode } })\<close>.\<close>

definition find_own_session :: "string \<Rightarrow> api_mode \<Rightarrow> string \<Rightarrow> store \<Rightarrow> session_row option" where
  "find_own_session merchantId mode i s =
     find (\<lambda>r. ps_id r = i \<and> ps_merchant_id r = merchantId \<and> ps_mode r = mode) (sessions s)"

definition onchain_id_text :: "string \<Rightarrow> store \<Rightarrow> string option" where
  "onchain_id_text merchantId s =
     map_option show_nat (Option.bind (find_row m_id merchantId (merchants s)) m_onchain_merchant_id)"

definition serialise_session :: "config \<Rightarrow> store \<Rightarrow> session_row \<Rightarrow> session_wire" where
  "serialise_session cfg s r = \<lparr>
     sw_id = ps_id r,
     sw_merchant_id = ps_merchant_id r,
     sw_chain_merchant_id = onchain_id_text (ps_merchant_id r) s,
     sw_token_address = tokenAddressForCurrency cfg (ps_currency r),
     sw_customer_id = ps_customer_id r,
     sw_status = ps_status r,
     sw_amount = ps_amount r,
     sw_currency = ps_currency r,
     sw_fee_amount = ps_fee_amount r,
     sw_net_amount = ps_net_amount r,
     sw_description = ps_description r,
     sw_payer_wallet_address = ps_payer_wallet_address r,
     sw_payer_email = ps_payer_email r,
     sw_success_url = ps_success_url r,
     sw_cancel_url = ps_cancel_url r,
     sw_source_chain = ps_source_chain r,
     sw_bridge_tx_hash = ps_bridge_tx_hash r,
     sw_onchain_tx_hash = ps_onchain_tx_hash r,
     sw_checkout_url = ps_checkout_url r,
     sw_metadata = ps_metadata r,
     sw_expires_at = ps_expires_at r,
     sw_created_at = ps_created_at r,
     sw_updated_at = ps_updated_at r\<rparr>"

section \<open>Creating a session\<close>

record customer_input =
  xi_wallet_address :: "string option"
  xi_email :: "string option"
  xi_external_ref :: "string option"

record session_input =
  si_amount :: string
  si_currency :: payment_currency
  si_expires_in_minutes :: int
  si_description :: "string option"
  si_success_url :: "string option"
  si_cancel_url :: "string option"
  si_customer :: "customer_input option"
  si_metadata :: metadata

text \<open>The identifiers a creation draws: the session, a customer that may be new, the outbox event.\<close>

record fresh_ids =
  fr_session :: string
  fr_customer :: string
  fr_event :: string

definition strip_trailing_slash :: "string \<Rightarrow> string" where
  "strip_trailing_slash u = (if u \<noteq> [] \<and> last u = CHR ''/'' then butlast u else u)"

definition checkout_url :: "config \<Rightarrow> string \<Rightarrow> string" where
  "checkout_url cfg i = strip_trailing_slash (cf_checkout_origin cfg) @ ''/pay/'' @ i"

text \<open>
  \<open>customer.upsert\<close> on the unique pair (merchant, wallet): the update keeps a stored email or reference
  when the input has none (\<open>?? undefined\<close>).
\<close>

definition upsert_customer ::
  "string \<Rightarrow> int \<Rightarrow> string \<Rightarrow> string \<Rightarrow> customer_input \<Rightarrow> (store, api_exn, string) proc" where
  "upsert_customer cid now merchantId wallet c = (\<lambda>s.
     case find (\<lambda>r. cu_merchant_id r = merchantId \<and> cu_wallet_address r = wallet) (customers s) of
       Some r \<Rightarrow>
         (Inr (cu_id r), s\<lparr>customers := update_where
            (\<lambda>r. cu_merchant_id r = merchantId \<and> cu_wallet_address r = wallet)
            (\<lambda>r. r\<lparr>cu_email := or_else (xi_email c) (cu_email r),
                   cu_external_ref := or_else (xi_external_ref c) (cu_external_ref r),
                   cu_last_seen_at := now\<rparr>) (customers s)\<rparr>)
     | None \<Rightarrow>
         (Inr cid, s\<lparr>customers := customers s @ [\<lparr>cu_id = cid, cu_merchant_id = merchantId,
            cu_wallet_address = wallet, cu_email = xi_email c, cu_external_ref = xi_external_ref c,
            cu_display_name = None, cu_email_history = [], cu_metadata = [], cu_first_seen_at = now, cu_last_seen_at = now\<rparr>]\<rparr>))"

definition session_customer ::
  "string \<Rightarrow> int \<Rightarrow> string \<Rightarrow> session_input \<Rightarrow> (store, api_exn, string option) proc" where
  "session_customer cid now merchantId input =
     (case si_customer input of
        None \<Rightarrow> ret None
      | Some c \<Rightarrow>
          (case xi_wallet_address c of
             None \<Rightarrow> ret None
           | Some w \<Rightarrow> if w = [] then ret None
                       else seq (upsert_customer cid now merchantId w c) (\<lambda>i. ret (Some i))))"

definition new_session_row ::
  "config \<Rightarrow> string \<Rightarrow> int \<Rightarrow> string \<Rightarrow> api_mode \<Rightarrow> session_input \<Rightarrow> string option \<Rightarrow> string option \<Rightarrow>
   int \<Rightarrow> int \<Rightarrow> session_row" where
  "new_session_row cfg sid now merchantId mode input customer link fee net = \<lparr>
     ps_id = sid, ps_merchant_id = merchantId, ps_customer_id = customer, ps_status = Created,
     ps_amount = si_amount input, ps_currency = si_currency input,
     ps_fee_amount = show_int fee, ps_net_amount = show_int net,
     ps_description = si_description input, ps_payer_wallet_address = None, ps_payer_email = None,
     ps_success_url = si_success_url input, ps_cancel_url = si_cancel_url input,
     ps_source_chain = None, ps_bridge_tx_hash = None, ps_onchain_tx_hash = None,
     ps_checkout_url = checkout_url cfg ''SESSION_ID'', ps_storefront_product_id = link,
     ps_mode = mode, ps_metadata = si_metadata input,
     ps_expires_at = now + si_expires_in_minutes input * 60000,
     ps_created_at = now, ps_updated_at = now\<rparr>"

text \<open>
  The updates the services make to a session row: each writes \<open>updatedAt\<close> too
  (\<open>@updatedAt\<close> in the schema).
\<close>

datatype session_patch = Set_Status session_status | Set_Customer string | Set_Checkout_Url string

fun patch_session :: "session_patch \<Rightarrow> int \<Rightarrow> session_row \<Rightarrow> session_row" where
  "patch_session (Set_Status st) now r = r\<lparr>ps_status := st, ps_updated_at := now\<rparr>"
| "patch_session (Set_Customer c) now r = r\<lparr>ps_customer_id := Some c, ps_updated_at := now\<rparr>"
| "patch_session (Set_Checkout_Url u) now r = r\<lparr>ps_checkout_url := u, ps_updated_at := now\<rparr>"

definition insert_session ::
  "config \<Rightarrow> registry_fees \<Rightarrow> fresh_ids \<Rightarrow> int \<Rightarrow> string \<Rightarrow> api_mode \<Rightarrow> session_input \<Rightarrow> string option \<Rightarrow>
   (store, api_exn, session_wire) proc" where
  "insert_session cfg registry fr now merchantId mode input link =
     seq (assertMinimumAmount (BigInt (si_amount input))) (\<lambda>_.
     seq (find_merchant merchantId) (\<lambda>merchant.
     seq (feeBpsFor registry merchant) (\<lambda>feeBps.
     seq (lift_sum (feeSplit (BigInt (si_amount input)) (int feeBps))) (\<lambda>(fee, net).
     seq (session_customer (fr_customer fr) now merchantId input) (\<lambda>customer.
     seq (modify (\<lambda>s. s\<lparr>sessions := sessions s @
            [new_session_row cfg (fr_session fr) now merchantId mode input customer link fee net]\<rparr>)) (\<lambda>_.
     seq (modify (\<lambda>s. s\<lparr>sessions := update_where (\<lambda>r. ps_id r = fr_session fr)
            (patch_session (Set_Checkout_Url (checkout_url cfg (fr_session fr))) now) (sessions s)\<rparr>)) (\<lambda>_.
     seq (gets (\<lambda>s. map_option (serialise_session cfg s) (find_session (fr_session fr) s))) (\<lambda>view.
     seq (or_raise p2025 view) (\<lambda>session.
     seq (fire (fr_event fr) now merchantId mode ''payment.created'' (Session_Body session)) (\<lambda>_.
     ret session))))))))))"

definition prepareMerchant :: "int \<Rightarrow> string \<Rightarrow> (store, api_exn, unit) proc" where
  "prepareMerchant now merchantId = requestRegistration now merchantId"

definition create_session ::
  "config \<Rightarrow> registry_fees \<Rightarrow> fresh_ids \<Rightarrow> int \<Rightarrow> string \<Rightarrow> api_mode \<Rightarrow> session_input \<Rightarrow>
   (store, api_exn, session_wire) proc" where
  "create_session cfg registry fr now merchantId mode input =
     seq (prepareMerchant now merchantId) (\<lambda>_.
     insert_session cfg registry fr now merchantId mode input None)"

section \<open>Reading\<close>

definition retrieve_session ::
  "config \<Rightarrow> string \<Rightarrow> api_mode \<Rightarrow> string \<Rightarrow> (store, api_exn, session_wire) proc" where
  "retrieve_session cfg merchantId mode i =
     seq (gets (\<lambda>s. map_option (serialise_session cfg s) (find_own_session merchantId mode i s)))
       (or_raise not_found)"

definition retrieve_session_public :: "config \<Rightarrow> string \<Rightarrow> (store, api_exn, session_wire) proc" where
  "retrieve_session_public cfg i =
     seq (gets (\<lambda>s. map_option (serialise_session cfg s) (find_session i s))) (\<lambda>v.
     seq (or_raise not_found v) (\<lambda>w.
     ret (w\<lparr>sw_fee_amount := ''0'', sw_net_amount := sw_amount w, sw_metadata := []\<rparr>)))"

definition session_rows ::
  "string \<Rightarrow> api_mode \<Rightarrow> session_status option \<Rightarrow> string option \<Rightarrow> store \<Rightarrow> session_row list" where
  "session_rows merchantId mode status customer s =
     newest_first ps_created_at
       (filter (\<lambda>r. ps_merchant_id r = merchantId \<and> ps_mode r = mode \<and>
          (case status of None \<Rightarrow> True | Some st \<Rightarrow> ps_status r = st) \<and>
          (case customer of None \<Rightarrow> True | Some c \<Rightarrow> ps_customer_id r = Some c)) (sessions s))"

definition list_sessions ::
  "config \<Rightarrow> string \<Rightarrow> api_mode \<Rightarrow> session_status option \<Rightarrow> string option \<Rightarrow> list_params \<Rightarrow> store \<Rightarrow>
   session_wire page" where
  "list_sessions cfg merchantId mode status customer p s =
     (let pg = list_page ps_id p (session_rows merchantId mode status customer s)
      in \<lparr>pg_data = map (serialise_session cfg s) (pg_data pg), pg_next_cursor = pg_next_cursor pg,
          pg_has_more = pg_has_more pg\<rparr>)"

section \<open>Binding a payer\<close>

definition bindCustomer :: "int \<Rightarrow> string \<Rightarrow> string \<Rightarrow> (store, api_exn, unit) proc" where
  "bindCustomer now sessionId customerId = (\<lambda>s.
     let P = (\<lambda>r. ps_id r = sessionId \<and> ps_status r \<in> set OPEN_SESSION_STATUSES \<and> now < ps_expires_at r \<and>
               (ps_customer_id r = None \<or> ps_customer_id r = Some customerId));
         count = count_where P (sessions s);
         s' = s\<lparr>sessions := update_where P (patch_session (Set_Customer customerId) now) (sessions s)\<rparr>
     in if count = 1 then (Inr (), s')
        else case find_session sessionId s' of
          None \<Rightarrow> (Inl not_found, s')
        | Some row \<Rightarrow>
            if ps_status row \<notin> set OPEN_SESSION_STATUSES \<or> ps_expires_at row \<le> now
            then (Inl (conflict ''session_not_open''), s')
            else (Inl (conflict ''payer_already_bound''), s'))"

section \<open>Closing\<close>

definition add_stock :: "int \<times> int \<Rightarrow> product_row \<Rightarrow> product_row" where
  "add_stock d p = p\<lparr>pr_stock := map_option (\<lambda>n. n + fst d) (pr_stock p), pr_updated_at := snd d\<rparr>"

definition restock :: "int \<Rightarrow> string \<Rightarrow> product_row list \<Rightarrow> product_row list" where
  "restock now pid = update_where (\<lambda>p. pr_id p = pid \<and> pr_stock p \<noteq> None) (add_stock (1, now))"

definition close_session_tx ::
  "int \<Rightarrow> string \<Rightarrow> api_mode \<Rightarrow> string \<Rightarrow> session_status \<Rightarrow> (store, api_exn, nat \<times> session_row option) proc" where
  "close_session_tx now merchantId mode i to = (\<lambda>s.
     let P = (\<lambda>r. ps_id r = i \<and> ps_merchant_id r = merchantId \<and> ps_mode r = mode \<and>
               ps_status r \<in> set OPEN_SESSION_STATUSES);
         count = count_where P (sessions s);
         s1 = s\<lparr>sessions := update_where P (patch_session (Set_Status to) now) (sessions s)\<rparr>;
         row = find_own_session merchantId mode i s1;
         s2 = (case Option.bind row ps_storefront_product_id of
                 None \<Rightarrow> s1
               | Some pid \<Rightarrow> if count = 1 \<and> pid \<noteq> [] then s1\<lparr>products := restock now pid (products s1)\<rparr> else s1)
     in (Inr (count, row), s2))"

definition close_session ::
  "config \<Rightarrow> int \<Rightarrow> string \<Rightarrow> api_mode \<Rightarrow> string \<Rightarrow> session_status \<Rightarrow> (store, api_exn, session_wire) proc" where
  "close_session cfg now merchantId mode i to =
     seq (in_tx (close_session_tx now merchantId mode i to)) (\<lambda>(count, row).
     case row of
       None \<Rightarrow> raise not_found
     | Some r \<Rightarrow> if count = 0 then raise (forbidden ''session_invalid_state'')
                 else seq (gets (\<lambda>s. serialise_session cfg s r)) ret)"

definition cancel_session ::
  "config \<Rightarrow> int \<Rightarrow> string \<Rightarrow> api_mode \<Rightarrow> string \<Rightarrow> (store, api_exn, session_wire) proc" where
  "cancel_session cfg now merchantId mode i = close_session cfg now merchantId mode i Cancelled"

definition expire_session ::
  "config \<Rightarrow> int \<Rightarrow> string \<Rightarrow> api_mode \<Rightarrow> string \<Rightarrow> (store, api_exn, session_wire) proc" where
  "expire_session cfg now merchantId mode i = close_session cfg now merchantId mode i Expired"
section \<open>Row updates\<close>

lemma patch_session_id [simp]: "ps_id (patch_session p now r) = ps_id r"
  by (cases p) simp_all

interpretation session_patch: row_update ps_id "\<lambda>p. patch_session p now" for now
  by unfold_locales simp

interpretation stock_patch: row_update pr_id add_stock
  by unfold_locales (simp add: add_stock_def)

lemma patch_session_fixed [simp]:
  "ps_merchant_id (patch_session p now r) = ps_merchant_id r"
  "ps_mode (patch_session p now r) = ps_mode r"
  "ps_amount (patch_session p now r) = ps_amount r"
  "ps_fee_amount (patch_session p now r) = ps_fee_amount r"
  "ps_net_amount (patch_session p now r) = ps_net_amount r"
  "ps_storefront_product_id (patch_session p now r) = ps_storefront_product_id r"
  by (cases p; simp)+

text \<open>Primary keys of the sessions table.\<close>

definition session_keys_ok :: "store \<Rightarrow> bool" where
  "session_keys_ok s \<longleftrightarrow> distinct (map ps_id (sessions s)) \<and> (\<forall>r\<in>set (sessions s). ps_id r \<noteq> [])"

interpretation session_pages: paged_rows ps_id "session_rows m mode st cu" session_keys_ok for m mode st cu
proof
  fix s :: store
  assume ok: "session_keys_ok s"
  then show "distinct (map ps_id (session_rows m mode st cu s))"
    unfolding session_rows_def session_keys_ok_def by (blast intro: distinct_map_filter_sort)
  show "ps_id r \<noteq> []" if "r \<in> set (session_rows m mode st cu s)" for r
    using that ok by (auto simp: session_rows_def session_keys_ok_def)
qed

lemma find_own_session_eq:
  "session_keys_ok s \<Longrightarrow>
   find_own_session m mode i s =
     (case find_session i s of None \<Rightarrow> None
      | Some r \<Rightarrow> if ps_merchant_id r = m \<and> ps_mode r = mode then Some r else None)"
  unfolding find_own_session_def find_session_def session_keys_ok_def by (simp add: find_row_and)

section \<open>Closing a session\<close>

definition closed_store :: "int \<Rightarrow> session_row \<Rightarrow> session_status \<Rightarrow> store \<Rightarrow> store" where
  "closed_store now r to s = s\<lparr>
     sessions := update_where (\<lambda>x. ps_id x = ps_id r) (patch_session (Set_Status to) now) (sessions s),
     products := (case ps_storefront_product_id r of None \<Rightarrow> products s
                  | Some pid \<Rightarrow> if pid = [] then products s else restock now pid (products s))\<rparr>"

lemma serialise_session_cong:
  "merchants s = merchants s' \<Longrightarrow> serialise_session cfg s r = serialise_session cfg s' r"
  by (simp add: serialise_session_def onchain_id_text_def)

lemma close_session_tx_eq:
  assumes ok: "session_keys_ok s"
  shows "close_session_tx now m mode i to s =
     (case find_own_session m mode i s of
        None \<Rightarrow> (Inr (0, None), s)
      | Some r \<Rightarrow> if ps_status r \<notin> set OPEN_SESSION_STATUSES then (Inr (0, Some r), s)
                  else (Inr (1, Some (patch_session (Set_Status to) now r)), closed_store now r to s))"
proof -
  let ?Q = "\<lambda>r. ps_merchant_id r = m \<and> ps_mode r = mode \<and> ps_status r \<in> set OPEN_SESSION_STATUSES"
  let ?P = "\<lambda>r. ps_id r = i \<and> ?Q r"
  let ?s1 = "s\<lparr>sessions := update_where ?P (patch_session (Set_Status to) now) (sessions s)\<rparr>"
  from ok have d: "distinct (map ps_id (sessions s))" by (simp add: session_keys_ok_def)
  have ok1: "session_keys_ok ?s1"
    using ok by (auto simp: session_keys_ok_def set_update_where split: if_splits)
  have f1: "find_session i ?s1 = map_option (\<lambda>r. if ?P r then patch_session (Set_Status to) now r else r) (find_session i s)"
    by (simp add: find_session_def session_patch.find_row_update)
  have own1: "find_own_session m mode i ?s1 =
      map_option (\<lambda>r. if ?P r then patch_session (Set_Status to) now r else r) (find_own_session m mode i s)"
    unfolding find_own_session_eq [OF ok] find_own_session_eq [OF ok1] f1
    by (auto split: option.split)
  have cnt: "count_where ?P (sessions s) =
      (case find_session i s of None \<Rightarrow> 0 | Some r \<Rightarrow> if ?Q r then 1 else 0)"
    using session_patch.count_key [OF d] by (simp add: find_session_def)
  show ?thesis
  proof (cases "\<exists>r. find_session i s = Some r \<and> ?Q r")
    case True
    then obtain r where r: "find_session i s = Some r" "?Q r" by blast
    then have id: "ps_id r = i" by (auto simp: find_session_def dest: find_row_Some)
    have upd: "update_where ?P (patch_session (Set_Status to) now) (sessions s) =
       update_where (\<lambda>x. ps_id x = i) (patch_session (Set_Status to) now) (sessions s)"
      using r distinct_key_eq [OF d] by (intro update_where_cong) (auto simp: find_session_def)
    show ?thesis
      unfolding close_session_tx_def Let_def own1 cnt
      using r id by (simp add: find_own_session_eq [OF ok] closed_store_def upd split: option.split)
  next
    case False
    then have z: "count_where ?P (sessions s) = 0"
      unfolding cnt by (auto split: option.split)
    then have s1: "?s1 = s" by (simp add: count_where_zero update_where_none)
    have "\<And>r. find_own_session m mode i s = Some r \<Longrightarrow> ps_status r \<notin> set OPEN_SESSION_STATUSES"
      using False by (auto simp: find_own_session_eq [OF ok] split: option.splits if_splits)
    then show ?thesis
      unfolding close_session_tx_def Let_def z s1 by (auto split: option.split)
  qed
qed

lemma close_session_eq:
  assumes ok: "session_keys_ok s"
  shows "close_session cfg now m mode i to s =
     (case find_own_session m mode i s of
        None \<Rightarrow> (Inl not_found, s)
      | Some r \<Rightarrow> if ps_status r \<notin> set OPEN_SESSION_STATUSES then (Inl (forbidden ''session_invalid_state''), s)
                  else (Inr (serialise_session cfg s (patch_session (Set_Status to) now r)), closed_store now r to s))"
proof -
  have "merchants (closed_store now r to s) = merchants s" for r
    by (simp add: closed_store_def)
  then show ?thesis
    unfolding close_session_def seq_def in_tx_def close_session_tx_eq [OF ok]
    by (auto simp: gets_def ret_def raise_def intro: serialise_session_cong split: option.split)
qed

text \<open>
  Units of a product: those in stock and those an open session holds. Closing moves a unit from the second
  to the first.
\<close>

definition stock_of :: "string \<Rightarrow> store \<Rightarrow> int option" where
  "stock_of pid s = Option.bind (find_row pr_id pid (products s)) pr_stock"

definition holds_unit :: "string \<Rightarrow> session_row \<Rightarrow> bool" where
  "holds_unit pid r \<longleftrightarrow> ps_storefront_product_id r = Some pid \<and> ps_status r \<in> set OPEN_SESSION_STATUSES"

definition units :: "string \<Rightarrow> store \<Rightarrow> int option" where
  "units pid s = map_option (\<lambda>n. n + int (count_where (holds_unit pid) (sessions s))) (stock_of pid s)"

lemma find_row_restock:
  "find_row pr_id pid (restock now q t) =
     map_option (\<lambda>p. if pr_id p = q \<and> pr_stock p \<noteq> None then add_stock (1, now) p else p) (find_row pr_id pid t)"
  by (simp add: restock_def stock_patch.find_row_update)

lemma stock_restock:
  "Option.bind (find_row pr_id pid (restock now q t)) pr_stock =
     (if pid = q then map_option (\<lambda>n. n + 1) (Option.bind (find_row pr_id pid t) pr_stock)
      else Option.bind (find_row pr_id pid t) pr_stock)"
proof (cases "find_row pr_id pid t")
  case (Some p)
  then have "pr_id p = pid" by (auto dest: find_row_Some)
  with Some show ?thesis
    by (cases "pr_stock p") (auto simp: find_row_restock add_stock_def)
qed (auto simp: find_row_restock)

lemma closed_store_units:
  assumes ok: "session_keys_ok s" and r: "find_session i s = Some r" "ps_status r \<in> set OPEN_SESSION_STATUSES"
    and to: "to \<notin> set OPEN_SESSION_STATUSES" and pid: "pid \<noteq> []"
  shows "units pid (closed_store now r to s) = units pid s"
proof -
  let ?t = "update_where (\<lambda>x. ps_id x = ps_id r) (patch_session (Set_Status to) now) (sessions s)"
  have id: "ps_id r = i" using r(1) by (auto simp: find_session_def dest: find_row_Some)
  have cnt: "count_where (holds_unit pid) ?t + (if holds_unit pid r then 1 else 0) = count_where (holds_unit pid) (sessions s)"
    using session_patch.count_update [where t = "sessions s" and k = i and r = r and
        A = "holds_unit pid" and Q = "\<lambda>_. True" and now = now and p = "Set_Status to"]
      ok r id to by (simp add: session_keys_ok_def find_session_def holds_unit_def)
  show ?thesis
  proof (cases "ps_storefront_product_id r = Some pid")
    case True
    with r(2) have "holds_unit pid r" by (simp add: holds_unit_def)
    with cnt have "count_where (holds_unit pid) (sessions s) = Suc (count_where (holds_unit pid) ?t)" by simp
    moreover have "stock_of pid (closed_store now r to s) = map_option (\<lambda>n. n + 1) (stock_of pid s)"
      using True pid by (simp add: stock_of_def closed_store_def stock_restock)
    ultimately show ?thesis
      by (simp add: units_def closed_store_def option.map_comp comp_def add.assoc)
  next
    case False
    then have "\<not> holds_unit pid r" by (simp add: holds_unit_def)
    with cnt have "count_where (holds_unit pid) ?t = count_where (holds_unit pid) (sessions s)" by simp
    moreover have "stock_of pid (closed_store now r to s) = stock_of pid s"
      using False by (simp add: stock_of_def closed_store_def stock_restock split: option.split)
    ultimately show ?thesis by (simp add: units_def closed_store_def)
  qed
qed

section \<open>Creating and binding\<close>

lemma session_customer_ok:
  "\<exists>c cs. session_customer cid now m input s = (Inr c, s\<lparr>customers := cs\<rparr>) \<and>
     (\<forall>i. c = Some i \<longrightarrow> i = cid \<or> (\<exists>r\<in>set (customers s). cu_id r = i))"
proof -
  have same: "\<exists>cs. s = s\<lparr>customers := cs\<rparr>"
    by (rule exI [of _ "customers s"]) simp
  then show ?thesis
    unfolding session_customer_def upsert_customer_def seq_def ret_def
    by (auto simp: same find_Some_iff split: option.splits)
qed

text \<open>The row a successful creation inserts.\<close>

lemma insert_session_result:
  assumes run: "insert_session cfg registry fr now mid mode input link s = (Inr w, s')"
    and fresh: "find_session (fr_session fr) s = None"
  obtains m bps fee net customer row where
    "find_row m_id mid (merchants s) = Some m"
    "MINIMUM_PAYMENT_AMOUNT \<le> BigInt (si_amount input)"
    "fst (feeBpsFor registry m s) = Inr bps" "feeSplit (BigInt (si_amount input)) (int bps) = Inr (fee, net)"
    "row = (new_session_row cfg (fr_session fr) now mid mode input customer link fee net)
       \<lparr>ps_checkout_url := checkout_url cfg (fr_session fr)\<rparr>"
    "sessions s' = sessions s @ [row]"
    "w = serialise_session cfg s row"
    "products s' = products s" "merchants s' = merchants s" "relay_queue s' = relay_queue s" "redis s' = redis s"
    "\<forall>i. customer = Some i \<longrightarrow> i = fr_customer fr \<or> (\<exists>r\<in>set (customers s). cu_id r = i)"
proof -
  have old: "\<And>P f. (\<And>r. P r \<Longrightarrow> ps_id r = fr_session fr) \<Longrightarrow> update_where P f (sessions s) = sessions s"
    using fresh by (intro update_where_none) (auto simp: find_session_def find_row_None)
  from run have min: "MINIMUM_PAYMENT_AMOUNT \<le> BigInt (si_amount input)"
    by (auto simp: insert_session_def assertMinimumAmount_def split: if_splits)
  from run min obtain m where m: "find_row m_id mid (merchants s) = Some m"
    by (auto simp: insert_session_def assertMinimumAmount_def split: option.splits)
  from run min m obtain bps where bps: "feeBpsFor registry m s = (Inr bps, s)"
    by (cases "feeBpsFor registry m s"; cases "fst (feeBpsFor registry m s)")
      (auto simp: insert_session_def assertMinimumAmount_def seq_Inl dest: feeBpsFor_state)
  from run min m bps obtain fee net where split: "feeSplit (BigInt (si_amount input)) (int bps) = Inr (fee, net)"
    by (cases "feeSplit (BigInt (si_amount input)) (int bps)")
      (auto simp: insert_session_def assertMinimumAmount_def seq_Inr)
  obtain c cs where cust: "session_customer (fr_customer fr) now mid input s = (Inr c, s\<lparr>customers := cs\<rparr>)"
    and known: "\<forall>i. c = Some i \<longrightarrow> i = fr_customer fr \<or> (\<exists>r\<in>set (customers s). cu_id r = i)"
    using session_customer_ok by metis
  let ?row = "(new_session_row cfg (fr_session fr) now mid mode input c link fee net)
       \<lparr>ps_checkout_url := checkout_url cfg (fr_session fr)\<rparr>"
  have f: "find_session (fr_session fr) s = None \<Longrightarrow> find_row ps_id (fr_session fr) (sessions s) = None"
    by (simp add: find_session_def)
  from run have "w = serialise_session cfg s ?row \<and> sessions s' = sessions s @ [?row] \<and> products s' = products s \<and>
      merchants s' = merchants s \<and> relay_queue s' = relay_queue s \<and> redis s' = redis s"
    using min m bps split cust f [OF fresh]
    by (auto simp: insert_session_def assertMinimumAmount_def seq_Inr old find_session_def new_session_row_def
        intro!: serialise_session_cong)
  with min m bps split known show ?thesis by (intro that) auto
qed

lemma new_session_row_id [simp]:
  "ps_id (new_session_row cfg i now mid mode input c link fee net) = i"
  by (simp add: new_session_row_def)

text \<open>A failed creation writes nothing: every check comes before the first write.\<close>

lemma insert_session_error:
  assumes "insert_session cfg registry fr now mid mode input link s = (Inl e, s')"
  shows "s' = s"
proof -
  obtain c cs where cust: "session_customer (fr_customer fr) now mid input s = (Inr c, s\<lparr>customers := cs\<rparr>)"
    using session_customer_ok by metis
  from assms show ?thesis
    using cust
    by (cases "feeBpsFor registry (the (find_row m_id mid (merchants s))) s")
      (auto simp: insert_session_def assertMinimumAmount_def seq_def find_session_def Let_def
        dest!: feeBpsFor_state split: option.splits sum.splits prod.splits if_splits)
qed

definition session_money_ok :: "session_row \<Rightarrow> bool" where
  "session_money_ok r \<longleftrightarrow>
     MINIMUM_PAYMENT_AMOUNT \<le> BigInt (ps_amount r) \<and>
     BigInt (ps_fee_amount r) + BigInt (ps_net_amount r) = BigInt (ps_amount r) \<and>
     20 * BigInt (ps_fee_amount r) \<le> BigInt (ps_amount r)"

definition sessions_ok :: "store \<Rightarrow> bool" where
  "sessions_ok s \<longleftrightarrow> session_keys_ok s \<and> (\<forall>r\<in>set (sessions s). session_money_ok r)"

lemma new_session_money_ok:
  assumes "feeSplit (BigInt (si_amount input)) bps = Inr (fee, net)"
    and "MINIMUM_PAYMENT_AMOUNT \<le> BigInt (si_amount input)"
  shows "session_money_ok ((new_session_row cfg i now mid mode input c link fee net)\<lparr>ps_checkout_url := u\<rparr>)"
  using feeSplit_sum [OF assms(1)] feeSplit_bounds [OF assms(1)] assms(2)
  by (simp add: session_money_ok_def new_session_row_def)

lemma patch_session_money [simp]: "session_money_ok (patch_session p now r) = session_money_ok r"
  by (simp add: session_money_ok_def)

lemma insert_session_row:
  assumes run: "insert_session cfg registry fr now mid mode input link s = (Inr w, s')"
    and fresh: "find_session (fr_session fr) s = None"
  obtains row where "sessions s' = sessions s @ [row]" "w = serialise_session cfg s' row"
    "session_money_ok row" "ps_id row = fr_session fr" "ps_amount row = si_amount input"
    "ps_status row = Created" "ps_mode row = mode" "ps_merchant_id row = mid"
    "ps_checkout_url row = checkout_url cfg (fr_session fr)"
    "ps_expires_at row = now + si_expires_in_minutes input * 60000"
    "ps_storefront_product_id row = link" "products s' = products s"
proof (rule insert_session_result [OF run fresh])
  fix m bps fee net c row
  assume row: "row = (new_session_row cfg (fr_session fr) now mid mode input c link fee net)
       \<lparr>ps_checkout_url := checkout_url cfg (fr_session fr)\<rparr>"
    and s': "sessions s' = sessions s @ [row]" "w = serialise_session cfg s row" "products s' = products s"
      "merchants s' = merchants s"
    and money: "MINIMUM_PAYMENT_AMOUNT \<le> BigInt (si_amount input)"
      "feeSplit (BigInt (si_amount input)) (int bps) = Inr (fee, net)"
  have w: "w = serialise_session cfg s' row" unfolding s'(2) by (rule serialise_session_cong) (simp add: s'(4))
  have m: "session_money_ok row" unfolding row by (rule new_session_money_ok [OF money(2,1)])
  show thesis
    by (rule that [OF s'(1) w m]) (simp_all add: row s'(3), simp_all add: new_session_row_def)
qed

lemma sessions_ok_patch:
  assumes "sessions_ok s" and "sessions s' = update_where P (patch_session p now) (sessions s)"
  shows "sessions_ok s'"
  using assms
  by (auto simp: sessions_ok_def session_keys_ok_def set_update_where split: if_splits)

lemma sessions_ok_append:
  assumes "sessions_ok s" and "sessions s' = sessions s @ [r]" and "session_money_ok r"
    and "ps_id r \<noteq> []" and "find_session (ps_id r) s = None"
  shows "sessions_ok s'"
  using assms by (auto simp: sessions_ok_def session_keys_ok_def find_session_def find_row_None)

lemma insert_session_ok:
  assumes "sessions_ok s" and fresh: "find_session (fr_session fr) s = None" "fr_session fr \<noteq> []"
    and run: "insert_session cfg registry fr now mid mode input link s = (r, s')"
  shows "sessions_ok s'"
proof (cases r)
  case (Inl e)
  with run insert_session_error assms(1) show ?thesis by blast
next
  case (Inr w)
  from run [unfolded Inr] fresh(1) obtain row where row: "sessions s' = sessions s @ [row]"
    "session_money_ok row" "ps_id row = fr_session fr"
    by (rule insert_session_row) (rule that)
  from sessions_ok_append [OF assms(1) row(1,2)] row(3) fresh show ?thesis by simp
qed

lemma closed_store_ok: "sessions_ok s \<Longrightarrow> sessions_ok (closed_store now r to s)"
  by (erule sessions_ok_patch [where p = "Set_Status to"]) (simp add: closed_store_def)

lemma close_session_keeps: "keeps sessions_ok (close_session cfg now m mode i to)"
proof (rule keepsI)
  fix s
  assume ok: "sessions_ok s"
  then have "session_keys_ok s" by (simp add: sessions_ok_def)
  from close_session_eq [OF this] ok closed_store_ok [OF ok]
  show "sessions_ok (snd (close_session cfg now m mode i to s))"
    by (auto split: option.split)
qed

lemma bindCustomer_sessions:
  "sessions (snd (bindCustomer now i c s)) =
     update_where (\<lambda>r. ps_id r = i \<and> ps_status r \<in> set OPEN_SESSION_STATUSES \<and> now < ps_expires_at r \<and>
               (ps_customer_id r = None \<or> ps_customer_id r = Some c)) (patch_session (Set_Customer c) now) (sessions s)"
  by (simp add: bindCustomer_def Let_def split: option.split)

lemma bindCustomer_keeps: "keeps sessions_ok (bindCustomer now i c)"
  by (rule keepsI) (erule sessions_ok_patch, rule bindCustomer_sessions)

text \<open>Every branch of \<open>bindCustomer\<close>, on a table with a primary key.\<close>

lemma bindCustomer_eq:
  assumes ok: "session_keys_ok s"
  shows "bindCustomer now i c s =
     (case find_session i s of
        None \<Rightarrow> (Inl not_found, s)
      | Some r \<Rightarrow>
          if ps_status r \<notin> set OPEN_SESSION_STATUSES \<or> ps_expires_at r \<le> now
          then (Inl (conflict ''session_not_open''), s)
          else if ps_customer_id r \<noteq> None \<and> ps_customer_id r \<noteq> Some c
          then (Inl (conflict ''payer_already_bound''), s)
          else (Inr (), s\<lparr>sessions := update_where (\<lambda>x. ps_id x = i) (patch_session (Set_Customer c) now) (sessions s)\<rparr>))"
proof -
  let ?Q = "\<lambda>r. ps_status r \<in> set OPEN_SESSION_STATUSES \<and> now < ps_expires_at r \<and>
               (ps_customer_id r = None \<or> ps_customer_id r = Some c)"
  let ?P = "\<lambda>r. ps_id r = i \<and> ?Q r"
  from ok have d: "distinct (map ps_id (sessions s))" by (simp add: session_keys_ok_def)
  have cnt: "count_where ?P (sessions s) = (case find_session i s of None \<Rightarrow> 0 | Some r \<Rightarrow> if ?Q r then 1 else 0)"
    using session_patch.count_key [OF d] by (simp add: find_session_def)
  show ?thesis
  proof (cases "\<exists>r. find_session i s = Some r \<and> ?Q r")
    case True
    then obtain r where r: "find_session i s = Some r" "?Q r" by blast
    have "update_where ?P (patch_session (Set_Customer c) now) (sessions s) =
       update_where (\<lambda>x. ps_id x = i) (patch_session (Set_Customer c) now) (sessions s)"
      using r distinct_key_eq [OF d] by (intro update_where_cong) (auto simp: find_session_def)
    with r show ?thesis by (auto simp: bindCustomer_def Let_def cnt)
  next
    case False
    then have z: "count_where ?P (sessions s) = 0" unfolding cnt by (auto split: option.split)
    then have "update_where ?P (patch_session (Set_Customer c) now) (sessions s) = sessions s"
      by (simp add: count_where_zero update_where_none)
    with z False show ?thesis by (auto simp: bindCustomer_def Let_def split: option.split)
  qed
qed

section \<open>Properties\<close>

text \<open>
  C32. A session that is created carries the amount of the request, at least the minimum, split into a fee of
  at most 5% and the net amount that together are the amount; it is open, shows its own checkout page,
  expires after the requested minutes, and is the only row the table gains.
\<close>

theorem create_session_spec:
  assumes "create_session cfg registry fr now mid mode input s = (Inr w, s')"
    and "find_session (fr_session fr) s = None"
  shows "sw_amount w = si_amount input \<and> MINIMUM_PAYMENT_AMOUNT \<le> BigInt (sw_amount w) \<and>
         BigInt (sw_fee_amount w) + BigInt (sw_net_amount w) = BigInt (sw_amount w) \<and>
         20 * BigInt (sw_fee_amount w) \<le> BigInt (sw_amount w) \<and>
         sw_status w = Created \<and> sw_checkout_url w = checkout_url cfg (fr_session fr) \<and>
         sw_expires_at w = now + si_expires_in_minutes input * 60000 \<and>
         (\<exists>row. sessions s' = sessions s @ [row] \<and> ps_mode row = mode \<and> ps_merchant_id row = mid \<and>
                w = serialise_session cfg s' row)"
proof -
  from assms(1) obtain u s1 where reg: "requestRegistration now mid s = (Inr u, s1)"
    and ins: "insert_session cfg registry fr now mid mode input None s1 = (Inr w, s')"
    unfolding create_session_def prepareMerchant_def by (rule seq_InrE)
  from requestRegistration_frame [OF reg] have ses: "sessions s1 = sessions s" by auto
  then have "find_session (fr_session fr) s1 = None" using assms(2) by (simp add: find_session_def)
  with ins obtain row where row: "sessions s' = sessions s1 @ [row]" "w = serialise_session cfg s' row"
    "session_money_ok row" "ps_id row = fr_session fr" "ps_amount row = si_amount input"
    "ps_status row = Created" "ps_mode row = mode" "ps_merchant_id row = mid"
    "ps_checkout_url row = checkout_url cfg (fr_session fr)"
    "ps_expires_at row = now + si_expires_in_minutes input * 60000"
    by (rule insert_session_row) (rule that)
  have money: "MINIMUM_PAYMENT_AMOUNT \<le> BigInt (ps_amount row)"
    "BigInt (ps_fee_amount row) + BigInt (ps_net_amount row) = BigInt (ps_amount row)"
    "20 * BigInt (ps_fee_amount row) \<le> BigInt (ps_amount row)"
    using row(3) by (auto simp: session_money_ok_def)
  have wire: "sw_amount w = ps_amount row" "sw_fee_amount w = ps_fee_amount row"
    "sw_net_amount w = ps_net_amount row" "sw_status w = ps_status row"
    "sw_checkout_url w = ps_checkout_url row" "sw_expires_at w = ps_expires_at row"
    by (simp_all add: row(2) serialise_session_def)
  show ?thesis
    unfolding wire using money row ses by auto
qed

definition sample_input :: session_input where
  [sample_defs]: "sample_input = \<lparr>si_amount = ''3000000'', si_currency = USDC, si_expires_in_minutes = 30,
     si_description = None, si_success_url = None, si_cancel_url = None,
     si_customer = Some \<lparr>xi_wallet_address = Some ''0xabc'', xi_email = None, xi_external_ref = None\<rparr>,
     si_metadata = []\<rparr>"

definition sample_fresh :: fresh_ids where
  [sample_defs]: "sample_fresh = \<lparr>fr_session = ''ps2'', fr_customer = ''cu1'', fr_event = ''evt1''\<rparr>"

theorem create_session_spec_witness:
  "\<exists>w s'. create_session sample_config no_fees sample_fresh 1000 ''m1'' Test sample_input sample_store = (Inr w, s') \<and>
     BigInt (sw_fee_amount w) + BigInt (sw_net_amount w) = 3000000"
proof -
  have fresh: "find_session (fr_session sample_fresh) sample_store = None"
    by (simp add: sample_defs find_session_def)
  have amount: "BigInt ''3000000'' = 3000000"
    by (simp add: BigInt_def big_nat_def digit_of_def)
  have "returned (create_session sample_config no_fees sample_fresh 1000 ''m1'' Test sample_input sample_store)"
    by (simp add: create_session_def prepareMerchant_def requestRegistration_def insert_session_def seq_def
        assertMinimumAmount_def MINIMUM_PAYMENT_AMOUNT_def feeBpsFor_def feeSplit_def MAX_FEE_BPS_def session_customer_def planFeeBps_def
        upsert_customer_def find_session_def new_session_row_def returned_def amount sample_defs)
  then obtain w s' where run: "create_session sample_config no_fees sample_fresh 1000 ''m1'' Test sample_input sample_store = (Inr w, s')"
    by (rule returnedE)
  from create_session_spec [OF run fresh] have "BigInt (sw_fee_amount w) + BigInt (sw_net_amount w) = BigInt ''3000000''"
    by (simp add: sample_defs)
  with amount run show ?thesis by auto
qed

text \<open>
  C13. Closing a session (cancelling or expiring it) never loses or invents a unit of a storefront product:
  the units in stock plus the units that open sessions hold stay the same, whatever the call answers.
\<close>

theorem close_session_conserves_units:
  assumes "session_keys_ok s" and "to \<in> {Cancelled, Expired}" and "pid \<noteq> []"
    and run: "close_session cfg now m mode i to s = (r, s')"
  shows "units pid s' = units pid s"
proof (cases "\<exists>x. find_own_session m mode i s = Some x \<and> ps_status x \<in> set OPEN_SESSION_STATUSES")
  case True
  then obtain x where x: "find_own_session m mode i s = Some x" "ps_status x \<in> set OPEN_SESSION_STATUSES"
    by blast
  then have f: "find_session i s = Some x"
    by (auto simp: find_own_session_eq [OF assms(1)] split: option.splits if_splits)
  have "to \<notin> set OPEN_SESSION_STATUSES" using assms(2) by (auto simp: OPEN_SESSION_STATUSES_def)
  from closed_store_units [OF assms(1) f x(2) this assms(3)] x run show ?thesis
    by (auto simp: close_session_eq [OF assms(1)])
next
  case False
  with run show ?thesis by (auto simp: close_session_eq [OF assms(1)] split: option.splits if_splits)
qed

lemma sample_session_keys: "session_keys_ok sample_store"
  by (simp add: session_keys_ok_def sample_defs)

theorem close_session_conserves_units_witness:
  "units ''pr1'' (snd (close_session sample_config 5 ''m1'' Test ''ps1'' Expired sample_store)) = Some 3"
proof -
  have "units ''pr1'' (snd (close_session sample_config 5 ''m1'' Test ''ps1'' Expired sample_store)) =
        units ''pr1'' sample_store"
    by (rule close_session_conserves_units [OF sample_session_keys _ _ prod.collapse [symmetric]]) simp_all
  also have "\<dots> = Some 3"
    by (simp add: units_def stock_of_def holds_unit_def OPEN_SESSION_STATUSES_def sample_defs)
  finally show ?thesis .
qed

text \<open>
  A session closes once: after a close that succeeded, a second close of the same session, to any status
  and by any caller, is refused and changes nothing, so no unit is given back twice.
\<close>

theorem close_session_once:
  assumes "session_keys_ok s" and "to \<in> {Cancelled, Expired}"
    and "close_session cfg now m mode i to s = (Inr w, s1)"
  shows "close_session cfg now' m' mode' i to' s1 =
           (Inl (if m' = m \<and> mode' = mode then forbidden ''session_invalid_state'' else not_found), s1)"
proof -
  from assms(3) obtain x where x: "find_own_session m mode i s = Some x" "s1 = closed_store now x to s"
    by (auto simp: close_session_eq [OF assms(1)] split: option.splits if_splits)
  then have f: "find_session i s = Some x" "ps_merchant_id x = m" "ps_mode x = mode"
    by (auto simp: find_own_session_eq [OF assms(1)] split: option.splits if_splits)
  then have id: "ps_id x = i" by (auto simp: find_session_def dest: find_row_Some)
  have keys: "session_keys_ok s1"
    using assms(1) x(2) by (auto simp: session_keys_ok_def closed_store_def set_update_where split: if_splits)
  have "find_session i s1 = Some (patch_session (Set_Status to) now x)"
    using f(1) id x(2) by (simp add: find_session_def closed_store_def session_patch.find_row_update)
  with f assms(2) show ?thesis
    unfolding close_session_eq [OF keys] find_own_session_eq [OF keys]
    by (auto simp: OPEN_SESSION_STATUSES_def)
qed

theorem close_session_once_witness:
  "\<exists>w s1. close_session sample_config 5 ''m1'' Test ''ps1'' Cancelled sample_store = (Inr w, s1) \<and>
     close_session sample_config 6 ''m1'' Test ''ps1'' Expired s1 = (Inl (forbidden ''session_invalid_state''), s1)"
proof -
  have "returned (close_session sample_config 5 ''m1'' Test ''ps1'' Cancelled sample_store)"
    unfolding close_session_eq [OF sample_session_keys]
    by (simp add: find_own_session_def OPEN_SESSION_STATUSES_def
        returned_def sample_defs)
  then obtain w s1 where run: "close_session sample_config 5 ''m1'' Test ''ps1'' Cancelled sample_store = (Inr w, s1)"
    by (rule returnedE)
  from close_session_once [OF sample_session_keys _ this, of 6 "''m1''" Test Expired] run show ?thesis
    by auto
qed

text \<open>
  A payer who is bound to a session stays bound: no later binding replaces the customer of any session,
  and a binding that succeeds was made while the session was open and before it expired.
\<close>

theorem bindCustomer_never_rebinds:
  assumes "session_keys_ok s" and "bindCustomer now i c s = (r, s')"
    and "find_session j s = Some x" and "ps_customer_id x = Some d"
  shows "\<exists>y. find_session j s' = Some y \<and> ps_customer_id y = Some d \<and> ps_status y = ps_status x \<and>
           (r = Inr () \<and> j = i \<longrightarrow> c = d \<and> ps_status x \<in> set OPEN_SESSION_STATUSES \<and> now < ps_expires_at x)"
proof -
  have id: "ps_id x = j" using assms(3) by (auto simp: find_session_def dest: find_row_Some)
  have all: "find_session j (s\<lparr>sessions := update_where (\<lambda>x. ps_id x = i) (patch_session (Set_Customer c) now) (sessions s)\<rparr>)
      = Some (if j = i then patch_session (Set_Customer c) now x else x)"
    using assms(3) id by (simp add: find_session_def session_patch.find_row_update)
  from assms(2-4) all show ?thesis
    by (auto simp: bindCustomer_eq [OF assms(1)] split: option.splits if_splits)
qed

theorem bindCustomer_never_rebinds_witness:
  "bindCustomer 9 ''ps1'' ''cu2'' (snd (bindCustomer 5 ''ps1'' ''cu1'' sample_store)) =
     (Inl (conflict ''payer_already_bound''), snd (bindCustomer 5 ''ps1'' ''cu1'' sample_store))"
proof -
  define t where "t = snd (bindCustomer 5 ''ps1'' ''cu1'' sample_store)"
  have keys: "session_keys_ok t"
    by (unfold session_keys_ok_def bindCustomer_sessions t_def) (simp add: sample_defs OPEN_SESSION_STATUSES_def)
  have x: "find_session ''ps1'' t = Some (patch_session (Set_Customer ''cu1'') 5 sample_session)"
    by (unfold find_session_def bindCustomer_sessions t_def) (simp add: sample_defs OPEN_SESSION_STATUSES_def)
  obtain r s' where run: "bindCustomer 9 ''ps1'' ''cu2'' t = (r, s')" by fastforce
  have "ps_customer_id (patch_session (Set_Customer ''cu1'') 5 sample_session) = Some ''cu1''" by simp
  from bindCustomer_never_rebinds [OF keys run x this] have "r \<noteq> Inr ()" by auto
  with run x have "r = Inl (conflict ''payer_already_bound'') \<and> s' = t"
    by (auto simp: bindCustomer_eq [OF keys] sample_session_def OPEN_SESSION_STATUSES_def split: if_splits)
  with run show ?thesis unfolding t_def by metis
qed

text \<open>
  Reading the list page by page is complete: a client that follows the cursors over an unchanged table,
  with any page size from 1 to 100, gets exactly the rows of the merchant and mode that pass the filters,
  newest first, each once; as many requests as there are rows (and one more) are enough.
\<close>

theorem session_list_complete:
  assumes "session_keys_ok s" and "0 < limit" and "limit \<le> 100"
  shows "all_pages (Suc (length (sessions s))) ps_id limit None (session_rows m mode st cu s) =
           Some (session_rows m mode st cu s) \<and>
         distinct (map ps_id (session_rows m mode st cu s)) \<and>
         set (session_rows m mode st cu s) =
           {r \<in> set (sessions s). ps_merchant_id r = m \<and> ps_mode r = mode \<and>
              (\<forall>x. st = Some x \<longrightarrow> ps_status r = x) \<and> (\<forall>x. cu = Some x \<longrightarrow> ps_customer_id r = Some x)}"
proof -
  have "length (session_rows m mode st cu s) < Suc (length (sessions s))"
    by (simp add: session_rows_def newest_first_def le_imp_less_Suc)
  from session_pages.pages_complete [OF assms this] session_pages.distinct_keys [OF assms(1), of m mode st cu]
  show ?thesis by (auto simp: session_rows_def split: option.splits)
qed

theorem session_list_complete_witness:
  "all_pages 2 ps_id 1 None (session_rows ''m1'' Test None None sample_store) = Some [sample_session]"
proof -
  have "all_pages (Suc (length (sessions sample_store))) ps_id 1 None (session_rows ''m1'' Test None None sample_store) =
      Some (session_rows ''m1'' Test None None sample_store)"
    using session_list_complete [OF sample_session_keys, of 1 "''m1''" Test None None] by simp
  then show ?thesis by (simp add: session_rows_def newest_first_def sample_defs numeral_2_eq_2)
qed

text \<open>
  The public checkout view gives away neither the fee split nor the metadata: two states whose sessions
  differ only there answer the public read alike.
\<close>

theorem retrieve_public_hides_fees:
  assumes "find_session i s = Some r" and "merchants t = merchants s"
    and "find_session i t = Some (r\<lparr>ps_fee_amount := fee, ps_net_amount := net, ps_metadata := md\<rparr>)"
  shows "fst (retrieve_session_public cfg i t) = fst (retrieve_session_public cfg i s)"
  using assms by (simp add: retrieve_session_public_def serialise_session_def onchain_id_text_def)

theorem retrieve_public_hides_fees_witness:
  "fst (retrieve_session_public sample_config ''ps1''
       (sample_store\<lparr>sessions := [sample_session\<lparr>ps_fee_amount := ''7'', ps_net_amount := ''8'',
          ps_metadata := [(''note'', ''secret'')]\<rparr>]\<rparr>)) =
   fst (retrieve_session_public sample_config ''ps1'' sample_store)"
  by (rule retrieve_public_hides_fees [where r = sample_session]) (simp_all add: sample_defs find_session_def)

end
