(* ===== verification/Storefront.thy ===== *)
theory Storefront
  imports Sessions
begin

text \<open>
  Storefronts and their products: \<open>apps/api/src/modules/storefronts/storefronts.service.ts\<close>. The public
  purchase has two halves, as in the code: what it reads and checks first, and the transaction that takes
  a unit and inserts the session. The second is a definition of its own (\<open>purchase\<close>) that takes the
  product as it was read, so that its guard can be stated for a stale reading.
\<close>

section \<open>The storefront\<close>

definition requirePlanFeature :: "string \<Rightarrow> plan_feature \<Rightarrow> (store, api_exn, unit) proc" where
  "requirePlanFeature merchantId feature =
     seq (find_merchant merchantId) (\<lambda>m. assertPlanIncludes (m_tier m) feature)"

record storefront_input =
  fi_slug :: string
  fi_name :: string
  fi_description :: "string option"
  fi_logo_url :: "string option"
  fi_cover_image_url :: "string option"
  fi_accent_color :: "string option"
  fi_social_links :: "string list"

definition find_storefront :: "string \<Rightarrow> store \<Rightarrow> storefront_row option" where
  "find_storefront merchantId s = find_row sf_merchant_id merchantId (storefronts s)"

definition retrieve_storefront :: "string \<Rightarrow> (store, api_exn, storefront_row option) proc" where
  "retrieve_storefront merchantId = gets (find_storefront merchantId)"

definition write_storefront :: "storefront_input \<times> int \<Rightarrow> storefront_row \<Rightarrow> storefront_row" where
  "write_storefront p r = (case p of (input, now) \<Rightarrow> r\<lparr>
     sf_slug := fi_slug input, sf_name := fi_name input, sf_description := fi_description input,
     sf_logo_url := fi_logo_url input, sf_cover_image_url := fi_cover_image_url input,
     sf_accent_color := fi_accent_color input, sf_social_links := fi_social_links input,
     sf_updated_at := now\<rparr>)"

definition new_storefront :: "string \<Rightarrow> int \<Rightarrow> string \<Rightarrow> storefront_input \<Rightarrow> storefront_row" where
  "new_storefront sid now merchantId input = \<lparr>
     sf_id = sid, sf_merchant_id = merchantId, sf_slug = fi_slug input, sf_name = fi_name input,
     sf_description = fi_description input, sf_logo_url = fi_logo_url input,
     sf_cover_image_url = fi_cover_image_url input, sf_accent_color = fi_accent_color input,
     sf_social_links = fi_social_links input, sf_status = Sf_Draft, sf_created_at = now,
     sf_updated_at = now\<rparr>"

definition upsert_storefront ::
  "string \<Rightarrow> int \<Rightarrow> string \<Rightarrow> storefront_input \<Rightarrow> (store, api_exn, storefront_row) proc" where
  "upsert_storefront sid now merchantId input =
     seq (requirePlanFeature merchantId Storefront_Builder) (\<lambda>_.
     seq (gets (\<lambda>s. find (\<lambda>r. sf_slug r = fi_slug input \<and> sf_merchant_id r \<noteq> merchantId) (storefronts s))) (\<lambda>existing.
     if existing \<noteq> None then raise (conflict ''invalid_request'')
     else (\<lambda>s. case find_storefront merchantId s of
            Some r \<Rightarrow> (Inr (write_storefront (input, now) r),
              s\<lparr>storefronts := update_where (\<lambda>r. sf_merchant_id r = merchantId) (write_storefront (input, now)) (storefronts s)\<rparr>)
          | None \<Rightarrow> (Inr (new_storefront sid now merchantId input),
              s\<lparr>storefronts := storefronts s @ [new_storefront sid now merchantId input]\<rparr>))))"

definition setStatus :: "int \<Rightarrow> string \<Rightarrow> storefront_status \<Rightarrow> (store, api_exn, storefront_row) proc" where
  "setStatus now merchantId status =
     seq (if status = Sf_Published then requirePlanFeature merchantId Storefront_Builder else ret ()) (\<lambda>_.
     seq (gets (find_storefront merchantId)) (\<lambda>existing.
     seq (or_raise not_found existing) (\<lambda>r.
     seq (modify (\<lambda>s. s\<lparr>storefronts := update_where (\<lambda>r. sf_merchant_id r = merchantId)
            (\<lambda>r. r\<lparr>sf_status := status, sf_updated_at := now\<rparr>) (storefronts s)\<rparr>)) (\<lambda>_.
     ret (r\<lparr>sf_status := status, sf_updated_at := now\<rparr>)))))"

section \<open>Products\<close>

record product_input =
  qi_name :: string
  qi_description :: "string option"
  qi_image_url :: "string option"
  qi_price :: string
  qi_currency :: payment_currency
  qi_type :: product_type
  qi_interval :: "subscription_interval option"
  qi_interval_count :: "nat option"
  qi_stock :: "int option"
  qi_plan_id :: "string option"
  qi_is_active :: "bool option"
  qi_sort_order :: int

text \<open>\<open>orderBy: [{ sortOrder: 'asc' }, { createdAt: 'desc' }]\<close> is the stable sort by the first key of the rows sorted by the second.\<close>

definition product_rows :: "string \<Rightarrow> store \<Rightarrow> product_row list" where
  "product_rows storefrontId s =
     sort_key pr_sort_order (newest_first pr_created_at (filter (\<lambda>r. pr_storefront_id r = storefrontId) (products s)))"

definition listProducts :: "string \<Rightarrow> list_params \<Rightarrow> (store, api_exn, product_row page) proc" where
  "listProducts merchantId p =
     seq (gets (find_storefront merchantId)) (\<lambda>sf.
     seq (or_raise not_found sf) (\<lambda>sf. gets (\<lambda>s. list_page pr_id p (product_rows (sf_id sf) s))))"

definition plan_mismatches :: "plan_row \<Rightarrow> product_input \<Rightarrow> string list" where
  "plan_mismatches plan input =
     (if pl_amount plan \<noteq> qi_price input then [''price''] else []) @
     (if pl_currency plan \<noteq> qi_currency input then [''currency''] else []) @
     (if Some (pl_interval plan) \<noteq> qi_interval input then [''interval''] else []) @
     (if Some (pl_interval_count plan) \<noteq> qi_interval_count input then [''intervalCount''] else [])"

definition assertPlanMatches :: "string \<Rightarrow> string \<Rightarrow> product_input \<Rightarrow> (store, api_exn, unit) proc" where
  "assertPlanMatches merchantId planId input =
     seq (gets (\<lambda>s. find (\<lambda>r. pl_id r = planId \<and> pl_merchant_id r = merchantId \<and> pl_status r = Plan_Active) (plans s))) (\<lambda>found.
     seq (or_raise (bad_request ''invalid_request'') found) (\<lambda>plan.
     require (plan_mismatches plan input = []) (bad_request ''invalid_request'')))"

definition new_product :: "string \<Rightarrow> int \<Rightarrow> string \<Rightarrow> product_input \<Rightarrow> product_row" where
  "new_product pid now storefrontId input = \<lparr>
     pr_id = pid, pr_storefront_id = storefrontId, pr_name = qi_name input,
     pr_description = qi_description input, pr_image_url = qi_image_url input, pr_price = qi_price input,
     pr_currency = qi_currency input, pr_type = qi_type input, pr_interval = qi_interval input,
     pr_interval_count = qi_interval_count input, pr_stock = qi_stock input, pr_plan_id = qi_plan_id input,
     pr_is_active = (case qi_is_active input of None \<Rightarrow> True | Some b \<Rightarrow> b),
     pr_sort_order = qi_sort_order input, pr_created_at = now, pr_updated_at = now\<rparr>"

definition createProduct :: "string \<Rightarrow> int \<Rightarrow> string \<Rightarrow> product_input \<Rightarrow> (store, api_exn, product_row) proc" where
  "createProduct pid now merchantId input =
     seq (requirePlanFeature merchantId Storefront_Builder) (\<lambda>_.
     seq (assertMinimumAmount (BigInt (qi_price input))) (\<lambda>_.
     seq (gets (find_storefront merchantId)) (\<lambda>found.
     seq (or_raise not_found found) (\<lambda>sf.
     seq (case qi_plan_id input of None \<Rightarrow> ret ()
          | Some planId \<Rightarrow> if planId = [] then ret () else assertPlanMatches merchantId planId input) (\<lambda>_.
     seq (modify (\<lambda>s. s\<lparr>products := products s @ [new_product pid now (sf_id sf) input]\<rparr>)) (\<lambda>_.
     ret (new_product pid now (sf_id sf) input)))))))"

text \<open>\<open>findFirst({ where: { id, storefront: { merchantId } } })\<close>.\<close>

definition find_own_product :: "string \<Rightarrow> string \<Rightarrow> store \<Rightarrow> product_row option" where
  "find_own_product merchantId i s =
     find (\<lambda>r. pr_id r = i \<and> (\<exists>f\<in>set (storefronts s). sf_id f = pr_storefront_id r \<and> sf_merchant_id f = merchantId)) (products s)"

definition retrieveProduct :: "string \<Rightarrow> string \<Rightarrow> (store, api_exn, product_row) proc" where
  "retrieveProduct merchantId i = seq (gets (find_own_product merchantId i)) (or_raise not_found)"

definition archiveProduct :: "int \<Rightarrow> string \<Rightarrow> string \<Rightarrow> (store, api_exn, product_row) proc" where
  "archiveProduct now merchantId i =
     seq (retrieveProduct merchantId i) (\<lambda>r.
     seq (modify (\<lambda>s. s\<lparr>products := update_where (\<lambda>p. pr_id p = pr_id r)
            (\<lambda>p. p\<lparr>pr_is_active := False, pr_updated_at := now\<rparr>) (products s)\<rparr>)) (\<lambda>_.
     ret (r\<lparr>pr_is_active := False, pr_updated_at := now\<rparr>)))"

definition retrievePublic :: "string \<Rightarrow> (store, api_exn, storefront_row \<times> product_row list) proc" where
  "retrievePublic slug =
     seq (gets (\<lambda>s. find_row sf_slug slug (storefronts s))) (\<lambda>found.
     case found of None \<Rightarrow> raise not_found
     | Some sf \<Rightarrow> if sf_status sf \<noteq> Sf_Published then raise not_found
         else gets (\<lambda>s. (sf, sort_key pr_sort_order
                (filter (\<lambda>r. pr_storefront_id r = sf_id sf \<and> pr_is_active r) (products s)))))"

section \<open>Buying\<close>

record checkout_input =
  ci_return_path :: "string option"
  ci_customer_email :: "string option"

datatype checkout_kind = Payment_Session_Kind | Subscription_Plan_Kind

record checkout_response =
  co_checkout_url :: string
  co_ref :: string
  co_kind :: checkout_kind

definition merchant_return :: "config \<Rightarrow> storefront_row \<Rightarrow> checkout_input \<Rightarrow> string" where
  "merchant_return cfg sf input =
     (let returnPath = (case ci_return_path input of None \<Rightarrow> ''/'' | Some p \<Rightarrow> if starts_with p ''/'' then p else ''/'')
      in cf_checkout_origin cfg @ ''/store/'' @ sf_slug sf @ (if returnPath = ''/'' then [] else returnPath))"

definition purchase_input :: "config \<Rightarrow> storefront_row \<Rightarrow> product_row \<Rightarrow> checkout_input \<Rightarrow> session_input" where
  "purchase_input cfg sf product input = \<lparr>
     si_amount = pr_price product, si_currency = pr_currency product, si_expires_in_minutes = 30,
     si_description = Some (pr_name product),
     si_success_url = Some (merchant_return cfg sf input @ ''?checkout=success''),
     si_cancel_url = Some (merchant_return cfg sf input @ ''?checkout=cancelled''),
     si_customer = (if truthy (ci_customer_email input)
       then Some \<lparr>xi_wallet_address = None, xi_email = ci_customer_email input, xi_external_ref = None\<rparr> else None),
     si_metadata = [(''source'', ''storefront''), (''storefrontSlug'', sf_slug sf), (''productId'', pr_id product),
        (''productName'', pr_name product)] @
        (case ci_customer_email input of None \<Rightarrow> [] | Some e \<Rightarrow> if e = [] then [] else [(''customerEmail'', e)])\<rparr>"

definition take_unit :: "int \<Rightarrow> string \<Rightarrow> (store, api_exn, unit) proc" where
  "take_unit now pid = (\<lambda>s.
     let P = (\<lambda>p. pr_id p = pid \<and> (case pr_stock p of None \<Rightarrow> False | Some n \<Rightarrow> 0 < n));
         count = count_where P (products s);
         s' = s\<lparr>products := update_where P (add_stock (-1, now)) (products s)\<rparr>
     in if count = 0 then (Inl (conflict ''sold_out''), s') else (Inr (), s'))"

definition purchase ::
  "config \<Rightarrow> registry_fees \<Rightarrow> fresh_ids \<Rightarrow> int \<Rightarrow> storefront_row \<Rightarrow> product_row \<Rightarrow> checkout_input \<Rightarrow>
   (store, api_exn, session_wire) proc" where
  "purchase cfg registry fr now sf product input =
     in_tx (seq (if pr_stock product \<noteq> None then take_unit now (pr_id product) else ret ()) (\<lambda>_.
       insert_session cfg registry fr now (sf_merchant_id sf) (arcModeFor (cf_arc_environment cfg))
         (purchase_input cfg sf product input) (Some (pr_id product))))"

definition sold_out :: "product_row \<Rightarrow> bool" where
  "sold_out p \<longleftrightarrow> (case pr_stock p of None \<Rightarrow> False | Some n \<Rightarrow> n \<le> 0)"

definition checkoutFromProduct ::
  "config \<Rightarrow> registry_fees \<Rightarrow> fresh_ids \<Rightarrow> int \<Rightarrow> string \<Rightarrow> string \<Rightarrow> checkout_input \<Rightarrow>
   (store, api_exn, checkout_response) proc" where
  "checkoutFromProduct cfg registry fr now slug productId input =
     seq (gets (\<lambda>s. find_row sf_slug slug (storefronts s))) (\<lambda>found.
     case found of None \<Rightarrow> raise not_found | Some sf \<Rightarrow>
     if sf_status sf \<noteq> Sf_Published then raise not_found else
     seq (gets (\<lambda>s. find (\<lambda>p. pr_id p = productId \<and> pr_storefront_id p = sf_id sf \<and> pr_is_active p) (products s))) (\<lambda>found.
     seq (or_raise not_found found) (\<lambda>product.
     if sold_out product then raise (conflict ''sold_out'')
     else if pr_type product = Subscription_Product then
       (case pr_plan_id product of
          None \<Rightarrow> raise (bad_request ''invalid_request'')
        | Some planId \<Rightarrow>
            if planId = [] then raise (bad_request ''invalid_request'')
            else ret \<lparr>co_checkout_url = cf_checkout_origin cfg @ ''/sub/'' @ planId, co_ref = planId,
                      co_kind = Subscription_Plan_Kind\<rparr>)
     else
       seq (prepareMerchant now (sf_merchant_id sf)) (\<lambda>_.
       seq (purchase cfg registry fr now sf product input) (\<lambda>session.
       ret \<lparr>co_checkout_url = cf_checkout_origin cfg @ ''/pay/'' @ sw_id session, co_ref = sw_id session,
            co_kind = Payment_Session_Kind\<rparr>)))))"

section \<open>Lemmas\<close>

definition product_keys_ok :: "store \<Rightarrow> bool" where
  "product_keys_ok s \<longleftrightarrow> distinct (map pr_id (products s)) \<and> (\<forall>r\<in>set (products s). pr_id r \<noteq> [])"

interpretation storefront_write: row_update sf_merchant_id write_storefront
  by unfold_locales (simp add: write_storefront_def split: prod.splits)

interpretation product_pages: paged_rows pr_id "product_rows sid" product_keys_ok for sid
proof
  fix s :: store
  assume ok: "product_keys_ok s"
  then have "distinct (map pr_id (newest_first pr_created_at (filter (\<lambda>r. pr_storefront_id r = sid) (products s))))"
    unfolding product_keys_ok_def by (blast intro: distinct_map_filter_sort)
  then show "distinct (map pr_id (product_rows sid s))"
    by (simp add: product_rows_def distinct_map)
  show "pr_id r \<noteq> []" if "r \<in> set (product_rows sid s)" for r
    using that ok by (auto simp: product_rows_def product_keys_ok_def)
qed

lemma find_row_take_unit:
  "find_row pr_id pid (update_where (\<lambda>p. pr_id p = q \<and> P p) (add_stock (d, now)) t) =
     map_option (\<lambda>p. if pr_id p = q \<and> P p then add_stock (d, now) p else p) (find_row pr_id pid t)"
  by (simp add: stock_patch.find_row_update)

text \<open>A unit is taken from a positive stock only.\<close>

lemma take_unit_Inr:
  assumes "distinct (map pr_id (products s))" and "take_unit now pid s = (Inr u, s')"
  shows "\<exists>n. stock_of pid s = Some n \<and> 0 < n \<and>
     (\<forall>q. stock_of q s' = (if q = pid then Some (n - 1) else stock_of q s)) \<and>
     sessions s' = sessions s"
proof -
  let ?Q = "\<lambda>p. case pr_stock p of None \<Rightarrow> False | Some n \<Rightarrow> (0::int) < n"
  let ?P = "\<lambda>p. pr_id p = pid \<and> ?Q p"
  from assms(2) have cnt: "count_where ?P (products s) \<noteq> 0"
    and s': "s' = s\<lparr>products := update_where ?P (add_stock (-1, now)) (products s)\<rparr>"
    by (auto simp: take_unit_def Let_def split: if_splits)
  from cnt obtain p where p: "find_row pr_id pid (products s) = Some p" "?Q p"
    using stock_patch.count_key [OF assms(1), of pid ?Q] by (auto split: option.splits if_splits)
  then obtain n where n: "pr_stock p = Some n" "0 < n" by (auto split: option.splits)
  have id: "pr_id p = pid" using p(1) by (auto dest: find_row_Some)
  have st: "stock_of q s' = (if q = pid then Some (n - 1) else stock_of q s)" for q
  proof (cases "q = pid")
    case True
    with p n id show ?thesis by (simp add: stock_of_def s' find_row_take_unit add_stock_def)
  next
    case False
    then show ?thesis
      by (cases "find_row pr_id q (products s)") (auto simp: stock_of_def s' find_row_take_unit dest: find_row_Some)
  qed
  show ?thesis
    using st p n by (auto simp: stock_of_def s')
qed

definition stock_ok :: "store \<Rightarrow> bool" where
  "stock_ok s \<longleftrightarrow> (\<forall>p\<in>set (products s). \<forall>n. pr_stock p = Some n \<longrightarrow> 0 \<le> n)"

lemma take_unit_keeps: "keeps stock_ok (take_unit now pid)"
  by (rule keepsI)
    (auto simp: stock_ok_def take_unit_def Let_def set_update_where add_stock_def split: option.splits if_splits)

text \<open>Inserting a session leaves the products alone, whatever it answers.\<close>

lemma keeps_insert_session [keeps_intros]:
  assumes I: "\<And>s f. I s \<Longrightarrow> I (s\<lparr>customers := f\<rparr>)" "\<And>s f. I s \<Longrightarrow> I (s\<lparr>sessions := f\<rparr>)"
    "\<And>s f. I s \<Longrightarrow> I (s\<lparr>events := f\<rparr>)"
  shows "keeps I (insert_session cfg registry fr now mid mode input link)"
proof -
  have fee: "keeps I (feeBpsFor registry m)" for m
    by (simp add: keeps_def feeBpsFor_pure)
  have cust: "keeps I (session_customer cid now mid input)" for cid
    using session_customer_ok [of cid now mid input] I(1) by (auto simp: keeps_def) (metis snd_conv)
  show ?thesis
    unfolding insert_session_def find_merchant_def fire_def
    by (intro keeps_intros fee cust) (auto simp: I split: prod.split intro!: keeps_intros cust I)
qed

lemma keeps_requestRegistration [keeps_intros]:
  assumes I: "\<And>s f q. I s \<Longrightarrow> I (s\<lparr>merchants := f, relay_queue := q\<rparr>)"
  shows "keeps I (requestRegistration now mid)"
proof (rule keepsI)
  fix s
  assume "I s"
  obtain r s' where run: "requestRegistration now mid s = (r, s')" by fastforce
  from requestRegistration_frame [OF run] \<open>I s\<close> I show "I (snd (requestRegistration now mid s))"
    by (auto simp: run)
qed

text \<open>A purchase that fails leaves no trace of its transaction.\<close>

lemma purchase_Inl: "purchase cfg registry fr now sf p input s = (Inl e, s') \<Longrightarrow> s' = s"
  by (simp add: purchase_def in_tx_Inl)

lemma purchase_Inr:
  assumes keys: "distinct (map pr_id (products s))" and fresh: "find_session (fr_session fr) s = None"
    and run: "purchase cfg registry fr now sf p input s = (Inr w, s')"
  obtains row where "sessions s' = sessions s @ [row]" "ps_id row = fr_session fr" "ps_status row = Created"
    "ps_storefront_product_id row = Some (pr_id p)" "ps_amount row = pr_price p" "session_money_ok row"
    "ps_mode row = arcModeFor (cf_arc_environment cfg)" "w = serialise_session cfg s' row"
    "\<And>q. stock_of q s' =
       (if q = pr_id p \<and> pr_stock p \<noteq> None then map_option (\<lambda>n. n - 1) (stock_of q s) else stock_of q s)"
    "pr_stock p \<noteq> None \<Longrightarrow> \<exists>n. stock_of (pr_id p) s = Some n \<and> 0 < n"
proof -
  let ?mid = "sf_merchant_id sf" and ?mode = "arcModeFor (cf_arc_environment cfg)"
    and ?in = "purchase_input cfg sf p input" and ?link = "Some (pr_id p)"
  from run obtain u s1 where take: "(if pr_stock p \<noteq> None then take_unit now (pr_id p) else ret ()) s = (Inr u, s1)"
    and ins: "insert_session cfg registry fr now ?mid ?mode ?in ?link s1 = (Inr w, s')"
    by (auto simp: purchase_def seq_Inr_iff)
  have st1: "stock_of q s1 = (if q = pr_id p \<and> pr_stock p \<noteq> None then map_option (\<lambda>n. n - 1) (stock_of q s) else stock_of q s)"
    and ses: "sessions s1 = sessions s"
    and pos: "pr_stock p \<noteq> None \<Longrightarrow> \<exists>n. stock_of (pr_id p) s = Some n \<and> 0 < n" for q
  proof -
    have "sessions s1 = sessions s \<and> (stock_of q s1 = (if q = pr_id p \<and> pr_stock p \<noteq> None
        then map_option (\<lambda>n. n - 1) (stock_of q s) else stock_of q s)) \<and>
        (pr_stock p \<noteq> None \<longrightarrow> (\<exists>n. stock_of (pr_id p) s = Some n \<and> 0 < n))" for q
    proof (cases "pr_stock p = None")
      case True
      with take show ?thesis by simp
    next
      case False
      with take have "take_unit now (pr_id p) s = (Inr u, s1)" by simp
      from take_unit_Inr [OF keys this] False show ?thesis by auto
    qed
    then show "sessions s1 = sessions s" "pr_stock p \<noteq> None \<Longrightarrow> \<exists>n. stock_of (pr_id p) s = Some n \<and> 0 < n"
      "stock_of q s1 = (if q = pr_id p \<and> pr_stock p \<noteq> None then map_option (\<lambda>n. n - 1) (stock_of q s) else stock_of q s)"
      by blast+
  qed
  have fresh1: "find_session (fr_session fr) s1 = None" using fresh ses by (simp add: find_session_def)
  from ins fresh1 obtain row where row: "sessions s' = sessions s1 @ [row]" "w = serialise_session cfg s' row"
    "session_money_ok row" "ps_id row = fr_session fr" "ps_amount row = si_amount ?in"
    "ps_status row = Created" "ps_mode row = ?mode" "ps_storefront_product_id row = ?link"
    "products s' = products s1"
    by (rule insert_session_row) (rule that)
  show thesis
  proof (rule that [of row])
    show "sessions s' = sessions s @ [row]" using row(1) ses by simp
    show "ps_amount row = pr_price p" using row(5) by (simp add: purchase_input_def)
    show "stock_of q s' = (if q = pr_id p \<and> pr_stock p \<noteq> None then map_option (\<lambda>n. n - 1) (stock_of q s) else stock_of q s)" for q
      using st1 [of q] row(9) by (simp add: stock_of_def)
  qed (use row pos in auto)
qed

section \<open>Properties\<close>

text \<open>
  C14. Overselling is impossible, even when the product was read earlier and other buyers came first: a
  purchase of a product with finite stock succeeds only while a unit is left, takes exactly one, and when
  it fails, on an empty stock or later in the transaction, every stock and session is as before.
\<close>

theorem purchase_never_oversells:
  assumes "product_keys_ok s" and "find_session (fr_session fr) s = None" and "pr_stock product \<noteq> None"
    and "purchase cfg registry fr now sf product input s = (r, s')"
  shows "case r of
      Inl e \<Rightarrow> s' = s
    | Inr w \<Rightarrow> \<exists>n. stock_of (pr_id product) s = Some n \<and> 0 < n \<and> stock_of (pr_id product) s' = Some (n - 1) \<and>
        length (sessions s') = Suc (length (sessions s))"
proof (cases r)
  case (Inl e)
  with assms(4) purchase_Inl show ?thesis by fastforce
next
  case (Inr w)
  from assms(1) have d: "distinct (map pr_id (products s))" by (simp add: product_keys_ok_def)
  from assms(3) show ?thesis
    by (rule_tac purchase_Inr [OF d assms(2) assms(4) [unfolded Inr]]) (auto simp: Inr)
qed

text \<open>
  A public purchase conserves units: the unit it takes from the stock is held by the session it opens,
  at the product's price and linked to the product; all other products keep theirs.
\<close>

theorem checkout_conserves_units:
  assumes "product_keys_ok s" and "find_session (fr_session fr) s = None"
    and run: "checkoutFromProduct cfg registry fr now slug pid input s = (r, s')"
  shows "units q s' = units q s"
proof -
  from assms(1) have d: "distinct (map pr_id (products s))" by (simp add: product_keys_ok_def)
  have unchanged: ?thesis if "products s' = products s" "sessions s' = sessions s"
    using that by (simp add: units_def stock_of_def)
  show ?thesis
  proof (cases "find_row sf_slug slug (storefronts s)")
    case None
    with run have "products s' = products s \<and> sessions s' = sessions s" by (auto simp: checkoutFromProduct_def)
    with unchanged show ?thesis by blast
  next
    case (Some sf)
    let ?F = "find (\<lambda>p. pr_id p = pid \<and> pr_storefront_id p = sf_id sf \<and> pr_is_active p) (products s)"
    show ?thesis
    proof (cases "sf_status sf \<noteq> Sf_Published \<or> ?F = None \<or>
        (\<exists>p. ?F = Some p \<and> (sold_out p \<or> pr_type p = Subscription_Product))")
      case True
      with run Some have "products s' = products s \<and> sessions s' = sessions s"
        by (auto simp: checkoutFromProduct_def split: if_splits option.splits)
      with unchanged show ?thesis by blast
    next
      case False
      then obtain p where p: "?F = Some p" "\<not> sold_out p" "pr_type p \<noteq> Subscription_Product"
        and pub: "sf_status sf = Sf_Published" by auto
      have fp: "find_row pr_id pid (products s) = Some p"
        using p(1) unfolding find_row_and [OF d] by (auto split: option.splits if_splits)
      then have id: "pr_id p = pid" by (auto dest: find_row_Some)
      obtain r1 s1 where prep: "requestRegistration now (sf_merchant_id sf) s = (r1, s1)" by fastforce
      from requestRegistration_frame [OF prep] have same: "sessions s1 = sessions s" "products s1 = products s" by auto
      obtain r2 s2 where buy: "purchase cfg registry fr now sf p input s1 = (r2, s2)" by fastforce
      have s': "s' = (case r1 of Inl _ \<Rightarrow> s1 | Inr _ \<Rightarrow> s2)"
        using run Some p pub prep buy
        by (auto simp: checkoutFromProduct_def prepareMerchant_def seq_def split: sum.splits)
      show ?thesis
      proof (cases "\<exists>u w. r1 = Inr u \<and> r2 = Inr w")
        case False
        then have "s' = s1" using s' purchase_Inl buy by (cases r1; cases r2) auto
        with same unchanged show ?thesis by simp
      next
        case True
        then obtain u w where r: "r1 = Inr u" "r2 = Inr w" by blast
        have d1: "distinct (map pr_id (products s1))" and f1: "find_session (fr_session fr) s1 = None"
          using d assms(2) same by (simp_all add: find_session_def)
        have st: "stock_of x s1 = stock_of x s" for x using same by (simp add: stock_of_def)
        from d1 f1 buy [unfolded r] show ?thesis
        proof (rule purchase_Inr)
          fix row
          assume row: "sessions s2 = sessions s1 @ [row]" "ps_status row = Created"
            "ps_storefront_product_id row = Some (pr_id p)"
            "\<And>x. stock_of x s2 = (if x = pr_id p \<and> pr_stock p \<noteq> None then map_option (\<lambda>n. n - 1) (stock_of x s1) else stock_of x s1)"
          have h: "holds_unit q row \<longleftrightarrow> q = pid"
            using row(2,3) id by (auto simp: holds_unit_def OPEN_SESSION_STATUSES_def)
          show ?thesis
            using row(4) [of q] h fp id st same(1) s' r
            by (auto simp: row(1) stock_of_def units_def option.map_comp comp_def)
        qed
      qed
    qed
  qed
qed

text \<open>
  Stock never goes below zero: every operation on storefronts and sessions keeps every finite stock
  non-negative (a new product comes with a non-negative stock, as its schema requires).
\<close>

theorem stock_never_negative:
  assumes "stock_ok s"
  shows "stock_ok (snd (checkoutFromProduct cfg registry fr now slug pid ci s)) \<and>
         (\<forall>cfg m mode i to. session_keys_ok s \<longrightarrow> stock_ok (snd (close_session cfg now m mode i to s))) \<and>
         stock_ok (snd (archiveProduct now m pid s)) \<and>
         (\<forall>input. opt_ok (\<lambda>n. 0 \<le> n) (qi_stock input) \<longrightarrow> stock_ok (snd (createProduct pid now m input s)))"
proof -
  have close: "stock_ok (snd (close_session cfg now m mode i to s))" if "session_keys_ok s" for cfg m mode i to
    using assms
    by (auto simp: close_session_eq [OF that] closed_store_def stock_ok_def restock_def set_update_where add_stock_def
        split: option.split if_splits)
  have arch: "stock_ok (snd (archiveProduct now m pid s))"
    using assms
    by (auto simp: archiveProduct_def retrieveProduct_def seq_def stock_ok_def set_update_where
        split: option.split if_splits)
  have create: "stock_ok (snd (createProduct pid now m input s))" if "opt_ok (\<lambda>n. 0 \<le> n) (qi_stock input)" for input
  proof -
    have k: "keeps stock_ok (createProduct pid now m input)"
      unfolding createProduct_def requirePlanFeature_def find_merchant_def assertPlanMatches_def
      using that
      by (intro keeps_intros) (auto simp: stock_ok_def new_product_def opt_ok_def split: option.splits intro!: keeps_intros)
    then show ?thesis using assms by (simp add: keeps_def)
  qed
  have buy: "keeps stock_ok (checkoutFromProduct cfg registry fr now slug pid ci)"
    unfolding checkoutFromProduct_def purchase_def prepareMerchant_def
    by (intro keeps_intros take_unit_keeps)
      (auto simp: stock_ok_def intro!: keeps_intros take_unit_keeps [unfolded stock_ok_def] split: option.split)
  with assms close arch create show ?thesis by (auto simp: keeps_def)
qed

section \<open>Witnesses\<close>

lemma sample_product_keys: "product_keys_ok sample_store"
  by (simp add: product_keys_ok_def sample_defs)

lemma sample_fresh_session: "find_session (fr_session sample_fresh) sample_store = None"
  by (simp add: find_session_def sample_defs)

definition sample_checkout :: checkout_input where
  [sample_defs]: "sample_checkout = \<lparr>ci_return_path = Some ''/mug'', ci_customer_email = None\<rparr>"

theorem purchase_never_oversells_witness:
  "\<exists>w s'. purchase sample_config no_fees sample_fresh 5 sample_storefront sample_product sample_checkout sample_store = (Inr w, s') \<and>
     stock_of ''pr1'' s' = Some 1"
proof -
  have big: "BigInt ''2000000'' = 2000000"
    by (simp add: BigInt_def big_nat_def digit_of_def)
  have "returned (purchase sample_config no_fees sample_fresh 5 sample_storefront sample_product sample_checkout sample_store)"
    by (simp add: purchase_def in_tx_def take_unit_def purchase_input_def insert_session_def seq_def
        assertMinimumAmount_def MINIMUM_PAYMENT_AMOUNT_def feeBpsFor_def feeSplit_def MAX_FEE_BPS_def
        planFeeBps_def session_customer_def find_session_def returned_def big Let_def sample_defs)
  then obtain w s' where run: "purchase sample_config no_fees sample_fresh 5 sample_storefront sample_product sample_checkout sample_store = (Inr w, s')"
    by (rule returnedE)
  have "pr_stock sample_product \<noteq> None" "pr_id sample_product = ''pr1''" "stock_of ''pr1'' sample_store = Some 2"
    by (simp_all add: sample_defs stock_of_def)
  with purchase_never_oversells [OF sample_product_keys sample_fresh_session _ run] run show ?thesis by auto
qed

theorem checkout_conserves_units_witness:
  "units ''pr1'' (snd (checkoutFromProduct sample_config no_fees sample_fresh 5 ''shop'' ''pr1'' sample_checkout sample_store)) = Some 3"
proof -
  have "units ''pr1'' (snd (checkoutFromProduct sample_config no_fees sample_fresh 5 ''shop'' ''pr1'' sample_checkout sample_store)) =
        units ''pr1'' sample_store"
    by (rule checkout_conserves_units [OF sample_product_keys sample_fresh_session prod.collapse [symmetric]])
  also have "\<dots> = Some 3"
    by (simp add: units_def stock_of_def holds_unit_def OPEN_SESSION_STATUSES_def sample_defs)
  finally show ?thesis .
qed

theorem stock_never_negative_witness:
  "stock_ok (snd (checkoutFromProduct sample_config no_fees sample_fresh 5 ''shop'' ''pr1'' sample_checkout sample_store))"
proof -
  have "stock_ok sample_store" by (simp add: stock_ok_def sample_defs)
  from stock_never_negative [OF this] show ?thesis by blast
qed

end
