(* ===== verification/Relay_Guards.thy ===== *)
theory Relay_Guards
  imports Samples "HOL-Library.Word"
begin

text \<open>
  The guards around a relayed transaction (\<open>apps/api/src/modules/relay\<close>): the attempt pointers
  (\<open>relay-attempts.ts\<close>), the daily budget (\<open>relay-budget.service.ts\<close>), the gas price
  (\<open>gas-pricing.service.ts\<close>) and the nonce dispenser (\<open>nonce-manager.service.ts\<close>). Two
  interfaces are locales: \<open>claims\<close>, a compare-and-set pointer store, and \<open>dispenser\<close>, a counter
  that is seeded on its first use; both are interpreted on the Redis keys of the model. The expiry of a key
  is the environment's (an expired key reads as absent).
\<close>

section \<open>Attempt pointers\<close>

definition RELAY_ATTEMPT_TTL_SECONDS :: nat where
  "RELAY_ATTEMPT_TTL_SECONDS = 2 * 60 * 60"

definition paymentAttemptScope :: "string \<Rightarrow> string" where
  "paymentAttemptScope sessionId = ''relay-attempt:pay:'' @ sessionId"

definition subscriptionAttemptScope :: "string \<Rightarrow> string \<Rightarrow> string" where
  "subscriptionAttemptScope planId payer = ''relay-attempt:sub:'' @ planId @ '':'' @ to_lower payer"

definition attempt_current :: "store \<Rightarrow> string \<Rightarrow> string option" where
  "attempt_current s scope = redis s scope"

text \<open>
  \<open>SET scope next NX\<close> when nothing is expected, else the compare-and-set script.
\<close>

definition attempt_claim :: "string \<Rightarrow> string option \<Rightarrow> string \<Rightarrow> store \<Rightarrow> bool \<times> store" where
  "attempt_claim scope expected nxt s =
     (case expected of
        None \<Rightarrow> (case redis s scope of
            None \<Rightarrow> (True, s\<lparr>redis := (redis s)(scope \<mapsto> nxt)\<rparr>)
          | Some _ \<Rightarrow> (False, s))
      | Some e \<Rightarrow> if redis s scope = Some e then (True, s\<lparr>redis := (redis s)(scope \<mapsto> nxt)\<rparr>) else (False, s))"

lemma attempt_claim_fst: "fst (attempt_claim k e v s) = (redis s k = e)"
  unfolding attempt_claim_def by (cases e; cases "redis s k") simp_all

lemma attempt_claim_snd:
  "snd (attempt_claim k e v s) = (if redis s k = e then s\<lparr>redis := (redis s)(k \<mapsto> v)\<rparr> else s)"
  unfolding attempt_claim_def by (cases e; cases "redis s k") simp_all

locale claims =
  fixes get :: "'s \<Rightarrow> 'k \<Rightarrow> 'v option"
    and claim :: "'k \<Rightarrow> 'v option \<Rightarrow> 'v \<Rightarrow> 's \<Rightarrow> bool \<times> 's"
  assumes claim_wins: "fst (claim k e v s) \<longleftrightarrow> get s k = e"
    and claim_sets: "fst (claim k e v s) \<Longrightarrow> get (snd (claim k e v s)) j = (if j = k then Some v else get s j)"
    and claim_fails: "\<not> fst (claim k e v s) \<Longrightarrow> snd (claim k e v s) = s"
begin

text \<open>Contenders that all read the same pointer and then claim it, one after the other: who won.\<close>

fun contend :: "'k \<Rightarrow> 'v option \<Rightarrow> 'v list \<Rightarrow> 's \<Rightarrow> 'v list" where
  "contend k e [] s = []"
| "contend k e (v # vs) s = (case claim k e v s of (won, s') \<Rightarrow> (if won then [v] else []) @ contend k e vs s')"

lemma contend_lost: "get s k \<noteq> e \<Longrightarrow> contend k e vs s = []"
proof (induction vs)
  case Nil
  then show ?case by simp
next
  case (Cons v vs)
  then have "\<not> fst (claim k e v s)" by (simp add: claim_wins)
  with claim_fails Cons show ?case by (auto simp: case_prod_unfold)
qed

lemma one_winner:
  assumes "get s k = e" and "e \<notin> Some ` set (v # vs)"
  shows "contend k e (v # vs) s = [v]"
proof -
  have won: "fst (claim k e v s)" using assms(1) by (simp add: claim_wins)
  then have "get (snd (claim k e v s)) k = Some v" by (simp add: claim_sets)
  then have "get (snd (claim k e v s)) k \<noteq> e" using assms(2) by auto
  with won contend_lost show ?thesis by (simp add: case_prod_unfold)
qed

end

interpretation pointers: claims attempt_current attempt_claim
  by unfold_locales (simp_all add: attempt_claim_fst attempt_claim_snd attempt_current_def)

section \<open>Daily budget\<close>

fun RELAY_DAILY_QUOTA :: "merchant_tier \<Rightarrow> nat" where
  "RELAY_DAILY_QUOTA Free = 500"
| "RELAY_DAILY_QUOTA Starter = 5000"
| "RELAY_DAILY_QUOTA Growth = 50000"
| "RELAY_DAILY_QUOTA Enterprise = 50000"

definition MS_PER_DAY :: int where
  "MS_PER_DAY = 86400000"

text \<open>The UTC day of an instant, counted from the epoch (the source keeps its ISO text).\<close>

definition utcDay :: "int \<Rightarrow> int" where
  "utcDay at = at div MS_PER_DAY"

definition secondsToNextUtcMidnight :: "int \<Rightarrow> int" where
  "secondsToNextUtcMidnight at =
     (let nextMidnight = at div MS_PER_DAY * MS_PER_DAY + MS_PER_DAY
      in - ((- (nextMidnight - at)) div 1000))"

text \<open>\<open>Math.ceil(quota * 0.8)\<close> on the quotas of the table.\<close>

definition warn_threshold :: "nat \<Rightarrow> nat" where
  "warn_threshold quota = (quota * 8 + 9) div 10"

definition find_usage :: "string \<Rightarrow> int \<Rightarrow> store \<Rightarrow> usage_row option" where
  "find_usage merchantId day s = find_row (\<lambda>r. (ru_merchant_id r, ru_day r)) (merchantId, day) (usage s)"

definition new_usage :: "string \<Rightarrow> int \<Rightarrow> nat \<Rightarrow> int \<Rightarrow> usage_row" where
  "new_usage merchantId day n gas = \<lparr>ru_merchant_id = merchantId, ru_day = day, ru_submissions = n,
     ru_gas_used_wei = gas, ru_warned_at = None, ru_exhausted_at = None\<rparr>"

datatype usage_patch = Count_Submission | Add_Gas int | Mark_Warned int | Mark_Exhausted int

fun patch_usage :: "usage_patch \<Rightarrow> usage_row \<Rightarrow> usage_row" where
  "patch_usage Count_Submission r = r\<lparr>ru_submissions := ru_submissions r + 1\<rparr>"
| "patch_usage (Add_Gas g) r = r\<lparr>ru_gas_used_wei := ru_gas_used_wei r + g\<rparr>"
| "patch_usage (Mark_Warned t) r = r\<lparr>ru_warned_at := Some t\<rparr>"
| "patch_usage (Mark_Exhausted t) r = r\<lparr>ru_exhausted_at := Some t\<rparr>"

definition patch_usage_of :: "string \<Rightarrow> int \<Rightarrow> usage_patch \<Rightarrow> store \<Rightarrow> store" where
  "patch_usage_of merchantId day p s =
     s\<lparr>usage := update_where (\<lambda>r. (ru_merchant_id r, ru_day r) = (merchantId, day)) (patch_usage p) (usage s)\<rparr>"

text \<open>The upsert of \<open>consume\<close>: the row it returns, or none when the quota is spent.\<close>

definition count_submission :: "string \<Rightarrow> int \<Rightarrow> nat \<Rightarrow> store \<Rightarrow> usage_row option \<times> store" where
  "count_submission merchantId day quota s =
     (case find_usage merchantId day s of
        None \<Rightarrow> (Some (new_usage merchantId day 1 0), s\<lparr>usage := usage s @ [new_usage merchantId day 1 0]\<rparr>)
      | Some r \<Rightarrow> if ru_submissions r < quota
          then (Some (patch_usage Count_Submission r), patch_usage_of merchantId day Count_Submission s)
          else (None, s))"

definition alert_email :: "config \<Rightarrow> string \<Rightarrow> nat \<Rightarrow> nat \<Rightarrow> string \<Rightarrow> store \<Rightarrow> store" where
  "alert_email cfg merchantId submissions quota subject s =
     (case cf_ops_alert_email cfg of
        None \<Rightarrow> s
      | Some a \<Rightarrow> if a = [] then s else s\<lparr>emails := emails s @ [\<lparr>em_to = a, em_subject = subject,
          em_about = [merchantId, show_nat submissions, show_nat quota]\<rparr>]\<rparr>)"

definition alertOnce ::
  "config \<Rightarrow> string \<Rightarrow> int \<Rightarrow> bool \<Rightarrow> nat \<Rightarrow> nat \<Rightarrow> int \<Rightarrow> (store, api_exn, unit) proc" where
  "alertOnce cfg merchantId day exhausted submissions quota now =
     modify (\<lambda>s.
       let P = (\<lambda>r. (ru_merchant_id r, ru_day r) = (merchantId, day) \<and>
                 (if exhausted then ru_exhausted_at r = None else ru_warned_at r = None));
           p = (if exhausted then Mark_Exhausted now else Mark_Warned now);
           count = count_where P (usage s);
           s' = s\<lparr>usage := update_where P (patch_usage p) (usage s)\<rparr>
       in if count = 0 then s'
          else alert_email cfg merchantId submissions quota
                 (if exhausted then ''Relay budget exhausted'' else ''Relay budget at 80%'') s')"

definition consume :: "config \<Rightarrow> string \<Rightarrow> int \<Rightarrow> (store, api_exn, unit) proc" where
  "consume cfg merchantId now =
     seq (find_merchant merchantId) (\<lambda>merchant.
     let quota = RELAY_DAILY_QUOTA (m_tier merchant); day = utcDay now in
     seq (\<lambda>s. case count_submission merchantId day quota s of (row, s') \<Rightarrow> (Inr row, s')) (\<lambda>row.
     case row of
       None \<Rightarrow> raise (Http 429 ''relay_budget_exhausted''
                 (Fields [show_nat quota, show_int (secondsToNextUtcMidnight now)]))
     | Some r \<Rightarrow>
         if quota \<le> ru_submissions r \<and> ru_exhausted_at r = None
         then alertOnce cfg merchantId day True (ru_submissions r) quota now
         else if warn_threshold quota \<le> ru_submissions r \<and> ru_warned_at r = None
         then alertOnce cfg merchantId day False (ru_submissions r) quota now
         else ret ()))"

definition recordGas :: "string \<Rightarrow> int \<Rightarrow> int \<Rightarrow> (store, api_exn, unit) proc" where
  "recordGas merchantId gasWei now =
     modify (\<lambda>s. case find_usage merchantId (utcDay now) s of
        None \<Rightarrow> s\<lparr>usage := usage s @ [new_usage merchantId (utcDay now) 0 gasWei]\<rparr>
      | Some _ \<Rightarrow> patch_usage_of merchantId (utcDay now) (Add_Gas gasWei) s)"

text \<open>Submissions counted for a merchant on a day.\<close>

definition used :: "string \<Rightarrow> int \<Rightarrow> store \<Rightarrow> nat" where
  "used merchantId day s = (case find_usage merchantId day s of None \<Rightarrow> 0 | Some r \<Rightarrow> ru_submissions r)"

lemma patch_usage_key [simp]:
  "ru_merchant_id (patch_usage p r) = ru_merchant_id r" "ru_day (patch_usage p r) = ru_day r"
  by (cases p; simp)+

interpretation usage_patch: row_update "\<lambda>r. (ru_merchant_id r, ru_day r)" patch_usage
  by unfold_locales simp

lemma alert_email_frame [simp]:
  "usage (alert_email cfg m n q t s) = usage s" "merchants (alert_email cfg m n q t s) = merchants s"
  by (simp_all add: alert_email_def split: option.split)

lemma alertOnce_used:
  "used m d (snd (alertOnce cfg m' day ex n q now s)) = used m d s \<and>
   merchants (snd (alertOnce cfg m' day ex n q now s)) = merchants s"
  by (auto simp: alertOnce_def Let_def used_def find_usage_def usage_patch.find_row_update split: option.split)

lemma used_patch:
  "used m' d (patch_usage_of m day p s) =
     (case find_usage m' d s of None \<Rightarrow> 0
      | Some r \<Rightarrow> ru_submissions (if m' = m \<and> d = day then patch_usage p r else r))"
proof (cases "find_usage m' d s")
  case None
  then show ?thesis
    by (simp add: used_def find_usage_def patch_usage_of_def usage_patch.find_row_update)
next
  case (Some r)
  then have "ru_merchant_id r = m'" "ru_day r = d" by (auto simp: find_usage_def dest: find_row_Some)
  with Some show ?thesis
    by (auto simp: used_def find_usage_def patch_usage_of_def usage_patch.find_row_update)
qed

lemma count_submission_used:
  assumes "count_submission m day quota s = (row, s')" and "0 < quota"
  shows "merchants s' = merchants s \<and>
    (row = None \<longleftrightarrow> quota \<le> used m day s) \<and>
    (\<forall>r. row = Some r \<longrightarrow> ru_submissions r = Suc (used m day s)) \<and>
    used m' d s' = used m' d s + (if m' = m \<and> d = day \<and> row \<noteq> None then 1 else 0)"
proof (cases "find_usage m day s")
  case None
  have new: "used m' d (s\<lparr>usage := usage s @ [new_usage m day 1 0]\<rparr>) =
      used m' d s + (if m' = m \<and> d = day then 1 else 0)"
    using None by (cases "find_usage m' d s") (auto simp: used_def find_usage_def new_usage_def)
  have "used m day s = 0" using None by (simp add: used_def)
  with assms None new show ?thesis
    by (auto simp: count_submission_def) (auto simp: new_usage_def)
next
  case (Some r)
  have u: "used m day s = ru_submissions r" using Some by (simp add: used_def)
  have "used m' d (patch_usage_of m day Count_Submission s) = used m' d s + (if m' = m \<and> d = day then 1 else 0)"
    unfolding used_patch using Some by (auto simp: used_def split: option.split)
  with assms Some u show ?thesis
    by (auto simp: count_submission_def patch_usage_of_def split: if_splits)
qed

lemma quota_pos: "0 < RELAY_DAILY_QUOTA t"
  by (cases t) simp_all

lemma consume_step:
  assumes "find_row m_id mid (merchants s) = Some m" and "consume cfg mid now s = (r, s')"
  shows "merchants s' = merchants s \<and>
    (r = Inr () \<longleftrightarrow> used mid (utcDay now) s < RELAY_DAILY_QUOTA (m_tier m)) \<and>
    used m' d s' = used m' d s + (if m' = mid \<and> d = utcDay now \<and> r = Inr () then 1 else 0)"
proof -
  let ?q = "RELAY_DAILY_QUOTA (m_tier m)"
  obtain row s1 where cnt: "count_submission mid (utcDay now) ?q s = (row, s1)" by fastforce
  note step = count_submission_used [OF cnt quota_pos]
  show ?thesis
  proof (cases row)
    case None
    with assms cnt step show ?thesis by (auto simp: consume_def seq_def Let_def)
  next
    case (Some u)
    have "\<exists>s0. s' = s0 \<and> r = Inr () \<and> (s0 = s1 \<or> (\<exists>ex n. s0 = snd (alertOnce cfg mid (utcDay now) ex n ?q now s1)))"
      using assms cnt Some by (auto simp: consume_def seq_def Let_def alertOnce_def split: if_splits)
    with step [of mid "utcDay now"] step [of m' d] Some alertOnce_used show ?thesis by auto
  qed
qed

section \<open>Gas price\<close>

record gas_price =
  gp_max_fee :: nat
  gp_priority :: nat

definition gwei :: nat where
  "gwei = 10 ^ 9"

definition ARC_MIN_BASE_FEE_WEI :: nat where
  "ARC_MIN_BASE_FEE_WEI = 20 * gwei"

definition ARC_MAX_BASE_FEE_WEI :: nat where
  "ARC_MAX_BASE_FEE_WEI = 20000 * gwei"

definition REPLACEMENT_BUMP_PER_MILLE :: nat where
  "REPLACEMENT_BUMP_PER_MILLE = 1125"

definition bumped :: "nat \<Rightarrow> nat" where
  "bumped wei = (wei * REPLACEMENT_BUMP_PER_MILLE + 999) div 1000"

definition atLeast_wei :: "nat \<Rightarrow> nat \<Rightarrow> nat" where
  "atLeast_wei value floor = (if floor < value then value else floor)"

text \<open>The header's \<open>extra_data\<close> as its bytes, big-endian.\<close>

definition big_endian :: "8 word list \<Rightarrow> nat" where
  "big_endian bs = foldl (\<lambda>a b. 256 * a + unat b) 0 bs"

definition fetchNextBaseFee :: "8 word list \<Rightarrow> api_exn + nat" where
  "fetchNextBaseFee extraData =
     (if length extraData \<noteq> 8 then Inl (Crash ''extra_data is not an 8-byte base fee'')
      else let baseFee = big_endian extraData in
        if ARC_MAX_BASE_FEE_WEI < baseFee then Inl (Crash ''base fee above the maximum'') else Inr baseFee)"

definition hex_digit :: "char \<Rightarrow> nat" where
  "hex_digit c = (let n = of_char c :: nat in if n \<le> 57 then n - 48 else if n \<le> 70 then n - 55 else n - 87)"

definition hexToBigInt :: "string \<Rightarrow> nat" where
  "hexToBigInt h = foldl (\<lambda>a c. 16 * a + hex_digit c) 0 (drop 2 h)"

text \<open>\<open>raw\<close> is the RPC answer, \<open>None\<close> when it is not a string; \<open>BigInt('0x')\<close> throws.\<close>

definition fetchRecommendedTip :: "string option \<Rightarrow> api_exn + nat" where
  "fetchRecommendedTip raw =
     (case raw of None \<Rightarrow> Inl (Crash ''not a hex quantity'')
      | Some h \<Rightarrow> if \<not> nonempty_hex_ok h then Inl (Crash ''not a hex quantity'') else Inr (hexToBigInt h))"

definition compute_gas ::
  "8 word list \<Rightarrow> string option \<Rightarrow> bool \<Rightarrow> gas_price option \<Rightarrow> api_exn + gas_price" where
  "compute_gas extraData rawTip retry previous =
     (case fetchNextBaseFee extraData of
        Inl e \<Rightarrow> Inl e
      | Inr nextBaseFee \<Rightarrow>
          (case (if retry then fetchRecommendedTip rawTip else Inr 0) of
             Inl e \<Rightarrow> Inl e
           | Inr tip \<Rightarrow>
               let headroom = nextBaseFee * 2;
                   mx = (if ARC_MIN_BASE_FEE_WEI < headroom then headroom else ARC_MIN_BASE_FEE_WEI) + tip
               in case previous of
                    None \<Rightarrow> Inr \<lparr>gp_max_fee = mx, gp_priority = tip\<rparr>
                  | Some p \<Rightarrow> Inr \<lparr>gp_max_fee = atLeast_wei mx (bumped (gp_max_fee p)),
                                   gp_priority = atLeast_wei tip (bumped (gp_priority p))\<rparr>))"

lemma bumped_ge: "1125 * w \<le> 1000 * bumped w"
proof -
  define x where "x = w * 1125"
  have "x + 999 = 1000 * ((x + 999) div 1000) + (x + 999) mod 1000" "(x + 999) mod 1000 < 1000" by simp_all
  then have "x \<le> 1000 * ((x + 999) div 1000)" by linarith
  then show ?thesis by (simp add: bumped_def REPLACEMENT_BUMP_PER_MILLE_def x_def)
qed

lemma bumped_mono: "a \<le> b \<Longrightarrow> bumped a \<le> bumped b"
  by (simp add: bumped_def REPLACEMENT_BUMP_PER_MILLE_def div_le_mono)

lemma big_endian_bound: "big_endian bs < 256 ^ length bs"
proof -
  have "foldl (\<lambda>a b. 256 * a + unat b) x bs < (x + 1) * 256 ^ length bs" for x
  proof (induction bs arbitrary: x)
    case Nil
    then show ?case by simp
  next
    case (Cons b bs)
    let ?y = "256 * x + unat b"
    have "unat b < 2 ^ LENGTH(8)" by (rule unsigned_less)
    then have "unat b < 256" by simp
    then have "?y + 1 \<le> 256 * (x + 1)" by simp
    then have "(?y + 1) * 256 ^ length bs \<le> (256 * (x + 1)) * 256 ^ length bs"
      by (rule mult_right_mono) simp
    also have "\<dots> = (x + 1) * 256 ^ length (b # bs)" by (simp add: algebra_simps)
    finally have "(?y + 1) * 256 ^ length bs \<le> (x + 1) * 256 ^ length (b # bs)" .
    with Cons.IH [of ?y] show ?case by (simp only: foldl.simps)
  qed
  from this [of 0] show ?thesis by (simp add: big_endian_def)
qed

lemma compute_gas_valid:
  assumes "compute_gas extra tip retry prev = Inr g"
  shows "ARC_MIN_BASE_FEE_WEI \<le> gp_max_fee g \<and>
    (\<forall>p. prev = Some p \<longrightarrow> 1125 * gp_max_fee p \<le> 1000 * gp_max_fee g \<and> 1125 * gp_priority p \<le> 1000 * gp_priority g \<and>
       (gp_priority p \<le> gp_max_fee p \<longrightarrow> gp_priority g \<le> gp_max_fee g)) \<and>
    (prev = None \<longrightarrow> gp_priority g \<le> gp_max_fee g \<and> gp_max_fee g \<le> 2 * ARC_MAX_BASE_FEE_WEI + gp_priority g) \<and>
    (\<not> retry \<and> prev = None \<longrightarrow> gp_priority g = 0)"
proof -
  from assms obtain base where b: "fetchNextBaseFee extra = Inr base"
    by (auto simp: compute_gas_def split: sum.splits)
  from assms b obtain t where t: "(if retry then fetchRecommendedTip tip else Inr 0) = Inr t"
    by (auto simp: compute_gas_def split: sum.splits)
  have base: "base \<le> ARC_MAX_BASE_FEE_WEI" "retry \<or> t = 0"
    using b t by (auto simp: fetchNextBaseFee_def Let_def split: if_splits)
  have g: "g = (let mx = (if ARC_MIN_BASE_FEE_WEI < base * 2 then base * 2 else ARC_MIN_BASE_FEE_WEI) + t in
       case prev of None \<Rightarrow> \<lparr>gp_max_fee = mx, gp_priority = t\<rparr>
       | Some p \<Rightarrow> \<lparr>gp_max_fee = atLeast_wei mx (bumped (gp_max_fee p)),
                     gp_priority = atLeast_wei t (bumped (gp_priority p))\<rparr>)"
    using assms b t unfolding compute_gas_def Let_def by (cases prev) simp_all
  have min: "ARC_MIN_BASE_FEE_WEI \<le> 2 * ARC_MAX_BASE_FEE_WEI"
    by (simp add: ARC_MIN_BASE_FEE_WEI_def ARC_MAX_BASE_FEE_WEI_def)
  show ?thesis
  proof (cases prev)
    case None
    with g base min show ?thesis by (auto simp: Let_def)
  next
    case (Some p)
    note b = bumped_ge [of "gp_max_fee p"] bumped_ge [of "gp_priority p"] bumped_mono [of "gp_priority p" "gp_max_fee p"]
    from Some g b show ?thesis by (auto simp: Let_def atLeast_wei_def)
  qed
qed

section \<open>Nonces\<close>

definition redis_int :: "string \<Rightarrow> int" where
  "redis_int t = (if starts_with t ''-'' then - int (big_nat (drop 1 t)) else int (big_nat t))"

definition nonce_key :: "nat \<Rightarrow> string \<Rightarrow> string" where
  "nonce_key chainId address = ''relay:nonce:'' @ show_nat chainId @ '':'' @ to_lower address"

text \<open>\<open>pending\<close> is the transaction count the chain reports; the script seeds a missing key with \<open>pending - 1\<close>.\<close>

definition acquire :: "nat \<Rightarrow> string \<Rightarrow> nat \<Rightarrow> store \<Rightarrow> int \<times> store" where
  "acquire chainId address pending s =
     (let key = nonce_key chainId address;
          seeded = (case redis s key of None \<Rightarrow> show_int (int pending - 1) | Some t \<Rightarrow> t);
          v = redis_int seeded + 1
      in (v, s\<lparr>redis := (redis s)(key \<mapsto> show_int v)\<rparr>))"

definition resync :: "nat \<Rightarrow> string \<Rightarrow> nat \<Rightarrow> store \<Rightarrow> store" where
  "resync chainId address pending s =
     s\<lparr>redis := (redis s)(nonce_key chainId address \<mapsto> show_int (int pending - 1))\<rparr>"

definition last_nonce :: "nat \<Rightarrow> string \<Rightarrow> store \<Rightarrow> int option" where
  "last_nonce chainId address s = map_option redis_int (redis s (nonce_key chainId address))"

lemma redis_int_show [simp]: "redis_int (show_int n) = n"
proof (cases "n < 0")
  case True
  then show ?thesis by (simp add: redis_int_def show_int_def starts_with_def)
next
  case False
  obtain c cs where c: "show_nat (nat n) = c # cs"
    by (cases "show_nat (nat n)") (auto simp: show_nat.simps [of "nat n"] split: if_splits)
  have "is_digit c" using show_nat_digits [of "nat n"] c by simp
  then have "c \<noteq> CHR ''-''" by (auto simp: is_digit_def)
  with c have "\<not> starts_with (show_nat (nat n)) ''-''" by (simp add: starts_with_def)
  with False show ?thesis by (simp add: redis_int_def show_int_def)
qed

text \<open>
  The contract of the dispenser: it hands out the seed when it has none, and one more than the last nonce
  otherwise.
\<close>

locale dispenser =
  fixes last :: "'s \<Rightarrow> int option"
    and take :: "nat \<Rightarrow> 's \<Rightarrow> int \<times> 's"
    and reset :: "nat \<Rightarrow> 's \<Rightarrow> 's"
  assumes take_value: "fst (take p s) = (case last s of None \<Rightarrow> int p | Some n \<Rightarrow> n + 1)"
    and take_last: "last (snd (take p s)) = Some (fst (take p s))"
    and reset_last: "last (reset p s) = Some (int p - 1)"
begin

text \<open>Successive calls; every call reads its own \<open>pending\<close> from the chain.\<close>

fun take_all :: "nat list \<Rightarrow> 's \<Rightarrow> int list" where
  "take_all [] s = []"
| "take_all (p # ps) s = (case take p s of (n, s') \<Rightarrow> n # take_all ps s')"

lemma take_all_from: "last s = Some n \<Longrightarrow> take_all ps s = map (\<lambda>i. n + 1 + int i) [0..<length ps]"
proof (induction ps arbitrary: s n)
  case Nil
  then show ?case by simp
next
  case (Cons p ps)
  have first: "fst (take p s) = n + 1" using Cons.prems by (simp add: take_value)
  have "map (\<lambda>i. n + 1 + int i) [0..<length (p # ps)] = (n + 1) # map (\<lambda>i. n + 1 + 1 + int i) [0..<length ps]"
    by (simp add: upt_conv_Cons map_Suc_upt [symmetric] del: upt_Suc)
  with first Cons.IH [OF take_last] show ?case by (simp add: case_prod_unfold)
qed

lemma take_all_seeded:
  "last s = None \<Longrightarrow> take_all (p # ps) s = map (\<lambda>i. int p + int i) [0..<Suc (length ps)]"
proof -
  assume "last s = None"
  then have first: "fst (take p s) = int p" by (simp add: take_value)
  have "map (\<lambda>i. int p + int i) [0..<Suc (length ps)] = int p # map (\<lambda>i. int p + 1 + int i) [0..<length ps]"
    by (simp add: upt_conv_Cons map_Suc_upt [symmetric] del: upt_Suc)
  with first take_all_from [OF take_last, where ps = ps] show ?thesis by (simp add: case_prod_unfold)
qed

lemma take_all_distinct: "last s = Some n \<Longrightarrow> distinct (take_all ps s)"
  by (simp add: take_all_from distinct_map inj_on_def)

end

interpretation nonces: dispenser "last_nonce c a" "acquire c a" "resync c a" for c a
  by unfold_locales
    (auto simp: last_nonce_def acquire_def resync_def Let_def split: option.split)

section \<open>Properties\<close>

text \<open>
  One attempt per checkout: of any number of submissions that all read the same pointer (none, or the
  key of an earlier attempt) and then claim it in some order, exactly the first wins.
\<close>

theorem one_attempt_wins:
  assumes "attempt_current s scope = previous" and "previous \<notin> Some ` set (key # keys)"
  shows "claims.contend attempt_claim scope previous (key # keys) s = [key]"
  by (rule pointers.one_winner [OF assms])

text \<open>Runs of \<open>consume\<close> at the given instants: how many were let through.\<close>

fun admitted :: "config \<Rightarrow> string \<Rightarrow> int list \<Rightarrow> store \<Rightarrow> nat" where
  "admitted cfg mid [] s = 0"
| "admitted cfg mid (t # ts) s =
     (case consume cfg mid t s of (r, s') \<Rightarrow> (if r = Inr () then 1 else 0) + admitted cfg mid ts s')"

lemma admitted_used:
  assumes "find_row m_id mid (merchants s) = Some m" and "\<forall>t\<in>set ts. utcDay t = day"
  shows "admitted cfg mid ts s = min (length ts) (RELAY_DAILY_QUOTA (m_tier m) - used mid day s)"
  using assms
proof (induction ts arbitrary: s)
  case Nil
  then show ?case by simp
next
  case (Cons t ts)
  obtain r s' where run: "consume cfg mid t s = (r, s')" by fastforce
  have day: "utcDay t = day" using Cons.prems(2) by simp
  from consume_step [OF Cons.prems(1) run, of mid day] day
  have step: "merchants s' = merchants s" "r = Inr () \<longleftrightarrow> used mid day s < RELAY_DAILY_QUOTA (m_tier m)"
    "used mid day s' = used mid day s + (if r = Inr () then 1 else 0)" by auto
  have "find_row m_id mid (merchants s') = Some m" using step(1) Cons.prems(1) by simp
  from Cons.IH [OF this] Cons.prems(2) have IH:
    "admitted cfg mid ts s' = min (length ts) (RELAY_DAILY_QUOTA (m_tier m) - used mid day s')" by simp
  show ?case
    using step(2,3) by (auto simp: run IH)
qed

text \<open>
  C31. The daily budget holds: of any sequence of submissions of a merchant within one UTC day, exactly as many
  are let through as the quota of the plan leaves after what was used before; the rest are answered
  429.
\<close>

theorem relay_budget_exact:
  assumes "find_row m_id mid (merchants s) = Some m" and "\<forall>t\<in>set ts. utcDay t = day"
  shows "admitted cfg mid ts s = min (length ts) (RELAY_DAILY_QUOTA (m_tier m) - used mid day s)"
  by (rule admitted_used [OF assms])

text \<open>
  The \<open>retryAfterSec\<close> of a refused submission is right: waiting it out reaches the next UTC day,
  and it is never more than a second too long nor longer than a day.
\<close>

theorem retry_after_reaches_midnight:
  "1 \<le> secondsToNextUtcMidnight at \<and> secondsToNextUtcMidnight at \<le> 86400 \<and>
   utcDay (at + 1000 * secondsToNextUtcMidnight at) = utcDay at + 1 \<and>
   utcDay (at + 1000 * (secondsToNextUtcMidnight at - 1)) = utcDay at"
proof -
  define q r where "q = at div 86400000" and "r = at mod 86400000"
  have at: "at = 86400000 * q + r" and r: "0 \<le> r" "r < 86400000" by (simp_all add: q_def r_def)
  define k where "k = 86400000 - r"
  define c where "c = - ((- k) div 1000)"
  have k: "0 < k" "k \<le> 86400000" using r by (simp_all add: k_def)
  have "- k = 1000 * ((- k) div 1000) + (- k) mod 1000" "0 \<le> (- k) mod 1000" "(- k) mod 1000 < 1000" by simp_all
  then have c: "k \<le> 1000 * c" "1000 * c < k + 1000" unfolding c_def by linarith+
  have s: "secondsToNextUtcMidnight at = c"
    by (simp add: secondsToNextUtcMidnight_def MS_PER_DAY_def Let_def c_def k_def) (simp add: at r q_def [symmetric])
  have d: "utcDay x = y" if "86400000 * y \<le> x" "x < 86400000 * (y + 1)" for x y
    using that by (simp add: utcDay_def MS_PER_DAY_def int_div_pos_eq [of x 86400000 y "x - 86400000 * y"])
  have "utcDay at = q" using at r by (intro d) auto
  moreover have "utcDay (at + 1000 * c) = q + 1" using at r c k k_def by (intro d) auto
  moreover have "utcDay (at + 1000 * (c - 1)) = q" using at r c k k_def by (intro d) auto
  ultimately show ?thesis using s c k by auto
qed

text \<open>
  A replacement is accepted by the node: when a transaction is sent again, both its fee cap and its tip
  are at least 12.5% above the recorded ones; the cap is never under Arc's minimum nor under the tip, and
  stays within bounds fixed by Arc's maximum base fee when nothing is replaced.
\<close>

theorem gas_price_valid:
  assumes "compute_gas extra tip retry prev = Inr g"
  shows "ARC_MIN_BASE_FEE_WEI \<le> gp_max_fee g \<and>
    (\<forall>p. prev = Some p \<longrightarrow> 1125 * gp_max_fee p \<le> 1000 * gp_max_fee g \<and> 1125 * gp_priority p \<le> 1000 * gp_priority g \<and>
       (gp_priority p \<le> gp_max_fee p \<longrightarrow> gp_priority g \<le> gp_max_fee g)) \<and>
    (prev = None \<longrightarrow> gp_priority g \<le> gp_max_fee g \<and> gp_max_fee g \<le> 2 * ARC_MAX_BASE_FEE_WEI + gp_priority g) \<and>
    (\<not> retry \<and> prev = None \<longrightarrow> gp_priority g = 0)"
  by (rule compute_gas_valid [OF assms])

text \<open>
  Nonces are handed out in order, with no repetition and no gap: a cold counter starts at the pending
  count of the chain, and from then on every call gets the next number whatever the chain reports, until a
  resync, after which the next call gets the pending count again.
\<close>

theorem nonces_sequential:
  "(last_nonce c a s = Some n \<longrightarrow>
      dispenser.take_all (acquire c a) ps s = map (\<lambda>i. n + 1 + int i) [0..<length ps] \<and>
      distinct (dispenser.take_all (acquire c a) ps s)) \<and>
   (last_nonce c a s = None \<longrightarrow>
      dispenser.take_all (acquire c a) (p # ps) s = map (\<lambda>i. int p + int i) [0..<Suc (length ps)]) \<and>
   dispenser.take_all (acquire c a) (q # ps) (resync c a p s) = map (\<lambda>i. int p + int i) [0..<Suc (length ps)]"
proof -
  have "dispenser.take_all (acquire c a) (q # ps) (resync c a p s) =
      map (\<lambda>i. int p - 1 + 1 + int i) [0..<length (q # ps)]"
    by (rule nonces.take_all_from) (rule nonces.reset_last)
  then show ?thesis
    using nonces.take_all_from nonces.take_all_distinct nonces.take_all_seeded by (auto simp del: upt_Suc)
qed

section \<open>Witnesses\<close>

theorem one_attempt_wins_witness:
  "claims.contend attempt_claim (paymentAttemptScope ''ps1'') None [''k1'', ''k2'', ''k3''] sample_store = [''k1'']"
  by (rule one_attempt_wins) (simp_all add: attempt_current_def sample_defs)

theorem relay_budget_exact_witness:
  "admitted sample_config ''m1'' (replicate 6000 1000) sample_store = 5000"
proof -
  have "find_row m_id ''m1'' (merchants sample_store) = Some sample_merchant" by (simp add: sample_defs)
  moreover have "m_tier sample_merchant = Starter" "used ''m1'' 0 sample_store = 0"
    by (simp_all add: sample_defs used_def find_usage_def)
  moreover have "\<forall>t\<in>set (replicate 6000 1000). utcDay t = 0" by (simp add: utcDay_def MS_PER_DAY_def)
  ultimately show ?thesis
    using relay_budget_exact [of "''m1''" sample_store sample_merchant "replicate 6000 1000" 0 sample_config] by simp
qed

theorem gas_price_valid_witness:
  "\<exists>g. compute_gas [0, 0, 0, 4, 168, 23, 200, 0] (Some ''0x3b9aca00'') True
         (Some \<lparr>gp_max_fee = 80000000000, gp_priority = 0\<rparr>) = Inr g \<and> 90000000000 \<le> gp_max_fee g"
proof -
  have e: "big_endian [0, 0, 0, 4, 168, 23, 200, 0] = 20000000000" by (simp add: big_endian_def)
  have t: "fetchRecommendedTip (Some ''0x3b9aca00'') = Inr 1000000000"
    by (simp add: fetchRecommendedTip_def nonempty_hex_ok_def hex_body_def starts_with_def is_hex_char_def Let_def
        hexToBigInt_def hex_digit_def)
  obtain g where g: "compute_gas [0, 0, 0, 4, 168, 23, 200, 0] (Some ''0x3b9aca00'') True
         (Some \<lparr>gp_max_fee = 80000000000, gp_priority = 0\<rparr>) = Inr g"
    by (simp add: compute_gas_def fetchNextBaseFee_def e t Let_def ARC_MAX_BASE_FEE_WEI_def gwei_def)
  from gas_price_valid [OF g] have "1125 * 80000000000 \<le> 1000 * gp_max_fee g" by simp
  with g show ?thesis by auto
qed

theorem nonces_sequential_witness:
  "dispenser.take_all (acquire 1 ''0xab'') [9, 2, 4] sample_store = [9, 10, 11]"
proof -
  have "last_nonce 1 ''0xab'' sample_store = None" by (simp add: last_nonce_def sample_defs)
  with nonces_sequential [of 1 "''0xab''" sample_store 0 "[2, 4]" 9 0] show ?thesis by simp
qed

end
