(* ===== verification/Enrolment.thy ===== *)
theory Enrolment
  imports Sessions
begin

text \<open>
  Subscription plans, the terms a payer enrols on and the subscriptions themselves:
  \<open>apps/api/src/modules/subscription-plans\<close> (\<open>subscription-plans.service.ts\<close>,
  \<open>enrolment-terms.service.ts\<close>) and \<open>apps/api/src/modules/subscriptions\<close>. The hosted checkout asks
  for a quote, the payer signs it, and the relay verifies the signed request against the plan again.
\<close>

section \<open>Plans\<close>

fun SECONDS_PER_INTERVAL :: "subscription_interval \<Rightarrow> int" where
  "SECONDS_PER_INTERVAL Daily = 24 * 60 * 60"
| "SECONDS_PER_INTERVAL Weekly = 7 * 24 * 60 * 60"
| "SECONDS_PER_INTERVAL Monthly = 30 * 24 * 60 * 60"
| "SECONDS_PER_INTERVAL Quarterly = 90 * 24 * 60 * 60"
| "SECONDS_PER_INTERVAL Yearly = 365 * 24 * 60 * 60"

definition intervalSeconds :: "subscription_interval \<Rightarrow> nat \<Rightarrow> int" where
  "intervalSeconds interval intervalCount = SECONDS_PER_INTERVAL interval * int intervalCount"

record plan_input =
  pi_name :: string
  pi_description :: "string option"
  pi_amount :: string
  pi_currency :: payment_currency
  pi_interval :: subscription_interval
  pi_interval_count :: nat
  pi_trial_period_days :: "int option"
  pi_success_url :: "string option"
  pi_cancel_url :: "string option"
  pi_metadata :: metadata

record plan_wire =
  pw_row :: plan_row
  pw_chain_merchant_id :: "string option"
  pw_token_address :: "string option"
  pw_interval_seconds :: int

definition serialise_plan :: "config \<Rightarrow> store \<Rightarrow> plan_row \<Rightarrow> plan_wire" where
  "serialise_plan cfg s r = \<lparr>
     pw_row = r,
     pw_chain_merchant_id = onchain_id_text (pl_merchant_id r) s,
     pw_token_address = tokenAddressForCurrency cfg (pl_currency r),
     pw_interval_seconds = SECONDS_PER_INTERVAL (pl_interval r) * int (pl_interval_count r)\<rparr>"

definition new_plan_row :: "string \<Rightarrow> int \<Rightarrow> string \<Rightarrow> plan_input \<Rightarrow> plan_row" where
  "new_plan_row pid now merchantId input = \<lparr>
     pl_id = pid, pl_merchant_id = merchantId, pl_name = pi_name input,
     pl_description = pi_description input, pl_amount = pi_amount input,
     pl_currency = pi_currency input, pl_interval = pi_interval input,
     pl_interval_count = pi_interval_count input, pl_trial_period_days = pi_trial_period_days input,
     pl_status = Plan_Active, pl_success_url = pi_success_url input, pl_cancel_url = pi_cancel_url input,
     pl_metadata = pi_metadata input, pl_created_at = now, pl_updated_at = now\<rparr>"

definition create_plan ::
  "config \<Rightarrow> string \<Rightarrow> int \<Rightarrow> string \<Rightarrow> plan_input \<Rightarrow> (store, api_exn, plan_wire) proc" where
  "create_plan cfg pid now merchantId input =
     seq (assertMinimumAmount (BigInt (pi_amount input))) (\<lambda>_.
     seq (requestRegistration now merchantId) (\<lambda>_.
     seq (modify (\<lambda>s. s\<lparr>plans := plans s @ [new_plan_row pid now merchantId input]\<rparr>)) (\<lambda>_.
     gets (\<lambda>s. serialise_plan cfg s (new_plan_row pid now merchantId input)))))"

definition find_own_plan :: "string \<Rightarrow> string \<Rightarrow> store \<Rightarrow> plan_row option" where
  "find_own_plan merchantId i s = find (\<lambda>r. pl_id r = i \<and> pl_merchant_id r = merchantId) (plans s)"

definition retrieve_plan :: "config \<Rightarrow> string \<Rightarrow> string \<Rightarrow> (store, api_exn, plan_wire) proc" where
  "retrieve_plan cfg merchantId i =
     seq (gets (\<lambda>s. map_option (serialise_plan cfg s) (find_own_plan merchantId i s))) (or_raise not_found)"

definition retrieve_plan_public :: "config \<Rightarrow> string \<Rightarrow> (store, api_exn, plan_wire) proc" where
  "retrieve_plan_public cfg i =
     seq (gets (\<lambda>s. map_option (serialise_plan cfg s) (find_row pl_id i (plans s)))) (\<lambda>v.
     seq (or_raise not_found v) (\<lambda>w. ret (w\<lparr>pw_row := (pw_row w)\<lparr>pl_metadata := []\<rparr>\<rparr>)))"

definition plan_rows :: "string \<Rightarrow> plan_status option \<Rightarrow> store \<Rightarrow> plan_row list" where
  "plan_rows merchantId status s =
     newest_first pl_created_at (filter (\<lambda>r. pl_merchant_id r = merchantId \<and>
       (case status of None \<Rightarrow> True | Some st \<Rightarrow> pl_status r = st)) (plans s))"

definition list_plans :: "config \<Rightarrow> string \<Rightarrow> plan_status option \<Rightarrow> list_params \<Rightarrow> store \<Rightarrow> plan_wire page" where
  "list_plans cfg merchantId status p s =
     (let pg = list_page pl_id p (plan_rows merchantId status s)
      in \<lparr>pg_data = map (serialise_plan cfg s) (pg_data pg), pg_next_cursor = pg_next_cursor pg,
          pg_has_more = pg_has_more pg\<rparr>)"

text \<open>
  An update of a plan: \<open>archive\<close>, or new return URLs, of which an absent one (\<open>None\<close>,
  \<open>undefined\<close>) stays as it is.
\<close>

datatype plan_patch = Archive_Plan | Set_Return_Urls "string option option" "string option option"

fun patch_plan :: "plan_patch \<times> int \<Rightarrow> plan_row \<Rightarrow> plan_row" where
  "patch_plan (Archive_Plan, now) r = r\<lparr>pl_status := Plan_Archived, pl_updated_at := now\<rparr>"
| "patch_plan (Set_Return_Urls su ca, now) r = r\<lparr>
     pl_success_url := (case su of None \<Rightarrow> pl_success_url r | Some u \<Rightarrow> u),
     pl_cancel_url := (case ca of None \<Rightarrow> pl_cancel_url r | Some u \<Rightarrow> u), pl_updated_at := now\<rparr>"

definition update_plan ::
  "config \<Rightarrow> int \<Rightarrow> string \<Rightarrow> string \<Rightarrow> plan_patch \<Rightarrow> (store, api_exn, plan_wire) proc" where
  "update_plan cfg now merchantId i p =
     seq (retrieve_plan cfg merchantId i) (\<lambda>_.
     seq (modify (\<lambda>s. s\<lparr>plans := update_where (\<lambda>r. pl_id r = i) (patch_plan (p, now)) (plans s)\<rparr>)) (\<lambda>_.
     seq (gets (\<lambda>s. map_option (serialise_plan cfg s) (find_row pl_id i (plans s)))) (or_raise p2025)))"

definition updateReturnUrls ::
  "config \<Rightarrow> int \<Rightarrow> string \<Rightarrow> string \<Rightarrow> string option option \<Rightarrow> string option option \<Rightarrow>
   (store, api_exn, plan_wire) proc" where
  "updateReturnUrls cfg now merchantId i su ca = update_plan cfg now merchantId i (Set_Return_Urls su ca)"

definition archive_plan :: "config \<Rightarrow> int \<Rightarrow> string \<Rightarrow> string \<Rightarrow> (store, api_exn, plan_wire) proc" where
  "archive_plan cfg now merchantId i = update_plan cfg now merchantId i Archive_Plan"

section \<open>Enrolment terms\<close>

definition SECONDS_PER_DAY :: int where
  "SECONDS_PER_DAY = 86400"

definition TRIAL_START_TOLERANCE_SECONDS :: int where
  "TRIAL_START_TOLERANCE_SECONDS = 15 * 60"

record enrolment_request =
  er_plan_id :: string
  er_payer :: string
  er_merchant_id :: int
  er_token :: string
  er_amount :: int
  er_interval :: int
  er_start_at :: int
  er_end_at :: int

record enrolment_terms =
  et_start_at :: string
  et_trial_days :: int
  et_trial_ends_at :: "int option"

definition normalisePayer :: "string \<Rightarrow> api_exn + string" where
  "normalisePayer payer =
     (let normalised = to_lower (js_trim payer)
      in if address_ok normalised then Inr normalised else Inl (bad_request ''invalid_request''))"

definition unixSeconds :: "int \<Rightarrow> int" where
  "unixSeconds ms = ms div 1000"

definition mismatch :: "string list \<Rightarrow> api_exn" where
  "mismatch names = Http 400 ''enrolment_terms_mismatch'' (Fields names)"

definition trialDaysFor :: "plan_row \<Rightarrow> string \<Rightarrow> store \<Rightarrow> int" where
  "trialDaysFor plan payerAddress s =
     (let days = (case pl_trial_period_days plan of None \<Rightarrow> 0 | Some d \<Rightarrow> d)
      in if days \<le> 0 then 0
         else if \<exists>r\<in>set (subs s). su_plan_id r = pl_id plan \<and> su_payer_address r = payerAddress then 0
         else days)"

definition quote :: "string \<Rightarrow> string \<Rightarrow> int \<Rightarrow> (store, api_exn, enrolment_terms) proc" where
  "quote planId payer now =
     seq (lift_sum (normalisePayer payer)) (\<lambda>payerAddress.
     seq (gets (\<lambda>s. find_row pl_id planId (plans s))) (\<lambda>found.
     seq (or_raise not_found found) (\<lambda>plan.
     seq (gets (trialDaysFor plan payerAddress)) (\<lambda>trialDays.
     if trialDays = 0 then ret \<lparr>et_start_at = ''0'', et_trial_days = 0, et_trial_ends_at = None\<rparr>
     else let startAt = unixSeconds now + trialDays * SECONDS_PER_DAY in
       ret \<lparr>et_start_at = show_int startAt, et_trial_days = trialDays,
            et_trial_ends_at = Some (startAt * 1000)\<rparr>))))"

text \<open>The fields \<open>verify\<close> pushes before it looks at the trial, in its order.\<close>

definition terms_mismatches :: "config \<Rightarrow> plan_row \<Rightarrow> nat option \<Rightarrow> enrolment_request \<Rightarrow> string list" where
  "terms_mismatches cfg plan onchainId req =
     (let token = tokenAddressForCurrency cfg (pl_currency plan) in
      (if (case onchainId of None \<Rightarrow> True | Some n \<Rightarrow> int n \<noteq> er_merchant_id req) then [''merchantId''] else []) @
      (if token = None \<or> token \<noteq> Some (to_lower (er_token req)) then [''token''] else []) @
      (if BigInt (pl_amount plan) \<noteq> er_amount req then [''amount''] else []) @
      (if intervalSeconds (pl_interval plan) (pl_interval_count plan) \<noteq> er_interval req then [''interval''] else []) @
      (if er_end_at req \<noteq> 0 then [''endAt''] else []))"

definition start_mismatches :: "int \<Rightarrow> int \<Rightarrow> int \<Rightarrow> string list" where
  "start_mismatches now trialDays startAt =
     (if (if trialDays = 0 then startAt \<noteq> 0
          else let expected = unixSeconds now + trialDays * SECONDS_PER_DAY;
                   drift = (if expected < startAt then startAt - expected else expected - startAt)
               in TRIAL_START_TOLERANCE_SECONDS < drift)
      then [''startAt''] else [])"

definition verify_terms ::
  "config \<Rightarrow> string \<Rightarrow> enrolment_request \<Rightarrow> int \<Rightarrow> (store, api_exn, unit) proc" where
  "verify_terms cfg merchantId req now =
     seq (gets (\<lambda>s. find_row pl_id (er_plan_id req) (plans s))) (\<lambda>found.
     case found of None \<Rightarrow> raise (mismatch [''plan''])
     | Some plan \<Rightarrow>
       if pl_merchant_id plan \<noteq> merchantId \<or> pl_status plan \<noteq> Plan_Active then raise (mismatch [''plan''])
       else
       seq (gets (\<lambda>s. Option.bind (find_row m_id (pl_merchant_id plan) (merchants s)) m_onchain_merchant_id)) (\<lambda>onchainId.
       seq (lift_sum (normalisePayer (er_payer req))) (\<lambda>payer.
       seq (gets (trialDaysFor plan payer)) (\<lambda>trialDays.
       let wrong = terms_mismatches cfg plan onchainId req @ start_mismatches now trialDays (er_start_at req)
       in if wrong \<noteq> [] then raise (mismatch wrong) else ret ()))))"

section \<open>Subscriptions\<close>

definition find_own_sub :: "string \<Rightarrow> api_mode \<Rightarrow> string \<Rightarrow> store \<Rightarrow> sub_row option" where
  "find_own_sub merchantId mode i s =
     find (\<lambda>r. su_id r = i \<and> su_merchant_id r = merchantId \<and> su_mode r = mode) (subs s)"

definition retrieve_sub :: "string \<Rightarrow> api_mode \<Rightarrow> string \<Rightarrow> (store, api_exn, sub_wire) proc" where
  "retrieve_sub merchantId mode i =
     seq (gets (find_own_sub merchantId mode i)) (\<lambda>found.
     seq (or_raise not_found found) (\<lambda>row. ret (serialise_sub row)))"

definition LIVE_SUBSCRIPTION_STATUSES :: "subscription_status list" where
  "LIVE_SUBSCRIPTION_STATUSES = [Trialing, Sub_Active, At_Risk, Paused]"

definition activeForPayer :: "string \<Rightarrow> string \<Rightarrow> store \<Rightarrow> bool \<times> string option" where
  "activeForPayer planId payerAddress s =
     (let normalized = to_lower (js_trim payerAddress)
      in if \<not> address_ok normalized then (False, None)
         else let existing = latest_by su_created_at (filter (\<lambda>r. su_plan_id r = planId \<and>
                    su_payer_address r = normalized \<and> su_status r \<in> set LIVE_SUBSCRIPTION_STATUSES) (subs s))
              in (existing \<noteq> None, map_option su_id existing))"

definition sub_rows ::
  "string \<Rightarrow> api_mode \<Rightarrow> subscription_status option \<Rightarrow> string option \<Rightarrow> string option \<Rightarrow> store \<Rightarrow> sub_row list" where
  "sub_rows merchantId mode status planId customer s =
     newest_first su_created_at (filter (\<lambda>r. su_merchant_id r = merchantId \<and> su_mode r = mode \<and>
       (case status of None \<Rightarrow> True | Some st \<Rightarrow> su_status r = st) \<and>
       (case planId of None \<Rightarrow> True | Some p \<Rightarrow> su_plan_id r = p) \<and>
       (case customer of None \<Rightarrow> True | Some c \<Rightarrow> su_customer_id r = c)) (subs s))"

definition list_subs ::
  "string \<Rightarrow> api_mode \<Rightarrow> subscription_status option \<Rightarrow> string option \<Rightarrow> string option \<Rightarrow> list_params \<Rightarrow>
   store \<Rightarrow> sub_wire page" where
  "list_subs merchantId mode status planId customer p s =
     map_page serialise_sub (list_page su_id p (sub_rows merchantId mode status planId customer s))"

text \<open>\<open>QueueService.addAgentAction\<close>: jobs of this queue have no id of their own, so each add is a job.\<close>

definition addAgentAction :: "agent_action_job \<Rightarrow> (store, api_exn, unit) proc" where
  "addAgentAction job =
     (if agent_action_job_ok job then modify (\<lambda>s. s\<lparr>agent_queue := agent_queue s @ [job]\<rparr>)
      else raise (Crash ''ZodError''))"

text \<open>The updates the services and workers make to a subscription row.\<close>

datatype sub_patch =
    Cancel_Sub "string option"
  | Lapse_Sub
  | Lock_Sub
  | Unlock_Sub

fun patch_sub :: "sub_patch \<times> int \<Rightarrow> sub_row \<Rightarrow> sub_row" where
  "patch_sub (Cancel_Sub reason, now) r =
     r\<lparr>su_status := Sub_Cancelled, su_cancelled_at := Some now, su_cancellation_reason := reason, su_updated_at := now\<rparr>"
| "patch_sub (Lapse_Sub, now) r = r\<lparr>su_status := Lapsed, su_updated_at := now\<rparr>"
| "patch_sub (Lock_Sub, now) r =
     r\<lparr>su_charge_lock := True, su_charge_lock_acquired_at := Some now\<rparr>"
| "patch_sub (Unlock_Sub, now) r =
     r\<lparr>su_charge_lock := False, su_charge_lock_acquired_at := None, su_updated_at := now\<rparr>"

definition cancel_sub ::
  "string \<Rightarrow> int \<Rightarrow> string \<Rightarrow> api_mode \<Rightarrow> string \<Rightarrow> string option \<Rightarrow> (store, api_exn, sub_wire) proc" where
  "cancel_sub eid now merchantId mode i reason =
     seq (gets (find_own_sub merchantId mode i)) (\<lambda>found.
     seq (or_raise not_found found) (\<lambda>sub.
     if su_status sub = Sub_Cancelled \<or> su_status sub = Lapsed
     then raise (forbidden ''session_invalid_state'')
     else
     seq (modify (\<lambda>s. s\<lparr>subs := update_where (\<lambda>r. su_id r = su_id sub) (patch_sub (Cancel_Sub reason, now)) (subs s)\<rparr>)) (\<lambda>_.
     let cancelled = patch_sub (Cancel_Sub reason, now) sub in
     seq (addAgentAction (Cancel_Subscription_Onchain (su_id sub) (su_onchain_subscription_id sub) merchantId reason)) (\<lambda>_.
     seq (catch (fire eid now merchantId (su_mode sub) ''subscription.cancelled'' (Subscription_Body (serialise_sub cancelled))) (\<lambda>_. ret ())) (\<lambda>_.
     ret (serialise_sub cancelled))))))"

section \<open>Row updates and lists\<close>

lemma patch_plan_id [simp]: "pl_id (patch_plan p r) = pl_id r"
  by (cases p rule: patch_plan.cases [where ?x = "(p, r)" for p, simplified]) (auto split: prod.splits)

interpretation plan_patch: row_update pl_id patch_plan
  by unfold_locales simp

lemma patch_sub_id [simp]: "su_id (patch_sub p r) = su_id r"
  by (cases p, cases "fst p") auto

interpretation sub_patch: row_update su_id patch_sub
  by unfold_locales simp

definition plan_keys_ok :: "store \<Rightarrow> bool" where
  "plan_keys_ok s \<longleftrightarrow> distinct (map pl_id (plans s)) \<and> (\<forall>r\<in>set (plans s). pl_id r \<noteq> [])"

definition sub_keys_ok :: "store \<Rightarrow> bool" where
  "sub_keys_ok s \<longleftrightarrow> distinct (map su_id (subs s)) \<and> (\<forall>r\<in>set (subs s). su_id r \<noteq> [])"

interpretation plan_pages: paged_rows pl_id "plan_rows m st" plan_keys_ok for m st
proof
  fix s :: store
  assume ok: "plan_keys_ok s"
  then show "distinct (map pl_id (plan_rows m st s))"
    unfolding plan_rows_def plan_keys_ok_def by (blast intro: distinct_map_filter_sort)
  show "pl_id r \<noteq> []" if "r \<in> set (plan_rows m st s)" for r
    using that ok by (auto simp: plan_rows_def plan_keys_ok_def)
qed

interpretation sub_pages: paged_rows su_id "sub_rows m mode st pid cu" sub_keys_ok for m mode st pid cu
proof
  fix s :: store
  assume ok: "sub_keys_ok s"
  then show "distinct (map su_id (sub_rows m mode st pid cu s))"
    unfolding sub_rows_def sub_keys_ok_def by (blast intro: distinct_map_filter_sort)
  show "su_id r \<noteq> []" if "r \<in> set (sub_rows m mode st pid cu s)" for r
    using that ok by (auto simp: sub_rows_def sub_keys_ok_def)
qed

section \<open>Verification of the terms\<close>

text \<open>The abstract contract of an enrolment: what a request has to be, for the plan and the payer.\<close>

definition terms_agree :: "config \<Rightarrow> store \<Rightarrow> plan_row \<Rightarrow> enrolment_request \<Rightarrow> bool" where
  "terms_agree cfg s plan req \<longleftrightarrow>
     map_option int (Option.bind (find_row m_id (pl_merchant_id plan) (merchants s)) m_onchain_merchant_id)
       = Some (er_merchant_id req) \<and>
     tokenAddressForCurrency cfg (pl_currency plan) = Some (to_lower (er_token req)) \<and>
     er_amount req = BigInt (pl_amount plan) \<and>
     er_interval req = intervalSeconds (pl_interval plan) (pl_interval_count plan) \<and>
     er_end_at req = 0"

definition start_agrees :: "int \<Rightarrow> int \<Rightarrow> int \<Rightarrow> bool" where
  "start_agrees now trialDays startAt \<longleftrightarrow>
     (if trialDays = 0 then startAt = 0
      else \<bar>startAt - (unixSeconds now + trialDays * SECONDS_PER_DAY)\<bar> \<le> TRIAL_START_TOLERANCE_SECONDS)"

lemma terms_mismatches_Nil:
  "terms_mismatches cfg plan (Option.bind (find_row m_id (pl_merchant_id plan) (merchants s)) m_onchain_merchant_id) req = []
     \<longleftrightarrow> terms_agree cfg s plan req"
  by (auto simp: terms_mismatches_def terms_agree_def Let_def split: option.split)

lemma start_mismatches_Nil: "start_mismatches now d t = [] \<longleftrightarrow> start_agrees now d t"
  by (auto simp: start_mismatches_def start_agrees_def Let_def abs_if)

lemma verify_terms_iff:
  "fst (verify_terms cfg mid req now s) = Inr () \<longleftrightarrow>
     (\<exists>plan payer. find_row pl_id (er_plan_id req) (plans s) = Some plan \<and>
        pl_merchant_id plan = mid \<and> pl_status plan = Plan_Active \<and>
        terms_agree cfg s plan req \<and> normalisePayer (er_payer req) = Inr payer \<and>
        start_agrees now (trialDaysFor plan payer s) (er_start_at req))"
  by (cases "find_row pl_id (er_plan_id req) (plans s)"; cases "normalisePayer (er_payer req)")
    (auto simp: verify_terms_def Let_def start_mismatches_Nil terms_mismatches_Nil)

lemma verify_terms_pure: "snd (verify_terms cfg mid req now s) = s"
  by (simp add: verify_terms_def Let_def split: option.split sum.split)

lemma quote_eq:
  "quote planId payer now s =
     (case normalisePayer payer of Inl e \<Rightarrow> (Inl e, s)
      | Inr a \<Rightarrow> (case find_row pl_id planId (plans s) of None \<Rightarrow> (Inl not_found, s)
        | Some plan \<Rightarrow>
            (Inr (let d = trialDaysFor plan a s; t = unixSeconds now + d * SECONDS_PER_DAY in
               if d = 0 then \<lparr>et_start_at = ''0'', et_trial_days = 0, et_trial_ends_at = None\<rparr>
               else \<lparr>et_start_at = show_int t, et_trial_days = d, et_trial_ends_at = Some (t * 1000)\<rparr>), s)))"
  by (simp add: quote_def Let_def split: sum.split option.split)

lemma big_zero [simp]: "BigInt ''0'' = 0"
  by (simp add: BigInt_def big_nat_def digit_of_def)

lemma trialDaysFor_nonneg: "0 \<le> trialDaysFor plan a s"
  by (auto simp: trialDaysFor_def Let_def)

lemma trialDaysFor_subs: "subs s' = subs s \<Longrightarrow> trialDaysFor plan a s' = trialDaysFor plan a s"
  by (simp add: trialDaysFor_def Let_def)

lemma unixSeconds_mono: "a \<le> b \<Longrightarrow> unixSeconds a \<le> unixSeconds b"
  by (simp add: unixSeconds_def zdiv_mono1)

section \<open>Properties\<close>

text \<open>
  \<open>verify\<close> accepts exactly the requests that agree with an active plan of the merchant in the
  on-chain merchant, token, amount, interval and open end, and whose start is now (no trial left) or within
  15 minutes of the end of the payer's trial; it never writes.
\<close>

theorem verify_terms_spec:
  "verify_terms cfg mid req now s = (Inr (), s) \<longleftrightarrow>
     (\<exists>plan payer. find_row pl_id (er_plan_id req) (plans s) = Some plan \<and>
        pl_merchant_id plan = mid \<and> pl_status plan = Plan_Active \<and>
        terms_agree cfg s plan req \<and> normalisePayer (er_payer req) = Inr payer \<and>
        start_agrees now (trialDaysFor plan payer s) (er_start_at req))"
  using verify_terms_iff [of cfg mid req now s] verify_terms_pure [of cfg mid req now s]
  by (metis fst_conv prod.collapse)

text \<open>
  What the checkout quotes, the relay accepts: a request that carries the quoted start of an active plan
  and the plan's own terms passes the verification up to 15 minutes later, as long as the plan, the merchant
  and the subscriptions did not change in between.
\<close>

theorem quoted_terms_verify:
  assumes quoted: "quote (er_plan_id req) (er_payer req) now s = (Inr t, s0)"
    and plan: "find_row pl_id (er_plan_id req) (plans s) = Some plan" "pl_merchant_id plan = mid"
      "pl_status plan = Plan_Active" "terms_agree cfg s plan req"
    and start: "er_start_at req = BigInt (et_start_at t)"
    and time: "0 \<le> now" "now \<le> now'" "now' \<le> now + 900000"
    and same: "plans s' = plans s" "merchants s' = merchants s" "subs s' = subs s"
  shows "verify_terms cfg mid req now' s' = (Inr (), s')"
proof -
  from quoted plan(1) obtain payer where payer: "normalisePayer (er_payer req) = Inr payer"
    by (auto simp: quote_eq split: sum.splits)
  define d where "d = trialDaysFor plan payer s"
  have d: "0 \<le> d" by (simp add: d_def trialDaysFor_nonneg)
  have u: "0 \<le> unixSeconds now" using time(1) by (simp add: unixSeconds_def)
  have drift: "unixSeconds now \<le> unixSeconds now'" "unixSeconds now' \<le> unixSeconds now + 900"
    using time unfolding unixSeconds_def by linarith+
  have "er_start_at req = (if d = 0 then 0 else unixSeconds now + d * SECONDS_PER_DAY)"
    using quoted plan(1) payer start d u
    by (auto simp: quote_eq Let_def d_def SECONDS_PER_DAY_def)
  then have "start_agrees now' d (er_start_at req)"
    using drift by (auto simp: start_agrees_def TRIAL_START_TOLERANCE_SECONDS_def)
  moreover have "terms_agree cfg s' plan req"
    using plan(4) same by (simp add: terms_agree_def)
  ultimately have "fst (verify_terms cfg mid req now' s') = Inr ()"
    unfolding verify_terms_iff
    using plan payer same trialDaysFor_subs [OF same(3)] by (auto simp: d_def)
  with verify_terms_pure [of cfg mid req now' s'] show ?thesis by (metis prod.collapse)
qed

text \<open>
  A trial is used once: when the payer has ever subscribed to the plan, the quote offers no trial and a
  request that passes the verification starts, and charges, at once.
\<close>

theorem trial_used_once:
  assumes "find_row pl_id planId (plans s) = Some plan" and "normalisePayer payer = Inr a"
    and "r \<in> set (subs s)" and "su_plan_id r = pl_id plan" and "su_payer_address r = a"
  shows "quote planId payer now s = (Inr \<lparr>et_start_at = ''0'', et_trial_days = 0, et_trial_ends_at = None\<rparr>, s) \<and>
         (er_plan_id req = planId \<and> er_payer req = payer \<and> fst (verify_terms cfg mid req now s) = Inr () \<longrightarrow>
            er_start_at req = 0)"
proof -
  have "trialDaysFor plan a s = 0" using assms(3-5) by (auto simp: trialDaysFor_def Let_def)
  with assms(1,2) show ?thesis
    by (auto simp: quote_eq verify_terms_iff start_agrees_def Let_def)
qed

text \<open>
  Cancelling a live subscription cancels it in the database, hands the on-chain cancellation to the
  agent queue and records the \<open>subscription.cancelled\<close> event, once each; a second cancellation is
  refused and changes nothing, and the subscription no longer counts as live for its payer.
\<close>

theorem cancel_sub_spec:
  assumes "sub_keys_ok s" and "cancel_sub eid now mid mode i reason s = (Inr w, s1)"
  shows "uw_status w = Sub_Cancelled \<and> map_option serialise_sub (find_own_sub mid mode i s1) = Some w \<and>
         agent_queue s1 = agent_queue s @ [Cancel_Subscription_Onchain i (uw_onchain_subscription_id w) mid reason] \<and>
         map ev_type (events s1) = map ev_type (events s) @ [''subscription_cancelled''] \<and>
         snd (activeForPayer p a s1) \<noteq> Some i \<and>
         cancel_sub eid' now' mid mode i reason' s1 = (Inl (forbidden ''session_invalid_state''), s1)"
proof -
  from assms(2) obtain r where r: "find_own_sub mid mode i s = Some r"
    and w: "w = serialise_sub (patch_sub (Cancel_Sub reason, now) r)"
    and s1: "subs s1 = update_where (\<lambda>x. su_id x = su_id r) (patch_sub (Cancel_Sub reason, now)) (subs s)"
      "agent_queue s1 = agent_queue s @ [Cancel_Subscription_Onchain (su_id r) (su_onchain_subscription_id r) mid reason]"
      "map ev_type (events s1) = map ev_type (events s) @ [''subscription_cancelled'']"
    by (auto simp: cancel_sub_def addAgentAction_def seq_def catch_def Let_def split: option.splits if_splits)
  have d: "distinct (map su_id (subs s))" using assms(1) by (simp add: sub_keys_ok_def)
  then have d1: "distinct (map su_id (subs s1))" by (simp add: s1(1))
  from r have f: "find_row su_id i (subs s) = Some r" "su_merchant_id r = mid" "su_mode r = mode"
    unfolding find_own_sub_def find_row_and [OF d] by (auto split: option.splits if_splits)
  then have id: "su_id r = i" by (auto dest: find_row_Some)
  let ?c = "patch_sub (Cancel_Sub reason, now) r"
  have f1: "find_row su_id i (subs s1) = Some ?c"
    using f(1) id by (simp add: s1(1) sub_patch.find_row_update)
  have own: "find_own_sub mid mode i s1 = Some ?c"
    unfolding find_own_sub_def find_row_and [OF d1] using f1 f(2,3) by simp
  have "snd (activeForPayer p a s1) \<noteq> Some i"
  proof
    assume "snd (activeForPayer p a s1) = Some i"
    then obtain x where "x \<in> set (subs s1)" "su_id x = i" "su_status x \<in> set LIVE_SUBSCRIPTION_STATUSES"
      by (auto simp: activeForPayer_def Let_def split: if_splits dest!: latest_by_Some)
    moreover from this distinct_key_eq [OF d1 f1] have "x = ?c" by blast
    ultimately show False by (auto simp: LIVE_SUBSCRIPTION_STATUSES_def)
  qed
  moreover have "cancel_sub eid' now' mid mode i reason' s1 = (Inl (forbidden ''session_invalid_state''), s1)"
    using own by (simp add: cancel_sub_def)
  ultimately show ?thesis
    using own w s1 id by (simp add: serialise_sub_def)
qed

section \<open>Witnesses\<close>

lemma lower_sample_address [simp]: "to_lower sample_address = sample_address"
  by (simp add: sample_address_def to_lower_def ascii_lower_def)

lemma address_ok_sample [simp]: "address_ok sample_address"
  by (simp add: sample_address_def address_ok_def hex_of_length_def hex_body_def starts_with_def is_hex_char_def
      list_all_iff Let_def)

lemma trim_sample_address [simp]: "js_trim sample_address = sample_address"
proof -
  have "rev sample_address = replicate 40 (CHR ''a'') @ ''x0''" by (simp add: sample_address_def)
  moreover have "dropWhile is_space sample_address = sample_address"
    by (simp add: sample_address_def is_space_def)
  moreover have "dropWhile is_space (replicate 40 (CHR ''a'') @ ''x0'') = replicate 40 (CHR ''a'') @ ''x0''"
    by (simp add: is_space_def dropWhile_append3 numeral_eq_Suc)
  ultimately show ?thesis by (simp add: js_trim_def sample_address_def)
qed

lemma normalise_sample_address: "normalisePayer sample_address = Inr sample_address"
  by (simp add: normalisePayer_def)

definition sample_request :: enrolment_request where
  [sample_defs]: "sample_request = \<lparr>er_plan_id = ''pl1'', er_payer = sample_address, er_merchant_id = 7,
     er_token = sample_address, er_amount = 5000000, er_interval = 2592000, er_start_at = 1209610, er_end_at = 0\<rparr>"

lemma sample_request_terms: "terms_agree sample_config sample_store sample_plan sample_request"
  by (simp add: terms_agree_def sample_request_def sample_plan_def sample_store_def sample_config_def
      sample_merchant_def empty_store_def tokenAddressForCurrency_def intervalSeconds_def BigInt_def big_nat_def
      digit_of_def truthy_def) (simp add: sample_address_def)

lemma sample_plan_found: "find_row pl_id ''pl1'' (plans sample_store) = Some sample_plan"
  by (simp add: sample_defs)

theorem quoted_terms_verify_witness:
  "\<exists>t. quote ''pl1'' sample_address 10000 sample_store = (Inr t, sample_store) \<and> et_start_at t = ''1209610'' \<and>
     verify_terms sample_config ''m1'' sample_request 500000 sample_store = (Inr (), sample_store)"
proof -
  have d: "trialDaysFor sample_plan sample_address sample_store = 14"
    by (simp add: trialDaysFor_def sample_plan_def sample_store_def empty_store_def)
  have start: "show_int 1209610 = ''1209610''"
    by (simp add: show_int_def show_nat.simps)
  obtain t where t: "quote ''pl1'' sample_address 10000 sample_store = (Inr t, sample_store)" "et_start_at t = ''1209610''"
    by (simp add: quote_eq normalise_sample_address sample_plan_found d Let_def unixSeconds_def SECONDS_PER_DAY_def start)
  have r: "er_plan_id sample_request = ''pl1''" "er_payer sample_request = sample_address"
    "er_start_at sample_request = 1209610"
    by (simp_all add: sample_request_def)
  have big: "BigInt ''1209610'' = 1209610"
    by (simp add: BigInt_def big_nat_def digit_of_def)
  have "verify_terms sample_config ''m1'' sample_request 500000 sample_store = (Inr (), sample_store)"
    by (rule quoted_terms_verify [where now = 10000 and s = sample_store and plan = sample_plan and t = t])
      (simp_all add: t r big sample_plan_found sample_request_terms, simp_all add: sample_plan_def)
  with t show ?thesis by blast
qed

definition sample_sub :: sub_row where
  [sample_defs]: "sample_sub = \<lparr>
     su_id = ''su1'', su_onchain_subscription_id = Some 3, su_enrolment_tx_hash = Some sample_hash,
     su_merchant_id = ''m1'', su_customer_id = ''cu1'', su_plan_id = ''pl1'', su_status = Sub_Active,
     su_payer_address = sample_address, su_currency = USDC, su_amount = ''5000000'', su_interval = Monthly,
     su_interval_count = 1, su_trial_ends_at = None, su_current_period_start_at = 0,
     su_current_period_end_at = 2592000000, su_next_charge_at = Some 2592000000, su_grace_period_hours = 72,
     su_charge_lock = False, su_charge_lock_acquired_at = None, su_next_retry_at = None,
     su_cancelled_at = None, su_cancellation_reason = None, su_mode = Test, su_metadata = [],
     su_created_at = 0, su_updated_at = 0\<rparr>"

definition subscribed_store :: store where
  [sample_defs]: "subscribed_store = sample_store\<lparr>subs := [sample_sub]\<rparr>"

theorem trial_used_once_witness:
  "quote ''pl1'' sample_address 10000 subscribed_store =
     (Inr \<lparr>et_start_at = ''0'', et_trial_days = 0, et_trial_ends_at = None\<rparr>, subscribed_store)"
  using trial_used_once [of "''pl1''" subscribed_store sample_plan sample_address sample_address sample_sub]
  by (simp add: normalise_sample_address, simp add: sample_defs)

lemma subscribed_keys: "sub_keys_ok subscribed_store"
  by (simp add: sub_keys_ok_def sample_defs)

theorem cancel_sub_spec_witness:
  "\<exists>w s1. cancel_sub ''evt1'' 5 ''m1'' Test ''su1'' None subscribed_store = (Inr w, s1) \<and>
     agent_queue s1 = [Cancel_Subscription_Onchain ''su1'' (Some 3) ''m1'' None]"
proof -
  have "returned (cancel_sub ''evt1'' 5 ''m1'' Test ''su1'' None subscribed_store)"
    by (simp add: cancel_sub_def find_own_sub_def addAgentAction_def seq_def catch_def Let_def returned_def sample_defs)
  then obtain w s1 where run: "cancel_sub ''evt1'' 5 ''m1'' Test ''su1'' None subscribed_store = (Inr w, s1)"
    by (rule returnedE)
  have "agent_queue subscribed_store = []" by (simp add: sample_defs)
  moreover have "uw_onchain_subscription_id w = Some 3"
    using run by (auto simp: serialise_sub_def cancel_sub_def find_own_sub_def addAgentAction_def seq_def catch_def Let_def sample_defs)
  ultimately show ?thesis using cancel_sub_spec [OF subscribed_keys run] run by auto
qed

end
