(* ===== verification/Relay_Service.thy ===== *)
theory Relay_Service
  imports Relay_Guards Enrolment
begin

text \<open>
  The entry points of the relay (\<open>apps/api/src/modules/relay/relay.service.ts\<close>) with
  \<open>relay-chain-probe.ts\<close>, \<open>relay-enrolment-gate.ts\<close>, \<open>relay-inputs.ts\<close> and the checkout nonce of
  \<open>packages/shared-crypto/src/checkout.ts\<close>. The record \<open>relay_world\<close> holds what the code takes from
  elsewhere: the ABI codec, Keccak and the chain's answers at the time of the call.
\<close>

section \<open>Inputs\<close>

record vrs_signature =
  vs_v :: nat
  vs_r :: string
  vs_s :: string

record pay_authorization =
  pa_from :: string
  pa_amount :: int
  pa_valid_after :: int
  pa_valid_before :: int
  pa_nonce :: string

record pay_input =
  py_merchant_id :: int
  py_token :: string
  py_auth :: pay_authorization
  py_ref :: string
  py_auth_signature :: vrs_signature
  py_intent_signature :: vrs_signature
  py_merchant_internal_id :: string
  py_session_id :: string

record permit_data =
  pd_owner :: string
  pd_value :: int
  pd_deadline :: int

record enrol_input =
  en_merchant_id :: int
  en_token :: string
  en_amount :: int
  en_interval :: int
  en_start_at :: int
  en_end_at :: int
  en_permit :: permit_data
  en_permit_signature :: vrs_signature
  en_intent_signature :: vrs_signature
  en_merchant_internal_id :: string
  en_subscription_internal_id :: string

text \<open>The request bodies (\<open>relay.dto.ts\<close>) are the inputs without their targets; the mappers of \<open>relay-inputs.ts\<close> put the two together.\<close>

definition paymentRelayInput :: "pay_input \<Rightarrow> string \<Rightarrow> string \<Rightarrow> pay_input" where
  "paymentRelayInput body merchantInternalId sessionId =
     body\<lparr>py_merchant_internal_id := merchantInternalId, py_session_id := sessionId\<rparr>"

definition enrolmentRelayInput :: "enrol_input \<Rightarrow> string \<Rightarrow> string \<Rightarrow> enrol_input" where
  "enrolmentRelayInput body merchantInternalId subscriptionInternalId =
     body\<lparr>en_merchant_internal_id := merchantInternalId, en_subscription_internal_id := subscriptionInternalId\<rparr>"

definition vrs_ok :: "vrs_signature \<Rightarrow> bool" where
  "vrs_ok g \<longleftrightarrow> (vs_v g = 27 \<or> vs_v g = 28) \<and> tx_hash_ok (vs_r g) \<and> tx_hash_ok (vs_s g)"

definition is_key_char :: "char \<Rightarrow> bool" where
  "is_key_char c \<longleftrightarrow> (let n = of_char c :: nat in
     (48 \<le> n \<and> n \<le> 57) \<or> (65 \<le> n \<and> n \<le> 90) \<or> (97 \<le> n \<and> n \<le> 122) \<or> n \<in> {45, 46, 95})"

definition idempotency_key_ok :: "string \<Rightarrow> bool" where
  "idempotency_key_ok k \<longleftrightarrow> 1 \<le> length k \<and> length k \<le> 128 \<and> list_all is_key_char k"

definition submit_payment_ok :: "string option \<Rightarrow> pay_input \<Rightarrow> bool" where
  "submit_payment_ok key i \<longleftrightarrow>
     opt_ok idempotency_key_ok key \<and> 0 \<le> py_merchant_id i \<and> address_ok (py_token i) \<and>
     address_ok (pa_from (py_auth i)) \<and> 0 \<le> pa_amount (py_auth i) \<and> 0 \<le> pa_valid_after (py_auth i) \<and>
     0 \<le> pa_valid_before (py_auth i) \<and> tx_hash_ok (pa_nonce (py_auth i)) \<and> tx_hash_ok (py_ref i) \<and>
     vrs_ok (py_auth_signature i) \<and> vrs_ok (py_intent_signature i) \<and>
     1 \<le> length (py_session_id i) \<and> length (py_session_id i) \<le> 80"

definition submit_subscription_ok :: "string option \<Rightarrow> enrol_input \<Rightarrow> bool" where
  "submit_subscription_ok key i \<longleftrightarrow>
     opt_ok idempotency_key_ok key \<and> 0 \<le> en_merchant_id i \<and> address_ok (en_token i) \<and> 0 \<le> en_amount i \<and>
     0 < en_interval i \<and> 0 \<le> en_start_at i \<and> 0 \<le> en_end_at i \<and> address_ok (pd_owner (en_permit i)) \<and>
     0 \<le> pd_value (en_permit i) \<and> 0 \<le> pd_deadline (en_permit i) \<and>
     vrs_ok (en_permit_signature i) \<and> vrs_ok (en_intent_signature i) \<and>
     1 \<le> length (en_subscription_internal_id i) \<and> length (en_subscription_internal_id i) \<le> 80"

section \<open>The world outside\<close>

type_synonym 'a rpc = "api_exn + 'a"

datatype receipt_status = Success_Receipt | Reverted_Receipt

text \<open>A dry run returns, reverts with a reason, or fails for another reason.\<close>

datatype simulation = Sim_Ok | Sim_Revert string | Sim_Failure

type_synonym pay_call = "int \<times> string \<times> pay_authorization \<times> string \<times> vrs_signature \<times> vrs_signature"
type_synonym enrol_call =
  "int \<times> string \<times> int \<times> int \<times> int \<times> int \<times> permit_data \<times> vrs_signature \<times> vrs_signature"

record relay_world =
  rw_encode_pay :: "pay_call \<Rightarrow> string"
  rw_encode_enrol :: "enrol_call \<Rightarrow> string"
  rw_encode_strings :: "string \<Rightarrow> string \<Rightarrow> string"
  rw_valid_before :: "string \<Rightarrow> int"
  rw_keccak :: "string \<Rightarrow> string"
  rw_simulate :: "string \<Rightarrow> string \<Rightarrow> simulation"
  rw_receipt :: "string \<Rightarrow> receipt_status option rpc"
  rw_latest_timestamp :: "int rpc"
  rw_balance :: "string \<Rightarrow> string \<Rightarrow> int rpc"

definition CHECKOUT_PAYMENT_NONCE_DOMAIN :: string where
  "CHECKOUT_PAYMENT_NONCE_DOMAIN = ''strimz.checkout.payment-nonce.v1''"

definition checkoutPaymentNonce :: "relay_world \<Rightarrow> string \<Rightarrow> api_exn + string" where
  "checkoutPaymentNonce w sessionId =
     (if sessionId = [] then Inl (Crash ''checkoutPaymentNonce requires a non-empty session id'')
      else Inr (rw_keccak w (rw_encode_strings w CHECKOUT_PAYMENT_NONCE_DOMAIN sessionId)))"

definition simulate :: "relay_world \<Rightarrow> string \<Rightarrow> string \<Rightarrow> (store, api_exn, unit) proc" where
  "simulate w to dat =
     (case rw_simulate w to dat of
        Sim_Ok \<Rightarrow> ret ()
      | Sim_Revert reason \<Rightarrow> raise (Http 400 ''relay_simulation_failed'' (Fields [reason]))
      | Sim_Failure \<Rightarrow> raise (Crash ''eth_call''))"

section \<open>Keys and views\<close>

definition PAY_GAS_LIMIT :: nat where
  "PAY_GAS_LIMIT = 280000"

definition ENROL_GAS_LIMIT :: nat where
  "ENROL_GAS_LIMIT = 320000"

definition relayKeyFor :: "relay_world \<Rightarrow> relay_reason \<Rightarrow> string \<Rightarrow> string" where
  "relayKeyFor w reason callData =
     (if reason = PayWithAuthorization then ''relay-pay-'' else ''relay-sub-'') @ drop 2 (rw_keccak w callData)"

fun mapStatus :: "job_state \<Rightarrow> relay_submission_status" where
  "mapStatus Q_Completed = Confirmed_Status"
| "mapStatus Q_Failed = Failed_Status"
| "mapStatus Q_Active = Signing"
| "mapStatus _ = Queued"

definition viewFromJob :: "queued_job \<Rightarrow> submission_view" where
  "viewFromJob j = \<lparr>
     sv_id = qj_id j, sv_idempotency_key = job_key (qj_data j), sv_status = mapStatus (qj_state j),
     sv_tx_hash = (case qj_returnvalue j of Some (Relayed h _ _) \<Rightarrow> Some h | _ \<Rightarrow> None),
     sv_reason = job_reason (qj_data j), sv_error_reason = qj_failed_reason j,
     sv_attempt_count = qj_attempts_made j, sv_enqueued_at = qj_timestamp j\<rparr>"

definition settled_view :: "string \<Rightarrow> string option \<Rightarrow> relay_reason \<Rightarrow> int \<Rightarrow> submission_view" where
  "settled_view key txHash reason at = \<lparr>
     sv_id = key, sv_idempotency_key = key, sv_status = Confirmed_Status, sv_tx_hash = txHash,
     sv_reason = reason, sv_error_reason = None, sv_attempt_count = 0, sv_enqueued_at = at\<rparr>"

definition alreadyPaidView :: "string \<Rightarrow> string \<Rightarrow> store \<Rightarrow> submission_view option" where
  "alreadyPaidView sessionId key s =
     (case find_session sessionId s of
        None \<Rightarrow> None
      | Some x \<Rightarrow> if ps_status x \<noteq> Confirmed then None
          else Some (settled_view key (ps_onchain_tx_hash x) PayWithAuthorization (ps_updated_at x)))"

definition alreadyEnrolledView :: "string \<Rightarrow> string \<Rightarrow> string \<Rightarrow> store \<Rightarrow> submission_view option" where
  "alreadyEnrolledView planId payerAddress key s =
     map_option (\<lambda>r. settled_view key (su_enrolment_tx_hash r) PermitAndCreateSubscription (su_updated_at r))
       (latest_by su_created_at (filter (\<lambda>r. su_plan_id r = planId \<and> su_payer_address r = to_lower payerAddress \<and>
          su_cancelled_at r = None \<and> su_onchain_subscription_id r \<noteq> None) (subs s)))"

definition existingView :: "string \<Rightarrow> store \<Rightarrow> submission_view option" where
  "existingView key s = map_option viewFromJob (find_job key (relay_queue s))"

record submission_scope =
  sc_merchant_internal_id :: string
  sc_session_id :: "string option"

fun jobInScope :: "relay_job \<Rightarrow> submission_scope \<Rightarrow> bool" where
  "jobInScope (Register_Job r) scope =
     (rr_merchant_internal_id r = sc_merchant_internal_id scope \<and> \<not> truthy (sc_session_id scope))"
| "jobInScope (Pay_Job c) scope =
     (rc_merchant_internal_id c = Some (sc_merchant_internal_id scope) \<and>
      (truthy (sc_session_id scope) \<longrightarrow>
         rc_session_id c = sc_session_id scope \<or> rc_subscription_internal_id c = sc_session_id scope))"
| "jobInScope (Enrol_Job c) scope =
     (rc_merchant_internal_id c = Some (sc_merchant_internal_id scope) \<and>
      (truthy (sc_session_id scope) \<longrightarrow>
         rc_session_id c = sc_session_id scope \<or> rc_subscription_internal_id c = sc_session_id scope))"

definition getByIdempotencyKey :: "string \<Rightarrow> submission_scope \<Rightarrow> store \<Rightarrow> submission_view option" where
  "getByIdempotencyKey key scope s =
     (case find_job key (relay_queue s) of
        None \<Rightarrow> None
      | Some j \<Rightarrow> if jobInScope (qj_data j) scope then Some (viewFromJob j) else None)"

section \<open>Claiming an attempt\<close>

abbreviation attemptInProgress :: "submission_view option \<Rightarrow> api_exn" where
  "attemptInProgress v \<equiv> Http 409 ''attempt_in_progress'' (Submission v)"

abbreviation alreadySettled :: "submission_view \<Rightarrow> api_exn" where
  "alreadySettled v \<equiv> Http 409 ''already_settled'' (Submission (Some v))"

fun job_call :: "relay_job \<Rightarrow> relay_call_fields option" where
  "job_call (Pay_Job c) = Some c"
| "job_call (Enrol_Job c) = Some c"
| "job_call (Register_Job _) = None"

definition assertAttemptReplaceable :: "relay_world \<Rightarrow> string \<Rightarrow> (store, api_exn, unit) proc" where
  "assertAttemptReplaceable w previousKey =
     seq (gets (\<lambda>s. find_job previousKey (relay_queue s))) (\<lambda>found.
     case found of None \<Rightarrow> ret () | Some job \<Rightarrow>
     if qj_state job = Q_Completed then raise (alreadySettled (viewFromJob job))
     else if qj_state job \<noteq> Q_Failed then raise (attemptInProgress (Some (viewFromJob job)))
     else case (job_call (qj_data job), job_broadcast (qj_data job)) of
       (Some c, Some b) \<Rightarrow>
         seq (lift_sum (rw_receipt w (bc_tx_hash b))) (\<lambda>receipt.
         if receipt = Some Success_Receipt then raise (alreadySettled (viewFromJob job))
         else if receipt = Some Reverted_Receipt then ret ()
         else if job_reason (qj_data job) = PermitAndCreateSubscription then ret ()
         else seq (lift_sum (rw_latest_timestamp w)) (\<lambda>t.
           if rw_valid_before w (rc_call_data c) \<le> t then ret ()
           else raise (attemptInProgress (Some (viewFromJob job)))))
     | _ \<Rightarrow> ret ())"

text \<open>The claim, with the pointer as it was read (\<open>current\<close>).\<close>

definition claim_after_read ::
  "relay_world \<Rightarrow> string \<Rightarrow> string option \<Rightarrow> string \<Rightarrow> (store, api_exn, unit) proc" where
  "claim_after_read w scope current key =
     (if current = Some key then ret ()
      else
        seq (case current of None \<Rightarrow> ret () | Some k \<Rightarrow> assertAttemptReplaceable w k) (\<lambda>_.
        seq (\<lambda>s. case attempt_claim scope current key s of (won, s') \<Rightarrow> (Inr won, s')) (\<lambda>won.
        if won then ret ()
        else seq (gets (\<lambda>s. attempt_current s scope)) (\<lambda>winner.
             seq (gets (\<lambda>s. case winner of None \<Rightarrow> None | Some k \<Rightarrow>
               if k = [] then None else existingView k s)) (\<lambda>v.
             raise (attemptInProgress v))))))"

definition claimAttempt :: "relay_world \<Rightarrow> string \<Rightarrow> string \<Rightarrow> (store, api_exn, unit) proc" where
  "claimAttempt w scope key = seq (gets (\<lambda>s. attempt_current s scope)) (\<lambda>current. claim_after_read w scope current key)"

definition enqueue ::
  "relay_world \<Rightarrow> config \<Rightarrow> int \<Rightarrow> relay_job \<Rightarrow> string \<Rightarrow> string \<Rightarrow> (store, api_exn, submission_view) proc" where
  "enqueue w cfg now job merchantId scope =
     seq (parse_relay_job job) (\<lambda>dat.
     seq (claimAttempt w scope (job_key dat)) (\<lambda>_.
     seq (consume cfg merchantId now) (\<lambda>_.
     seq (modify (\<lambda>s. s\<lparr>relay_queue := queue_add now dat (relay_queue s)\<rparr>)) (\<lambda>_.
     seq (gets (existingView (job_key dat))) (or_raise (Crash ''job missing''))))))"

section \<open>Submitting\<close>

definition assertOwnMerchant :: "string \<Rightarrow> int \<Rightarrow> (store, api_exn, unit) proc" where
  "assertOwnMerchant merchantInternalId onchainMerchantId =
     seq (gets (\<lambda>s. Option.bind (find_row m_id merchantInternalId (merchants s)) m_onchain_merchant_id)) (\<lambda>oid.
     case oid of None \<Rightarrow> raise (forbidden ''merchant_mismatch'')
     | Some n \<Rightarrow> require (int n = onchainMerchantId) (forbidden ''merchant_mismatch''))"

definition assertSessionPayable ::
  "config \<Rightarrow> int \<Rightarrow> string \<Rightarrow> int \<Rightarrow> int \<Rightarrow> string \<Rightarrow> (store, api_exn, unit) proc" where
  "assertSessionPayable cfg now sessionId onchainMerchantId signedAmount token =
     seq (gets (find_session sessionId)) (\<lambda>found.
     seq (or_raise (bad_request ''not_found'') found) (\<lambda>x.
     if ps_status x \<in> {Cancelled, Expired, Failed} then raise (bad_request ''session_invalid_state'')
     else if ps_status x = Submitted then raise (conflict ''session_already_submitted'')
     else if ps_expires_at x < now then raise (bad_request ''session_expired'')
     else seq (gets (\<lambda>s. Option.bind (find_row m_id (ps_merchant_id x) (merchants s)) m_onchain_merchant_id)) (\<lambda>oid.
       if map_option int oid \<noteq> Some onchainMerchantId then raise (bad_request ''invalid_request'')
       else if BigInt (ps_amount x) \<noteq> signedAmount then raise (bad_request ''invalid_request'')
       else case tokenAddressForCurrency cfg (ps_currency x) of
         None \<Rightarrow> raise (Crash ''no token address is configured'')
       | Some t \<Rightarrow> require (t = to_lower token) (bad_request ''token_mismatch''))))"

definition assertSessionNonce :: "relay_world \<Rightarrow> string \<Rightarrow> string \<Rightarrow> (store, api_exn, unit) proc" where
  "assertSessionNonce w sessionId nonce =
     seq (lift_sum (checkoutPaymentNonce w sessionId)) (\<lambda>expected.
     require (to_lower nonce = expected) (bad_request ''auth_nonce_mismatch''))"

definition pay_call_data :: "relay_world \<Rightarrow> pay_input \<Rightarrow> string" where
  "pay_call_data w i = rw_encode_pay w (py_merchant_id i, py_token i, py_auth i, py_ref i,
     py_auth_signature i, py_intent_signature i)"

definition pay_job :: "relay_world \<Rightarrow> string \<Rightarrow> pay_input \<Rightarrow> relay_job" where
  "pay_job w paymentsAddress i = Pay_Job \<lparr>
     rc_idempotency_key = relayKeyFor w PayWithAuthorization (pay_call_data w i),
     rc_to_address = paymentsAddress, rc_call_data = pay_call_data w i,
     rc_gas_limit = show_nat PAY_GAS_LIMIT, rc_merchant_internal_id = Some (py_merchant_internal_id i),
     rc_session_id = Some (py_session_id i), rc_subscription_internal_id = None, rc_broadcast = None\<rparr>"

definition submitPayWithAuthorization ::
  "relay_world \<Rightarrow> config \<Rightarrow> int \<Rightarrow> pay_input \<Rightarrow> (store, api_exn, submission_view) proc" where
  "submitPayWithAuthorization w cfg now i =
     (case cf_payments_address cfg of
        None \<Rightarrow> raise (Crash ''STRIMZ_PAYMENTS_ADDRESS is not configured'')
      | Some addr \<Rightarrow>
        if addr = [] then raise (Crash ''STRIMZ_PAYMENTS_ADDRESS is not configured'') else
        let callData = pay_call_data w i; key = relayKeyFor w PayWithAuthorization callData in
        seq (gets (alreadyPaidView (py_session_id i) key)) (\<lambda>paid.
        if paid \<noteq> None then ret (the paid) else
        seq (gets (existingView key)) (\<lambda>replay.
        if replay \<noteq> None then ret (the replay) else
        seq (assertMinimumAmount (pa_amount (py_auth i))) (\<lambda>_.
        seq (assertSessionPayable cfg now (py_session_id i) (py_merchant_id i) (pa_amount (py_auth i)) (py_token i)) (\<lambda>_.
        seq (assertSessionNonce w (py_session_id i) (pa_nonce (py_auth i))) (\<lambda>_.
        seq (simulate w addr callData) (\<lambda>_.
        enqueue w cfg now (pay_job w addr i) (py_merchant_internal_id i) (paymentAttemptScope (py_session_id i)))))))))"

definition enrol_call_data :: "relay_world \<Rightarrow> enrol_input \<Rightarrow> string" where
  "enrol_call_data w i = rw_encode_enrol w (en_merchant_id i, en_token i, en_amount i, en_interval i,
     en_start_at i, en_end_at i, en_permit i, en_permit_signature i, en_intent_signature i)"

definition enrol_job :: "relay_world \<Rightarrow> string \<Rightarrow> enrol_input \<Rightarrow> relay_job" where
  "enrol_job w addr i = Enrol_Job \<lparr>
     rc_idempotency_key = relayKeyFor w PermitAndCreateSubscription (enrol_call_data w i),
     rc_to_address = addr, rc_call_data = enrol_call_data w i,
     rc_gas_limit = show_nat ENROL_GAS_LIMIT, rc_merchant_internal_id = Some (en_merchant_internal_id i),
     rc_session_id = None, rc_subscription_internal_id = Some (en_subscription_internal_id i),
     rc_broadcast = None\<rparr>"

definition terms_request :: "enrol_input \<Rightarrow> enrolment_request" where
  "terms_request i = \<lparr>er_plan_id = en_subscription_internal_id i, er_payer = pd_owner (en_permit i),
     er_merchant_id = en_merchant_id i, er_token = en_token i, er_amount = en_amount i,
     er_interval = en_interval i, er_start_at = en_start_at i, er_end_at = en_end_at i\<rparr>"

definition assertPlanTerms :: "config \<Rightarrow> int \<Rightarrow> string \<Rightarrow> enrol_input \<Rightarrow> (store, api_exn, unit) proc" where
  "assertPlanTerms cfg now merchantInternalId i =
     seq (gets (activeForPayer (en_subscription_internal_id i) (pd_owner (en_permit i)))) (\<lambda>(active, subId).
     if active then raise (Http 409 ''subscription_exists'' (Fields [the subId]))
     else verify_terms cfg merchantInternalId (terms_request i) now)"

definition assertFunded :: "relay_world \<Rightarrow> enrol_input \<Rightarrow> (store, api_exn, unit) proc" where
  "assertFunded w i =
     seq (lift_sum (rw_balance w (en_token i) (pd_owner (en_permit i)))) (\<lambda>balance.
     require (en_amount i \<le> balance) (Http 400 ''insufficient_balance'' (Fields [show_int (en_amount i)])))"

definition submitPermitAndCreateSubscription ::
  "relay_world \<Rightarrow> config \<Rightarrow> int \<Rightarrow> enrol_input \<Rightarrow> (store, api_exn, submission_view) proc" where
  "submitPermitAndCreateSubscription w cfg now i =
     (case cf_subscriptions_address cfg of
        None \<Rightarrow> raise (Crash ''STRIMZ_SUBSCRIPTIONS_ADDRESS is not configured'')
      | Some addr \<Rightarrow>
        if addr = [] then raise (Crash ''STRIMZ_SUBSCRIPTIONS_ADDRESS is not configured'') else
        let callData = enrol_call_data w i; key = relayKeyFor w PermitAndCreateSubscription callData in
        seq (assertPlanTerms cfg now (en_merchant_internal_id i) i) (\<lambda>_.
        seq (gets (alreadyEnrolledView (en_subscription_internal_id i) (pd_owner (en_permit i)) key)) (\<lambda>enrolled.
        if enrolled \<noteq> None then ret (the enrolled) else
        seq (gets (existingView key)) (\<lambda>replay.
        if replay \<noteq> None then ret (the replay) else
        seq (assertMinimumAmount (en_amount i)) (\<lambda>_.
        seq (assertFunded w i) (\<lambda>_.
        seq (simulate w addr callData) (\<lambda>_.
        enqueue w cfg now (enrol_job w addr i) (en_merchant_internal_id i)
          (subscriptionAttemptScope (en_subscription_internal_id i) (pd_owner (en_permit i))))))))))"

section \<open>Lemmas on claims\<close>

text \<open>
  A job that can no longer move money: it failed for good, and either nothing was broadcast, or what was
  broadcast reverted, or it is not on the chain and its authorization has expired.
\<close>

definition dead :: "relay_world \<Rightarrow> queued_job \<Rightarrow> bool" where
  "dead w j \<longleftrightarrow> qj_state j = Q_Failed \<and>
     (case (job_call (qj_data j), job_broadcast (qj_data j)) of
        (Some c, Some b) \<Rightarrow>
          rw_receipt w (bc_tx_hash b) = Inr (Some Reverted_Receipt) \<or>
          (rw_receipt w (bc_tx_hash b) = Inr None \<and>
           (job_reason (qj_data j) = PermitAndCreateSubscription \<or>
            (\<exists>t. rw_latest_timestamp w = Inr t \<and> rw_valid_before w (rc_call_data c) \<le> t)))
      | _ \<Rightarrow> True)"

lemma assertAttemptReplaceable_pure: "snd (assertAttemptReplaceable w k s) = s"
  by (simp add: assertAttemptReplaceable_def split: option.split sum.split)

lemma assertAttemptReplaceable_Inr:
  "assertAttemptReplaceable w k s = (Inr (), s') \<longleftrightarrow>
     s' = s \<and> (\<forall>j. find_job k (relay_queue s) = Some j \<longrightarrow> dead w j)"
proof (cases "find_job k (relay_queue s)")
  case None
  then show ?thesis by (auto simp: assertAttemptReplaceable_def)
next
  case (Some j)
  show ?thesis
  proof (cases "qj_state j = Q_Failed \<and> job_call (qj_data j) \<noteq> None \<and> job_broadcast (qj_data j) \<noteq> None")
    case False
    with Some show ?thesis by (auto simp: assertAttemptReplaceable_def dead_def split: option.split)
  next
    case True
    then obtain c b where cb: "job_call (qj_data j) = Some c" "job_broadcast (qj_data j) = Some b" "qj_state j = Q_Failed"
      by auto
    show ?thesis
    proof (cases "rw_receipt w (bc_tx_hash b)")
      case (Inl e)
      with Some cb show ?thesis by (auto simp: assertAttemptReplaceable_def dead_def)
    next
      case (Inr r)
      with Some cb show ?thesis
        by (cases r; cases "the r"; cases "rw_latest_timestamp w")
          (auto simp: assertAttemptReplaceable_def dead_def)
    qed
  qed
qed

lemma claimAttempt_eq:
  "claimAttempt w scope key s =
     (case redis s scope of
        None \<Rightarrow> (Inr (), s\<lparr>redis := (redis s)(scope \<mapsto> key)\<rparr>)
      | Some k \<Rightarrow>
          if k = key then (Inr (), s)
          else case fst (assertAttemptReplaceable w k s) of
            Inl e \<Rightarrow> (Inl e, s)
          | Inr _ \<Rightarrow> (Inr (), s\<lparr>redis := (redis s)(scope \<mapsto> key)\<rparr>))"
proof (cases "redis s scope")
  case None
  then show ?thesis
    by (simp add: claimAttempt_def claim_after_read_def attempt_current_def attempt_claim_def seq_def)
next
  case (Some k)
  show ?thesis
  proof (cases "k = key")
    case True
    with Some show ?thesis by (simp add: claimAttempt_def claim_after_read_def attempt_current_def)
  next
    case False
    obtain r where r: "assertAttemptReplaceable w k s = (r, s)"
      using assertAttemptReplaceable_pure [of w k s] by (metis prod.collapse)
    with Some False show ?thesis
      by (cases r) (simp_all add: claimAttempt_def claim_after_read_def attempt_current_def attempt_claim_def seq_def)
  qed
qed

lemma claimAttempt_Inr:
  assumes "claimAttempt w scope key s = (Inr u, s')"
  shows "s' = s\<lparr>redis := (redis s)(scope \<mapsto> key)\<rparr> \<and>
    (\<forall>k j. redis s scope = Some k \<and> k \<noteq> key \<and> find_job k (relay_queue s) = Some j \<longrightarrow> dead w j)"
proof (cases "redis s scope")
  case None
  with assms show ?thesis by (simp add: claimAttempt_eq)
next
  case (Some k)
  show ?thesis
  proof (cases "k = key")
    case True
    then have "(redis s)(scope \<mapsto> key) = redis s" using Some by auto
    with Some True assms show ?thesis by (simp add: claimAttempt_eq)
  next
    case False
    with Some assms have "fst (assertAttemptReplaceable w k s) = Inr ()"
      by (auto simp: claimAttempt_eq split: sum.splits)
    then have "assertAttemptReplaceable w k s = (Inr (), s)"
      using assertAttemptReplaceable_pure [of w k s] by (metis prod.collapse)
    with Some False assms show ?thesis by (simp add: claimAttempt_eq assertAttemptReplaceable_Inr)
  qed
qed

lemma claimAttempt_Inl: "claimAttempt w scope key s = (Inl e, s') \<Longrightarrow> s' = s"
  by (auto simp: claimAttempt_eq split: option.splits if_splits sum.splits)

section \<open>Lemmas on the queue\<close>

text \<open>The budget touches the usage table and the outgoing mail only.\<close>

lemma consume_frame:
  assumes "consume cfg mid now s = (r, s')"
  shows "relay_queue s' = relay_queue s \<and> redis s' = redis s \<and> sessions s' = sessions s"
proof -
  let ?I = "\<lambda>t. relay_queue t = relay_queue s \<and> redis t = redis s \<and> sessions t = sessions s"
  have alert: "?I t \<Longrightarrow> ?I (alert_email cfg m n q x t)" for m n q x t
    by (simp add: alert_email_def split: option.split)
  have a: "keeps ?I (alertOnce cfg m d ex n q t)" for m d ex n q t
    unfolding alertOnce_def Let_def by (intro keeps_intros) (auto simp: alert)
  have c: "keeps ?I (\<lambda>s. case count_submission m d q s of (row, s') \<Rightarrow> (Inr row, s'))" for m d q
    by (rule keepsI) (auto simp: count_submission_def patch_usage_of_def split: option.split)
  have "keeps ?I (consume cfg mid now)"
    unfolding consume_def find_merchant_def Let_def by (intro keeps_intros a c)
  from keepsD [OF this _ assms] show ?thesis by simp
qed

definition queued :: "int \<Rightarrow> relay_job \<Rightarrow> queued_job" where
  "queued now j = \<lparr>qj_id = job_key j, qj_data = j, qj_state = Q_Waiting, qj_returnvalue = None,
     qj_failed_reason = None, qj_attempts_made = 0, qj_timestamp = now\<rparr>"

lemma queue_add_new: "find_job (job_key j) q = None \<Longrightarrow> queue_add now j q = q @ [queued now j]"
  by (simp add: queue_add_def queued_def)

lemma enqueue_Inr:
  assumes "enqueue w cfg now job mid scope s = (Inr v, s')" and "find_job (job_key job) (relay_queue s) = None"
  shows "relay_queue s' = relay_queue s @ [queued now job] \<and> redis s' = (redis s)(scope \<mapsto> job_key job) \<and>
    sessions s' = sessions s \<and> relay_job_ok job \<and> v = viewFromJob (queued now job) \<and>
    (\<forall>k j. redis s scope = Some k \<and> k \<noteq> job_key job \<and> find_job k (relay_queue s) = Some j \<longrightarrow> dead w j)"
proof -
  from assms(1) have ok: "relay_job_ok job"
    by (auto simp: enqueue_def parse_relay_job_def split: if_splits)
  with assms(1) have "seq (claimAttempt w scope (job_key job)) (\<lambda>_. seq (consume cfg mid now)
      (\<lambda>_. seq (modify (\<lambda>s. s\<lparr>relay_queue := queue_add now job (relay_queue s)\<rparr>))
         (\<lambda>_. seq (gets (existingView (job_key job))) (or_raise (Crash ''job missing''))))) s = (Inr v, s')"
    by (simp add: enqueue_def parse_relay_job_def)
  then obtain s1 u where c: "claimAttempt w scope (job_key job) s = (Inr u, s1)"
    and r1: "seq (consume cfg mid now) (\<lambda>_. seq (modify (\<lambda>s. s\<lparr>relay_queue := queue_add now job (relay_queue s)\<rparr>))
         (\<lambda>_. seq (gets (existingView (job_key job))) (or_raise (Crash ''job missing'')))) s1 = (Inr v, s')"
    by (rule seq_InrE)
  note claim = claimAttempt_Inr [OF c]
  from r1 obtain s2 u2 where b: "consume cfg mid now s1 = (Inr u2, s2)"
    and r2: "seq (modify (\<lambda>s. s\<lparr>relay_queue := queue_add now job (relay_queue s)\<rparr>))
         (\<lambda>_. seq (gets (existingView (job_key job))) (or_raise (Crash ''job missing'' :: api_exn))) s2 = (Inr v, s')"
    by (rule seq_InrE)
  note frame = consume_frame [OF b]
  have q: "relay_queue s2 = relay_queue s" using frame claim by simp
  have find: "find_job (job_key job) (relay_queue s @ [queued now job]) = Some (queued now job)"
    using assms(2) by (simp add: find_job_def queued_def)
  show ?thesis
    using r2 q claim frame ok find assms(2)
    by (auto simp: queue_add_new existingView_def)
qed

text \<open>An enqueued submission has been counted: its merchant had budget left on that day and has used one more.\<close>

lemma enqueue_counted:
  assumes "enqueue w cfg now job mid scope s = (Inr v, s')"
  shows "\<exists>m. find_row m_id mid (merchants s) = Some m \<and>
    used mid (utcDay now) s < RELAY_DAILY_QUOTA (m_tier m) \<and> used mid (utcDay now) s' = used mid (utcDay now) s + 1"
proof -
  from assms have "relay_job_ok job" by (auto simp: enqueue_def parse_relay_job_def split: if_splits)
  with assms obtain s1 u s2 u2 where c: "claimAttempt w scope (job_key job) s = (Inr u, s1)"
    and b: "consume cfg mid now s1 = (Inr u2, s2)" and s': "s' = s2\<lparr>relay_queue := queue_add now job (relay_queue s2)\<rparr>"
    by (auto simp: enqueue_def parse_relay_job_def seq_Inr_iff or_raise_def split: option.splits)
  have s1: "merchants s1 = merchants s" "usage s1 = usage s" using claimAttempt_Inr [OF c] by simp_all
  obtain m where m: "find_row m_id mid (merchants s1) = Some m"
    using b by (auto simp: consume_def find_merchant_def seq_assoc split: option.splits)
  have "used mid (utcDay now) s' = used mid (utcDay now) s2" "used mid (utcDay now) s1 = used mid (utcDay now) s"
    by (simp_all add: used_def find_usage_def s' s1(2))
  with consume_step [OF m b, of mid "utcDay now"] m s1(1) show ?thesis by auto
qed

lemma enqueue_Inl:
  assumes "enqueue w cfg now job mid scope s = (Inl e, s')"
  shows "relay_queue s' = relay_queue s \<and> sessions s' = sessions s"
proof (cases "relay_job_ok job")
  case False
  with assms show ?thesis by (simp add: enqueue_def parse_relay_job_def)
next
  case True
  obtain r1 s1 where c: "claimAttempt w scope (job_key job) s = (r1, s1)" by fastforce
  have f1: "relay_queue s1 = relay_queue s \<and> sessions s1 = sessions s"
    using c claimAttempt_Inr claimAttempt_Inl by (cases r1) fastforce+
  show ?thesis
  proof (cases r1)
    case (Inl x)
    with assms True c f1 show ?thesis by (simp add: enqueue_def parse_relay_job_def seq_Inl)
  next
    case (Inr u)
    obtain r2 s2 where b: "consume cfg mid now s1 = (r2, s2)" by fastforce
    note frame = consume_frame [OF b]
    obtain j where "find_job (job_key job) (queue_add now job (relay_queue s2)) = Some j"
      using find_job_add_same by blast
    then have "existingView (job_key job) (s2\<lparr>relay_queue := queue_add now job (relay_queue s2)\<rparr>) = Some (viewFromJob j)"
      by (simp add: existingView_def)
    then have "r2 = Inr x \<Longrightarrow> False" for x
      using assms True c Inr b by (simp add: enqueue_def parse_relay_job_def seq_Inr)
    with assms True c Inr b frame f1 show ?thesis
      by (cases r2) (auto simp: enqueue_def parse_relay_job_def seq_Inr seq_Inl)
  qed
qed

section \<open>Lemmas on submissions\<close>

lemma assertMinimumAmount_result:
  "assertMinimumAmount a s = (r, s') \<Longrightarrow> s' = s \<and> (r = Inr () \<longrightarrow> MINIMUM_PAYMENT_AMOUNT \<le> a)"
  by (auto simp: assertMinimumAmount_def split: if_splits)

lemma simulate_result: "simulate w a d s = (r, s') \<Longrightarrow> s' = s \<and> (r = Inr () \<longrightarrow> rw_simulate w a d = Sim_Ok)"
  by (auto simp: simulate_def split: simulation.splits)

text \<open>What a payment has to be before the relay spends gas on it.\<close>

definition session_payable :: "config \<Rightarrow> int \<Rightarrow> string \<Rightarrow> int \<Rightarrow> int \<Rightarrow> string \<Rightarrow> store \<Rightarrow> bool" where
  "session_payable cfg now sessionId merchantId amount token s \<longleftrightarrow>
     (\<exists>x. find_session sessionId s = Some x \<and> ps_status x \<in> {Created, Awaiting_Payment, Confirmed} \<and>
        now \<le> ps_expires_at x \<and>
        map_option int (Option.bind (find_row m_id (ps_merchant_id x) (merchants s)) m_onchain_merchant_id) = Some merchantId \<and>
        BigInt (ps_amount x) = amount \<and> tokenAddressForCurrency cfg (ps_currency x) = Some (to_lower token))"

lemma assertSessionPayable_result:
  assumes "assertSessionPayable cfg now sid mid amount token s = (r, s')"
  shows "s' = s \<and> (r = Inr () \<longrightarrow> session_payable cfg now sid mid amount token s)"
proof (cases "find_session sid s")
  case None
  with assms show ?thesis by (auto simp: assertSessionPayable_def)
next
  case (Some x)
  show ?thesis
  proof (cases "ps_status x \<in> {Created, Awaiting_Payment, Confirmed}")
    case True
    with assms Some show ?thesis
      by (auto simp: assertSessionPayable_def session_payable_def split: option.splits if_splits)
  next
    case False
    with assms Some show ?thesis
      by (cases "ps_status x") (auto simp: assertSessionPayable_def)
  qed
qed

lemma assertSessionNonce_result:
  "assertSessionNonce w sid nonce s = (r, s') \<Longrightarrow>
   s' = s \<and> (r = Inr () \<longrightarrow> checkoutPaymentNonce w sid = Inr (to_lower nonce))"
  by (auto simp: assertSessionNonce_def split: sum.splits if_splits)

definition pay_gate :: "relay_world \<Rightarrow> config \<Rightarrow> int \<Rightarrow> string \<Rightarrow> pay_input \<Rightarrow> store \<Rightarrow> bool" where
  "pay_gate w cfg now addr i s \<longleftrightarrow>
     cf_payments_address cfg = Some addr \<and>
     MINIMUM_PAYMENT_AMOUNT \<le> pa_amount (py_auth i) \<and>
     session_payable cfg now (py_session_id i) (py_merchant_id i) (pa_amount (py_auth i)) (py_token i) s \<and>
     checkoutPaymentNonce w (py_session_id i) = Inr (to_lower (pa_nonce (py_auth i))) \<and>
     rw_simulate w addr (pay_call_data w i) = Sim_Ok"

abbreviation pay_key :: "relay_world \<Rightarrow> pay_input \<Rightarrow> string" where
  "pay_key w i \<equiv> relayKeyFor w PayWithAuthorization (pay_call_data w i)"

lemma seq_cases:
  assumes "seq m k s = (r, s')" and "\<And>x t. m s = (x, t) \<Longrightarrow> t = s \<and> (x = Inr () \<longrightarrow> P)"
  obtains (stop) e where "r = Inl e" "s' = s" | (go) "P" "k () s = (r, s')"
proof (cases "m s")
  case (Pair x t)
  from assms(2) [OF this] assms(1) Pair show thesis
    by (cases x) (auto simp: seq_Inr seq_Inl intro: stop go)
qed

lemma submitPay_run:
  assumes run: "submitPayWithAuthorization w cfg now i s = (r, s')"
  obtains (early) "s' = s"
      "\<And>v. r = Inr v \<Longrightarrow> alreadyPaidView (py_session_id i) (pay_key w i) s = Some v \<or> existingView (pay_key w i) s = Some v"
    | (enqueued) addr where "pay_gate w cfg now addr i s" "alreadyPaidView (py_session_id i) (pay_key w i) s = None"
      "find_job (pay_key w i) (relay_queue s) = None"
      "enqueue w cfg now (pay_job w addr i) (py_merchant_internal_id i) (paymentAttemptScope (py_session_id i)) s = (r, s')"
proof (cases "cf_payments_address cfg = None \<or> cf_payments_address cfg = Some [] \<or>
    alreadyPaidView (py_session_id i) (pay_key w i) s \<noteq> None \<or> existingView (pay_key w i) s \<noteq> None")
  case True
  with run show thesis
    by (intro early) (auto simp: submitPayWithAuthorization_def Let_def split: option.splits if_splits)
next
  case False
  then obtain addr where addr: "cf_payments_address cfg = Some addr" "addr \<noteq> []" by auto
  from False have free: "alreadyPaidView (py_session_id i) (pay_key w i) s = None"
    "find_job (pay_key w i) (relay_queue s) = None" by (auto simp: existingView_def)
  let ?pay = "assertSessionPayable cfg now (py_session_id i) (py_merchant_id i) (pa_amount (py_auth i)) (py_token i)"
  from run addr False have "seq (assertMinimumAmount (pa_amount (py_auth i))) (\<lambda>_. seq ?pay (\<lambda>_.
      seq (assertSessionNonce w (py_session_id i) (pa_nonce (py_auth i))) (\<lambda>_.
      seq (simulate w addr (pay_call_data w i)) (\<lambda>_.
      enqueue w cfg now (pay_job w addr i) (py_merchant_internal_id i) (paymentAttemptScope (py_session_id i)))))) s = (r, s')"
    by (simp add: submitPayWithAuthorization_def Let_def)
  then show thesis
  proof (rule seq_cases [OF _ assertMinimumAmount_result])
    assume min: "MINIMUM_PAYMENT_AMOUNT \<le> pa_amount (py_auth i)"
    assume "seq ?pay (\<lambda>_. seq (assertSessionNonce w (py_session_id i) (pa_nonce (py_auth i))) (\<lambda>_.
      seq (simulate w addr (pay_call_data w i)) (\<lambda>_.
      enqueue w cfg now (pay_job w addr i) (py_merchant_internal_id i) (paymentAttemptScope (py_session_id i))))) s = (r, s')"
    then show thesis
    proof (rule seq_cases [OF _ assertSessionPayable_result])
      assume pay: "session_payable cfg now (py_session_id i) (py_merchant_id i) (pa_amount (py_auth i)) (py_token i) s"
      assume "seq (assertSessionNonce w (py_session_id i) (pa_nonce (py_auth i))) (\<lambda>_.
        seq (simulate w addr (pay_call_data w i)) (\<lambda>_.
        enqueue w cfg now (pay_job w addr i) (py_merchant_internal_id i) (paymentAttemptScope (py_session_id i)))) s = (r, s')"
      then show thesis
      proof (rule seq_cases [OF _ assertSessionNonce_result])
        assume nonce: "checkoutPaymentNonce w (py_session_id i) = Inr (to_lower (pa_nonce (py_auth i)))"
        assume "seq (simulate w addr (pay_call_data w i)) (\<lambda>_.
          enqueue w cfg now (pay_job w addr i) (py_merchant_internal_id i) (paymentAttemptScope (py_session_id i))) s = (r, s')"
        then show thesis
        proof (rule seq_cases [OF _ simulate_result])
          assume "rw_simulate w addr (pay_call_data w i) = Sim_Ok"
          with min pay nonce addr free show ?thesis
            if "enqueue w cfg now (pay_job w addr i) (py_merchant_internal_id i) (paymentAttemptScope (py_session_id i)) s = (r, s')"
            using that by (intro enqueued) (simp_all add: pay_gate_def)
        qed (use early in auto)
      qed (use early in auto)
    qed (use early in auto)
  qed (use early in auto)
qed

section \<open>One live attempt per checkout\<close>

text \<open>
  The jobs in the queue that collect the payment of a session, and the invariant of the attempt pointers:
  of those, every one that can still move money is the one the session's pointer names.
\<close>

fun pays_session :: "relay_job \<Rightarrow> string \<Rightarrow> bool" where
  "pays_session (Pay_Job c) sid = (rc_session_id c = Some sid)"
| "pays_session _ sid = False"

definition attempts_ok :: "relay_world \<Rightarrow> store \<Rightarrow> bool" where
  "attempts_ok w s \<longleftrightarrow>
     distinct (map qj_id (relay_queue s)) \<and>
     (\<forall>j\<in>set (relay_queue s). qj_id j = job_key (qj_data j)) \<and>
     (\<forall>j\<in>set (relay_queue s). \<forall>sid. pays_session (qj_data j) sid \<and> \<not> dead w j \<longrightarrow>
        redis s (paymentAttemptScope sid) = Some (qj_id j))"

lemma paymentAttemptScope_inj [simp]: "paymentAttemptScope a = paymentAttemptScope b \<longleftrightarrow> a = b"
  by (simp add: paymentAttemptScope_def)

lemma scopes_disjoint [simp]: "paymentAttemptScope a \<noteq> subscriptionAttemptScope p q"
  by (simp add: paymentAttemptScope_def subscriptionAttemptScope_def)

lemma attempts_ok_unique:
  assumes "attempts_ok w s" and "j1 \<in> set (relay_queue s)" "j2 \<in> set (relay_queue s)"
    and "pays_session (qj_data j1) sid" "pays_session (qj_data j2) sid" "\<not> dead w j1" "\<not> dead w j2"
  shows "j1 = j2"
proof -
  have "redis s (paymentAttemptScope sid) = Some (qj_id j1)" "redis s (paymentAttemptScope sid) = Some (qj_id j2)"
    using assms unfolding attempts_ok_def by blast+
  then have "qj_id j1 = qj_id j2" by simp
  moreover have "distinct (map qj_id (relay_queue s))" using assms(1) by (simp add: attempts_ok_def)
  ultimately show ?thesis using assms(2,3) by (simp add: distinct_map inj_on_def)
qed

lemma find_job_mem:
  "distinct (map qj_id q) \<Longrightarrow> j \<in> set q \<Longrightarrow> find_job (qj_id j) q = Some j"
proof -
  assume d: "distinct (map qj_id q)" and j: "j \<in> set q"
  then obtain x where x: "find_row qj_id (qj_id j) q = Some x"
    by (cases "find_row qj_id (qj_id j) q") (auto simp: find_row_None)
  from distinct_key_eq [OF d x j] x show ?thesis by (simp add: find_job_def)
qed

text \<open>Moving a pointer away from a job that is dead, and adding the job the pointer now names.\<close>

lemma attempts_ok_claim:
  assumes ok: "attempts_ok w s"
    and dead: "\<forall>k j. redis s scope = Some k \<and> k \<noteq> key \<and> find_job k (relay_queue s) = Some j \<longrightarrow> dead w j"
    and s': "redis s' = (redis s)(scope \<mapsto> key)" "relay_queue s' = relay_queue s @ new"
    and new: "new = [] \<or> (new = [queued now job] \<and> key = job_key job \<and> find_job key (relay_queue s) = None \<and>
                (\<forall>sid. pays_session job sid \<longrightarrow> scope = paymentAttemptScope sid))"
  shows "attempts_ok w s'"
proof -
  have d: "distinct (map qj_id (relay_queue s))" using ok by (simp add: attempts_ok_def)
  have "distinct (map qj_id (relay_queue s'))"
    using d new by (auto simp: s' queued_def find_job_def find_row_None)
  moreover have "\<forall>j\<in>set (relay_queue s'). qj_id j = job_key (qj_data j)"
    using ok new by (auto simp: s' attempts_ok_def queued_def)
  moreover have "redis s' (paymentAttemptScope sid) = Some (qj_id j)"
    if j: "j \<in> set (relay_queue s')" "pays_session (qj_data j) sid" "\<not> dead w j" for j sid
  proof (cases "j \<in> set (relay_queue s)")
    case True
    with ok j have p: "redis s (paymentAttemptScope sid) = Some (qj_id j)" by (simp add: attempts_ok_def)
    show ?thesis
    proof (cases "scope = paymentAttemptScope sid")
      case False
      with p s' show ?thesis by simp
    next
      case same: True
      have "qj_id j = key"
        using dead p same find_job_mem [OF d True] j(3) by blast
      with same s' show ?thesis by simp
    qed
  next
    case False
    with j(1) s'(2) new have "j = queued now job" "key = job_key job"
      "\<forall>sid. pays_session job sid \<longrightarrow> scope = paymentAttemptScope sid" by auto
    with j(2) s'(1) show ?thesis by (simp add: queued_def)
  qed
  ultimately show ?thesis by (simp add: attempts_ok_def)
qed

lemma enqueue_attempts_ok:
  assumes ok: "attempts_ok w s" and free: "find_job (job_key job) (relay_queue s) = None"
    and scope: "\<forall>sid. pays_session job sid \<longrightarrow> scope = paymentAttemptScope sid"
    and run: "enqueue w cfg now job mid scope s = (r, s')"
  shows "attempts_ok w s'"
proof (cases r)
  case (Inr v)
  note res = enqueue_Inr [OF run [unfolded Inr] free]
  show ?thesis
    by (rule attempts_ok_claim [OF ok, where new = "[queued now job]" and job = job and now = now and key = "job_key job" and scope = scope])
      (use res free scope in auto)
next
  case (Inl e)
  show ?thesis
  proof (cases "relay_job_ok job")
    case False
    with run Inl ok show ?thesis by (simp add: enqueue_def parse_relay_job_def)
  next
    case True
    obtain r1 s1 where c: "claimAttempt w scope (job_key job) s = (r1, s1)" by fastforce
    show ?thesis
    proof (cases r1)
      case r1: (Inl x)
      with run Inl True c have "s' = s1" by (simp add: enqueue_def parse_relay_job_def seq_Inl)
      with c r1 claimAttempt_Inl ok show ?thesis by blast
    next
      case r1: (Inr u)
      note claim = claimAttempt_Inr [OF c [unfolded r1]]
      obtain r2 s2 where b: "consume cfg mid now s1 = (r2, s2)" by fastforce
      note frame = consume_frame [OF b]
      have "relay_queue s' = relay_queue s" using enqueue_Inl run Inl by blast
      moreover have "redis s' = redis s2"
      proof (cases r2)
        case (Inl y)
        with run True c r1 b \<open>r = Inl e\<close> show ?thesis by (simp add: enqueue_def parse_relay_job_def seq_Inr seq_Inl)
      next
        case (Inr y)
        with run True c r1 b \<open>r = Inl e\<close> show ?thesis
          by (auto simp: enqueue_def parse_relay_job_def seq_Inr split: option.splits)
      qed
      ultimately show ?thesis
        by (intro attempts_ok_claim [OF ok, where new = "[]" and key = "job_key job" and scope = scope and s' = s'])
          (use claim frame in auto)
    qed
  qed
qed

section \<open>Properties\<close>

text \<open>
  C4. The relay only spends gas on a payment that can count: a payment is queued only for a session that is
  open and not expired, of the very on-chain merchant, amount (at least the minimum) and token the payer signed, with
  a nonce bound to the session and a call that passes a dry run; the merchant had submissions left on that UTC day under
  the quota of their plan and has exactly one less after; and exactly one job is added.
\<close>

theorem relay_payment_gate:
  assumes "submitPayWithAuthorization w cfg now i s = (Inr v, s')" and "relay_queue s' \<noteq> relay_queue s"
  shows "\<exists>addr x m. cf_payments_address cfg = Some addr \<and> relay_queue s' = relay_queue s @ [queued now (pay_job w addr i)] \<and>
    find_session (py_session_id i) s = Some x \<and> ps_status x \<in> {Created, Awaiting_Payment} \<and> now \<le> ps_expires_at x \<and>
    map_option int (Option.bind (find_row m_id (ps_merchant_id x) (merchants s)) m_onchain_merchant_id) = Some (py_merchant_id i) \<and>
    BigInt (ps_amount x) = pa_amount (py_auth i) \<and> MINIMUM_PAYMENT_AMOUNT \<le> pa_amount (py_auth i) \<and>
    tokenAddressForCurrency cfg (ps_currency x) = Some (to_lower (py_token i)) \<and>
    checkoutPaymentNonce w (py_session_id i) = Inr (to_lower (pa_nonce (py_auth i))) \<and>
    rw_simulate w addr (pay_call_data w i) = Sim_Ok \<and>
    find_row m_id (py_merchant_internal_id i) (merchants s) = Some m \<and>
    used (py_merchant_internal_id i) (utcDay now) s < RELAY_DAILY_QUOTA (m_tier m) \<and>
    used (py_merchant_internal_id i) (utcDay now) s' = used (py_merchant_internal_id i) (utcDay now) s + 1"
proof (rule submitPay_run [OF assms(1)])
  assume "s' = s"
  with assms(2) show ?thesis by simp
next
  fix addr
  assume gate: "pay_gate w cfg now addr i s" and unpaid: "alreadyPaidView (py_session_id i) (pay_key w i) s = None"
    and free: "find_job (pay_key w i) (relay_queue s) = None"
    and run: "enqueue w cfg now (pay_job w addr i) (py_merchant_internal_id i) (paymentAttemptScope (py_session_id i)) s = (Inr v, s')"
  have key: "job_key (pay_job w addr i) = pay_key w i" by (simp add: pay_job_def)
  from gate obtain x where x: "find_session (py_session_id i) s = Some x" "ps_status x \<in> {Created, Awaiting_Payment, Confirmed}"
    by (auto simp: pay_gate_def session_payable_def)
  with unpaid have st: "ps_status x \<in> {Created, Awaiting_Payment}" by (auto simp: alreadyPaidView_def split: if_splits)
  have q: "relay_queue s' = relay_queue s @ [queued now (pay_job w addr i)]"
    using enqueue_Inr [OF run] free key by simp
  have "x' = x" if "find_session (py_session_id i) s = Some x'" for x' using that x(1) by simp
  with gate q x(1) st enqueue_counted [OF run] show ?thesis unfolding pay_gate_def session_payable_def by blast
qed

text \<open>
  C5. No double payment through the relay: when the queue holds at most one job per session that can still
  move money (it has not failed for good, or its transaction may yet be mined), the same is true after any
  submission, whatever it answers.
\<close>

theorem one_live_payment_attempt:
  assumes "attempts_ok w s" and "submitPayWithAuthorization w cfg now i s = (r, s')"
  shows "attempts_ok w s' \<and>
    (\<forall>sid. \<forall>j1\<in>set (relay_queue s'). \<forall>j2\<in>set (relay_queue s').
       pays_session (qj_data j1) sid \<and> pays_session (qj_data j2) sid \<and> \<not> dead w j1 \<and> \<not> dead w j2 \<longrightarrow> j1 = j2)"
proof -
  from assms(2) have "attempts_ok w s'"
  proof (rule submitPay_run)
    assume "s' = s"
    with assms(1) show ?thesis by simp
  next
    fix addr
    assume "find_job (pay_key w i) (relay_queue s) = None"
      and run: "enqueue w cfg now (pay_job w addr i) (py_merchant_internal_id i) (paymentAttemptScope (py_session_id i)) s = (r, s')"
    then show ?thesis
      by (intro enqueue_attempts_ok [OF assms(1) _ _ run]) (simp_all add: pay_job_def)
  qed
  with attempts_ok_unique show ?thesis by blast
qed

text \<open>
  Replays are harmless: submitting a signed payment that is in the queue already answers with the state of
  that job and changes nothing, neither queue, pointers nor budget.
\<close>

theorem relay_replay_idempotent:
  assumes "find_job (pay_key w i) (relay_queue s) = Some j" and "cf_payments_address cfg = Some addr" and "addr \<noteq> []"
  shows "\<exists>v. submitPayWithAuthorization w cfg now i s = (Inr v, s) \<and>
    (v = viewFromJob j \<or> (\<exists>x. find_session (py_session_id i) s = Some x \<and> ps_status x = Confirmed \<and>
       v = settled_view (pay_key w i) (ps_onchain_tx_hash x) PayWithAuthorization (ps_updated_at x)))"
  using assms
  by (cases "alreadyPaidView (py_session_id i) (pay_key w i) s")
    (auto simp: submitPayWithAuthorization_def existingView_def Let_def alreadyPaidView_def split: option.splits if_splits)

text \<open>
  A refused payment queues nothing and leaves every session as it was.
\<close>

theorem relay_refusal_enqueues_nothing:
  assumes "submitPayWithAuthorization w cfg now i s = (Inl e, s')"
  shows "relay_queue s' = relay_queue s \<and> sessions s' = sessions s"
proof (rule submitPay_run [OF assms])
  assume "s' = s"
  then show ?thesis by simp
next
  fix addr
  assume "enqueue w cfg now (pay_job w addr i) (py_merchant_internal_id i) (paymentAttemptScope (py_session_id i)) s = (Inl e, s')"
  then show ?thesis by (rule enqueue_Inl)
qed

text \<open>
  A submission is only shown to the merchant it was made for, and, when the caller names a session or
  plan, only if it was made for that.
\<close>

theorem submission_scope_isolated:
  assumes "getByIdempotencyKey key scope s = Some v"
  shows "\<exists>j\<in>set (relay_queue s). v = viewFromJob j \<and> job_merchant (qj_data j) = Some (sc_merchant_internal_id scope) \<and>
    (truthy (sc_session_id scope) \<longrightarrow> (\<exists>c. job_call (qj_data j) = Some c \<and>
       sc_session_id scope \<in> {rc_session_id c, rc_subscription_internal_id c}))"
proof -
  from assms obtain j where j: "find_job key (relay_queue s) = Some j" "jobInScope (qj_data j) scope" "v = viewFromJob j"
    by (auto simp: getByIdempotencyKey_def split: option.splits if_splits)
  then have "j \<in> set (relay_queue s)" by (auto simp: find_job_def dest: find_row_Some)
  with j show ?thesis by (intro bexI [of _ j]) (cases "qj_data j"; auto)+
qed

text \<open>
  The relay only enrols on the plan's terms: an enrolment is queued only when the payer has no live
  subscription to the plan, the signed request agrees with an active plan of the calling merchant (start of
  the trial included), the payer holds the amount and the call passes a dry run.
\<close>

theorem relay_enrolment_gate:
  assumes run: "submitPermitAndCreateSubscription w cfg now i s = (Inr v, s')" and new: "relay_queue s' \<noteq> relay_queue s"
  shows "activeForPayer (en_subscription_internal_id i) (pd_owner (en_permit i)) s = (False, None) \<and>
    verify_terms cfg (en_merchant_internal_id i) (terms_request i) now s = (Inr (), s) \<and>
    (\<exists>b. rw_balance w (en_token i) (pd_owner (en_permit i)) = Inr b \<and> en_amount i \<le> b) \<and>
    (\<exists>addr. rw_simulate w addr (enrol_call_data w i) = Sim_Ok \<and> relay_queue s' = relay_queue s @ [queued now (enrol_job w addr i)])"
proof -
  let ?key = "relayKeyFor w PermitAndCreateSubscription (enrol_call_data w i)"
  let ?owner = "pd_owner (en_permit i)" and ?plan = "en_subscription_internal_id i"
  from run obtain addr where addr: "cf_subscriptions_address cfg = Some addr" "addr \<noteq> []"
    by (auto simp: submitPermitAndCreateSubscription_def split: option.splits if_splits)
  define rest where "rest = seq (gets (alreadyEnrolledView ?plan ?owner ?key)) (\<lambda>enrolled.
        if enrolled \<noteq> None then ret (the enrolled) else
        seq (gets (existingView ?key)) (\<lambda>replay.
        if replay \<noteq> None then ret (the replay) else
        seq (assertMinimumAmount (en_amount i)) (\<lambda>_.
        seq (assertFunded w i) (\<lambda>_.
        seq (simulate w addr (enrol_call_data w i)) (\<lambda>_.
        enqueue w cfg now (enrol_job w addr i) (en_merchant_internal_id i) (subscriptionAttemptScope ?plan ?owner))))))"
  from run addr have "seq (assertPlanTerms cfg now (en_merchant_internal_id i) i) (\<lambda>_. rest) s = (Inr v, s')"
    by (simp add: submitPermitAndCreateSubscription_def Let_def rest_def)
  then obtain u t where terms: "assertPlanTerms cfg now (en_merchant_internal_id i) i s = (Inr u, t)" and r: "rest t = (Inr v, s')"
    by (rule seq_InrE)
  from terms have ok: "activeForPayer ?plan ?owner s = (False, None)"
    "verify_terms cfg (en_merchant_internal_id i) (terms_request i) now s = (Inr u, t)"
    by (auto simp: assertPlanTerms_def activeForPayer_def Let_def split: if_splits)
  have t: "t = s" using ok(2) verify_terms_pure by (metis snd_conv)
  from r new t have free: "alreadyEnrolledView ?plan ?owner ?key s = None" "existingView ?key s = None"
    by (auto simp: rest_def split: if_splits)
  with r t have "seq (assertMinimumAmount (en_amount i)) (\<lambda>_. seq (assertFunded w i) (\<lambda>_.
      seq (simulate w addr (enrol_call_data w i)) (\<lambda>_.
      enqueue w cfg now (enrol_job w addr i) (en_merchant_internal_id i) (subscriptionAttemptScope ?plan ?owner)))) s = (Inr v, s')"
    by (simp add: rest_def)
  then obtain b where "rw_balance w (en_token i) ?owner = Inr b" "en_amount i \<le> b"
    and sim: "rw_simulate w addr (enrol_call_data w i) = Sim_Ok"
    and enq: "enqueue w cfg now (enrol_job w addr i) (en_merchant_internal_id i) (subscriptionAttemptScope ?plan ?owner) s = (Inr v, s')"
    by (auto simp: assertMinimumAmount_def assertFunded_def simulate_def seq_def split: sum.splits simulation.splits if_splits)
  moreover have "relay_queue s' = relay_queue s @ [queued now (enrol_job w addr i)]"
    using enqueue_Inr [OF enq] free(2) by (simp add: enrol_job_def existingView_def)
  ultimately show ?thesis using ok t by auto
qed

section \<open>Witnesses\<close>

text \<open>A world in which the codec and the hash are constant functions and every dry run passes.\<close>

definition sample_world :: relay_world where
  [sample_defs]: "sample_world = \<lparr>
     rw_encode_pay = (\<lambda>_. ''0xab''), rw_encode_enrol = (\<lambda>_. ''0xcd''), rw_encode_strings = (\<lambda>a b. a @ b),
     rw_valid_before = (\<lambda>_. 5000), rw_keccak = (\<lambda>_. sample_hash), rw_simulate = (\<lambda>_ _. Sim_Ok),
     rw_receipt = (\<lambda>_. Inr None), rw_latest_timestamp = Inr 10, rw_balance = (\<lambda>_ _. Inr 6000000)\<rparr>"

definition sample_signature :: vrs_signature where
  [sample_defs]: "sample_signature = \<lparr>vs_v = 27, vs_r = sample_hash, vs_s = sample_hash\<rparr>"

definition sample_payment :: pay_input where
  [sample_defs]: "sample_payment = \<lparr>py_merchant_id = 7, py_token = sample_address,
     py_auth = \<lparr>pa_from = other_address, pa_amount = 2000000, pa_valid_after = 0, pa_valid_before = 5000,
                pa_nonce = sample_hash\<rparr>,
     py_ref = sample_hash, py_auth_signature = sample_signature, py_intent_signature = sample_signature,
     py_merchant_internal_id = ''m1'', py_session_id = ''ps1''\<rparr>"

lemma lower_sample_hash [simp]: "to_lower sample_hash = sample_hash"
  by (simp add: sample_hash_def to_lower_def ascii_lower_def)

lemma sample_hash_ok [simp]: "tx_hash_ok sample_hash"
  by (simp add: sample_hash_def tx_hash_ok_def hex_of_length_def hex_body_def starts_with_def is_hex_char_def
      list_all_iff Let_def)

lemma sample_pay_job_ok: "relay_job_ok (pay_job sample_world sample_address sample_payment)"
  by (simp add: pay_job_def relay_call_ok_def relayKeyFor_def pay_call_data_def sample_world_def PAY_GAS_LIMIT_def
      calldata_ok_def hex_body_def starts_with_def is_hex_char_def Let_def show_nat.simps token_amount_ok_def is_digit_def)

lemma sample_gate: "session_payable sample_config now ''ps1'' 7 2000000 sample_address sample_store"
  if "now \<le> 1800000"
  using that
  by (simp add: session_payable_def find_session_def sample_store_def empty_store_def sample_session_def sample_merchant_def
      sample_config_def tokenAddressForCurrency_def BigInt_def big_nat_def digit_of_def)
    (simp add: sample_address_def)

lemma sample_submission:
  obtains v s' where "submitPayWithAuthorization sample_world sample_config 100 sample_payment sample_store = (Inr v, s')"
    "relay_queue s' = [queued 100 (pay_job sample_world sample_address sample_payment)]"
proof -
  let ?job = "pay_job sample_world sample_address sample_payment" and ?s = sample_store
  have addr: "cf_payments_address sample_config = Some sample_address" "sample_address \<noteq> []"
    by (simp_all add: sample_config_def sample_address_def)
  have i: "py_session_id sample_payment = ''ps1''" "py_merchant_id sample_payment = 7" "py_token sample_payment = sample_address"
    "pa_amount (py_auth sample_payment) = 2000000" "pa_nonce (py_auth sample_payment) = sample_hash"
    "py_merchant_internal_id sample_payment = ''m1''" by (simp_all add: sample_payment_def)
  have q: "relay_queue ?s = []" "redis ?s = (\<lambda>_. None)" "usage ?s = []" by (simp_all add: sample_defs)
  have x: "find_session ''ps1'' ?s = Some sample_session" by (simp add: find_session_def sample_defs)
  have xs: "ps_status sample_session = Created" "ps_expires_at sample_session = 1800000" "ps_merchant_id sample_session = ''m1''"
    "BigInt (ps_amount sample_session) = 2000000" "tokenAddressForCurrency sample_config (ps_currency sample_session) = Some sample_address"
    by (simp_all add: sample_session_def sample_config_def tokenAddressForCurrency_def BigInt_def big_nat_def digit_of_def)
      (simp add: sample_address_def)
  have m: "find_row m_id ''m1'' (merchants ?s) = Some sample_merchant" "m_onchain_merchant_id sample_merchant = Some 7"
    "m_tier sample_merchant = Starter" by (simp_all add: sample_defs)
  have nonce: "checkoutPaymentNonce sample_world ''ps1'' = Inr sample_hash" "\<And>a d. rw_simulate sample_world a d = Sim_Ok"
    by (simp_all add: checkoutPaymentNonce_def sample_world_def)
  have payable: "seq (assertSessionPayable sample_config 100 ''ps1'' 7 2000000 sample_address) k ?s = k () ?s"
    for k :: "unit \<Rightarrow> (store, api_exn, submission_view) proc"
    by (rule seq_Inr) (simp add: assertSessionPayable_def x xs m)
  have nonce_ok: "seq (assertSessionNonce sample_world ''ps1'' sample_hash) k ?s = k () ?s"
    for k :: "unit \<Rightarrow> (store, api_exn, submission_view) proc"
    by (rule seq_Inr) (simp add: assertSessionNonce_def nonce)
  have key: "job_key ?job = pay_key sample_world sample_payment" by (simp add: pay_job_def)
  obtain s1 where c: "claimAttempt sample_world (paymentAttemptScope ''ps1'') (job_key ?job) ?s = (Inr (), s1)"
    and s1: "s1 = ?s\<lparr>redis := (redis ?s)(paymentAttemptScope ''ps1'' \<mapsto> job_key ?job)\<rparr>"
    by (simp add: claimAttempt_eq q)
  obtain r s2 where b: "consume sample_config ''m1'' 100 s1 = (r, s2)" by fastforce
  have "find_row m_id ''m1'' (merchants s1) = Some sample_merchant" using m(1) by (simp add: s1)
  from consume_step [OF this b] m(3) have r: "r = Inr ()"
    by (simp add: used_def find_usage_def s1 q)
  have q2: "relay_queue s2 = []" using consume_frame [OF b] by (simp add: s1 q)
  obtain v s' where e: "enqueue sample_world sample_config 100 ?job ''m1'' (paymentAttemptScope ''ps1'') ?s = (Inr v, s')"
    using c b r q2 sample_pay_job_ok
    by (simp add: enqueue_def parse_relay_job_def seq_Inr existingView_def queue_add_def find_job_def)
  have free: "find_job (job_key ?job) (relay_queue ?s) = None" by (simp add: q find_job_def)
  have "submitPayWithAuthorization sample_world sample_config 100 sample_payment ?s = (Inr v, s')"
    using e addr
    by (simp add: submitPayWithAuthorization_def Let_def i alreadyPaidView_def x xs existingView_def q find_job_def
        assertMinimumAmount_def MINIMUM_PAYMENT_AMOUNT_def payable nonce_ok simulate_def nonce)
  moreover have "relay_queue s' = [queued 100 ?job]" using enqueue_Inr [OF e free] q by simp
  ultimately show thesis by (rule that)
qed

theorem relay_payment_gate_witness:
  "\<exists>v s'. submitPayWithAuthorization sample_world sample_config 100 sample_payment sample_store = (Inr v, s') \<and>
     relay_queue s' = relay_queue sample_store @ [queued 100 (pay_job sample_world sample_address sample_payment)] \<and>
     used ''m1'' (utcDay 100) s' = used ''m1'' (utcDay 100) sample_store + 1"
proof (rule sample_submission)
  fix v s'
  assume run: "submitPayWithAuthorization sample_world sample_config 100 sample_payment sample_store = (Inr v, s')"
    and q: "relay_queue s' = [queued 100 (pay_job sample_world sample_address sample_payment)]"
  have "relay_queue sample_store = []" by (simp add: sample_defs)
  moreover have "py_merchant_internal_id sample_payment = ''m1''" by (simp add: sample_payment_def)
  ultimately show ?thesis using relay_payment_gate [OF run] q run by auto
qed

theorem one_live_payment_attempt_witness:
  "attempts_ok sample_world (snd (submitPayWithAuthorization sample_world sample_config 100 sample_payment sample_store))"
proof -
  have "attempts_ok sample_world sample_store" by (simp add: attempts_ok_def sample_store_def empty_store_def)
  from one_live_payment_attempt [OF this prod.collapse [symmetric]] show ?thesis by blast
qed

theorem relay_replay_idempotent_witness:
  "\<exists>s1 v. submitPayWithAuthorization sample_world sample_config 200 sample_payment s1 = (Inr v, s1) \<and> relay_queue s1 \<noteq> []"
proof (rule sample_submission)
  fix v and s1 :: store
  assume q: "relay_queue s1 = [queued 100 (pay_job sample_world sample_address sample_payment)]"
  then have "find_job (pay_key sample_world sample_payment) (relay_queue s1) =
      Some (queued 100 (pay_job sample_world sample_address sample_payment))"
    by (simp add: find_job_def queued_def pay_job_def)
  from relay_replay_idempotent [OF this, of sample_config sample_address 200] q show ?thesis
    by (auto simp: sample_config_def sample_address_def)
qed

theorem relay_refusal_enqueues_nothing_witness:
  "relay_queue (snd (submitPayWithAuthorization sample_world sample_config 1800001 sample_payment sample_store)) = []"
proof -
  have "fst (submitPayWithAuthorization sample_world sample_config 1800001 sample_payment sample_store) = Inl (bad_request ''session_expired'')"
    by (simp add: submitPayWithAuthorization_def Let_def alreadyPaidView_def existingView_def find_job_def find_session_def
        assertMinimumAmount_def MINIMUM_PAYMENT_AMOUNT_def assertSessionPayable_def seq_def
        sample_config_def sample_address_def sample_payment_def sample_store_def sample_session_def empty_store_def)
  then have "submitPayWithAuthorization sample_world sample_config 1800001 sample_payment sample_store =
      (Inl (bad_request ''session_expired''), snd (submitPayWithAuthorization sample_world sample_config 1800001 sample_payment sample_store))"
    by (metis prod.collapse)
  from relay_refusal_enqueues_nothing [OF this] show ?thesis by (simp add: sample_store_def empty_store_def)
qed

theorem submission_scope_isolated_witness:
  "\<exists>s v. getByIdempotencyKey (pay_key sample_world sample_payment) \<lparr>sc_merchant_internal_id = ''m1'', sc_session_id = Some ''ps1''\<rparr> s = Some v \<and>
     (\<exists>j\<in>set (relay_queue s). v = viewFromJob j \<and> job_merchant (qj_data j) = Some ''m1'')"
proof (rule sample_submission)
  fix v and s' :: store
  assume q: "relay_queue s' = [queued 100 (pay_job sample_world sample_address sample_payment)]"
  have "getByIdempotencyKey (pay_key sample_world sample_payment) \<lparr>sc_merchant_internal_id = ''m1'', sc_session_id = Some ''ps1''\<rparr> s' =
      Some (viewFromJob (queued 100 (pay_job sample_world sample_address sample_payment)))"
    by (simp add: getByIdempotencyKey_def find_job_def q queued_def pay_job_def sample_payment_def)
  from this submission_scope_isolated [OF this] show ?thesis by (intro exI conjI) auto
qed

definition sample_enrolment :: enrol_input where
  [sample_defs]: "sample_enrolment = \<lparr>en_merchant_id = 7, en_token = sample_address, en_amount = 5000000,
     en_interval = 2592000, en_start_at = 1209610, en_end_at = 0,
     en_permit = \<lparr>pd_owner = sample_address, pd_value = 5000000, pd_deadline = 5000\<rparr>,
     en_permit_signature = sample_signature, en_intent_signature = sample_signature,
     en_merchant_internal_id = ''m1'', en_subscription_internal_id = ''pl1''\<rparr>"

theorem relay_enrolment_gate_witness:
  "\<exists>v s'. submitPermitAndCreateSubscription sample_world sample_config 500000 sample_enrolment sample_store = (Inr v, s') \<and>
     verify_terms sample_config ''m1'' (terms_request sample_enrolment) 500000 sample_store = (Inr (), sample_store)"
proof -
  let ?job = "enrol_job sample_world sample_address sample_enrolment" and ?s = sample_store
  have addr: "cf_subscriptions_address sample_config = Some sample_address" "sample_address \<noteq> []"
    by (simp_all add: sample_config_def sample_address_def)
  have i: "en_subscription_internal_id sample_enrolment = ''pl1''" "pd_owner (en_permit sample_enrolment) = sample_address"
    "en_merchant_internal_id sample_enrolment = ''m1''" "en_amount sample_enrolment = 5000000"
    "terms_request sample_enrolment = sample_request" "er_plan_id sample_request = ''pl1''"
    "er_payer sample_request = sample_address" "er_start_at sample_request = 1209610"
    by (simp_all add: sample_enrolment_def terms_request_def sample_request_def)
  have q: "relay_queue ?s = []" "redis ?s = (\<lambda>_. None)" "usage ?s = []" "subs ?s = []" by (simp_all add: sample_defs)
  have d: "trialDaysFor sample_plan sample_address ?s = 14"
    by (simp add: trialDaysFor_def sample_plan_def q)
  have start: "start_agrees 500000 14 1209610"
    by (simp add: start_agrees_def unixSeconds_def SECONDS_PER_DAY_def TRIAL_START_TOLERANCE_SECONDS_def)
  have "fst (verify_terms sample_config ''m1'' sample_request 500000 ?s) = Inr ()"
    unfolding verify_terms_iff
    by (intro exI [of _ sample_plan] exI [of _ sample_address])
      (simp add: i sample_plan_found sample_request_terms normalise_sample_address d start, simp add: sample_plan_def)
  then have terms: "verify_terms sample_config ''m1'' sample_request 500000 ?s = (Inr (), ?s)"
    using verify_terms_pure by (metis prod.collapse)
  have plan_ok: "seq (assertPlanTerms sample_config 500000 ''m1'' sample_enrolment) k ?s = k () ?s"
    for k :: "unit \<Rightarrow> (store, api_exn, submission_view) proc"
    by (rule seq_Inr) (simp add: assertPlanTerms_def i activeForPayer_def q terms)
  have funded: "seq (assertFunded sample_world sample_enrolment) k ?s = k () ?s"
    for k :: "unit \<Rightarrow> (store, api_exn, submission_view) proc"
    by (rule seq_Inr) (simp add: assertFunded_def i sample_world_def)
  have sim: "\<And>a d. rw_simulate sample_world a d = Sim_Ok" by (simp add: sample_world_def)
  have job_ok: "relay_job_ok ?job"
    by (simp add: enrol_job_def relay_call_ok_def relayKeyFor_def enrol_call_data_def sample_world_def ENROL_GAS_LIMIT_def
        calldata_ok_def hex_body_def starts_with_def is_hex_char_def Let_def show_nat.simps token_amount_ok_def is_digit_def)
  let ?scope = "subscriptionAttemptScope ''pl1'' sample_address"
  obtain s1 where c: "claimAttempt sample_world ?scope (job_key ?job) ?s = (Inr (), s1)"
    and s1: "s1 = ?s\<lparr>redis := (redis ?s)(?scope \<mapsto> job_key ?job)\<rparr>"
    by (simp add: claimAttempt_eq q)
  obtain r s2 where b: "consume sample_config ''m1'' 500000 s1 = (r, s2)" by fastforce
  have "find_row m_id ''m1'' (merchants s1) = Some sample_merchant" "m_tier sample_merchant = Starter"
    by (simp_all add: s1 sample_defs)
  with consume_step [OF _ b] have r: "r = Inr ()"
    by (simp add: used_def find_usage_def s1 q)
  have q2: "relay_queue s2 = []" using consume_frame [OF b] by (simp add: s1 q)
  obtain v s' where e: "enqueue sample_world sample_config 500000 ?job ''m1'' ?scope ?s = (Inr v, s')"
    using c b r q2 job_ok
    by (simp add: enqueue_def parse_relay_job_def seq_Inr existingView_def queue_add_def find_job_def)
  have free: "find_job (job_key ?job) (relay_queue ?s) = None" by (simp add: q find_job_def)
  have run: "submitPermitAndCreateSubscription sample_world sample_config 500000 sample_enrolment ?s = (Inr v, s')"
    using e addr
    by (simp add: submitPermitAndCreateSubscription_def Let_def i plan_ok alreadyEnrolledView_def existingView_def q find_job_def
        assertMinimumAmount_def MINIMUM_PAYMENT_AMOUNT_def funded simulate_def sim)
  have "relay_queue s' \<noteq> relay_queue ?s" using enqueue_Inr [OF e free] q by simp
  from relay_enrolment_gate [OF run this] run i show ?thesis by auto
qed

end
