(* ===== verification/Relay_Runner.thy ===== *)
theory Relay_Runner
  imports Relay_Service
begin

text \<open>
  The worker of the relay queue (\<open>apps/api/src/modules/relay/relay-job-runner.ts\<close>). Its state is the
  shared store together with the transactions it has handed to the chain (\<open>rn_sent\<close>). The answers of
  the chain, the signer and the codecs during one run are the record \<open>runner_world\<close>; an answer that
  is an error ends the run, and the queue may start the job again (\<open>attempts\<close> counts the runs made).
\<close>

section \<open>State and world\<close>

record signed_tx =
  st_chain_id :: nat
  st_nonce :: int
  st_to :: string
  st_data :: string
  st_gas :: nat
  st_max_fee :: nat
  st_priority :: nat

record receipt =
  rp_status :: receipt_status
  rp_tx_hash :: string
  rp_block_number :: nat
  rp_block_hash :: string
  rp_gas_used :: nat
  rp_effective_gas_price :: nat
  rp_logs :: "log_entry list"

record runner_world =
  xw_chain_id :: "nat option"
  xw_signer :: string
  xw_receipt :: "string \<Rightarrow> receipt option rpc"
  xw_known :: "string \<Rightarrow> bool rpc"
  xw_wait :: "string \<Rightarrow> receipt rpc"
  xw_count_latest :: "nat rpc"
  xw_count_pending :: "nat rpc"
  xw_extra_data :: "8 word list rpc"
  xw_tip :: "string option rpc"
  xw_sign :: "signed_tx \<Rightarrow> string rpc"
  xw_keccak :: "string \<Rightarrow> string"
  xw_send :: "string \<Rightarrow> unit rpc"
  xw_encode_register :: "register_args \<Rightarrow> string"
  xw_decode_event :: "log_entry \<Rightarrow> decoded_event option"
  xw_hex :: "string \<Rightarrow> nat"

record runner_state =
  rn_store :: store
  rn_sent :: "signed_tx list"

definition on_store :: "(store, 'e, 'a) proc \<Rightarrow> (runner_state, 'e, 'a) proc" where
  "on_store m = (\<lambda>st. case m (rn_store st) of (r, s') \<Rightarrow> (r, st\<lparr>rn_store := s'\<rparr>))"

abbreviation permanent_error :: api_exn where
  "permanent_error \<equiv> Crash ''RelayPermanentError''"

section \<open>Broadcasting\<close>

definition settledReceipt :: "runner_world \<Rightarrow> string \<Rightarrow> receipt option rpc" where
  "settledReceipt w h =
     (case xw_receipt w h of
        Inl e \<Rightarrow> Inl e
      | Inr (Some r) \<Rightarrow> Inr (Some r)
      | Inr None \<Rightarrow>
          (case xw_known w h of
             Inl e \<Rightarrow> Inl e
           | Inr known \<Rightarrow> if \<not> known then Inr None
               else (case xw_wait w h of Inl e \<Rightarrow> Inl e | Inr r \<Rightarrow> Inr (Some r))))"

definition requireSuccess :: "receipt \<Rightarrow> api_exn + receipt" where
  "requireSuccess r = (if rp_status r = Success_Receipt then Inr r else Inl permanent_error)"

definition recordedFees :: "relay_broadcast \<Rightarrow> gas_price option" where
  "recordedFees b =
     (case (bc_max_fee b, bc_max_priority_fee b) of
        (Some m, Some p) \<Rightarrow> Some \<lparr>gp_max_fee = big_nat m, gp_priority = big_nat p\<rparr>
      | _ \<Rightarrow> None)"

definition resultOf :: "receipt \<Rightarrow> relay_job_result" where
  "resultOf r = Relayed (rp_tx_hash r) (rp_block_number r) (rp_block_hash r)"

definition do_resync :: "runner_world \<Rightarrow> nat \<Rightarrow> (runner_state, api_exn, unit) proc" where
  "do_resync w chainId =
     seq (lift_sum (xw_count_pending w)) (\<lambda>p. on_store (modify (resync chainId (xw_signer w) p)))"

definition do_acquire :: "runner_world \<Rightarrow> nat \<Rightarrow> (runner_state, api_exn, int) proc" where
  "do_acquire w chainId =
     seq (lift_sum (xw_count_pending w)) (\<lambda>p.
     on_store (\<lambda>s. case acquire chainId (xw_signer w) p s of (n, s') \<Rightarrow> (Inr n, s')))"

text \<open>
  What \<open>broadcastOnce\<close> finds out first: the recorded transaction is settled, or a transaction is to be
  sent with this nonce, against these recorded fees.
\<close>

datatype broadcast_plan = Settled receipt | Send_With int "gas_price option"

definition plan_broadcast ::
  "runner_world \<Rightarrow> nat \<Rightarrow> nat \<Rightarrow> relay_broadcast option \<Rightarrow> (runner_state, api_exn, broadcast_plan) proc" where
  "plan_broadcast w chainId attempts recorded =
     (case recorded of
        Some b \<Rightarrow>
          seq (lift_sum (settledReceipt w (bc_tx_hash b))) (\<lambda>settled.
          case settled of
            Some r \<Rightarrow> ret (Settled r)
          | None \<Rightarrow>
              if (case bc_from b of None \<Rightarrow> True | Some f \<Rightarrow> f = [] \<or> to_lower f \<noteq> to_lower (xw_signer w))
              then raise permanent_error
              else seq (lift_sum (xw_count_latest w)) (\<lambda>confirmed.
                if int confirmed \<le> BigInt (bc_nonce b) then ret (Send_With (BigInt (bc_nonce b)) (recordedFees b))
                else seq (do_resync w chainId) (\<lambda>_. seq (do_acquire w chainId) (\<lambda>n. ret (Send_With n None)))))
      | None \<Rightarrow>
          seq (if 0 < attempts then do_resync w chainId else ret ()) (\<lambda>_.
          seq (do_acquire w chainId) (\<lambda>n. ret (Send_With n None))))"

text \<open>\<open>job.updateData\<close>.\<close>

definition set_job_data :: "relay_job \<Rightarrow> queued_job \<Rightarrow> queued_job" where
  "set_job_data d j = j\<lparr>qj_data := d\<rparr>"

definition updateData :: "string \<Rightarrow> relay_job \<Rightarrow> (store, api_exn, unit) proc" where
  "updateData jid d = modify (\<lambda>s. s\<lparr>relay_queue := update_where (\<lambda>j. qj_id j = jid) (set_job_data d) (relay_queue s)\<rparr>)"

definition broadcast_record :: "runner_world \<Rightarrow> signed_tx \<Rightarrow> string \<Rightarrow> relay_broadcast" where
  "broadcast_record w tx txHash = \<lparr>bc_tx_hash = txHash, bc_nonce = show_int (st_nonce tx),
     bc_from = Some (xw_signer w), bc_max_fee = Some (show_nat (st_max_fee tx)),
     bc_max_priority_fee = Some (show_nat (st_priority tx))\<rparr>"

definition priced_tx ::
  "runner_world \<Rightarrow> nat \<Rightarrow> nat \<Rightarrow> string \<Rightarrow> string \<Rightarrow> nat \<Rightarrow> int \<Rightarrow> gas_price option \<Rightarrow> api_exn + signed_tx" where
  "priced_tx w chainId attempts to dat gas nonce previous =
     (case xw_extra_data w of Inl e \<Rightarrow> Inl e
      | Inr extra \<Rightarrow>
        (case (if 0 < attempts then xw_tip w else Inr None) of Inl e \<Rightarrow> Inl e
         | Inr tip \<Rightarrow>
           (case compute_gas extra tip (0 < attempts) previous of Inl e \<Rightarrow> Inl e
            | Inr g \<Rightarrow> Inr \<lparr>st_chain_id = chainId, st_nonce = nonce, st_to = to, st_data = dat, st_gas = gas,
                st_max_fee = gp_max_fee g, st_priority = gp_priority g\<rparr>)))"

definition send_tx ::
  "runner_world \<Rightarrow> string \<Rightarrow> relay_job \<Rightarrow> (string \<Rightarrow> (store, api_exn, unit) proc) \<Rightarrow> signed_tx \<Rightarrow>
   (runner_state, api_exn, receipt) proc" where
  "send_tx w jid dat onRecorded tx =
     seq (lift_sum (xw_sign w tx)) (\<lambda>serialized.
     let txHash = xw_keccak w serialized in
     seq (on_store (updateData jid (set_broadcast (broadcast_record w tx txHash) dat))) (\<lambda>_.
     seq (on_store (onRecorded txHash)) (\<lambda>_.
     seq (modify (\<lambda>st. st\<lparr>rn_sent := rn_sent st @ [tx]\<rparr>)) (\<lambda>_.
     seq (lift_sum (xw_send w serialized)) (\<lambda>_.
     seq (lift_sum (xw_wait w txHash)) (\<lambda>r. lift_sum (requireSuccess r)))))))"

definition broadcastOnce ::
  "runner_world \<Rightarrow> string \<Rightarrow> nat \<Rightarrow> relay_job \<Rightarrow> string \<Rightarrow> string \<Rightarrow> nat \<Rightarrow>
   (string \<Rightarrow> (store, api_exn, unit) proc) \<Rightarrow> (runner_state, api_exn, receipt) proc" where
  "broadcastOnce w jid attempts dat to callData gas onRecorded =
     (case xw_chain_id w of
        None \<Rightarrow> raise (Crash ''chain client has no chain bound'')
      | Some chainId \<Rightarrow>
        seq (plan_broadcast w chainId attempts (job_broadcast dat)) (\<lambda>p.
        case p of
          Settled r \<Rightarrow> lift_sum (requireSuccess r)
        | Send_With nonce previous \<Rightarrow>
            seq (lift_sum (priced_tx w chainId attempts to callData gas nonce previous)) (\<lambda>tx.
            send_tx w jid dat onRecorded tx)))"

section \<open>Running a job\<close>

definition link_merchant :: "nat \<Rightarrow> merchant_row \<Rightarrow> merchant_row" where
  "link_merchant oid m = m\<lparr>m_onchain_merchant_id := Some oid\<rparr>"

definition record_registration :: "string \<Rightarrow> merchant_row \<Rightarrow> merchant_row" where
  "record_registration h m = m\<lparr>m_onchain_registration_tx_hash := Some h\<rparr>"

definition linkRegistration ::
  "runner_world \<Rightarrow> config \<Rightarrow> string \<Rightarrow> receipt \<Rightarrow> (store, api_exn, relay_job_result) proc" where
  "linkRegistration w cfg merchantId r =
     seq (lift_sum (decodeMerchantRegisteredId (xw_decode_event w) (xw_hex w) (rp_logs r) (cf_registry_address cfg))) (\<lambda>oid.
     seq (modify (\<lambda>s. s\<lparr>merchants := update_where (\<lambda>m. m_id m = merchantId \<and> m_onchain_merchant_id m = None)
            (link_merchant oid) (merchants s)\<rparr>)) (\<lambda>_.
     ret (resultOf r)))"

definition earlier_receipt :: "runner_world \<Rightarrow> relay_registration_fields \<Rightarrow> merchant_row \<Rightarrow> receipt option rpc" where
  "earlier_receipt w d m =
     (case (rr_broadcast d, m_onchain_registration_tx_hash m) of
        (None, Some h) \<Rightarrow> if h = [] then Inr None else
           (case settledReceipt w h of
              Inl e \<Rightarrow> Inl e
            | Inr (Some r) \<Rightarrow> Inr (if rp_status r = Success_Receipt then Some r else None)
            | Inr None \<Rightarrow> Inr None)
      | _ \<Rightarrow> Inr None)"

definition runRegistration ::
  "runner_world \<Rightarrow> config \<Rightarrow> string \<Rightarrow> nat \<Rightarrow> relay_registration_fields \<Rightarrow>
   (runner_state, api_exn, relay_job_result) proc" where
  "runRegistration w cfg jid attempts d =
     (let mid = rr_merchant_internal_id d in
      seq (on_store (gets (\<lambda>s. find_row m_id mid (merchants s)))) (\<lambda>found.
      case found of None \<Rightarrow> raise permanent_error
      | Some m \<Rightarrow>
        (case m_onchain_merchant_id m of
           Some oid \<Rightarrow> ret (Skipped_Registered oid)
         | None \<Rightarrow>
           seq (lift_sum (earlier_receipt w d m)) (\<lambda>earlier.
           case earlier of
             Some r \<Rightarrow> on_store (linkRegistration w cfg mid r)
           | None \<Rightarrow>
             if registrationGaps m \<noteq> [] then raise permanent_error
             else
               seq (lift_sum (registerMerchantCallData (xw_encode_register w) m)) (\<lambda>callData.
               seq (broadcastOnce w jid attempts (Register_Job d) (cf_registry_address cfg) callData
                      (nat REGISTER_MERCHANT_GAS_LIMIT)
                      (\<lambda>h. modify (\<lambda>s. s\<lparr>merchants := update_where (\<lambda>m. m_id m = mid) (record_registration h) (merchants s)\<rparr>)))
                   (\<lambda>r. on_store (linkRegistration w cfg mid r)))))))"

definition stamp_submitted :: "string \<times> int \<Rightarrow> session_row \<Rightarrow> session_row" where
  "stamp_submitted p r = r\<lparr>ps_status := Submitted, ps_onchain_tx_hash := Some (fst p), ps_updated_at := snd p\<rparr>"

definition stampSession :: "string option \<Rightarrow> string \<Rightarrow> int \<Rightarrow> (store, api_exn, unit) proc" where
  "stampSession sessionId h now =
     (case sessionId of
        None \<Rightarrow> ret ()
      | Some sid \<Rightarrow> if sid = [] then ret () else
          modify (\<lambda>s. s\<lparr>sessions := update_where (\<lambda>r. ps_id r = sid \<and> ps_status r \<in> set OPEN_SESSION_STATUSES)
            (stamp_submitted (h, now)) (sessions s)\<rparr>))"

text \<open>What a call settles once its receipt is in: the gas bill and the session.\<close>

definition account_call :: "relay_call_fields \<Rightarrow> int \<Rightarrow> receipt \<Rightarrow> (runner_state, api_exn, relay_job_result) proc" where
  "account_call c now r =
     seq (case rc_merchant_internal_id c of None \<Rightarrow> ret ()
          | Some mid \<Rightarrow> if mid = [] then ret ()
              else on_store (recordGas mid (int (rp_gas_used r * rp_effective_gas_price r)) now)) (\<lambda>_.
     seq (on_store (stampSession (rc_session_id c) (rp_tx_hash r) now)) (\<lambda>_.
     ret (resultOf r)))"

definition run_call ::
  "runner_world \<Rightarrow> string \<Rightarrow> nat \<Rightarrow> int \<Rightarrow> relay_job \<Rightarrow> relay_call_fields \<Rightarrow> (runner_state, api_exn, relay_job_result) proc" where
  "run_call w jid attempts now dat c =
     seq (broadcastOnce w jid attempts dat (rc_to_address c) (rc_call_data c) (big_nat (rc_gas_limit c)) (\<lambda>_. ret ()))
       (account_call c now)"

definition run_job ::
  "runner_world \<Rightarrow> config \<Rightarrow> string \<Rightarrow> nat \<Rightarrow> int \<Rightarrow> relay_job \<Rightarrow> (runner_state, api_exn, relay_job_result) proc" where
  "run_job w cfg jid attempts now job =
     seq (parse_relay_job job) (\<lambda>dat.
     case dat of
       Register_Job d \<Rightarrow> runRegistration w cfg jid attempts d
     | Pay_Job c \<Rightarrow> run_call w jid attempts now dat c
     | Enrol_Job c \<Rightarrow> run_call w jid attempts now dat c)"

section \<open>Row updates\<close>

interpretation job_data: row_update qj_id set_job_data
  by unfold_locales (simp add: set_job_data_def)

interpretation merchant_link: row_update m_id link_merchant
  by unfold_locales (simp add: link_merchant_def)

interpretation merchant_record: row_update m_id record_registration
  by unfold_locales (simp add: record_registration_def)

interpretation session_stamp: row_update ps_id stamp_submitted
  by unfold_locales (simp add: stamp_submitted_def)

section \<open>Lemmas\<close>

lemma on_store_app [simp]: "on_store m st = (fst (m (rn_store st)), st\<lparr>rn_store := snd (m (rn_store st))\<rparr>)"
  by (simp add: on_store_def case_prod_unfold)

lemma keeps_on_store [keeps_intros]:
  "(\<And>st. I st \<Longrightarrow> I (st\<lparr>rn_store := snd (m (rn_store st))\<rparr>)) \<Longrightarrow> keeps I (on_store m)"
  by (simp add: keeps_def)

text \<open>Planning sends nothing and leaves the queue alone; it only moves the nonce counter.\<close>

definition same_but_redis :: "runner_state \<Rightarrow> runner_state \<Rightarrow> bool" where
  "same_but_redis st0 st \<longleftrightarrow> rn_sent st = rn_sent st0 \<and> (\<exists>f. rn_store st = (rn_store st0)\<lparr>redis := f\<rparr>)"

lemma same_but_redis_refl: "same_but_redis st st"
  unfolding same_but_redis_def by (rule conjI, rule refl, rule exI [of _ "redis (rn_store st)"]) simp

lemma keeps_do_resync: "keeps (same_but_redis st0) (do_resync w c)"
  unfolding do_resync_def
  by (intro keeps_intros) (auto simp: same_but_redis_def resync_def)

lemma keeps_do_acquire: "keeps (same_but_redis st0) (do_acquire w c)"
  unfolding do_acquire_def
  by (intro keeps_intros) (auto simp: same_but_redis_def acquire_def Let_def)

lemma plan_broadcast_frame:
  assumes "plan_broadcast w c n b st = (r, st')"
  shows "same_but_redis st st'"
proof -
  have "keeps (same_but_redis st) (plan_broadcast w c n b)"
    unfolding plan_broadcast_def by (intro keeps_intros keeps_do_resync keeps_do_acquire)
  from keepsD [OF this same_but_redis_refl assms] show ?thesis .
qed

lemma do_acquire_after_resync:
  assumes "seq (do_resync w c) (\<lambda>_. seq (do_acquire w c) (\<lambda>n. ret (Send_With n None))) st = (Inr (Send_With n prev), st')"
  shows "prev = None \<and> (\<exists>p. xw_count_pending w = Inr p \<and> n = int p)"
proof -
  from assms obtain p where p: "xw_count_pending w = Inr p"
    by (auto simp: do_resync_def seq_def split: sum.splits)
  with assms show ?thesis
    by (auto simp: do_resync_def do_acquire_def seq_def resync_def acquire_def Let_def)
qed

text \<open>What the plan says when a transaction was recorded before.\<close>

lemma plan_recorded:
  assumes "plan_broadcast w c n (Some b) st = (Inr (Send_With nonce prev), st')"
  shows "settledReceipt w (bc_tx_hash b) = Inr None \<and>
    map_option to_lower (bc_from b) = Some (to_lower (xw_signer w)) \<and>
    (\<exists>k. xw_count_latest w = Inr k \<and>
      (int k \<le> BigInt (bc_nonce b) \<and> nonce = BigInt (bc_nonce b) \<and> prev = recordedFees b \<or>
       BigInt (bc_nonce b) < int k \<and> prev = None \<and> xw_count_pending w = Inr (nat nonce) \<and> 0 \<le> nonce))"
proof -
  from assms have s: "settledReceipt w (bc_tx_hash b) = Inr None"
    by (auto simp: plan_broadcast_def split: sum.splits option.splits)
  from assms s have f: "map_option to_lower (bc_from b) = Some (to_lower (xw_signer w))"
    by (auto simp: plan_broadcast_def split: option.splits if_splits)
  from assms s f obtain k where k: "xw_count_latest w = Inr k"
    by (auto simp: plan_broadcast_def split: sum.splits option.splits if_splits)
  show ?thesis
  proof (cases "int k \<le> BigInt (bc_nonce b)")
    case True
    with assms s f k show ?thesis by (auto simp: plan_broadcast_def split: option.splits if_splits)
  next
    case False
    with assms s f k have "seq (do_resync w c) (\<lambda>_. seq (do_acquire w c) (\<lambda>n. ret (Send_With n None))) st = (Inr (Send_With nonce prev), st')"
      by (auto simp: plan_broadcast_def split: option.splits if_splits)
    from do_acquire_after_resync [OF this] False s f k show ?thesis by auto
  qed
qed

text \<open>
  What a run sends: nothing, or one transaction, which is signed, priced for the plan, and recorded in the
  job's data before it goes out.
\<close>

definition sends ::
  "runner_world \<Rightarrow> string \<Rightarrow> nat \<Rightarrow> relay_job \<Rightarrow> runner_state \<Rightarrow> runner_state \<Rightarrow> signed_tx \<Rightarrow> bool" where
  "sends w jid attempts dat st st' tx \<longleftrightarrow>
     (\<exists>c nonce prev st1 to callData gas ser.
        plan_broadcast w c attempts (job_broadcast dat) st = (Inr (Send_With nonce prev), st1) \<and>
        priced_tx w c attempts to callData gas nonce prev = Inr tx \<and> xw_sign w tx = Inr ser \<and>
        rn_sent st' = rn_sent st @ [tx] \<and>
        relay_queue (rn_store st') = update_where (\<lambda>j. qj_id j = jid)
          (set_job_data (set_broadcast (broadcast_record w tx (xw_keccak w ser)) dat)) (relay_queue (rn_store st)))"

lemma send_tx_effect:
  assumes run: "send_tx w jid dat onR tx st = (r, st')"
    and onR: "\<And>h s. relay_queue (snd (onR h s)) = relay_queue s"
  shows "rn_sent st' = rn_sent st \<or>
    (\<exists>ser. xw_sign w tx = Inr ser \<and> rn_sent st' = rn_sent st @ [tx] \<and>
      relay_queue (rn_store st') = update_where (\<lambda>j. qj_id j = jid)
        (set_job_data (set_broadcast (broadcast_record w tx (xw_keccak w ser)) dat)) (relay_queue (rn_store st)))"
proof (cases "xw_sign w tx")
  case (Inl e)
  with run show ?thesis by (simp add: send_tx_def)
next
  case (Inr ser)
  let ?d = "set_broadcast (broadcast_record w tx (xw_keccak w ser)) dat"
  let ?s1 = "(rn_store st)\<lparr>relay_queue := update_where (\<lambda>j. qj_id j = jid) (set_job_data ?d) (relay_queue (rn_store st))\<rparr>"
  show ?thesis
  proof (cases "fst (onR (xw_keccak w ser) ?s1)")
    case (Inl e)
    with run Inr show ?thesis by (auto simp: send_tx_def seq_def updateData_def Let_def)
  next
    case on: (Inr u)
    have "rn_sent st' = rn_sent st @ [tx] \<and> rn_store st' = snd (onR (xw_keccak w ser) ?s1)"
      using run Inr on
      by (auto simp: send_tx_def seq_def updateData_def Let_def split: sum.splits)
    with onR [of "xw_keccak w ser" ?s1] Inr show ?thesis by simp
  qed
qed

lemma broadcastOnce_effect:
  assumes run: "broadcastOnce w jid attempts dat to callData gas onR st = (r, st')"
    and onR: "\<And>h s. relay_queue (snd (onR h s)) = relay_queue s"
  shows "rn_sent st' = rn_sent st \<or> (\<exists>tx. sends w jid attempts dat st st' tx)"
proof (cases "xw_chain_id w")
  case None
  with run show ?thesis by (simp add: broadcastOnce_def)
next
  case (Some c)
  obtain x st1 where plan: "plan_broadcast w c attempts (job_broadcast dat) st = (x, st1)" by fastforce
  note frame = plan_broadcast_frame [OF plan, unfolded same_but_redis_def]
  show ?thesis
  proof (cases "\<exists>nonce prev tx. x = Inr (Send_With nonce prev) \<and> priced_tx w c attempts to callData gas nonce prev = Inr tx")
    case False
    with run Some plan frame show ?thesis
      by (cases x) (auto simp: broadcastOnce_def seq_Inl seq_Inr split: broadcast_plan.splits sum.splits)
  next
    case True
    then obtain nonce prev tx where x: "x = Inr (Send_With nonce prev)"
      and tx: "priced_tx w c attempts to callData gas nonce prev = Inr tx" by blast
    with run Some plan have "send_tx w jid dat onR tx st1 = (r, st')"
      by (simp add: broadcastOnce_def seq_Inr)
    from send_tx_effect [OF this onR] frame have "rn_sent st' = rn_sent st \<or>
      (\<exists>ser. xw_sign w tx = Inr ser \<and> rn_sent st' = rn_sent st @ [tx] \<and>
        relay_queue (rn_store st') = update_where (\<lambda>j. qj_id j = jid)
          (set_job_data (set_broadcast (broadcast_record w tx (xw_keccak w ser)) dat)) (relay_queue (rn_store st)))"
      by auto
    with plan x tx show ?thesis unfolding sends_def by blast
  qed
qed

text \<open>What follows a broadcast touches neither the queue nor the chain.\<close>

definition same_queue :: "runner_state \<Rightarrow> runner_state \<Rightarrow> bool" where
  "same_queue st0 st \<longleftrightarrow> rn_sent st = rn_sent st0 \<and> relay_queue (rn_store st) = relay_queue (rn_store st0)"

lemma keeps_link: "keeps (same_queue st0) (on_store (linkRegistration w cfg mid r))"
  by (intro keeps_intros) (auto simp: linkRegistration_def same_queue_def split: sum.split)

lemma sends_same_queue: "sends w jid n dat st st1 tx \<Longrightarrow> same_queue st1 st2 \<Longrightarrow> sends w jid n dat st st2 tx"
  by (auto simp: sends_def same_queue_def)

lemma seq_effect:
  assumes run: "seq m k st = (r, st')"
    and m: "\<And>x t. m st = (x, t) \<Longrightarrow> rn_sent t = rn_sent st \<or> (\<exists>tx. sends w jid n dat st t tx)"
    and k: "\<And>x t. keeps (same_queue t) (k x)"
  shows "rn_sent st' = rn_sent st \<or> (\<exists>tx. sends w jid n dat st st' tx)"
proof (cases "m st")
  case (Pair x t)
  show ?thesis
  proof (cases x)
    case (Inl e)
    with run Pair m show ?thesis by (auto simp: seq_Inl)
  next
    case (Inr y)
    with run Pair have "k y t = (r, st')" by (simp add: seq_Inr)
    from keepsD [OF k _ this] have q: "same_queue t st'" by (simp add: same_queue_def)
    from m [OF Pair] show ?thesis
    proof
      assume "rn_sent t = rn_sent st"
      with q show ?thesis by (simp add: same_queue_def)
    next
      assume "\<exists>tx. sends w jid n dat st t tx"
      with q sends_same_queue show ?thesis by blast
    qed
  qed
qed

lemma keeps_account: "keeps (same_queue t) (account_call c now r)"
  unfolding account_call_def
  by (intro keeps_intros)
    (auto simp: same_queue_def recordGas_def stampSession_def patch_usage_of_def split: option.split)

lemma run_call_effect:
  assumes "run_call w jid n now dat c st = (r, st')"
  shows "rn_sent st' = rn_sent st \<or> (\<exists>tx. sends w jid n dat st st' tx)"
proof (rule seq_effect [OF assms [unfolded run_call_def]])
  show "rn_sent t = rn_sent st \<or> (\<exists>tx. sends w jid n dat st t tx)"
    if "broadcastOnce w jid n dat (rc_to_address c) (rc_call_data c) (big_nat (rc_gas_limit c)) (\<lambda>_. ret ()) st = (x, t)" for x t
    by (rule broadcastOnce_effect [OF that]) simp
qed (rule keeps_account)

lemma runRegistration_effect:
  assumes "runRegistration w cfg jid n d st = (r, st')"
  shows "rn_sent st' = rn_sent st \<or> (\<exists>tx. sends w jid n (Register_Job d) st st' tx)"
proof -
  let ?mid = "rr_merchant_internal_id d"
  let ?onR = "\<lambda>h. modify (\<lambda>s. s\<lparr>merchants := update_where (\<lambda>m. m_id m = ?mid) (record_registration h) (merchants s)\<rparr>)"
  have stay: "rn_sent st' = rn_sent st" if "keeps (\<lambda>t. rn_sent t = rn_sent st) m" "m st = (r, st')" for m :: "(runner_state, api_exn, relay_job_result) proc"
    using keepsD [OF that(1) _ that(2)] by simp
  have link: "keeps (\<lambda>t. rn_sent t = rn_sent st) (on_store (linkRegistration w cfg ?mid rc))" for rc
    by (intro keeps_intros) simp
  show ?thesis
  proof (cases "find_row m_id ?mid (merchants (rn_store st))")
    case None
    with assms show ?thesis by (simp add: runRegistration_def Let_def seq_def raise_def gets_def)
  next
    case (Some m)
    show ?thesis
    proof (cases "m_onchain_merchant_id m = None \<and> earlier_receipt w d m = Inr None \<and> registrationGaps m = [] \<and>
        (\<exists>callData. registerMerchantCallData (xw_encode_register w) m = Inr callData)")
      case False
      with assms Some link show ?thesis
        by (auto simp: runRegistration_def Let_def seq_def gets_def raise_def lift_sum_def ret_def split: option.splits sum.splits if_splits)
    next
      case True
      then obtain callData where cd: "registerMerchantCallData (xw_encode_register w) m = Inr callData" by blast
      with assms Some True have "seq (broadcastOnce w jid n (Register_Job d) (cf_registry_address cfg) callData
          (nat REGISTER_MERCHANT_GAS_LIMIT) ?onR) (\<lambda>r. on_store (linkRegistration w cfg ?mid r)) st = (r, st')"
        by (simp add: runRegistration_def Let_def seq_def [of "on_store _"])
      then show ?thesis
      proof (rule seq_effect)
        show "rn_sent t = rn_sent st \<or> (\<exists>tx. sends w jid n (Register_Job d) st t tx)"
          if "broadcastOnce w jid n (Register_Job d) (cf_registry_address cfg) callData (nat REGISTER_MERCHANT_GAS_LIMIT) ?onR st = (x, t)" for x t
          by (rule broadcastOnce_effect [OF that]) simp
      qed (rule keeps_link)
    qed
  qed
qed

lemma run_job_effect:
  assumes "run_job w cfg jid n now job st = (r, st')"
  shows "rn_sent st' = rn_sent st \<or> (\<exists>tx. sends w jid n job st st' tx)"
proof (cases "relay_job_ok job")
  case False
  with assms show ?thesis by (simp add: run_job_def parse_relay_job_def)
next
  case True
  with assms show ?thesis
    by (cases job) (auto simp: run_job_def parse_relay_job_def dest: run_call_effect runRegistration_effect)
qed

lemma priced_tx_fields:
  assumes "priced_tx w c n to dat gas nonce prev = Inr tx"
  shows "st_nonce tx = nonce \<and> st_to tx = to \<and> st_data tx = dat \<and>
    (\<exists>extra tip. compute_gas extra tip (0 < n) prev = Inr \<lparr>gp_max_fee = st_max_fee tx, gp_priority = st_priority tx\<rparr>)"
proof -
  from assms obtain extra tip g where "compute_gas extra tip (0 < n) prev = Inr g"
    "tx = \<lparr>st_chain_id = c, st_nonce = nonce, st_to = to, st_data = dat, st_gas = gas,
       st_max_fee = gp_max_fee g, st_priority = gp_priority g\<rparr>"
    by (auto simp: priced_tx_def split: sum.splits if_splits)
  then show ?thesis by (cases g) auto
qed

lemma find_job_data:
  assumes "find_job jid q = Some j"
  shows "find_job jid (update_where (\<lambda>j. qj_id j = jid) (set_job_data d) q) = Some (set_job_data d j)"
  using assms unfolding find_job_def by (auto simp: job_data.find_row_update dest: find_row_Some)

section \<open>Properties\<close>

text \<open>
  C1. Nothing is sent that is not on record: a run sends at most one transaction, and by then the job's data
  names its hash, nonce and sender, so whatever happens next, a timeout or a crash included, the following
  run finds it.
\<close>

theorem recorded_before_sent:
  assumes "run_job w cfg jid attempts now job st = (r, st')"
    and "find_job jid (relay_queue (rn_store st)) = Some j"
  shows "rn_sent st' = rn_sent st \<or>
    (\<exists>tx ser j'. rn_sent st' = rn_sent st @ [tx] \<and> xw_sign w tx = Inr ser \<and>
       find_job jid (relay_queue (rn_store st')) = Some j' \<and> job_key (qj_data j') = job_key job \<and>
       job_broadcast (qj_data j') = Some (broadcast_record w tx (xw_keccak w ser)))"
proof -
  from run_job_effect [OF assms(1)] show ?thesis
  proof
    assume "\<exists>tx. sends w jid attempts job st st' tx"
    then obtain tx ser where tx: "xw_sign w tx = Inr ser" "rn_sent st' = rn_sent st @ [tx]"
      and q: "relay_queue (rn_store st') = update_where (\<lambda>j. qj_id j = jid)
          (set_job_data (set_broadcast (broadcast_record w tx (xw_keccak w ser)) job)) (relay_queue (rn_store st))"
      unfolding sends_def by blast
    from find_job_data [OF assms(2)] tx show ?thesis
      unfolding q by (auto simp: set_job_data_def)
  qed simp
qed

text \<open>
  C2. A payment is never sent twice: when a run sends a transaction although an earlier one is on record, the
  earlier one is not on the chain and was sent by the same signer, and either the new one reuses its nonce,
  with fees at least 12.5% above the recorded ones, or that nonce is already used up and the earlier one
  can no longer be mined. At most one of the two can ever take effect.
\<close>

theorem resend_replaces:
  assumes run: "run_job w cfg jid attempts now job st = (r, st')" and b: "job_broadcast job = Some b"
    and sent: "rn_sent st' \<noteq> rn_sent st"
  shows "\<exists>tx k. rn_sent st' = rn_sent st @ [tx] \<and> settledReceipt w (bc_tx_hash b) = Inr None \<and>
    map_option to_lower (bc_from b) = Some (to_lower (xw_signer w)) \<and> xw_count_latest w = Inr k \<and>
    (st_nonce tx = BigInt (bc_nonce b) \<and>
       (\<forall>p. recordedFees b = Some p \<longrightarrow> 1125 * gp_max_fee p \<le> 1000 * st_max_fee tx \<and>
          1125 * gp_priority p \<le> 1000 * st_priority tx) \<or>
     BigInt (bc_nonce b) < int k \<and> xw_count_pending w = Inr (nat (st_nonce tx)))"
proof -
  from run_job_effect [OF run] sent obtain tx where "sends w jid attempts job st st' tx" by blast
  then obtain c nonce prev st1 to callData gas where
    plan: "plan_broadcast w c attempts (Some b) st = (Inr (Send_With nonce prev), st1)"
    and tx: "priced_tx w c attempts to callData gas nonce prev = Inr tx" and s': "rn_sent st' = rn_sent st @ [tx]"
    unfolding sends_def b by blast
  note fields = priced_tx_fields [OF tx]
  from plan_recorded [OF plan] obtain k where k: "xw_count_latest w = Inr k"
    and old: "settledReceipt w (bc_tx_hash b) = Inr None" "map_option to_lower (bc_from b) = Some (to_lower (xw_signer w))"
    and cs: "nonce = BigInt (bc_nonce b) \<and> prev = recordedFees b \<or>
       BigInt (bc_nonce b) < int k \<and> xw_count_pending w = Inr (nat nonce)" by blast
  from cs show ?thesis
  proof
    assume n: "nonce = BigInt (bc_nonce b) \<and> prev = recordedFees b"
    from fields obtain extra tip where g: "compute_gas extra tip (0 < attempts) (recordedFees b) =
        Inr \<lparr>gp_max_fee = st_max_fee tx, gp_priority = st_priority tx\<rparr>" using n by blast
    from compute_gas_valid [OF g] n fields k old s' show ?thesis by auto
  next
    assume "BigInt (bc_nonce b) < int k \<and> xw_count_pending w = Inr (nat nonce)"
    with fields k old s' show ?thesis by auto
  qed
qed

text \<open>
  A settled transaction is final: when the recorded transaction of a payment has a receipt, the run sends
  nothing; it reports that transaction when it succeeded, and fails for good, leaving the store as it was,
  when it reverted.
\<close>

theorem settled_never_resent:
  assumes "settledReceipt w (bc_tx_hash b) = Inr (Some rc)" and "rc_broadcast c = Some b"
    and "relay_job_ok (Pay_Job c)" and "xw_chain_id w = Some chain"
    and run: "run_job w cfg jid attempts now (Pay_Job c) st = (r, st')"
  shows "rn_sent st' = rn_sent st \<and>
    (rp_status rc = Success_Receipt \<longrightarrow> r = Inr (resultOf rc)) \<and>
    (rp_status rc = Reverted_Receipt \<longrightarrow> r = Inl permanent_error \<and> st' = st)"
proof -
  have bo: "broadcastOnce w jid attempts (Pay_Job c) (rc_to_address c) (rc_call_data c) (big_nat (rc_gas_limit c)) (\<lambda>_. ret ()) st =
      (requireSuccess rc, st)"
  proof -
    have plan: "plan_broadcast w chain attempts (Some b) st = (Inr (Settled rc), st)"
      by (simp add: plan_broadcast_def assms(1) seq_Inr)
    show ?thesis
      by (simp add: broadcastOnce_def assms(2,4) seq_def plan)
  qed
  show ?thesis
  proof (cases "rp_status rc")
    case Success_Receipt
    with bo have "broadcastOnce w jid attempts (Pay_Job c) (rc_to_address c) (rc_call_data c) (big_nat (rc_gas_limit c)) (\<lambda>_. ret ()) st = (Inr rc, st)"
      by (simp add: requireSuccess_def)
    with run assms(3) show ?thesis
      using Success_Receipt
      by (auto simp: run_job_def parse_relay_job_def run_call_def account_call_def seq_def recordGas_def stampSession_def gets_def
          modify_def ret_def split: option.splits if_splits)
  next
    case Reverted_Receipt
    with bo have "broadcastOnce w jid attempts (Pay_Job c) (rc_to_address c) (rc_call_data c) (big_nat (rc_gas_limit c)) (\<lambda>_. ret ()) st =
        (Inl permanent_error, st)"
      by (simp add: requireSuccess_def)
    with run assms(3) Reverted_Receipt show ?thesis
      by (auto simp: run_job_def parse_relay_job_def run_call_def seq_Inl)
  qed
qed

definition linked_as :: "string \<Rightarrow> nat \<Rightarrow> runner_state \<Rightarrow> bool" where
  "linked_as mid oid st \<longleftrightarrow> (\<exists>m. find_row m_id mid (merchants (rn_store st)) = Some m \<and> m_onchain_merchant_id m = Some oid)"

lemma linked_same: "merchants (rn_store st') = merchants (rn_store st) \<Longrightarrow> linked_as mid oid st \<Longrightarrow> linked_as mid oid st'"
  by (simp add: linked_as_def)

lemma linked_redis: "keeps (linked_as mid oid) (do_resync w c)" "keeps (linked_as mid oid) (do_acquire w c)"
  unfolding do_resync_def do_acquire_def
  by (intro keeps_intros; auto simp: resync_def acquire_def Let_def elim!: linked_same [rotated])+

lemma linked_link: "keeps (linked_as mid oid) (on_store (linkRegistration w cfg mid' r))"
proof (intro keeps_intros)
  fix st
  assume "linked_as mid oid st"
  then obtain m where m: "find_row m_id mid (merchants (rn_store st)) = Some m" "m_onchain_merchant_id m = Some oid"
    by (auto simp: linked_as_def)
  then have "\<not> (m_id m = mid' \<and> m_onchain_merchant_id m = None)" by simp
  with m show "linked_as mid oid (st\<lparr>rn_store := snd (linkRegistration w cfg mid' r (rn_store st))\<rparr>)"
    by (simp add: linkRegistration_def linked_as_def merchant_link.find_row_update seq_def split: sum.split)
qed

lemma linked_broadcastOnce:
  assumes "\<And>h s. merchants (snd (onR h s)) = merchants s \<or>
      (\<exists>i. merchants (snd (onR h s)) = update_where (\<lambda>m. m_id m = i) (record_registration h) (merchants s))"
  shows "keeps (linked_as mid oid) (broadcastOnce w jid n dat to callData gas onR)"
proof -
  have rec: "linked_as mid oid st \<Longrightarrow> linked_as mid oid (st\<lparr>rn_store := snd (onR h (rn_store st))\<rparr>)" for h st
    using assms [of h "rn_store st"]
    by (auto simp: linked_as_def merchant_record.find_row_update record_registration_def)
  have plan: "keeps (linked_as mid oid) (plan_broadcast w c n b)" for c b
    unfolding plan_broadcast_def by (intro keeps_intros linked_redis)
  have send: "keeps (linked_as mid oid) (send_tx w jid dat onR tx)" for tx
    unfolding send_tx_def Let_def
    by (intro keeps_intros rec) (auto simp: updateData_def linked_as_def)
  have cont: "keeps (linked_as mid oid) (case p of Settled r \<Rightarrow> lift_sum (requireSuccess r)
        | Send_With nonce previous \<Rightarrow>
            seq (lift_sum (priced_tx w c n to callData gas nonce previous)) (\<lambda>tx. send_tx w jid dat onR tx))" for p c
    by (cases p) (auto intro!: keeps_intros send)
  show ?thesis
    unfolding broadcastOnce_def by (intro keeps_intros plan cont)
qed

lemma linked_run_job: "keeps (linked_as mid oid) (run_job w cfg jid n now job)"
proof -
  have call: "keeps (linked_as mid oid) (run_call w jid n now dat c)" for dat c
    unfolding run_call_def account_call_def
    by (intro keeps_intros linked_broadcastOnce)
      (auto simp: recordGas_def stampSession_def patch_usage_of_def split: option.split elim!: linked_same [rotated])
  have reg: "keeps (linked_as mid oid) (runRegistration w cfg jid n d)" for d
    unfolding runRegistration_def Let_def
    by (intro keeps_intros linked_broadcastOnce linked_link) (auto simp: raise_def)
  have "keeps (linked_as mid oid) (case dat of Register_Job d \<Rightarrow> runRegistration w cfg jid n d
     | Pay_Job c \<Rightarrow> run_call w jid n now dat c | Enrol_Job c \<Rightarrow> run_call w jid n now dat c)" for dat
    by (cases dat) (auto intro: call reg)
  then show ?thesis unfolding run_job_def by (intro keeps_intros)
qed

text \<open>
  C3. A merchant keeps its on-chain id: whatever a run does, a merchant that has an on-chain id before it has
  the same one after it.
\<close>

theorem onchain_id_never_overwritten:
  assumes "run_job w cfg jid attempts now job st = (r, st')"
    and "find_row m_id mid (merchants (rn_store st)) = Some m" and "m_onchain_merchant_id m = Some oid"
  shows "\<exists>m'. find_row m_id mid (merchants (rn_store st')) = Some m' \<and> m_onchain_merchant_id m' = Some oid"
  using keepsD [OF linked_run_job _ assms(1), of mid oid] assms(2,3) by (auto simp: linked_as_def)

section \<open>Witnesses\<close>

definition sample_receipt :: receipt where
  [sample_defs]: "sample_receipt = \<lparr>rp_status = Success_Receipt, rp_tx_hash = sample_hash, rp_block_number = 12,
     rp_block_hash = sample_hash, rp_gas_used = 90000, rp_effective_gas_price = 20000000000, rp_logs = []\<rparr>"

definition sample_runner :: runner_world where
  [sample_defs]: "sample_runner = \<lparr>
     xw_chain_id = Some 5042002, xw_signer = sample_address, xw_receipt = (\<lambda>_. Inr None), xw_known = (\<lambda>_. Inr False),
     xw_wait = (\<lambda>_. Inr sample_receipt), xw_count_latest = Inr 3, xw_count_pending = Inr 3,
     xw_extra_data = Inr [0, 0, 0, 4, 168, 23, 200, 0], xw_tip = Inr (Some ''0x3b9aca00''),
     xw_sign = (\<lambda>_. Inr ''0xfeed''), xw_keccak = (\<lambda>_. sample_hash), xw_send = (\<lambda>_. Inr ()),
     xw_encode_register = (\<lambda>_. ''0xef''), xw_decode_event = (\<lambda>_. None), xw_hex = (\<lambda>_. 0)\<rparr>"

definition sample_broadcast :: relay_broadcast where
  [sample_defs]: "sample_broadcast = \<lparr>bc_tx_hash = sample_hash, bc_nonce = ''3'', bc_from = Some sample_address,
     bc_max_fee = Some ''80000000000'', bc_max_priority_fee = Some ''0''\<rparr>"

definition sample_call :: relay_call_fields where
  [sample_defs]: "sample_call = \<lparr>rc_idempotency_key = ''k1'', rc_to_address = sample_address, rc_call_data = ''0xab'',
     rc_gas_limit = ''200000'', rc_merchant_internal_id = Some ''m1'', rc_session_id = Some ''ps1'',
     rc_subscription_internal_id = None, rc_broadcast = Some sample_broadcast\<rparr>"

definition sample_queued :: "relay_broadcast option \<Rightarrow> queued_job" where
  "sample_queued b = \<lparr>qj_id = ''k1'', qj_data = Pay_Job (sample_call\<lparr>rc_broadcast := b\<rparr>), qj_state = Q_Active,
     qj_returnvalue = None, qj_failed_reason = None, qj_attempts_made = 2, qj_timestamp = 0\<rparr>"

definition sample_runner_state :: "relay_broadcast option \<Rightarrow> runner_state" where
  "sample_runner_state b = \<lparr>
     rn_store = sample_store\<lparr>relay_queue := [sample_queued b]\<rparr>, rn_sent = []\<rparr>"

lemma sample_big: "big_nat ''3'' = 3" "big_nat ''80000000000'' = 80000000000" "big_nat ''0'' = 0" "big_nat ''200000'' = 200000"
  by (simp_all add: big_nat_def digit_of_def)

lemma sample_call_ok: "relay_call_ok (sample_call\<lparr>rc_broadcast := b\<rparr>) \<longleftrightarrow> opt_ok relay_broadcast_ok b"
  by (simp add: is_digit_def relay_call_ok_def sample_call_def calldata_ok_def hex_body_def starts_with_def is_hex_char_def Let_def token_amount_ok_def)

lemma sample_broadcast_ok: "relay_broadcast_ok sample_broadcast"
  by (simp add: relay_broadcast_ok_def sample_broadcast_def token_amount_ok_def is_digit_def)

lemma sample_gas:
  assumes "g = compute_gas [0, 0, 0, 4, 168, 23, 200, 0] (Some ''0x3b9aca00'') True prev"
  shows "\<exists>p. g = Inr p"
proof -
  have e: "big_endian [0, 0, 0, 4, 168, 23, 200, 0] = 20000000000" by (simp add: big_endian_def)
  have t: "fetchRecommendedTip (Some ''0x3b9aca00'') = Inr 1000000000"
    by (simp add: fetchRecommendedTip_def nonempty_hex_ok_def hex_body_def starts_with_def is_hex_char_def Let_def
        hexToBigInt_def hex_digit_def)
  show ?thesis
    unfolding assms by (cases prev) (simp_all add: compute_gas_def fetchNextBaseFee_def e t Let_def ARC_MAX_BASE_FEE_WEI_def gwei_def)
qed

lemma sample_run_sends:
  assumes b: "b = None \<or> b = Some sample_broadcast"
  obtains r st' where "run_job sample_runner sample_config ''k1'' 2 1000 (Pay_Job (sample_call\<lparr>rc_broadcast := b\<rparr>)) (sample_runner_state b) = (r, st')"
    and "rn_sent st' \<noteq> []"
proof -
  let ?job = "Pay_Job (sample_call\<lparr>rc_broadcast := b\<rparr>)" and ?st = "sample_runner_state b"
  have ok: "relay_job_ok ?job" using b sample_broadcast_ok by (auto simp: sample_call_ok)
  obtain n prev st1 where plan: "plan_broadcast sample_runner 5042002 2 b ?st = (Inr (Send_With n prev), st1)"
    and sent: "rn_sent st1 = []"
  proof (cases b)
    case None
    then show ?thesis
      using that by (simp add: plan_broadcast_def do_resync_def do_acquire_def sample_runner_def seq_def
          resync_def acquire_def Let_def sample_runner_state_def)
  next
    case (Some x)
    with b have x: "b = Some sample_broadcast" by simp
    have f: "settledReceipt sample_runner (bc_tx_hash sample_broadcast) = Inr None" "xw_count_latest sample_runner = Inr 3"
      "bc_from sample_broadcast = Some sample_address" "sample_address \<noteq> []" "xw_signer sample_runner = sample_address"
      "BigInt (bc_nonce sample_broadcast) = 3"
      by (simp_all add: settledReceipt_def sample_runner_def sample_broadcast_def BigInt_def sample_big sample_address_def)
    have "plan_broadcast sample_runner 5042002 2 b ?st = (Inr (Send_With 3 (recordedFees sample_broadcast)), ?st)"
      unfolding plan_broadcast_def x by (simp add: f seq_def lift_sum_def ret_def)
    then show ?thesis by (rule that) (simp add: sample_runner_state_def)
  qed
  obtain g where g: "compute_gas [0, 0, 0, 4, 168, 23, 200, 0] (Some ''0x3b9aca00'') True prev = Inr g"
    using sample_gas [OF refl] by blast
  obtain r st' where run: "run_job sample_runner sample_config ''k1'' 2 1000 ?job ?st = (r, st')" by fastforce
  have g': "xw_tip sample_runner = Inr (Some ''0x3b9aca00'')"
    "xw_extra_data sample_runner = Inr [0, 0, 0, 4, 168, 23, 200, 0]" "xw_chain_id sample_runner = Some 5042002"
    "job_broadcast ?job = b"
    by (simp_all add: sample_runner_def)
  let ?bo = "broadcastOnce sample_runner ''k1'' 2 ?job sample_address ''0xab'' 200000 (\<lambda>_. ret ()) ?st"
  have "\<exists>st2. ?bo = (Inr sample_receipt, st2) \<and> rn_sent st2 \<noteq> []"
    by (simp add: broadcastOnce_def g' seq_def plan priced_tx_def g send_tx_def)
      (simp add: sample_runner_def updateData_def requireSuccess_def sample_receipt_def Let_def)
  then obtain st2 where bo: "?bo = (Inr sample_receipt, st2)" and st2: "rn_sent st2 \<noteq> []" by blast
  have f: "rc_to_address (sample_call\<lparr>rc_broadcast := b\<rparr>) = sample_address" "rc_call_data (sample_call\<lparr>rc_broadcast := b\<rparr>) = ''0xab''"
    "big_nat (rc_gas_limit sample_call) = 200000"
    by (simp_all add: sample_call_def sample_big)
  have "account_call (sample_call\<lparr>rc_broadcast := b\<rparr>) 1000 sample_receipt st2 = (r, st')"
    using run ok bo by (simp add: run_job_def parse_relay_job_def run_call_def f seq_def)
  from keepsD [OF keeps_account _ this, of st2] have "rn_sent st' = rn_sent st2" by (simp add: same_queue_def)
  with st2 run that show thesis by simp
qed

theorem recorded_before_sent_witness:
  "\<exists>r st' tx j'. run_job sample_runner sample_config ''k1'' 2 1000 (Pay_Job (sample_call\<lparr>rc_broadcast := None\<rparr>))
      (sample_runner_state None) = (r, st') \<and> rn_sent st' = [tx] \<and>
      find_job ''k1'' (relay_queue (rn_store st')) = Some j' \<and>
      job_broadcast (qj_data j') = Some (broadcast_record sample_runner tx sample_hash)"
proof (rule sample_run_sends [of None])
  fix r st'
  let ?st = "sample_runner_state None"
  assume run: "run_job sample_runner sample_config ''k1'' 2 1000 (Pay_Job (sample_call\<lparr>rc_broadcast := None\<rparr>)) ?st = (r, st')"
    and sent: "rn_sent st' \<noteq> []"
  have "find_job ''k1'' (relay_queue (rn_store ?st)) = Some (sample_queued None)" "rn_sent ?st = []"
    "xw_keccak sample_runner h = sample_hash" for h
    by (simp_all add: find_job_def sample_runner_state_def sample_queued_def sample_runner_def)
  with recorded_before_sent [OF run] run sent show ?thesis by auto
qed simp

theorem resend_replaces_witness:
  "\<exists>r st' tx. run_job sample_runner sample_config ''k1'' 2 1000 (Pay_Job sample_call) (sample_runner_state (Some sample_broadcast)) = (r, st') \<and>
     rn_sent st' = [tx] \<and> st_nonce tx = 3 \<and> 90000000000 \<le> st_max_fee tx"
proof (rule sample_run_sends [of "Some sample_broadcast"])
  fix r st'
  let ?st = "sample_runner_state (Some sample_broadcast)"
  have c: "sample_call\<lparr>rc_broadcast := Some sample_broadcast\<rparr> = sample_call" by (simp add: sample_call_def)
  assume run: "run_job sample_runner sample_config ''k1'' 2 1000
      (Pay_Job (sample_call\<lparr>rc_broadcast := Some sample_broadcast\<rparr>)) ?st = (r, st')" and sent: "rn_sent st' \<noteq> []"
  have f: "job_broadcast (Pay_Job sample_call) = Some sample_broadcast" "rn_sent ?st = []"
    "recordedFees sample_broadcast = Some \<lparr>gp_max_fee = 80000000000, gp_priority = 0\<rparr>"
    "BigInt (bc_nonce sample_broadcast) = 3" "xw_count_latest sample_runner = Inr 3"
    by (simp_all add: sample_call_def sample_runner_state_def recordedFees_def sample_broadcast_def sample_big BigInt_def sample_runner_def)
  from resend_replaces [OF run [unfolded c] f(1)] sent f show ?thesis
    using run c by auto
qed simp

theorem settled_never_resent_witness:
  "\<exists>st'. run_job (sample_runner\<lparr>xw_receipt := \<lambda>_. Inr (Some sample_receipt)\<rparr>) sample_config ''k1'' 2 1000 (Pay_Job sample_call)
      (sample_runner_state (Some sample_broadcast)) = (Inr (Relayed sample_hash 12 sample_hash), st') \<and> rn_sent st' = []"
proof -
  let ?w = "sample_runner\<lparr>xw_receipt := \<lambda>_. Inr (Some sample_receipt)\<rparr>" and ?st = "sample_runner_state (Some sample_broadcast)"
  obtain r st' where run: "run_job ?w sample_config ''k1'' 2 1000 (Pay_Job sample_call) ?st = (r, st')" by fastforce
  have "settledReceipt ?w (bc_tx_hash sample_broadcast) = Inr (Some sample_receipt)" by (simp add: settledReceipt_def)
  moreover have "rc_broadcast sample_call = Some sample_broadcast" "xw_chain_id ?w = Some 5042002" "rn_sent ?st = []"
    "rp_status sample_receipt = Success_Receipt" "resultOf sample_receipt = Relayed sample_hash 12 sample_hash"
    by (simp_all add: sample_call_def sample_runner_def sample_runner_state_def sample_receipt_def resultOf_def)
  moreover have "relay_job_ok (Pay_Job sample_call)"
    using sample_call_ok [of "Some sample_broadcast"] sample_broadcast_ok by (simp add: sample_call_def)
  ultimately show ?thesis using settled_never_resent [OF _ _ _ _ run] run by auto
qed

theorem onchain_id_never_overwritten_witness:
  "\<exists>r st' m'. run_job sample_runner sample_config ''k1'' 2 1000 (Pay_Job sample_call) (sample_runner_state None) = (r, st') \<and>
     find_row m_id ''m1'' (merchants (rn_store st')) = Some m' \<and> m_onchain_merchant_id m' = Some 7"
proof -
  obtain r st' where run: "run_job sample_runner sample_config ''k1'' 2 1000 (Pay_Job sample_call) (sample_runner_state None) = (r, st')"
    by fastforce
  have "find_row m_id ''m1'' (merchants (rn_store (sample_runner_state None))) = Some sample_merchant"
    "m_onchain_merchant_id sample_merchant = Some 7"
    by (simp_all add: sample_runner_state_def sample_defs)
  from onchain_id_never_overwritten [OF run this] run show ?thesis by blast
qed

end
