(* ===== verification/Billing.thy ===== *)
theory Billing
  imports Sessions
begin

text \<open>
  Invoices (\<open>apps/api/src/modules/invoices/invoices.service.ts\<close>) and refunds
  (\<open>apps/api/src/modules/refunds/refunds.service.ts\<close>). The calendar year of an instant is a parameter
  (\<open>year\<close>); of the e-mail only the recipient, the subject and the values it shows are kept.
\<close>

section \<open>Text helpers\<close>

definition replace_char :: "char \<Rightarrow> string \<Rightarrow> string \<Rightarrow> string" where
  "replace_char c r s = concat (map (\<lambda>x. if x = c then r else [x]) s)"

definition escapeHtml :: "string \<Rightarrow> string" where
  "escapeHtml s =
     replace_char (CHR 0x27) ''&#39;'' (replace_char (CHR 0x22) ''&quot;''
       (replace_char (CHR ''>'') ''&gt;'' (replace_char (CHR ''<'') ''&lt;''
         (replace_char (CHR ''&'') ''&amp;'' s))))"

definition padStart :: "nat \<Rightarrow> char \<Rightarrow> string \<Rightarrow> string" where
  "padStart n c s = replicate (n - length s) c @ s"

definition strip_trailing_zeros :: "string \<Rightarrow> string" where
  "strip_trailing_zeros s = rev (dropWhile (\<lambda>c. c = CHR ''0'') (rev s))"

definition humanise :: "string \<Rightarrow> string" where
  "humanise rawAmount =
     (let v = big_nat rawAmount; whole = v div 1000000;
          frac = strip_trailing_zeros (padStart 6 (CHR ''0'') (show_nat (v mod 1000000)))
      in if frac = [] then show_nat whole else show_nat whole @ ''.'' @ frac)"

section \<open>Invoices\<close>

record invoice_input =
  ii_line_items :: "line_item list"
  ii_currency :: payment_currency
  ii_due_in_days :: int
  ii_customer_name :: "string option"
  ii_customer_email :: "string option"
  ii_note :: "string option"

definition invoice_subtotal :: "line_item list \<Rightarrow> int" where
  "invoice_subtotal items = foldl (\<lambda>acc li. acc + BigInt (li_unit_amount li) * int (li_quantity li)) 0 items"

text \<open>\<open>SPLIT_PART(number, '-', 2)::int\<close>; the cast fails on text that is not decimal.\<close>

definition sequence_part :: "string \<Rightarrow> nat option" where
  "sequence_part number =
     (let part = takeWhile (\<lambda>c. c \<noteq> CHR ''-'') (drop 1 (dropWhile (\<lambda>c. c \<noteq> CHR ''-'') number))
      in if token_amount_ok part then Some (big_nat part) else None)"

definition merchant_invoices :: "string \<Rightarrow> store \<Rightarrow> invoice_row list" where
  "merchant_invoices merchantId s = filter (\<lambda>r. iv_merchant_id r = merchantId) (invoices s)"

fun last_sequence :: "invoice_row list \<Rightarrow> nat option" where
  "last_sequence [] = Some 0"
| "last_sequence (r # rs) =
     (case (sequence_part (iv_number r), last_sequence rs) of
        (Some a, Some b) \<Rightarrow> Some (max a b)
      | _ \<Rightarrow> None)"

definition invoice_number :: "nat \<Rightarrow> nat \<Rightarrow> string" where
  "invoice_number year n = show_nat year @ ''-'' @ padStart 4 (CHR ''0'') (show_nat n)"

definition nextInvoiceNumber :: "nat \<Rightarrow> string \<Rightarrow> (store, api_exn, string) proc" where
  "nextInvoiceNumber year merchantId =
     seq (gets (\<lambda>s. last_sequence (merchant_invoices merchantId s))) (\<lambda>last.
     seq (or_raise (Crash ''invalid input syntax for type integer'') last) (\<lambda>n.
     ret (invoice_number year (n + 1))))"

record invoice_ids =
  ij_invoice :: string
  ij_session :: string
  ij_event :: string

definition invoice_session ::
  "config \<Rightarrow> string \<Rightarrow> int \<Rightarrow> string \<Rightarrow> api_mode \<Rightarrow> invoice_input \<Rightarrow> string \<Rightarrow> string \<Rightarrow> int \<Rightarrow> int \<Rightarrow> int \<Rightarrow> session_row" where
  "invoice_session cfg sid now merchantId mode input amount number fee net dueAt = \<lparr>
     ps_id = sid, ps_merchant_id = merchantId, ps_customer_id = None, ps_status = Created,
     ps_amount = amount, ps_currency = ii_currency input, ps_fee_amount = show_int fee,
     ps_net_amount = show_int net, ps_description = Some (''Invoice '' @ number),
     ps_payer_wallet_address = None, ps_payer_email = None, ps_success_url = None, ps_cancel_url = None,
     ps_source_chain = None, ps_bridge_tx_hash = None, ps_onchain_tx_hash = None,
     ps_checkout_url = checkout_url cfg sid, ps_storefront_product_id = None, ps_mode = mode,
     ps_metadata = [], ps_expires_at = dueAt, ps_created_at = now, ps_updated_at = now\<rparr>"

definition new_invoice ::
  "string \<Rightarrow> int \<Rightarrow> string \<Rightarrow> api_mode \<Rightarrow> invoice_input \<Rightarrow> string \<Rightarrow> string \<Rightarrow> string \<Rightarrow> int \<Rightarrow> invoice_row" where
  "new_invoice iid now merchantId mode input amount number sid dueAt = \<lparr>
     iv_id = iid, iv_merchant_id = merchantId, iv_number = number,
     iv_customer_name = ii_customer_name input, iv_customer_email = ii_customer_email input,
     iv_line_items = ii_line_items input, iv_subtotal = amount, iv_total = amount,
     iv_currency = ii_currency input, iv_status = Draft, iv_note = ii_note input,
     iv_session_id = Some sid, iv_mode = mode, iv_due_at = dueAt, iv_paid_at = None, iv_sent_at = None,
     iv_created_at = now, iv_updated_at = now\<rparr>"

definition create_invoice ::
  "config \<Rightarrow> registry_fees \<Rightarrow> nat \<Rightarrow> invoice_ids \<Rightarrow> int \<Rightarrow> string \<Rightarrow> api_mode \<Rightarrow> invoice_input \<Rightarrow>
   (store, api_exn, invoice_wire) proc" where
  "create_invoice cfg registry year ids now merchantId mode input =
     seq (requestRegistration now merchantId) (\<lambda>_.
     let amount = show_int (invoice_subtotal (ii_line_items input));
         dueAt = now + ii_due_in_days input * 86400000 in
     seq (assertMinimumAmount (BigInt amount)) (\<lambda>_.
     seq (find_merchant merchantId) (\<lambda>merchant.
     seq (feeBpsFor registry merchant) (\<lambda>feeBps.
     seq (lift_sum (feeSplit (BigInt amount) (int feeBps))) (\<lambda>(fee, net).
     seq (in_tx (
       seq (nextInvoiceNumber year merchantId) (\<lambda>number.
       seq (modify (\<lambda>s. s\<lparr>sessions := sessions s @
         [invoice_session cfg (ij_session ids) now merchantId mode input amount number fee net dueAt]\<rparr>)) (\<lambda>_.
       let invoice = new_invoice (ij_invoice ids) now merchantId mode input amount number (ij_session ids) dueAt in
       seq (modify (\<lambda>s. s\<lparr>invoices := invoices s @ [invoice]\<rparr>)) (\<lambda>_.
       ret invoice))))) (\<lambda>invoice.
     seq (catch (fire (ij_event ids) now merchantId mode ''invoice.created'' (Invoice_Body (serialise_invoice invoice))) (\<lambda>_. ret ())) (\<lambda>_.
     ret (serialise_invoice invoice))))))))"

definition find_own_invoice :: "string \<Rightarrow> api_mode \<Rightarrow> string \<Rightarrow> store \<Rightarrow> invoice_row option" where
  "find_own_invoice merchantId mode i s =
     find (\<lambda>r. iv_id r = i \<and> iv_merchant_id r = merchantId \<and> iv_mode r = mode) (invoices s)"

definition retrieve_invoice :: "string \<Rightarrow> api_mode \<Rightarrow> string \<Rightarrow> (store, api_exn, invoice_wire) proc" where
  "retrieve_invoice merchantId mode i =
     seq (gets (find_own_invoice merchantId mode i)) (\<lambda>found.
     seq (or_raise not_found found) (\<lambda>row. ret (serialise_invoice row)))"

definition invoice_rows ::
  "string \<Rightarrow> api_mode \<Rightarrow> invoice_status option \<Rightarrow> string option \<Rightarrow> store \<Rightarrow> invoice_row list" where
  "invoice_rows merchantId mode status customer s =
     newest_first iv_created_at (filter (\<lambda>r. iv_merchant_id r = merchantId \<and> iv_mode r = mode \<and>
       (case status of None \<Rightarrow> True | Some st \<Rightarrow> iv_status r = st) \<and>
       (truthy customer \<longrightarrow> (\<exists>x\<in>set (sessions s). Some (ps_id x) = iv_session_id r \<and> ps_customer_id x = customer)))
       (invoices s))"

definition list_invoices ::
  "string \<Rightarrow> api_mode \<Rightarrow> invoice_status option \<Rightarrow> string option \<Rightarrow> list_params \<Rightarrow> store \<Rightarrow> invoice_wire page" where
  "list_invoices merchantId mode status customer p s =
     map_page serialise_invoice (list_page iv_id p (invoice_rows merchantId mode status customer s))"

datatype invoice_patch = Mark_Sent | Mark_Void | Mark_Overdue

fun patch_invoice :: "invoice_patch \<times> int \<Rightarrow> invoice_row \<Rightarrow> invoice_row" where
  "patch_invoice (Mark_Sent, now) r = r\<lparr>iv_status := Sent, iv_sent_at := Some now, iv_updated_at := now\<rparr>"
| "patch_invoice (Mark_Void, now) r = r\<lparr>iv_status := Void, iv_updated_at := now\<rparr>"
| "patch_invoice (Mark_Overdue, now) r = r\<lparr>iv_status := Overdue, iv_updated_at := now\<rparr>"

definition send_invoice :: "config \<Rightarrow> int \<Rightarrow> string \<Rightarrow> api_mode \<Rightarrow> string \<Rightarrow> (store, api_exn, invoice_wire) proc" where
  "send_invoice cfg now merchantId mode i =
     seq (gets (find_own_invoice merchantId mode i)) (\<lambda>found.
     seq (or_raise not_found found) (\<lambda>row.
     if \<not> truthy (iv_customer_email row) then raise (forbidden ''invalid_request'')
     else if iv_status row = Void then raise (forbidden ''session_invalid_state'')
     else
       let url = (case iv_session_id row of None \<Rightarrow> cf_api_base_url cfg
                  | Some sid \<Rightarrow> if sid = [] then cf_api_base_url cfg else checkout_url cfg sid) in
       seq (modify (\<lambda>s. s\<lparr>emails := emails s @ [\<lparr>em_to = the (iv_customer_email row),
            em_subject = ''Invoice '' @ iv_number row @ '' from your supplier'',
            em_about = [escapeHtml (iv_number row), humanise (iv_total row), url]\<rparr>]\<rparr>)) (\<lambda>_.
       seq (modify (\<lambda>s. s\<lparr>invoices := update_where (\<lambda>r. iv_id r = iv_id row) (patch_invoice (Mark_Sent, now)) (invoices s)\<rparr>)) (\<lambda>_.
       ret (serialise_invoice (patch_invoice (Mark_Sent, now) row))))))"

definition voidInvoice :: "int \<Rightarrow> string \<Rightarrow> api_mode \<Rightarrow> string \<Rightarrow> (store, api_exn, invoice_wire) proc" where
  "voidInvoice now merchantId mode i =
     seq (gets (find_own_invoice merchantId mode i)) (\<lambda>found.
     seq (or_raise not_found found) (\<lambda>row.
     if iv_status row = Paid then raise (forbidden ''session_invalid_state'')
     else
       seq (modify (\<lambda>s. s\<lparr>invoices := update_where (\<lambda>r. iv_id r = iv_id row) (patch_invoice (Mark_Void, now)) (invoices s)\<rparr>)) (\<lambda>_.
       seq (case iv_session_id row of None \<Rightarrow> ret ()
            | Some sid \<Rightarrow> if sid = [] then ret () else
                seq (gets (find_session sid)) (\<lambda>x. seq (or_raise p2025 x) (\<lambda>_.
                modify (\<lambda>s. s\<lparr>sessions := update_where (\<lambda>r. ps_id r = sid) (patch_session (Set_Status Cancelled) now) (sessions s)\<rparr>)))) (\<lambda>_.
       ret (serialise_invoice (patch_invoice (Mark_Void, now) row))))))"

section \<open>Refunds\<close>

record refund_input =
  rj_transaction_id :: string
  rj_amount :: string
  rj_reason :: string
  rj_note :: "string option"

record refund_output =
  ro_refund :: refund_wire
  ro_token :: string
  ro_to :: string
  ro_amount :: string
  ro_note :: string

definition tokenAddressFor :: "config \<Rightarrow> payment_currency \<Rightarrow> (store, api_exn, string) proc" where
  "tokenAddressFor cfg currency =
     (let addr = (if currency = EURC then cf_arc_eurc_address cfg else cf_arc_usdc_address cfg)
      in if truthy addr then ret (the addr) else raise (bad_request ''invalid_request''))"

definition ACTIVE_REFUND_STATUSES :: "refund_status list" where
  "ACTIVE_REFUND_STATUSES = [Rf_Pending, Awaiting_Signature, Rf_Submitted, Rf_Completed]"

definition refunded_total :: "string \<Rightarrow> store \<Rightarrow> int" where
  "refunded_total txId s =
     foldl (\<lambda>acc r. acc + BigInt (rf_amount r)) 0
       (filter (\<lambda>r. rf_transaction_id r = txId \<and> rf_status r \<in> set ACTIVE_REFUND_STATUSES) (refunds s))"

definition refund_check ::
  "config \<Rightarrow> string \<Rightarrow> api_mode \<Rightarrow> refund_input \<Rightarrow> (store, api_exn, tx_row \<times> string) proc" where
  "refund_check cfg merchantId mode input =
     seq (gets (\<lambda>s. find (\<lambda>r. tx_id r = rj_transaction_id input \<and> tx_merchant_id r = merchantId \<and> tx_mode r = mode) (transactions s))) (\<lambda>found.
     seq (or_raise not_found found) (\<lambda>tx.
     if tx_status tx \<noteq> Tx_Confirmed then raise (forbidden ''session_invalid_state'')
     else
       seq (gets (refunded_total (tx_id tx))) (\<lambda>priorTotal.
       if BigInt (tx_amount tx) < priorTotal + BigInt (rj_amount input)
       then raise (Http 400 ''invalid_request'' (Fields [show_int (BigInt (tx_amount tx)), show_int priorTotal,
              show_int (BigInt (rj_amount input))]))
       else seq (tokenAddressFor cfg (tx_currency tx)) (\<lambda>token. ret (tx, token)))))"

definition new_refund :: "string \<Rightarrow> int \<Rightarrow> string \<Rightarrow> string \<Rightarrow> refund_input \<Rightarrow> tx_row \<Rightarrow> refund_row" where
  "new_refund rid now merchantId actorId input tx = \<lparr>
     rf_id = rid, rf_merchant_id = merchantId, rf_transaction_id = tx_id tx, rf_amount = rj_amount input,
     rf_currency = tx_currency tx, rf_reason = rj_reason input, rf_note = rj_note input,
     rf_status = Awaiting_Signature, rf_payer_address = tx_payer_address tx, rf_refund_tx_hash = None,
     rf_failure_reason = None, rf_initiated_by_id = actorId, rf_mode = tx_mode tx, rf_created_at = now,
     rf_completed_at = None\<rparr>"

definition refund_insert ::
  "string \<Rightarrow> string \<Rightarrow> int \<Rightarrow> string \<Rightarrow> string \<Rightarrow> refund_input \<Rightarrow> tx_row \<times> string \<Rightarrow>
   (store, api_exn, refund_output) proc" where
  "refund_insert rid eid now merchantId actorId input checked =
     (case checked of (tx, token) \<Rightarrow>
        let refund = new_refund rid now merchantId actorId input tx in
        seq (modify (\<lambda>s. s\<lparr>refunds := refunds s @ [refund]\<rparr>)) (\<lambda>_.
        seq (catch (fire eid now merchantId (tx_mode tx) ''refund.created'' (Refund_Body (serialise_refund refund))) (\<lambda>_. ret ())) (\<lambda>_.
        ret \<lparr>ro_refund = serialise_refund refund, ro_token = token, ro_to = tx_payer_address tx, ro_amount = rj_amount input,
             ro_note = (case rj_note input of None \<Rightarrow> ''Refund for transaction '' @ tx_id tx | Some n \<Rightarrow> n)\<rparr>)))"

definition create_refund ::
  "config \<Rightarrow> string \<Rightarrow> string \<Rightarrow> int \<Rightarrow> string \<Rightarrow> api_mode \<Rightarrow> string \<Rightarrow> refund_input \<Rightarrow>
   (store, api_exn, refund_output) proc" where
  "create_refund cfg rid eid now merchantId mode actorId input =
     seq (refund_check cfg merchantId mode input) (refund_insert rid eid now merchantId actorId input)"

definition find_own_refund :: "string \<Rightarrow> api_mode \<Rightarrow> string \<Rightarrow> store \<Rightarrow> refund_row option" where
  "find_own_refund merchantId mode i s =
     find (\<lambda>r. rf_id r = i \<and> rf_merchant_id r = merchantId \<and> rf_mode r = mode) (refunds s)"

definition retrieve_refund :: "string \<Rightarrow> api_mode \<Rightarrow> string \<Rightarrow> (store, api_exn, refund_wire) proc" where
  "retrieve_refund merchantId mode i =
     seq (gets (find_own_refund merchantId mode i)) (\<lambda>found.
     seq (or_raise not_found found) (\<lambda>row. ret (serialise_refund row)))"

definition refund_rows ::
  "string \<Rightarrow> api_mode \<Rightarrow> refund_status option \<Rightarrow> string option \<Rightarrow> store \<Rightarrow> refund_row list" where
  "refund_rows merchantId mode status customer s =
     newest_first rf_created_at (filter (\<lambda>r. rf_merchant_id r = merchantId \<and> rf_mode r = mode \<and>
       (case status of None \<Rightarrow> True | Some st \<Rightarrow> rf_status r = st) \<and>
       (truthy customer \<longrightarrow> (\<exists>t\<in>set (transactions s). tx_id t = rf_transaction_id r \<and> tx_merchant_id t = merchantId \<and>
          tx_mode t = mode \<and> tx_customer_id t = customer))) (refunds s))"

definition list_refunds ::
  "string \<Rightarrow> api_mode \<Rightarrow> refund_status option \<Rightarrow> string option \<Rightarrow> list_params \<Rightarrow> store \<Rightarrow> refund_wire page" where
  "list_refunds merchantId mode status customer p s =
     map_page serialise_refund (list_page rf_id p (refund_rows merchantId mode status customer s))"

definition submit_patch :: "string \<Rightarrow> refund_row \<Rightarrow> refund_row" where
  "submit_patch h r = r\<lparr>rf_status := Rf_Submitted, rf_refund_tx_hash := Some h\<rparr>"

definition submitSignature :: "string \<Rightarrow> api_mode \<Rightarrow> string \<Rightarrow> string \<Rightarrow> (store, api_exn, refund_wire) proc" where
  "submitSignature merchantId mode i refundTxHash =
     seq (gets (find_own_refund merchantId mode i)) (\<lambda>found.
     seq (or_raise not_found found) (\<lambda>refund.
     if rf_status refund \<noteq> Awaiting_Signature then raise (forbidden ''session_invalid_state'')
     else
       seq (modify (\<lambda>s. s\<lparr>refunds := update_where (\<lambda>r. rf_id r = rf_id refund) (submit_patch refundTxHash) (refunds s)\<rparr>)) (\<lambda>_.
       ret (serialise_refund (submit_patch refundTxHash refund)))))"

section \<open>Row updates and lists\<close>

lemma patch_invoice_id [simp]: "iv_id (patch_invoice p r) = iv_id r"
  by (cases p, cases "fst p") auto

interpretation invoice_patch: row_update iv_id patch_invoice
  by unfold_locales simp

interpretation refund_submit: row_update rf_id submit_patch
  by unfold_locales (simp add: submit_patch_def)

definition invoice_keys_ok :: "store \<Rightarrow> bool" where
  "invoice_keys_ok s \<longleftrightarrow> distinct (map iv_id (invoices s)) \<and> (\<forall>r\<in>set (invoices s). iv_id r \<noteq> [])"

definition refund_keys_ok :: "store \<Rightarrow> bool" where
  "refund_keys_ok s \<longleftrightarrow> distinct (map rf_id (refunds s)) \<and> (\<forall>r\<in>set (refunds s). rf_id r \<noteq> [])"

interpretation invoice_pages: paged_rows iv_id "invoice_rows m mode st cu" invoice_keys_ok for m mode st cu
proof
  fix s :: store
  assume ok: "invoice_keys_ok s"
  then show "distinct (map iv_id (invoice_rows m mode st cu s))"
    unfolding invoice_rows_def invoice_keys_ok_def by (blast intro: distinct_map_filter_sort)
  show "iv_id r \<noteq> []" if "r \<in> set (invoice_rows m mode st cu s)" for r
    using that ok by (auto simp: invoice_rows_def invoice_keys_ok_def)
qed

interpretation refund_pages: paged_rows rf_id "refund_rows m mode st cu" refund_keys_ok for m mode st cu
proof
  fix s :: store
  assume ok: "refund_keys_ok s"
  then show "distinct (map rf_id (refund_rows m mode st cu s))"
    unfolding refund_rows_def refund_keys_ok_def by (blast intro: distinct_map_filter_sort)
  show "rf_id r \<noteq> []" if "r \<in> set (refund_rows m mode st cu s)" for r
    using that ok by (auto simp: refund_rows_def refund_keys_ok_def)
qed

section \<open>Text lemmas\<close>

lemma set_replace_char: "set (replace_char c r s) \<subseteq> set r \<union> (set s - {c})"
  by (auto simp: replace_char_def)

lemma set_escapeHtml: "set (escapeHtml s) \<inter> {CHR ''<'', CHR ''>'', CHR 0x22, CHR 0x27} = {}"
proof -
  let ?a = "replace_char (CHR ''&'') ''&amp;'' s"
  let ?b = "replace_char (CHR ''<'') ''&lt;'' ?a"
  let ?c = "replace_char (CHR ''>'') ''&gt;'' ?b"
  let ?d = "replace_char (CHR 0x22) ''&quot;'' ?c"
  have b: "CHR ''<'' \<notin> set ?b" using set_replace_char [of "CHR ''<''" "''&lt;''" ?a] by auto
  have c: "CHR ''<'' \<notin> set ?c" "CHR ''>'' \<notin> set ?c"
    using set_replace_char [of "CHR ''>''" "''&gt;''" ?b] b by auto
  have d: "CHR ''<'' \<notin> set ?d" "CHR ''>'' \<notin> set ?d" "CHR 0x22 \<notin> set ?d"
    using set_replace_char [of "CHR 0x22" "''&quot;''" ?c] c by auto
  show ?thesis
    using set_replace_char [of "CHR 0x27" "''&#39;''" ?d] d by (auto simp: escapeHtml_def)
qed

lemma show_nat_no_char:
  assumes "\<not> is_digit c"
  shows "c \<notin> set (show_nat n)"
  using show_nat_digits [of n] assms by (auto simp: list_all_iff)

lemma big_nat_foldl: "foldl (\<lambda>a c. 10 * a + digit_of c) x s = x * 10 ^ length s + big_nat s"
proof (induction s arbitrary: x)
  case Nil
  then show ?case by (simp add: big_nat_def)
next
  case (Cons c s)
  from Cons.IH [of "10 * x + digit_of c"] Cons.IH [of "digit_of c"] show ?case
    by (simp add: big_nat_def algebra_simps)
qed

lemma big_nat_append: "big_nat (s @ t) = big_nat s * 10 ^ length t + big_nat t"
  using big_nat_foldl [of "big_nat s" t] by (simp add: big_nat_def)

lemma big_nat_zeros [simp]: "big_nat (replicate n (CHR ''0'')) = 0"
  by (induction n) (simp_all add: big_nat_def digit_of_def)

lemma big_nat_padStart [simp]: "big_nat (padStart n (CHR ''0'') s) = big_nat s"
  by (simp add: padStart_def big_nat_append)

lemma is_digit_zero: "is_digit (CHR ''0'')"
  by (simp add: is_digit_def)

lemma padStart_digits: "list_all is_digit s \<Longrightarrow> list_all is_digit (padStart n (CHR ''0'') s)"
  by (auto simp: padStart_def list_all_iff is_digit_zero)

lemma dropWhile_to: "c \<notin> set xs \<Longrightarrow> dropWhile (\<lambda>x. x \<noteq> c) (xs @ c # ys) = c # ys"
  by (induction xs) auto

lemma takeWhile_to_end: "c \<notin> set xs \<Longrightarrow> takeWhile (\<lambda>x. x \<noteq> c) xs = xs"
  by (induction xs) auto

lemma dropWhile_to_end: "c \<notin> set xs \<Longrightarrow> dropWhile (\<lambda>x. x \<noteq> c) xs = []"
  by (induction xs) auto

lemma takeWhile_to: "c \<notin> set xs \<Longrightarrow> takeWhile (\<lambda>x. x \<noteq> c) (xs @ c # ys) = xs"
  by (induction xs) auto

lemma sequence_part_invoice_number [simp]: "sequence_part (invoice_number year n) = Some n"
proof -
  let ?t = "padStart 4 (CHR ''0'') (show_nat n)"
  have dash: "CHR ''-'' \<notin> set (show_nat m)" for m
    by (rule show_nat_no_char) (simp add: is_digit_def)
  then have tdash: "CHR ''-'' \<notin> set ?t" by (simp add: padStart_def)
  have "dropWhile (\<lambda>c. c \<noteq> CHR ''-'') (invoice_number year n) = CHR ''-'' # ?t"
    using dropWhile_to [OF dash, of year ?t] by (simp add: invoice_number_def)
  moreover have "token_amount_ok ?t"
    using padStart_digits [OF show_nat_digits] by (auto simp: token_amount_ok_def padStart_def)
  ultimately show ?thesis by (simp add: sequence_part_def takeWhile_to_end [OF tdash])
qed

lemma last_sequence_Some:
  "last_sequence rs = Some n \<Longrightarrow> r \<in> set rs \<Longrightarrow> \<exists>k. sequence_part (iv_number r) = Some k \<and> k \<le> n"
proof (induction rs arbitrary: n)
  case Nil
  then show ?case by simp
next
  case (Cons a rs)
  then show ?case by (fastforce split: option.splits)
qed

lemma length_show_nat: "n < 10 ^ k \<Longrightarrow> 0 < k \<Longrightarrow> length (show_nat n) \<le> k"
proof (induction k arbitrary: n)
  case 0
  then show ?case by simp
next
  case (Suc k)
  show ?case
  proof (cases "n < 10")
    case True
    then show ?thesis by (subst show_nat.simps) simp
  next
    case False
    then have "0 < k" using Suc.prems by (cases k) auto
    moreover have "n div 10 < 10 ^ k" using Suc.prems by (simp add: less_mult_imp_div_less mult.commute)
    ultimately have "length (show_nat (n div 10)) \<le> k" by (rule Suc.IH [rotated])
    with False show ?thesis by (subst show_nat.simps) simp
  qed
qed

lemma takeWhile_eq_replicate: "takeWhile (\<lambda>x. x = c) xs = replicate (length (takeWhile (\<lambda>x. x = c) xs)) c"
  by (induction xs) auto

lemma strip_trailing_zeros_pad:
  "strip_trailing_zeros s @ replicate (length s - length (strip_trailing_zeros s)) (CHR ''0'') = s"
proof -
  let ?z = "\<lambda>c. c = CHR ''0''"
  have "rev s = takeWhile ?z (rev s) @ dropWhile ?z (rev s)" by simp
  then have "s = rev (dropWhile ?z (rev s)) @ rev (takeWhile ?z (rev s))"
    by (metis rev_append rev_rev_ident)
  also have "takeWhile ?z (rev s) = replicate (length (takeWhile ?z (rev s))) (CHR ''0'')"
    by (rule takeWhile_eq_replicate)
  finally have split: "s = strip_trailing_zeros s @ replicate (length (takeWhile ?z (rev s))) (CHR ''0'')"
    by (simp add: strip_trailing_zeros_def)
  then have "length s = length (strip_trailing_zeros s) + length (takeWhile ?z (rev s))"
    by (metis length_append length_replicate)
  then have "length s - length (strip_trailing_zeros s) = length (takeWhile ?z (rev s))" by simp
  with split show ?thesis by simp
qed

section \<open>Invoice lemmas\<close>

lemma invoice_session_money:
  assumes "feeSplit (BigInt amount) bps = Inr (fee, net)" and "MINIMUM_PAYMENT_AMOUNT \<le> BigInt amount"
  shows "session_money_ok (invoice_session cfg sid now m mode input amount number fee net due)"
  using feeSplit_sum [OF assms(1)] feeSplit_bounds [OF assms(1)] assms(2)
  by (simp add: session_money_ok_def invoice_session_def)

lemma invoice_subtotal_nonneg: "0 \<le> invoice_subtotal items"
proof -
  have "0 \<le> a \<Longrightarrow> 0 \<le> foldl (\<lambda>acc li. acc + BigInt (li_unit_amount li) * int (li_quantity li)) a items" for a
    by (induction items arbitrary: a) auto
  then show ?thesis by (simp add: invoice_subtotal_def)
qed

lemma create_invoice_result:
  assumes "create_invoice cfg registry year ids now mid mode input s = (Inr w, s')"
  obtains n fee net bps where
    "last_sequence (merchant_invoices mid s) = Some n"
    "feeSplit (invoice_subtotal (ii_line_items input)) (int bps) = Inr (fee, net)"
    "MINIMUM_PAYMENT_AMOUNT \<le> invoice_subtotal (ii_line_items input)"
    "w = serialise_invoice (new_invoice (ij_invoice ids) now mid mode input (show_int (invoice_subtotal (ii_line_items input)))
       (invoice_number year (n + 1)) (ij_session ids) (now + ii_due_in_days input * 86400000))"
    "invoices s' = invoices s @ [new_invoice (ij_invoice ids) now mid mode input (show_int (invoice_subtotal (ii_line_items input)))
       (invoice_number year (n + 1)) (ij_session ids) (now + ii_due_in_days input * 86400000)]"
    "sessions s' = sessions s @ [invoice_session cfg (ij_session ids) now mid mode input
       (show_int (invoice_subtotal (ii_line_items input))) (invoice_number year (n + 1)) fee net
       (now + ii_due_in_days input * 86400000)]"
proof -
  from assms obtain u s1 where reg: "requestRegistration now mid s = (Inr u, s1)"
    by (auto simp: create_invoice_def seq_Inr_iff)
  from requestRegistration_frame [OF reg] have same: "sessions s1 = sessions s" "invoices s1 = invoices s" by auto
  have big: "BigInt (show_int (invoice_subtotal (ii_line_items input))) = invoice_subtotal (ii_line_items input)"
    by (simp add: invoice_subtotal_nonneg)
  from assms reg obtain m where m: "find_row m_id mid (merchants s1) = Some m"
    and min: "MINIMUM_PAYMENT_AMOUNT \<le> invoice_subtotal (ii_line_items input)"
    by (auto simp: create_invoice_def seq_Inr Let_def assertMinimumAmount_def big split: if_splits option.splits)
  from assms reg m min obtain bps where bps: "feeBpsFor registry m s1 = (Inr bps, s1)"
    by (cases "feeBpsFor registry m s1"; cases "fst (feeBpsFor registry m s1)")
      (auto simp: create_invoice_def assertMinimumAmount_def big seq_Inr seq_Inl Let_def dest: feeBpsFor_state)
  from assms reg m min bps obtain fee net where
    split: "feeSplit (invoice_subtotal (ii_line_items input)) (int bps) = Inr (fee, net)"
    by (cases "feeSplit (invoice_subtotal (ii_line_items input)) (int bps)")
      (auto simp: create_invoice_def assertMinimumAmount_def big seq_Inr Let_def)
  from assms reg m min bps split obtain n where n: "last_sequence (merchant_invoices mid s1) = Some n"
    by (cases "last_sequence (merchant_invoices mid s1)")
      (auto simp: create_invoice_def assertMinimumAmount_def big seq_def in_tx_def nextInvoiceNumber_def Let_def)
  have n': "last_sequence (merchant_invoices mid s) = Some n"
    using n same by (simp add: merchant_invoices_def)
  show thesis
  proof (rule that [OF n' split min])
  qed (use assms reg m min bps split n same in
      \<open>auto simp: create_invoice_def assertMinimumAmount_def big seq_def in_tx_def nextInvoiceNumber_def catch_def Let_def\<close>)
qed

section \<open>Refund lemmas\<close>

lemma refunded_total_eq:
  "refunded_total i s = sum_list (map (\<lambda>r. BigInt (rf_amount r))
     (filter (\<lambda>r. rf_transaction_id r = i \<and> rf_status r \<in> set ACTIVE_REFUND_STATUSES) (refunds s)))"
proof -
  have "foldl (\<lambda>acc r. acc + BigInt (rf_amount r)) a xs = a + sum_list (map (\<lambda>r. BigInt (rf_amount r)) xs)" for a and xs :: "refund_row list"
    by (induction xs arbitrary: a) auto
  then show ?thesis by (simp add: refunded_total_def)
qed

text \<open>No transaction is refunded beyond its amount.\<close>

definition refunds_ok :: "store \<Rightarrow> bool" where
  "refunds_ok s \<longleftrightarrow> (\<forall>t\<in>set (transactions s). refunded_total (tx_id t) s \<le> BigInt (tx_amount t))"

lemma refund_check_Inr:
  assumes "refund_check cfg mid mode input s = (Inr (tx, token), s')"
  shows "s' = s \<and> tx \<in> set (transactions s) \<and> tx_id tx = rj_transaction_id input \<and> tx_merchant_id tx = mid \<and>
    tx_mode tx = mode \<and> tx_status tx = Tx_Confirmed \<and>
    refunded_total (tx_id tx) s + BigInt (rj_amount input) \<le> BigInt (tx_amount tx)"
  using assms
  by (auto simp: refund_check_def tokenAddressFor_def Let_def seq_def find_Some_iff split: option.splits if_splits)

lemma refund_check_pure: "snd (refund_check cfg mid mode input s) = s"
  by (simp add: refund_check_def tokenAddressFor_def Let_def seq_def split: option.split)

lemma refund_insert_state:
  "\<exists>ev. snd (refund_insert rid eid now mid actor input (tx, token) s) =
     s\<lparr>refunds := refunds s @ [new_refund rid now mid actor input tx], events := ev\<rparr>"
  by (simp add: refund_insert_def Let_def catch_def seq_def) blast

lemma refund_insert_total:
  "refunds s' = refunds s @ [new_refund rid now mid actor input tx] \<Longrightarrow>
   refunded_total i s' = refunded_total i s + (if i = tx_id tx then BigInt (rj_amount input) else 0)"
  by (simp add: refunded_total_eq new_refund_def ACTIVE_REFUND_STATUSES_def)

lemma refunds_ok_create:
  assumes ok: "refunds_ok s" and keys: "distinct (map tx_id (transactions s))"
  shows "refunds_ok (snd (create_refund cfg rid eid now mid mode actor input s))"
proof (cases "fst (refund_check cfg mid mode input s)")
  case (Inl e)
  with refund_check_pure [of cfg mid mode input s]
  have "refund_check cfg mid mode input s = (Inl e, s)" by (metis prod.collapse)
  with ok show ?thesis by (simp add: create_refund_def seq_Inl)
next
  case (Inr c)
  obtain tx token where c: "c = (tx, token)" by fastforce
  have run: "refund_check cfg mid mode input s = (Inr (tx, token), s)"
    using Inr c refund_check_pure [of cfg mid mode input s] by (metis prod.collapse)
  note chk = refund_check_Inr [OF run]
  obtain ev where s': "snd (create_refund cfg rid eid now mid mode actor input s) =
      s\<lparr>refunds := refunds s @ [new_refund rid now mid actor input tx], events := ev\<rparr>" (is "_ = ?s'")
    using refund_insert_state [of rid eid now mid actor input tx token s] run
    by (auto simp: create_refund_def seq_Inr)
  have tot: "refunded_total i ?s' = refunded_total i s + (if i = tx_id tx then BigInt (rj_amount input) else 0)" for i
    by (rule refund_insert_total) simp
  show ?thesis
    unfolding s' refunds_ok_def
  proof
    fix t
    assume "t \<in> set (transactions ?s')"
    then have t: "t \<in> set (transactions s)" by simp
    show "refunded_total (tx_id t) ?s' \<le> BigInt (tx_amount t)"
    proof (cases "tx_id t = tx_id tx")
      case True
      then have "t = tx" using keys t chk by (auto simp: distinct_map inj_on_def)
      with chk tot show ?thesis by auto
    next
      case False
      with ok t tot show ?thesis by (simp add: refunds_ok_def)
    qed
  qed
qed

lemma refunds_ok_submit:
  assumes "refunds_ok s" and "distinct (map rf_id (refunds s))"
  shows "refunds_ok (snd (submitSignature mid mode i h s))"
proof -
  have sub: "refunded_total j (s\<lparr>refunds := update_where (\<lambda>r. rf_id r = k) (submit_patch h) (refunds s)\<rparr>) = refunded_total j s"
    if k: "find_row rf_id k (refunds s) = Some x" "rf_status x = Awaiting_Signature" for j k x
  proof -
    have "\<forall>r\<in>set (refunds s). rf_id r = k \<longrightarrow> rf_status r = Awaiting_Signature"
      using distinct_key_eq [OF assms(2) k(1)] k(2) by blast
    then have "map (\<lambda>r. BigInt (rf_amount r)) (filter (\<lambda>r. rf_transaction_id r = j \<and> rf_status r \<in> set ACTIVE_REFUND_STATUSES)
          (update_where (\<lambda>r. rf_id r = k) (submit_patch h) t)) =
        map (\<lambda>r. BigInt (rf_amount r)) (filter (\<lambda>r. rf_transaction_id r = j \<and> rf_status r \<in> set ACTIVE_REFUND_STATUSES) t)"
      if "set t \<subseteq> set (refunds s)" for t
      using that by (induction t) (auto simp: submit_patch_def ACTIVE_REFUND_STATUSES_def)
    then show ?thesis by (simp add: refunded_total_eq)
  qed
  have found: "find_row rf_id (rf_id x) (refunds s) = Some x" if "find_own_refund mid mode i s = Some x" for x
    using that unfolding find_own_refund_def find_row_and [OF assms(2)]
    by (auto split: option.splits if_splits dest: find_row_Some)
  show ?thesis
    using assms(1) sub found
    by (auto simp: submitSignature_def refunds_ok_def seq_def split: option.split)
qed

section \<open>Properties\<close>

text \<open>
  Escaped text carries no markup: whatever a merchant or payer typed, the escaped form contains none of
  the characters that open a tag or close an attribute.
\<close>

theorem escapeHtml_safe:
  "CHR ''<'' \<notin> set (escapeHtml s) \<and> CHR ''>'' \<notin> set (escapeHtml s) \<and>
   CHR 0x22 \<notin> set (escapeHtml s) \<and> CHR 0x27 \<notin> set (escapeHtml s)"
  using set_escapeHtml [of s] by auto

text \<open>The reading of a displayed amount, for the round trip: the digits before the point, and those behind it filled up to six.\<close>

definition read_display :: "string \<Rightarrow> nat" where
  "read_display d =
     (let whole = takeWhile (\<lambda>c. c \<noteq> CHR ''.'') d; frac = drop 1 (dropWhile (\<lambda>c. c \<noteq> CHR ''.'') d)
      in big_nat whole * 1000000 + big_nat (frac @ replicate (6 - length frac) (CHR ''0'')))"

text \<open>
  The displayed amount is exact: reading back what \<open>humanise\<close> shows gives the amount in the
  token's smallest unit, with nothing rounded away.
\<close>

theorem humanise_exact: "read_display (humanise a) = big_nat a"
proof -
  let ?v = "big_nat a"
  let ?p = "padStart 6 (CHR ''0'') (show_nat (?v mod 1000000))"
  let ?f = "strip_trailing_zeros ?p"
  let ?w = "show_nat (?v div 1000000)"
  have dot: "CHR ''.'' \<notin> set ?w" by (rule show_nat_no_char) (simp add: is_digit_def)
  have "?v mod 1000000 < 10 ^ 6" by simp
  then have "length (show_nat (?v mod 1000000)) \<le> 6" by (rule length_show_nat) simp
  then have len: "length ?p = 6" by (simp add: padStart_def)
  have pad: "?f @ replicate (6 - length ?f) (CHR ''0'') = ?p"
    using strip_trailing_zeros_pad [of ?p] len by simp
  have frac: "big_nat (?f @ replicate (6 - length ?f) (CHR ''0'')) = ?v mod 1000000"
    unfolding pad by simp
  show ?thesis
  proof (cases "?f = []")
    case True
    with frac div_mult_mod_eq [of ?v 1000000] show ?thesis
      by (simp add: humanise_def read_display_def takeWhile_to_end [OF dot] dropWhile_to_end [OF dot])
  next
    case False
    with frac takeWhile_to [OF dot, of ?f] dropWhile_to [OF dot, of ?f] show ?thesis
      by (simp add: humanise_def read_display_def Let_def)
  qed
qed

text \<open>
  An invoice number is never used twice: the number a new invoice gets differs from that of every
  invoice the merchant has, in any mode and from any year.
\<close>

theorem invoice_number_fresh:
  assumes "create_invoice cfg registry year ids now mid mode input s = (Inr w, s')"
    and "r \<in> set (invoices s)" and "iv_merchant_id r = mid"
  shows "iv_number r \<noteq> iw_number w"
proof (rule create_invoice_result [OF assms(1)])
  fix n
  assume n: "last_sequence (merchant_invoices mid s) = Some n"
    and w: "w = serialise_invoice (new_invoice (ij_invoice ids) now mid mode input (show_int (invoice_subtotal (ii_line_items input)))
       (invoice_number year (n + 1)) (ij_session ids) (now + ii_due_in_days input * 86400000))"
  have "r \<in> set (merchant_invoices mid s)" using assms(2,3) by (simp add: merchant_invoices_def)
  from last_sequence_Some [OF n this] obtain k where "sequence_part (iv_number r) = Some k" "k \<le> n" by blast
  moreover have "sequence_part (iw_number w) = Some (n + 1)" by (simp add: w new_invoice_def serialise_invoice_def)
  ultimately show ?thesis by auto
qed

text \<open>
  An invoice and the session that collects it agree: the session asks for exactly the sum of the line
  items, split into fee and net amount, lives until the due date and is the one the invoice names; and the
  money of all sessions stays consistent.
\<close>

theorem create_invoice_spec:
  assumes "create_invoice cfg registry year ids now mid mode input s = (Inr w, s')"
    and "sessions_ok s" and "ij_session ids \<noteq> []" and "find_session (ij_session ids) s = None"
  shows "sessions_ok s' \<and> iw_status w = Draft \<and>
    (\<exists>x. find_session (ij_session ids) s' = Some x \<and> iw_session_id w = Some (ps_id x) \<and>
         ps_amount x = iw_total w \<and> ps_expires_at x = iw_due_at w \<and> ps_mode x = mode \<and>
         BigInt (ps_amount x) = (\<Sum>li\<leftarrow>ii_line_items input. BigInt (li_unit_amount li) * int (li_quantity li)))"
proof (rule create_invoice_result [OF assms(1)])
  fix n fee net bps
  assume split: "feeSplit (invoice_subtotal (ii_line_items input)) (int bps) = Inr (fee, net)"
    and min: "MINIMUM_PAYMENT_AMOUNT \<le> invoice_subtotal (ii_line_items input)"
    and w: "w = serialise_invoice (new_invoice (ij_invoice ids) now mid mode input (show_int (invoice_subtotal (ii_line_items input)))
       (invoice_number year (n + 1)) (ij_session ids) (now + ii_due_in_days input * 86400000))"
    and ses: "sessions s' = sessions s @ [invoice_session cfg (ij_session ids) now mid mode input
       (show_int (invoice_subtotal (ii_line_items input))) (invoice_number year (n + 1)) fee net
       (now + ii_due_in_days input * 86400000)]" (is "_ = _ @ [?x]")
  have big: "BigInt (show_int (invoice_subtotal (ii_line_items input))) = invoice_subtotal (ii_line_items input)"
    by (simp add: invoice_subtotal_nonneg)
  have "session_money_ok ?x"
    by (rule invoice_session_money [where bps = "int bps"]) (simp_all only: big split min)
  then have ok: "sessions_ok s'"
    using assms by (intro sessions_ok_append [OF assms(2) ses]) (simp_all add: invoice_session_def)
  have sum: "foldl (\<lambda>acc li. acc + BigInt (li_unit_amount li) * int (li_quantity li)) a items =
      a + (\<Sum>li\<leftarrow>items. BigInt (li_unit_amount li) * int (li_quantity li))" for a and items :: "line_item list"
    by (induction items arbitrary: a) auto
  have "find_session (ij_session ids) s' = Some ?x"
    using assms(4) by (simp add: find_session_def ses) (simp add: invoice_session_def)
  with ok sum [of 0] show ?thesis
    by (simp add: w new_invoice_def serialise_invoice_def invoice_session_def big) (simp add: invoice_subtotal_def)
qed

text \<open>
  C15. Refunds stay within the payment: creating a refund, and submitting its signature, keep the refunds
  that are pending, awaiting, submitted or completed at or below the amount of their transaction.
\<close>

theorem refunds_bounded:
  assumes "refunds_ok s" and "distinct (map tx_id (transactions s))" and "distinct (map rf_id (refunds s))"
  shows "refunds_ok (snd (create_refund cfg rid eid now mid mode actor input s)) \<and>
         refunds_ok (snd (submitSignature mid mode i h s))"
  using refunds_ok_create refunds_ok_submit assms by blast

definition sample_tx :: tx_row where
  [sample_defs]: "sample_tx = \<lparr>tx_id = ''tx1'', tx_merchant_id = ''m1'', tx_kind = One_Shot,
     tx_status = Tx_Confirmed, tx_customer_id = None, tx_session_id = Some ''ps1'', tx_subscription_id = None,
     tx_subscription_charge_id = None, tx_refund_id = None, tx_amount = ''5'', tx_fee_amount = ''0'',
     tx_net_amount = ''5'', tx_currency = USDC, tx_payer_address = sample_address,
     tx_merchant_address = other_address, tx_onchain_tx_hash = sample_hash, tx_block_number = 9,
     tx_block_timestamp = 4, tx_mode = Test, tx_created_at = 4\<rparr>"

definition paid_store :: store where
  [sample_defs]: "paid_store = sample_store\<lparr>transactions := [sample_tx]\<rparr>"

definition full_refund :: refund_input where
  [sample_defs]: "full_refund = \<lparr>rj_transaction_id = ''tx1'', rj_amount = ''5'', rj_reason = ''other'', rj_note = None\<rparr>"

definition interleaved_refunds :: "(store, api_exn, unit) proc" where
  "interleaved_refunds =
     seq (refund_check sample_config ''m1'' Test full_refund) (\<lambda>a.
     seq (refund_check sample_config ''m1'' Test full_refund) (\<lambda>b.
     seq (refund_insert ''rf1'' ''evt1'' 5 ''m1'' ''u1'' full_refund a) (\<lambda>_.
     seq (refund_insert ''rf2'' ''evt2'' 5 ''m1'' ''u1'' full_refund b) (\<lambda>_. ret ()))))"

lemma big_five [simp]: "BigInt ''5'' = 5"
  by (simp add: BigInt_def big_nat_def digit_of_def)

text \<open>
  The bound above needs the calls to run one after the other. The check and the insertion are not one
  transaction: two refunds of the full amount whose checks both run before either is inserted are both
  created, and the transaction of 5 units is refunded 10.
\<close>

theorem concurrent_refunds_exceed:
  "fst (interleaved_refunds paid_store) = Inr () \<and> refunds_ok paid_store \<and>
   refunded_total ''tx1'' (snd (interleaved_refunds paid_store)) = 10 \<and>
   \<not> refunds_ok (snd (interleaved_refunds paid_store))"
  by (simp add: interleaved_refunds_def refund_check_def refund_insert_def tokenAddressFor_def Let_def seq_def catch_def
      refunds_ok_def refunded_total_def new_refund_def ACTIVE_REFUND_STATUSES_def sample_defs)

text \<open>
  \<open>send\<close> does not look at payment: sending a paid invoice again succeeds and puts it back to
  \<open>sent\<close>, after which it can even be voided, although a paid invoice cannot.
\<close>

theorem send_reopens_paid_invoice:
  assumes "find_own_invoice mid mode i s = Some r" and "iv_status r = Paid" and "truthy (iv_customer_email r)"
    and "distinct (map iv_id (invoices s))"
  shows "fst (voidInvoice now mid mode i s) = Inl (forbidden ''session_invalid_state'') \<and>
    (\<exists>s1. send_invoice cfg now mid mode i s = (Inr (serialise_invoice (patch_invoice (Mark_Sent, now) r)), s1) \<and>
      (iv_session_id r = None \<longrightarrow>
         fst (voidInvoice now mid mode i s1) = Inr (serialise_invoice (patch_invoice (Mark_Void, now) (patch_invoice (Mark_Sent, now) r)))))"
proof -
  have f: "find_row iv_id i (invoices s) = Some r" "iv_merchant_id r = mid" "iv_mode r = mode"
    using assms(1) unfolding find_own_invoice_def find_row_and [OF assms(4)] by (auto split: option.splits if_splits)
  then have id: "iv_id r = i" by (auto dest: find_row_Some)
  let ?t = "update_where (\<lambda>x. iv_id x = i) (patch_invoice (Mark_Sent, now)) (invoices s)"
  have d: "distinct (map iv_id ?t)" using assms(4) by simp
  have "find (\<lambda>r. iv_id r = i \<and> iv_merchant_id r = mid \<and> iv_mode r = mode) ?t = Some (patch_invoice (Mark_Sent, now) r)"
    unfolding find_row_and [OF d] using f id by (simp add: invoice_patch.find_row_update)
  then show ?thesis
    using assms(1-3) id
    by (auto simp: send_invoice_def voidInvoice_def Let_def find_own_invoice_def)
qed

section \<open>Witnesses\<close>

definition sample_invoice_input :: invoice_input where
  [sample_defs]: "sample_invoice_input = \<lparr>
     ii_line_items = [\<lparr>li_description = ''Work'', li_quantity = 3, li_unit_amount = ''2000000''\<rparr>],
     ii_currency = USDC, ii_due_in_days = 14, ii_customer_name = None,
     ii_customer_email = Some ''payer@test'', ii_note = None\<rparr>"

definition sample_invoice_ids :: invoice_ids where
  [sample_defs]: "sample_invoice_ids = \<lparr>ij_invoice = ''iv2'', ij_session = ''ps9'', ij_event = ''evt2''\<rparr>"

definition sample_invoice :: invoice_row where
  [sample_defs]: "sample_invoice =
     (new_invoice ''iv1'' 0 ''m1'' Test sample_invoice_input ''6000000'' (invoice_number 2025 41) ''ps1'' 1209600000)
       \<lparr>iv_status := Paid, iv_session_id := None\<rparr>"

definition invoiced_store :: store where
  [sample_defs]: "invoiced_store = sample_store\<lparr>invoices := [sample_invoice]\<rparr>"

lemma sample_invoice_seq: "last_sequence (merchant_invoices ''m1'' invoiced_store) = Some 41"
  by (simp add: merchant_invoices_def invoiced_store_def sample_invoice_def new_invoice_def)

lemma sample_invoice_run:
  "returned (create_invoice sample_config no_fees 2026 sample_invoice_ids 1000 ''m1'' Test sample_invoice_input invoiced_store)"
proof -
  have big: "BigInt ''2000000'' = 2000000"
    by (simp add: BigInt_def big_nat_def digit_of_def)
  have m: "find_row m_id ''m1'' (merchants invoiced_store) = Some sample_merchant" "m_id sample_merchant = ''m1''"
    "m_onchain_merchant_id sample_merchant = Some 7" "m_tier sample_merchant = Starter"
    by (simp_all add: sample_defs)
  have items: "ii_line_items sample_invoice_input = [\<lparr>li_description = ''Work'', li_quantity = 3, li_unit_amount = ''2000000''\<rparr>]"
    by (simp add: sample_defs)
  show ?thesis
    using sample_invoice_seq
    by (simp add: create_invoice_def requestRegistration_def seq_def m items invoice_subtotal_def big
        assertMinimumAmount_def MINIMUM_PAYMENT_AMOUNT_def feeBpsFor_def planFeeBps_def feeSplit_def MAX_FEE_BPS_def
        nextInvoiceNumber_def in_tx_def catch_def Let_def returned_def)
qed

theorem invoice_number_fresh_witness:
  "\<exists>w s'. create_invoice sample_config no_fees 2026 sample_invoice_ids 1000 ''m1'' Test sample_invoice_input invoiced_store = (Inr w, s') \<and>
     iv_number sample_invoice \<noteq> iw_number w"
proof -
  obtain w s' where run: "create_invoice sample_config no_fees 2026 sample_invoice_ids 1000 ''m1'' Test sample_invoice_input invoiced_store = (Inr w, s')"
    using sample_invoice_run by (rule returnedE)
  have "sample_invoice \<in> set (invoices invoiced_store)" "iv_merchant_id sample_invoice = ''m1''"
    by (simp_all add: invoiced_store_def sample_invoice_def new_invoice_def)
  from invoice_number_fresh [OF run this] run show ?thesis by blast
qed

theorem create_invoice_spec_witness:
  "\<exists>w s'. create_invoice sample_config no_fees 2026 sample_invoice_ids 1000 ''m1'' Test sample_invoice_input invoiced_store = (Inr w, s') \<and>
     sessions_ok s'"
proof -
  obtain w s' where run: "create_invoice sample_config no_fees 2026 sample_invoice_ids 1000 ''m1'' Test sample_invoice_input invoiced_store = (Inr w, s')"
    using sample_invoice_run by (rule returnedE)
  have "sessions invoiced_store = [sample_session]" by (simp add: sample_defs)
  moreover have "session_money_ok sample_session"
    by (simp add: session_money_ok_def sample_session_def MINIMUM_PAYMENT_AMOUNT_def BigInt_def big_nat_def digit_of_def)
  ultimately have "sessions_ok invoiced_store" "find_session (ij_session sample_invoice_ids) invoiced_store = None"
    by (simp_all add: sessions_ok_def session_keys_ok_def find_session_def) (simp_all add: sample_session_def sample_invoice_ids_def)
  moreover have "ij_session sample_invoice_ids \<noteq> []" by (simp add: sample_invoice_ids_def)
  ultimately show ?thesis using create_invoice_spec [OF run] run by blast
qed

theorem refunds_bounded_witness:
  "refunds_ok (snd (create_refund sample_config ''rf1'' ''evt1'' 5 ''m1'' Test ''u1'' full_refund paid_store))"
proof -
  have "refunds_ok paid_store" by (simp add: refunds_ok_def refunded_total_def sample_defs)
  moreover have "distinct (map tx_id (transactions paid_store))" "distinct (map rf_id (refunds paid_store))"
    by (simp_all add: sample_defs)
  ultimately show ?thesis using refunds_bounded by blast
qed

theorem send_reopens_paid_invoice_witness:
  "\<exists>w. fst (send_invoice sample_config 5 ''m1'' Test ''iv1'' invoiced_store) = Inr w \<and> iw_status w = Sent"
proof -
  have r: "find_own_invoice ''m1'' Test ''iv1'' invoiced_store = Some sample_invoice" "iv_status sample_invoice = Paid"
    "truthy (iv_customer_email sample_invoice)" "distinct (map iv_id (invoices invoiced_store))"
    by (simp_all add: find_own_invoice_def invoiced_store_def sample_invoice_def new_invoice_def sample_invoice_input_def)
  from send_reopens_paid_invoice [OF r, where cfg = sample_config and now = 5] show ?thesis by (auto simp: serialise_invoice_def)
qed

end
