(* ===== verification/Sweepers.thy ===== *)
theory Sweepers
  imports Enrolment Billing
begin

text \<open>
  The cron sweeps of \<open>apps/scheduler/src/crons\<close>: sessions past their expiry, at-risk subscriptions past
  their grace period and sent invoices past their due date are flipped by one conditional \<open>UPDATE\<close> and
  leave one outbox event each; the subscription sweeper locks the due subscriptions and queues a charge for
  each. \<open>NOW()\<close> is the argument \<open>now\<close>, and \<open>eid\<close> gives the fresh event id of a row. The order in
  which \<open>RETURNING\<close> lists the rows is the order of the table.
\<close>

section \<open>The shape of a flip\<close>

text \<open>
  \<open>WITH due AS (...) UPDATE ... RETURNING\<close> followed by a loop over the returned rows, in one
  transaction. \<open>flips\<close> lists the rows that a run of sweeps at the times \<open>ns\<close> returns.
\<close>

definition sweep_tx ::
  "(store \<Rightarrow> 'r list) \<Rightarrow> ('r list \<Rightarrow> store \<Rightarrow> store) \<Rightarrow> ('r \<Rightarrow> bool) \<Rightarrow> ('r \<Rightarrow> 'r) \<Rightarrow>
   ('r \<Rightarrow> (store, api_exn, unit) proc) \<Rightarrow> (store, api_exn, nat) proc" where
  "sweep_tx get put due flip effect = in_tx (
     seq (gets (\<lambda>s. map flip (filter due (get s)))) (\<lambda>rows.
     seq (modify (\<lambda>s. put (update_where due flip (get s)) s)) (\<lambda>_.
     seq (for_each effect rows) (\<lambda>_. ret (length rows)))))"

fun flips :: "(int \<Rightarrow> 'r \<Rightarrow> bool) \<Rightarrow> (int \<Rightarrow> 'r \<Rightarrow> 'r) \<Rightarrow> int list \<Rightarrow> 'r list \<Rightarrow> 'r list" where
  "flips due flip [] t = []"
| "flips due flip (now # ns) t =
     map (flip now) (filter (due now) t) @ flips due flip ns (update_where (due now) (flip now) t)"

lemma for_each_pure:
  assumes "\<And>x s. m x s = (Inr (), f x s)"
  shows "for_each m xs s = (Inr (map (\<lambda>_. ()) xs), fold f xs s)"
  by (induction xs arbitrary: s) (simp_all add: assms seq_def)

lemma sweep_tx_pure:
  assumes "\<And>x s. effect x s = (Inr (), f x s)"
  shows "sweep_tx get put due flip effect s =
     (Inr (length (filter due (get s))),
      fold f (map flip (filter due (get s))) (put (update_where due flip (get s)) s))"
  unfolding sweep_tx_def in_tx_def
  by (simp add: seq_def gets_def modify_def for_each_pure [OF assms])

locale due_flip =
  fixes key :: "'r \<Rightarrow> 'k" and due :: "int \<Rightarrow> 'r \<Rightarrow> bool" and flip :: "int \<Rightarrow> 'r \<Rightarrow> 'r"
  assumes key_flip [simp]: "key (flip now r) = key r"
    and flip_settled [simp]: "\<not> due later (flip now r)"
begin

lemma due_after_flip:
  "r \<in> set (update_where (due now) (flip now) t) \<Longrightarrow> due later r \<Longrightarrow> r \<in> set t \<and> \<not> due now r"
  by (auto simp: set_update_where split: if_splits) (metis flip_settled)

lemma flips_key: "r \<in> set (flips due flip ns t) \<Longrightarrow> \<exists>q\<in>set t. key r = key q \<and> (\<exists>n. due n q)"
proof (induction ns arbitrary: t)
  case Nil
  then show ?case by simp
next
  case (Cons n ns)
  from Cons.prems consider "r \<in> flip n ` set (filter (due n) t)"
    | "r \<in> set (flips due flip ns (update_where (due n) (flip n) t))" by auto
  then show ?case
  proof cases
    case 1
    then show ?thesis by auto
  next
    case 2
    then show ?thesis using Cons.IH due_after_flip by blast
  qed
qed

text \<open>Whatever the times of the sweeps, no row is returned twice.\<close>

lemma flips_once: "distinct (map key t) \<Longrightarrow> distinct (map key (flips due flip ns t))"
proof (induction ns arbitrary: t)
  case Nil
  then show ?case by simp
next
  case (Cons n ns)
  let ?u = "update_where (due n) (flip n) t"
  have keys: "map key ?u = map key t" by (induction t) auto
  have "key x \<noteq> key r" if "x \<in> set (filter (due n) t)" "r \<in> set (flips due flip ns ?u)" for x r
  proof -
    from flips_key [OF that(2)] obtain q m where "q \<in> set ?u" "key r = key q" "due m q" by blast
    with due_after_flip have "q \<in> set t" "\<not> due n q" "key r = key q" by blast+
    with that(1) Cons.prems show ?thesis by (auto simp: distinct_map inj_on_def)
  qed
  then have "key ` set (filter (due n) t) \<inter> key ` set (flips due flip ns ?u) = {}" by blast
  moreover have "distinct (map key (flips due flip ns ?u))" using Cons by (simp add: keys)
  ultimately show ?case using Cons.prems by (simp add: distinct_map_filter comp_def)
qed

end

text \<open>
  A worker that takes pending work in batches: its contract, and that enough runs leave nothing pending.
\<close>

locale batch_drain =
  fixes step :: "'s \<Rightarrow> 's" and ok :: "'s \<Rightarrow> bool" and pending :: "'s \<Rightarrow> nat" and limit :: nat
  assumes step_ok: "ok s \<Longrightarrow> ok (step s)"
    and step_progress: "ok s \<Longrightarrow> pending (step s) = pending s - limit"
begin

lemma drained: "ok s \<Longrightarrow> pending s \<le> k * limit \<Longrightarrow> pending ((step ^^ k) s) = 0"
proof (induction k arbitrary: s)
  case 0
  then show ?case by simp
next
  case (Suc k)
  then have "pending (step s) \<le> k * limit" by (simp add: step_progress)
  with Suc.IH [OF step_ok [OF Suc.prems(1)]] show ?case by (simp only: funpow_Suc_right comp_apply)
qed

end

lemma length_filter_not_in:
  assumes "distinct (map key t)" and "distinct ids" and "set ids \<subseteq> key ` set t"
  shows "length (filter (\<lambda>r. key r \<notin> set ids) t) = length t - length ids"
proof -
  have "key ` set t - set ids = set (map key (filter (\<lambda>r. key r \<notin> set ids) t))" by auto
  then have "length (filter (\<lambda>r. key r \<notin> set ids) t) = card (key ` set t - set ids)"
    using assms(1) by (metis distinct_card distinct_map_filter length_map)
  also have "\<dots> = length t - length ids"
    using assms by (simp add: card_Diff_subset distinct_card) (metis distinct_card length_map set_map)
  finally show ?thesis .
qed

section \<open>Outbox rows of the scheduler\<close>

text \<open>\<open>tx.webhookEvent.create\<close> with a reference payload.\<close>

definition ref_event :: "string \<Rightarrow> int \<Rightarrow> string \<Rightarrow> string \<Rightarrow> api_mode \<Rightarrow> outbox_ref \<Rightarrow> event_row" where
  "ref_event eid now merchantId type mode ref = \<lparr>ev_id = eid, ev_merchant_id = merchantId, ev_type = type,
     ev_mode = mode, ev_payload = Ref_Payload ref, ev_dispatched_at = None, ev_dispatch_error = None,
     ev_created_at = now\<rparr>"

definition put_event :: "event_row \<Rightarrow> (store, api_exn, unit) proc" where
  "put_event e = modify (\<lambda>s. s\<lparr>events := events s @ [e]\<rparr>)"

section \<open>Session expiry\<close>

definition session_overdue :: "int \<Rightarrow> session_row \<Rightarrow> bool" where
  "session_overdue now r \<longleftrightarrow> ps_status r \<in> {Created, Awaiting_Payment} \<and> ps_expires_at r < now"

definition expiry_event :: "(string \<Rightarrow> string) \<Rightarrow> int \<Rightarrow> session_row \<Rightarrow> event_row" where
  "expiry_event eid now r = ref_event (eid (ps_id r)) now (ps_merchant_id r) ''payment_failed'' (ps_mode r)
     (Ref_Payment_Failed (ps_id r) (Some ''session expired''))"

definition expire_effects :: "(string \<Rightarrow> string) \<Rightarrow> int \<Rightarrow> session_row \<Rightarrow> (store, api_exn, unit) proc" where
  "expire_effects eid now r =
     seq (case ps_storefront_product_id r of
            None \<Rightarrow> ret ()
          | Some pid \<Rightarrow> if pid = [] then ret () else modify (\<lambda>s. s\<lparr>products := restock now pid (products s)\<rparr>)) (\<lambda>_.
     put_event (expiry_event eid now r))"

definition sweep_sessions :: "(string \<Rightarrow> string) \<Rightarrow> int \<Rightarrow> (store, api_exn, nat) proc" where
  "sweep_sessions eid now =
     sweep_tx sessions (\<lambda>t s. s\<lparr>sessions := t\<rparr>) (session_overdue now) (patch_session (Set_Status Expired) now)
       (expire_effects eid now)"

section \<open>Lapsed subscriptions\<close>

definition grace_over :: "int \<Rightarrow> sub_row \<Rightarrow> bool" where
  "grace_over now r \<longleftrightarrow>
     su_status r = At_Risk \<and> su_current_period_end_at r + su_grace_period_hours r * 3600000 < now"

definition lapse_event :: "(string \<Rightarrow> string) \<Rightarrow> int \<Rightarrow> sub_row \<Rightarrow> event_row" where
  "lapse_event eid now r = ref_event (eid (su_id r)) now (su_merchant_id r) ''subscription_lapsed'' (su_mode r)
     (Ref_Subscription_Lapsed (su_id r))"

definition sweep_lapsed :: "(string \<Rightarrow> string) \<Rightarrow> int \<Rightarrow> (store, api_exn, nat) proc" where
  "sweep_lapsed eid now =
     sweep_tx subs (\<lambda>t s. s\<lparr>subs := t\<rparr>) (grace_over now) (\<lambda>r. patch_sub (Lapse_Sub, now) r)
       (\<lambda>r. put_event (lapse_event eid now r))"

section \<open>Overdue invoices\<close>

definition invoice_past_due :: "int \<Rightarrow> invoice_row \<Rightarrow> bool" where
  "invoice_past_due now r \<longleftrightarrow> iv_status r = Sent \<and> iv_due_at r < now"

definition overdue_event :: "(string \<Rightarrow> string) \<Rightarrow> int \<Rightarrow> invoice_row \<Rightarrow> event_row" where
  "overdue_event eid now r = ref_event (eid (iv_id r)) now (iv_merchant_id r) ''invoice_overdue'' (iv_mode r)
     (Ref_Invoice_Overdue (iv_id r))"

definition sweep_invoices :: "(string \<Rightarrow> string) \<Rightarrow> int \<Rightarrow> (store, api_exn, nat) proc" where
  "sweep_invoices eid now =
     sweep_tx invoices (\<lambda>t s. s\<lparr>invoices := t\<rparr>) (invoice_past_due now) (\<lambda>r. patch_invoice (Mark_Overdue, now) r)
       (\<lambda>r. put_event (overdue_event eid now r))"

section \<open>Due subscriptions\<close>

definition STALE_LOCK_MS :: int where
  "STALE_LOCK_MS = 600 * 1000"

definition lock_free :: "int \<Rightarrow> sub_row \<Rightarrow> bool" where
  "lock_free now r \<longleftrightarrow> \<not> su_charge_lock r \<or>
     (case su_charge_lock_acquired_at r of None \<Rightarrow> False | Some t \<Rightarrow> t < now - STALE_LOCK_MS)"

definition chargeable :: "int \<Rightarrow> sub_row \<Rightarrow> bool" where
  "chargeable now r \<longleftrightarrow> lock_free now r \<and>
     (case su_next_charge_at r of None \<Rightarrow> False | Some t \<Rightarrow> t \<le> now) \<and>
     (case su_next_retry_at r of None \<Rightarrow> True | Some t \<Rightarrow> t \<le> now) \<and>
     su_status r \<in> {Trialing, Sub_Active, At_Risk} \<and> su_onchain_subscription_id r \<noteq> None"

definition sweep_candidates :: "nat \<Rightarrow> int \<Rightarrow> store \<Rightarrow> sub_row list" where
  "sweep_candidates limit now s =
     take limit (sort_key (\<lambda>r. the (su_next_charge_at r)) (filter (chargeable now) (subs s)))"

definition add_due :: "string \<Rightarrow> (store, api_exn, unit) proc" where
  "add_due i = modify (\<lambda>s. s\<lparr>due_queue := due_queue s @ [i]\<rparr>)"

definition sweep_subs :: "config \<Rightarrow> int \<Rightarrow> (store, api_exn, nat) proc" where
  "sweep_subs cfg now =
     seq (gets (\<lambda>s. map su_id (sweep_candidates (cf_sweep_limit cfg) now s))) (\<lambda>ids.
     seq (modify (\<lambda>s. s\<lparr>subs := update_where (\<lambda>r. su_id r \<in> set ids) (patch_sub (Lock_Sub, now)) (subs s)\<rparr>)) (\<lambda>_.
     if ids = [] then ret 0 else seq (for_each add_due ids) (\<lambda>_. ret (length ids))))"

section \<open>What the flips do\<close>

definition restock_unit :: "int \<Rightarrow> session_row \<Rightarrow> product_row list \<Rightarrow> product_row list" where
  "restock_unit now r t =
     (case ps_storefront_product_id r of None \<Rightarrow> t | Some pid \<Rightarrow> if pid = [] then t else restock now pid t)"

lemma expire_effects_eq:
  "expire_effects eid now r s =
     (Inr (), s\<lparr>products := restock_unit now r (products s), events := events s @ [expiry_event eid now r]\<rparr>)"
  by (simp add: expire_effects_def put_event_def restock_unit_def seq_def split: option.split)

lemma fold_expire:
  "fold (\<lambda>r s. s\<lparr>products := restock_unit now r (products s), events := events s @ [expiry_event eid now r]\<rparr>) rows s =
     s\<lparr>products := fold (restock_unit now) rows (products s), events := events s @ map (expiry_event eid now) rows\<rparr>"
  by (induction rows arbitrary: s) simp_all

lemma fold_put_event: "fold (\<lambda>r s. s\<lparr>events := events s @ [e r]\<rparr>) rows s = s\<lparr>events := events s @ map e rows\<rparr>"
  by (induction rows arbitrary: s) simp_all

lemma map_fixed_flip: "(\<And>r. e (f r) = e r) \<Longrightarrow> map e (map f xs) = map e xs"
  by simp

lemma sweep_sessions_eq:
  "sweep_sessions eid now s =
     (Inr (length (filter (session_overdue now) (sessions s))),
      s\<lparr>sessions := update_where (session_overdue now) (patch_session (Set_Status Expired) now) (sessions s),
        products := fold (restock_unit now) (filter (session_overdue now) (sessions s)) (products s),
        events := events s @ map (expiry_event eid now) (filter (session_overdue now) (sessions s))\<rparr>)"
proof -
  have "restock_unit now (patch_session p now r) = restock_unit now r" for p r by (rule ext) (simp add: restock_unit_def)
  then have "fold (restock_unit now) (map (patch_session p now) xs) t = fold (restock_unit now) xs t" for p xs t
    by (induction xs arbitrary: t) simp_all
  moreover have "expiry_event eid now (patch_session p now r) = expiry_event eid now r" for p r
    by (simp add: expiry_event_def)
  ultimately show ?thesis
    by (simp add: sweep_sessions_def sweep_tx_pure [OF expire_effects_eq] fold_expire comp_def del: patch_session.simps)
qed

lemma sweep_lapsed_eq:
  "sweep_lapsed eid now s =
     (Inr (length (filter (grace_over now) (subs s))),
      s\<lparr>subs := update_where (grace_over now) (patch_sub (Lapse_Sub, now)) (subs s),
        events := events s @ map (lapse_event eid now) (filter (grace_over now) (subs s))\<rparr>)"
proof -
  have e: "put_event (lapse_event eid now x) s = (Inr (), s\<lparr>events := events s @ [lapse_event eid now x]\<rparr>)" for x s
    by (simp add: put_event_def)
  have f: "lapse_event eid now (patch_sub (Lapse_Sub, now) r) = lapse_event eid now r" for r
    by (simp add: lapse_event_def)
  show ?thesis
    by (simp add: sweep_lapsed_def sweep_tx_pure [OF e] fold_put_event comp_def f del: patch_sub.simps)
qed

lemma sweep_invoices_eq:
  "sweep_invoices eid now s =
     (Inr (length (filter (invoice_past_due now) (invoices s))),
      s\<lparr>invoices := update_where (invoice_past_due now) (patch_invoice (Mark_Overdue, now)) (invoices s),
        events := events s @ map (overdue_event eid now) (filter (invoice_past_due now) (invoices s))\<rparr>)"
proof -
  have e: "put_event (overdue_event eid now x) s = (Inr (), s\<lparr>events := events s @ [overdue_event eid now x]\<rparr>)" for x s
    by (simp add: put_event_def)
  have f: "overdue_event eid now (patch_invoice (Mark_Overdue, now) r) = overdue_event eid now r" for r
    by (simp add: overdue_event_def)
  show ?thesis
    by (simp add: sweep_invoices_def sweep_tx_pure [OF e] fold_put_event comp_def f del: patch_invoice.simps)
qed

text \<open>
  The contract of a flipping sweep over a table: what it writes to the table and to the outbox. Its
  consequence, proved once: in a run of sweeps at any times each row leaves at most one event.
\<close>

locale flip_sweep = due_flip key due flip
  for key :: "'r \<Rightarrow> string" and due :: "int \<Rightarrow> 'r \<Rightarrow> bool" and flip :: "int \<Rightarrow> 'r \<Rightarrow> 'r" +
  fixes get :: "store \<Rightarrow> 'r list" and sweep :: "int \<Rightarrow> (store, api_exn, nat) proc"
    and payload :: "string \<Rightarrow> event_payload"
  assumes sweep_get: "get (snd (sweep n s)) = update_where (due n) (flip n) (get s)"
    and sweep_events: "map ev_payload (events (snd (sweep n s))) =
      map ev_payload (events s) @ map (\<lambda>r. payload (key r)) (filter (due n) (get s))"
    and sweep_returns: "\<exists>m. fst (sweep n s) = Inr m"
    and payload_inj: "inj payload"
begin

lemma run_events:
  "map ev_payload (events (snd (for_each sweep ns s))) =
     map ev_payload (events s) @ map (\<lambda>r. payload (key r)) (flips due flip ns (get s))"
proof (induction ns arbitrary: s)
  case Nil
  then show ?case by simp
next
  case (Cons n ns)
  obtain m s1 where 1: "sweep n s = (Inr m, s1)" using sweep_returns [of n s] by (cases "sweep n s") auto
  have "snd (for_each sweep (n # ns) s) = snd (for_each sweep ns s1)"
    by (simp add: 1 seq_def split: prod.split sum.split)
  with Cons [of s1] 1 sweep_get [of n s] sweep_events [of n s] show ?case by (simp add: comp_def)
qed

lemma run_once:
  assumes "distinct (map key (get s))"
  shows "\<exists>new. map ev_payload (events (snd (for_each sweep ns s))) = map ev_payload (events s) @ new \<and> distinct new"
proof -
  have "distinct (map (\<lambda>r. payload (key r)) (flips due flip ns (get s)))"
    using flips_once [OF assms] payload_inj by (simp add: distinct_map inj_on_def)
  with run_events show ?thesis by blast
qed

end

interpretation expiry: flip_sweep ps_id session_overdue "\<lambda>now. patch_session (Set_Status Expired) now" sessions
    "\<lambda>n. sweep_sessions (eid n) n" "\<lambda>i. Ref_Payload (Ref_Payment_Failed i (Some ''session expired''))" for eid
  by unfold_locales
    (auto simp: session_overdue_def sweep_sessions_eq expiry_event_def ref_event_def inj_def comp_def)

interpretation lapse: flip_sweep su_id grace_over "\<lambda>now. patch_sub (Lapse_Sub, now)" subs
    "\<lambda>n. sweep_lapsed (eid n) n" "\<lambda>i. Ref_Payload (Ref_Subscription_Lapsed i)" for eid
  by unfold_locales (auto simp: grace_over_def sweep_lapsed_eq lapse_event_def ref_event_def inj_def comp_def)

interpretation overdue: flip_sweep iv_id invoice_past_due "\<lambda>now. patch_invoice (Mark_Overdue, now)" invoices
    "\<lambda>n. sweep_invoices (eid n) n" "\<lambda>i. Ref_Payload (Ref_Invoice_Overdue i)" for eid
  by unfold_locales (auto simp: invoice_past_due_def sweep_invoices_eq overdue_event_def ref_event_def inj_def comp_def)

text \<open>Units of a product over an expiry sweep.\<close>

lemma stock_restock_units:
  "Option.bind (find_row pr_id pid (fold (restock_unit now) rows t)) pr_stock =
     map_option (\<lambda>n. n + int (length (filter (\<lambda>r. ps_storefront_product_id r = Some pid) rows)))
       (Option.bind (find_row pr_id pid t) pr_stock)" if "pid \<noteq> []"
proof (induction rows arbitrary: t)
  case Nil
  then show ?case by (simp add: option.map_ident)
next
  case (Cons r rows)
  show ?case
    using Cons [of "restock_unit now r t"] that
    by (cases "Option.bind (find_row pr_id pid t) pr_stock")
      (auto simp: restock_unit_def stock_restock option.map_comp split: option.split)
qed

lemma expired_units:
  "count_where (holds_unit pid) (update_where (session_overdue now) (patch_session (Set_Status Expired) now) t) +
     length (filter (\<lambda>r. ps_storefront_product_id r = Some pid) (filter (session_overdue now) t)) =
   count_where (holds_unit pid) t"
  by (induction t) (auto simp: holds_unit_def session_overdue_def OPEN_SESSION_STATUSES_def)

section \<open>The charge lock\<close>

definition due_ids :: "config \<Rightarrow> int \<Rightarrow> store \<Rightarrow> string list" where
  "due_ids cfg now s = map su_id (sweep_candidates (cf_sweep_limit cfg) now s)"

lemma fold_add_due: "for_each add_due ids s = (Inr (map (\<lambda>_. ()) ids), s\<lparr>due_queue := due_queue s @ ids\<rparr>)"
proof -
  have "fold (\<lambda>i s. s\<lparr>due_queue := due_queue s @ [i]\<rparr>) ids s = s\<lparr>due_queue := due_queue s @ ids\<rparr>"
    by (induction ids arbitrary: s) simp_all
  then show ?thesis
    using for_each_pure [of add_due "\<lambda>i s. s\<lparr>due_queue := due_queue s @ [i]\<rparr>"] by (simp add: add_due_def)
qed

lemma sweep_subs_eq:
  "sweep_subs cfg now s =
     (Inr (length (due_ids cfg now s)),
      s\<lparr>subs := update_where (\<lambda>r. su_id r \<in> set (due_ids cfg now s)) (patch_sub (Lock_Sub, now)) (subs s),
        due_queue := due_queue s @ due_ids cfg now s\<rparr>)"
  by (simp add: sweep_subs_def due_ids_def [symmetric] seq_def fold_add_due del: patch_sub.simps)

lemma set_candidates: "set (sweep_candidates limit now s) \<subseteq> set (filter (chargeable now) (subs s))"
  using set_take_subset [of limit "sort_key (\<lambda>r. the (su_next_charge_at r)) (filter (chargeable now) (subs s))"]
  unfolding sweep_candidates_def by simp

lemma distinct_due_ids: "distinct (map su_id (subs s)) \<Longrightarrow> distinct (due_ids cfg now s)"
  unfolding due_ids_def sweep_candidates_def take_map [symmetric]
  by (intro distinct_take) (simp add: distinct_map inj_on_def)

lemma due_id_row: "i \<in> set (due_ids cfg now s) \<Longrightarrow> \<exists>r\<in>set (subs s). su_id r = i \<and> chargeable now r"
  using set_candidates unfolding due_ids_def by fastforce

text \<open>The subscriptions a sweep locked, seen from later in the same ten minutes.\<close>

definition locked_from :: "int \<Rightarrow> sub_row \<Rightarrow> bool" where
  "locked_from t0 r \<longleftrightarrow>
     su_charge_lock r \<and> (case su_charge_lock_acquired_at r of None \<Rightarrow> False | Some t \<Rightarrow> t0 \<le> t)"

definition locked_since :: "int \<Rightarrow> string set \<Rightarrow> store \<Rightarrow> bool" where
  "locked_since t0 L s \<longleftrightarrow> (\<forall>r\<in>set (subs s). su_id r \<in> L \<longrightarrow> locked_from t0 r)"

lemma locked_from_lock: "t0 \<le> now \<Longrightarrow> locked_from t0 (patch_sub (Lock_Sub, now) r)"
  by (simp add: locked_from_def)

lemma locked_from_not_chargeable: "locked_from t0 r \<Longrightarrow> now \<le> t0 + STALE_LOCK_MS \<Longrightarrow> \<not> chargeable now r"
  by (auto simp: locked_from_def chargeable_def lock_free_def split: option.splits)

lemma locked_not_due:
  assumes "locked_since t0 L s" and "now \<le> t0 + STALE_LOCK_MS"
  shows "set (due_ids cfg now s) \<inter> L = {}"
  using assms due_id_row locked_from_not_chargeable unfolding locked_since_def by blast

lemma locked_after_sweep:
  assumes "locked_since t0 L s" and "t0 \<le> now"
  shows "locked_since t0 (L \<union> set (due_ids cfg now s)) (snd (sweep_subs cfg now s))"
  using assms locked_from_lock
  by (auto simp: locked_since_def sweep_subs_eq update_where_def simp del: patch_sub.simps)

lemma sweeps_distinct:
  assumes "distinct (map su_id (subs s))" and "locked_since t0 L s"
    and "\<forall>n\<in>set ns. t0 \<le> n \<and> n \<le> t0 + STALE_LOCK_MS"
  shows "\<exists>Q. due_queue (snd (for_each (sweep_subs cfg) ns s)) = due_queue s @ Q \<and> distinct Q \<and> set Q \<inter> L = {}"
  using assms
proof (induction ns arbitrary: s L)
  case Nil
  then show ?case by simp
next
  case (Cons n ns)
  let ?s1 = "snd (sweep_subs cfg n s)"
  let ?L1 = "L \<union> set (due_ids cfg n s)"
  have run: "snd (for_each (sweep_subs cfg) (n # ns) s) = snd (for_each (sweep_subs cfg) ns ?s1)"
    by (simp add: sweep_subs_eq seq_def split: prod.split sum.split)
  have n: "t0 \<le> n" "n \<le> t0 + STALE_LOCK_MS" using Cons.prems(3) by auto
  have "distinct (map su_id (subs ?s1))" using Cons.prems(1) by (simp add: sweep_subs_eq)
  moreover have "locked_since t0 ?L1 ?s1" using locked_after_sweep Cons.prems(2) n(1) .
  ultimately obtain Q where Q: "due_queue (snd (for_each (sweep_subs cfg) ns ?s1)) = due_queue ?s1 @ Q"
    "distinct Q" "set Q \<inter> ?L1 = {}"
    using Cons.IH Cons.prems(3) by (metis list.set_intros(2))
  have "due_queue ?s1 = due_queue s @ due_ids cfg n s" by (simp add: sweep_subs_eq)
  moreover have "set (due_ids cfg n s) \<inter> L = {}" by (rule locked_not_due [OF Cons.prems(2) n(2)])
  ultimately show ?case
    unfolding run using Q distinct_due_ids [OF Cons.prems(1)]
    by (intro exI [of _ "due_ids cfg n s @ Q"]) auto
qed

text \<open>Draining: at one instant, every sweep takes the next \<open>limit\<close> due subscriptions.\<close>

lemma locked_not_chargeable: "\<not> chargeable now (patch_sub (Lock_Sub, now) r)"
  by (simp add: chargeable_def lock_free_def STALE_LOCK_MS_def)

lemma still_chargeable:
  "filter (chargeable now) (subs (snd (sweep_subs cfg now s))) =
     filter (\<lambda>r. su_id r \<notin> set (due_ids cfg now s)) (filter (chargeable now) (subs s))"
proof -
  have "filter (chargeable now) (update_where (\<lambda>r. su_id r \<in> I) (patch_sub (Lock_Sub, now)) t) =
      filter (\<lambda>r. su_id r \<notin> I) (filter (chargeable now) t)" for I t
    by (induction t) (auto simp: locked_not_chargeable simp del: patch_sub.simps)
  then show ?thesis by (simp add: sweep_subs_eq del: filter_filter)
qed

lemma length_due_ids:
  "length (due_ids cfg now s) = min (length (filter (chargeable now) (subs s))) (cf_sweep_limit cfg)"
  by (simp add: due_ids_def sweep_candidates_def min.commute)

lemma sweep_progress:
  assumes "distinct (map su_id (subs s))"
  shows "length (filter (chargeable now) (subs (snd (sweep_subs cfg now s)))) =
    length (filter (chargeable now) (subs s)) - cf_sweep_limit cfg"
proof -
  let ?C = "filter (chargeable now) (subs s)"
  have "distinct (map su_id ?C)" using assms by (rule distinct_map_filter)
  have "set (due_ids cfg now s) \<subseteq> su_id ` set ?C" using due_id_row by fastforce
  have "length (filter (\<lambda>r. su_id r \<notin> set (due_ids cfg now s)) ?C) = length ?C - length (due_ids cfg now s)"
    using \<open>distinct (map su_id ?C)\<close> distinct_due_ids [OF assms] \<open>set (due_ids cfg now s) \<subseteq> _\<close>
    by (rule length_filter_not_in)
  then show ?thesis by (simp add: still_chargeable length_due_ids)
qed

interpretation sweep_drain: batch_drain "\<lambda>s. snd (sweep_subs cfg now s)" "\<lambda>s. distinct (map su_id (subs s))"
    "\<lambda>s. length (filter (chargeable now) (subs s))" "cf_sweep_limit cfg" for cfg now
  by unfold_locales (simp_all only: sweep_progress, simp add: sweep_subs_eq)

lemma for_each_replicate:
  assumes "\<And>s. \<exists>y. fst (m x s) = Inr y"
  shows "snd (for_each m (replicate k x) s) = ((\<lambda>s. snd (m x s)) ^^ k) s"
proof (induction k arbitrary: s)
  case 0
  then show ?case by simp
next
  case (Suc k)
  obtain y s1 where 1: "m x s = (Inr y, s1)" using assms [of s] by (cases "m x s") auto
  have "snd (for_each m (replicate (Suc k) x) s) = snd (for_each m (replicate k x) s1)"
    by (simp add: 1 seq_def split: prod.split sum.split)
  also have "\<dots> = ((\<lambda>s. snd (m x s)) ^^ Suc k) s"
    unfolding Suc funpow_Suc_right comp_apply by (simp add: 1)
  finally show ?case .
qed

lemma sweep_takes:
  "set (due_ids cfg now s) \<union> su_id ` set (filter (chargeable now) (subs (snd (sweep_subs cfg now s)))) =
     su_id ` set (filter (chargeable now) (subs s))"
  unfolding still_chargeable using due_id_row by fastforce

lemma sweeps_take:
  "\<exists>Q. due_queue (((\<lambda>s. snd (sweep_subs cfg now s)) ^^ k) s) = due_queue s @ Q \<and>
     set Q \<union> su_id ` set (filter (chargeable now) (subs (((\<lambda>s. snd (sweep_subs cfg now s)) ^^ k) s))) =
       su_id ` set (filter (chargeable now) (subs s))"
proof (induction k)
  case 0
  then show ?case by simp
next
  case (Suc k)
  let ?s1 = "((\<lambda>s. snd (sweep_subs cfg now s)) ^^ k) s"
  from Suc obtain Q where Q: "due_queue ?s1 = due_queue s @ Q"
    "set Q \<union> su_id ` set (filter (chargeable now) (subs ?s1)) = su_id ` set (filter (chargeable now) (subs s))" by blast
  have "due_queue (snd (sweep_subs cfg now ?s1)) = due_queue s @ (Q @ due_ids cfg now ?s1)"
    by (simp add: sweep_subs_eq [of cfg now ?s1] Q(1))
  moreover have "set (Q @ due_ids cfg now ?s1) \<union> su_id ` set (filter (chargeable now) (subs (snd (sweep_subs cfg now ?s1)))) =
      su_id ` set (filter (chargeable now) (subs s))"
    using Q(2) sweep_takes [of cfg now ?s1] by (simp only: set_append) blast
  ultimately show ?case by (simp only: funpow.simps comp_apply) blast
qed

lemma sweeps_drain:
  assumes "distinct (map su_id (subs s))"
    and "length (filter (chargeable now) (subs s)) \<le> k * cf_sweep_limit cfg"
  shows "\<exists>Q. due_queue (snd (for_each (sweep_subs cfg) (replicate k now) s)) = due_queue s @ Q \<and>
     set Q = su_id ` set (filter (chargeable now) (subs s))"
proof -
  have run: "snd (for_each (sweep_subs cfg) (replicate k now) s) = ((\<lambda>s. snd (sweep_subs cfg now s)) ^^ k) s"
    by (rule for_each_replicate) (simp add: sweep_subs_eq)
  have "filter (chargeable now) (subs (((\<lambda>s. snd (sweep_subs cfg now s)) ^^ k) s)) = []"
    using sweep_drain.drained [OF assms] by simp
  with sweeps_take [where cfg = cfg and now = now and k = k and s = s] show ?thesis
    unfolding run by (simp del: set_filter)
qed

section \<open>Properties\<close>

text \<open>
  The expiry sweep conserves units and misses nothing: what open sessions held and the sweep expired is
  back in stock, so the units of every product (stock plus open sessions) are the same; afterwards no open
  session is past its expiry; and the outbox got one \<open>payment.failed\<close> event per expired session.
\<close>

theorem expiry_sweep_spec:
  assumes "pid \<noteq> []"
  shows "units pid (snd (sweep_sessions eid now s)) = units pid s \<and>
    (\<forall>r\<in>set (sessions (snd (sweep_sessions eid now s))). \<not> session_overdue now r) \<and>
    events (snd (sweep_sessions eid now s)) =
      events s @ map (expiry_event eid now) (filter (session_overdue now) (sessions s))"
proof -
  let ?s1 = "snd (sweep_sessions eid now s)"
  have "units pid ?s1 = units pid s"
    using expired_units [of pid now "sessions s"]
    by (cases "stock_of pid s")
      (auto simp: units_def stock_of_def sweep_sessions_eq stock_restock_units [OF assms] simp del: filter_filter)
  moreover have "\<forall>r\<in>set (sessions ?s1). \<not> session_overdue now r"
    using expiry.due_after_flip by (auto simp: sweep_sessions_eq simp del: patch_session.simps)
  moreover have "events ?s1 = events s @ map (expiry_event eid now) (filter (session_overdue now) (sessions s))"
    by (simp add: sweep_sessions_eq)
  ultimately show ?thesis by blast
qed

text \<open>
  Whatever the times at which the three flipping sweeps run, a session is reported expired, a
  subscription lapsed and an invoice overdue at most once: the events a run of sweeps adds are pairwise
  different.
\<close>

theorem flips_reported_once:
  assumes "distinct (map ps_id (sessions s))" and "distinct (map su_id (subs s))" and "distinct (map iv_id (invoices s))"
  shows "(\<exists>new. map ev_payload (events (snd (for_each (\<lambda>n. sweep_sessions (eid n) n) ns s))) =
            map ev_payload (events s) @ new \<and> distinct new) \<and>
         (\<exists>new. map ev_payload (events (snd (for_each (\<lambda>n. sweep_lapsed (eid n) n) ns s))) =
            map ev_payload (events s) @ new \<and> distinct new) \<and>
         (\<exists>new. map ev_payload (events (snd (for_each (\<lambda>n. sweep_invoices (eid n) n) ns s))) =
            map ev_payload (events s) @ new \<and> distinct new)"
  using expiry.run_once [OF assms(1)] lapse.run_once [OF assms(2)] overdue.run_once [OF assms(3)] by blast

text \<open>
  C38. The charge lock works: in any window of ten minutes, however often the subscription sweeper runs, no
  subscription is queued for a charge twice.
\<close>

theorem charge_queued_once:
  assumes "distinct (map su_id (subs s))" and "\<forall>n\<in>set ns. t0 \<le> n \<and> n \<le> t0 + STALE_LOCK_MS"
  shows "\<exists>Q. due_queue (snd (for_each (sweep_subs cfg) ns s)) = due_queue s @ Q \<and> distinct Q"
proof -
  have "locked_since t0 {} s" by (simp add: locked_since_def)
  from sweeps_distinct [OF assms(1) this assms(2)] show ?thesis by blast
qed

text \<open>
  No due subscription is left out: \<open>k\<close> sweeps whose limits together cover the due subscriptions
  queue every one of them exactly once, and none that is not due.
\<close>

theorem due_subscriptions_all_queued:
  assumes "distinct (map su_id (subs s))"
    and "length (filter (chargeable now) (subs s)) \<le> k * cf_sweep_limit cfg"
  shows "\<exists>Q. due_queue (snd (for_each (sweep_subs cfg) (replicate k now) s)) = due_queue s @ Q \<and>
    distinct Q \<and> set Q = su_id ` set (filter (chargeable now) (subs s))"
proof -
  have "locked_since now {} s" by (simp add: locked_since_def)
  moreover have "\<forall>n\<in>set (replicate k now). now \<le> n \<and> n \<le> now + STALE_LOCK_MS" by (simp add: STALE_LOCK_MS_def)
  ultimately have "\<exists>Q. due_queue (snd (for_each (sweep_subs cfg) (replicate k now) s)) = due_queue s @ Q \<and>
      distinct Q \<and> set Q \<inter> {} = {}"
    by (rule sweeps_distinct [OF assms(1)])
  then obtain Q where Q: "due_queue (snd (for_each (sweep_subs cfg) (replicate k now) s)) = due_queue s @ Q" "distinct Q"
    by blast
  with sweeps_drain [OF assms] have "set Q = su_id ` set (filter (chargeable now) (subs s))" by auto
  with Q show ?thesis by blast
qed

section \<open>Witnesses\<close>

definition due_sub :: sub_row where
  [sample_defs]: "due_sub = sample_sub\<lparr>su_status := Sub_Active, su_onchain_subscription_id := Some 3,
     su_next_charge_at := Some 10, su_next_retry_at := None, su_charge_lock := False\<rparr>"

definition due_store :: store where
  [sample_defs]: "due_store = sample_store\<lparr>subs := [due_sub]\<rparr>"

lemma due_sub_chargeable: "filter (chargeable 20) (subs due_store) = [due_sub]"
  by (simp add: due_store_def chargeable_def lock_free_def due_sub_def)

lemma due_store_keys: "distinct (map su_id (subs due_store))"
  by (simp add: due_store_def)

theorem expiry_sweep_spec_witness:
  "units ''pr1'' (snd (sweep_sessions (\<lambda>i. i) 99999999 sample_store)) = units ''pr1'' sample_store"
  using expiry_sweep_spec [of "''pr1''" "\<lambda>i. i" 99999999 sample_store] by simp

theorem flips_reported_once_witness:
  "\<exists>new. map ev_payload (events (snd (for_each (\<lambda>n. sweep_sessions (\<lambda>i. i) n) [5, 99999999] sample_store))) =
     map ev_payload (events sample_store) @ new \<and> distinct new"
proof -
  have "distinct (map ps_id (sessions sample_store))" "distinct (map su_id (subs sample_store))"
    "distinct (map iv_id (invoices sample_store))" by (simp_all add: sample_store_def empty_store_def)
  from flips_reported_once [OF this, of "\<lambda>_ i. i" "[5, 99999999]"] show ?thesis by blast
qed

theorem charge_queued_once_witness:
  "\<exists>Q. due_queue (snd (for_each (sweep_subs sample_config) [20, 30000] due_store)) = due_queue due_store @ Q \<and> distinct Q"
  using charge_queued_once [OF due_store_keys, of "[20, 30000]" 0 sample_config] by (simp add: STALE_LOCK_MS_def)

theorem due_subscriptions_all_queued_witness:
  "\<exists>Q. due_queue (snd (for_each (sweep_subs (sample_config\<lparr>cf_sweep_limit := 5\<rparr>)) [20] due_store)) = due_queue due_store @ Q \<and>
     distinct Q \<and> set Q = {su_id due_sub}"
  using due_subscriptions_all_queued [OF due_store_keys, of 20 1 "sample_config\<lparr>cf_sweep_limit := 5\<rparr>"]
  by (simp add: due_sub_chargeable)

end
