(* ===== verification/Chain_Service.thy ===== *)
theory Chain_Service
  imports Sweepers
begin

text \<open>
  \<open>apps/scheduler/src/infra/chain/chain.service.ts\<close>: the contract reads and writes of the scheduler.
  The answers of the RPC node are fields of \<open>chain_world\<close>, \<open>None\<close> where the call throws. A worker
  runs on the shared store and the log of the writes it handed to the wallet; a write is logged whether or
  not the wallet answers, since a call that throws may still have been broadcast. Contract addresses, ABI and
  account are fixed by the configuration and not kept.
\<close>

record onchain_sub =
  oc_cancelled :: bool
  oc_end_at :: int
  oc_next_charge_at :: int

datatype chain_call =
    Batch_Charge "nat list" "string list"
  | Cancel_Call nat
  | Create_Job_Call string string string int string
  | Release_Call nat
  | Dispute_Call nat string
  | Cancel_Job_Call nat string
  | Receive_Message string string
  | Set_Fee_Bps nat nat

record chain_world =
  cw_subscription :: "nat \<Rightarrow> onchain_sub option"
  cw_attempt_used :: "string \<Rightarrow> bool option"
  cw_merchant_fee_bps :: "nat \<Rightarrow> nat option"
  cw_write :: "chain_call \<Rightarrow> string option"
  cw_receipt_success :: "string \<Rightarrow> bool option"
  cw_keccak256 :: "string \<Rightarrow> string"

record worker_state =
  wk_store :: store
  wk_writes :: "chain_call list"

type_synonym 'a worker = "(worker_state, api_exn, 'a) proc"

definition on_db :: "(store, api_exn, 'a) proc \<Rightarrow> 'a worker" where
  "on_db m = (\<lambda>x. case m (wk_store x) of (r, s) \<Rightarrow> (r, x\<lparr>wk_store := s\<rparr>))"

definition rpc_read :: "'a option \<Rightarrow> 'a worker" where
  "rpc_read a = or_raise (Crash ''rpc'') a"

definition writeContract :: "chain_world \<Rightarrow> chain_call \<Rightarrow> string worker" where
  "writeContract w call =
     seq (modify (\<lambda>x. x\<lparr>wk_writes := wk_writes x @ [call]\<rparr>)) (\<lambda>_. or_raise (Crash ''write'') (cw_write w call))"

definition isSubscriptionCancelled :: "chain_world \<Rightarrow> nat \<Rightarrow> bool worker" where
  "isSubscriptionCancelled w i = seq (rpc_read (cw_subscription w i)) (\<lambda>sub. ret (oc_cancelled sub))"

definition cancelSubscription :: "chain_world \<Rightarrow> nat \<Rightarrow> string worker" where
  "cancelSubscription w i = writeContract w (Cancel_Call i)"

definition batchCharge :: "chain_world \<Rightarrow> nat list \<Rightarrow> string list \<Rightarrow> string worker" where
  "batchCharge w subscriptionIds chargeAttemptIds =
     (if length subscriptionIds \<noteq> length chargeAttemptIds then raise (Crash ''batchCharge'')
      else writeContract w (Batch_Charge subscriptionIds chargeAttemptIds))"

definition isAttemptUsed :: "chain_world \<Rightarrow> string \<Rightarrow> bool worker" where
  "isAttemptUsed w chargeAttemptId = rpc_read (cw_attempt_used w chargeAttemptId)"

text \<open>\<open>now\<close> is \<open>Date.now()\<close>, in milliseconds.\<close>

definition charge_due :: "int \<Rightarrow> onchain_sub \<Rightarrow> bool" where
  "charge_due now sub =
     (if oc_cancelled sub then False
      else let t = now div 1000 in
        if oc_end_at sub \<noteq> 0 \<and> oc_end_at sub \<le> t then False else oc_next_charge_at sub \<le> t)"

definition isChargeDue :: "chain_world \<Rightarrow> int \<Rightarrow> nat \<Rightarrow> bool worker" where
  "isChargeDue w now i = seq (rpc_read (cw_subscription w i)) (\<lambda>sub. ret (charge_due now sub))"

definition setMerchantFeeBps :: "chain_world \<Rightarrow> nat \<Rightarrow> nat \<Rightarrow> string worker" where
  "setMerchantFeeBps w i feeBps =
     seq (writeContract w (Set_Fee_Bps i feeBps)) (\<lambda>hash.
     seq (rpc_read (cw_receipt_success w hash)) (\<lambda>success.
     if success then ret hash else raise (Crash ''setFeeBps reverted'')))"

definition readMerchantFeeBps :: "chain_world \<Rightarrow> nat \<Rightarrow> nat worker" where
  "readMerchantFeeBps w i = rpc_read (cw_merchant_fee_bps w i)"

definition createJob_onchain :: "chain_world \<Rightarrow> string \<Rightarrow> string \<Rightarrow> string \<Rightarrow> int \<Rightarrow> string \<Rightarrow> string worker" where
  "createJob_onchain w vendor assessor token amount description =
     writeContract w (Create_Job_Call vendor assessor token amount description)"

definition approveAndReleaseJob :: "chain_world \<Rightarrow> nat \<Rightarrow> string worker" where
  "approveAndReleaseJob w jobId = writeContract w (Release_Call jobId)"

definition disputeJob_onchain :: "chain_world \<Rightarrow> nat \<Rightarrow> string \<Rightarrow> string worker" where
  "disputeJob_onchain w jobId reason = writeContract w (Dispute_Call jobId reason)"

definition cancelJob_onchain :: "chain_world \<Rightarrow> nat \<Rightarrow> string \<Rightarrow> string worker" where
  "cancelJob_onchain w jobId reason = writeContract w (Cancel_Job_Call jobId reason)"

definition receiveCctpMessage :: "chain_world \<Rightarrow> string \<Rightarrow> string \<Rightarrow> string worker" where
  "receiveCctpMessage w messageHex attestationHex = writeContract w (Receive_Message messageHex attestationHex)"

lemmas chain_defs = rpc_read_def writeContract_def isSubscriptionCancelled_def cancelSubscription_def
  batchCharge_def isAttemptUsed_def isChargeDue_def setMerchantFeeBps_def readMerchantFeeBps_def
  createJob_onchain_def approveAndReleaseJob_def disputeJob_onchain_def cancelJob_onchain_def
  receiveCctpMessage_def

lemma on_db_app [simp]: "on_db m x = (fst (m (wk_store x)), x\<lparr>wk_store := snd (m (wk_store x))\<rparr>)"
  by (simp add: on_db_def split: prod.split)

lemma seq_on_db: "seq (on_db m) k x =
  (case m (wk_store x) of (Inl e, s) \<Rightarrow> (Inl e, x\<lparr>wk_store := s\<rparr>) | (Inr y, s) \<Rightarrow> k y (x\<lparr>wk_store := s\<rparr>))"
  by (simp add: seq_def split: prod.split sum.split)

lemma writeContract_eq:
  "writeContract w call x =
     (case cw_write w call of None \<Rightarrow> Inl (Crash ''write'') | Some h \<Rightarrow> Inr h, x\<lparr>wk_writes := wk_writes x @ [call]\<rparr>)"
  by (simp add: writeContract_def split: option.split)

end
