(* ===== verification/Charging.thy ===== *)
theory Charging
  imports Chain_Service
begin

text \<open>
  \<open>apps/scheduler/src/workers/subscription-due/subscription-due.worker.ts\<close>: one queued charge. The worker
  asks the contract whether the charge is due, takes the first attempt id of the period that is not used up,
  broadcasts \<open>batchCharge\<close> and releases the lock the sweeper took.
\<close>

section \<open>Attempt ids\<close>

definition MAX_ATTEMPTS_PER_PERIOD :: nat where
  "MAX_ATTEMPTS_PER_PERIOD = 8"

text \<open>\<open>n.toString(16)\<close>, the digits \<open>a\<close> to \<open>f\<close> in lower case.\<close>

definition hex_char :: "nat \<Rightarrow> char" where
  "hex_char d = (if d < 10 then char_of (48 + d) else char_of (87 + d))"

fun show_hex :: "nat \<Rightarrow> string" where
  "show_hex n = (if n < 16 then [hex_char n] else show_hex (n div 16) @ [hex_char (n mod 16)])"

declare show_hex.simps [simp del]

definition show_hex_int :: "int \<Rightarrow> string" where
  "show_hex_int i = (if i < 0 then ''-'' @ show_hex (nat (- i)) else show_hex (nat i))"

definition packed_attempt :: "nat \<Rightarrow> int \<Rightarrow> nat \<Rightarrow> string" where
  "packed_attempt onchainSubscriptionId periodEndAt attempt =
     ''0x'' @ padStart 64 (CHR ''0'') (show_hex onchainSubscriptionId) @
     padStart 16 (CHR ''0'') (show_hex_int (periodEndAt div 1000)) @
     padStart 8 (CHR ''0'') (show_hex attempt)"

definition deriveChargeAttemptId :: "chain_world \<Rightarrow> nat \<Rightarrow> int \<Rightarrow> nat \<Rightarrow> string" where
  "deriveChargeAttemptId w onchainSubscriptionId periodEndAt attempt =
     cw_keccak256 w (packed_attempt onchainSubscriptionId periodEndAt attempt)"

section \<open>The worker\<close>

definition releaseLock :: "int \<Rightarrow> string \<Rightarrow> (store, api_exn, unit) proc" where
  "releaseLock now i =
     seq (gets (\<lambda>s. find_row su_id i (subs s))) (\<lambda>found.
     seq (or_raise p2025 found) (\<lambda>_.
     modify (\<lambda>s. s\<lparr>subs := update_where (\<lambda>r. su_id r = i) (patch_sub (Unlock_Sub, now)) (subs s)\<rparr>)))"

fun first_unused :: "chain_world \<Rightarrow> nat \<Rightarrow> int \<Rightarrow> nat list \<Rightarrow> string option worker" where
  "first_unused w onchain periodEnd [] = ret None"
| "first_unused w onchain periodEnd (attempt # rest) =
     (let candidate = deriveChargeAttemptId w onchain periodEnd attempt in
      seq (isAttemptUsed w candidate) (\<lambda>used.
      if used then first_unused w onchain periodEnd rest else ret (Some candidate)))"

definition release_and :: "int \<Rightarrow> string \<Rightarrow> 'a worker \<Rightarrow> 'a worker" where
  "release_and now i k = seq (on_db (releaseLock now i)) (\<lambda>_. k)"

definition process_due :: "chain_world \<Rightarrow> int \<Rightarrow> string \<Rightarrow> (string \<times> string) worker" where
  "process_due w now i =
     seq (gets (\<lambda>x. find_row su_id i (subs (wk_store x)))) (\<lambda>found.
     seq (or_raise p2025 found) (\<lambda>sub.
     case su_onchain_subscription_id sub of
       None \<Rightarrow> release_and now (su_id sub) (raise (Crash ''not linked''))
     | Some onchain \<Rightarrow>
         if su_status sub = Sub_Cancelled \<or> su_status sub = Lapsed
         then release_and now (su_id sub) (ret (''0x0'', ''0x0''))
         else
         seq (isChargeDue w now onchain) (\<lambda>due.
         if \<not> due then release_and now (su_id sub) (ret (''0xnotdue'', ''0x0''))
         else
         seq (first_unused w onchain (su_current_period_end_at sub) [0..<MAX_ATTEMPTS_PER_PERIOD]) (\<lambda>picked.
         case picked of
           None \<Rightarrow> release_and now (su_id sub) (ret (''0xexhausted'', ''0x0''))
         | Some chargeAttemptId \<Rightarrow>
             seq (catch (batchCharge w [onchain] [chargeAttemptId])
                    (\<lambda>e. release_and now (su_id sub) (raise e))) (\<lambda>txHash.
             release_and now (su_id sub) (ret (txHash, chargeAttemptId)))))))"

section \<open>Attempt ids are unique\<close>

definition hex_val :: "char \<Rightarrow> nat" where
  "hex_val c = (let n = of_char c :: nat in if n \<le> 57 then n - 48 else n - 87)"

definition hex_nat :: "string \<Rightarrow> nat" where
  "hex_nat s = foldl (\<lambda>a c. 16 * a + hex_val c) 0 s"

lemma hex_val_char: "d < 16 \<Longrightarrow> hex_val (hex_char d) = d"
  by (simp add: hex_val_def hex_char_def of_char_of)

lemma hex_nat_snoc: "hex_nat (s @ [c]) = 16 * hex_nat s + hex_val c"
  by (simp add: hex_nat_def)

lemma hex_nat_show_hex [simp]: "hex_nat (show_hex n) = n"
proof (induction n rule: show_hex.induct)
  case (1 n)
  show ?case
  proof (cases "n < 16")
    case True
    then show ?thesis by (subst show_hex.simps) (simp add: hex_nat_def hex_val_char)
  next
    case False
    with 1 have "hex_nat (show_hex (n div 16)) = n div 16" by simp
    with False show ?thesis by (subst show_hex.simps) (simp add: hex_nat_snoc hex_val_char)
  qed
qed

lemma hex_nat_pad [simp]: "hex_nat (padStart k (CHR ''0'') s) = hex_nat s"
proof -
  have "foldl (\<lambda>a c. 16 * a + hex_val c) 0 (replicate n (CHR ''0'') @ s) = foldl (\<lambda>a c. 16 * a + hex_val c) 0 s" for n
    by (induction n) (simp_all add: hex_val_def)
  then show ?thesis by (simp add: hex_nat_def padStart_def)
qed

lemma length_show_hex: "0 < k \<Longrightarrow> n < 16 ^ k \<Longrightarrow> length (show_hex n) \<le> k"
proof (induction n arbitrary: k rule: show_hex.induct)
  case (1 n)
  show ?case
  proof (cases "n < 16")
    case True
    with 1 show ?thesis by (subst show_hex.simps) simp
  next
    case False
    with 1(3) obtain j where k: "k = Suc j" "0 < j" by (cases k; cases "k - 1") auto
    with 1(3) have "n div 16 < 16 ^ j" by (simp add: less_mult_imp_div_less mult.commute)
    with 1(1) False k have "length (show_hex (n div 16)) \<le> j" by blast
    with False k show ?thesis by (subst show_hex.simps) simp
  qed
qed

lemma length_pad_hex: "0 < k \<Longrightarrow> n < 16 ^ k \<Longrightarrow> length (padStart k (CHR ''0'') (show_hex n)) = k"
  using length_show_hex by (simp add: padStart_def)

lemma pad_hex_inj: "padStart k (CHR ''0'') (show_hex m) = padStart k (CHR ''0'') (show_hex n) \<longleftrightarrow> m = n"
  by (metis hex_nat_pad hex_nat_show_hex)

section \<open>What a run does\<close>

definition released :: "int \<Rightarrow> string \<Rightarrow> worker_state \<Rightarrow> worker_state" where
  "released now i x = x\<lparr>wk_store := (wk_store x)\<lparr>subs :=
     update_where (\<lambda>r. su_id r = i) (patch_sub (Unlock_Sub, now)) (subs (wk_store x))\<rparr>\<rparr>"

lemma release_and_eq:
  "find_row su_id i (subs (wk_store x)) = Some sub \<Longrightarrow> release_and now i k x = k (released now i x)"
  by (simp add: release_and_def seq_on_db releaseLock_def released_def del: patch_sub.simps)

lemma first_unused_result:
  "first_unused w n p as x = (r, x') \<Longrightarrow> x' = x \<and>
   (case r of
      Inl e \<Rightarrow> \<exists>a\<in>set as. cw_attempt_used w (deriveChargeAttemptId w n p a) = None
    | Inr None \<Rightarrow> True
    | Inr (Some c) \<Rightarrow> \<exists>before a rest. as = before @ a # rest \<and> c = deriveChargeAttemptId w n p a \<and>
        cw_attempt_used w c = Some False \<and>
        (\<forall>b\<in>set before. cw_attempt_used w (deriveChargeAttemptId w n p b) = Some True))"
proof (induction as)
  case Nil
  then show ?case by (auto simp: ret_def)
next
  case (Cons a as)
  let ?c = "deriveChargeAttemptId w n p a"
  show ?case
  proof (cases "cw_attempt_used w ?c")
    case None
    with Cons.prems show ?thesis by (auto simp: isAttemptUsed_def rpc_read_def Let_def)
  next
    case (Some used)
    show ?thesis
    proof (cases used)
      case True
      with Cons.prems Some have run: "first_unused w n p as x = (r, x')"
        by (simp add: isAttemptUsed_def rpc_read_def Let_def)
      from Cons.IH [OF this] show ?thesis
      proof (cases r)
        case (Inr q)
        show ?thesis
        proof (cases q)
          case None
          with Inr Cons.IH [OF run] show ?thesis by simp
        next
          case (Some c)
          with Inr Cons.IH [OF run] obtain before b rest where "as = before @ b # rest"
            "c = deriveChargeAttemptId w n p b" "cw_attempt_used w c = Some False" "x' = x"
            "\<forall>b\<in>set before. cw_attempt_used w (deriveChargeAttemptId w n p b) = Some True" by auto
          moreover have "cw_attempt_used w ?c = Some True" using \<open>cw_attempt_used w ?c = Some used\<close> True by simp
          ultimately show ?thesis using Inr Some
            by (auto intro!: exI [of _ "a # before"])
        qed
      qed auto
    next
      case False
      with Cons.prems Some have "r = Inr (Some ?c)" "x' = x"
        by (simp_all add: isAttemptUsed_def rpc_read_def Let_def ret_def)
      with Some False show ?thesis by (auto intro!: exI [of _ "[]"])
    qed
  qed
qed

lemma batchCharge_one:
  "batchCharge w [n] [c] x =
     (case cw_write w (Batch_Charge [n] [c]) of None \<Rightarrow> Inl (Crash ''write'') | Some h \<Rightarrow> Inr h,
      x\<lparr>wk_writes := wk_writes x @ [Batch_Charge [n] [c]]\<rparr>)"
  by (simp add: batchCharge_def writeContract_eq)

text \<open>When a charge is broadcast: everything the worker has checked by then.\<close>

definition charges :: "chain_world \<Rightarrow> int \<Rightarrow> sub_row \<Rightarrow> nat \<Rightarrow> string \<Rightarrow> bool" where
  "charges w now sub n c \<longleftrightarrow> su_onchain_subscription_id sub = Some n \<and>
     su_status sub \<notin> {Sub_Cancelled, Lapsed} \<and>
     (\<exists>oc. cw_subscription w n = Some oc \<and> charge_due now oc) \<and>
     cw_attempt_used w c = Some False \<and>
     (\<exists>a < MAX_ATTEMPTS_PER_PERIOD. c = deriveChargeAttemptId w n (su_current_period_end_at sub) a \<and>
        (\<forall>b < a. cw_attempt_used w (deriveChargeAttemptId w n (su_current_period_end_at sub) b) = Some True))"

lemma upt_split: "[0..<k] = before @ a # rest \<Longrightarrow> a < k \<and> (\<forall>b < a. b \<in> set before)"
proof -
  assume eq: "[0..<k] = before @ a # rest"
  then have len: "length before < k" by (metis length_append length_upt length_Cons less_add_Suc1 diff_zero add_Suc_right)
  then have "a = length before" "before = [0..<length before]"
    using eq by (metis nth_append_length nth_upt add_0)
      (metis append_eq_conv_conj eq len less_imp_le_nat take_upt add_0)
  with len show "a < k \<and> (\<forall>b < a. b \<in> set before)" by (metis atLeast0LessThan lessThan_iff set_upt)
qed

lemma process_due_cases:
  assumes f: "find_row su_id i (subs (wk_store x)) = Some sub"
    and run: "process_due w now i x = (r, x')"
  obtains (unread) n where "x' = x" "su_onchain_subscription_id sub = Some n"
      "cw_subscription w n = None \<or> (\<exists>a. cw_attempt_used w a = None)"
    | (nothing) "x' = released now i x"
    | (broadcast) n c where "charges w now sub n c"
      "x' = released now i (x\<lparr>wk_writes := wk_writes x @ [Batch_Charge [n] [c]]\<rparr>)"
proof -
  have id: "su_id sub = i" using f by (auto dest: find_row_Some)
  show thesis
  proof (cases "su_onchain_subscription_id sub")
    case None
    with run f id have "x' = released now i x"
      by (simp add: process_due_def release_and_eq)
    then show ?thesis by (rule nothing)
  next
    case (Some n)
    consider (ended) "su_status sub \<in> {Sub_Cancelled, Lapsed}"
      | (unknown) "su_status sub \<notin> {Sub_Cancelled, Lapsed}" "cw_subscription w n = None"
      | (early) oc where "su_status sub \<notin> {Sub_Cancelled, Lapsed}" "cw_subscription w n = Some oc" "\<not> charge_due now oc"
      | (due) oc where "su_status sub \<notin> {Sub_Cancelled, Lapsed}" "cw_subscription w n = Some oc" "charge_due now oc"
      by blast
    then show ?thesis
    proof cases
      case ended
      with run f id Some have "x' = released now i x"
        by (auto simp: process_due_def release_and_eq)
      then show ?thesis by (rule nothing)
    next
      case unknown
      with run f Some have "x' = x" by (simp add: process_due_def isChargeDue_def rpc_read_def seq_assoc)
      then show ?thesis using Some unknown by (intro unread) auto
    next
      case early
      with run f id Some have "x' = released now i x"
        by (simp add: process_due_def isChargeDue_def rpc_read_def seq_assoc release_and_eq)
      then show ?thesis by (rule nothing)
    next
      case due
      let ?p = "su_current_period_end_at sub"
      obtain q y where q: "first_unused w n ?p [0..<MAX_ATTEMPTS_PER_PERIOD] x = (q, y)" by fastforce
      from first_unused_result [OF this] have y: "y = x" by simp
      show ?thesis
      proof (cases q)
        case (Inl e)
        with run f Some due q y have "x' = x"
          by (simp add: process_due_def isChargeDue_def rpc_read_def seq_assoc seq_def)
        moreover have "\<exists>a. cw_attempt_used w a = None" using first_unused_result [OF q] Inl by auto
        ultimately show ?thesis using Some by (intro unread) auto
      next
        case (Inr picked)
        have fu: "first_unused w n ?p [0..<MAX_ATTEMPTS_PER_PERIOD] x = (Inr picked, x)" using q y Inr by simp
        show ?thesis
        proof (cases picked)
          case None
          with run f id Some due have "x' = released now i x"
            by (simp add: process_due_def isChargeDue_def rpc_read_def seq_assoc seq_def fu release_and_eq)
          then show ?thesis by (rule nothing)
        next
          case (Some c)
          let ?x1 = "x\<lparr>wk_writes := wk_writes x @ [Batch_Charge [n] [c]]\<rparr>"
          have f1: "find_row su_id i (subs (wk_store ?x1)) = Some sub" using f by simp
          have "x' = released now i ?x1"
            using run f id \<open>su_onchain_subscription_id sub = Some n\<close> due Some
            by (auto simp: process_due_def isChargeDue_def rpc_read_def seq_assoc fu catch_def seq_def
                batchCharge_one release_and_eq [OF f1] split: option.splits)
          moreover have "charges w now sub n c"
            using first_unused_result [OF q] Inr Some due \<open>su_onchain_subscription_id sub = Some n\<close>
            by (auto simp: charges_def dest!: upt_split)
          ultimately show ?thesis using broadcast by blast
        qed
      qed
    qed
  qed
qed

section \<open>Properties\<close>

text \<open>
  The attempt id names one attempt of one period of one subscription: within the widths of the packed
  fields, the packed text of two attempts is the same only when the subscription, the period end (in
  seconds) and the attempt number are.
\<close>

theorem charge_attempt_ids_distinct:
  assumes "m < 16 ^ 64" and "n < 16 ^ 64" and "0 \<le> p" and "0 \<le> q"
    and "nat (p div 1000) < 16 ^ 16" and "nat (q div 1000) < 16 ^ 16" and "a < 16 ^ 8" and "b < 16 ^ 8"
  shows "packed_attempt m p a = packed_attempt n q b \<longleftrightarrow> m = n \<and> p div 1000 = q div 1000 \<and> a = b"
proof -
  let ?pad = "\<lambda>k v. padStart k (CHR ''0'') (show_hex v)"
  have pos: "0 \<le> p div 1000" "0 \<le> q div 1000" using assms(3,4) by simp_all
  then have "show_hex_int (p div 1000) = show_hex (nat (p div 1000))" "show_hex_int (q div 1000) = show_hex (nat (q div 1000))"
    by (simp_all add: show_hex_int_def)
  then have "packed_attempt m p a = packed_attempt n q b \<longleftrightarrow>
      ?pad 64 m = ?pad 64 n \<and> ?pad 16 (nat (p div 1000)) = ?pad 16 (nat (q div 1000)) \<and> ?pad 8 a = ?pad 8 b"
    using length_pad_hex [of 64] length_pad_hex [of 16] assms by (simp add: packed_attempt_def)
  also have "\<dots> \<longleftrightarrow> m = n \<and> p div 1000 = q div 1000 \<and> a = b"
    using pos by (auto simp: pad_hex_inj)
  finally show ?thesis .
qed

text \<open>
  C39. A charge is broadcast at most once per queued job, and only after every check: the subscription is
  linked, neither cancelled nor lapsed, the contract says the charge is due, and the attempt id is the first
  of the period the contract has not used, among eight. In every other case nothing is written to the chain.
\<close>

theorem charge_broadcast_guarded:
  assumes "process_due w now i x = (r, x')"
  shows "wk_writes x' = wk_writes x \<or>
    (\<exists>sub n c. find_row su_id i (subs (wk_store x)) = Some sub \<and> charges w now sub n c \<and>
       wk_writes x' = wk_writes x @ [Batch_Charge [n] [c]])"
proof (cases "find_row su_id i (subs (wk_store x))")
  case None
  with assms show ?thesis by (auto simp: process_due_def)
next
  case (Some sub)
  from Some assms show ?thesis
    by (rule process_due_cases) (use Some in \<open>auto simp: released_def\<close>)
qed

text \<open>
  The lock of the charge: every outcome (not linked, ended, not due, attempts used up, broadcast,
  broadcast failed) unlocks the subscription and changes no other row. The one exception is a contract read
  that throws: then nothing changes, the row stays locked, and the sweeper takes it again once the lock is
  older than ten minutes, exactly as if it were unlocked.
\<close>

theorem charge_lock_fate:
  assumes "find_row su_id i (subs (wk_store x)) = Some sub" and "process_due w now i x = (r, x')"
  shows "wk_store x' = (wk_store x)\<lparr>subs := update_where (\<lambda>r. su_id r = i) (patch_sub (Unlock_Sub, now)) (subs (wk_store x))\<rparr> \<or>
    x' = x \<and> (\<exists>n. su_onchain_subscription_id sub = Some n \<and>
        (cw_subscription w n = None \<or> (\<exists>a. cw_attempt_used w a = None))) \<and>
      (\<forall>t later. su_charge_lock_acquired_at sub = Some t \<and> t + STALE_LOCK_MS < later \<longrightarrow>
         chargeable later sub = chargeable later (patch_sub (Unlock_Sub, now) sub))"
  using assms
proof (rule process_due_cases)
  fix n
  assume "x' = x" "su_onchain_subscription_id sub = Some n" "cw_subscription w n = None \<or> (\<exists>a. cw_attempt_used w a = None)"
  moreover have "chargeable later sub = chargeable later (patch_sub (Unlock_Sub, now) sub)"
    if "su_charge_lock_acquired_at sub = Some t" "t + STALE_LOCK_MS < later" for t later
    using that by (simp add: chargeable_def lock_free_def)
  ultimately show ?thesis by blast
qed (simp_all add: released_def)

section \<open>Witnesses\<close>

definition sample_chain :: chain_world where
  [sample_defs]: "sample_chain = \<lparr>cw_subscription = (\<lambda>_. Some \<lparr>oc_cancelled = False, oc_end_at = 0, oc_next_charge_at = 0\<rparr>),
     cw_attempt_used = (\<lambda>_. Some False), cw_merchant_fee_bps = (\<lambda>_. Some 50), cw_write = (\<lambda>_. Some ''0xaa''),
     cw_receipt_success = (\<lambda>_. Some True), cw_keccak256 = (\<lambda>s. s)\<rparr>"

definition charging_state :: worker_state where
  [sample_defs]: "charging_state = \<lparr>wk_store = due_store\<lparr>subs := [patch_sub (Lock_Sub, 15) due_sub]\<rparr>, wk_writes = []\<rparr>"

lemma charging_state_row: "find_row su_id ''su1'' (subs (wk_store charging_state)) = Some (patch_sub (Lock_Sub, 15) due_sub)"
  by (simp add: charging_state_def due_sub_def sample_sub_def)

theorem charge_attempt_ids_distinct_witness:
  "packed_attempt 3 2592000000 0 \<noteq> packed_attempt 3 2592000000 1"
  using charge_attempt_ids_distinct [of 3 3 2592000000 2592000000 0 1] by simp

theorem charge_broadcast_guarded_witness:
  "\<exists>r x'. process_due sample_chain 5000 ''su1'' charging_state = (r, x') \<and>
     (wk_writes x' = [] \<or> (\<exists>n c. wk_writes x' = [Batch_Charge [n] [c]]))"
proof -
  obtain r x' where run: "process_due sample_chain 5000 ''su1'' charging_state = (r, x')" by fastforce
  have "wk_writes charging_state = []" by (simp add: charging_state_def)
  with charge_broadcast_guarded [OF run] run show ?thesis by auto
qed

theorem charge_lock_fate_witness:
  "\<exists>r x'. process_due sample_chain 5000 ''su1'' charging_state = (r, x') \<and>
     (x' = charging_state \<or> (\<forall>s\<in>set (subs (wk_store x')). \<not> su_charge_lock s))"
proof -
  obtain r x' where run: "process_due sample_chain 5000 ''su1'' charging_state = (r, x')" by fastforce
  from charge_lock_fate [OF charging_state_row run] run show ?thesis
    by (auto simp: charging_state_def due_sub_def sample_sub_def)
qed

end
