(* ===== verification/Agent_Actions.thy ===== *)
theory Agent_Actions
  imports Chain_Service
begin

text \<open>
  \<open>apps/scheduler/src/workers/agent-action/agent-action.worker.ts\<close>: the queue that carries off-chain
  decisions to the chain. Every job of the union of \<open>agentActionJobSchema\<close> is one branch of
  \<open>dispatch\<close>; \<open>run_actions\<close> is the queue: jobs run one after the other, and one that throws leaves
  what it wrote.
\<close>

fun TOKEN_ADDRESSES :: "arc_environment \<Rightarrow> token_symbol \<Rightarrow> string" where
  "TOKEN_ADDRESSES Testnet (Pay USDC) = ''0x3600000000000000000000000000000000000000''"
| "TOKEN_ADDRESSES Testnet (Pay EURC) = ''0x89B50855Aa3bE2F677cD6303Cec089B5F319D72a''"
| "TOKEN_ADDRESSES Testnet USYC = ''0xe9185F0c5F296Ed1797AaE4238D26CCaBEadb86C''"
| "TOKEN_ADDRESSES Mainnet (Pay USDC) = ''0x3600000000000000000000000000000000000000''"
| "TOKEN_ADDRESSES Mainnet (Pay EURC) = ''0xbEf5f6d51CB62b58e6A8f77868681825C6fe21c1''"
| "TOKEN_ADDRESSES Mainnet USYC = ''0x8a5D989Bbb96929F689B0200f435f53dA42bF490''"

definition find_agent_job :: "string \<Rightarrow> agent_job_row worker" where
  "find_agent_job i =
     seq (gets (\<lambda>x. find_row aj_id i (agent_jobs (wk_store x)))) (or_raise p2025)"

definition settleCctpRouting :: "chain_world \<Rightarrow> string \<Rightarrow> string \<Rightarrow> string worker" where
  "settleCctpRouting w messageHex attestationHex = receiveCctpMessage w messageHex attestationHex"

definition action_cancelSubscription :: "chain_world \<Rightarrow> nat option \<Rightarrow> string worker" where
  "action_cancelSubscription w onchainSubscriptionId =
     (case onchainSubscriptionId of
        None \<Rightarrow> ret ''0xskipped''
      | Some onchainId \<Rightarrow>
          seq (isSubscriptionCancelled w onchainId) (\<lambda>cancelled.
          if cancelled then ret ''0xskipped'' else cancelSubscription w onchainId))"

datatype agent_job_patch = Claim_Job | Set_Escrow_Tx string

fun patch_agent_job :: "agent_job_patch \<Rightarrow> agent_job_row \<Rightarrow> agent_job_row" where
  "patch_agent_job Claim_Job r = r\<lparr>aj_status := Aj_In_Progress\<rparr>"
| "patch_agent_job (Set_Escrow_Tx h) r = r\<lparr>aj_escrow_tx_hash := Some h\<rparr>"

text \<open>\<open>updateMany({ where: { id, status: 'accepted' } })\<close> and its count.\<close>

definition claim_agent_job :: "string \<Rightarrow> (store, api_exn, nat) proc" where
  "claim_agent_job i =
     seq (gets (\<lambda>s. count_where (\<lambda>r. aj_id r = i \<and> aj_status r = Aj_Accepted) (agent_jobs s))) (\<lambda>count.
     seq (modify (\<lambda>s. s\<lparr>agent_jobs := update_where (\<lambda>r. aj_id r = i \<and> aj_status r = Aj_Accepted)
            (patch_agent_job Claim_Job) (agent_jobs s)\<rparr>)) (\<lambda>_. ret count))"

text \<open>The amount column holds digits; \<open>BigInt\<close> of anything else is taken to throw, after the claim.\<close>

definition action_createJob :: "config \<Rightarrow> chain_world \<Rightarrow> string \<Rightarrow> string worker" where
  "action_createJob cfg w jobId =
     seq (find_agent_job jobId) (\<lambda>job.
     seq (on_db (claim_agent_job (aj_id job))) (\<lambda>count.
     if count = 0 then ret ''0xskipped''
     else
     seq (require (list_all is_digit (aj_amount job)) (Crash ''SyntaxError'')) (\<lambda>_.
     seq (createJob_onchain w (aj_vendor_address job) (aj_assessor_address job)
            (TOKEN_ADDRESSES (cf_arc_environment cfg) (Pay (aj_currency job)))
            (BigInt (aj_amount job)) (aj_description job)) (\<lambda>txHash.
     seq (modify (\<lambda>x. x\<lparr>wk_store := (wk_store x)\<lparr>agent_jobs :=
            update_where (\<lambda>r. aj_id r = aj_id job) (patch_agent_job (Set_Escrow_Tx txHash)) (agent_jobs (wk_store x))\<rparr>\<rparr>)) (\<lambda>_.
     ret txHash)))))"

definition on_linked_job :: "string \<Rightarrow> (nat \<Rightarrow> string worker) \<Rightarrow> string worker" where
  "on_linked_job jobId act =
     seq (find_agent_job jobId) (\<lambda>job.
     case aj_onchain_job_id job of None \<Rightarrow> raise (Crash ''job has no onchain id'') | Some n \<Rightarrow> act n)"

definition releaseJob :: "chain_world \<Rightarrow> string \<Rightarrow> string worker" where
  "releaseJob w jobId = on_linked_job jobId (approveAndReleaseJob w)"

definition disputeJob :: "chain_world \<Rightarrow> string \<Rightarrow> string \<Rightarrow> string worker" where
  "disputeJob w jobId reason = on_linked_job jobId (\<lambda>n. disputeJob_onchain w n reason)"

definition cancelJob :: "chain_world \<Rightarrow> string \<Rightarrow> string \<Rightarrow> string worker" where
  "cancelJob w jobId reason = on_linked_job jobId (\<lambda>n. cancelJob_onchain w n reason)"

fun dispatch_action :: "config \<Rightarrow> chain_world \<Rightarrow> agent_action_job \<Rightarrow> string worker" where
  "dispatch_action cfg w (Cancel_Subscription_Onchain i n m r) = action_cancelSubscription w n"
| "dispatch_action cfg w (Create_Job_Onchain jobId) = action_createJob cfg w jobId"
| "dispatch_action cfg w (Release_Job_Onchain jobId) = releaseJob w jobId"
| "dispatch_action cfg w (Dispute_Job_Onchain jobId reason) = disputeJob w jobId reason"
| "dispatch_action cfg w (Cancel_Job_Onchain jobId reason) = cancelJob w jobId reason"
| "dispatch_action cfg w (Cctp_Settle m d t msg att r) = settleCctpRouting w msg att"

definition process_action :: "config \<Rightarrow> chain_world \<Rightarrow> agent_action_job \<Rightarrow> string worker" where
  "process_action cfg w job =
     (if agent_action_job_ok job then dispatch_action cfg w job else raise (Crash ''ZodError''))"

fun run_actions :: "config \<Rightarrow> chain_world \<Rightarrow> agent_action_job list \<Rightarrow> worker_state \<Rightarrow> worker_state" where
  "run_actions cfg w [] x = x"
| "run_actions cfg w (job # jobs) x = run_actions cfg w jobs (snd (process_action cfg w job x))"

section \<open>Escrow funding\<close>

interpretation agent_job_patch: row_update aj_id patch_agent_job
proof
  show "aj_id (patch_agent_job p r) = aj_id r" for p r by (cases p) simp_all
qed

fun is_create :: "chain_call \<Rightarrow> bool" where
  "is_create (Create_Job_Call v a t n d) = True"
| "is_create _ = False"

definition fundings :: "worker_state \<Rightarrow> nat" where
  "fundings x = count_where is_create (wk_writes x)"

text \<open>Whether the job \<open>i\<close> waits for its funding, and the call that funds it.\<close>

definition accepted_job :: "worker_state \<Rightarrow> string \<Rightarrow> bool" where
  "accepted_job x i \<longleftrightarrow> (\<exists>r. find_row aj_id i (agent_jobs (wk_store x)) = Some r \<and> aj_status r = Aj_Accepted)"

definition funding_call :: "config \<Rightarrow> worker_state \<Rightarrow> string \<Rightarrow> chain_call option" where
  "funding_call cfg x i = map_option (\<lambda>r. Create_Job_Call (aj_vendor_address r) (aj_assessor_address r)
     (TOKEN_ADDRESSES (cf_arc_environment cfg) (Pay (aj_currency r))) (BigInt (aj_amount r)) (aj_description r))
     (find_row aj_id i (agent_jobs (wk_store x)))"

definition creates :: "worker_state \<Rightarrow> chain_call list" where
  "creates x = filter is_create (wk_writes x)"

text \<open>
  What a step may do to the escrow: it funds the jobs \<open>ids\<close>, all different and each with the call of its own row; they
  were accepted before and are not after, no other job becomes accepted, and what a funding would send stays the same.
\<close>

definition funds :: "config \<Rightarrow> worker_state \<Rightarrow> worker_state \<Rightarrow> string list \<Rightarrow> bool" where
  "funds cfg x y ids \<longleftrightarrow> distinct ids \<and> map Some (creates y) = map Some (creates x) @ map (funding_call cfg x) ids \<and>
     (\<forall>i\<in>set ids. accepted_job x i \<and> \<not> accepted_job y i) \<and> (\<forall>i. accepted_job y i \<longrightarrow> accepted_job x i) \<and>
     funding_call cfg y = funding_call cfg x \<and> map aj_id (agent_jobs (wk_store y)) = map aj_id (agent_jobs (wk_store x))"

lemma funds_refl: "funds cfg x x []"
  by (simp add: funds_def)

lemma funds_trans:
  assumes "funds cfg x y ids" "funds cfg y z jds"
  shows "funds cfg x z (ids @ jds)"
  using assms by (auto simp: funds_def)

lemma agent_jobs_frame [simp]:
  "accepted_job (x\<lparr>wk_writes := ws\<rparr>) i = accepted_job x i" "funding_call cfg (x\<lparr>wk_writes := ws\<rparr>) = funding_call cfg x"
  by (simp_all add: accepted_job_def funding_call_def fun_eq_iff)

lemma plain_write_funds: "\<not> is_create call \<Longrightarrow> funds cfg x (snd (writeContract w call x)) []"
  by (simp add: writeContract_eq funds_def creates_def accepted_job_def funding_call_def)

lemma on_linked_job_funds:
  assumes "\<And>n. funds cfg x (snd (act n x)) []"
  shows "funds cfg x (snd (on_linked_job i act x)) []"
  using assms by (simp add: on_linked_job_def find_agent_job_def seq_assoc funds_refl split: option.split)

text \<open>An update of the table by the worker's patches only ever takes jobs out of \<open>accepted\<close>.\<close>

lemma patched_jobs:
  fixes P :: "agent_job_row \<Rightarrow> bool" and p :: agent_job_patch and x :: worker_state
  defines "y \<equiv> x\<lparr>wk_store := (wk_store x)\<lparr>agent_jobs := update_where P (patch_agent_job p) (agent_jobs (wk_store x))\<rparr>\<rparr>"
  shows "accepted_job y i \<Longrightarrow> accepted_job x i" and "funding_call cfg y = funding_call cfg x"
    and "map aj_id (agent_jobs (wk_store y)) = map aj_id (agent_jobs (wk_store x))"
proof -
  show "accepted_job y i \<Longrightarrow> accepted_job x i"
    by (cases p) (auto simp: y_def accepted_job_def agent_job_patch.find_row_update split: if_splits)
  show "funding_call cfg y = funding_call cfg x"
    by (cases p) (auto simp: y_def funding_call_def fun_eq_iff agent_job_patch.find_row_update option.map_comp comp_def
        intro!: option.map_cong)
qed (simp add: y_def)

lemma createJob_funds:
  assumes "distinct (map aj_id (agent_jobs (wk_store x)))"
  shows "\<exists>ids. funds cfg x (snd (action_createJob cfg w i x)) ids \<and> set ids \<subseteq> {i}"
proof (cases "find_row aj_id i (agent_jobs (wk_store x))")
  case None
  then show ?thesis
    by (intro exI [of _ "[]"]) (simp add: action_createJob_def find_agent_job_def seq_assoc funds_refl)
next
  case (Some r)
  then have id: "aj_id r = i" by (auto dest: find_row_Some)
  have n: "count_where (\<lambda>r. aj_id r = i \<and> aj_status r = Aj_Accepted) (agent_jobs (wk_store x)) =
      (if aj_status r = Aj_Accepted then 1 else 0)"
    using agent_job_patch.count_key [OF assms, of i "\<lambda>r. aj_status r = Aj_Accepted"] Some by simp
  let ?claimed = "x\<lparr>wk_store := (wk_store x)\<lparr>agent_jobs :=
      update_where (\<lambda>r. aj_id r = i \<and> aj_status r = Aj_Accepted) (patch_agent_job Claim_Job) (agent_jobs (wk_store x))\<rparr>\<rparr>"
  note facts = patched_jobs [where x = x and P = "\<lambda>r. aj_id r = i \<and> aj_status r = Aj_Accepted" and p = Claim_Job]
  show ?thesis
  proof (cases "aj_status r = Aj_Accepted")
    case False
    then have "snd (action_createJob cfg w i x) = ?claimed"
      using Some id n by (simp add: action_createJob_def find_agent_job_def seq_assoc seq_on_db claim_agent_job_def)
    then show ?thesis
      using facts by (intro exI [of _ "[]"]) (simp add: funds_def creates_def)
  next
    case True
    have gone: "\<not> accepted_job ?claimed i"
      using Some id True by (simp add: accepted_job_def agent_job_patch.find_row_update)
    show ?thesis
    proof (cases "list_all is_digit (aj_amount r)")
      case False
      then have "snd (action_createJob cfg w i x) = ?claimed"
        using Some id n True by (simp add: action_createJob_def find_agent_job_def seq_assoc seq_on_db claim_agent_job_def)
      then show ?thesis
        using facts by (intro exI [of _ "[]"]) (simp add: funds_def creates_def)
    next
      case digits: True
      let ?call = "Create_Job_Call (aj_vendor_address r) (aj_assessor_address r)
        (TOKEN_ADDRESSES (cf_arc_environment cfg) (Pay (aj_currency r))) (BigInt (aj_amount r)) (aj_description r)"
      let ?sent = "?claimed\<lparr>wk_writes := wk_writes x @ [?call]\<rparr>"
      have sent: "funds cfg x ?sent [i]"
        using facts gone Some True by (simp add: funds_def creates_def accepted_job_def [of x] funding_call_def [of cfg x])
      show ?thesis
      proof (cases "cw_write w ?call")
        case None
        then have "snd (action_createJob cfg w i x) = ?sent"
          using Some id n True digits
          by (simp add: action_createJob_def find_agent_job_def seq_assoc seq_on_db claim_agent_job_def createJob_onchain_def writeContract_def)
        with sent show ?thesis by (intro exI [of _ "[i]"]) simp
      next
        case (Some h)
        let ?done = "?sent\<lparr>wk_store := (wk_store ?sent)\<lparr>agent_jobs :=
          update_where (\<lambda>r. aj_id r = i) (patch_agent_job (Set_Escrow_Tx h)) (agent_jobs (wk_store ?sent))\<rparr>\<rparr>"
        have "snd (action_createJob cfg w i x) = ?done"
          using \<open>find_row aj_id i (agent_jobs (wk_store x)) = Some r\<close> id n True digits Some
          by (simp add: action_createJob_def find_agent_job_def seq_assoc seq_on_db claim_agent_job_def createJob_onchain_def writeContract_def)
        moreover have "funds cfg ?sent ?done []"
          using patched_jobs [where x = ?sent and P = "\<lambda>r. aj_id r = i" and p = "Set_Escrow_Tx h"]
          by (simp add: funds_def creates_def)
        ultimately show ?thesis using funds_trans [OF sent] by (intro exI [of _ "[i]"]) fastforce
      qed
    qed
  qed
qed

fun asks_funding :: "agent_action_job \<Rightarrow> string option" where
  "asks_funding (Create_Job_Onchain i) = Some i"
| "asks_funding _ = None"

lemma asks_funding_Some: "asks_funding job = Some i \<longleftrightarrow> job = Create_Job_Onchain i"
  by (cases job) auto

lemma process_action_funds:
  assumes "distinct (map aj_id (agent_jobs (wk_store x)))"
  shows "\<exists>ids. funds cfg x (snd (process_action cfg w job x)) ids \<and> Some ` set ids \<subseteq> {asks_funding job}"
proof (cases "agent_action_job_ok job \<and> asks_funding job \<noteq> None")
  case True
  then obtain i where "job = Create_Job_Onchain i" by (cases job) auto
  with createJob_funds [OF assms, of cfg w i] True show ?thesis by (auto simp: process_action_def)
next
  case False
  have "funds cfg x (snd (process_action cfg w job x)) []"
  proof (cases "agent_action_job_ok job")
    case True
    with False show ?thesis
      by (cases job)
        (auto simp: process_action_def action_cancelSubscription_def isSubscriptionCancelled_def rpc_read_def seq_assoc
          cancelSubscription_def settleCctpRouting_def receiveCctpMessage_def releaseJob_def disputeJob_def cancelJob_def
          approveAndReleaseJob_def disputeJob_onchain_def cancelJob_onchain_def
          funds_refl plain_write_funds on_linked_job_funds split: option.split)
  qed (simp add: process_action_def funds_refl)
  then show ?thesis by (intro exI [of _ "[]"]) simp
qed

lemma run_actions_funds:
  "distinct (map aj_id (agent_jobs (wk_store x))) \<Longrightarrow>
   \<exists>ids. funds cfg x (run_actions cfg w jobs x) ids \<and> Some ` set ids \<subseteq> asks_funding ` set jobs"
proof (induction jobs arbitrary: x)
  case Nil
  then show ?case by (auto intro: funds_refl)
next
  case (Cons job jobs)
  let ?y = "snd (process_action cfg w job x)"
  obtain ids where 1: "funds cfg x ?y ids" "Some ` set ids \<subseteq> {asks_funding job}"
    using process_action_funds [OF Cons.prems] by blast
  then have "distinct (map aj_id (agent_jobs (wk_store ?y)))" using Cons.prems by (simp add: funds_def)
  from Cons.IH [OF this] obtain jds where 2: "funds cfg ?y (run_actions cfg w jobs ?y) jds" "Some ` set jds \<subseteq> asks_funding ` set jobs"
    by blast
  have "funds cfg x (run_actions cfg w (job # jobs) x) (ids @ jds)" using funds_trans [OF 1(1) 2(1)] by simp
  moreover have "Some ` set (ids @ jds) \<subseteq> asks_funding ` set (job # jobs)" using 1(2) 2(2) by auto
  ultimately show ?case by blast
qed

section \<open>Properties\<close>

text \<open>
  C40. The escrow of an agent job is funded at most once. Whatever jobs the queue delivers, replays and duplicates
  included, the funding transactions the worker sends are those of a list of different jobs, each with the vendor,
  assessor, token, amount and description of its own row; each of them was accepted, is not any more, and had been asked for
  by a queue job with its id.
\<close>

theorem escrow_funded_once:
  assumes "distinct (map aj_id (agent_jobs (wk_store x)))"
  shows "\<exists>ids. let y = run_actions cfg w jobs x in
    distinct ids \<and>
    map Some (filter is_create (wk_writes y)) = map Some (filter is_create (wk_writes x)) @ map (funding_call cfg x) ids \<and>
    (\<forall>i\<in>set ids. Create_Job_Onchain i \<in> set jobs \<and>
       (\<exists>r. find_row aj_id i (agent_jobs (wk_store x)) = Some r \<and> aj_status r = Aj_Accepted) \<and>
       (\<forall>r. find_row aj_id i (agent_jobs (wk_store y)) = Some r \<longrightarrow> aj_status r \<noteq> Aj_Accepted))"
proof -
  obtain ids where ids: "funds cfg x (run_actions cfg w jobs x) ids" "Some ` set ids \<subseteq> asks_funding ` set jobs"
    using run_actions_funds [OF assms] by blast
  have "Create_Job_Onchain i \<in> set jobs" if "i \<in> set ids" for i
    using that ids(2) by (force simp: image_subset_iff asks_funding_Some dest: sym)
  with ids(1) show ?thesis unfolding Let_def funds_def creates_def accepted_job_def by blast
qed

section \<open>Witnesses\<close>

definition sample_agent_job :: agent_job_row where
  [sample_defs]: "sample_agent_job = \<lparr>aj_id = ''aj1'', aj_merchant_id = ''m1'', aj_onchain_job_id = None, aj_vendor_address = other_address,
     aj_description = ''Design'', aj_amount = ''5000000'', aj_currency = USDC, aj_status = Aj_Accepted,
     aj_assessor_address = sample_address, aj_escrow_tx_hash = None, aj_created_at = 0\<rparr>"

definition agent_state :: worker_state where
  [sample_defs]: "agent_state = \<lparr>wk_store = sample_store\<lparr>agent_jobs := [sample_agent_job]\<rparr>, wk_writes = []\<rparr>"

definition writing_chain :: chain_world where
  [sample_defs]: "writing_chain = \<lparr>cw_subscription = (\<lambda>_. None), cw_attempt_used = (\<lambda>_. None),
     cw_merchant_fee_bps = (\<lambda>_. None), cw_write = (\<lambda>_. Some ''0xaa''), cw_receipt_success = (\<lambda>_. None),
     cw_keccak256 = (\<lambda>s. s)\<rparr>"

text \<open>Delivered twice, the job is funded once.\<close>

theorem escrow_funded_once_witness:
  "\<exists>ids. distinct ids \<and> set ids \<subseteq> {''aj1''} \<and>
    map Some (filter is_create (wk_writes (run_actions sample_config writing_chain
      [Create_Job_Onchain ''aj1'', Create_Job_Onchain ''aj1''] agent_state))) = map (funding_call sample_config agent_state) ids"
proof -
  have "distinct (map aj_id (agent_jobs (wk_store agent_state)))" "wk_writes agent_state = []"
    by (simp_all add: agent_state_def sample_agent_job_def)
  from escrow_funded_once [OF this(1), of sample_config writing_chain "[Create_Job_Onchain ''aj1'', Create_Job_Onchain ''aj1'']"] this(2)
  show ?thesis unfolding Let_def by (elim exE) (rule exI, auto)
qed

end
