(* ===== verification/Calendar.thy ===== *)
theory Calendar
  imports Main
begin

text \<open>
  The UTC calendar behind JavaScript's \<open>Date\<close>: an instant in milliseconds, its day, and the proleptic Gregorian
  date of a day, as far as the services use it (start of day, start of month, year). The date of a day determines
  the day (\<open>day_of_civil_of_day\<close>).
\<close>

definition DAY_MS :: int where
  "DAY_MS = 86400000"

definition day_of :: "int \<Rightarrow> int" where
  "day_of now = now div DAY_MS"

definition start_of_day :: "int \<Rightarrow> int" where
  "start_of_day now = day_of now * DAY_MS"

text \<open>
  Days are counted in eras of 400 years that start on the first of March, so that a leap day ends its year: a century
  has 36524 days, four years 1461, a year 365, and the last of each may be a day longer.
\<close>

record civil =
  cv_year :: int
  cv_month :: int
  cv_day :: int

definition year_of_era :: "int \<Rightarrow> int \<times> int" where
  "year_of_era doe =
     (let c = min 3 (doe div 36524); r = doe - c * 36524; q = r div 1461; r' = r - q * 1461; y = min 3 (r' div 365)
      in (100 * c + 4 * q + y, r' - 365 * y))"

definition civil_of_day :: "int \<Rightarrow> civil" where
  "civil_of_day n =
     (let z = n + 719468; (yoe, doy) = year_of_era (z mod 146097); mp = (5 * doy + 2) div 153;
          m = (if mp < 10 then mp + 3 else mp - 9)
      in \<lparr>cv_year = yoe + z div 146097 * 400 + (if m \<le> 2 then 1 else 0), cv_month = m,
          cv_day = doy - (153 * mp + 2) div 5 + 1\<rparr>)"

definition day_of_civil :: "civil \<Rightarrow> int" where
  "day_of_civil c =
     (let y = cv_year c - (if cv_month c \<le> 2 then 1 else 0); yoe = y mod 400;
          mp = (if 2 < cv_month c then cv_month c - 3 else cv_month c + 9);
          doy = (153 * mp + 2) div 5 + cv_day c - 1
      in y div 400 * 146097 + (yoe * 365 + yoe div 4 - yoe div 100 + doy) - 719468)"

text \<open>\<open>setUTCDate(1)\<close> and \<open>setUTCHours(0, 0, 0, 0)\<close>.\<close>

definition start_of_month :: "int \<Rightarrow> int" where
  "start_of_month now = (day_of now - (cv_day (civil_of_day (day_of now)) - 1)) * DAY_MS"

definition utc_year :: "int \<Rightarrow> int" where
  "utc_year now = cv_year (civil_of_day (day_of now))"

lemma day_bounds: "start_of_day now \<le> now" "now < start_of_day now + DAY_MS"
proof -
  have "start_of_day now = now - now mod DAY_MS" by (simp add: start_of_day_def day_of_def minus_mod_eq_div_mult)
  moreover have "0 \<le> now mod DAY_MS" "now mod DAY_MS < DAY_MS" by (simp_all add: DAY_MS_def)
  ultimately show "start_of_day now \<le> now" "now < start_of_day now + DAY_MS" by simp_all
qed

lemma year_of_era_facts:
  assumes "0 \<le> doe" "doe < 146097" "year_of_era doe = (yoe, doy)"
  shows "0 \<le> yoe" "yoe < 400" "0 \<le> doy" "doy \<le> 365" "yoe * 365 + yoe div 4 - yoe div 100 + doy = doe"
proof -
  define c where "c = min 3 (doe div 36524)"
  define r where "r = doe - c * 36524"
  define q where "q = r div 1461"
  define r' where "r' = r - q * 1461"
  define y where "y = min 3 (r' div 365)"
  have res: "yoe = 100 * c + 4 * q + y" "doy = r' - 365 * y"
    using assms(3) by (simp_all add: year_of_era_def Let_def c_def r_def q_def r'_def y_def)
  have c: "0 \<le> c" "c \<le> 3" "0 \<le> r" "r \<le> 36524" using assms(1,2) unfolding c_def r_def by (auto simp: min_def)
  have q: "0 \<le> q" "q \<le> 24" "0 \<le> r'" "r' \<le> 1460" using c(3,4) unfolding q_def r'_def by auto
  have y: "0 \<le> y" "y \<le> 3" "0 \<le> r' - 365 * y" "r' - 365 * y \<le> 365" using q(3,4) unfolding y_def by (auto simp: min_def)
  show "0 \<le> yoe" "yoe < 400" "0 \<le> doy" "doy \<le> 365" using c q y res by simp_all
  have "yoe div 4 = 25 * c + q" "yoe div 100 = c" using q(1,2) y(1,2) res(1) by simp_all
  then show "yoe * 365 + yoe div 4 - yoe div 100 + doy = doe" using res r_def r'_def by simp
qed

lemma month_start:
  fixes doy :: int
  assumes "0 \<le> doy" "doy \<le> 365"
  shows "0 \<le> (5 * doy + 2) div 153" "(5 * doy + 2) div 153 \<le> 11" "(153 * ((5 * doy + 2) div 153) + 2) div 5 \<le> doy"
proof -
  let ?mp = "(5 * doy + 2) div 153"
  show "0 \<le> ?mp" using assms(1) by (simp add: pos_imp_zdiv_nonneg_iff)
  have "?mp \<le> (5 * 365 + 2) div 153" by (rule zdiv_mono1) (use assms(2) in simp_all)
  then show "?mp \<le> 11" by simp
  have "?mp * 153 \<le> 5 * doy + 2" by (metis div_mult_mod_eq le_add_same_cancel1 pos_mod_sign zero_less_numeral)
  then have "(153 * ?mp + 2) div 5 \<le> (5 * doy + 4) div 5" by (intro zdiv_mono1) simp_all
  also have "(5 * doy + 4) div 5 = doy" by simp
  finally show "(153 * ?mp + 2) div 5 \<le> doy" .
qed

theorem day_of_civil_of_day: "day_of_civil (civil_of_day n) = n"
proof -
  let ?z = "n + 719468"
  obtain yoe doy where yd: "year_of_era (?z mod 146097) = (yoe, doy)" by fastforce
  note facts = year_of_era_facts [OF _ _ yd]
  let ?mp = "(5 * doy + 2) div 153" and ?y = "yoe + ?z div 146097 * 400"
  have mp: "0 \<le> ?mp" "?mp \<le> 11" using facts month_start by simp_all
  have "?y div 400 = ?z div 146097" "?y mod 400 = yoe" using facts by simp_all
  moreover have "day_of_civil (civil_of_day n) =
      ?y div 400 * 146097 + (?y mod 400 * 365 + ?y mod 400 div 4 - ?y mod 400 div 100 + doy) - 719468"
    using mp by (simp add: day_of_civil_def civil_of_day_def yd Let_def)
  moreover have "?z div 146097 * 146097 + ?z mod 146097 = ?z" by (rule div_mult_mod_eq)
  ultimately show ?thesis using facts by simp
qed

lemma civil_day_positive: "1 \<le> cv_day (civil_of_day n)"
proof -
  obtain yoe doy where yd: "year_of_era ((n + 719468) mod 146097) = (yoe, doy)" by fastforce
  from year_of_era_facts(3,4) [OF _ _ yd] month_start(3) [of doy] show ?thesis
    by (simp add: civil_of_day_def yd Let_def)
qed

lemma start_of_month_before: "start_of_month now \<le> start_of_day now"
  using civil_day_positive [of "day_of now"] by (simp add: start_of_month_def start_of_day_def DAY_MS_def)

lemma calendar_examples:
  "civil_of_day 0 = \<lparr>cv_year = 1970, cv_month = 1, cv_day = 1\<rparr>"
  "civil_of_day 19782 = \<lparr>cv_year = 2024, cv_month = 2, cv_day = 29\<rparr>"
  "civil_of_day 20454 = \<lparr>cv_year = 2026, cv_month = 1, cv_day = 1\<rparr>"
  "civil_of_day (-1) = \<lparr>cv_year = 1969, cv_month = 12, cv_day = 31\<rparr>"
  by code_simp+

end
