(* ===== verification/Agents.thy ===== *)
theory Agents
  imports Agent_Actions Enrolment Calendar
begin

text \<open>
  The agent module of the API (\<open>apps/api/src/modules/agents\<close>): a merchant's agent configuration, kept by partial
  updates, and escrow jobs, which are checked against it before they are queued for the worker of
  \<open>Agent_Actions\<close>. The routes refuse job requests as long as the commerce capability is not available.
\<close>

section \<open>Capabilities (\<open>shared-config/src/agents.ts\<close>)\<close>

record capability_descriptor =
  cd_value_moving :: bool
  cd_default_enabled :: bool
  cd_available :: bool

fun AGENT_CAPABILITIES :: "agent_capability \<Rightarrow> capability_descriptor" where
  "AGENT_CAPABILITIES Cap_Identity = \<lparr>cd_value_moving = False, cd_default_enabled = True, cd_available = True\<rparr>"
| "AGENT_CAPABILITIES Cap_Recovery = \<lparr>cd_value_moving = True, cd_default_enabled = False, cd_available = True\<rparr>"
| "AGENT_CAPABILITIES Cap_Routing = \<lparr>cd_value_moving = True, cd_default_enabled = False, cd_available = True\<rparr>"
| "AGENT_CAPABILITIES Cap_Cashflow = \<lparr>cd_value_moving = False, cd_default_enabled = False, cd_available = True\<rparr>"
| "AGENT_CAPABILITIES Cap_Commerce = \<lparr>cd_value_moving = True, cd_default_enabled = False, cd_available = False\<rparr>"
| "AGENT_CAPABILITIES Cap_Pricing_Intelligence = \<lparr>cd_value_moving = False, cd_default_enabled = False, cd_available = True\<rparr>"

fun capability_name :: "agent_capability \<Rightarrow> string" where
  "capability_name Cap_Identity = ''identity''"
| "capability_name Cap_Recovery = ''recovery''"
| "capability_name Cap_Routing = ''routing''"
| "capability_name Cap_Cashflow = ''cashflow''"
| "capability_name Cap_Commerce = ''commerce''"
| "capability_name Cap_Pricing_Intelligence = ''pricing_intelligence''"

definition assertCapabilityAvailable :: "agent_capability \<Rightarrow> (store, api_exn, unit) proc" where
  "assertCapabilityAvailable c = require (cd_available (AGENT_CAPABILITIES c)) 
     (Http 403 ''capability_unavailable'' (Fields [capability_name c]))"

definition assertNewCapabilitiesAvailable :: "agent_capability list \<Rightarrow> agent_capability list option \<Rightarrow> (store, api_exn, unit) proc" where
  "assertNewCapabilitiesAvailable stored requested =
     seq (for_each (\<lambda>c. if c \<in> set stored then ret () else assertCapabilityAvailable c) (set_or requested [])) (\<lambda>_. ret ())"

section \<open>Configuration\<close>

record recovery_config =
  rc_grace_period_hours :: nat
  rc_strategy :: string
  rc_notification_template :: "string option"

record cashflow_config =
  cc_digest_enabled :: bool
  cc_anomaly_sensitivity :: string
  cc_auto_convert_to_yield :: bool
  cc_minimum_reserve_cents :: nat

record commerce_config =
  cm_approval_above_cents :: nat
  cm_approved_vendors :: "string list"
  cm_monthly_cap_cents :: "nat option"

record agent_config =
  cg_merchant_id :: string
  cg_capabilities :: "agent_capability list"
  cg_recovery :: recovery_config
  cg_cashflow :: cashflow_config
  cg_commerce :: commerce_config

record recovery_patch =
  rp_grace_period_hours :: "nat option"
  rp_strategy :: "string option"
  rp_notification_template :: "string option option"

record cashflow_patch =
  cp_digest_enabled :: "bool option"
  cp_anomaly_sensitivity :: "string option"
  cp_auto_convert_to_yield :: "bool option"
  cp_minimum_reserve_cents :: "nat option"

record commerce_patch =
  mc_approval_above_cents :: "nat option"
  mc_approved_vendors :: "string list option"
  mc_monthly_cap_cents :: "nat option option"

record config_patch =
  pt_capabilities :: "agent_capability list option"
  pt_recovery :: "recovery_patch option"
  pt_cashflow :: "cashflow_patch option"
  pt_commerce :: "commerce_patch option"

definition serialiseConfig :: "agent_config_row \<Rightarrow> agent_config" where
  "serialiseConfig r = \<lparr>cg_merchant_id = ac_merchant_id r, cg_capabilities = ac_enabled_capabilities r,
     cg_recovery = \<lparr>rc_grace_period_hours = ac_grace_period_hours r, rc_strategy = ac_strategy r,
       rc_notification_template = ac_notification_template r\<rparr>,
     cg_cashflow = \<lparr>cc_digest_enabled = ac_digest_enabled r, cc_anomaly_sensitivity = ac_anomaly_sensitivity r,
       cc_auto_convert_to_yield = ac_auto_convert_to_yield r, cc_minimum_reserve_cents = ac_minimum_reserve_cents r\<rparr>,
     cg_commerce = \<lparr>cm_approval_above_cents = ac_approval_above_cents r, cm_approved_vendors = ac_approved_vendors r,
       cm_monthly_cap_cents = ac_monthly_cap_cents r\<rparr>\<rparr>"

text \<open>\<open>overlay\<close>, once per part of the configuration.\<close>

definition overlay_recovery :: "recovery_config \<Rightarrow> recovery_patch option \<Rightarrow> recovery_config" where
  "overlay_recovery c p = (case p of None \<Rightarrow> c | Some q \<Rightarrow>
     \<lparr>rc_grace_period_hours = set_or (rp_grace_period_hours q) (rc_grace_period_hours c),
      rc_strategy = set_or (rp_strategy q) (rc_strategy c),
      rc_notification_template = set_or (rp_notification_template q) (rc_notification_template c)\<rparr>)"

definition overlay_cashflow :: "cashflow_config \<Rightarrow> cashflow_patch option \<Rightarrow> cashflow_config" where
  "overlay_cashflow c p = (case p of None \<Rightarrow> c | Some q \<Rightarrow>
     \<lparr>cc_digest_enabled = set_or (cp_digest_enabled q) (cc_digest_enabled c),
      cc_anomaly_sensitivity = set_or (cp_anomaly_sensitivity q) (cc_anomaly_sensitivity c),
      cc_auto_convert_to_yield = set_or (cp_auto_convert_to_yield q) (cc_auto_convert_to_yield c),
      cc_minimum_reserve_cents = set_or (cp_minimum_reserve_cents q) (cc_minimum_reserve_cents c)\<rparr>)"

definition overlay_commerce :: "commerce_config \<Rightarrow> commerce_patch option \<Rightarrow> commerce_config" where
  "overlay_commerce c p = (case p of None \<Rightarrow> c | Some q \<Rightarrow>
     \<lparr>cm_approval_above_cents = set_or (mc_approval_above_cents q) (cm_approval_above_cents c),
      cm_approved_vendors = set_or (mc_approved_vendors q) (cm_approved_vendors c),
      cm_monthly_cap_cents = set_or (mc_monthly_cap_cents q) (cm_monthly_cap_cents c)\<rparr>)"

definition mergeAgentConfig :: "agent_config \<Rightarrow> config_patch \<Rightarrow> agent_config" where
  "mergeAgentConfig stored patch =
     stored\<lparr>cg_capabilities := set_or (pt_capabilities patch) (cg_capabilities stored),
       cg_recovery := overlay_recovery (cg_recovery stored) (pt_recovery patch),
       cg_cashflow := overlay_cashflow (cg_cashflow stored) (pt_cashflow patch),
       cg_commerce := overlay_commerce (cg_commerce stored) (pt_commerce patch)\<rparr>"

text \<open>\<open>agentMerchantConfigSchema\<close>; the types carry the rest.\<close>

definition agent_config_ok :: "agent_config \<Rightarrow> bool" where
  "agent_config_ok c \<longleftrightarrow> rc_grace_period_hours (cg_recovery c) \<in> {24, 48, 72} \<and>
     rc_strategy (cg_recovery c) \<in> {''once'', ''twice'', ''until_grace_ends''} \<and>
     (case rc_notification_template (cg_recovery c) of None \<Rightarrow> True | Some t \<Rightarrow> length t \<le> 2000) \<and>
     cc_anomaly_sensitivity (cg_cashflow c) \<in> {''low'', ''medium'', ''high''} \<and>
     list_all address_ok (cm_approved_vendors (cg_commerce c))"

definition new_agent_config :: "string \<Rightarrow> agent_config_row" where
  "new_agent_config merchantId = \<lparr>ac_merchant_id = merchantId, ac_enabled_capabilities = [], ac_grace_period_hours = 48,
     ac_strategy = ''twice'', ac_notification_template = None, ac_digest_enabled = False, ac_anomaly_sensitivity = ''medium'',
     ac_auto_convert_to_yield = False, ac_minimum_reserve_cents = 100000, ac_approval_above_cents = 100000,
     ac_approved_vendors = [], ac_monthly_cap_cents = None\<rparr>"

definition config_or_create :: "string \<Rightarrow> (store, api_exn, agent_config_row) proc" where
  "config_or_create merchantId =
     seq (gets (\<lambda>s. find_row ac_merchant_id merchantId (agent_configs s))) (\<lambda>r.
     case r of
       Some row \<Rightarrow> ret row
     | None \<Rightarrow> seq (modify (\<lambda>s. s\<lparr>agent_configs := agent_configs s @ [new_agent_config merchantId]\<rparr>)) (\<lambda>_.
               ret (new_agent_config merchantId)))"

definition retrieveConfig :: "string \<Rightarrow> (store, api_exn, agent_config) proc" where
  "retrieveConfig merchantId = seq (config_or_create merchantId) (\<lambda>r. ret (serialiseConfig r))"

definition write_config :: "agent_config \<Rightarrow> agent_config_row \<Rightarrow> agent_config_row" where
  "write_config c r = r\<lparr>ac_enabled_capabilities := cg_capabilities c,
     ac_grace_period_hours := rc_grace_period_hours (cg_recovery c), ac_strategy := rc_strategy (cg_recovery c),
     ac_notification_template := rc_notification_template (cg_recovery c),
     ac_digest_enabled := cc_digest_enabled (cg_cashflow c), ac_anomaly_sensitivity := cc_anomaly_sensitivity (cg_cashflow c),
     ac_auto_convert_to_yield := cc_auto_convert_to_yield (cg_cashflow c),
     ac_minimum_reserve_cents := cc_minimum_reserve_cents (cg_cashflow c),
     ac_approval_above_cents := cm_approval_above_cents (cg_commerce c),
     ac_approved_vendors := cm_approved_vendors (cg_commerce c), ac_monthly_cap_cents := cm_monthly_cap_cents (cg_commerce c)\<rparr>"

definition updateConfig :: "string \<Rightarrow> config_patch \<Rightarrow> (store, api_exn, agent_config) proc" where
  "updateConfig merchantId input = in_tx (
     seq (config_or_create merchantId) (\<lambda>stored.
     let current = serialiseConfig stored; cfg = mergeAgentConfig current input in
     seq (assertNewCapabilitiesAvailable (cg_capabilities current) (pt_capabilities input)) (\<lambda>_.
     seq (require (agent_config_ok cfg) (Http 500 ''internal_error'' No_Details)) (\<lambda>_.
     seq (gets (\<lambda>s. find_row m_id merchantId (merchants s))) (\<lambda>row.
     seq (or_raise p2025 row) (\<lambda>m.
     seq (if cc_auto_convert_to_yield (cg_cashflow cfg) \<and> \<not> cc_auto_convert_to_yield (cg_cashflow current)
          then assertPlanIncludes (m_tier m) Yield_Recommendations else ret ()) (\<lambda>_.
     seq (if cc_anomaly_sensitivity (cg_cashflow cfg) \<noteq> cc_anomaly_sensitivity (cg_cashflow current)
          then assertPlanIncludes (m_tier m) Anomaly_Alerts else ret ()) (\<lambda>_.
     seq (modify (\<lambda>s. s\<lparr>agent_configs := update_where (\<lambda>r. ac_merchant_id r = merchantId) (write_config cfg) (agent_configs s)\<rparr>)) (\<lambda>_.
     ret (serialiseConfig (write_config cfg stored)))))))))))"

section \<open>Activity\<close>

record activity_filter =
  af_capability :: "agent_capability option"
  af_outcome :: "activity_outcome option"
  af_from :: "int option"
  af_before :: "int option"

definition activity_selected :: "activity_filter \<Rightarrow> activity_row \<Rightarrow> bool" where
  "activity_selected f r \<longleftrightarrow>
     (af_capability f \<noteq> None \<longrightarrow> af_capability f = Some (at_capability r)) \<and>
     (af_outcome f \<noteq> None \<longrightarrow> af_outcome f = Some (at_outcome r)) \<and>
     (af_from f \<noteq> None \<longrightarrow> the (af_from f) \<le> at_created_at r) \<and> (af_before f \<noteq> None \<longrightarrow> at_created_at r < the (af_before f))"

definition listActivity :: "string \<Rightarrow> list_params \<Rightarrow> activity_filter \<Rightarrow> (store, api_exn, activity_row page) proc" where
  "listActivity merchantId p f = gets (\<lambda>s. list_page at_id p (newest_first at_created_at
     (filter (\<lambda>r. at_merchant_id r = merchantId \<and> activity_selected f r) (activity s))))"

section \<open>Jobs\<close>

record create_job_input =
  cj_vendor_address :: string
  cj_description :: string
  cj_amount :: string
  cj_currency :: payment_currency
  cj_assessor_address :: "string option"

definition counts_against_cap :: "string \<Rightarrow> int \<Rightarrow> agent_job_row \<Rightarrow> bool" where
  "counts_against_cap merchantId monthStart j \<longleftrightarrow> aj_merchant_id j = merchantId \<and> monthStart \<le> aj_created_at j \<and>
     aj_status j \<notin> {Aj_Cancelled, Aj_Disputed, Aj_Reclaimed}"

definition month_spend :: "string \<Rightarrow> int \<Rightarrow> store \<Rightarrow> int" where
  "month_spend merchantId monthStart s =
     (\<Sum>j\<leftarrow>filter (counts_against_cap merchantId monthStart) (agent_jobs s). BigInt (aj_amount j))"

definition within_cap :: "agent_config \<Rightarrow> string \<Rightarrow> int \<Rightarrow> create_job_input \<Rightarrow> store \<Rightarrow> bool" where
  "within_cap cfg merchantId now input s =
     (case cm_monthly_cap_cents (cg_commerce cfg) of
        None \<Rightarrow> True
      | Some cap \<Rightarrow> month_spend merchantId (start_of_month now) s + BigInt (cj_amount input) \<le> int cap * 10000)"

text \<open>The checks of \<open>createJob\<close>, which end with the assessor and the first status; then the write.\<close>

definition authorise_job :: "string \<Rightarrow> int \<Rightarrow> create_job_input \<Rightarrow> (store, api_exn, string \<times> agent_job_status) proc" where
  "authorise_job merchantId now input =
     seq (retrieveConfig merchantId) (\<lambda>cfg.
     seq (require (Cap_Commerce \<in> set (cg_capabilities cfg)) (Http 403 ''capability_disabled'' No_Details)) (\<lambda>_.
     let allowlist = map to_lower (cm_approved_vendors (cg_commerce cfg)) in
     seq (require (allowlist = [] \<or> to_lower (cj_vendor_address input) \<in> set allowlist) (Http 403 ''vendor_not_allowed'' No_Details)) (\<lambda>_.
     seq (gets (within_cap cfg merchantId now input)) (\<lambda>within.
     seq (require within (Http 403 ''spend_cap_exceeded'' No_Details)) (\<lambda>_.
     seq (case cj_assessor_address input of
            Some a \<Rightarrow> ret (Some a)
          | None \<Rightarrow> seq (gets (\<lambda>s. find_row m_id merchantId (merchants s))) (\<lambda>row.
                    seq (or_raise p2025 row) (\<lambda>m. ret (m_payout_address m)))) (\<lambda>assessor.
     seq (require (truthy assessor) (Http 404 ''invalid_request'' No_Details)) (\<lambda>_.
     ret (the assessor, if int (cm_approval_above_cents (cg_commerce cfg)) * 10000 < BigInt (cj_amount input)
                        then Aj_Proposed else Aj_Accepted))))))))"

definition new_job :: "string \<Rightarrow> string \<Rightarrow> int \<Rightarrow> create_job_input \<Rightarrow> string \<times> agent_job_status \<Rightarrow> agent_job_row" where
  "new_job i merchantId now input d = \<lparr>aj_id = i, aj_merchant_id = merchantId, aj_onchain_job_id = None,
     aj_vendor_address = cj_vendor_address input, aj_description = cj_description input, aj_amount = cj_amount input,
     aj_currency = cj_currency input, aj_status = snd d, aj_assessor_address = fst d, aj_escrow_tx_hash = None, aj_created_at = now\<rparr>"

definition insert_job :: "agent_job_row \<Rightarrow> (store, api_exn, agent_job_row) proc" where
  "insert_job row =
     seq (modify (\<lambda>s. s\<lparr>agent_jobs := agent_jobs s @ [row]\<rparr>)) (\<lambda>_.
     seq (if aj_status row = Aj_Accepted then addAgentAction (Create_Job_Onchain (aj_id row)) else ret ()) (\<lambda>_.
     ret row))"

definition createJob :: "string \<Rightarrow> int \<Rightarrow> string \<Rightarrow> create_job_input \<Rightarrow> (store, api_exn, agent_job_row) proc" where
  "createJob i now merchantId input =
     seq (authorise_job merchantId now input) (\<lambda>d. insert_job (new_job i merchantId now input d))"

definition retrieveJob :: "string \<Rightarrow> string \<Rightarrow> (store, api_exn, agent_job_row) proc" where
  "retrieveJob merchantId i =
     seq (gets (\<lambda>s. find (\<lambda>r. aj_id r = i \<and> aj_merchant_id r = merchantId) (agent_jobs s))) (or_raise not_found)"

definition listJobs :: "string \<Rightarrow> list_params \<Rightarrow> agent_job_status option \<Rightarrow> (store, api_exn, agent_job_row page) proc" where
  "listJobs merchantId p st = gets (\<lambda>s. list_page aj_id p (newest_first aj_created_at
     (filter (\<lambda>r. aj_merchant_id r = merchantId \<and> (st = None \<or> st = Some (aj_status r))) (agent_jobs s))))"

definition approve_where :: "string \<Rightarrow> agent_job_row \<Rightarrow> bool" where
  "approve_where i r \<longleftrightarrow> aj_id r = i \<and> aj_status r \<in> {Aj_Proposed, Aj_Delivered}"

definition approveJob :: "string \<Rightarrow> string \<Rightarrow> (store, api_exn, agent_job_row) proc" where
  "approveJob merchantId i =
     seq (retrieveJob merchantId i) (\<lambda>row.
     seq (gets (\<lambda>s. count_where (approve_where (aj_id row)) (agent_jobs s))) (\<lambda>count.
     seq (modify (\<lambda>s. s\<lparr>agent_jobs := update_where (approve_where (aj_id row)) (\<lambda>r. r\<lparr>aj_status := Aj_Accepted\<rparr>) (agent_jobs s)\<rparr>)) (\<lambda>_.
     seq (require (count \<noteq> 0) (Http 403 ''job_invalid_state'' No_Details)) (\<lambda>_.
     seq (addAgentAction (Create_Job_Onchain (aj_id row))) (\<lambda>_.
     seq (gets (\<lambda>s. find_row aj_id (aj_id row) (agent_jobs s))) (or_raise p2025))))))"

section \<open>Routes\<close>

definition createJob_route :: "string \<Rightarrow> int \<Rightarrow> string \<Rightarrow> create_job_input \<Rightarrow> (store, api_exn, agent_job_row) proc" where
  "createJob_route i now merchantId input =
     seq (assertCapabilityAvailable Cap_Commerce) (\<lambda>_. createJob i now merchantId input)"

definition approveJob_route :: "string \<Rightarrow> string \<Rightarrow> (store, api_exn, agent_job_row) proc" where
  "approveJob_route merchantId i = seq (assertCapabilityAvailable Cap_Commerce) (\<lambda>_. approveJob merchantId i)"

section \<open>Configuration updates\<close>

definition stored_config :: "string \<Rightarrow> store \<Rightarrow> agent_config_row" where
  "stored_config merchantId s =
     (case find_row ac_merchant_id merchantId (agent_configs s) of None \<Rightarrow> new_agent_config merchantId | Some r \<Rightarrow> r)"

definition ensure_config :: "string \<Rightarrow> store \<Rightarrow> store" where
  "ensure_config merchantId s =
     (case find_row ac_merchant_id merchantId (agent_configs s) of
        None \<Rightarrow> s\<lparr>agent_configs := agent_configs s @ [new_agent_config merchantId]\<rparr> | Some _ \<Rightarrow> s)"

lemma seq_config [simp]: "seq (config_or_create m) k s = k (stored_config m s) (ensure_config m s)"
  by (simp add: config_or_create_def stored_config_def ensure_config_def seq_def split: option.split)

lemma ensure_config_fields [simp]:
  "merchants (ensure_config m s) = merchants s" "agent_jobs (ensure_config m s) = agent_jobs s"
  "agent_queue (ensure_config m s) = agent_queue s"
  "filter (\<lambda>r. ac_merchant_id r \<noteq> m) (agent_configs (ensure_config m s)) = filter (\<lambda>r. ac_merchant_id r \<noteq> m) (agent_configs s)"
  by (simp_all add: ensure_config_def new_agent_config_def split: option.split)

lemma require_eq: "require c e s = (if c then Inr () else Inl e, s)"
  by (simp add: require_def)

lemma new_capabilities_run:
  "\<exists>r. assertNewCapabilitiesAvailable stored p s = (r, s) \<and>
     (r = Inr () \<longleftrightarrow> list_all (\<lambda>c. c \<in> set stored \<or> cd_available (AGENT_CAPABILITIES c)) (set_or p []))"
proof -
  let ?f = "\<lambda>c. if c \<in> set stored then ret () else assertCapabilityAvailable c"
  have "\<exists>r. for_each ?f cs s = (r, s) \<and> ((\<exists>us. r = Inr us) \<longleftrightarrow> list_all (\<lambda>c. c \<in> set stored \<or> cd_available (AGENT_CAPABILITIES c)) cs)" for cs
    by (induction cs) (auto simp: assertCapabilityAvailable_def seq_def require_def split: sum.splits)
  from this [of "set_or p []"] show ?thesis
    by (auto simp: assertNewCapabilitiesAvailable_def seq_def split: sum.splits)
qed

lemma new_capabilities_pass:
  assumes "seq (assertNewCapabilitiesAvailable stored p) k s = (Inr x, s')"
  shows "list_all (\<lambda>c. c \<in> set stored \<or> cd_available (AGENT_CAPABILITIES c)) (set_or p []) \<and> k () s = (Inr x, s')"
proof -
  from new_capabilities_run obtain r where r: "assertNewCapabilitiesAvailable stored p s = (r, s)"
    "r = Inr () \<longleftrightarrow> list_all (\<lambda>c. c \<in> set stored \<or> cd_available (AGENT_CAPABILITIES c)) (set_or p [])" by blast
  with assms show ?thesis by (cases r) (simp_all add: seq_def)
qed

lemma plan_gate_pass:
  "seq (if c then assertPlanIncludes t f else ret ()) k s = (Inr x, s') \<Longrightarrow> (c \<longrightarrow> planIncludes t f) \<and> k () s = (Inr x, s')"
  by (auto simp: assertPlanIncludes_def split: if_splits sum.splits)

lemma in_tx_ran: "in_tx m s = (Inr x, s') \<Longrightarrow> m s = (Inr x, s')"
  by (auto simp: in_tx_def split: prod.splits sum.splits)

lemma update_others:
  "(\<And>r. k (f r) = k r) \<Longrightarrow> filter (\<lambda>r. k r \<noteq> i) (update_where (\<lambda>r. k r = i) f t) = filter (\<lambda>r. k r \<noteq> i) t"
  by (induction t) auto

lemma merged_capabilities: "cg_capabilities (mergeAgentConfig c p) = set_or (pt_capabilities p) (cg_capabilities c)"
  by (simp add: mergeAgentConfig_def)

lemma serialise_write: "ac_merchant_id r = cg_merchant_id c \<Longrightarrow> serialiseConfig (write_config c r) = c"
  by (simp add: serialiseConfig_def write_config_def)

lemma stored_config_id [simp]: "ac_merchant_id (stored_config m s) = m"
  using find_row_Some [of ac_merchant_id m "agent_configs s"]
  by (auto simp: stored_config_def new_agent_config_def split: option.split)

text \<open>
  An accepted configuration patch changes exactly what it names: the result is the stored configuration (or the
  default one) overlaid with the patch and valid; a capability that was off is only switched on when it is available, yield
  conversion and anomaly sensitivity only change on a plan that includes them, and no other merchant's row changes.
\<close>

theorem config_update_guarded:
  assumes "updateConfig m p s = (Inr cfg, s')"
  shows "\<exists>mr. find_row m_id m (merchants s) = Some mr \<and>
    (let old = serialiseConfig (stored_config m s) in
      cfg = mergeAgentConfig old p \<and> agent_config_ok cfg \<and>
      (\<forall>c\<in>set (cg_capabilities cfg). c \<in> set (cg_capabilities old) \<or> cd_available (AGENT_CAPABILITIES c)) \<and>
      (cc_auto_convert_to_yield (cg_cashflow cfg) \<and> \<not> cc_auto_convert_to_yield (cg_cashflow old) \<longrightarrow>
         planIncludes (m_tier mr) Yield_Recommendations) \<and>
      (cc_anomaly_sensitivity (cg_cashflow cfg) \<noteq> cc_anomaly_sensitivity (cg_cashflow old) \<longrightarrow> planIncludes (m_tier mr) Anomaly_Alerts)) \<and>
    filter (\<lambda>r. ac_merchant_id r \<noteq> m) (agent_configs s') = filter (\<lambda>r. ac_merchant_id r \<noteq> m) (agent_configs s)"
proof -
  let ?old = "serialiseConfig (stored_config m s)"
  let ?new = "mergeAgentConfig ?old p"
  note run = assms [unfolded updateConfig_def Let_def, THEN in_tx_ran, unfolded seq_config]
  from new_capabilities_pass [OF run] have caps: "list_all (\<lambda>c. c \<in> set (cg_capabilities ?old) \<or> cd_available (AGENT_CAPABILITIES c)) (set_or (pt_capabilities p) [])"
    and run2: "seq (require (agent_config_ok ?new) (Http 500 ''internal_error'' No_Details)) (\<lambda>_.
     seq (gets (\<lambda>s. find_row m_id m (merchants s))) (\<lambda>row.
     seq (or_raise p2025 row) (\<lambda>mr.
     seq (if cc_auto_convert_to_yield (cg_cashflow ?new) \<and> \<not> cc_auto_convert_to_yield (cg_cashflow ?old)
          then assertPlanIncludes (m_tier mr) Yield_Recommendations else ret ()) (\<lambda>_.
     seq (if cc_anomaly_sensitivity (cg_cashflow ?new) \<noteq> cc_anomaly_sensitivity (cg_cashflow ?old)
          then assertPlanIncludes (m_tier mr) Anomaly_Alerts else ret ()) (\<lambda>_.
     seq (modify (\<lambda>s. s\<lparr>agent_configs := update_where (\<lambda>r. ac_merchant_id r = m) (write_config ?new) (agent_configs s)\<rparr>)) (\<lambda>_.
     ret (serialiseConfig (write_config ?new (stored_config m s))))))))) (ensure_config m s) = (Inr cfg, s')"
    by (blast, blast)
  from run2 obtain mr where ok: "agent_config_ok ?new" and mr: "find_row m_id m (merchants s) = Some mr"
    and run3: "seq (if cc_auto_convert_to_yield (cg_cashflow ?new) \<and> \<not> cc_auto_convert_to_yield (cg_cashflow ?old)
          then assertPlanIncludes (m_tier mr) Yield_Recommendations else ret ()) (\<lambda>_.
     seq (if cc_anomaly_sensitivity (cg_cashflow ?new) \<noteq> cc_anomaly_sensitivity (cg_cashflow ?old)
          then assertPlanIncludes (m_tier mr) Anomaly_Alerts else ret ()) (\<lambda>_.
     seq (modify (\<lambda>s. s\<lparr>agent_configs := update_where (\<lambda>r. ac_merchant_id r = m) (write_config ?new) (agent_configs s)\<rparr>)) (\<lambda>_.
     ret (serialiseConfig (write_config ?new (stored_config m s)))))) (ensure_config m s) = (Inr cfg, s')"
    by (auto simp: or_raise_def split: if_splits option.splits)
  note gate1 = plan_gate_pass [OF run3]
  note gate2 = plan_gate_pass [OF conjunct2 [OF gate1]]
  from gate2 have cfg: "cfg = ?new"
    and s': "s' = (ensure_config m s)\<lparr>agent_configs := update_where (\<lambda>r. ac_merchant_id r = m) (write_config ?new) (agent_configs (ensure_config m s))\<rparr>"
    by (auto simp: serialise_write mergeAgentConfig_def serialiseConfig_def [of "stored_config m s"])
  have "\<forall>c\<in>set (cg_capabilities cfg). c \<in> set (cg_capabilities ?old) \<or> cd_available (AGENT_CAPABILITIES c)"
    using caps unfolding cfg merged_capabilities by (cases "pt_capabilities p") (auto simp: set_or_def list_all_iff)
  moreover have "filter (\<lambda>r. ac_merchant_id r \<noteq> m) (agent_configs s') = filter (\<lambda>r. ac_merchant_id r \<noteq> m) (agent_configs s)"
    using update_others [of ac_merchant_id "write_config ?new" m] by (simp add: s' write_config_def)
  ultimately show ?thesis using mr ok gate1 gate2 unfolding Let_def cfg by blast
qed

definition unchanged_patch :: config_patch where
  "unchanged_patch = \<lparr>pt_capabilities = Some [Cap_Recovery], pt_recovery = None,
     pt_cashflow = Some \<lparr>cp_digest_enabled = Some True, cp_anomaly_sensitivity = None, cp_auto_convert_to_yield = None,
       cp_minimum_reserve_cents = None\<rparr>, pt_commerce = None\<rparr>"

lemma config_update_guarded_witness:
  "\<exists>cfg s'. updateConfig ''m1'' unchanged_patch sample_store = (Inr cfg, s') \<and>
     cfg = mergeAgentConfig (serialiseConfig (new_agent_config ''m1'')) unchanged_patch"
proof -
  have stored: "stored_config ''m1'' sample_store = new_agent_config ''m1''"
    by (simp add: stored_config_def sample_store_def empty_store_def)
  have "\<exists>cfg s'. updateConfig ''m1'' unchanged_patch sample_store = (Inr cfg, s')"
    by (simp add: updateConfig_def stored Let_def in_tx_def seq_def assertNewCapabilitiesAvailable_def assertCapabilityAvailable_def
        unchanged_patch_def set_or_def mergeAgentConfig_def serialiseConfig_def new_agent_config_def overlay_recovery_def
        overlay_cashflow_def overlay_commerce_def agent_config_ok_def sample_store_def sample_merchant_def require_def or_raise_def
        config_or_create_def empty_store_def)
  then obtain cfg s' where run: "updateConfig ''m1'' unchanged_patch sample_store = (Inr cfg, s')" by blast
  from config_update_guarded [OF this] run stored show ?thesis by (auto simp: Let_def)
qed

section \<open>Jobs are authorised\<close>

lemma authorise_pass:
  assumes "authorise_job m now inp s = (Inr (assessor, st), s')"
  defines "cfg \<equiv> serialiseConfig (stored_config m s)"
  shows "Cap_Commerce \<in> set (cg_capabilities cfg)" "within_cap cfg m now inp s" "s' = ensure_config m s"
    "cm_approved_vendors (cg_commerce cfg) = [] \<or> to_lower (cj_vendor_address inp) \<in> to_lower ` set (cm_approved_vendors (cg_commerce cfg))"
    "st = (if int (cm_approval_above_cents (cg_commerce cfg)) * 10000 < BigInt (cj_amount inp) then Aj_Proposed else Aj_Accepted)"
  using assms(1) unfolding authorise_job_def retrieveConfig_def Let_def cfg_def seq_assoc
  by (auto simp: within_cap_def month_spend_def split: if_splits option.splits elim!: seq_InrE)

lemma insert_job_run:
  "insert_job row s = (Inr row, s\<lparr>agent_jobs := agent_jobs s @ [row],
     agent_queue := agent_queue s @ (if aj_status row = Aj_Accepted then [Create_Job_Onchain (aj_id row)] else [])\<rparr>)"
  by (simp add: insert_job_def addAgentAction_def)

text \<open>
  C19. A job is only created under the merchant's own rules: commerce is enabled, the vendor is on the list (or the list is
  empty), the month's jobs including this one stay within the cap, and the job goes to the chain without a human exactly
  when its amount does not exceed the approval threshold.
\<close>

theorem agent_job_authorised:
  assumes "createJob i now m inp s = (Inr job, s')"
  defines "cfg \<equiv> serialiseConfig (stored_config m s)"
  shows "Cap_Commerce \<in> set (cg_capabilities cfg) \<and>
    (cm_approved_vendors (cg_commerce cfg) \<noteq> [] \<longrightarrow>
       to_lower (aj_vendor_address job) \<in> to_lower ` set (cm_approved_vendors (cg_commerce cfg))) \<and>
    (\<forall>cap. cm_monthly_cap_cents (cg_commerce cfg) = Some cap \<longrightarrow> month_spend m (start_of_month now) s' \<le> int cap * 10000) \<and>
    agent_jobs s' = agent_jobs s @ [job] \<and>
    (if int (cm_approval_above_cents (cg_commerce cfg)) * 10000 < BigInt (aj_amount job)
     then aj_status job = Aj_Proposed \<and> agent_queue s' = agent_queue s
     else aj_status job = Aj_Accepted \<and> agent_queue s' = agent_queue s @ [Create_Job_Onchain (aj_id job)])"
proof -
  from assms(1) obtain d t where auth: "authorise_job m now inp s = (Inr d, t)"
    and ins: "insert_job (new_job i m now inp d) t = (Inr job, s')" by (auto simp: createJob_def elim!: seq_InrE)
  obtain assessor st where d: "d = (assessor, st)" by fastforce
  note pass = authorise_pass [OF auth [unfolded d], folded cfg_def]
  from ins have job: "job = new_job i m now inp d"
    and s': "agent_jobs s' = agent_jobs s @ [job]"
      "agent_queue s' = agent_queue s @ (if aj_status job = Aj_Accepted then [Create_Job_Onchain (aj_id job)] else [])"
    by (auto simp: insert_job_run pass(3))
  have fields: "aj_vendor_address job = cj_vendor_address inp" "aj_amount job = cj_amount inp" "aj_status job = st"
    by (simp_all add: job new_job_def d)
  have "start_of_month now \<le> now" using start_of_month_before [of now] day_bounds(1) [of now] by simp
  then have "counts_against_cap m (start_of_month now) job"
    using pass(5) by (simp add: counts_against_cap_def job new_job_def d)
  then have "month_spend m (start_of_month now) s' = month_spend m (start_of_month now) s + BigInt (cj_amount inp)"
    by (simp add: month_spend_def s'(1) fields)
  then have "\<forall>cap. cm_monthly_cap_cents (cg_commerce cfg) = Some cap \<longrightarrow> month_spend m (start_of_month now) s' \<le> int cap * 10000"
    using pass(2) by (auto simp: within_cap_def)
  then show ?thesis using pass(1,4,5) s' fields by auto
qed

text \<open>While commerce is not available, the routes neither create nor approve a job.\<close>

lemma commerce_routes_closed:
  "snd (createJob_route i now m inp s) = s \<and> snd (approveJob_route m i s) = s"
  by (simp add: createJob_route_def approveJob_route_def assertCapabilityAvailable_def seq_def)

definition commerce_store :: "nat option \<Rightarrow> store" where
  "commerce_store cap = sample_store\<lparr>agent_configs := [(new_agent_config ''m1'')\<lparr>ac_enabled_capabilities := [Cap_Commerce],
     ac_monthly_cap_cents := cap\<rparr>]\<rparr>"

definition job_input :: create_job_input where
  "job_input = \<lparr>cj_vendor_address = other_address, cj_description = ''Design'', cj_amount = ''5000000'', cj_currency = USDC,
     cj_assessor_address = Some sample_address\<rparr>"

lemma job_authorised:
  "authorise_job ''m1'' 0 job_input (commerce_store (Some 800)) = (Inr (sample_address, Aj_Accepted), commerce_store (Some 800))"
proof -
  have stored: "stored_config ''m1'' (commerce_store (Some 800)) = (new_agent_config ''m1'')\<lparr>ac_enabled_capabilities := [Cap_Commerce],
     ac_monthly_cap_cents := Some 800\<rparr>" "ensure_config ''m1'' (commerce_store (Some 800)) = commerce_store (Some 800)"
    by (simp_all add: stored_config_def ensure_config_def commerce_store_def new_agent_config_def)
  have "month_spend ''m1'' t (commerce_store (Some 800)) = 0" for t
    by (simp add: month_spend_def commerce_store_def sample_store_def empty_store_def)
  then show ?thesis
    by (simp add: authorise_job_def retrieveConfig_def seq_assoc stored Let_def serialiseConfig_def new_agent_config_def within_cap_def
        job_input_def BigInt_def big_nat_def digit_of_def sample_address_def truthy_def)
qed

lemma agent_job_authorised_witness:
  "\<exists>job s'. createJob ''aj9'' 0 ''m1'' job_input (commerce_store (Some 800)) = (Inr job, s') \<and> aj_status job = Aj_Accepted \<and>
     agent_queue s' = agent_queue (commerce_store (Some 800)) @ [Create_Job_Onchain (aj_id job)] \<and>
     month_spend ''m1'' (start_of_month 0) s' \<le> 8000000"
proof -
  obtain job s' where run: "createJob ''aj9'' 0 ''m1'' job_input (commerce_store (Some 800)) = (Inr job, s')"
    by (simp add: createJob_def seq_def job_authorised insert_job_run)
  have cfg: "stored_config ''m1'' (commerce_store (Some 800)) = (new_agent_config ''m1'')\<lparr>ac_enabled_capabilities := [Cap_Commerce],
     ac_monthly_cap_cents := Some 800\<rparr>"
    by (simp add: stored_config_def commerce_store_def new_agent_config_def)
  from run have "job = new_job ''aj9'' ''m1'' 0 job_input (sample_address, Aj_Accepted)"
    by (simp add: createJob_def seq_def job_authorised insert_job_run)
  then have "aj_amount job = ''5000000''" by (simp add: new_job_def job_input_def)
  with agent_job_authorised [OF run] run show ?thesis
    by (simp add: cfg serialiseConfig_def new_agent_config_def BigInt_def big_nat_def digit_of_def)
qed

section \<open>Two gaps\<close>

text \<open>
  The cap is checked before the row is written, outside a transaction: two requests that are both checked first exceed
  it together.
\<close>

lemma concurrent_jobs_exceed_cap:
  "let d = (sample_address, Aj_Accepted); s = commerce_store (Some 800);
       s1 = snd (insert_job (new_job ''aj8'' ''m1'' 0 job_input d) s); s2 = snd (insert_job (new_job ''aj9'' ''m1'' 0 job_input d) s1) in
   fst (authorise_job ''m1'' 0 job_input s) = Inr d \<and> int 800 * 10000 < month_spend ''m1'' (start_of_month 0) s2"
proof -
  let ?s = "commerce_store (Some 800)" and ?job = "\<lambda>i. new_job i ''m1'' 0 job_input (sample_address, Aj_Accepted)"
  have "start_of_month 0 \<le> 0" using start_of_month_before [of 0] day_bounds(1) [of 0] by simp
  then have "counts_against_cap ''m1'' (start_of_month 0) (?job i)" for i by (simp add: counts_against_cap_def new_job_def)
  then have "month_spend ''m1'' (start_of_month 0) (?s\<lparr>agent_jobs := [?job ''aj8'', ?job ''aj9''], agent_queue := q\<rparr>) = 10000000" for q
    by (simp add: month_spend_def new_job_def job_input_def BigInt_def big_nat_def digit_of_def)
  moreover have "agent_jobs ?s = []" by (simp add: commerce_store_def sample_store_def empty_store_def)
  ultimately show ?thesis by (simp add: job_authorised insert_job_run)
qed

text \<open>
  Approving a delivered job sets it back to accepted and queues the creation of its escrow: the worker, which takes every
  accepted job as not funded, funds a second escrow for it.
\<close>

lemma approving_delivery_funds_again:
  "let job = sample_agent_job\<lparr>aj_status := Aj_Delivered, aj_onchain_job_id := Some 4, aj_escrow_tx_hash := Some ''0xbb''\<rparr>;
       s = snd (approveJob ''m1'' ''aj1'' (sample_store\<lparr>agent_jobs := [job]\<rparr>)) in
   agent_queue s = [Create_Job_Onchain ''aj1''] \<and>
   fundings (run_actions sample_config writing_chain (agent_queue s) \<lparr>wk_store = s, wk_writes = []\<rparr>) = 1"
  by (simp add: approveJob_def retrieveJob_def approve_where_def sample_agent_job_def sample_store_def empty_store_def seq_assoc
      addAgentAction_def fundings_def process_action_def action_createJob_def find_agent_job_def claim_agent_job_def
      createJob_onchain_def writeContract_eq writing_chain_def update_where_def or_raise_def seq_def on_db_def is_digit_def)

end
