(* ===== verification/Wire_Schemas.thy ===== *)
theory Wire_Schemas
  imports Enrolment Storefront Billing
begin

text \<open>
  The request and response schemas of \<open>packages/shared-types/src\<close> as predicates on the model's inputs and
  wire forms. Zod's own checks of URLs and e-mail addresses are the fields of \<open>zod\<close>. Enumerations hold
  by the model's datatypes and dates by \<open>toISOString\<close>, so they leave no predicate; \<open>metadata\<close> values
  are strings in the model.
\<close>

section \<open>Primitive schemas\<close>

record zod =
  zd_url :: "string \<Rightarrow> bool"
  zd_email :: "string \<Rightarrow> bool"

definition is_id_char :: "char \<Rightarrow> bool" where
  "is_id_char c \<longleftrightarrow> (let n = of_char c :: nat in
     (48 \<le> n \<and> n \<le> 57) \<or> (65 \<le> n \<and> n \<le> 90) \<or> (97 \<le> n \<and> n \<le> 122) \<or> n = 95 \<or> n = 45)"

definition id_ok :: "string \<Rightarrow> bool" where
  "id_ok s \<longleftrightarrow> 1 \<le> length s \<and> length s \<le> 64 \<and> list_all is_id_char s"

definition email_ok :: "zod \<Rightarrow> string \<Rightarrow> bool" where
  "email_ok z s \<longleftrightarrow> zd_email z s \<and> length (to_lower (js_trim s)) \<le> 320"

definition https_url_ok :: "zod \<Rightarrow> string \<Rightarrow> bool" where
  "https_url_ok z s \<longleftrightarrow> zd_url z s \<and> starts_with s ''https://''"

definition text_ok :: "nat \<Rightarrow> nat \<Rightarrow> string \<Rightarrow> bool" where
  "text_ok lo hi s \<longleftrightarrow> lo \<le> length s \<and> length s \<le> hi"

definition metadata_ok :: "metadata \<Rightarrow> bool" where
  "metadata_ok m \<longleftrightarrow> list_all (\<lambda>(k, v). text_ok 1 40 k \<and> text_ok 0 500 v) m \<and> length m \<le> 50"

definition pagination_ok :: "list_params \<Rightarrow> bool" where
  "pagination_ok p \<longleftrightarrow> opt_ok (\<lambda>n. 1 \<le> n \<and> n \<le> 100) (lp_limit p) \<and> opt_ok (text_ok 1 200) (lp_cursor p)"

section \<open>Payment sessions\<close>

definition callback_url_ok :: "zod \<Rightarrow> string \<Rightarrow> bool" where
  "callback_url_ok z s \<longleftrightarrow> zd_url z s \<and> (starts_with s ''https://'' \<or> starts_with s ''http://'')"

definition SOURCE_CHAINS :: "string list" where
  "SOURCE_CHAINS = [''arc'', ''ethereum'', ''base'', ''polygon'', ''arbitrum'', ''optimism'', ''avalanche'', ''solana'']"

definition session_schema :: "zod \<Rightarrow> session_wire \<Rightarrow> bool" where
  "session_schema z w \<longleftrightarrow>
     id_ok (sw_id w) \<and> id_ok (sw_merchant_id w) \<and> opt_ok token_amount_ok (sw_chain_merchant_id w) \<and>
     opt_ok address_ok (sw_token_address w) \<and> opt_ok id_ok (sw_customer_id w) \<and>
     token_amount_ok (sw_amount w) \<and> token_amount_ok (sw_fee_amount w) \<and> token_amount_ok (sw_net_amount w) \<and>
     opt_ok (text_ok 0 500) (sw_description w) \<and> opt_ok address_ok (sw_payer_wallet_address w) \<and>
     opt_ok (zd_email z) (sw_payer_email w) \<and> opt_ok (callback_url_ok z) (sw_success_url w) \<and>
     opt_ok (callback_url_ok z) (sw_cancel_url w) \<and> opt_ok (\<lambda>c. c \<in> set SOURCE_CHAINS) (sw_source_chain w) \<and>
     opt_ok tx_hash_ok (sw_bridge_tx_hash w) \<and> opt_ok tx_hash_ok (sw_onchain_tx_hash w) \<and>
     zd_url z (sw_checkout_url w) \<and> metadata_ok (sw_metadata w)"

definition create_session_schema :: "zod \<Rightarrow> session_input \<Rightarrow> bool" where
  "create_session_schema z i \<longleftrightarrow>
     token_amount_ok (si_amount i) \<and> opt_ok (text_ok 0 500) (si_description i) \<and>
     opt_ok (\<lambda>c. opt_ok address_ok (xi_wallet_address c) \<and> opt_ok (zd_email z) (xi_email c) \<and>
       opt_ok (text_ok 0 120) (xi_external_ref c)) (si_customer i) \<and>
     opt_ok (callback_url_ok z) (si_success_url i) \<and> opt_ok (callback_url_ok z) (si_cancel_url i) \<and>
     1 \<le> si_expires_in_minutes i \<and> si_expires_in_minutes i \<le> 60 * 24 \<and> metadata_ok (si_metadata i)"

section \<open>Subscriptions\<close>

definition plan_schema :: "zod \<Rightarrow> plan_wire \<Rightarrow> bool" where
  "plan_schema z w \<longleftrightarrow>
     (let r = pw_row w in
      id_ok (pl_id r) \<and> id_ok (pl_merchant_id r) \<and> opt_ok token_amount_ok (pw_chain_merchant_id w) \<and>
      opt_ok address_ok (pw_token_address w) \<and> 0 < pw_interval_seconds w \<and> text_ok 1 120 (pl_name r) \<and>
      opt_ok (text_ok 0 500) (pl_description r) \<and> token_amount_ok (pl_amount r) \<and>
      1 \<le> pl_interval_count r \<and> pl_interval_count r \<le> 365 \<and>
      opt_ok (\<lambda>d. 0 \<le> d \<and> d \<le> 365) (pl_trial_period_days r) \<and>
      opt_ok (callback_url_ok z) (pl_success_url r) \<and> opt_ok (callback_url_ok z) (pl_cancel_url r) \<and>
      metadata_ok (pl_metadata r))"

definition create_plan_schema :: "zod \<Rightarrow> plan_input \<Rightarrow> bool" where
  "create_plan_schema z i \<longleftrightarrow>
     text_ok 1 120 (pi_name i) \<and> opt_ok (text_ok 0 500) (pi_description i) \<and> token_amount_ok (pi_amount i) \<and>
     1 \<le> pi_interval_count i \<and> pi_interval_count i \<le> 365 \<and>
     opt_ok (\<lambda>d. 0 \<le> d \<and> d \<le> 365) (pi_trial_period_days i) \<and>
     opt_ok (callback_url_ok z) (pi_success_url i) \<and> opt_ok (callback_url_ok z) (pi_cancel_url i) \<and>
     metadata_ok (pi_metadata i)"

definition update_plan_schema :: "zod \<Rightarrow> string option option \<Rightarrow> string option option \<Rightarrow> bool" where
  "update_plan_schema z su ca \<longleftrightarrow>
     opt_ok (opt_ok (callback_url_ok z)) su \<and> opt_ok (opt_ok (callback_url_ok z)) ca \<and> (su \<noteq> None \<or> ca \<noteq> None)"

definition subscription_schema :: "sub_wire \<Rightarrow> bool" where
  "subscription_schema w \<longleftrightarrow>
     id_ok (uw_id w) \<and> id_ok (uw_merchant_id w) \<and> id_ok (uw_customer_id w) \<and> id_ok (uw_plan_id w) \<and>
     address_ok (uw_payer_address w) \<and> token_amount_ok (uw_amount w) \<and> 1 \<le> uw_interval_count w \<and>
     0 \<le> uw_grace_period_hours w \<and> uw_grace_period_hours w \<le> 72 \<and> metadata_ok (uw_metadata w)"

definition charge_schema :: "charge_row \<Rightarrow> bool" where
  "charge_schema r \<longleftrightarrow>
     id_ok (ch_id r) \<and> id_ok (ch_subscription_id r) \<and> id_ok (ch_merchant_id r) \<and>
     length (ch_charge_attempt_id r) = 66 \<and> token_amount_ok (ch_amount r) \<and> 1 \<le> ch_attempt_number r \<and>
     opt_ok tx_hash_ok (ch_onchain_tx_hash r) \<and> opt_ok (text_ok 0 500) (ch_failure_reason r)"

definition cancel_sub_schema :: "string option \<Rightarrow> bool" where
  "cancel_sub_schema reason \<longleftrightarrow> opt_ok (text_ok 0 500) reason"

section \<open>Transactions, refunds, invoices\<close>

definition transaction_schema :: "tx_wire \<Rightarrow> bool" where
  "transaction_schema w \<longleftrightarrow>
     id_ok (tw_id w) \<and> id_ok (tw_merchant_id w) \<and> opt_ok id_ok (tw_session_id w) \<and>
     opt_ok id_ok (tw_subscription_id w) \<and> opt_ok id_ok (tw_subscription_charge_id w) \<and>
     opt_ok id_ok (tw_refund_id w) \<and> opt_ok id_ok (tw_customer_id w) \<and> token_amount_ok (tw_amount w) \<and>
     token_amount_ok (tw_fee_amount w) \<and> token_amount_ok (tw_net_amount w) \<and>
     address_ok (tw_payer_address w) \<and> address_ok (tw_merchant_address w) \<and> tx_hash_ok (tw_onchain_tx_hash w)"

definition REFUND_REASONS :: "string list" where
  "REFUND_REASONS = [''customer_request'', ''product_issue'', ''duplicate_charge'', ''fraudulent'', ''other'']"

definition refund_schema :: "refund_wire \<Rightarrow> bool" where
  "refund_schema w \<longleftrightarrow>
     id_ok (fw_id w) \<and> id_ok (fw_merchant_id w) \<and> id_ok (fw_transaction_id w) \<and> token_amount_ok (fw_amount w) \<and>
     fw_reason w \<in> set REFUND_REASONS \<and> opt_ok (text_ok 0 500) (fw_note w) \<and> address_ok (fw_payer_address w) \<and>
     opt_ok tx_hash_ok (fw_refund_tx_hash w) \<and> opt_ok (text_ok 0 500) (fw_failure_reason w) \<and>
     id_ok (fw_initiated_by w)"

definition create_refund_schema :: "refund_input \<Rightarrow> bool" where
  "create_refund_schema i \<longleftrightarrow>
     id_ok (rj_transaction_id i) \<and> token_amount_ok (rj_amount i) \<and> rj_reason i \<in> set REFUND_REASONS \<and>
     opt_ok (text_ok 0 500) (rj_note i)"

definition submit_refund_schema :: "string \<Rightarrow> string \<Rightarrow> bool" where
  "submit_refund_schema i h \<longleftrightarrow> id_ok i \<and> tx_hash_ok h"

definition line_item_schema :: "line_item \<Rightarrow> bool" where
  "line_item_schema li \<longleftrightarrow> text_ok 1 500 (li_description li) \<and> 1 \<le> li_quantity li \<and> li_quantity li \<le> 10000 \<and>
     token_amount_ok (li_unit_amount li)"

definition invoice_schema :: "zod \<Rightarrow> invoice_wire \<Rightarrow> bool" where
  "invoice_schema z w \<longleftrightarrow>
     id_ok (iw_id w) \<and> id_ok (iw_merchant_id w) \<and> text_ok 1 40 (iw_number w) \<and>
     opt_ok (text_ok 1 200) (iw_customer_name w) \<and> opt_ok (email_ok z) (iw_customer_email w) \<and>
     iw_line_items w \<noteq> [] \<and> list_all line_item_schema (iw_line_items w) \<and> token_amount_ok (iw_subtotal w) \<and>
     token_amount_ok (iw_total w) \<and> opt_ok (text_ok 0 2000) (iw_note w) \<and> opt_ok id_ok (iw_session_id w)"

definition create_invoice_schema :: "zod \<Rightarrow> invoice_input \<Rightarrow> bool" where
  "create_invoice_schema z i \<longleftrightarrow>
     opt_ok (text_ok 1 200) (ii_customer_name i) \<and> opt_ok (email_ok z) (ii_customer_email i) \<and>
     ii_line_items i \<noteq> [] \<and> list_all line_item_schema (ii_line_items i) \<and> opt_ok (text_ok 0 2000) (ii_note i) \<and>
     1 \<le> ii_due_in_days i \<and> ii_due_in_days i \<le> 90"

section \<open>Storefronts\<close>

definition is_lower_alnum :: "char \<Rightarrow> bool" where
  "is_lower_alnum c \<longleftrightarrow> (let n = of_char c :: nat in (97 \<le> n \<and> n \<le> 122) \<or> (48 \<le> n \<and> n \<le> 57))"

text \<open>\<open>[a-z0-9]+(?:-[a-z0-9]+)*\<close>: characters and single hyphens, none at an end.\<close>

fun slug_rest :: "bool \<Rightarrow> string \<Rightarrow> bool" where
  "slug_rest after_char [] = after_char"
| "slug_rest after_char (c # cs) =
     (if is_lower_alnum c then slug_rest True cs
      else if c = CHR ''-'' then after_char \<and> slug_rest False cs else False)"

definition slug_ok :: "string \<Rightarrow> bool" where
  "slug_ok s \<longleftrightarrow> text_ok 3 40 s \<and> slug_rest False s"

definition accent_ok :: "string \<Rightarrow> bool" where
  "accent_ok s \<longleftrightarrow> (case s of [] \<Rightarrow> False | c # cs \<Rightarrow> c = CHR ''#'' \<and> length cs = 6 \<and> list_all is_hex_char cs)"

definition create_storefront_schema :: "zod \<Rightarrow> storefront_input \<Rightarrow> bool" where
  "create_storefront_schema z i \<longleftrightarrow>
     slug_ok (fi_slug i) \<and> text_ok 2 120 (fi_name i) \<and> opt_ok (text_ok 0 2000) (fi_description i) \<and>
     opt_ok (https_url_ok z) (fi_logo_url i) \<and> opt_ok (https_url_ok z) (fi_cover_image_url i) \<and>
     opt_ok accent_ok (fi_accent_color i) \<and> list_all (https_url_ok z) (fi_social_links i) \<and>
     length (fi_social_links i) \<le> 10"

section \<open>Event envelopes\<close>

text \<open>
  \<open>webhookEventSchema\<close>, by the shape of the data: the discriminated union of \<open>events.ts\<close> on the
  event name. The agent and compliance events have no producer in the modelled code.
\<close>

fun event_data_schema :: "zod \<Rightarrow> string \<Rightarrow> wire_body \<Rightarrow> bool" where
  "event_data_schema z t (Session_Body w) = (t = ''payment.created'' \<and> session_schema z w)"
| "event_data_schema z t (Paid_Session_Body w x) =
     (t = ''payment.completed'' \<and> session_schema z w \<and> transaction_schema x)"
| "event_data_schema z t (Session_Failed_Body w reason) = (t = ''payment.failed'' \<and> session_schema z w)"
| "event_data_schema z t (Subscription_Body u) =
     (t \<in> {''subscription.created'', ''subscription.cancelled'', ''subscription.lapsed''} \<and> subscription_schema u)"
| "event_data_schema z t (Charged_Body u c x) =
     (t = ''subscription.charged'' \<and> subscription_schema u \<and> charge_schema c \<and> transaction_schema x)"
| "event_data_schema z t (Charge_Failed_Body u c) =
     (t = ''subscription.charge_failed'' \<and> subscription_schema u \<and> charge_schema c)"
| "event_data_schema z t (Recovery_Body u n) =
     (t = ''subscription.recovery_attempt'' \<and> subscription_schema u \<and> 1 \<le> n)"
| "event_data_schema z t (Refund_Body f) = (t = ''refund.created'' \<and> refund_schema f)"
| "event_data_schema z t (Refunded_Body f x) = (t = ''refund.completed'' \<and> refund_schema f \<and> transaction_schema x)"
| "event_data_schema z t (Invoice_Body i) = (t \<in> {''invoice.created'', ''invoice.overdue''} \<and> invoice_schema z i)"
| "event_data_schema z t (Paid_Invoice_Body i x) =
     (t = ''invoice.paid'' \<and> invoice_schema z i \<and> transaction_schema x)"

section \<open>The API answers in its own schema\<close>

lemma token_amount_show_int: "0 \<le> n \<Longrightarrow> token_amount_ok (show_int n)"
  using digits_ok_show_int by simp

lemma token_amount_show_nat: "token_amount_ok (show_nat n)"
  using digits_ok_show_int [of "int n"] by (simp add: show_int_def)

lemma token_address_ok:
  assumes "opt_ok (\<lambda>a. a \<noteq> [] \<longrightarrow> address_ok a) (cf_arc_usdc_address cfg)"
    and "opt_ok (\<lambda>a. a \<noteq> [] \<longrightarrow> address_ok a) (cf_arc_eurc_address cfg)"
  shows "opt_ok address_ok (tokenAddressForCurrency cfg c)"
  using assms address_ok_lower
  by (cases c; cases "cf_arc_usdc_address cfg"; cases "cf_arc_eurc_address cfg")
    (auto simp: tokenAddressForCurrency_def Let_def)

lemma chain_merchant_ok: "opt_ok token_amount_ok (onchain_id_text m s)"
  by (auto simp: onchain_id_text_def opt_ok_def token_amount_show_nat split: option.split)

text \<open>The schema of a session row, whatever the services update in it: a closed session is still valid.\<close>

lemma new_session_schema:
  assumes "create_session_schema z input" and "id_ok i" and "id_ok m" and "opt_ok id_ok c"
    and "opt_ok address_ok (tokenAddressForCurrency cfg (si_currency input))"
    and "0 \<le> fee" and "0 \<le> net" and "zd_url z u"
  shows "session_schema z (serialise_session cfg s
    ((new_session_row cfg i now m mode input c link fee net)\<lparr>ps_checkout_url := u\<rparr>))"
  using assms
  by (simp add: session_schema_def create_session_schema_def serialise_session_def new_session_row_def
      chain_merchant_ok token_amount_show_int)

section \<open>Properties\<close>

text \<open>
  The API answers in its own schema: from an input that satisfies the request schema and well-formed
  identifiers, the created session satisfies the response schema, and the outbox event it leaves passes the
  schema of \<open>payment.created\<close>, so the dispatcher will not quarantine it.
\<close>

theorem created_session_valid:
  assumes run: "insert_session cfg registry fr now m mode input link s = (Inr w, s')"
    and schema: "create_session_schema z input"
    and fresh: "find_session (fr_session fr) s = None"
    and ids: "id_ok (fr_session fr)" "id_ok (fr_customer fr)" "id_ok m" "\<forall>r\<in>set (customers s). id_ok (cu_id r)"
    and tokens: "opt_ok (\<lambda>a. a \<noteq> [] \<longrightarrow> address_ok a) (cf_arc_usdc_address cfg)"
      "opt_ok (\<lambda>a. a \<noteq> [] \<longrightarrow> address_ok a) (cf_arc_eurc_address cfg)"
    and url: "zd_url z (checkout_url cfg (fr_session fr))"
  shows "session_schema z w \<and>
    (\<exists>e\<in>set (events s'). ev_payload e = Envelope ''payment.created'' mode now (Session_Body w) \<and>
       event_data_schema z ''payment.created'' (Session_Body w))"
proof -
  have w: "session_schema z w"
  proof (rule insert_session_result [OF run fresh])
    fix mr bps fee net c row
    assume "row = (new_session_row cfg (fr_session fr) now m mode input c link fee net)
         \<lparr>ps_checkout_url := checkout_url cfg (fr_session fr)\<rparr>"
      and "w = serialise_session cfg s row" and split: "feeSplit (BigInt (si_amount input)) (int bps) = Inr (fee, net)"
      and c: "\<forall>i. c = Some i \<longrightarrow> i = fr_customer fr \<or> (\<exists>r\<in>set (customers s). cu_id r = i)"
    moreover from feeSplit_bounds [OF split] have "0 \<le> fee" "0 \<le> net" by simp_all
    moreover from c ids have "opt_ok id_ok c" by (auto simp: opt_ok_def split: option.split)
    ultimately show ?thesis
      using new_session_schema [OF schema ids(1,3)] token_address_ok [OF tokens] url by simp
  qed
  moreover have "\<exists>e\<in>set (events s'). ev_payload e = Envelope ''payment.created'' mode now (Session_Body w)"
    using run unfolding insert_session_def
    by (auto simp: seq_Inr_iff lift_sum_def or_raise_def raise_def ret_def split: option.splits sum.splits prod.splits)
  ultimately show ?thesis by simp
qed

section \<open>Witness\<close>

definition lenient_zod :: zod where
  [sample_defs]: "lenient_zod = \<lparr>zd_url = (\<lambda>_. True), zd_email = (\<lambda>_. True)\<rparr>"

definition valid_input :: session_input where
  [sample_defs]: "valid_input = sample_input\<lparr>si_customer := None\<rparr>"

lemma other_address_ok [simp]: "address_ok other_address"
  by (simp add: other_address_def address_ok_def hex_of_length_def hex_body_def starts_with_def is_hex_char_def
      list_all_iff Let_def)

lemma sample_config_tokens [simp]:
  "cf_arc_usdc_address sample_config = Some sample_address" "cf_arc_eurc_address sample_config = Some other_address"
  by (simp_all add: sample_config_def)

theorem created_session_valid_witness:
  "\<exists>w s'. insert_session sample_config no_fees sample_fresh 1000 ''m1'' Test valid_input None sample_store = (Inr w, s') \<and>
     session_schema lenient_zod w"
proof -
  have amount: "BigInt ''3000000'' = 3000000"
    by (simp add: BigInt_def big_nat_def digit_of_def)
  have fresh: "find_session (fr_session sample_fresh) sample_store = None"
    by (simp add: sample_defs find_session_def)
  have "returned (insert_session sample_config no_fees sample_fresh 1000 ''m1'' Test valid_input None sample_store)"
    by (simp add: insert_session_def seq_def
        assertMinimumAmount_def MINIMUM_PAYMENT_AMOUNT_def feeBpsFor_def feeSplit_def MAX_FEE_BPS_def session_customer_def planFeeBps_def
        find_session_def new_session_row_def returned_def amount sample_defs)
  then obtain w s' where run: "insert_session sample_config no_fees sample_fresh 1000 ''m1'' Test valid_input None sample_store = (Inr w, s')"
    by (rule returnedE)
  have schema: "create_session_schema lenient_zod valid_input"
    by (simp add: create_session_schema_def valid_input_def sample_input_def token_amount_ok_def is_digit_def metadata_ok_def)
  have ids: "id_ok (fr_session sample_fresh)" "id_ok (fr_customer sample_fresh)" "id_ok ''m1''"
    "\<forall>r\<in>set (customers sample_store). id_ok (cu_id r)"
    by (simp_all add: sample_fresh_def id_ok_def is_id_char_def Let_def sample_store_def empty_store_def)
  from created_session_valid [OF run schema fresh ids] run show ?thesis
    by (auto simp: lenient_zod_def)
qed

end
