(* ===== verification/Outbox.thy ===== *)
theory Outbox
  imports Wire_Schemas Sweepers
begin

text \<open>
  The transactional outbox of the scheduler, \<open>apps/scheduler/src/infra/webhook-outbox\<close>: producers leave
  \<open>WebhookEvent\<close> rows without \<open>dispatchedAt\<close>; a tick claims a batch, builds and validates each
  envelope, and creates one delivery row and one delivery job per endpoint of the merchant that listens.

  Faults are part of the model: \<open>fault e = Some k\<close> makes the \<open>k\<close>-th database or queue operation of
  event \<open>e\<close> throw a transient error (0 the reads of \<open>hydrate\<close>, 1 the envelope update, 2 the endpoint
  query, then the insertion and the enqueueing of each delivery in turn); \<open>lost e\<close> makes the update that records
  the failure of \<open>e\<close> throw as well, which ends the tick: the rest of its batch stays claimed.
\<close>

section \<open>Wire forms of the scheduler\<close>

text \<open>
  As the serialiser of the API, but for the token: only USDC has an address here.
\<close>

definition serialise_session_out :: "config \<Rightarrow> store \<Rightarrow> session_row \<Rightarrow> session_wire" where
  "serialise_session_out cfg s r = (serialise_session cfg s r)\<lparr>
     sw_token_address := (if ps_currency r = USDC then map_option to_lower (cf_arc_usdc_address cfg) else None)\<rparr>"

definition serialise_charge :: "charge_row \<Rightarrow> charge_row" where
  "serialise_charge r = r"

fun outbox_ref_ok :: "outbox_ref \<Rightarrow> bool" where
  "outbox_ref_ok (Ref_Recovery_Attempt i n) = (1 \<le> n)"
| "outbox_ref_ok _ = True"

fun ref_kind :: "outbox_ref \<Rightarrow> string" where
  "ref_kind (Ref_Payment_Completed s t) = ''payment.completed''"
| "ref_kind (Ref_Payment_Failed s r) = ''payment.failed''"
| "ref_kind (Ref_Invoice_Paid i t) = ''invoice.paid''"
| "ref_kind (Ref_Invoice_Overdue i) = ''invoice.overdue''"
| "ref_kind (Ref_Subscription_Created i) = ''subscription.created''"
| "ref_kind (Ref_Subscription_Lapsed i) = ''subscription.lapsed''"
| "ref_kind (Ref_Subscription_Charged i c t) = ''subscription.charged''"
| "ref_kind (Ref_Charge_Failed i c) = ''subscription.charge_failed''"
| "ref_kind (Ref_Recovery_Attempt i n) = ''subscription.recovery_attempt''"
| "ref_kind (Ref_Refund_Completed i) = ''refund.completed''"

section \<open>Building the envelope\<close>

definition row_of :: "('r \<Rightarrow> string) \<Rightarrow> string \<Rightarrow> 'r list \<Rightarrow> api_exn + 'r" where
  "row_of key i t = (case find_row key i t of None \<Rightarrow> Inl p2025 | Some r \<Rightarrow> Inr r)"

definition both :: "('e + 'a) \<Rightarrow> ('a \<Rightarrow> 'e + 'b) \<Rightarrow> 'e + 'b" where
  "both x f = (case x of Inl e \<Rightarrow> Inl e | Inr y \<Rightarrow> f y)"

fun hydrate :: "config \<Rightarrow> store \<Rightarrow> outbox_ref \<Rightarrow> api_exn + wire_body" where
  "hydrate cfg s (Ref_Payment_Completed i t) =
     both (row_of ps_id i (sessions s)) (\<lambda>session. both (row_of tx_id t (transactions s)) (\<lambda>transaction.
     Inr (Paid_Session_Body (serialise_session_out cfg s session) (serialise_tx transaction))))"
| "hydrate cfg s (Ref_Invoice_Paid i t) =
     both (row_of iv_id i (invoices s)) (\<lambda>invoice. both (row_of tx_id t (transactions s)) (\<lambda>transaction.
     Inr (Paid_Invoice_Body (serialise_invoice invoice) (serialise_tx transaction))))"
| "hydrate cfg s (Ref_Subscription_Created i) =
     both (row_of su_id i (subs s)) (\<lambda>sub. Inr (Subscription_Body (serialise_sub sub)))"
| "hydrate cfg s (Ref_Subscription_Charged i c t) =
     both (row_of su_id i (subs s)) (\<lambda>sub. both (row_of ch_id c (charges s)) (\<lambda>charge.
     both (row_of tx_id t (transactions s)) (\<lambda>transaction.
     Inr (Charged_Body (serialise_sub sub) (serialise_charge charge) (serialise_tx transaction)))))"
| "hydrate cfg s (Ref_Charge_Failed i c) =
     both (row_of su_id i (subs s)) (\<lambda>sub. both (row_of ch_id c (charges s)) (\<lambda>charge.
     Inr (Charge_Failed_Body (serialise_sub sub) (serialise_charge charge))))"
| "hydrate cfg s (Ref_Refund_Completed i) =
     both (row_of rf_id i (refunds s)) (\<lambda>refund. both (row_of tx_id (rf_transaction_id refund) (transactions s)) (\<lambda>transaction.
     Inr (Refunded_Body (serialise_refund refund) (serialise_tx transaction))))"
| "hydrate cfg s (Ref_Subscription_Lapsed i) =
     both (row_of su_id i (subs s)) (\<lambda>sub. Inr (Subscription_Body (serialise_sub sub)))"
| "hydrate cfg s (Ref_Recovery_Attempt i n) =
     both (row_of su_id i (subs s)) (\<lambda>sub. Inr (Recovery_Body (serialise_sub sub) n))"
| "hydrate cfg s (Ref_Invoice_Overdue i) =
     both (row_of iv_id i (invoices s)) (\<lambda>invoice. Inr (Invoice_Body (serialise_invoice invoice)))"
| "hydrate cfg s (Ref_Payment_Failed i reason) =
     both (row_of ps_id i (sessions s)) (\<lambda>session.
     Inr (Session_Failed_Body (serialise_session_out cfg s session) (case reason of None \<Rightarrow> ''failed'' | Some t \<Rightarrow> t)))"

fun buildEnvelope :: "config \<Rightarrow> store \<Rightarrow> event_row \<Rightarrow> api_exn + event_payload" where
  "buildEnvelope cfg s ev =
     (case ev_payload ev of
        Ref_Payload ref \<Rightarrow>
          if outbox_ref_ok ref
          then both (hydrate cfg s ref) (\<lambda>body. Inr (Envelope (ref_kind ref) (ev_mode ev) (ev_created_at ev) body))
          else Inl (Crash ''ZodError'')
      | Bad_Ref \<Rightarrow> Inl (Crash ''ZodError'')
      | payload \<Rightarrow> Inr payload)"

text \<open>\<open>webhookEventSchema.parse\<close>: the wire type of a valid envelope.\<close>

definition parse_envelope :: "zod \<Rightarrow> event_row \<Rightarrow> event_payload \<Rightarrow> api_exn + string" where
  "parse_envelope z ev payload =
     (case payload of
        Envelope t mode created body \<Rightarrow>
          if id_ok (ev_id ev) \<and> event_data_schema z t body then Inr t else Inl (Crash ''ZodError'')
      | _ \<Rightarrow> Inl (Crash ''ZodError''))"

section \<open>Deliveries\<close>

definition delivery_job_ok :: "zod \<Rightarrow> webhook_delivery_job \<Rightarrow> bool" where
  "delivery_job_ok z j \<longleftrightarrow> zd_url z (wj_url j) \<and>
     length (wj_signing_secret_hash j) = 64 \<and> list_all is_hex_char (wj_signing_secret_hash j) \<and>
     to_lower (wj_signing_secret_hash j) = wj_signing_secret_hash j"

definition listens :: "string \<Rightarrow> api_mode \<Rightarrow> string \<Rightarrow> endpoint_row \<Rightarrow> bool" where
  "listens merchantId mode name ep \<longleftrightarrow> ep_merchant_id ep = merchantId \<and> ep_mode ep = mode \<and>
     ep_status ep = Ep_Active \<and> name \<in> set (ep_events ep)"

definition new_delivery :: "string \<Rightarrow> int \<Rightarrow> event_row \<Rightarrow> string \<Rightarrow> endpoint_row \<Rightarrow> delivery_row" where
  "new_delivery did now ev name ep = \<lparr>dl_id = did, dl_delivery_id = did, dl_merchant_id = ev_merchant_id ev,
     dl_endpoint_id = ep_id ep, dl_event_id = ev_id ev, dl_event_name = name, dl_status = Dl_Pending,
     dl_attempt = 1, dl_response_code = None, dl_response_ms = None, dl_response_body = None,
     dl_last_error = None, dl_next_attempt_at = None, dl_delivered_at = None, dl_created_at = now\<rparr>"

definition delivery_job :: "string \<Rightarrow> endpoint_row \<Rightarrow> string \<Rightarrow> webhook_delivery_job" where
  "delivery_job did ep eid = \<lparr>wj_delivery_id = did, wj_endpoint_id = ep_id ep, wj_url = ep_url ep,
     wj_signing_secret_hash = ep_signing_secret_hash ep, wj_event_id = eid\<rparr>"

definition op_ok :: "(string \<Rightarrow> nat option) \<Rightarrow> event_row \<Rightarrow> nat \<Rightarrow> (store, api_exn, unit) proc" where
  "op_ok fault ev k = require (fault (ev_id ev) \<noteq> Some k) (Crash ''transient'')"

text \<open>The loop over the endpoints; \<open>did\<close> gives the fresh delivery id for an endpoint.\<close>

fun create_each ::
  "zod \<Rightarrow> (string \<Rightarrow> nat option) \<Rightarrow> (string \<Rightarrow> string) \<Rightarrow> int \<Rightarrow> event_row \<Rightarrow> string \<Rightarrow> nat \<Rightarrow> endpoint_row list \<Rightarrow>
   (store, api_exn, unit) proc" where
  "create_each z fault did now ev name k [] = ret ()"
| "create_each z fault did now ev name k (ep # eps) =
     seq (op_ok fault ev k) (\<lambda>_.
     seq (modify (\<lambda>s. s\<lparr>deliveries := deliveries s @ [new_delivery (did (ep_id ep)) now ev name ep]\<rparr>)) (\<lambda>_.
     seq (require (delivery_job_ok z (delivery_job (did (ep_id ep)) ep (ev_id ev))) (Crash ''ZodError'')) (\<lambda>_.
     seq (op_ok fault ev (k + 1)) (\<lambda>_.
     seq (modify (\<lambda>s. s\<lparr>delivery_queue := delivery_queue s @ [(0, delivery_job (did (ep_id ep)) ep (ev_id ev))]\<rparr>)) (\<lambda>_.
     create_each z fault did now ev name (k + 2) eps)))))"

definition createDeliveries ::
  "zod \<Rightarrow> (string \<Rightarrow> nat option) \<Rightarrow> (string \<Rightarrow> string) \<Rightarrow> int \<Rightarrow> event_row \<Rightarrow> string \<Rightarrow> (store, api_exn, nat) proc" where
  "createDeliveries z fault did now ev wireType =
     (let name = dot_to_underscore wireType in
      seq (op_ok fault ev 2) (\<lambda>_.
      seq (gets (\<lambda>s. filter (listens (ev_merchant_id ev) (ev_mode ev) name) (endpoints s))) (\<lambda>eps.
      seq (create_each z fault did now ev name 3 eps) (\<lambda>_. ret (length eps)))))"

section \<open>A tick\<close>

definition isPermanentDispatchFailure :: "api_exn \<Rightarrow> bool" where
  "isPermanentDispatchFailure e \<longleftrightarrow> e = Crash ''ZodError'' \<or> e = Crash ''PrismaValidation'' \<or> e = p2025"

datatype event_patch =
    Claim_Event int
  | Store_Envelope event_payload
  | Quarantine_Event string
  | Return_Event string

fun patch_event :: "event_patch \<Rightarrow> event_row \<Rightarrow> event_row" where
  "patch_event (Claim_Event now) e = e\<lparr>ev_dispatched_at := Some now\<rparr>"
| "patch_event (Store_Envelope p) e = e\<lparr>ev_payload := p, ev_dispatch_error := None\<rparr>"
| "patch_event (Quarantine_Event m) e = e\<lparr>ev_dispatch_error := Some m\<rparr>"
| "patch_event (Return_Event m) e = e\<lparr>ev_dispatch_error := Some m, ev_dispatched_at := None\<rparr>"

definition update_event :: "string \<Rightarrow> event_patch \<Rightarrow> (store, api_exn, unit) proc" where
  "update_event i p = modify (\<lambda>s. s\<lparr>events := update_where (\<lambda>e. ev_id e = i) (patch_event p) (events s)\<rparr>)"

fun exn_text :: "api_exn \<Rightarrow> string" where
  "exn_text (Http st c d) = c"
| "exn_text (Crash t) = t"

text \<open>The body of the loop for one claimed event: the number of deliveries it queued.\<close>

definition try_dispatch ::
  "config \<Rightarrow> zod \<Rightarrow> (string \<Rightarrow> nat option) \<Rightarrow> (string \<Rightarrow> string) \<Rightarrow> int \<Rightarrow> event_row \<Rightarrow> (store, api_exn, nat) proc" where
  "try_dispatch cfg z fault did now ev =
     seq (op_ok fault ev 0) (\<lambda>_.
     seq (gets (\<lambda>s. buildEnvelope cfg s ev)) (\<lambda>built.
     seq (lift_sum built) (\<lambda>envelope.
     seq (lift_sum (parse_envelope z ev envelope)) (\<lambda>wireType.
     seq (op_ok fault ev 1) (\<lambda>_.
     seq (update_event (ev_id ev) (Store_Envelope envelope)) (\<lambda>_.
     createDeliveries z fault did now ev wireType))))))"

definition dispatch_event ::
  "config \<Rightarrow> zod \<Rightarrow> (string \<Rightarrow> nat option) \<Rightarrow> (string \<Rightarrow> bool) \<Rightarrow> (string \<Rightarrow> string) \<Rightarrow> int \<Rightarrow> event_row \<Rightarrow>
   (store, api_exn, nat) proc" where
  "dispatch_event cfg z fault lost did now ev =
     catch (try_dispatch cfg z fault did now ev)
       (\<lambda>e. seq (require (\<not> lost (ev_id ev)) (Crash ''transient'')) (\<lambda>_.
            seq (update_event (ev_id ev)
               (if isPermanentDispatchFailure e then Quarantine_Event (take 1000 (exn_text e))
                else Return_Event (take 1000 (exn_text e)))) (\<lambda>_. ret 0)))"

definition OUTBOX_BATCH :: nat where
  "OUTBOX_BATCH = 100"

definition pending_events :: "store \<Rightarrow> event_row list" where
  "pending_events s = filter (\<lambda>e. ev_dispatched_at e = None) (events s)"

definition outbox_batch :: "store \<Rightarrow> event_row list" where
  "outbox_batch s = take OUTBOX_BATCH (sort_key ev_created_at (pending_events s))"

definition tickNow ::
  "config \<Rightarrow> zod \<Rightarrow> (string \<Rightarrow> nat option) \<Rightarrow> (string \<Rightarrow> bool) \<Rightarrow> (string \<Rightarrow> string \<Rightarrow> string) \<Rightarrow> int \<Rightarrow>
   (store, api_exn, nat \<times> nat) proc" where
  "tickNow cfg z fault lost did now =
     seq (gets outbox_batch) (\<lambda>claimed.
     seq (modify (\<lambda>s. s\<lparr>events := update_where (\<lambda>e. ev_id e \<in> ev_id ` set claimed) (patch_event (Claim_Event now)) (events s)\<rparr>)) (\<lambda>_.
     if claimed = [] then ret (0, 0)
     else
     seq (for_each (\<lambda>ev. dispatch_event cfg z fault lost (did (ev_id ev)) now ev) claimed) (\<lambda>counts.
     ret (length claimed, sum_list counts))))"

section \<open>What dispatching one event does\<close>

lemma patch_event_fixed [simp]:
  "ev_id (patch_event p e) = ev_id e" "ev_merchant_id (patch_event p e) = ev_merchant_id e"
  "ev_mode (patch_event p e) = ev_mode e" "ev_created_at (patch_event p e) = ev_created_at e"
  by (cases p; simp)+

interpretation event_patch: row_update ev_id patch_event
  by unfold_locales simp

definition new_deliveries ::
  "(string \<Rightarrow> string) \<Rightarrow> int \<Rightarrow> event_row \<Rightarrow> string \<Rightarrow> endpoint_row list \<Rightarrow> delivery_row list" where
  "new_deliveries did now ev name eps = map (\<lambda>ep. new_delivery (did (ep_id ep)) now ev name ep) eps"

definition new_jobs :: "(string \<Rightarrow> string) \<Rightarrow> event_row \<Rightarrow> endpoint_row list \<Rightarrow> (int \<times> webhook_delivery_job) list" where
  "new_jobs did ev eps = map (\<lambda>ep. (0, delivery_job (did (ep_id ep)) ep (ev_id ev))) eps"

definition listeners :: "event_row \<Rightarrow> string \<Rightarrow> store \<Rightarrow> endpoint_row list" where
  "listeners ev name s = filter (listens (ev_merchant_id ev) (ev_mode ev) name) (endpoints s)"

definition add_deliveries ::
  "delivery_row list \<Rightarrow> (int \<times> webhook_delivery_job) list \<Rightarrow> store \<Rightarrow> store" where
  "add_deliveries D Q s = s\<lparr>deliveries := deliveries s @ D, delivery_queue := delivery_queue s @ Q\<rparr>"

lemma add_deliveries_simps [simp]:
  "events (add_deliveries D Q s) = events s" "endpoints (add_deliveries D Q s) = endpoints s"
  "deliveries (add_deliveries D Q s) = deliveries s @ D" "delivery_queue (add_deliveries D Q s) = delivery_queue s @ Q"
  by (simp_all add: add_deliveries_def)

lemma add_deliveries_Nil [simp]: "add_deliveries [] [] s = s"
  by (simp add: add_deliveries_def)

lemma add_deliveries_add: "add_deliveries D Q (add_deliveries D' Q' s) = add_deliveries (D' @ D) (Q' @ Q) s"
  by (simp add: add_deliveries_def)

text \<open>The exceptions a tick can meet: transient ones come from a fault, all others are permanent.\<close>

definition explained :: "(string \<Rightarrow> nat option) \<Rightarrow> event_row \<Rightarrow> api_exn \<Rightarrow> bool" where
  "explained fault ev e \<longleftrightarrow> isPermanentDispatchFailure e \<or> fault (ev_id ev) \<noteq> None"

lemma create_each_effect:
  "create_each z fault did now ev name k eps s = (r, s') \<Longrightarrow>
   \<exists>m n. s' = add_deliveries (take m (new_deliveries did now ev name eps)) (take n (new_jobs did ev eps)) s \<and>
     (case r of Inl e \<Rightarrow> explained fault ev e | Inr _ \<Rightarrow> m = length eps \<and> n = length eps)"
proof (induction eps arbitrary: k s)
  case Nil
  then show ?case by (auto simp: ret_def new_deliveries_def new_jobs_def)
next
  case (Cons ep eps)
  let ?d = "new_delivery (did (ep_id ep)) now ev name ep" and ?j = "delivery_job (did (ep_id ep)) ep (ev_id ev)"
  let ?s1 = "s\<lparr>deliveries := deliveries s @ [?d]\<rparr>"
  consider (f1) "fault (ev_id ev) = Some k"
    | (zod) "fault (ev_id ev) \<noteq> Some k" "\<not> delivery_job_ok z ?j"
    | (f2) "fault (ev_id ev) = Some (k + 1)" "delivery_job_ok z ?j"
    | (go) "fault (ev_id ev) \<noteq> Some k" "fault (ev_id ev) \<noteq> Some (k + 1)" "delivery_job_ok z ?j" by fastforce
  then show ?case
  proof cases
    case f1
    with Cons.prems show ?thesis
      by (intro exI [of _ 0]) (auto simp: op_ok_def explained_def)
  next
    case zod
    with Cons.prems have "s' = ?s1" "r = Inl (Crash ''ZodError'')" by (auto simp: op_ok_def)
    then show ?thesis
      by (intro exI [of _ 1] exI [of _ 0])
        (simp add: explained_def isPermanentDispatchFailure_def new_deliveries_def add_deliveries_def)
  next
    case f2
    with Cons.prems have "s' = ?s1" "r = Inl (Crash ''transient'')" by (auto simp: op_ok_def)
    with f2 show ?thesis
      by (intro exI [of _ 1] exI [of _ 0]) (simp add: explained_def new_deliveries_def add_deliveries_def)
  next
    case go
    let ?s2 = "add_deliveries [?d] [(0, ?j)] s"
    from go Cons.prems have "create_each z fault did now ev name (k + 2) eps ?s2 = (r, s')"
      by (simp add: op_ok_def add_deliveries_def)
    from Cons.IH [OF this] obtain m n where
      "s' = add_deliveries (take m (new_deliveries did now ev name eps)) (take n (new_jobs did ev eps)) ?s2"
      "case r of Inl e \<Rightarrow> explained fault ev e | Inr _ \<Rightarrow> m = length eps \<and> n = length eps" by blast
    then show ?thesis
      by (intro exI [of _ "Suc m"] exI [of _ "Suc n"])
        (simp add: add_deliveries_add new_deliveries_def new_jobs_def split: sum.splits)
  qed
qed

lemma hydrate_error: "hydrate cfg s ref = Inl e \<Longrightarrow> e = p2025"
  by (cases ref) (auto simp: both_def row_of_def split: option.splits)

lemma buildEnvelope_error: "buildEnvelope cfg s ev = Inl e \<Longrightarrow> isPermanentDispatchFailure e"
  by (auto simp: both_def isPermanentDispatchFailure_def dest!: hydrate_error split: event_payload.splits if_splits sum.splits)

lemma parse_envelope_Inr:
  "parse_envelope z ev p = Inr t \<Longrightarrow> \<exists>m c b. p = Envelope t m c b \<and> event_data_schema z t b"
  by (auto simp: parse_envelope_def split: event_payload.splits if_splits)

lemma parse_envelope_error: "parse_envelope z ev p = Inl e \<Longrightarrow> isPermanentDispatchFailure e"
  by (auto simp: parse_envelope_def isPermanentDispatchFailure_def split: event_payload.splits if_splits)

definition set_event :: "string \<Rightarrow> (event_row \<Rightarrow> event_row) \<Rightarrow> store \<Rightarrow> store" where
  "set_event i f s = s\<lparr>events := update_where (\<lambda>e. ev_id e = i) f (events s)\<rparr>"

lemma set_event_simps [simp]:
  "events (set_event i f s) = update_where (\<lambda>e. ev_id e = i) f (events s)"
  "endpoints (set_event i f s) = endpoints s" "deliveries (set_event i f s) = deliveries s"
  "delivery_queue (set_event i f s) = delivery_queue s"
  by (simp_all add: set_event_def)

lemma update_event_eq: "update_event i p = modify (set_event i (patch_event p))"
  by (simp add: update_event_def set_event_def [abs_def])

text \<open>The run of the \<open>try\<close> block.\<close>

lemma try_dispatch_effect:
  assumes "try_dispatch cfg z fault did now ev s = (r, s')"
  obtains (early) e where "r = Inl e" "s' = s" "explained fault ev e"
    | (late) e p t m n where "r = Inl e" "explained fault ev e"
      "s' = add_deliveries (take m (new_deliveries did now ev (dot_to_underscore t) (listeners ev (dot_to_underscore t) s)))
         (take n (new_jobs did ev (listeners ev (dot_to_underscore t) s))) (set_event (ev_id ev) (patch_event (Store_Envelope p)) s)"
    | (finished) k p t where "r = Inr k" "parse_envelope z ev p = Inr t"
      "s' = add_deliveries (new_deliveries did now ev (dot_to_underscore t) (listeners ev (dot_to_underscore t) s))
         (new_jobs did ev (listeners ev (dot_to_underscore t) s)) (set_event (ev_id ev) (patch_event (Store_Envelope p)) s)"
proof -
  have trans: "explained fault ev (Crash ''transient'')" if "fault (ev_id ev) = Some k" for k
    using that by (simp add: explained_def)
  show thesis
  proof (cases "fault (ev_id ev) = Some 0")
    case True
    with assms early trans show ?thesis by (auto simp: try_dispatch_def op_ok_def)
  next
    case f0: False
    show ?thesis
    proof (cases "buildEnvelope cfg s ev")
      case (Inl e)
      with f0 assms early buildEnvelope_error show ?thesis
        by (auto simp: try_dispatch_def op_ok_def explained_def simp del: buildEnvelope.simps)
    next
      case p: (Inr p)
      show ?thesis
      proof (cases "parse_envelope z ev p")
        case (Inl e)
        with f0 p assms early parse_envelope_error show ?thesis
          by (auto simp: try_dispatch_def op_ok_def explained_def simp del: buildEnvelope.simps)
      next
        case t: (Inr t)
        show ?thesis
        proof (cases "fault (ev_id ev) = Some 1")
          case True
          with f0 p t assms early trans show ?thesis
            by (auto simp: try_dispatch_def op_ok_def simp del: buildEnvelope.simps)
        next
          case f1: False
          let ?s1 = "set_event (ev_id ev) (patch_event (Store_Envelope p)) s"
          let ?name = "dot_to_underscore t"
          have run: "createDeliveries z fault did now ev t ?s1 = (r, s')"
            using f0 f1 p t assms
            by (simp add: try_dispatch_def op_ok_def update_event_eq del: buildEnvelope.simps patch_event.simps)
          show ?thesis
          proof (cases "fault (ev_id ev) = Some 2")
            case True
            with run have "r = Inl (Crash ''transient'')" "s' = ?s1" by (auto simp: createDeliveries_def op_ok_def Let_def)
            with True show ?thesis by (intro late [of _ 0 t 0 p]) (simp_all add: explained_def)
          next
            case f2: False
            obtain q y where q: "create_each z fault did now ev ?name 3 (listeners ev ?name s) ?s1 = (q, y)" by fastforce
            have "seq (create_each z fault did now ev ?name 3 (listeners ev ?name s)) (\<lambda>_. ret (length (listeners ev ?name s))) ?s1 = (r, s')"
              using run f2 by (simp add: createDeliveries_def op_ok_def Let_def listeners_def)
            with q have rs: "s' = y" "r = (case q of Inl e \<Rightarrow> Inl e | Inr _ \<Rightarrow> Inr (length (listeners ev ?name s)))"
              by (auto simp: seq_def split: sum.splits)
            from create_each_effect [OF q] obtain m n where
              y: "y = add_deliveries (take m (new_deliveries did now ev ?name (listeners ev ?name s)))
                 (take n (new_jobs did ev (listeners ev ?name s))) ?s1"
              and c: "case q of Inl e \<Rightarrow> explained fault ev e
                | Inr _ \<Rightarrow> m = length (listeners ev ?name s) \<and> n = length (listeners ev ?name s)" by blast
            show ?thesis
            proof (cases q)
              case (Inl e)
              with rs y c show ?thesis by (intro late [of e m t n p]) simp_all
            next
              case (Inr u)
              with rs y c t show ?thesis
                by (intro finished [of _ p t]) (simp_all add: new_deliveries_def new_jobs_def)
            qed
          qed
        qed
      qed
    qed
  qed
qed

lemma set_event_add: "set_event i f (add_deliveries D Q s) = add_deliveries D Q (set_event i f s)"
  by (simp add: set_event_def add_deliveries_def)

lemma set_event_twice:
  assumes "\<And>e. ev_id (g e) = ev_id e"
  shows "set_event i f (set_event i g s) = set_event i (\<lambda>e. f (g e)) s"
  using assms by (simp add: set_event_def update_where_def comp_def)

text \<open>A failed event keeps its identity, records an error, and is returned only after a fault.\<close>

definition failure_of :: "(string \<Rightarrow> nat option) \<Rightarrow> event_row \<Rightarrow> (event_row \<Rightarrow> event_row) \<Rightarrow> bool" where
  "failure_of fault ev f \<longleftrightarrow> (\<forall>e. ev_id (f e) = ev_id e \<and> ev_merchant_id (f e) = ev_merchant_id e \<and>
     ev_mode (f e) = ev_mode e \<and> ev_dispatch_error (f e) \<noteq> None \<and>
     (ev_dispatched_at (f e) = ev_dispatched_at e \<or> fault (ev_id ev) \<noteq> None))"

lemma failure_patch:
  "explained fault ev e \<Longrightarrow> failure_of fault ev
     (patch_event (if isPermanentDispatchFailure e then Quarantine_Event m else Return_Event m))"
  by (auto simp: failure_of_def explained_def)

lemma failure_comp: "failure_of fault ev f \<Longrightarrow> failure_of fault ev (\<lambda>e. f (patch_event (Store_Envelope p) e))"
proof -
  assume f: "failure_of fault ev f"
  show ?thesis
    unfolding failure_of_def
  proof
    fix e
    let ?e = "patch_event (Store_Envelope p) e"
    have "ev_dispatched_at ?e = ev_dispatched_at e" by simp
    with f [unfolded failure_of_def, rule_format, of ?e]
    show "ev_id (f ?e) = ev_id e \<and> ev_merchant_id (f ?e) = ev_merchant_id e \<and> ev_mode (f ?e) = ev_mode e \<and>
        ev_dispatch_error (f ?e) \<noteq> None \<and> (ev_dispatched_at (f ?e) = ev_dispatched_at e \<or> fault (ev_id ev) \<noteq> None)"
      by (simp del: patch_event.simps)
  qed
qed

text \<open>What an aborted dispatch may do to the event row: rewrite its envelope.\<close>

definition keeps_claim :: "(event_row \<Rightarrow> event_row) \<Rightarrow> bool" where
  "keeps_claim f \<longleftrightarrow> (\<forall>e. ev_id (f e) = ev_id e \<and> ev_merchant_id (f e) = ev_merchant_id e \<and>
     ev_mode (f e) = ev_mode e \<and> ev_dispatched_at (f e) = ev_dispatched_at e)"

lemma set_event_id [simp]: "set_event i (\<lambda>e. e) s = s"
  by (simp add: set_event_def update_where_def)

lemma dispatch_event_effect:
  assumes "dispatch_event cfg z fault lost did now ev s = (r, s')"
  obtains (failed) f name m n where "r = Inr 0" "failure_of fault ev f"
      "s' = add_deliveries (take m (new_deliveries did now ev name (listeners ev name s)))
         (take n (new_jobs did ev (listeners ev name s))) (set_event (ev_id ev) f s)"
    | (sent) k p t where "r = Inr k" "parse_envelope z ev p = Inr t"
      "s' = add_deliveries (new_deliveries did now ev (dot_to_underscore t) (listeners ev (dot_to_underscore t) s))
         (new_jobs did ev (listeners ev (dot_to_underscore t) s)) (set_event (ev_id ev) (patch_event (Store_Envelope p)) s)"
    | (aborted) f name m n where "r = Inl (Crash ''transient'')" "lost (ev_id ev)" "keeps_claim f"
      "s' = add_deliveries (take m (new_deliveries did now ev name (listeners ev name s)))
         (take n (new_jobs did ev (listeners ev name s))) (set_event (ev_id ev) f s)"
proof -
  obtain q y where q: "try_dispatch cfg z fault did now ev s = (q, y)" by fastforce
  let ?h = "\<lambda>e. patch_event (if isPermanentDispatchFailure e then Quarantine_Event (take 1000 (exn_text e))
                else Return_Event (take 1000 (exn_text e)))"
  have caught: "if lost (ev_id ev) then r = Inl (Crash ''transient'') \<and> s' = y else r = Inr 0 \<and> s' = set_event (ev_id ev) (?h e) y"
    if "q = Inl e" for e
    using assms q that by (auto simp: dispatch_event_def catch_def update_event_eq)
  from q show thesis
  proof (cases rule: try_dispatch_effect)
    case (early e)
    show ?thesis
    proof (cases "lost (ev_id ev)")
      case True
      with caught early show ?thesis
        by (intro aborted [of "\<lambda>e. e" 0 "[]" 0]) (simp_all add: keeps_claim_def)
    next
      case False
      with caught early have e: "r = Inr 0" "s' = add_deliveries (take 0 (new_deliveries did now ev [] (listeners ev [] s)))
         (take 0 (new_jobs did ev (listeners ev [] s))) (set_event (ev_id ev) (?h e) s)" by auto
      from e(1) failure_patch [OF early(3)] e(2) show ?thesis by (rule failed)
    qed
  next
    case (late e p t m n)
    let ?name = "dot_to_underscore t"
    show ?thesis
    proof (cases "lost (ev_id ev)")
      case True
      with caught late show ?thesis
        by (intro aborted [of "patch_event (Store_Envelope p)" m ?name n]) (simp_all add: keeps_claim_def)
    next
      case False
      with late(1) caught have r: "r = Inr 0" and "s' = set_event (ev_id ev) (?h e) y" by auto
      with late(3) have "s' = add_deliveries (take m (new_deliveries did now ev ?name (listeners ev ?name s)))
         (take n (new_jobs did ev (listeners ev ?name s)))
         (set_event (ev_id ev) (\<lambda>x. ?h e (patch_event (Store_Envelope p) x)) s)"
        by (simp only: set_event_add) (subst set_event_twice, simp_all)
      moreover have "failure_of fault ev (\<lambda>x. ?h e (patch_event (Store_Envelope p) x))"
        using failure_patch [OF late(2)] by (rule failure_comp)
      ultimately show ?thesis using failed r by blast
    qed
  next
    case (finished k p t)
    with assms q have "r = Inr k" "s' = y" by (auto simp: dispatch_event_def catch_def)
    with finished show ?thesis by (intro sent) auto
  qed
qed

lemma dispatch_event_returns:
  "case fst (dispatch_event cfg z fault lost did now ev s) of Inl e \<Rightarrow> e = Crash ''transient'' \<and> lost (ev_id ev) | Inr _ \<Rightarrow> True"
proof -
  obtain r s' where run: "dispatch_event cfg z fault lost did now ev s = (r, s')" by fastforce
  then show ?thesis by (cases rule: dispatch_event_effect) (simp_all add: run)
qed

section \<open>What a tick does\<close>

text \<open>A loop that may throw runs over a prefix of its list.\<close>

lemma for_each_prefix:
  "\<exists>k \<le> length xs. snd (for_each m xs s) = fold (\<lambda>x s. snd (m x s)) (take k xs) s \<and>
     (case fst (for_each m xs s) of Inr _ \<Rightarrow> k = length xs | Inl e \<Rightarrow> 0 < k \<and> (\<exists>t. fst (m (xs ! (k - 1)) t) = Inl e))"
proof (induction xs arbitrary: s)
  case Nil
  then show ?case by simp
next
  case (Cons x xs)
  obtain r s1 where run: "m x s = (r, s1)" by fastforce
  show ?case
  proof (cases r)
    case (Inl e)
    with run have "for_each m (x # xs) s = (Inl e, s1)" by (simp add: seq_def)
    moreover have "\<exists>t. fst (m x t) = Inl e" using run Inl by (intro exI [of _ s]) simp
    ultimately show ?thesis using run by (intro exI [of _ "Suc 0"]) (simp del: for_each.simps)
  next
    case (Inr y)
    obtain q t where q: "for_each m xs s1 = (q, t)" by fastforce
    from Cons [of s1] q obtain k where k: "k \<le> length xs" "t = fold (\<lambda>x s. snd (m x s)) (take k xs) s1"
      "case q of Inr _ \<Rightarrow> k = length xs | Inl e \<Rightarrow> 0 < k \<and> (\<exists>t. fst (m (xs ! (k - 1)) t) = Inl e)" by auto
    have "for_each m (x # xs) s = (case q of Inl e \<Rightarrow> Inl e | Inr ys \<Rightarrow> Inr (y # ys), t)"
      using run Inr q by (simp add: seq_def split: sum.split)
    with k run Inr show ?thesis
      by (intro exI [of _ "Suc k"]) (auto split: sum.splits simp: nth_Cons')
  qed
qed

abbreviation dispatched ::
  "config \<Rightarrow> zod \<Rightarrow> (string \<Rightarrow> nat option) \<Rightarrow> (string \<Rightarrow> bool) \<Rightarrow> (string \<Rightarrow> string \<Rightarrow> string) \<Rightarrow> int \<Rightarrow> event_row \<Rightarrow> store \<Rightarrow> store" where
  "dispatched cfg z fault lost did now ev s \<equiv> snd (dispatch_event cfg z fault lost (did (ev_id ev)) now ev s)"

definition claim_events :: "int \<Rightarrow> store \<Rightarrow> store" where
  "claim_events now s = s\<lparr>events := update_where (\<lambda>e. ev_id e \<in> ev_id ` set (outbox_batch s))
     (patch_event (Claim_Event now)) (events s)\<rparr>"

definition dispatch_all ::
  "config \<Rightarrow> zod \<Rightarrow> (string \<Rightarrow> nat option) \<Rightarrow> (string \<Rightarrow> bool) \<Rightarrow> (string \<Rightarrow> string \<Rightarrow> string) \<Rightarrow> int \<Rightarrow> event_row list \<Rightarrow>
   (store, api_exn, nat list) proc" where
  "dispatch_all cfg z fault lost did now = for_each (\<lambda>ev. dispatch_event cfg z fault lost (did (ev_id ev)) now ev)"

lemma tick_eq:
  "snd (tickNow cfg z fault lost did now s) = snd (dispatch_all cfg z fault lost did now (outbox_batch s) (claim_events now s))"
  "(\<exists>e. fst (tickNow cfg z fault lost did now s) = Inl e) \<longleftrightarrow>
   (\<exists>e. fst (dispatch_all cfg z fault lost did now (outbox_batch s) (claim_events now s)) = Inl e)"
proof -
  have idle: "outbox_batch s = [] \<Longrightarrow> claim_events now s = s"
    by (simp add: claim_events_def update_where_none)
  show "snd (tickNow cfg z fault lost did now s) = snd (dispatch_all cfg z fault lost did now (outbox_batch s) (claim_events now s))"
    "(\<exists>e. fst (tickNow cfg z fault lost did now s) = Inl e) \<longleftrightarrow>
     (\<exists>e. fst (dispatch_all cfg z fault lost did now (outbox_batch s) (claim_events now s)) = Inl e)"
    by (auto simp: tickNow_def claim_events_def [symmetric] dispatch_all_def seq_def idle simp del: patch_event.simps
        split: prod.split sum.split)
qed

lemma tick_prefix:
  obtains k where "k \<le> length (outbox_batch s)"
    "snd (tickNow cfg z fault lost did now s) = fold (dispatched cfg z fault lost did now) (take k (outbox_batch s)) (claim_events now s)"
    "(\<And>i. \<not> lost i) \<Longrightarrow> k = length (outbox_batch s)"
proof -
  obtain k where k: "k \<le> length (outbox_batch s)"
    "snd (dispatch_all cfg z fault lost did now (outbox_batch s) (claim_events now s)) =
       fold (dispatched cfg z fault lost did now) (take k (outbox_batch s)) (claim_events now s)"
    "case fst (dispatch_all cfg z fault lost did now (outbox_batch s) (claim_events now s)) of Inr _ \<Rightarrow> k = length (outbox_batch s)
     | Inl e \<Rightarrow> 0 < k \<and> (\<exists>t. fst (dispatch_event cfg z fault lost (did (ev_id (outbox_batch s ! (k - 1)))) now (outbox_batch s ! (k - 1)) t) = Inl e)"
    using for_each_prefix [of "outbox_batch s" "\<lambda>ev. dispatch_event cfg z fault lost (did (ev_id ev)) now ev" "claim_events now s"]
    unfolding dispatch_all_def by blast
  have "k = length (outbox_batch s)" if "\<And>i. \<not> lost i"
  proof (cases "fst (dispatch_all cfg z fault lost did now (outbox_batch s) (claim_events now s))")
    case (Inl e)
    with k(3) obtain t where "fst (dispatch_event cfg z fault lost (did (ev_id (outbox_batch s ! (k - 1)))) now (outbox_batch s ! (k - 1)) t) = Inl e"
      by auto
    with dispatch_event_returns [where lost = lost and s = t and ev = "outbox_batch s ! (k - 1)" and cfg = cfg and z = z and fault = fault
        and did = "did (ev_id (outbox_batch s ! (k - 1)))" and now = now] that show ?thesis by simp
  qed (use k(3) in simp)
  from k(1) k(2) [folded tick_eq(1)] this show thesis by (rule that)
qed

definition event_keys :: "store \<Rightarrow> (string \<times> string \<times> api_mode) list" where
  "event_keys s = map (\<lambda>e. (ev_id e, ev_merchant_id e, ev_mode e)) (events s)"

text \<open>One step of the fold: identities and endpoints stay, deliveries and jobs only grow.\<close>

definition grows :: "store \<Rightarrow> store \<Rightarrow> bool" where
  "grows s s' \<longleftrightarrow> event_keys s' = event_keys s \<and> endpoints s' = endpoints s \<and>
     set (deliveries s) \<subseteq> set (deliveries s') \<and> set (delivery_queue s) \<subseteq> set (delivery_queue s')"

lemma grows_trans: "grows s t \<Longrightarrow> grows t u \<Longrightarrow> grows s u"
  by (auto simp: grows_def)

lemma event_keys_update:
  assumes "\<And>e. (ev_id (f e), ev_merchant_id (f e), ev_mode (f e)) = (ev_id e, ev_merchant_id e, ev_mode e)"
  shows "event_keys (add_deliveries D Q (set_event i f s)) = event_keys s"
  using assms by (simp add: event_keys_def update_where_def comp_def)

lemma event_keys_claim [simp]: "event_keys (claim_events now s) = event_keys s"
  by (simp add: event_keys_def claim_events_def update_where_def comp_def)

lemma dispatch_grows: "grows s (snd (dispatch_event cfg z fault lost did now ev s))"
proof -
  obtain r s' where run: "dispatch_event cfg z fault lost did now ev s = (r, s')" by fastforce
  then show ?thesis
  proof (cases rule: dispatch_event_effect)
    case (failed f name m n)
    with run show ?thesis by (simp add: grows_def event_keys_update failure_of_def)
  next
    case (sent k p t)
    with run show ?thesis by (simp add: grows_def event_keys_update)
  next
    case (aborted f name m n)
    with run show ?thesis by (simp add: grows_def event_keys_update keeps_claim_def)
  qed
qed

lemma fold_grows: "grows s (fold (dispatched cfg z fault lost did now) C s)"
proof (induction C arbitrary: s)
  case Nil
  then show ?case by (simp add: grows_def)
next
  case (Cons ev C)
  show ?case using grows_trans [OF dispatch_grows Cons] by simp
qed

section \<open>Every event is accounted for\<close>

text \<open>
  An event is covered when each endpoint that listens to it has a delivery row and a queued job for it; it
  is accounted for when it is covered, waiting for the next tick, or marked with an error.
\<close>

definition delivered_to :: "store \<Rightarrow> event_row \<Rightarrow> endpoint_row \<Rightarrow> bool" where
  "delivered_to s e ep \<longleftrightarrow> (\<exists>d\<in>set (deliveries s). dl_event_id d = ev_id e \<and> dl_endpoint_id d = ep_id ep \<and>
     (\<exists>(n, j)\<in>set (delivery_queue s). wj_delivery_id j = dl_delivery_id d \<and> wj_event_id j = ev_id e \<and>
        wj_endpoint_id j = ep_id ep \<and> wj_url j = ep_url ep))"

definition covered :: "zod \<Rightarrow> store \<Rightarrow> event_row \<Rightarrow> bool" where
  "covered z s e \<longleftrightarrow> (\<exists>t m c b. ev_payload e = Envelope t m c b \<and> event_data_schema z t b \<and>
     (\<forall>ep\<in>set (endpoints s). listens (ev_merchant_id e) (ev_mode e) (dot_to_underscore t) ep \<longrightarrow> delivered_to s e ep))"

definition accounted :: "zod \<Rightarrow> store \<Rightarrow> event_row \<Rightarrow> bool" where
  "accounted z s e \<longleftrightarrow> ev_dispatched_at e = None \<or> ev_dispatch_error e \<noteq> None \<or> covered z s e"

lemma accounted_mono: "accounted z s e \<Longrightarrow> grows s s' \<Longrightarrow> accounted z s' e"
  unfolding accounted_def covered_def delivered_to_def grows_def by (auto 0 5)

lemma new_delivery_delivered:
  assumes "ep \<in> set (listeners ev name s)" and "ev_id e = ev_id ev"
  shows "delivered_to (add_deliveries (new_deliveries did now ev name (listeners ev name s))
     (new_jobs did ev (listeners ev name s)) t) e ep"
proof -
  let ?d = "new_delivery (did (ep_id ep)) now ev name ep" and ?j = "delivery_job (did (ep_id ep)) ep (ev_id ev)"
  have "?d \<in> set (new_deliveries did now ev name (listeners ev name s))" "(0, ?j) \<in> set (new_jobs did ev (listeners ev name s))"
    using assms(1) by (simp_all add: new_deliveries_def new_jobs_def)
  then show ?thesis
    unfolding delivered_to_def using assms(2)
    by (intro bexI [of _ ?d]) (auto simp: new_delivery_def delivery_job_def intro!: bexI [of _ "(0, ?j)"])
qed

lemma dispatch_accounts:
  assumes "ev_id e = ev_id ev" and "ev_merchant_id e = ev_merchant_id ev" and "ev_mode e = ev_mode ev"
    and run: "dispatch_event cfg z fault lost did now ev s = (Inr k0, s')" and "e \<in> set (events s')"
  shows "accounted z s' e"
proof -
  from run show "accounted z s' e"
  proof (cases rule: dispatch_event_effect)
    case (failed f name m n)
    with assms(1,5) obtain q where "e = f q"
      by (auto simp: set_update_where failure_of_def split: if_splits)
    with failed(2) show ?thesis by (simp add: accounted_def failure_of_def)
  next
    case (sent k p t)
    let ?name = "dot_to_underscore t"
    from sent(3) assms(1,5) obtain q where "e = patch_event (Store_Envelope p) q"
      by (auto simp: set_update_where simp del: patch_event.simps split: if_splits)
    then have p: "ev_payload e = p" by simp
    from parse_envelope_Inr [OF sent(2)] obtain m c b where b: "p = Envelope t m c b" "event_data_schema z t b" by blast
    have "delivered_to s' e ep" if "ep \<in> set (endpoints s')"
      "listens (ev_merchant_id e) (ev_mode e) ?name ep" for ep
    proof -
      have "ep \<in> set (listeners ev ?name s)" using that assms(2,3) sent(3) by (simp add: listeners_def)
      from new_delivery_delivered [OF this assms(1)] show ?thesis by (simp add: sent(3))
    qed
    with p b show ?thesis unfolding accounted_def covered_def by auto
  qed simp
qed

lemma dispatch_others:
  assumes "e \<in> set (events (snd (dispatch_event cfg z fault lost did now ev s)))" and "ev_id e \<noteq> ev_id ev"
  shows "e \<in> set (events s)"
proof -
  obtain r s' where run: "dispatch_event cfg z fault lost did now ev s = (r, s')" by fastforce
  from run have "e \<in> set (events s') \<longrightarrow> e \<in> set (events s)"
  proof (cases rule: dispatch_event_effect)
    case (failed f name m n)
    with assms(2) show ?thesis by (auto simp: set_update_where failure_of_def split: if_splits)
  next
    case (sent k p t)
    with assms(2) show ?thesis by (auto simp: set_update_where simp del: patch_event.simps split: if_splits)
  next
    case (aborted f name m n)
    with assms(2) show ?thesis by (auto simp: set_update_where keeps_claim_def split: if_splits)
  qed
  with assms(1) run show ?thesis by simp
qed

text \<open>
  The event \<open>e\<close> was lost to an aborted batch: the update recording the failure of an event at or before it threw.
\<close>

definition batch_lost :: "(string \<Rightarrow> bool) \<Rightarrow> event_row list \<Rightarrow> event_row \<Rightarrow> bool" where
  "batch_lost lost C e \<longleftrightarrow> (\<exists>i j. i \<le> j \<and> j < length C \<and> lost (ev_id (C ! i)) \<and> ev_id (C ! j) = ev_id e)"

lemma batch_lost_Cons:
  "lost (ev_id ev) \<Longrightarrow> ev_id e \<in> ev_id ` set (ev # C) \<Longrightarrow> batch_lost lost (ev # C) e"
  "batch_lost lost C e \<Longrightarrow> batch_lost lost (ev # C) e"
proof -
  assume l: "lost (ev_id ev)" and "ev_id e \<in> ev_id ` set (ev # C)"
  then obtain j where "j < length (ev # C)" "ev_id ((ev # C) ! j) = ev_id e"
    by (metis (no_types, lifting) image_iff in_set_conv_nth)
  with l show "batch_lost lost (ev # C) e" unfolding batch_lost_def by (intro exI [of _ 0] exI [of _ j]) simp
next
  assume "batch_lost lost C e"
  then obtain i j where "i \<le> j" "j < length C" "lost (ev_id (C ! i))" "ev_id (C ! j) = ev_id e"
    by (auto simp: batch_lost_def)
  then show "batch_lost lost (ev # C) e"
    unfolding batch_lost_def by (intro exI [of _ "Suc i"] exI [of _ "Suc j"]) simp
qed

lemma all_grows: "grows s (snd (dispatch_all cfg z fault lost did now C s))"
proof -
  obtain k where "snd (dispatch_all cfg z fault lost did now C s) = fold (dispatched cfg z fault lost did now) (take k C) s"
    using for_each_prefix [of C "\<lambda>ev. dispatch_event cfg z fault lost (did (ev_id ev)) now ev" s]
    unfolding dispatch_all_def by blast
  then show ?thesis using fold_grows by simp
qed

lemma all_accounts:
  assumes "distinct (map fst (event_keys s))"
    and "\<forall>ev\<in>set C. (ev_id ev, ev_merchant_id ev, ev_mode ev) \<in> set (event_keys s)"
    and "dispatch_all cfg z fault lost did now C s = (r, s')" and "e \<in> set (events s')"
  shows "(ev_id e \<in> ev_id ` set C \<longrightarrow> accounted z s' e \<or> (\<exists>x. r = Inl x) \<and> batch_lost lost C e) \<and>
    (ev_id e \<notin> ev_id ` set C \<longrightarrow> e \<in> set (events s))"
  using assms
proof (induction C arbitrary: s r)
  case Nil
  then show ?case by (simp add: dispatch_all_def)
next
  case (Cons ev C)
  obtain q s1 where run: "dispatch_event cfg z fault lost (did (ev_id ev)) now ev s = (q, s1)" by fastforce
  have keys: "event_keys s1 = event_keys s" using dispatch_grows [of s cfg z fault lost "did (ev_id ev)" now ev] run by (simp add: grows_def)
  have others: "e \<in> set (events s1) \<Longrightarrow> ev_id e \<noteq> ev_id ev \<Longrightarrow> e \<in> set (events s)"
    using dispatch_others [of e cfg z fault lost "did (ev_id ev)" now ev s] run by simp
  show ?case
  proof (cases q)
    case (Inl x)
    with run Cons.prems(3) have "r = Inl x" "s' = s1" by (simp_all add: dispatch_all_def seq_def)
    moreover have "lost (ev_id ev)"
      using dispatch_event_returns [where cfg = cfg and z = z and fault = fault and lost = lost and did = "did (ev_id ev)" and now = now
          and ev = ev and s = s] run Inl by simp
    ultimately show ?thesis using others Cons.prems(4) batch_lost_Cons(1) by auto
  next
    case (Inr k)
    obtain r1 where rest: "dispatch_all cfg z fault lost did now C s1 = (r1, s')" and r: "(\<exists>x. r = Inl x) \<longleftrightarrow> (\<exists>x. r1 = Inl x)"
      using run Inr Cons.prems(3) by (auto simp: dispatch_all_def seq_def split: prod.splits sum.splits)
    have IH: "(ev_id e \<in> ev_id ` set C \<longrightarrow> accounted z s' e \<or> (\<exists>x. r1 = Inl x) \<and> batch_lost lost C e) \<and>
        (ev_id e \<notin> ev_id ` set C \<longrightarrow> e \<in> set (events s1))"
      using Cons.prems(1,2,4) rest by (intro Cons.IH) (simp_all add: keys)
    have "accounted z s' e" if "ev_id e \<notin> ev_id ` set C" "ev_id e = ev_id ev"
    proof -
      from IH that(1) have e1: "e \<in> set (events s1)" by blast
      then have "(ev_id e, ev_merchant_id e, ev_mode e) \<in> set (event_keys s)"
        unfolding keys [symmetric] by (auto simp: event_keys_def)
      moreover have "(ev_id ev, ev_merchant_id ev, ev_mode ev) \<in> set (event_keys s)" using Cons.prems(2) by simp
      moreover have "inj_on fst (set (event_keys s))" using Cons.prems(1) by (simp add: distinct_map)
      ultimately have "(ev_id e, ev_merchant_id e, ev_mode e) = (ev_id ev, ev_merchant_id ev, ev_mode ev)"
        using that(2) by (intro inj_onD [of fst]) simp_all
      then have "ev_merchant_id e = ev_merchant_id ev" "ev_mode e = ev_mode ev" by simp_all
      from dispatch_accounts [OF that(2) this run [unfolded Inr] e1] show ?thesis
        using all_grows [of s1 cfg z fault lost did now C] rest accounted_mono by simp
    qed
    moreover have "batch_lost lost C e \<Longrightarrow> batch_lost lost (ev # C) e" by (rule batch_lost_Cons(2))
    ultimately show ?thesis using IH others r
      by (cases "ev_id e = ev_id ev"; cases "ev_id e \<in> ev_id ` set C") (simp_all, blast+)
  qed
qed

section \<open>Progress\<close>

definition stamps :: "store \<Rightarrow> (string \<times> int option) list" where
  "stamps s = map (\<lambda>e. (ev_id e, ev_dispatched_at e)) (events s)"

lemma pending_stamps: "length (pending_events s) = length (filter (\<lambda>(i, d). d = None) (stamps s))"
  by (simp add: pending_events_def stamps_def filter_map comp_def)

lemma stamps_update:
  assumes "\<And>e. (ev_id (f e), ev_dispatched_at (f e)) = (ev_id e, ev_dispatched_at e)"
  shows "stamps (add_deliveries D Q (set_event i f s)) = stamps s"
  using assms by (simp add: stamps_def update_where_def comp_def)

lemma dispatch_stamps: "stamps (snd (dispatch_event cfg z (\<lambda>_. None) lost did now ev s)) = stamps s"
proof -
  obtain r s' where run: "dispatch_event cfg z (\<lambda>_. None) lost did now ev s = (r, s')" by fastforce
  then show ?thesis
  proof (cases rule: dispatch_event_effect)
    case (failed f name m n)
    with run show ?thesis by (simp add: stamps_update failure_of_def)
  next
    case (sent k p t)
    with run show ?thesis by (simp add: stamps_update)
  next
    case (aborted f name m n)
    with run show ?thesis by (simp add: stamps_update keeps_claim_def)
  qed
qed

lemma fold_stamps: "stamps (fold (dispatched cfg z (\<lambda>_. None) lost did now) C s) = stamps s"
  by (induction C arbitrary: s) (simp_all add: dispatch_stamps)

lemma claim_progress:
  assumes "distinct (map ev_id (events s))"
  shows "length (pending_events (claim_events now s)) = length (pending_events s) - OUTBOX_BATCH"
proof -
  let ?ids = "map ev_id (outbox_batch s)"
  have "filter (\<lambda>e. ev_dispatched_at e = None) (update_where (\<lambda>e. ev_id e \<in> I) (patch_event (Claim_Event now)) t) =
      filter (\<lambda>e. ev_id e \<notin> I) (filter (\<lambda>e. ev_dispatched_at e = None) t)" for I t
    by (induction t) auto
  then have "pending_events (claim_events now s) = filter (\<lambda>e. ev_id e \<notin> set ?ids) (pending_events s)"
    by (simp add: pending_events_def claim_events_def del: filter_filter)
  moreover have d: "distinct (map ev_id (pending_events s))" unfolding pending_events_def using assms by (rule distinct_map_filter)
  moreover have "distinct ?ids"
    unfolding outbox_batch_def take_map [symmetric] using d by (intro distinct_take) (simp add: distinct_map inj_on_def)
  moreover have "set (outbox_batch s) \<subseteq> set (pending_events s)"
    unfolding outbox_batch_def using set_take_subset by fastforce
  ultimately have "length (pending_events (claim_events now s)) = length (pending_events s) - length (outbox_batch s)"
    using length_filter_not_in [of ev_id "pending_events s" ?ids] by auto
  then show ?thesis by (simp add: outbox_batch_def)
qed

interpretation outbox_drain: batch_drain "\<lambda>s. snd (tickNow cfg z (\<lambda>_. None) (\<lambda>_. False) did now s)"
    "\<lambda>s. distinct (map ev_id (events s))" "\<lambda>s. length (pending_events s)" OUTBOX_BATCH for cfg z did now
proof
  fix s :: store
  assume d: "distinct (map ev_id (events s))"
  let ?s' = "snd (tickNow cfg z (\<lambda>_. None) (\<lambda>_. False) did now s)"
  have s': "?s' = fold (dispatched cfg z (\<lambda>_. None) (\<lambda>_. False) did now) (outbox_batch s) (claim_events now s)"
    by (rule tick_prefix [of s cfg z "\<lambda>_. None" "\<lambda>_. False" did now]) simp
  then have st: "stamps ?s' = stamps (claim_events now s)" by (simp add: fold_stamps)
  then have "map fst (stamps ?s') = map fst (stamps (claim_events now s))" by simp
  then have "map ev_id (events ?s') = map ev_id (events (claim_events now s))"
    by (simp add: stamps_def comp_def)
  then show "distinct (map ev_id (events ?s'))" using d by (simp add: claim_events_def)
  have "length (pending_events ?s') = length (pending_events (claim_events now s))" using st by (simp add: pending_stamps)
  then show "length (pending_events ?s') = length (pending_events s) - OUTBOX_BATCH" using claim_progress [OF d] by simp
qed

lemma in_outbox_batch: "ev \<in> set (outbox_batch s) \<Longrightarrow> ev \<in> set (pending_events s)"
  unfolding outbox_batch_def using set_take_subset by fastforce

section \<open>Where deliveries go\<close>

text \<open>The contract of a delivery row and of a queued job, for the event and endpoint it belongs to.\<close>

definition addressed :: "endpoint_row list \<Rightarrow> event_row set \<Rightarrow> delivery_row \<Rightarrow> bool" where
  "addressed eps evs d \<longleftrightarrow> (\<exists>ev\<in>evs. \<exists>ep\<in>set eps. dl_event_id d = ev_id ev \<and> dl_merchant_id d = ev_merchant_id ev \<and>
     dl_endpoint_id d = ep_id ep \<and> listens (ev_merchant_id ev) (ev_mode ev) (dl_event_name d) ep)"

definition job_addressed :: "endpoint_row list \<Rightarrow> event_row set \<Rightarrow> webhook_delivery_job \<Rightarrow> bool" where
  "job_addressed eps evs j \<longleftrightarrow> (\<exists>ev\<in>evs. \<exists>ep\<in>set eps. \<exists>name. wj_event_id j = ev_id ev \<and> wj_endpoint_id j = ep_id ep \<and>
     wj_url j = ep_url ep \<and> listens (ev_merchant_id ev) (ev_mode ev) name ep)"

definition only_addressed :: "endpoint_row list \<Rightarrow> event_row set \<Rightarrow> store \<Rightarrow> store \<Rightarrow> bool" where
  "only_addressed eps evs s s' \<longleftrightarrow> (\<exists>D Q. deliveries s' = deliveries s @ D \<and> delivery_queue s' = delivery_queue s @ Q \<and>
     (\<forall>d\<in>set D. addressed eps evs d) \<and> (\<forall>(n, j)\<in>set Q. job_addressed eps evs j))"

lemma only_addressed_refl: "only_addressed eps evs s s"
  by (simp add: only_addressed_def)

lemma only_addressed_trans:
  "only_addressed eps evs s t \<Longrightarrow> only_addressed eps evs t u \<Longrightarrow> only_addressed eps evs s u"
  unfolding only_addressed_def by (elim exE conjE) (auto intro!: exI)

lemma batch_addressed:
  assumes "ev \<in> evs" and "set D \<subseteq> set (new_deliveries did now ev name (listeners ev name s))"
    and "set Q \<subseteq> set (new_jobs did ev (listeners ev name s))" and "deliveries t = deliveries s" and "delivery_queue t = delivery_queue s"
  shows "only_addressed (endpoints s) evs s (add_deliveries D Q t)"
proof -
  have "addressed (endpoints s) evs d" if "d \<in> set D" for d
    using that assms(1,2)
    by (auto simp: addressed_def new_deliveries_def new_delivery_def listeners_def dest!: subsetD intro!: bexI [of _ ev])
  moreover have "job_addressed (endpoints s) evs j" if "(n, j) \<in> set Q" for n j
  proof -
    from that assms(3) obtain ep where "ep \<in> set (listeners ev name s)" "j = delivery_job (did (ep_id ep)) ep (ev_id ev)"
      by (auto simp: new_jobs_def)
    with assms(1) show ?thesis unfolding job_addressed_def listeners_def delivery_job_def by auto
  qed
  ultimately show ?thesis using assms(4,5) unfolding only_addressed_def by auto
qed

lemma dispatch_addressed:
  assumes "ev \<in> evs"
  shows "only_addressed (endpoints s) evs s (snd (dispatch_event cfg z fault lost did now ev s))"
proof -
  obtain r s' where run: "dispatch_event cfg z fault lost did now ev s = (r, s')" by fastforce
  then show ?thesis
  proof (cases rule: dispatch_event_effect)
    case (failed f name m n)
    have "only_addressed (endpoints s) evs s s'"
      unfolding failed(3) by (rule batch_addressed [OF assms]) (rule set_take_subset set_event_simps)+
    with run show ?thesis by simp
  next
    case (sent k p t)
    have "only_addressed (endpoints s) evs s s'"
      unfolding sent(3) by (rule batch_addressed [OF assms]) (rule subset_refl set_event_simps)+
    with run show ?thesis by simp
  next
    case (aborted f name m n)
    have "only_addressed (endpoints s) evs s s'"
      unfolding aborted(4) by (rule batch_addressed [OF assms]) (rule set_take_subset set_event_simps)+
    with run show ?thesis by simp
  qed
qed

lemma fold_addressed:
  "set C \<subseteq> evs \<Longrightarrow> only_addressed (endpoints s) evs s (fold (dispatched cfg z fault lost did now) C s)"
proof (induction C arbitrary: s)
  case Nil
  then show ?case by (simp add: only_addressed_refl)
next
  case (Cons ev C)
  let ?s1 = "dispatched cfg z fault lost did now ev s"
  have "endpoints ?s1 = endpoints s" using dispatch_grows by (auto simp: grows_def)
  with Cons.IH [of ?s1] Cons.prems have "only_addressed (endpoints s) evs ?s1 (fold (dispatched cfg z fault lost did now) C ?s1)" by simp
  with dispatch_addressed Cons.prems show ?case using only_addressed_trans by fastforce
qed

section \<open>An event whose reference resolves\<close>

text \<open>Data that is right for some event is right for the event of its reference.\<close>

lemma hydrated_schema:
  assumes "hydrate cfg s ref = Inr body" and "event_data_schema z t body"
  shows "event_data_schema z (ref_kind ref) body"
  using assms by (cases ref) (auto simp: both_def split: sum.splits)

lemma try_dispatch_built:
  assumes "buildEnvelope cfg s ev = Inr p" and "parse_envelope z ev p = Inr t"
    and "fault (ev_id ev) \<notin> {Some 0, Some 1, Some 2}"
  shows "try_dispatch cfg z fault did now ev s =
    seq (create_each z fault did now ev (dot_to_underscore t) 3 (listeners ev (dot_to_underscore t) s))
      (\<lambda>_. ret (length (listeners ev (dot_to_underscore t) s))) (set_event (ev_id ev) (patch_event (Store_Envelope p)) s)"
  using assms
  by (simp add: try_dispatch_def op_ok_def update_event_eq createDeliveries_def Let_def listeners_def
      del: buildEnvelope.simps patch_event.simps)

lemma create_each_ok:
  "fault (ev_id ev) = None \<Longrightarrow> \<forall>ep\<in>set eps. delivery_job_ok z (delivery_job (did (ep_id ep)) ep (ev_id ev)) \<Longrightarrow>
   create_each z fault did now ev name k eps s =
     (Inr (), add_deliveries (new_deliveries did now ev name eps) (new_jobs did ev eps) s)"
  by (induction eps arbitrary: k s) (simp_all add: op_ok_def new_deliveries_def new_jobs_def add_deliveries_def)

section \<open>Properties\<close>

text \<open>
  Tenant isolation of webhooks: every delivery a tick creates, faults or not, belongs to a pending event
  and goes to an active endpoint of that event's merchant, of its mode, that subscribed to its name; and so
  does every job it queues, with the URL of that endpoint.
\<close>

theorem deliveries_stay_with_tenant:
  "\<exists>D Q. deliveries (snd (tickNow cfg z fault lost did now s)) = deliveries s @ D \<and>
     delivery_queue (snd (tickNow cfg z fault lost did now s)) = delivery_queue s @ Q \<and>
     (\<forall>d\<in>set D. addressed (endpoints s) (set (pending_events s)) d) \<and>
     (\<forall>(n, j)\<in>set Q. job_addressed (endpoints s) (set (pending_events s)) j)"
proof -
  obtain k where tick: "snd (tickNow cfg z fault lost did now s) =
     fold (dispatched cfg z fault lost did now) (take k (outbox_batch s)) (claim_events now s)"
    by (rule tick_prefix)
  have "set (take k (outbox_batch s)) \<subseteq> set (pending_events s)"
    using in_outbox_batch set_take_subset by fastforce
  from fold_addressed [OF this, of "claim_events now s" cfg z fault lost did now]
  show ?thesis unfolding tick only_addressed_def by (simp add: claim_events_def)
qed

text \<open>
  C33. No event is lost without a trace, except by an aborted tick: after a tick, whatever fails in it, every event that
  was pending is still pending, or carries an error, or has a delivery row and a queued job for each endpoint
  that listens to it, in an envelope that passes the schema; or the tick threw, because the update that records
  the failure of this event or of an earlier one of the batch failed. In a tick that returns all are accounted for.
\<close>

theorem pending_events_accounted:
  assumes "distinct (map ev_id (events s))"
    and "e \<in> set (events (snd (tickNow cfg z fault lost did now s)))" and "ev_id e \<in> ev_id ` set (pending_events s)"
  shows "accounted z (snd (tickNow cfg z fault lost did now s)) e \<or>
    (\<exists>x. fst (tickNow cfg z fault lost did now s) = Inl x) \<and>
    (\<exists>i j. i \<le> j \<and> j < length (outbox_batch s) \<and> ev_id (outbox_batch s ! j) = ev_id e \<and> lost (ev_id (outbox_batch s ! i)))"
proof -
  let ?s1 = "claim_events now s" and ?C = "outbox_batch s"
  obtain r s' where run: "dispatch_all cfg z fault lost did now ?C ?s1 = (r, s')" by fastforce
  then have tick: "snd (tickNow cfg z fault lost did now s) = s'"
    "(\<exists>x. fst (tickNow cfg z fault lost did now s) = Inl x) \<longleftrightarrow> (\<exists>x. r = Inl x)" by (simp_all add: tick_eq)
  have "distinct (map fst (event_keys ?s1))" using assms(1) by (simp add: event_keys_def claim_events_def comp_def)
  moreover have "\<forall>ev\<in>set ?C. (ev_id ev, ev_merchant_id ev, ev_mode ev) \<in> set (event_keys ?s1)"
    using in_outbox_batch unfolding event_keys_claim by (fastforce simp: event_keys_def pending_events_def)
  ultimately have acc: "(ev_id e \<in> ev_id ` set ?C \<longrightarrow> accounted z s' e \<or> (\<exists>x. r = Inl x) \<and> batch_lost lost ?C e) \<and>
    (ev_id e \<notin> ev_id ` set ?C \<longrightarrow> e \<in> set (events ?s1))"
    using assms(2) tick(1) by (intro all_accounts [OF _ _ run]) simp_all
  have "ev_dispatched_at e = None" if "ev_id e \<notin> ev_id ` set ?C"
  proof -
    from acc that have "e \<in> set (events s)"
      by (auto simp: claim_events_def set_update_where simp del: patch_event.simps split: if_splits)
    moreover from assms(3) obtain q where "q \<in> set (events s)" "ev_id q = ev_id e" "ev_dispatched_at q = None"
      by (auto simp: pending_events_def)
    ultimately show ?thesis using assms(1) by (auto simp: distinct_map inj_on_def)
  qed
  with acc show ?thesis unfolding tick batch_lost_def accounted_def by blast
qed

text \<open>
  C34. The outbox drains: without faults, as many ticks as there are batches of a hundred leave no event
  pending.
\<close>

theorem outbox_drains:
  assumes "distinct (map ev_id (events s))" and "length (pending_events s) \<le> k * OUTBOX_BATCH"
  shows "pending_events (((\<lambda>s. snd (tickNow cfg z (\<lambda>_. None) (\<lambda>_. False) did now s)) ^^ k) s) = []"
  using outbox_drain.drained [OF assms] by simp

text \<open>
  C35. An event whose reference resolves to valid data is sent under its own wire type. Without faults, dispatching it
  stores the envelope with the wire type of the reference, the event's mode and time and the data that the reference
  names, and creates for exactly the active endpoints of the merchant and mode that subscribed to that type one
  pending delivery, at its first attempt, and one job without delay that carries the ids of both and the URL of the endpoint.
\<close>

theorem resolved_event_dispatched:
  assumes "ev_payload ev = Ref_Payload ref" "outbox_ref_ok ref" "hydrate cfg s ref = Inr body"
    and "event_data_schema z t body" "id_ok (ev_id ev)" "fault (ev_id ev) = None"
    and "\<forall>ep\<in>set (endpoints s). delivery_job_ok z (delivery_job (did (ep_id ep)) ep (ev_id ev))"
  shows "let name = dot_to_underscore (ref_kind ref);
       eps = filter (\<lambda>ep. ep_merchant_id ep = ev_merchant_id ev \<and> ep_mode ep = ev_mode ev \<and> ep_status ep = Ep_Active \<and>
         name \<in> set (ep_events ep)) (endpoints s);
       (r, s') = dispatch_event cfg z fault lost did now ev s
     in r = Inr (length eps) \<and>
       events s' = map (\<lambda>e. if ev_id e = ev_id ev then e\<lparr>ev_dispatch_error := None,
         ev_payload := Envelope (ref_kind ref) (ev_mode ev) (ev_created_at ev) body\<rparr> else e) (events s) \<and>
       (\<exists>ds. deliveries s' = deliveries s @ ds \<and>
         map (\<lambda>d. (dl_id d, dl_endpoint_id d, dl_event_id d, dl_merchant_id d, dl_event_name d, dl_status d, dl_attempt d)) ds =
         map (\<lambda>ep. (did (ep_id ep), ep_id ep, ev_id ev, ev_merchant_id ev, name, Dl_Pending, 1)) eps) \<and>
       delivery_queue s' = delivery_queue s @ map (\<lambda>ep. (0, \<lparr>wj_delivery_id = did (ep_id ep), wj_endpoint_id = ep_id ep,
         wj_url = ep_url ep, wj_signing_secret_hash = ep_signing_secret_hash ep, wj_event_id = ev_id ev\<rparr>)) eps"
proof -
  let ?t = "ref_kind ref" and ?p = "Envelope (ref_kind ref) (ev_mode ev) (ev_created_at ev) body"
  let ?name = "dot_to_underscore ?t"
  let ?eps = "filter (\<lambda>ep. ep_merchant_id ep = ev_merchant_id ev \<and> ep_mode ep = ev_mode ev \<and> ep_status ep = Ep_Active \<and>
      ?name \<in> set (ep_events ep)) (endpoints s)"
  have build: "buildEnvelope cfg s ev = Inr ?p" using assms(1-3) by (simp add: both_def)
  have parse: "parse_envelope z ev ?p = Inr ?t"
    using hydrated_schema [OF assms(3,4)] assms(5) by (simp add: parse_envelope_def)
  have eps: "listeners ev ?name s = ?eps" by (simp add: listeners_def listens_def [abs_def])
  have "create_each z fault did now ev ?name 3 ?eps (set_event (ev_id ev) (patch_event (Store_Envelope ?p)) s) =
      (Inr (), add_deliveries (new_deliveries did now ev ?name ?eps) (new_jobs did ev ?eps)
         (set_event (ev_id ev) (patch_event (Store_Envelope ?p)) s))"
    using assms(6,7) by (intro create_each_ok) simp_all
  with try_dispatch_built [OF build parse, of fault did now] assms(6)
  have run: "dispatch_event cfg z fault lost did now ev s = (Inr (length ?eps),
      add_deliveries (new_deliveries did now ev ?name ?eps) (new_jobs did ev ?eps)
        (set_event (ev_id ev) (patch_event (Store_Envelope ?p)) s))"
    by (simp add: dispatch_event_def catch_def eps seq_def del: patch_event.simps)
  show ?thesis unfolding Let_def run prod.case
    by (intro conjI exI [of _ "new_deliveries did now ev ?name ?eps"])
      (simp_all add: new_deliveries_def new_jobs_def new_delivery_def delivery_job_def update_where_def del: filter_filter)
qed

section \<open>Retries\<close>

definition sample_endpoint :: "string \<Rightarrow> endpoint_row" where
  [sample_defs]: "sample_endpoint i = \<lparr>ep_id = i, ep_merchant_id = ''m1'', ep_mode = Test, ep_url = ''https://'' @ i,
     ep_events = [''payment_failed''], ep_status = Ep_Active, ep_signing_secret_hash = replicate 64 (CHR ''a''),
     ep_signing_secret_ciphertext = Some ''c'', ep_signing_secret_prefix = ''whsec_'', ep_description = None,
     ep_last_delivered_at = None, ep_created_at = 0\<rparr>"

definition failed_session_event :: event_row where
  [sample_defs]: "failed_session_event =
     ref_event ''evt1'' 0 ''m1'' ''payment_failed'' Test (Ref_Payment_Failed ''ps1'' None)"

definition outbox_store :: store where
  [sample_defs]: "outbox_store = sample_store\<lparr>events := [failed_session_event],
     endpoints := [sample_endpoint ''ep1'', sample_endpoint ''ep2'']\<rparr>"

lemma sample_session_body:
  "hydrate sample_config s (Ref_Payment_Failed ''ps1'' None) =
     (case find_row ps_id ''ps1'' (sessions s) of None \<Rightarrow> Inl p2025
      | Some r \<Rightarrow> Inr (Session_Failed_Body (serialise_session_out sample_config s r) ''failed''))"
  by (simp add: both_def row_of_def split: option.split)

lemma sample_session_schema:
  assumes "merchants s = merchants sample_store"
  shows "session_schema lenient_zod (serialise_session_out sample_config s sample_session)"
proof -
  have "onchain_id_text ''m1'' s = Some ''7''"
    using assms by (simp add: onchain_id_text_def sample_store_def sample_merchant_def show_nat.simps)
  then show ?thesis
    by (simp add: session_schema_def serialise_session_out_def serialise_session_def sample_session_def lenient_zod_def
        id_ok_def is_id_char_def Let_def token_amount_ok_def is_digit_def metadata_ok_def)
qed

lemma tick_single:
  assumes "events s = [e]" and "ev_dispatched_at e = None"
  shows "snd (tickNow cfg z fault lost did now s) =
    dispatched cfg z fault lost did now e (s\<lparr>events := [patch_event (Claim_Event now) e]\<rparr>)"
  using assms by (simp add: tickNow_def outbox_batch_def pending_events_def OUTBOX_BATCH_def seq_def
      split: prod.split sum.split)

lemma sample_job_ok: "delivery_job_ok lenient_zod (delivery_job did (sample_endpoint i) e)"
  by (simp add: delivery_job_ok_def delivery_job_def lenient_zod_def sample_endpoint_def is_hex_char_def
      to_lower_def ascii_lower_def list_all_iff Let_def)

abbreviation sample_body :: wire_body where
  "sample_body \<equiv> Session_Failed_Body (serialise_session_out sample_config sample_store sample_session) ''failed''"

definition retried_event :: event_row where
  "retried_event = failed_session_event\<lparr>ev_payload := Envelope ''payment.failed'' Test 0 sample_body,
     ev_dispatch_error := Some ''transient''\<rparr>"

definition retried_store :: store where
  "retried_store = outbox_store\<lparr>events := [retried_event],
     deliveries := [new_delivery ''d1ep1'' 10 failed_session_event ''payment_failed'' (sample_endpoint ''ep1'')],
     delivery_queue := [(0, delivery_job ''d1ep1'' (sample_endpoint ''ep1'') ''evt1'')]\<rparr>"

lemma sample_listeners:
  "ev_merchant_id e = ''m1'' \<Longrightarrow> ev_mode e = Test \<Longrightarrow> endpoints s = [sample_endpoint ''ep1'', sample_endpoint ''ep2''] \<Longrightarrow>
   listeners e ''payment_failed'' s = [sample_endpoint ''ep1'', sample_endpoint ''ep2'']"
  by (simp add: listeners_def listens_def sample_endpoint_def)

lemma sample_parse:
  "ev_id e = ''evt1'' \<Longrightarrow> parse_envelope lenient_zod e (Envelope ''payment.failed'' Test 0 sample_body) = Inr ''payment.failed''"
  using sample_session_schema [of sample_store]
  by (simp add: parse_envelope_def id_ok_def is_id_char_def Let_def)

lemma sample_event_fields [simp]:
  "ev_id failed_session_event = ''evt1''" "ev_merchant_id failed_session_event = ''m1''" "ev_mode failed_session_event = Test"
  "ev_dispatched_at failed_session_event = None" "ev_created_at failed_session_event = 0"
  "ev_payload failed_session_event = Ref_Payload (Ref_Payment_Failed ''ps1'' None)"
  by (simp_all add: failed_session_event_def ref_event_def)

lemma sample_endpoint_id [simp]: "ep_id (sample_endpoint i) = i"
  by (simp add: sample_endpoint_def)

lemma retry_first:
  "snd (tickNow sample_config lenient_zod (\<lambda>_. Some 5) (\<lambda>_. False) (\<lambda>e i. ''d1'' @ i) 10 outbox_store) = retried_store"
proof -
  let ?s = "outbox_store\<lparr>events := [patch_event (Claim_Event 10) failed_session_event]\<rparr>"
  have build: "buildEnvelope sample_config ?s failed_session_event = Inr (Envelope ''payment.failed'' Test 0 sample_body)"
  proof -
    have "serialise_session_out sample_config ?s sample_session = serialise_session_out sample_config sample_store sample_session"
      by (simp add: serialise_session_out_def outbox_store_def cong: serialise_session_cong)
    moreover have "find_row ps_id ''ps1'' (sessions ?s) = Some sample_session"
      by (simp add: outbox_store_def sample_store_def sample_session_def)
    ultimately show ?thesis by (simp add: sample_session_body both_def del: hydrate.simps)
  qed
  have "try_dispatch sample_config lenient_zod (\<lambda>_. Some 5) (\<lambda>i. ''d1'' @ i) 10 failed_session_event ?s =
     (Inl (Crash ''transient''), ?s\<lparr>events := [failed_session_event\<lparr>ev_dispatched_at := Some 10,
        ev_payload := Envelope ''payment.failed'' Test 0 sample_body, ev_dispatch_error := None\<rparr>],
        deliveries := [new_delivery ''d1ep1'' 10 failed_session_event ''payment_failed'' (sample_endpoint ''ep1'')],
        delivery_queue := [(0, delivery_job ''d1ep1'' (sample_endpoint ''ep1'') ''evt1'')]\<rparr>)"
    by (subst try_dispatch_built [OF build sample_parse]) (simp_all add: seq_assoc sample_listeners op_ok_def sample_job_ok set_event_def outbox_store_def sample_store_def empty_store_def)
  then show ?thesis
    by (simp add: tick_single outbox_store_def dispatch_event_def catch_def update_event_def isPermanentDispatchFailure_def
        retried_store_def retried_event_def)
qed

lemma retry_second:
  "snd (tickNow sample_config lenient_zod (\<lambda>_. None) (\<lambda>_. False) (\<lambda>e i. ''d2'' @ i) 20 retried_store) =
     retried_store\<lparr>events := [retried_event\<lparr>ev_dispatched_at := Some 20,
         ev_payload := Envelope ''payment.failed'' Test 0 sample_body, ev_dispatch_error := None\<rparr>],
       deliveries := deliveries retried_store @
         [new_delivery ''d2ep1'' 20 retried_event ''payment_failed'' (sample_endpoint ''ep1''),
          new_delivery ''d2ep2'' 20 retried_event ''payment_failed'' (sample_endpoint ''ep2'')],
       delivery_queue := delivery_queue retried_store @
         [(0, delivery_job ''d2ep1'' (sample_endpoint ''ep1'') ''evt1''), (0, delivery_job ''d2ep2'' (sample_endpoint ''ep2'') ''evt1'')]\<rparr>"
proof -
  let ?s = "retried_store\<lparr>events := [patch_event (Claim_Event 20) retried_event]\<rparr>"
  have f: "ev_id retried_event = ''evt1''" "ev_merchant_id retried_event = ''m1''" "ev_mode retried_event = Test"
    "ev_dispatched_at retried_event = None" "ev_payload retried_event = Envelope ''payment.failed'' Test 0 sample_body"
    by (simp_all add: retried_event_def)
  have build: "buildEnvelope sample_config ?s retried_event = Inr (Envelope ''payment.failed'' Test 0 sample_body)"
    by (simp add: f)
  have "try_dispatch sample_config lenient_zod (\<lambda>_. None) (\<lambda>i. ''d2'' @ i) 20 retried_event ?s =
     (Inr 2, ?s\<lparr>events := [retried_event\<lparr>ev_dispatched_at := Some 20,
         ev_payload := Envelope ''payment.failed'' Test 0 sample_body, ev_dispatch_error := None\<rparr>],
       deliveries := deliveries retried_store @
         [new_delivery ''d2ep1'' 20 retried_event ''payment_failed'' (sample_endpoint ''ep1''),
          new_delivery ''d2ep2'' 20 retried_event ''payment_failed'' (sample_endpoint ''ep2'')],
       delivery_queue := delivery_queue retried_store @
         [(0, delivery_job ''d2ep1'' (sample_endpoint ''ep1'') ''evt1''), (0, delivery_job ''d2ep2'' (sample_endpoint ''ep2'') ''evt1'')]\<rparr>)"
    by (subst try_dispatch_built [OF build sample_parse [OF f(1)]]) (simp_all add: seq_assoc sample_listeners op_ok_def sample_job_ok set_event_def retried_store_def outbox_store_def f)
  then show ?thesis
    by (simp add: tick_single retried_store_def f dispatch_event_def catch_def)
qed

text \<open>
  Delivery is at least once, not exactly once: when the second endpoint of an event fails transiently,
  the event is returned and the next tick serves both endpoints again, so the first gets two deliveries whose
  delivery ids differ, and its \<open>X-Strimz-Delivery-Id\<close> does not show the repetition.
\<close>

theorem retried_event_delivered_twice:
  "let s1 = snd (tickNow sample_config lenient_zod (\<lambda>_. Some 5) (\<lambda>_. False) (\<lambda>e i. ''d1'' @ i) 10 outbox_store);
       s2 = snd (tickNow sample_config lenient_zod (\<lambda>_. None) (\<lambda>_. False) (\<lambda>e i. ''d2'' @ i) 20 s1)
   in map dl_delivery_id (filter (\<lambda>d. dl_endpoint_id d = ''ep1'') (deliveries s2)) = [''d1ep1'', ''d2ep1''] \<and>
      map (\<lambda>(n, j). wj_delivery_id j) (delivery_queue s2) = [''d1ep1'', ''d2ep1'', ''d2ep2'']"
  unfolding Let_def retry_first retry_second
  by (simp add: retried_store_def outbox_store_def new_delivery_def delivery_job_def)

section \<open>Witnesses\<close>

theorem deliveries_stay_with_tenant_witness:
  "deliveries (snd (tickNow sample_config lenient_zod (\<lambda>_. Some 5) (\<lambda>_. False) (\<lambda>e i. ''d1'' @ i) 10 outbox_store)) =
     [new_delivery ''d1ep1'' 10 failed_session_event ''payment_failed'' (sample_endpoint ''ep1'')] \<and>
   addressed (endpoints outbox_store) (set (pending_events outbox_store))
     (new_delivery ''d1ep1'' 10 failed_session_event ''payment_failed'' (sample_endpoint ''ep1''))"
proof -
  have "deliveries (snd (tickNow sample_config lenient_zod (\<lambda>_. Some 5) (\<lambda>_. False) (\<lambda>e i. ''d1'' @ i) 10 outbox_store)) =
     [new_delivery ''d1ep1'' 10 failed_session_event ''payment_failed'' (sample_endpoint ''ep1'')]"
    and "deliveries outbox_store = []"
    unfolding retry_first by (simp_all add: retried_store_def outbox_store_def sample_store_def empty_store_def)
  with deliveries_stay_with_tenant [of sample_config lenient_zod "\<lambda>_. Some 5" "\<lambda>_. False" "\<lambda>e i. ''d1'' @ i" 10 outbox_store]
  show ?thesis by auto
qed

theorem pending_events_accounted_witness:
  "accounted lenient_zod (snd (tickNow sample_config lenient_zod (\<lambda>_. Some 5) (\<lambda>_. False) (\<lambda>e i. ''d1'' @ i) 10 outbox_store)) retried_event"
proof -
  have h: "distinct (map ev_id (events outbox_store))" "ev_id retried_event \<in> ev_id ` set (pending_events outbox_store)"
    by (simp_all add: outbox_store_def pending_events_def failed_session_event_def ref_event_def retried_event_def)
  have "retried_event \<in> set (events (snd (tickNow sample_config lenient_zod (\<lambda>_. Some 5) (\<lambda>_. False) (\<lambda>e i. ''d1'' @ i) 10 outbox_store)))"
    unfolding retry_first by (simp add: retried_store_def)
  from pending_events_accounted [OF h(1) this h(2)] show ?thesis by simp
qed

theorem outbox_drains_witness:
  "pending_events (((\<lambda>s. snd (tickNow sample_config lenient_zod (\<lambda>_. None) (\<lambda>_. False) (\<lambda>e i. i) 10 s)) ^^ 1) outbox_store) = []"
proof -
  have "distinct (map ev_id (events outbox_store))" "length (pending_events outbox_store) \<le> 1 * OUTBOX_BATCH"
    by (simp_all add: outbox_store_def pending_events_def OUTBOX_BATCH_def)
  then show ?thesis by (rule outbox_drains)
qed

theorem resolved_event_dispatched_witness:
  "let (r, s') = dispatch_event sample_config lenient_zod (\<lambda>_. None) (\<lambda>_. False) (\<lambda>i. ''d1'' @ i) 10 failed_session_event outbox_store
   in r = Inr 2 \<and> map ev_payload (events s') = [Envelope ''payment.failed'' Test 0
        (Session_Failed_Body (serialise_session_out sample_config outbox_store sample_session) ''failed'')] \<and>
      map dl_id (deliveries s') = [''d1ep1'', ''d1ep2''] \<and> map (wj_delivery_id \<circ> snd) (delivery_queue s') = [''d1ep1'', ''d1ep2'']"
proof -
  let ?b = "Session_Failed_Body (serialise_session_out sample_config outbox_store sample_session) ''failed''"
  have h: "hydrate sample_config outbox_store (Ref_Payment_Failed ''ps1'' None) = Inr ?b"
    unfolding sample_session_body by (simp add: outbox_store_def sample_store_def sample_session_def)
  have sch: "event_data_schema lenient_zod ''payment.failed'' ?b"
    using sample_session_schema [of outbox_store] by (simp add: outbox_store_def)
  have st: "endpoints outbox_store = [sample_endpoint ''ep1'', sample_endpoint ''ep2'']" "events outbox_store = [failed_session_event]"
    "deliveries outbox_store = []" "delivery_queue outbox_store = []"
    by (simp_all add: outbox_store_def sample_store_def empty_store_def)
  have ep: "ep_merchant_id (sample_endpoint i) = ''m1''" "ep_mode (sample_endpoint i) = Test" "ep_status (sample_endpoint i) = Ep_Active"
    "ep_events (sample_endpoint i) = [''payment_failed'']" for i by (simp_all add: sample_endpoint_def)
  have ids: "id_ok ''evt1''" by (simp add: id_ok_def is_id_char_def Let_def)
  obtain r s' where run: "dispatch_event sample_config lenient_zod (\<lambda>_. None) (\<lambda>_. False) (\<lambda>i. ''d1'' @ i) 10 failed_session_event outbox_store = (r, s')"
    by fastforce
  from resolved_event_dispatched [where ev = failed_session_event and ref = "Ref_Payment_Failed ''ps1'' None" and cfg = sample_config
      and s = outbox_store and body = ?b and z = lenient_zod and t = "''payment.failed''" and fault = "\<lambda>_. None" and lost = "\<lambda>_. False"
      and did = "\<lambda>i. ''d1'' @ i" and now = 10, OF _ _ h sch] run
  have "r = Inr 2 \<and> map ev_payload (events s') = [Envelope ''payment.failed'' Test 0 ?b] \<and>
      (\<exists>ds. deliveries s' = ds \<and> map (\<lambda>d. (dl_id d, dl_endpoint_id d, dl_event_id d, dl_merchant_id d, dl_event_name d, dl_status d, dl_attempt d)) ds =
         map (\<lambda>ep. (''d1'' @ ep_id ep, ep_id ep, ''evt1'', ''m1'', ''payment_failed'', Dl_Pending, 1)) [sample_endpoint ''ep1'', sample_endpoint ''ep2'']) \<and>
      map (wj_delivery_id \<circ> snd) (delivery_queue s') = [''d1ep1'', ''d1ep2'']"
    by (simp add: Let_def st ep ids sample_job_ok)
  note facts = this
  from facts have "map fst (map (\<lambda>d. (dl_id d, dl_endpoint_id d, dl_event_id d, dl_merchant_id d, dl_event_name d, dl_status d, dl_attempt d)) (deliveries s')) =
      [''d1ep1'', ''d1ep2'']" by auto
  then have "map dl_id (deliveries s') = [''d1ep1'', ''d1ep2'']" unfolding map_map by (simp add: comp_def)
  with facts show ?thesis unfolding run Let_def prod.case by blast
qed

text \<open>
  A tick that cannot record a failure strands the rest of its batch: here the first of two events fails, the update that
  records it throws, and the second stays claimed, with no delivery and no error, where no later tick looks.
\<close>

lemma aborted_tick_strands:
  "let ev2 = failed_session_event\<lparr>ev_id := ''evt2'', ev_created_at := 1\<rparr>;
       s = outbox_store\<lparr>events := [failed_session_event, ev2]\<rparr>;
       s' = snd (tickNow sample_config lenient_zod (\<lambda>e. if e = ''evt1'' then Some 0 else None) (\<lambda>e. e = ''evt1'') (\<lambda>e i. e @ i) 10 s)
   in map (\<lambda>e. (ev_id e, ev_dispatched_at e, ev_dispatch_error e)) (events s') = [(''evt1'', Some 10, None), (''evt2'', Some 10, None)] \<and>
      deliveries s' = [] \<and> delivery_queue s' = [] \<and> pending_events s' = []"
  by (simp add: tickNow_def outbox_batch_def pending_events_def OUTBOX_BATCH_def dispatch_event_def try_dispatch_def op_ok_def
      catch_def seq_def Let_def outbox_store_def sample_store_def empty_store_def failed_session_event_def ref_event_def)

end
