(* ===== verification/Webhook_Crypto.thy ===== *)
theory Webhook_Crypto
  imports Enrolment "HOL-Library.Word"
begin

text \<open>
  \<open>packages/shared-crypto/src\<close>: byte encoders (\<open>encoding.ts\<close>), constant-time comparison
  (\<open>timing-safe.ts\<close>), webhook signatures (\<open>webhook.ts\<close>), the blob format of encrypted secrets
  (\<open>aes-gcm.ts\<close>) and API keys (\<open>api-key.ts\<close>). HMAC, SHA-256 and AES-GCM are Web Crypto's and are
  parameters; a byte is a \<open>8 word\<close>.
\<close>

unbundle bit_operations_syntax

section \<open>Hex\<close>

definition HEX_CHARS :: string where
  "HEX_CHARS = ''0123456789abcdef''"

fun toHex :: "8 word list \<Rightarrow> string" where
  "toHex [] = []"
| "toHex (b # bs) = HEX_CHARS ! unat (drop_bit 4 b) # HEX_CHARS ! unat (b AND 0x0f) # toHex bs"

definition hex_nibble :: "char \<Rightarrow> int option" where
  "hex_nibble c = (let n = of_char c :: int in
     if 48 \<le> n \<and> n \<le> 57 then Some (n - 48)
     else if 97 \<le> n \<and> n \<le> 102 then Some (n - 87)
     else if 65 \<le> n \<and> n \<le> 70 then Some (n - 55) else None)"

text \<open>
  \<open>Number.parseInt\<close> of two characters in base 16: leading white space is skipped, a sign is read, the
  prefix \<open>0x\<close> is dropped, and reading stops at the first character that is no digit.
\<close>

definition parseInt2 :: "char \<Rightarrow> char \<Rightarrow> int option" where
  "parseInt2 a b =
     (if is_space a then hex_nibble b
      else if a = CHR ''+'' then hex_nibble b
      else if a = CHR ''-'' then map_option uminus (hex_nibble b)
      else if a = CHR ''0'' \<and> (b = CHR ''x'' \<or> b = CHR ''X'') then None
      else case hex_nibble a of
        None \<Rightarrow> None
      | Some x \<Rightarrow> (case hex_nibble b of None \<Rightarrow> Some x | Some y \<Rightarrow> Some (16 * x + y)))"

fun hex_bytes :: "string \<Rightarrow> api_exn + 8 word list" where
  "hex_bytes (a # b # cs) =
     (case parseInt2 a b of
        None \<Rightarrow> Inl (Crash ''fromHex: non-hex character'')
      | Some v \<Rightarrow> (case hex_bytes cs of Inl e \<Rightarrow> Inl e | Inr bs \<Rightarrow> Inr (word_of_int v # bs)))"
| "hex_bytes _ = Inr []"

definition fromHex :: "string \<Rightarrow> api_exn + 8 word list" where
  "fromHex hex =
     (let clean = (if starts_with hex ''0x'' then drop 2 hex else hex)
      in if odd (length clean) then Inl (Crash ''fromHex: odd-length hex input'') else hex_bytes clean)"

section \<open>Constant-time comparison\<close>

definition timingSafeEqualBytes :: "8 word list \<Rightarrow> 8 word list \<Rightarrow> bool" where
  "timingSafeEqualBytes a b =
     (if length a \<noteq> length b then False
      else foldl (\<lambda>diff (x, y). diff OR (x XOR y)) 0 (zip a b) = 0)"

definition timingSafeEqualString :: "string \<Rightarrow> string \<Rightarrow> bool" where
  "timingSafeEqualString a b =
     (if length a \<noteq> length b then False
      else foldl (\<lambda>diff (x, y). diff OR ((of_char x :: 16 word) XOR of_char y)) 0 (zip a b) = 0)"

section \<open>Webhook signatures\<close>

definition WEBHOOK_SIGNATURE_TOLERANCE_SECONDS :: int where
  "WEBHOOK_SIGNATURE_TOLERANCE_SECONDS = 300"

definition signWebhookPayload :: "(string \<Rightarrow> string \<Rightarrow> 8 word list) \<Rightarrow> string \<Rightarrow> string \<Rightarrow> int \<Rightarrow> string" where
  "signWebhookPayload hmacSha256 payload secret t =
     ''t='' @ show_int t @ '',v1='' @ toHex (hmacSha256 secret (show_int t @ ''.'' @ payload))"

datatype verify_reason =
  Malformed_Header | Missing_Timestamp | Missing_Signature | Timestamp_Out_Of_Range | Signature_Mismatch

datatype verify_result = Valid | Invalid verify_reason

fun split_on :: "char \<Rightarrow> string \<Rightarrow> string list" where
  "split_on c [] = [[]]"
| "split_on c (x # xs) =
     (if x = c then [] # split_on c xs
      else case split_on c xs of [] \<Rightarrow> [[x]] | w # ws \<Rightarrow> (x # w) # ws)"

text \<open>
  \<open>Number(value)\<close> when it is a finite integer: the empty string is 0, a decimal integer its value as far
  as a double holds every integer. Other literals (fractions, exponents, other bases, larger numbers) are left
  to \<open>other\<close>.
\<close>

definition decimal_value :: "string \<Rightarrow> int option" where
  "decimal_value s =
     (if s = [] then Some 0
      else if list_all is_digit s then Some (BigInt s)
      else if hd s = CHR ''-'' \<and> tl s \<noteq> [] \<and> list_all is_digit (tl s) then Some (- BigInt (tl s))
      else if hd s = CHR ''+'' \<and> tl s \<noteq> [] \<and> list_all is_digit (tl s) then Some (BigInt (tl s))
      else None)"

definition js_integer :: "(string \<Rightarrow> int option) \<Rightarrow> string \<Rightarrow> int option" where
  "js_integer other s =
     (case decimal_value s of
        Some n \<Rightarrow> if \<bar>n\<bar> \<le> 2 ^ 53 then Some n else other s
      | None \<Rightarrow> other s)"

fun parse_parts ::
  "(string \<Rightarrow> int option) \<Rightarrow> string list \<Rightarrow> int option \<Rightarrow> string option \<Rightarrow> (int option \<times> string option) option" where
  "parse_parts other [] timestamp signatureHex = Some (timestamp, signatureHex)"
| "parse_parts other (part # parts) timestamp signatureHex =
     (let before = takeWhile (\<lambda>c. c \<noteq> CHR ''='') part in
      if before = part \<or> before = [] then None
      else
        let key = js_trim before; value = js_trim (drop (length before + 1) part) in
        if key = ''t'' then
          (case js_integer other value of None \<Rightarrow> None | Some n \<Rightarrow> parse_parts other parts (Some n) signatureHex)
        else if key = ''v1'' then parse_parts other parts timestamp (Some value)
        else parse_parts other parts timestamp signatureHex)"

definition parseSignatureHeader :: "(string \<Rightarrow> int option) \<Rightarrow> string \<Rightarrow> (int option \<times> string option) option" where
  "parseSignatureHeader other header =
     (if header = [] then None else parse_parts other (split_on (CHR '','') header) None None)"

definition verifyWebhookSignature ::
  "(string \<Rightarrow> string \<Rightarrow> 8 word list) \<Rightarrow> (string \<Rightarrow> int option) \<Rightarrow> string \<Rightarrow> string \<Rightarrow> string \<Rightarrow> int \<Rightarrow> int \<Rightarrow> verify_result" where
  "verifyWebhookSignature hmacSha256 other payload header secret tolerance now =
     (case parseSignatureHeader other header of
        None \<Rightarrow> Invalid Malformed_Header
      | Some (timestamp, signatureHex) \<Rightarrow>
          (case timestamp of
             None \<Rightarrow> Invalid Missing_Timestamp
           | Some t \<Rightarrow>
               if \<not> truthy signatureHex then Invalid Missing_Signature
               else if tolerance < \<bar>now - t\<bar> then Invalid Timestamp_Out_Of_Range
               else
                 let expected = hmacSha256 secret (show_int t @ ''.'' @ payload) in
                 case fromHex (the signatureHex) of
                   Inl _ \<Rightarrow> Invalid Signature_Mismatch
                 | Inr provided \<Rightarrow>
                     if timingSafeEqualBytes expected provided then Valid else Invalid Signature_Mismatch))"

section \<open>Encrypted secrets\<close>

record aes =
  ae_encrypt :: "8 word list \<Rightarrow> 8 word list \<Rightarrow> string \<Rightarrow> 8 word list"
  ae_decrypt :: "8 word list \<Rightarrow> 8 word list \<Rightarrow> 8 word list \<Rightarrow> string option"

definition importKey :: "string \<Rightarrow> api_exn + 8 word list" where
  "importKey keyHex =
     (if keyHex = [] \<or> \<not> list_all is_hex_char keyHex then Inl (Crash ''encryption key must be a hex-encoded string'')
      else case fromHex keyHex of
        Inl e \<Rightarrow> Inl e
      | Inr bytes \<Rightarrow> if length bytes \<noteq> 32 then Inl (Crash ''encryption key must be 32 bytes'') else Inr bytes)"

text \<open>\<open>nonce\<close> is the draw of \<open>getRandomValues\<close>.\<close>

definition encryptAesGcm :: "aes \<Rightarrow> 8 word list \<Rightarrow> string \<Rightarrow> string \<Rightarrow> api_exn + string" where
  "encryptAesGcm a nonce plaintext keyHex =
     (case importKey keyHex of
        Inl e \<Rightarrow> Inl e
      | Inr key \<Rightarrow> Inr (''v1:'' @ toHex nonce @ '':'' @ toHex (ae_encrypt a key nonce plaintext)))"

definition decryptAesGcm :: "aes \<Rightarrow> string \<Rightarrow> string \<Rightarrow> api_exn + string" where
  "decryptAesGcm a blob keyHex =
     (if \<not> starts_with blob ''v1:'' then Inl (Crash ''unsupported version prefix in blob'')
      else case split_on (CHR '':'') (drop 3 blob) of
        [nonceHex, ciphertextHex] \<Rightarrow>
          (case fromHex nonceHex of
             Inl e \<Rightarrow> Inl e
           | Inr nonce \<Rightarrow>
               (case fromHex ciphertextHex of
                  Inl e \<Rightarrow> Inl e
                | Inr ciphertextWithTag \<Rightarrow>
                    if length nonce \<noteq> 12 then Inl (Crash ''nonce must be 12 bytes'')
                    else case importKey keyHex of
                      Inl e \<Rightarrow> Inl e
                    | Inr key \<Rightarrow>
                        (case ae_decrypt a key nonce ciphertextWithTag of
                           None \<Rightarrow> Inl (Crash ''OperationError'')
                         | Some p \<Rightarrow> Inr p)))
      | _ \<Rightarrow> Inl (Crash ''malformed blob; expected nonce:ciphertext''))"

section \<open>API keys\<close>

definition API_KEY_PREFIX_DISPLAY_LENGTH :: nat where
  "API_KEY_PREFIX_DISPLAY_LENGTH = 12"

record generated_key =
  gk_secret :: string
  gk_hash :: string
  gk_prefix :: string
  gk_last_four :: string
  gk_kind :: api_key_kind
  gk_mode :: api_mode

text \<open>\<open>random\<close> is the base64url text of 32 random bytes, \<open>sha256Hex\<close> the digest.\<close>

definition generateApiKey :: "(string \<Rightarrow> string) \<Rightarrow> string \<Rightarrow> api_key_kind \<Rightarrow> api_mode \<Rightarrow> generated_key" where
  "generateApiKey sha256Hex random kind mode =
     (let secret = prefixFor kind mode @ random in
      \<lparr>gk_secret = secret, gk_hash = sha256Hex secret,
       gk_prefix = take API_KEY_PREFIX_DISPLAY_LENGTH secret, gk_last_four = drop (length secret - 4) secret,
       gk_kind = kind, gk_mode = mode\<rparr>)"

definition redactApiKey :: "string \<Rightarrow> string" where
  "redactApiKey secret =
     (if length secret \<le> API_KEY_PREFIX_DISPLAY_LENGTH + 4 then ''***''
      else take API_KEY_PREFIX_DISPLAY_LENGTH secret @ ''...'' @ drop (length secret - 4) secret)"

section \<open>Hex round trip\<close>

lemma HEX_CHARS_nibble: "n < 16 \<Longrightarrow> hex_nibble (HEX_CHARS ! n) = Some (int n)"
proof -
  have "\<forall>n<16. hex_nibble (HEX_CHARS ! n) = Some (int n)"
    by (simp add: HEX_CHARS_def hex_nibble_def All_less_Suc numeral_eq_Suc Let_def)
  then show "n < 16 \<Longrightarrow> hex_nibble (HEX_CHARS ! n) = Some (int n)" by blast
qed

lemma HEX_CHARS_plain:
  "n < 16 \<Longrightarrow> \<not> is_space (HEX_CHARS ! n) \<and> HEX_CHARS ! n \<noteq> CHR ''+'' \<and> HEX_CHARS ! n \<noteq> CHR ''-'' \<and>
     HEX_CHARS ! n \<noteq> CHR ''x'' \<and> HEX_CHARS ! n \<noteq> CHR ''X'' \<and> HEX_CHARS ! n \<noteq> CHR '','' \<and> HEX_CHARS ! n \<noteq> CHR '':''"
proof -
  have "\<forall>n<16. \<not> is_space (HEX_CHARS ! n) \<and> HEX_CHARS ! n \<noteq> CHR ''+'' \<and> HEX_CHARS ! n \<noteq> CHR ''-'' \<and>
     HEX_CHARS ! n \<noteq> CHR ''x'' \<and> HEX_CHARS ! n \<noteq> CHR ''X'' \<and> HEX_CHARS ! n \<noteq> CHR '','' \<and> HEX_CHARS ! n \<noteq> CHR '':''"
    by (simp add: HEX_CHARS_def is_space_def All_less_Suc numeral_eq_Suc)
  then show "n < 16 \<Longrightarrow> ?thesis" by blast
qed

lemma parseInt2_digits: "m < 16 \<Longrightarrow> n < 16 \<Longrightarrow> parseInt2 (HEX_CHARS ! m) (HEX_CHARS ! n) = Some (int (16 * m + n))"
  by (simp add: parseInt2_def HEX_CHARS_plain HEX_CHARS_nibble)

lemma nibbles: "unat (drop_bit 4 (b :: 8 word)) < 16" "unat (b AND 0x0f) < 16"
  "16 * unat (drop_bit 4 b) + unat (b AND 0x0f) = unat b"
proof -
  have hi: "unat (drop_bit 4 b) = unat b div 16" by (simp add: drop_bit_eq_div unat_div)
  have "b AND 0x0f = take_bit 4 b" by (simp add: take_bit_eq_mask mask_eq_exp_minus_1)
  then have lo: "unat (b AND 0x0f) = unat b mod 16" by (simp add: take_bit_eq_mod unat_mod)
  show "unat (drop_bit 4 b) < 16" using unsigned_less [of b, where ?'a = nat] by (simp add: hi)
  show "unat (b AND 0x0f) < 16" by (simp add: lo)
  show "16 * unat (drop_bit 4 b) + unat (b AND 0x0f) = unat b" by (simp add: hi lo)
qed

lemma hex_bytes_toHex: "hex_bytes (toHex bs) = Inr bs"
proof (induction bs)
  case (Cons b bs)
  have "word_of_int (int (16 * unat (drop_bit 4 b) + unat (b AND 0x0f))) = b"
    unfolding nibbles(3) by simp
  with Cons show ?case by (simp add: parseInt2_digits nibbles(1,2))
qed simp

lemma length_toHex [simp]: "length (toHex bs) = 2 * length bs"
  by (induction bs) simp_all

lemma toHex_chars: "c \<in> set (toHex bs) \<Longrightarrow> \<not> is_space c \<and> c \<noteq> CHR '','' \<and> c \<noteq> CHR '':''"
  by (induction bs) (auto simp: HEX_CHARS_plain nibbles)

lemma toHex_no_prefix: "\<not> starts_with (toHex bs) ''0x''"
proof (cases bs)
  case (Cons b cs)
  have "HEX_CHARS ! unat (b AND 0x0f) \<noteq> CHR ''x''" using HEX_CHARS_plain nibbles(2) by blast
  with Cons show ?thesis by (simp add: starts_with_def)
qed (simp add: starts_with_def)

lemma fromHex_toHex [simp]: "fromHex (toHex bs) = Inr bs"
  by (simp add: fromHex_def toHex_no_prefix hex_bytes_toHex)

section \<open>Comparison\<close>

lemma foldl_or_zero:
  "foldl (\<lambda>diff (x, y). diff OR (x XOR y)) d ps = 0 \<longleftrightarrow> d = 0 \<and> (\<forall>(x, y)\<in>set ps. x = (y :: 8 word))"
proof (induction ps arbitrary: d)
  case (Cons p ps)
  obtain x y where p: "p = (x, y)" by (cases p)
  have "x XOR y = 0 \<longleftrightarrow> x = y" by (metis xor.comm_neutral xor.assoc xor_self_eq xor.left_neutral)
  then show ?case using Cons [of "d OR (x XOR y)"] by (simp add: p or_eq_0_iff)
qed simp

lemma timingSafeEqualBytes_iff: "timingSafeEqualBytes a b \<longleftrightarrow> a = b"
  by (auto simp: timingSafeEqualBytes_def foldl_or_zero list_eq_iff_zip_eq)

section \<open>Headers\<close>

lemma split_on_none: "c \<notin> set w \<Longrightarrow> split_on c w = [w]"
  by (induction w) auto

lemma split_on_first: "c \<notin> set w \<Longrightarrow> split_on c (w @ c # r) = w # split_on c r"
  by (induction w) auto

lemma js_trim_plain: "(\<And>c. c \<in> set s \<Longrightarrow> \<not> is_space c) \<Longrightarrow> js_trim s = s"
proof -
  assume a: "\<And>c. c \<in> set s \<Longrightarrow> \<not> is_space c"
  have d: "dropWhile is_space t = t" if "\<And>c. c \<in> set t \<Longrightarrow> \<not> is_space c" for t
    using that by (cases t) auto
  show ?thesis using a d [of s] d [of "rev s"] by (simp add: js_trim_def)
qed

lemma digit_plain: "is_digit c \<Longrightarrow> \<not> is_space c \<and> c \<noteq> CHR '','' \<and> c \<noteq> CHR ''-'' \<and> c \<noteq> CHR ''+''"
  by (auto simp: is_digit_def is_space_def)

lemma show_int_chars: "c \<in> set (show_int t) \<Longrightarrow> is_digit c \<or> c = CHR ''-''"
  using show_nat_digits by (auto simp: show_int_def list_all_iff split: if_splits)

lemma show_nat_not_Nil [simp]: "show_nat n \<noteq> []"
  by (subst show_nat.simps) simp

lemma js_integer_show [simp]: "\<bar>t\<bar> \<le> 2 ^ 53 \<Longrightarrow> js_integer other (show_int t) = Some t"
proof -
  have "decimal_value (show_int t) = Some t"
  proof (cases "t < 0")
    case True
    have "\<not> is_digit (CHR ''-'')" by (simp add: is_digit_def)
    with True show ?thesis by (simp add: decimal_value_def show_int_def show_nat_digits BigInt_def)
  next
    case False
    then show ?thesis by (simp add: decimal_value_def show_int_def show_nat_digits BigInt_def)
  qed
  then show "\<bar>t\<bar> \<le> 2 ^ 53 \<Longrightarrow> js_integer other (show_int t) = Some t" by (simp add: js_integer_def)
qed

lemma parse_signed_header:
  assumes "mac \<noteq> []" and "\<bar>t\<bar> \<le> 2 ^ 53"
  shows "parseSignatureHeader other (''t='' @ show_int t @ '',v1='' @ toHex mac) = Some (Some t, Some (toHex mac))"
proof -
  let ?a = "CHR ''t'' # CHR ''='' # show_int t" and ?b = "CHR ''v'' # CHR ''1'' # CHR ''='' # toHex mac"
  have "CHR '','' \<notin> set (show_int t)" using show_int_chars digit_plain by fastforce
  then have "CHR '','' \<notin> set ?a" by simp
  moreover have "CHR '','' \<notin> set ?b" using toHex_chars by auto
  ultimately have split: "split_on (CHR '','') (?a @ CHR '','' # ?b) = [?a, ?b]"
    using split_on_first [of "CHR '',''" ?a ?b] split_on_none [of "CHR '',''" ?b] by simp
  have trim: "js_trim (show_int t) = show_int t" "js_trim (toHex mac) = toHex mac" "js_trim ''t'' = ''t''" "js_trim ''v1'' = ''v1''"
  proof -
    have "\<not> is_space c" if "c \<in> set (show_int t)" for c
      using show_int_chars [OF that] digit_plain by (auto simp: is_space_def)
    then show "js_trim (show_int t) = show_int t" by (rule js_trim_plain)
    show "js_trim (toHex mac) = toHex mac" using toHex_chars by (intro js_trim_plain) blast
    show "js_trim ''t'' = ''t''" "js_trim ''v1'' = ''v1''" by (auto intro!: js_trim_plain simp: is_space_def)
  qed
  have header: "''t='' @ show_int t @ '',v1='' @ toHex mac = ?a @ CHR '','' # ?b" by simp
  show ?thesis
    unfolding header parseSignatureHeader_def split by (simp add: Let_def trim js_integer_show [OF assms(2)] del: js_integer_show)
qed

section \<open>Properties\<close>

lemma signed_payload_verifies:
  assumes "hmac secret (show_int t @ ''.'' @ payload) \<noteq> []" and "\<bar>t\<bar> \<le> 2 ^ 53"
  shows "verifyWebhookSignature hmac other payload (signWebhookPayload hmac payload secret t) secret tolerance now =
    (if \<bar>now - t\<bar> \<le> tolerance then Valid else Invalid Timestamp_Out_Of_Range)"
proof -
  have "toHex (hmac secret (show_int t @ ''.'' @ payload)) \<noteq> []" using assms(1) by (metis length_0_conv length_toHex mult_eq_0_iff zero_neq_numeral)
  with parse_signed_header [OF assms, of other] show ?thesis
    by (simp add: verifyWebhookSignature_def signWebhookPayload_def timingSafeEqualBytes_iff Let_def)
qed

text \<open>
  Acceptance means authentication: a header is accepted only for a time stamp within the tolerance whose
  MAC over that time stamp and payload equals, byte for byte, what the header carries. So a header made for
  one payload is accepted for another only where their MACs collide.
\<close>

theorem webhook_verify_sound:
  assumes "verifyWebhookSignature hmac other payload header secret tolerance now = Valid"
  shows "\<exists>t hex. parseSignatureHeader other header = Some (Some t, Some hex) \<and> \<bar>now - t\<bar> \<le> tolerance \<and>
    fromHex hex = Inr (hmac secret (show_int t @ ''.'' @ payload))"
  using assms
  by (auto simp: verifyWebhookSignature_def timingSafeEqualBytes_iff Let_def truthy_def
      split: option.splits sum.splits if_splits)

theorem webhook_verify_sound_witness:
  "\<exists>t hex. parseSignatureHeader (\<lambda>_. None) ''t=0,v1=01'' = Some (Some t, Some hex) \<and> \<bar>9 - t\<bar> \<le> 300 \<and>
     fromHex hex = Inr [1]"
proof -
  have "fromHex ''01'' = Inr [1]"
    by (simp add: fromHex_def starts_with_def parseInt2_def hex_nibble_def is_space_def Let_def)
  moreover have "parseSignatureHeader (\<lambda>_. None) ''t=0,v1=01'' = Some (Some 0, Some ''01'')"
    by (simp add: parseSignatureHeader_def Let_def js_trim_def is_space_def js_integer_def decimal_value_def is_digit_def BigInt_def big_nat_def
        digit_of_def)
  ultimately have "verifyWebhookSignature (\<lambda>_ _. [1]) (\<lambda>_. None) ''body'' ''t=0,v1=01'' ''key'' 300 9 = Valid"
    by (simp add: verifyWebhookSignature_def timingSafeEqualBytes_iff Let_def)
  from webhook_verify_sound [OF this] show ?thesis .
qed

lemma decrypt_encrypt:
  assumes "encryptAesGcm a nonce plaintext keyHex = Inr blob" and "length nonce = 12"
    and "\<And>k. ae_decrypt a k nonce (ae_encrypt a k nonce plaintext) = Some plaintext"
  shows "decryptAesGcm a blob keyHex = Inr plaintext"
proof -
  from assms(1) obtain key where key: "importKey keyHex = Inr key"
    and blob: "blob = ''v1:'' @ toHex nonce @ '':'' @ toHex (ae_encrypt a key nonce plaintext)"
    by (auto simp: encryptAesGcm_def split: sum.splits)
  let ?c = "toHex (ae_encrypt a key nonce plaintext)"
  have "CHR '':'' \<notin> set (toHex nonce)" "CHR '':'' \<notin> set ?c" using toHex_chars by blast+
  then have "split_on (CHR '':'') (toHex nonce @ CHR '':'' # ?c) = [toHex nonce, ?c]"
    using split_on_first [of "CHR '':''" "toHex nonce" ?c] split_on_none [of "CHR '':''" ?c] by simp
  then have "split_on (CHR '':'') (drop 3 blob) = [toHex nonce, ?c]" by (simp add: blob)
  with key assms(2,3) show ?thesis by (simp add: decryptAesGcm_def blob starts_with_def)
qed

text \<open>A cipher that leaves the text as it is, and the key of 32 zero bytes.\<close>

definition toy_aes :: aes where
  "toy_aes = \<lparr>ae_encrypt = (\<lambda>k n p. map of_char p), ae_decrypt = (\<lambda>k n c. Some (map (\<lambda>b. char_of (unat b)) c))\<rparr>"

lemma toHex_hex: "list_all is_hex_char (toHex bs)"
proof -
  have "\<forall>n<16. is_hex_char (HEX_CHARS ! n)"
    by (simp add: HEX_CHARS_def is_hex_char_def All_less_Suc numeral_eq_Suc)
  then show ?thesis by (induction bs) (simp_all add: nibbles)
qed

lemma importKey_toHex: "length bs = 32 \<Longrightarrow> importKey (toHex bs) = Inr bs"
  using length_toHex [of bs] by (auto simp: importKey_def toHex_hex simp del: length_toHex)

text \<open>
  \<open>fromHex\<close> is not strict: text that is not hexadecimal is read as bytes, since \<open>parseInt\<close> stops at
  the first character that is no digit. So a signature header whose MAC holds a letter that is no hex digit is
  accepted.
\<close>

theorem fromHex_accepts_non_hex:
  "fromHex ''1g'' = Inr [1] \<and>
   verifyWebhookSignature (\<lambda>_ _. [1]) other payload ''t=0,v1=1g'' secret 300 0 = Valid"
proof -
  have f: "fromHex ''1g'' = Inr [1]"
    by (simp add: fromHex_def starts_with_def parseInt2_def hex_nibble_def is_space_def Let_def)
  have "parseSignatureHeader other ''t=0,v1=1g'' = Some (Some 0, Some ''1g'')"
    by (simp add: parseSignatureHeader_def Let_def js_trim_def is_space_def js_integer_def decimal_value_def is_digit_def BigInt_def big_nat_def
        digit_of_def)
  with f show ?thesis by (simp add: verifyWebhookSignature_def timingSafeEqualBytes_iff Let_def)
qed

end
