(* ===== verification/Webhook_Transport.thy ===== *)
theory Webhook_Transport
  imports Webhook_Crypto
begin

text \<open>
  \<open>apps/scheduler/src/infra/webhook-transport\<close>: where a webhook may be sent. An address is read as Node's
  \<open>net.isIP\<close> reads it and checked against the block list as \<open>net.BlockList\<close> checks it, IPv4-mapped
  IPv6 included; the URL parser, the resolver and the HTTP exchange are fields of \<open>transport\<close>.
\<close>

unbundle bit_operations_syntax

section \<open>Textual addresses\<close>

datatype ip_address = IPv4 "32 word" | IPv6 "128 word"

definition v4_seg :: "string \<Rightarrow> nat option" where
  "v4_seg s =
     (if s \<noteq> [] \<and> list_all is_digit s \<and> (length s = 1 \<or> hd s \<noteq> CHR ''0'') \<and> length s \<le> 3 \<and> big_nat s \<le> 255
      then Some (big_nat s) else None)"

definition parse_ipv4 :: "string \<Rightarrow> 32 word option" where
  "parse_ipv4 s =
     (case map v4_seg (split_on (CHR ''.'') s) of
        [Some a, Some b, Some c, Some d] \<Rightarrow> Some (word_of_nat (((a * 256 + b) * 256 + c) * 256 + d))
      | _ \<Rightarrow> None)"

definition v6_seg :: "string \<Rightarrow> nat option" where
  "v6_seg s =
     (if s \<noteq> [] \<and> length s \<le> 4 \<and> list_all (\<lambda>c. hex_nibble c \<noteq> None) s
      then Some (foldl (\<lambda>n c. 16 * n + nat (the (hex_nibble c))) 0 s) else None)"

text \<open>The groups of a side; an embedded IPv4 address may only end the whole address.\<close>

fun v6_groups :: "bool \<Rightarrow> string list \<Rightarrow> nat list option" where
  "v6_groups embedded [] = Some []"
| "v6_groups embedded (g # gs) =
     (case v6_seg g of
        Some n \<Rightarrow> map_option ((#) n) (v6_groups embedded gs)
      | None \<Rightarrow>
          if embedded \<and> gs = []
          then map_option (\<lambda>a. [unat a div 65536, unat a mod 65536]) (parse_ipv4 g)
          else None)"

fun split_gap :: "string \<Rightarrow> (string \<times> string) option" where
  "split_gap (a # b # cs) =
     (if a = CHR '':'' \<and> b = CHR '':'' then Some ([], cs)
      else map_option (\<lambda>(l, r). (a # l, r)) (split_gap (b # cs)))"
| "split_gap _ = None"

definition v6_side :: "bool \<Rightarrow> string \<Rightarrow> nat list option" where
  "v6_side embedded s = (if s = [] then Some [] else v6_groups embedded (split_on (CHR '':'') s))"

definition v6_word :: "nat list \<Rightarrow> 128 word" where
  "v6_word gs = word_of_nat (foldl (\<lambda>n g. 65536 * n + g) 0 gs)"

definition zone_char :: "char \<Rightarrow> bool" where
  "zone_char c \<longleftrightarrow> (let n = of_char (ascii_lower c) :: nat in
     is_digit c \<or> 97 \<le> n \<and> n \<le> 122 \<or> c = CHR ''-'' \<or> c = CHR ''.'' \<or> c = CHR '':'')"

definition zone_ok :: "string \<Rightarrow> bool" where
  "zone_ok z \<longleftrightarrow> z = [] \<or> tl z \<noteq> [] \<and> list_all zone_char (tl z)"

definition parse_ipv6 :: "string \<Rightarrow> 128 word option" where
  "parse_ipv6 s =
     (let body = takeWhile (\<lambda>c. c \<noteq> CHR ''%'') s in
      if \<not> zone_ok (drop (length body) s) then None
      else case split_gap body of
        None \<Rightarrow>
          (case v6_groups True (split_on (CHR '':'') body) of
             Some gs \<Rightarrow> if length gs = 8 then Some (v6_word gs) else None
           | None \<Rightarrow> None)
      | Some (l, r) \<Rightarrow>
          (case (v6_side False l, v6_side True r) of
             (Some a, Some b) \<Rightarrow>
               if length a + length b \<le> 7
               then Some (v6_word (a @ replicate (8 - length a - length b) 0 @ b)) else None
           | _ \<Rightarrow> None))"

definition isIP :: "string \<Rightarrow> ip_address option" where
  "isIP s = (case parse_ipv4 s of Some a \<Rightarrow> Some (IPv4 a) | None \<Rightarrow> map_option IPv6 (parse_ipv6 s))"

section \<open>The block list\<close>

definition IPV4_BLOCKED :: "(string \<times> nat) list" where
  "IPV4_BLOCKED =
     [(''0.0.0.0'', 8), (''10.0.0.0'', 8), (''100.64.0.0'', 10), (''127.0.0.0'', 8), (''169.254.0.0'', 16),
      (''172.16.0.0'', 12), (''192.0.0.0'', 24), (''192.0.2.0'', 24), (''192.168.0.0'', 16), (''198.18.0.0'', 15),
      (''198.51.100.0'', 24), (''203.0.113.0'', 24), (''224.0.0.0'', 4), (''240.0.0.0'', 4)]"

definition IPV6_BLOCKED :: "(string \<times> nat) list" where
  "IPV6_BLOCKED =
     [(''::'', 96), (''64:ff9b::'', 96), (''64:ff9b:1::'', 48), (''100::'', 64), (''2001:db8::'', 32),
      (''fc00::'', 7), (''fe80::'', 10), (''ff00::'', 8)]"

definition in_subnet :: "'a::len word \<Rightarrow> nat \<Rightarrow> 'a word \<Rightarrow> bool" where
  "in_subnet net prefix a \<longleftrightarrow> drop_bit (LENGTH('a) - prefix) a = drop_bit (LENGTH('a) - prefix) net"

definition v4_rules :: "32 word \<Rightarrow> bool" where
  "v4_rules a \<longleftrightarrow> list_ex (\<lambda>(net, prefix). in_subnet (the (parse_ipv4 net)) prefix a) IPV4_BLOCKED"

definition v6_rules :: "128 word \<Rightarrow> bool" where
  "v6_rules a \<longleftrightarrow> list_ex (\<lambda>(net, prefix). in_subnet (the (parse_ipv6 net)) prefix a) IPV6_BLOCKED"

definition mapped :: "32 word \<Rightarrow> 128 word" where
  "mapped a = push_bit 32 0xffff OR ucast a"

text \<open>An IPv6 rule is applied to the mapped form of an IPv4 address, an IPv4 rule to a mapped IPv6 one.\<close>

fun block_check :: "ip_address \<Rightarrow> bool" where
  "block_check (IPv4 a) = (v4_rules a \<or> v6_rules (mapped a))"
| "block_check (IPv6 a) = (v6_rules a \<or> drop_bit 32 a = 0xffff \<and> v4_rules (ucast a))"

definition isBlockedAddress :: "string \<Rightarrow> api_exn + bool" where
  "isBlockedAddress address =
     (case isIP address of
        Some ip \<Rightarrow> Inr (block_check ip)
      | None \<Rightarrow> Inl (Crash ''not an IP address''))"

section \<open>Resolution and sending\<close>

definition permits :: "string \<Rightarrow> nat \<Rightarrow> api_exn + bool" where
  "permits address port = map_sum id Not (isBlockedAddress address)"

fun all_permitted :: "nat \<Rightarrow> string list \<Rightarrow> api_exn + unit" where
  "all_permitted port [] = Inr ()"
| "all_permitted port (a # as) =
     (case permits a port of
        Inl e \<Rightarrow> Inl e
      | Inr ok \<Rightarrow> if ok then all_permitted port as else Inl (Crash ''BlockedWebhookTargetError''))"

definition resolveWebhookTarget :: "(string \<Rightarrow> api_exn + string list) \<Rightarrow> string \<Rightarrow> nat \<Rightarrow> api_exn + string \<times> nat" where
  "resolveWebhookTarget lookupAll hostname port =
     (let host = (if starts_with hostname ''['' \<and> last hostname = CHR '']'' then butlast (tl hostname) else hostname) in
      case (case isIP host of None \<Rightarrow> lookupAll host | Some ip \<Rightarrow> Inr [host]) of
        Inl e \<Rightarrow> Inl e
      | Inr [] \<Rightarrow> Inl (Crash ''resolved to no addresses'')
      | Inr (first # rest) \<Rightarrow>
          (case all_permitted port (first # rest) of
             Inl e \<Rightarrow> Inl e
           | Inr _ \<Rightarrow> Inr (first, case isIP first of Some (IPv6 a) \<Rightarrow> 6 | _ \<Rightarrow> 4)))"

record url_parts =
  up_protocol :: string
  up_hostname :: string
  up_port :: string

text \<open>
  The outside: \<open>new URL\<close>, \<open>dns.lookup\<close>, the exchange with an address (its status and body chunks, or
  the error, a timeout included) and the UTF-8 decoder.
\<close>

record transport =
  tr_url :: "string \<Rightarrow> url_parts option"
  tr_lookup :: "string \<Rightarrow> api_exn + string list"
  tr_exchange :: "string \<Rightarrow> nat \<Rightarrow> (string \<times> string) list \<Rightarrow> string \<Rightarrow> api_exn + nat option \<times> 8 word list list"
  tr_utf8 :: "8 word list \<Rightarrow> string"

definition senderFor :: "string \<Rightarrow> api_exn + unit" where
  "senderFor protocol =
     (if protocol = ''https:'' \<or> protocol = ''http:'' then Inr () else Inl (Crash ''protocol is not supported''))"

definition target_port :: "url_parts \<Rightarrow> nat" where
  "target_port u =
     (if up_port u \<noteq> [] then big_nat (up_port u) else if up_protocol u = ''https:'' then 443 else 80)"

definition MAX_RESPONSE_CHARS :: nat where
  "MAX_RESPONSE_CHARS = 4000"

fun read_chunks :: "nat \<Rightarrow> 8 word list list \<Rightarrow> 8 word list" where
  "read_chunks got [] = []"
| "read_chunks got (c # cs) =
     c @ (if MAX_RESPONSE_CHARS * 4 \<le> got + length c then [] else read_chunks (got + length c) cs)"

definition readCapped :: "transport \<Rightarrow> nat option \<times> 8 word list list \<Rightarrow> api_exn + nat \<times> string" where
  "readCapped t res =
     (case fst res of
        None \<Rightarrow> Inl (Crash ''webhook response carried no status code'')
      | Some status \<Rightarrow> Inr (status, take MAX_RESPONSE_CHARS (tr_utf8 t (read_chunks 0 (snd res)))))"

text \<open>The address and port that a request for the URL goes to.\<close>

definition pinned_target :: "transport \<Rightarrow> string \<Rightarrow> api_exn + string \<times> nat" where
  "pinned_target t url =
     (case tr_url t url of
        None \<Rightarrow> Inl (Crash ''Invalid URL'')
      | Some target \<Rightarrow>
          (case senderFor (up_protocol target) of
             Inl e \<Rightarrow> Inl e
           | Inr _ \<Rightarrow>
               (case resolveWebhookTarget (tr_lookup t) (up_hostname target) (target_port target) of
                  Inl e \<Rightarrow> Inl e
                | Inr (address, family) \<Rightarrow> Inr (address, target_port target))))"

definition transport_post :: "transport \<Rightarrow> string \<Rightarrow> (string \<times> string) list \<Rightarrow> string \<Rightarrow> api_exn + nat \<times> string" where
  "transport_post t url headers body =
     (case pinned_target t url of
        Inl e \<Rightarrow> Inl e
      | Inr (address, port) \<Rightarrow>
          (case tr_exchange t address port headers body of
             Inl e \<Rightarrow> Inl e
           | Inr res \<Rightarrow> readCapped t res))"

section \<open>Subnets as intervals\<close>

lemma div_eq_interval: "0 < (k :: nat) \<Longrightarrow> m div k = n div k \<longleftrightarrow> n div k * k \<le> m \<and> m < (n div k + 1) * k"
  by (metis Suc_eq_plus1 div_nat_eqI div_times_less_eq_dividend dividend_less_div_times mult.commute mult_Suc)

lemma in_subnet_interval:
  fixes net :: "'a::len word"
  shows "in_subnet net prefix a \<longleftrightarrow>
    (let k = 2 ^ (LENGTH('a) - prefix) in unat net div k * k \<le> unat a \<and> unat a < (unat net div k + 1) * k)"
proof -
  let ?n = "LENGTH('a) - prefix"
  have "unat (drop_bit ?n w) = unat w div 2 ^ ?n" for w :: "'a word"
    unfolding unat_drop_bit_eq by (simp add: drop_bit_eq_div)
  then have "in_subnet net prefix a \<longleftrightarrow> unat a div 2 ^ ?n = unat net div 2 ^ ?n"
    unfolding in_subnet_def by (metis word_unat_eq_iff)
  then show ?thesis by (simp add: div_eq_interval Let_def)
qed

definition quad :: "nat \<Rightarrow> nat \<Rightarrow> nat \<Rightarrow> nat \<Rightarrow> nat" where
  "quad a b c d = ((a * 256 + b) * 256 + c) * 256 + d"

definition IPV4_RANGES :: "(nat \<times> nat) list" where
  "IPV4_RANGES =
     [(quad 0 0 0 0, quad 0 255 255 255), (quad 10 0 0 0, quad 10 255 255 255), (quad 100 64 0 0, quad 100 127 255 255),
      (quad 127 0 0 0, quad 127 255 255 255), (quad 169 254 0 0, quad 169 254 255 255),
      (quad 172 16 0 0, quad 172 31 255 255), (quad 192 0 0 0, quad 192 0 0 255), (quad 192 0 2 0, quad 192 0 2 255),
      (quad 192 168 0 0, quad 192 168 255 255), (quad 198 18 0 0, quad 198 19 255 255),
      (quad 198 51 100 0, quad 198 51 100 255), (quad 203 0 113 0, quad 203 0 113 255),
      (quad 224 0 0 0, quad 255 255 255 255)]"

lemma v4_seg_values [simp]:
  "v4_seg ''0'' = Some 0" "v4_seg ''2'' = Some 2" "v4_seg ''10'' = Some 10" "v4_seg ''100'' = Some 100" "v4_seg ''64'' = Some 64"
  "v4_seg ''127'' = Some 127" "v4_seg ''169'' = Some 169" "v4_seg ''254'' = Some 254" "v4_seg ''172'' = Some 172"
  "v4_seg ''16'' = Some 16" "v4_seg ''192'' = Some 192" "v4_seg ''168'' = Some 168" "v4_seg ''198'' = Some 198"
  "v4_seg ''18'' = Some 18" "v4_seg ''51'' = Some 51" "v4_seg ''203'' = Some 203" "v4_seg ''113'' = Some 113"
  "v4_seg ''224'' = Some 224" "v4_seg ''240'' = Some 240"
  by (simp_all add: v4_seg_def is_digit_def big_nat_def digit_of_def)

lemma v4_networks:
  "parse_ipv4 ''0.0.0.0'' = Some 0" "parse_ipv4 ''10.0.0.0'' = Some 167772160"
  "parse_ipv4 ''100.64.0.0'' = Some 1681915904" "parse_ipv4 ''127.0.0.0'' = Some 2130706432"
  "parse_ipv4 ''169.254.0.0'' = Some 2851995648" "parse_ipv4 ''172.16.0.0'' = Some 2886729728"
  "parse_ipv4 ''192.0.0.0'' = Some 3221225472" "parse_ipv4 ''192.0.2.0'' = Some 3221225984"
  "parse_ipv4 ''192.168.0.0'' = Some 3232235520" "parse_ipv4 ''198.18.0.0'' = Some 3323068416"
  "parse_ipv4 ''198.51.100.0'' = Some 3325256704" "parse_ipv4 ''203.0.113.0'' = Some 3405803776"
  "parse_ipv4 ''224.0.0.0'' = Some 3758096384" "parse_ipv4 ''240.0.0.0'' = Some 4026531840"
  by (simp_all add: parse_ipv4_def)

lemma v4_subnets:
  "in_subnet (0 :: 32 word) 8 a \<longleftrightarrow> unat a \<le> 16777215"
  "in_subnet (167772160 :: 32 word) 8 a \<longleftrightarrow> 167772160 \<le> unat a \<and> unat a \<le> 184549375"
  "in_subnet (1681915904 :: 32 word) 10 a \<longleftrightarrow> 1681915904 \<le> unat a \<and> unat a \<le> 1686110207"
  "in_subnet (2130706432 :: 32 word) 8 a \<longleftrightarrow> 2130706432 \<le> unat a \<and> unat a \<le> 2147483647"
  "in_subnet (2851995648 :: 32 word) 16 a \<longleftrightarrow> 2851995648 \<le> unat a \<and> unat a \<le> 2852061183"
  "in_subnet (2886729728 :: 32 word) 12 a \<longleftrightarrow> 2886729728 \<le> unat a \<and> unat a \<le> 2887778303"
  "in_subnet (3221225472 :: 32 word) 24 a \<longleftrightarrow> 3221225472 \<le> unat a \<and> unat a \<le> 3221225727"
  "in_subnet (3221225984 :: 32 word) 24 a \<longleftrightarrow> 3221225984 \<le> unat a \<and> unat a \<le> 3221226239"
  "in_subnet (3232235520 :: 32 word) 16 a \<longleftrightarrow> 3232235520 \<le> unat a \<and> unat a \<le> 3232301055"
  "in_subnet (3323068416 :: 32 word) 15 a \<longleftrightarrow> 3323068416 \<le> unat a \<and> unat a \<le> 3323199487"
  "in_subnet (3325256704 :: 32 word) 24 a \<longleftrightarrow> 3325256704 \<le> unat a \<and> unat a \<le> 3325256959"
  "in_subnet (3405803776 :: 32 word) 24 a \<longleftrightarrow> 3405803776 \<le> unat a \<and> unat a \<le> 3405804031"
  by (auto simp: in_subnet_interval)

lemma v4_multicast_and_reserved:
  "in_subnet (3758096384 :: 32 word) 4 a \<or> in_subnet (4026531840 :: 32 word) 4 a \<longleftrightarrow> 3758096384 \<le> unat a \<and> unat a \<le> 4294967295"
proof -
  have "unat a < 4294967296" using unsigned_less [of a, where ?'a = nat] by simp
  then show ?thesis by (auto simp: in_subnet_interval)
qed

lemma v4_rules_ranges: "v4_rules a \<longleftrightarrow> (\<exists>(lo, hi)\<in>set IPV4_RANGES. lo \<le> unat a \<and> unat a \<le> hi)"
  unfolding v4_rules_def IPV4_BLOCKED_def IPV4_RANGES_def quad_def
  by (simp add: v4_networks v4_subnets v4_multicast_and_reserved del: de_Morgan_disj)

lemma v6_seg_values [simp]:
  "v6_seg ''64'' = Some 100" "v6_seg ''ff9b'' = Some 65435" "v6_seg ''1'' = Some 1" "v6_seg ''100'' = Some 256"
  "v6_seg ''2001'' = Some 8193" "v6_seg ''db8'' = Some 3512" "v6_seg ''fc00'' = Some 64512"
  "v6_seg ''fe80'' = Some 65152" "v6_seg ''ff00'' = Some 65280"
  by (simp_all add: v6_seg_def hex_nibble_def)

lemma foldl_zeros: "foldl (\<lambda>n. (+) (65536 * n)) m (replicate k 0) = m * 65536 ^ k" for m :: nat
  by (induction k arbitrary: m) simp_all

lemma v6_networks:
  "parse_ipv6 ''::'' = Some 0" "parse_ipv6 ''64:ff9b::'' = Some (word_of_nat (6619035 * 2 ^ 96))"
  "parse_ipv6 ''64:ff9b:1::'' = Some (word_of_nat (433785077761 * 2 ^ 80))"
  "parse_ipv6 ''100::'' = Some (word_of_nat (256 * 2 ^ 112))"
  "parse_ipv6 ''2001:db8::'' = Some (word_of_nat (536939960 * 2 ^ 96))"
  "parse_ipv6 ''fc00::'' = Some (word_of_nat (64512 * 2 ^ 112))"
  "parse_ipv6 ''fe80::'' = Some (word_of_nat (65152 * 2 ^ 112))"
  "parse_ipv6 ''ff00::'' = Some (word_of_nat (65280 * 2 ^ 112))"
  by (simp_all add: parse_ipv6_def zone_ok_def v6_side_def v6_word_def foldl_zeros)

lemma mapped_facts: "drop_bit 32 (mapped a) = 0xffff" "ucast (mapped a) = a"
  "unat (mapped a) = 281470681743360 + unat a"
proof -
  have ones: "(0xffff :: 128 word) = mask 16" by (simp add: mask_eq_exp_minus_1)
  show hi: "drop_bit 32 (mapped a) = 0xffff"
    unfolding mapped_def ones by (rule bit_word_eqI) (auto simp: bit_simps dest: bit_imp_le_length)
  show "ucast (mapped a) = a"
    unfolding mapped_def ones by (rule bit_word_eqI) (auto simp: bit_simps)
  have lo: "take_bit 32 (mapped a) = ucast a"
    unfolding mapped_def ones by (rule bit_word_eqI) (auto simp: bit_simps dest: bit_imp_le_length)
  have "unat (mapped a) div 2 ^ 32 = 65535"
    using arg_cong [OF hi, of unat] unfolding unat_drop_bit_eq by (simp add: drop_bit_eq_div)
  moreover have "unat (mapped a) mod 2 ^ 32 = unat a"
  proof -
    have "unat (take_bit 32 (mapped a)) = unat (ucast a :: 128 word)" by (simp only: lo)
    moreover have "unat a < 2 ^ 128" using unsigned_less [of a, where ?'a = nat] by simp
    then have "unat (ucast a :: 128 word) = unat a" by (simp add: unsigned_ucast_eq take_bit_nat_eq_self)
    ultimately have "take_bit 32 (unat (mapped a)) = unat a" by (simp only: unsigned_take_bit_eq)
    then show ?thesis by (simp add: take_bit_eq_mod)
  qed
  ultimately show "unat (mapped a) = 281470681743360 + unat a"
    using div_mult_mod_eq [of "unat (mapped a)" "2 ^ 32"] by simp
qed

lemma v6_rules_mapped: "\<not> v6_rules (mapped a)"
proof -
  have "unat a < 4294967296" using unsigned_less [of a, where ?'a = nat] by simp
  then show ?thesis
    by (simp add: v6_rules_def IPV6_BLOCKED_def in_subnet_interval v6_networks mapped_facts(3))
qed

lemma block_check_mapped: "block_check (IPv6 (mapped a)) = block_check (IPv4 a)"
  by (simp add: mapped_facts v6_rules_mapped)

section \<open>Properties\<close>

text \<open>
  C36. The block list is a set of intervals: an IPv4 address in any of the thirteen private, loopback,
  link-local, documentation, multicast and reserved ranges is blocked and no other is, whether it is written
  as dotted decimal or as an IPv4-mapped IPv6 address.
\<close>

theorem blocked_ipv4_exact:
  "block_check (IPv4 a) = (\<exists>(lo, hi)\<in>set IPV4_RANGES. lo \<le> unat a \<and> unat a \<le> hi) \<and>
   block_check (IPv6 (mapped a)) = block_check (IPv4 a)"
  unfolding block_check_mapped by (simp add: v6_rules_mapped v4_rules_ranges)

lemma all_permitted_iff:
  "all_permitted port as = Inr () \<longleftrightarrow> (\<forall>a\<in>set as. \<exists>ip. isIP a = Some ip \<and> \<not> block_check ip)"
  by (induction as) (auto simp: permits_def isBlockedAddress_def split: option.splits)

lemma resolve_permitted:
  "resolveWebhookTarget lookupAll hostname port = Inr (address, n) \<Longrightarrow> \<exists>ip. isIP address = Some ip \<and> \<not> block_check ip"
  using all_permitted_iff
  by (auto simp: resolveWebhookTarget_def Let_def split: sum.splits list.splits simp del: all_permitted.simps)

text \<open>
  C16. No request leaves for a private network: whatever the URL, the resolver and the number of addresses it
  returns, the address a webhook is sent to is an IP address off the block list; so it lies in none of the
  blocked IPv4 ranges, mapped or not, and a name that resolves to one blocked address among others is refused.
\<close>

theorem webhook_target_public:
  assumes "pinned_target t url = Inr (address, port)"
  shows "\<exists>ip. isIP address = Some ip \<and> \<not> block_check ip \<and>
    (\<forall>a. ip = IPv4 a \<or> ip = IPv6 (mapped a) \<longrightarrow> \<not> (\<exists>(lo, hi)\<in>set IPV4_RANGES. lo \<le> unat a \<and> unat a \<le> hi))"
proof -
  from assms obtain host n where "resolveWebhookTarget (tr_lookup t) host port = Inr (address, n)"
    by (auto simp: pinned_target_def split: option.splits sum.splits)
  from resolve_permitted [OF this] obtain ip where ip: "isIP address = Some ip" "\<not> block_check ip" by blast
  then show ?thesis using block_check_mapped v4_rules_ranges by (metis block_check.simps(1))
qed

text \<open>A public address, the answer of the resolver.\<close>

definition public_transport :: transport where
  "public_transport = \<lparr>tr_url = (\<lambda>u. Some \<lparr>up_protocol = ''https:'', up_hostname = ''hooks.test'', up_port = []\<rparr>),
     tr_lookup = (\<lambda>h. Inr [''2.2.2.10'']), tr_exchange = (\<lambda>a p h b. Inr (Some 200, [])),
     tr_utf8 = map (\<lambda>b. char_of (unat b))\<rparr>"

lemma public_address: "isIP ''2.2.2.10'' = Some (IPv4 33686026)"
  by (simp add: isIP_def parse_ipv4_def)

lemma public_pinned: "pinned_target public_transport url = Inr (''2.2.2.10'', 443)"
proof -
  have host: "isIP ''hooks.test'' = None"
    by (simp add: isIP_def parse_ipv4_def v4_seg_def is_digit_def parse_ipv6_def zone_ok_def v6_seg_def hex_nibble_def)
  have "\<not> v4_rules 33686026" by (simp add: v4_rules_ranges IPV4_RANGES_def quad_def)
  then have "all_permitted 443 [''2.2.2.10''] = Inr ()"
    by (simp add: permits_def isBlockedAddress_def public_address v6_rules_mapped)
  then show ?thesis
    by (simp add: pinned_target_def public_transport_def senderFor_def target_port_def resolveWebhookTarget_def host
        public_address starts_with_def)
qed

theorem webhook_target_public_witness:
  "\<exists>ip. isIP ''2.2.2.10'' = Some ip \<and> \<not> block_check ip"
  using webhook_target_public [OF public_pinned [of "''https://hooks.test''"]] by blast

end
