(* ===== verification/Delivery.thy ===== *)
theory Delivery
  imports Outbox Webhook_Transport
begin

text \<open>
  Delivering webhooks: \<open>apps/scheduler/src/infra/webhook-signing\<close> (signature header, secret cache and its
  warm-up), \<open>workers/webhook-delivery\<close> (one attempt per job, retries, permanent failure, auto-disabling)
  and \<open>crons/webhook-recovery\<close> (re-queueing of deliveries whose job was lost).

  A run sees one time, \<open>now\<close>. The world of a run holds the outside: the transport, the HMAC, the
  cipher, \<open>JSON.stringify\<close>, and whether the mail and the re-queueing succeed.
\<close>

section \<open>Signing secrets\<close>

record delivery_world =
  dw_transport :: transport
  dw_hmac :: "string \<Rightarrow> string \<Rightarrow> 8 word list"
  dw_aes :: aes
  dw_encryption_key :: string
  dw_json :: "event_payload \<Rightarrow> string"
  dw_elapsed :: int
  dw_mail_ok :: bool
  dw_queue_ok :: bool

definition buildSignatureHeader :: "delivery_world \<Rightarrow> string \<Rightarrow> string \<Rightarrow> int \<Rightarrow> string" where
  "buildSignatureHeader w secret body nowMs =
     (let ts = show_int (nowMs div 1000); v1 = toHex (dw_hmac w secret (ts @ ''.'' @ body))
      in ''t='' @ ts @ '',v1='' @ v1)"

definition secret_key :: "string \<Rightarrow> string" where
  "secret_key endpointId = ''webhook:secret:'' @ endpointId"

definition secret_set :: "string \<Rightarrow> string \<Rightarrow> (store, api_exn, unit) proc" where
  "secret_set endpointId secret = modify (\<lambda>s. s\<lparr>redis := (redis s)(secret_key endpointId \<mapsto> secret)\<rparr>)"

definition secret_delete :: "string \<Rightarrow> (store, api_exn, unit) proc" where
  "secret_delete endpointId = modify (\<lambda>s. s\<lparr>redis := (redis s)(secret_key endpointId := None)\<rparr>)"

definition rehydrate :: "delivery_world \<Rightarrow> string \<Rightarrow> (store, api_exn, string option) proc" where
  "rehydrate w endpointId =
     seq (gets (\<lambda>s. find_row ep_id endpointId (endpoints s))) (\<lambda>row.
     case row of
       None \<Rightarrow> ret None
     | Some r \<Rightarrow>
         if \<not> truthy (ep_signing_secret_ciphertext r) then ret None
         else
           (case decryptAesGcm (dw_aes w) (the (ep_signing_secret_ciphertext r)) (dw_encryption_key w) of
              Inl e \<Rightarrow> ret None
            | Inr plaintext \<Rightarrow> seq (secret_set endpointId plaintext) (\<lambda>_. ret (Some plaintext))))"

definition secret_get :: "delivery_world \<Rightarrow> string \<Rightarrow> (store, api_exn, string option) proc" where
  "secret_get w endpointId =
     seq (gets (\<lambda>s. redis s (secret_key endpointId))) (\<lambda>cached.
     if truthy cached then ret cached else rehydrate w endpointId)"

datatype warm_outcome = Warmed | Skipped | Warm_Failed

definition warm :: "delivery_world \<Rightarrow> endpoint_row \<Rightarrow> (store, api_exn, warm_outcome) proc" where
  "warm w row =
     (if \<not> truthy (ep_signing_secret_ciphertext row) then ret Skipped
      else
        (case decryptAesGcm (dw_aes w) (the (ep_signing_secret_ciphertext row)) (dw_encryption_key w) of
           Inl e \<Rightarrow> ret Warm_Failed
         | Inr plaintext \<Rightarrow> seq (secret_set (ep_id row) plaintext) (\<lambda>_. ret Warmed)))"

definition secret_warmup :: "delivery_world \<Rightarrow> (store, api_exn, warm_outcome list) proc" where
  "secret_warmup w =
     seq (gets (\<lambda>s. filter (\<lambda>r. ep_status r = Ep_Active) (endpoints s))) (\<lambda>rows. for_each (warm w) rows)"

section \<open>The failure mail\<close>

definition replace_all :: "char \<Rightarrow> string \<Rightarrow> string \<Rightarrow> string" where
  "replace_all c t s = concat (map (\<lambda>x. if x = c then t else [x]) s)"

definition escapeHtml_mail :: "string \<Rightarrow> string" where
  "escapeHtml_mail s =
     replace_all (CHR 0x27) ''&#39;'' (replace_all (CHR 0x22) ''&quot;'' (replace_all (CHR ''>'') ''&gt;''
       (replace_all (CHR ''<'') ''&lt;'' (replace_all (CHR ''&'') ''&amp;'' s))))"

text \<open>The texts of the mail, without its markup.\<close>

definition renderFailureEmail :: "string \<Rightarrow> string \<Rightarrow> nat \<Rightarrow> string \<Rightarrow> bool \<Rightarrow> nat \<Rightarrow> string list" where
  "renderFailureEmail deliveryId url httpStatus lastError autoDisabled recentFailures =
     [escapeHtml_mail url, escapeHtml_mail deliveryId,
      if 0 < httpStatus then ''HTTP '' @ show_nat httpStatus else ''network error'',
      escapeHtml_mail (take 1000 lastError)] @
     (if autoDisabled then [''This endpoint has been disabled automatically'', show_nat recentFailures] else [])"

section \<open>The worker\<close>

definition MAX_BACKOFF_MS :: int where
  "MAX_BACKOFF_MS = 43200000"

definition RETRY_BACKOFF_MS :: "int list" where
  "RETRY_BACKOFF_MS = [60000, 300000, 1800000, 7200000, MAX_BACKOFF_MS]"

definition AUTO_DISABLE_THRESHOLD :: nat where
  "AUTO_DISABLE_THRESHOLD = 5"

definition AUTO_DISABLE_WINDOW_MS :: int where
  "AUTO_DISABLE_WINDOW_MS = 24 * 60 * 60 * 1000"

definition retry_backoff :: "nat \<Rightarrow> int" where
  "retry_backoff attempt =
     (if 1 \<le> attempt \<and> attempt \<le> length RETRY_BACKOFF_MS then RETRY_BACKOFF_MS ! (attempt - 1) else MAX_BACKOFF_MS)"

datatype delivery_patch =
    Mark_Delivered nat int int
  | Mark_Failed nat string
  | Mark_Retrying nat nat int string string int
  | Bump_Next int

fun patch_delivery :: "delivery_patch \<Rightarrow> delivery_row \<Rightarrow> delivery_row" where
  "patch_delivery (Mark_Delivered httpStatus responseMs now) d =
     d\<lparr>dl_status := Dl_Delivered, dl_response_code := Some httpStatus, dl_response_ms := Some responseMs,
       dl_delivered_at := Some now, dl_next_attempt_at := None\<rparr>"
| "patch_delivery (Mark_Failed httpStatus lastError) d =
     d\<lparr>dl_status := Dl_Permanently_Failed, dl_response_code := (if httpStatus = 0 then None else Some httpStatus),
       dl_last_error := Some lastError, dl_next_attempt_at := None\<rparr>"
| "patch_delivery (Mark_Retrying nextAttempt httpStatus responseMs responseBody lastError nextAttemptAt) d =
     d\<lparr>dl_status := Dl_Retrying, dl_attempt := nextAttempt,
       dl_response_code := (if httpStatus = 0 then None else Some httpStatus), dl_response_ms := Some responseMs,
       dl_response_body := (if responseBody = [] then None else Some responseBody),
       dl_last_error := Some lastError, dl_next_attempt_at := Some nextAttemptAt\<rparr>"
| "patch_delivery (Bump_Next t) d = d\<lparr>dl_next_attempt_at := Some t\<rparr>"

definition update_delivery :: "string \<Rightarrow> delivery_patch \<Rightarrow> (store, api_exn, unit) proc" where
  "update_delivery i p =
     modify (\<lambda>s. s\<lparr>deliveries := update_where (\<lambda>d. dl_id d = i) (patch_delivery p) (deliveries s)\<rparr>)"

datatype endpoint_patch = Touch_Endpoint int | Disable_Endpoint

fun patch_endpoint :: "endpoint_patch \<Rightarrow> endpoint_row \<Rightarrow> endpoint_row" where
  "patch_endpoint (Touch_Endpoint now) e = e\<lparr>ep_last_delivered_at := Some now\<rparr>"
| "patch_endpoint Disable_Endpoint e = e\<lparr>ep_status := Ep_Disabled\<rparr>"

definition update_endpoint :: "string \<Rightarrow> endpoint_patch \<Rightarrow> (store, api_exn, unit) proc" where
  "update_endpoint i p =
     modify (\<lambda>s. s\<lparr>endpoints := update_where (\<lambda>e. ep_id e = i) (patch_endpoint p) (endpoints s)\<rparr>)"

definition markPermanentlyFailed :: "string \<Rightarrow> nat \<Rightarrow> string \<Rightarrow> (store, api_exn, unit) proc" where
  "markPermanentlyFailed deliveryId httpStatus lastError = update_delivery deliveryId (Mark_Failed httpStatus lastError)"

definition recent_failures :: "int \<Rightarrow> string \<Rightarrow> store \<Rightarrow> nat" where
  "recent_failures now endpointId s =
     count_where (\<lambda>d. dl_endpoint_id d = endpointId \<and> dl_status d = Dl_Permanently_Failed \<and>
       now - AUTO_DISABLE_WINDOW_MS \<le> dl_created_at d) (deliveries s)"

definition notifyMerchantOfFailure ::
  "delivery_world \<Rightarrow> int \<Rightarrow> string \<Rightarrow> string \<Rightarrow> nat \<Rightarrow> string \<Rightarrow> (store, api_exn, unit) proc" where
  "notifyMerchantOfFailure w now deliveryId endpointId httpStatus lastError =
     seq (gets (\<lambda>s. find_row ep_id endpointId (endpoints s))) (\<lambda>found.
     case found of
       None \<Rightarrow> ret ()
     | Some endpoint \<Rightarrow>
         seq (gets (\<lambda>s. find_row m_id (ep_merchant_id endpoint) (merchants s))) (\<lambda>owner.
         seq (or_raise (Crash ''required relation is missing'') owner) (\<lambda>merchant.
         seq (gets (recent_failures now endpointId)) (\<lambda>recentFailures.
         let autoDisabled = AUTO_DISABLE_THRESHOLD \<le> recentFailures \<and> ep_status endpoint = Ep_Active in
         seq (if autoDisabled then update_endpoint endpointId Disable_Endpoint else ret ()) (\<lambda>_.
         if dw_mail_ok w
         then modify (\<lambda>s. s\<lparr>emails := emails s @ [\<lparr>em_to = m_email merchant,
                em_subject = (if autoDisabled then ''Strimz webhook endpoint auto-disabled''
                              else ''Strimz webhook delivery permanently failed''),
                em_about = renderFailureEmail deliveryId (ep_url endpoint) httpStatus lastError autoDisabled recentFailures\<rparr>]\<rparr>)
         else ret ())))))"

text \<open>\<open>String.replace\<close> with a string replaces the first occurrence only.\<close>

fun event_type_header :: "string \<Rightarrow> string" where
  "event_type_header [] = []"
| "event_type_header (c # cs) = (if c = CHR ''_'' then CHR ''.'' # cs else c # event_type_header cs)"

definition delivery_headers :: "event_row \<Rightarrow> delivery_row \<Rightarrow> string \<Rightarrow> (string \<times> string) list" where
  "delivery_headers event delivery signature =
     [(''Content-Type'', ''application/json''), (''User-Agent'', ''Strimz/1.0''), (''Strimz-Signature'', signature),
      (''Strimz-Event-Id'', ev_id event), (''Strimz-Event-Type'', event_type_header (ev_type event)),
      (''X-Strimz-Delivery-Id'', dl_delivery_id delivery)]"

definition attempt_post ::
  "delivery_world \<Rightarrow> int \<Rightarrow> string \<Rightarrow> delivery_row \<Rightarrow> endpoint_row \<Rightarrow> event_row \<Rightarrow> api_exn + nat \<times> string" where
  "attempt_post w now secret delivery endpoint event =
     (let body = dw_json w (ev_payload event);
          signature = buildSignatureHeader w secret body now
      in transport_post (dw_transport w) (ep_url endpoint) (delivery_headers event delivery signature) body)"

definition unfinished :: "delivery_row \<Rightarrow> bool" where
  "unfinished d \<longleftrightarrow> dl_status d \<noteq> Dl_Delivered \<and> dl_status d \<noteq> Dl_Permanently_Failed"

text \<open>What follows the exchange, given its status (0 without one), body and network error.\<close>

definition conclude_attempt ::
  "config \<Rightarrow> delivery_world \<Rightarrow> int \<Rightarrow> webhook_delivery_job \<Rightarrow> delivery_row \<Rightarrow> endpoint_row \<Rightarrow>
   nat \<Rightarrow> string \<Rightarrow> string option \<Rightarrow> (store, api_exn, delivery_status \<times> nat option) proc" where
  "conclude_attempt cfg w now data delivery endpoint httpStatus responseBody networkError =
     (if 200 \<le> httpStatus \<and> httpStatus < 300 then
        seq (update_delivery (dl_id delivery) (Mark_Delivered httpStatus (dw_elapsed w) now)) (\<lambda>_.
        seq (update_endpoint (ep_id endpoint) (Touch_Endpoint now)) (\<lambda>_.
        ret (Dl_Delivered, Some httpStatus)))
      else
        let lastError = (case networkError of Some e \<Rightarrow> e | None \<Rightarrow> show_nat httpStatus @ '': '' @ take 500 responseBody) in
        if cf_webhook_max_attempts cfg \<le> dl_attempt delivery then
          seq (markPermanentlyFailed (dl_id delivery) httpStatus lastError) (\<lambda>_.
          seq (notifyMerchantOfFailure w now (dl_id delivery) (ep_id endpoint) httpStatus lastError) (\<lambda>_.
          ret (Dl_Permanently_Failed, Some httpStatus)))
        else
          let nextAttempt = dl_attempt delivery + 1; backoff = retry_backoff (dl_attempt delivery) in
          seq (update_delivery (dl_id delivery)
                 (Mark_Retrying nextAttempt httpStatus (dw_elapsed w) responseBody lastError (now + backoff))) (\<lambda>_.
          seq (require (dw_queue_ok w) (Crash ''queue unavailable'')) (\<lambda>_.
          seq (modify (\<lambda>s. s\<lparr>delivery_queue := delivery_queue s @ [(backoff, data)]\<rparr>)) (\<lambda>_.
          ret (Dl_Retrying, Some httpStatus)))))"

definition attempt_delivery ::
  "config \<Rightarrow> delivery_world \<Rightarrow> int \<Rightarrow> webhook_delivery_job \<Rightarrow> delivery_row \<Rightarrow> endpoint_row \<Rightarrow> event_row \<Rightarrow>
   (store, api_exn, delivery_status \<times> nat option) proc" where
  "attempt_delivery cfg w now data delivery endpoint event =
     seq (secret_get w (ep_id endpoint)) (\<lambda>secret.
     if \<not> truthy secret then
       seq (markPermanentlyFailed (dl_id delivery) 0 ''signing secret not in cache'') (\<lambda>_.
       seq (notifyMerchantOfFailure w now (dl_id delivery) (ep_id endpoint) 0 ''signing secret not in cache'') (\<lambda>_.
       ret (Dl_Permanently_Failed, None)))
     else
       (case attempt_post w now (the secret) delivery endpoint event of
          Inr (httpStatus, responseBody) \<Rightarrow> conclude_attempt cfg w now data delivery endpoint httpStatus responseBody None
        | Inl e \<Rightarrow> conclude_attempt cfg w now data delivery endpoint 0 [] (Some (exn_text e))))"

definition process_delivery ::
  "config \<Rightarrow> zod \<Rightarrow> delivery_world \<Rightarrow> int \<Rightarrow> webhook_delivery_job \<Rightarrow> (store, api_exn, delivery_status \<times> nat option) proc" where
  "process_delivery cfg z w now data =
     seq (require (delivery_job_ok z data) (Crash ''ZodError'')) (\<lambda>_.
     seq (gets (\<lambda>s. find_row dl_id (wj_delivery_id data) (deliveries s))) (\<lambda>d.
     seq (gets (\<lambda>s. find_row ep_id (wj_endpoint_id data) (endpoints s))) (\<lambda>e.
     seq (gets (\<lambda>s. find_row ev_id (wj_event_id data) (events s))) (\<lambda>v.
     case (d, e, v) of
       (Some delivery, Some endpoint, Some event) \<Rightarrow>
         if \<not> unfinished delivery then ret (dl_status delivery, None)
         else attempt_delivery cfg w now data delivery endpoint event
     | _ \<Rightarrow> raise p2025))))"

section \<open>Recovery\<close>

definition STRANDED_AFTER_MS :: int where
  "STRANDED_AFTER_MS = 2 * 60000"

definition MAX_AGE_MS :: int where
  "MAX_AGE_MS = 7 * 24 * 60 * 60000"

definition RECOVERY_BATCH :: nat where
  "RECOVERY_BATCH = 200"

definition stranded :: "int \<Rightarrow> endpoint_row list \<Rightarrow> delivery_row \<Rightarrow> bool" where
  "stranded now eps d \<longleftrightarrow>
     (dl_status d = Dl_Pending \<or> dl_status d = Dl_Retrying) \<and> now - MAX_AGE_MS < dl_created_at d \<and>
     (case find_row ep_id (dl_endpoint_id d) eps of None \<Rightarrow> False | Some e \<Rightarrow> ep_status e = Ep_Active) \<and>
     (case dl_next_attempt_at d of
        None \<Rightarrow> dl_created_at d < now - STRANDED_AFTER_MS
      | Some t \<Rightarrow> t < now - STRANDED_AFTER_MS)"

definition recovery_job :: "endpoint_row list \<Rightarrow> delivery_row \<Rightarrow> webhook_delivery_job" where
  "recovery_job eps d =
     (let e = the (find_row ep_id (dl_endpoint_id d) eps) in
      \<lparr>wj_delivery_id = dl_delivery_id d, wj_endpoint_id = dl_endpoint_id d, wj_url = ep_url e,
       wj_signing_secret_hash = ep_signing_secret_hash e, wj_event_id = dl_event_id d\<rparr>)"

definition requeue :: "zod \<Rightarrow> int \<Rightarrow> endpoint_row list \<Rightarrow> delivery_row \<Rightarrow> (store, api_exn, unit) proc" where
  "requeue z now eps d =
     seq (update_delivery (dl_id d) (Bump_Next (now + STRANDED_AFTER_MS))) (\<lambda>_.
     seq (require (delivery_job_ok z (recovery_job eps d)) (Crash ''ZodError'')) (\<lambda>_.
     modify (\<lambda>s. s\<lparr>delivery_queue := delivery_queue s @ [(0, recovery_job eps d)]\<rparr>)))"

definition recovery_batch :: "int \<Rightarrow> store \<Rightarrow> delivery_row list" where
  "recovery_batch now s = take RECOVERY_BATCH (filter (stranded now (endpoints s)) (deliveries s))"

definition sweep_deliveries :: "zod \<Rightarrow> int \<Rightarrow> (store, api_exn, nat) proc" where
  "sweep_deliveries z now =
     seq (gets (\<lambda>s. (endpoints s, recovery_batch now s))) (\<lambda>(eps, batch).
     seq (for_each (requeue z now eps) batch) (\<lambda>_. ret (length batch)))"

section \<open>Effects\<close>

lemma deliveries_updates [simp]:
  "deliveries (s\<lparr>redis := r\<rparr>) = deliveries s" "deliveries (s\<lparr>emails := m\<rparr>) = deliveries s"
  "deliveries (s\<lparr>endpoints := es\<rparr>) = deliveries s" "deliveries (s\<lparr>delivery_queue := q\<rparr>) = deliveries s"
  for s :: store
  by simp_all

lemma secret_get_frame:
  "\<exists>x f. secret_get w i s = (Inr x, s\<lparr>redis := f\<rparr>)"
proof -
  have same: "\<exists>x' f. (Inr x :: api_exn + string option, s) = (Inr x', s\<lparr>redis := f\<rparr>)" for x
    by (intro exI [of _ x] exI [of _ "redis s"]) simp
  show ?thesis
    using same by (auto simp: secret_get_def rehydrate_def secret_set_def split: option.split sum.split)
qed

lemma notify_deliveries [simp]:
  "deliveries (snd (notifyMerchantOfFailure w now d i st e s)) = deliveries s"
  by (auto simp: notifyMerchantOfFailure_def update_endpoint_def Let_def split: option.split)

text \<open>The writes that a run or a sweep makes on an unfinished delivery.\<close>

inductive delivery_move :: "nat \<Rightarrow> delivery_row \<Rightarrow> delivery_row \<Rightarrow> bool" for maxAttempts where
  deliver: "unfinished d \<Longrightarrow> 200 \<le> code \<Longrightarrow> code < 300 \<Longrightarrow>
    delivery_move maxAttempts d (patch_delivery (Mark_Delivered code ms now) d)"
| retry: "unfinished d \<Longrightarrow> dl_attempt d < maxAttempts \<Longrightarrow>
    delivery_move maxAttempts d (patch_delivery (Mark_Retrying (dl_attempt d + 1) code ms body err t) d)"
| give_up: "unfinished d \<Longrightarrow> maxAttempts \<le> dl_attempt d \<or> err = ''signing secret not in cache'' \<Longrightarrow>
    delivery_move maxAttempts d (patch_delivery (Mark_Failed code err) d)"
| requeued: "unfinished d \<Longrightarrow> delivery_move maxAttempts d (patch_delivery (Bump_Next t) d)"

inductive_cases delivery_moveE: "delivery_move m d d'"
inductive_simps delivery_move_simps: "delivery_move m d d'"

text \<open>
  How many runs a delivery has left; and the effect of a run on an unfinished delivery with id \<open>i\<close>: one
  step, which uses one of them up.
\<close>

definition runs_left :: "nat \<Rightarrow> delivery_row \<Rightarrow> nat" where
  "runs_left maxAttempts d = (if unfinished d then max 1 (maxAttempts + 1 - dl_attempt d) else 0)"

definition one_step :: "nat \<Rightarrow> string \<Rightarrow> store \<Rightarrow> store \<Rightarrow> bool" where
  "one_step m i s s' \<longleftrightarrow>
     (\<exists>d p. find_row dl_id i (deliveries s) = Some d \<and> delivery_move m d (patch_delivery p d) \<and>
        runs_left m (patch_delivery p d) \<le> runs_left m d - 1 \<and>
        deliveries s' = update_where (\<lambda>r. dl_id r = i) (patch_delivery p) (deliveries s))"

lemma runs_left_patch:
  "runs_left m (patch_delivery (Mark_Delivered code ms now) d) = 0"
  "runs_left m (patch_delivery (Mark_Failed code err) d) = 0"
  "dl_attempt d < m \<Longrightarrow> unfinished d \<Longrightarrow>
   runs_left m (patch_delivery (Mark_Retrying (dl_attempt d + 1) code ms body err t) d) = runs_left m d - 1"
  by (auto simp: runs_left_def unfinished_def)

lemmas runs_left_retry = runs_left_patch(3) [unfolded Suc_eq_plus1 [symmetric]]

lemma conclude_one_step:
  assumes "find_row dl_id i (deliveries s) = Some d" and "unfinished d"
  shows "one_step (cf_webhook_max_attempts cfg) i s (snd (conclude_attempt cfg w now data d ep st body err s))"
proof -
  have i: "dl_id d = i" using find_row_Some [OF assms(1)] by simp
  let ?m = "cf_webhook_max_attempts cfg"
  have step: "one_step ?m i s s'"
    if "deliveries s' = update_where (\<lambda>r. dl_id r = dl_id d) (patch_delivery p) (deliveries s)"
      "delivery_move ?m d (patch_delivery p d)" "runs_left ?m (patch_delivery p d) \<le> runs_left ?m d - 1" for s' p
    using that assms(1) unfolding one_step_def i by blast
  consider (ok) "200 \<le> st" "st < 300" | (last) "\<not> (200 \<le> st \<and> st < 300)" "?m \<le> dl_attempt d"
    | (more) "\<not> (200 \<le> st \<and> st < 300)" "dl_attempt d < ?m" by linarith
  then show ?thesis
  proof cases
    case ok
    then show ?thesis
      by (intro step [of _ "Mark_Delivered st (dw_elapsed w) now"] deliver [OF assms(2)])
         (simp_all add: conclude_attempt_def update_delivery_def update_endpoint_def runs_left_patch del: patch_delivery.simps)
  next
    case last
    let ?e = "case err of Some e \<Rightarrow> e | None \<Rightarrow> show_nat st @ '': '' @ take 500 body"
    show ?thesis
      by (intro step [of _ "Mark_Failed st ?e"] give_up [OF assms(2)])
         (use last in \<open>auto simp: conclude_attempt_def update_delivery_def markPermanentlyFailed_def Let_def runs_left_patch simp del: patch_delivery.simps\<close>)
  next
    case more
    let ?e = "case err of Some e \<Rightarrow> e | None \<Rightarrow> show_nat st @ '': '' @ take 500 body"
    show ?thesis
      by (intro step [of _ "Mark_Retrying (dl_attempt d + 1) st (dw_elapsed w) body ?e (now + retry_backoff (dl_attempt d))"]
          retry [OF assms(2)])
         (use more in \<open>auto simp: conclude_attempt_def update_delivery_def Let_def runs_left_retry assms(2) simp del: patch_delivery.simps\<close>)
  qed
qed

lemma attempt_one_step:
  assumes "find_row dl_id i (deliveries s) = Some d" and "unfinished d"
  shows "one_step (cf_webhook_max_attempts cfg) i s (snd (attempt_delivery cfg w now data d ep v s))"
proof -
  let ?m = "cf_webhook_max_attempts cfg" and ?t = "''signing secret not in cache''"
  obtain x f where get: "secret_get w (ep_id ep) s = (Inr x, s\<lparr>redis := f\<rparr>)" using secret_get_frame by blast
  let ?s = "s\<lparr>redis := f\<rparr>"
  have i: "dl_id d = i" using find_row_Some [OF assms(1)] by simp
  have found: "find_row dl_id i (deliveries ?s) = Some d" using assms(1) by simp
  have "one_step ?m i ?s (snd (attempt_delivery cfg w now data d ep v s))"
  proof (cases "truthy x")
    case True
    then show ?thesis
      by (auto simp: attempt_delivery_def seq_Inr [where m = "secret_get w (ep_id ep)" and s = s, OF get] split: sum.split prod.split
          intro: conclude_one_step [OF found assms(2)])
  next
    case False
    then have "deliveries (snd (attempt_delivery cfg w now data d ep v s)) =
        update_where (\<lambda>r. dl_id r = i) (patch_delivery (Mark_Failed 0 ?t)) (deliveries s)"
      by (simp add: attempt_delivery_def seq_Inr [where m = "secret_get w (ep_id ep)" and s = s, OF get] markPermanentlyFailed_def update_delivery_def i
          del: patch_delivery.simps)
    with give_up [OF assms(2), of ?m ?t 0] assms(1) runs_left_patch(2) [of ?m 0 ?t d] show ?thesis
      unfolding one_step_def by (auto simp del: patch_delivery.simps)
  qed
  then show ?thesis by (simp add: one_step_def)
qed

lemma process_cases:
  obtains (stop) "snd (process_delivery cfg z w now data s) = s"
  | (go) d e v where "find_row dl_id (wj_delivery_id data) (deliveries s) = Some d" "unfinished d"
      "find_row ep_id (wj_endpoint_id data) (endpoints s) = Some e"
      "process_delivery cfg z w now data s = attempt_delivery cfg w now data d e v s"
  by (cases "find_row dl_id (wj_delivery_id data) (deliveries s)"; cases "find_row ep_id (wj_endpoint_id data) (endpoints s)";
      cases "find_row ev_id (wj_event_id data) (events s)"; cases "delivery_job_ok z data";
      cases "unfinished (the (find_row dl_id (wj_delivery_id data) (deliveries s)))")
     (auto simp: process_delivery_def)

lemma process_one_step:
  "snd (process_delivery cfg z w now data s) = s \<or>
   one_step (cf_webhook_max_attempts cfg) (wj_delivery_id data) s (snd (process_delivery cfg z w now data s))"
  by (rule process_cases [of cfg z w now data s]) (simp_all add: attempt_one_step)

section \<open>Histories\<close>

lemma delivery_move_id: "delivery_move m d d' \<Longrightarrow> dl_id d' = dl_id d"
  by (erule delivery_moveE) auto

lemma history_id: "(delivery_move m)\<^sup>*\<^sup>* d d' \<Longrightarrow> dl_id d' = dl_id d"
  by (induction rule: rtranclp_induct) (simp_all add: delivery_move_id)

definition moved :: "nat \<Rightarrow> store \<Rightarrow> store \<Rightarrow> bool" where
  "moved m s s' \<longleftrightarrow> list_all2 (delivery_move m)\<^sup>*\<^sup>* (deliveries s) (deliveries s')"

lemma moved_refl: "moved m s s"
  by (simp add: moved_def list_all2_refl)

lemma moved_trans: "moved m s s' \<Longrightarrow> moved m s' s'' \<Longrightarrow> moved m s s''"
  unfolding moved_def by (rule list_all2_trans [where ?P1.0 = "(delivery_move m)\<^sup>*\<^sup>*"]) auto

lemma moved_ids: "moved m s s' \<Longrightarrow> map dl_id (deliveries s') = map dl_id (deliveries s)"
  unfolding moved_def by (induction rule: list_all2_induct) (auto dest: history_id)

lemma moved_update:
  assumes "distinct (map dl_id (deliveries s))" and "find_row dl_id i (deliveries s) = Some d"
    and "delivery_move m d (patch_delivery p d)"
    and "deliveries s' = update_where (\<lambda>r. dl_id r = i) (patch_delivery p) (deliveries s)"
  shows "moved m s s'"
proof -
  have "(delivery_move m)\<^sup>*\<^sup>* r (if dl_id r = i then patch_delivery p r else r)" if "r \<in> set (deliveries s)" for r
  proof (cases "dl_id r = i")
    case True
    with that assms(1) find_row_Some [OF assms(2)] have "r = d" by (auto simp: distinct_map inj_on_def)
    with assms(3) True show ?thesis by auto
  qed simp
  then show ?thesis by (simp add: moved_def assms(4) update_where_def list_all2_conv_all_nth)
qed

lemma one_step_moved: "distinct (map dl_id (deliveries s)) \<Longrightarrow> one_step m i s s' \<Longrightarrow> moved m s s'"
  unfolding one_step_def using moved_update by blast

lemma process_moved:
  "distinct (map dl_id (deliveries s)) \<Longrightarrow> moved (cf_webhook_max_attempts cfg) s (snd (process_delivery cfg z w now data s))"
  using process_one_step [of cfg z w now data s] one_step_moved moved_refl by fastforce

definition pending_again :: "store \<Rightarrow> delivery_row list \<Rightarrow> bool" where
  "pending_again s ds \<longleftrightarrow> (\<forall>d\<in>set ds. \<exists>r. find_row dl_id (dl_id d) (deliveries s) = Some r \<and> unfinished r)"

interpretation delivery_rows: row_update dl_id patch_delivery
proof
  show "dl_id (patch_delivery p r) = dl_id r" for p r by (cases p) simp_all
qed

lemma pending_again_bump:
  "pending_again s ds \<Longrightarrow> pending_again (s\<lparr>deliveries := update_where (\<lambda>r. dl_id r = i) (patch_delivery (Bump_Next t)) (deliveries s)\<rparr>) ds"
  unfolding pending_again_def
proof
  fix d assume "\<forall>d\<in>set ds. \<exists>r. find_row dl_id (dl_id d) (deliveries s) = Some r \<and> unfinished r" and "d \<in> set ds"
  then obtain r where "find_row dl_id (dl_id d) (deliveries s) = Some r" "unfinished r" by blast
  then show "\<exists>r. find_row dl_id (dl_id d)
      (deliveries (s\<lparr>deliveries := update_where (\<lambda>r. dl_id r = i) (patch_delivery (Bump_Next t)) (deliveries s)\<rparr>)) = Some r \<and> unfinished r"
    by (auto simp: delivery_rows.find_row_update unfinished_def)
qed

lemma requeue_effect:
  assumes "pending_again s (d # ds)" and "distinct (map dl_id (deliveries s))"
  shows "moved m s (snd (requeue z now eps d s)) \<and> pending_again (snd (requeue z now eps d s)) ds"
proof -
  let ?p = "Bump_Next (now + STRANDED_AFTER_MS)"
  obtain r where r: "find_row dl_id (dl_id d) (deliveries s) = Some r" "unfinished r"
    using assms(1) by (auto simp: pending_again_def)
  have eq: "deliveries (snd (requeue z now eps d s)) = update_where (\<lambda>r. dl_id r = dl_id d) (patch_delivery ?p) (deliveries s)"
    by (simp add: requeue_def update_delivery_def)
  have "pending_again s ds" using assms(1) by (simp add: pending_again_def)
  then have "pending_again (snd (requeue z now eps d s)) ds"
    using pending_again_bump [of s ds "dl_id d" "now + STRANDED_AFTER_MS"] by (simp add: pending_again_def eq)
  with moved_update [OF assms(2) r(1) requeued [OF r(2)] eq] show ?thesis by simp
qed

lemma requeue_all_moved:
  "pending_again s ds \<Longrightarrow> distinct (map dl_id (deliveries s)) \<Longrightarrow> moved m s (snd (for_each (requeue z now eps) ds s))"
proof (induction ds arbitrary: s)
  case Nil
  then show ?case by (simp add: moved_refl)
next
  case (Cons d ds)
  let ?r = "requeue z now eps d s"
  note eff = requeue_effect [OF Cons.prems, of m z now eps]
  show ?case
  proof (cases "fst ?r")
    case (Inl e)
    then have "?r = (Inl e, snd ?r)" by (metis prod.collapse)
    then have "snd (for_each (requeue z now eps) (d # ds) s) = snd ?r" by (simp add: seq_Inl)
    with eff show ?thesis by simp
  next
    case (Inr u)
    then have run: "?r = (Inr u, snd ?r)" by (metis prod.collapse)
    have "moved m (snd ?r) (snd (for_each (requeue z now eps) ds (snd ?r)))"
      using Cons.IH eff moved_ids Cons.prems(2) by metis
    moreover have "snd (for_each (requeue z now eps) (d # ds) s) = snd (for_each (requeue z now eps) ds (snd ?r))"
      using run by (simp add: seq_Inr [where m = "requeue z now eps d" and s = s, OF run])
    ultimately show ?thesis using eff moved_trans by metis
  qed
qed

lemma recovery_batch_pending:
  assumes "distinct (map dl_id (deliveries s))"
  shows "pending_again s (recovery_batch now s)"
  unfolding pending_again_def
proof
  fix d assume "d \<in> set (recovery_batch now s)"
  then have d: "d \<in> set (deliveries s)" "stranded now (endpoints s) d"
    by (auto simp: recovery_batch_def dest: in_set_takeD)
  then have "find_row dl_id (dl_id d) (deliveries s) = Some d" using find_row_self [OF assms] by blast
  with d(2) show "\<exists>r. find_row dl_id (dl_id d) (deliveries s) = Some r \<and> unfinished r"
    by (auto simp: stranded_def unfinished_def)
qed

lemma sweep_moved:
  "distinct (map dl_id (deliveries s)) \<Longrightarrow> moved m s (snd (sweep_deliveries z now s))"
  using requeue_all_moved [OF recovery_batch_pending] by (simp add: sweep_deliveries_def)

text \<open>The things that touch an existing delivery: a run of its job, and a recovery sweep.\<close>

datatype delivery_op = Run_Job delivery_world int webhook_delivery_job | Recover int

fun run_delivery_op :: "config \<Rightarrow> zod \<Rightarrow> delivery_op \<Rightarrow> store \<Rightarrow> store" where
  "run_delivery_op cfg z (Run_Job w now data) s = snd (process_delivery cfg z w now data s)"
| "run_delivery_op cfg z (Recover now) s = snd (sweep_deliveries z now s)"

lemma run_delivery_ops_moved:
  "distinct (map dl_id (deliveries s)) \<Longrightarrow> moved (cf_webhook_max_attempts cfg) s (fold (run_delivery_op cfg z) ops s)"
proof (induction ops arbitrary: s)
  case Nil
  then show ?case by (simp add: moved_refl)
next
  case (Cons op ops)
  let ?s = "run_delivery_op cfg z op s"
  have "moved (cf_webhook_max_attempts cfg) s ?s"
    using Cons.prems by (cases op) (simp_all add: process_moved sweep_moved)
  moreover from this Cons have "moved (cf_webhook_max_attempts cfg) ?s (fold (run_delivery_op cfg z) ops ?s)"
    using moved_ids by metis
  ultimately show ?case using moved_trans by (simp; metis)
qed

end
