(* ===== verification/Delivery_Facts.thy ===== *)
theory Delivery_Facts
  imports Delivery
begin

text \<open>
  What the delivery subsystem promises: deliveries follow a state machine and settle within a bounded number of runs, endpoints are
  disabled for repeated failure only, requests carry a signature the receiver accepts, secrets survive the
  loss of the cache, and stranded deliveries are queued again.
\<close>

section \<open>The state machine\<close>

text \<open>
  The machine that a delivery promises to follow, on its status and attempt number: while it is pending or
  retrying it may be delivered or fail for good, both at the attempt it stands at, or go on to the next attempt.
\<close>

inductive delivery_machine :: "nat \<Rightarrow> delivery_status \<times> nat \<Rightarrow> delivery_status \<times> nat \<Rightarrow> bool" for maxAttempts where
  delivers: "st = Dl_Pending \<or> st = Dl_Retrying \<Longrightarrow> delivery_machine maxAttempts (st, n) (Dl_Delivered, n)"
| retries: "st = Dl_Pending \<or> st = Dl_Retrying \<Longrightarrow> n < maxAttempts \<Longrightarrow> delivery_machine maxAttempts (st, n) (Dl_Retrying, n + 1)"
| fails: "st = Dl_Pending \<or> st = Dl_Retrying \<Longrightarrow> delivery_machine maxAttempts (st, n) (Dl_Permanently_Failed, n)"

definition row_identity :: "delivery_row \<Rightarrow> string \<times> string \<times> string \<times> string \<times> string \<times> string \<times> int" where
  "row_identity d = (dl_id d, dl_delivery_id d, dl_merchant_id d, dl_endpoint_id d, dl_event_id d, dl_event_name d, dl_created_at d)"

text \<open>What a delivery that has been written to looks like.\<close>

definition written_well :: "nat \<Rightarrow> delivery_row \<Rightarrow> bool" where
  "written_well maxAttempts d \<longleftrightarrow>
     (case dl_status d of
        Dl_Delivered \<Rightarrow> (\<exists>code. dl_response_code d = Some code \<and> 200 \<le> code \<and> code < 300) \<and> dl_delivered_at d \<noteq> None \<and>
          dl_next_attempt_at d = None
      | Dl_Permanently_Failed \<Rightarrow> dl_next_attempt_at d = None \<and> dl_last_error d \<noteq> None \<and>
          (maxAttempts \<le> dl_attempt d \<or> dl_last_error d = Some ''signing secret not in cache'')
      | _ \<Rightarrow> dl_next_attempt_at d \<noteq> None)"

lemma unfinished_status: "unfinished d \<Longrightarrow> dl_status d = Dl_Pending \<or> dl_status d = Dl_Retrying"
  by (cases "dl_status d") (simp_all add: unfinished_def)

lemma move_machine:
  assumes "delivery_move m d d'"
  shows "(delivery_machine m)\<^sup>*\<^sup>* (dl_status d, dl_attempt d) (dl_status d', dl_attempt d') \<and> row_identity d' = row_identity d \<and>
    dl_attempt d' \<le> max (dl_attempt d) m \<and> written_well m d' \<and> unfinished d"
  using assms
proof cases
  case (deliver code ms now)
  with delivers [OF unfinished_status [OF deliver(2)], of m] show ?thesis by (auto simp: row_identity_def written_well_def)
next
  case (retry code ms body err t)
  with retries [OF unfinished_status [OF retry(2)], of "dl_attempt d" m] show ?thesis by (auto simp: row_identity_def written_well_def)
next
  case (give_up err code)
  with fails [OF unfinished_status [OF give_up(2)], of m] show ?thesis by (auto simp: row_identity_def written_well_def)
next
  case (requeued t)
  with unfinished_status [OF requeued(2)] show ?thesis by (auto simp: row_identity_def written_well_def)
qed

lemma history_machine:
  "(delivery_move m)\<^sup>*\<^sup>* d d' \<Longrightarrow>
   (delivery_machine m)\<^sup>*\<^sup>* (dl_status d, dl_attempt d) (dl_status d', dl_attempt d') \<and> row_identity d' = row_identity d \<and>
    dl_attempt d' \<le> max (dl_attempt d) m \<and> (d' = d \<or> unfinished d \<and> written_well m d')"
proof (induction rule: rtranclp_induct)
  case (step y z)
  then show ?case using move_machine [OF step(2)] by (auto elim: rtranclp_trans)
qed simp

section \<open>Settling\<close>

locale bounded_retry =
  fixes step :: "'w \<Rightarrow> 's \<Rightarrow> 's" and ok :: "'s \<Rightarrow> bool" and left :: "'s \<Rightarrow> nat"
  assumes step_ok: "ok s \<Longrightarrow> ok (step w s)"
    and step_left: "ok s \<Longrightarrow> left (step w s) \<le> left s - 1"
begin

lemma steps_ok: "ok s \<Longrightarrow> ok (fold step ws s)"
  by (induction ws arbitrary: s) (simp_all add: step_ok)

lemma exhausted: "ok s \<Longrightarrow> left s \<le> length ws \<Longrightarrow> left (fold step ws s) = 0"
proof (induction ws arbitrary: s)
  case (Cons w ws)
  with step_ok step_left [of s w] show ?case by fastforce
qed simp

end

definition row_keys :: "store \<Rightarrow> string list \<times> string list \<times> event_row list" where
  "row_keys s = (map dl_id (deliveries s), map ep_id (endpoints s), events s)"

interpretation endpoint_rows: row_update ep_id patch_endpoint
proof
  show "ep_id (patch_endpoint p r) = ep_id r" for p r by (cases p) simp_all
qed

lemma keeps_row_keys [keeps_intros]:
  "keeps (\<lambda>s. row_keys s = K) (update_delivery i p)" "keeps (\<lambda>s. row_keys s = K) (update_endpoint i q)"
  "keeps (\<lambda>s. row_keys s = K) (secret_set i t)"
  by (simp_all add: keeps_def row_keys_def update_delivery_def update_endpoint_def secret_set_def)

lemma keeps_row_keys_secret_get [keeps_intros]: "keeps (\<lambda>s. row_keys s = K) (secret_get w i)"
proof (rule keepsI)
  fix s assume "row_keys s = K"
  moreover obtain x f where "secret_get w i s = (Inr x, s\<lparr>redis := f\<rparr>)" using secret_get_frame by blast
  ultimately show "row_keys (snd (secret_get w i s)) = K" by (simp add: row_keys_def)
qed

lemma keeps_row_keys_notify [keeps_intros]: "keeps (\<lambda>s. row_keys s = K) (notifyMerchantOfFailure w now d i st e)"
  unfolding notifyMerchantOfFailure_def Let_def
  by (intro keeps_intros) (auto simp: or_raise_def row_keys_def intro!: keeps_intros split: option.split)

lemma keeps_row_keys_conclude [keeps_intros]:
  "keeps (\<lambda>s. row_keys s = K) (conclude_attempt cfg w now data d ep st body err)"
  unfolding conclude_attempt_def markPermanentlyFailed_def Let_def
  by (intro keeps_intros) (simp_all add: row_keys_def)

lemma keeps_row_keys_attempt: "keeps (\<lambda>s. row_keys s = K) (attempt_delivery cfg w now data d ep v)"
  unfolding attempt_delivery_def markPermanentlyFailed_def
  by (intro keeps_intros) (auto intro!: keeps_intros split: sum.split)

definition deliverable :: "zod \<Rightarrow> webhook_delivery_job \<Rightarrow> store \<Rightarrow> bool" where
  "deliverable z data s \<longleftrightarrow> delivery_job_ok z data \<and> find_row dl_id (wj_delivery_id data) (deliveries s) \<noteq> None \<and>
     find_row ep_id (wj_endpoint_id data) (endpoints s) \<noteq> None \<and> find_row ev_id (wj_event_id data) (events s) \<noteq> None"

definition job_runs_left :: "nat \<Rightarrow> webhook_delivery_job \<Rightarrow> store \<Rightarrow> nat" where
  "job_runs_left m data s =
     (case find_row dl_id (wj_delivery_id data) (deliveries s) of None \<Rightarrow> 0 | Some d \<Rightarrow> runs_left m d)"

lemma find_row_keys: "map key t = map key t' \<Longrightarrow> find_row key k t = None \<longleftrightarrow> find_row key k t' = None"
  unfolding find_row_None by (metis (no_types, opaque_lifting) image_iff list.set_map)

lemma deliverable_keys: "row_keys s = row_keys s' \<Longrightarrow> deliverable z data s = deliverable z data s'"
  unfolding row_keys_def deliverable_def
  using find_row_keys [of dl_id "deliveries s" "deliveries s'"] find_row_keys [of ep_id "endpoints s" "endpoints s'"]
  by (simp del: not_None_eq)

lemma process_deliverable:
  assumes "deliverable z data s"
  obtains d e v where "find_row dl_id (wj_delivery_id data) (deliveries s) = Some d"
    "find_row ep_id (wj_endpoint_id data) (endpoints s) = Some e"
    "process_delivery cfg z w now data s =
       (if unfinished d then attempt_delivery cfg w now data d e v s else (Inr (dl_status d, None), s))"
  using assms
  by (cases "unfinished (the (find_row dl_id (wj_delivery_id data) (deliveries s)))")
     (auto simp: deliverable_def process_delivery_def)

interpretation delivery_retries: bounded_retry "\<lambda>(w, now) s. snd (process_delivery cfg z w now data s)"
  "deliverable z data" "job_runs_left (cf_webhook_max_attempts cfg) data" for cfg z data
proof
  fix s :: store and run :: "delivery_world \<times> int"
  assume ok: "deliverable z data s"
  obtain w now where run: "run = (w, now)" by (cases run)
  let ?t = "snd (process_delivery cfg z w now data s)" and ?m = "cf_webhook_max_attempts cfg"
  from process_deliverable [OF ok, of cfg w now] obtain d e v
    where d: "find_row dl_id (wj_delivery_id data) (deliveries s) = Some d"
      and p: "process_delivery cfg z w now data s =
        (if unfinished d then attempt_delivery cfg w now data d e v s else (Inr (dl_status d, None), s))" by metis
  have "row_keys ?t = row_keys s"
    using keeps_row_keys_attempt [of "row_keys s" cfg w now data d e v] by (simp add: p keeps_def)
  then show "deliverable z data ((\<lambda>(w, now) s. snd (process_delivery cfg z w now data s)) run s)"
    using ok deliverable_keys [of ?t s] by (simp add: run)
  have "job_runs_left ?m data ?t \<le> job_runs_left ?m data s - 1"
  proof (cases "unfinished d")
    case True
    with attempt_one_step [OF d True, of cfg w now data e v] show ?thesis
      using find_row_Some [OF d] d
      by (auto simp: one_step_def p job_runs_left_def delivery_rows.find_row_update simp del: patch_delivery.simps)
  next
    case False
    with d show ?thesis by (simp add: p job_runs_left_def runs_left_def)
  qed
  then show "job_runs_left ?m data ((\<lambda>(w, now) s. snd (process_delivery cfg z w now data s)) run s) \<le> job_runs_left ?m data s - 1"
    by (simp add: run)
qed

section \<open>Sample state\<close>

text \<open>A world in which no URL parses, and a store with one pending delivery.\<close>

definition broken_world :: delivery_world where
  [sample_defs]: "broken_world = \<lparr>dw_transport = public_transport\<lparr>tr_url := (\<lambda>_. None)\<rparr>, dw_hmac = (\<lambda>_ _. [1]),
     dw_aes = toy_aes, dw_encryption_key = toHex (replicate 32 0), dw_json = (\<lambda>_. ''{}''), dw_elapsed = 5,
     dw_mail_ok = True, dw_queue_ok = True\<rparr>"

definition sample_delivery :: "string \<Rightarrow> delivery_row" where
  [sample_defs]: "sample_delivery i = new_delivery i 0 failed_session_event ''payment_failed'' (sample_endpoint ''ep1'')"

definition sample_job :: webhook_delivery_job where
  "sample_job = delivery_job ''d1'' (sample_endpoint ''ep1'') ''evt1''"

definition delivery_store :: "delivery_row list \<Rightarrow> store" where
  "delivery_store ds = outbox_store\<lparr>deliveries := ds, redis := [secret_key ''ep1'' \<mapsto> ''whsec'']\<rparr>"

lemma sample_job_fields [simp]:
  "wj_delivery_id sample_job = ''d1''" "wj_endpoint_id sample_job = ''ep1''" "wj_event_id sample_job = ''evt1''"
  "delivery_job_ok lenient_zod sample_job"
  using sample_job_ok [of "''d1''" "''ep1''" "''evt1''"]
  by (simp_all add: sample_job_def delivery_job_def sample_endpoint_def)

lemma delivery_store_fields [simp]:
  "deliveries (delivery_store ds) = ds" "redis (delivery_store ds) (secret_key ''ep1'') = Some ''whsec''"
  "find_row ep_id ''ep1'' (endpoints (delivery_store ds)) = Some (sample_endpoint ''ep1'')"
  "find_row ev_id ''evt1'' (events (delivery_store ds)) = Some failed_session_event"
  "delivery_queue (delivery_store ds) = []"
  by (simp_all add: delivery_store_def outbox_store_def sample_endpoint_def failed_session_event_def ref_event_def
      sample_store_def empty_store_def)

lemma sample_delivery_fields [simp]:
  "dl_id (sample_delivery i) = i" "dl_attempt (sample_delivery i) = 1" "unfinished (sample_delivery i)"
  by (simp_all add: sample_delivery_def new_delivery_def unfinished_def)

lemma job_settles:
  assumes "deliverable z data s" and "job_runs_left (cf_webhook_max_attempts cfg) data s \<le> length runs"
  shows "\<exists>d'. find_row dl_id (wj_delivery_id data)
      (deliveries (fold (\<lambda>(w, now) s. snd (process_delivery cfg z w now data s)) runs s)) = Some d' \<and> \<not> unfinished d'"
proof -
  let ?t = "fold (\<lambda>(w, now) s. snd (process_delivery cfg z w now data s)) runs s"
  have "job_runs_left (cf_webhook_max_attempts cfg) data ?t = 0" by (rule delivery_retries.exhausted [OF assms])
  moreover have "deliverable z data ?t"
    by (rule delivery_retries.steps_ok [OF assms(1)])
  ultimately show ?thesis
    by (auto simp: job_runs_left_def deliverable_def runs_left_def split: option.splits if_splits)
qed

text \<open>
  C8. Every delivery settles: whatever the endpoint answers, however the runs are spaced, and even when mails
  and re-queueing fail, after as many runs of its job as there are attempts left (at least one) the delivery
  is delivered or permanently failed.
\<close>

theorem delivery_settles:
  assumes "deliverable z data s" and "find_row dl_id (wj_delivery_id data) (deliveries s) = Some d"
    and "max 1 (cf_webhook_max_attempts cfg + 1 - dl_attempt d) \<le> length runs"
  shows "\<exists>d'. find_row dl_id (wj_delivery_id data)
      (deliveries (fold (\<lambda>(w, now) s. snd (process_delivery cfg z w now data s)) runs s)) = Some d' \<and> \<not> unfinished d'"
proof (rule job_settles [OF assms(1)])
  show "job_runs_left (cf_webhook_max_attempts cfg) data s \<le> length runs"
    using assms(2,3) by (auto simp: job_runs_left_def runs_left_def)
qed

theorem delivery_settles_witness:
  "\<exists>d'. find_row dl_id ''d1'' (deliveries (fold (\<lambda>(w, now) s. snd (process_delivery sample_config lenient_zod w now sample_job s))
      (replicate 6 (broken_world, 0)) (delivery_store [sample_delivery ''d1'']))) = Some d' \<and> \<not> unfinished d'"
proof -
  have "deliverable lenient_zod sample_job (delivery_store [sample_delivery ''d1''])" by (simp add: deliverable_def)
  moreover have "max 1 (cf_webhook_max_attempts sample_config + 1 - dl_attempt (sample_delivery ''d1'')) \<le> length (replicate 6 (broken_world, 0 :: int))"
    by (simp add: sample_config_def)
  ultimately show ?thesis
    using delivery_settles [of lenient_zod sample_job "delivery_store [sample_delivery ''d1'']" "sample_delivery ''d1''" sample_config
        "replicate 6 (broken_world, 0)"] by simp
qed

text \<open>
  C7. Deliveries follow their state machine: whatever runs of jobs (duplicates of a job, jobs of other
  deliveries, any answers of the endpoints) and recovery sweeps follow one after the other in whatever order, each
  delivery row moves by steps of the machine only: from pending or retrying to delivered or to permanently failed, at
  the attempt it stands at, or to retrying at the next attempt while there are attempts left. A delivered or
  permanently failed row never changes again; no row changes its identity or passes the configured number of
  attempts; a row that became delivered has an answer in the 200s and its time; one that became permanently failed has
  an error, after the last attempt unless the endpoint had no secret; and any other row that was written to has its
  next attempt scheduled. Two jobs of one delivery that overlap in time are outside it: the updates of the worker are
  unconditional.
\<close>

theorem deliveries_follow_state_machine:
  assumes "distinct (map dl_id (deliveries s))"
  shows "list_all2 (\<lambda>d d'.
      (delivery_machine (cf_webhook_max_attempts cfg))\<^sup>*\<^sup>* (dl_status d, dl_attempt d) (dl_status d', dl_attempt d') \<and>
      row_identity d' = row_identity d \<and>
      (dl_status d = Dl_Delivered \<or> dl_status d = Dl_Permanently_Failed \<longrightarrow> d' = d) \<and>
      dl_attempt d' \<le> max (dl_attempt d) (cf_webhook_max_attempts cfg) \<and>
      (d' \<noteq> d \<longrightarrow> written_well (cf_webhook_max_attempts cfg) d'))
    (deliveries s) (deliveries (fold (run_delivery_op cfg z) ops s))"
  using run_delivery_ops_moved [OF assms, of cfg z ops] unfolding moved_def
proof (rule list_all2_mono)
  fix d d' assume "(delivery_move (cf_webhook_max_attempts cfg))\<^sup>*\<^sup>* d d'"
  from history_machine [OF this] show "(delivery_machine (cf_webhook_max_attempts cfg))\<^sup>*\<^sup>* (dl_status d, dl_attempt d) (dl_status d', dl_attempt d') \<and>
      row_identity d' = row_identity d \<and> (dl_status d = Dl_Delivered \<or> dl_status d = Dl_Permanently_Failed \<longrightarrow> d' = d) \<and>
      dl_attempt d' \<le> max (dl_attempt d) (cf_webhook_max_attempts cfg) \<and> (d' \<noteq> d \<longrightarrow> written_well (cf_webhook_max_attempts cfg) d')"
    by (auto simp: unfinished_def)
qed

lemma run_jobs:
  "fold (run_delivery_op cfg z) (map (\<lambda>(w, now). Run_Job w now data) runs) s =
   fold (\<lambda>(w, now) s. snd (process_delivery cfg z w now data s)) runs s"
  by (induction runs arbitrary: s) (simp_all add: case_prod_beta)

theorem deliveries_follow_state_machine_witness:
  "\<exists>d. deliveries (fold (run_delivery_op sample_config lenient_zod) (map (\<lambda>(w, now). Run_Job w now sample_job) (replicate 6 (broken_world, 0)))
        (delivery_store [sample_delivery ''d1''])) = [d] \<and>
     (delivery_machine 6)\<^sup>*\<^sup>* (Dl_Pending, 1) (dl_status d, dl_attempt d) \<and> \<not> unfinished d \<and> written_well 6 d \<and> dl_attempt d \<le> 6"
proof -
  let ?s = "delivery_store [sample_delivery ''d1'']" and ?runs = "replicate 6 (broken_world, 0 :: int)"
  let ?ops = "map (\<lambda>(w, now). Run_Job w now sample_job) ?runs"
  let ?t = "fold (run_delivery_op sample_config lenient_zod) ?ops ?s"
  have m: "cf_webhook_max_attempts sample_config = 6" by (simp add: sample_config_def)
  have start: "dl_status (sample_delivery ''d1'') = Dl_Pending" by (simp add: sample_delivery_def new_delivery_def)
  have "distinct (map dl_id (deliveries ?s))" by simp
  from deliveries_follow_state_machine [OF this, of sample_config lenient_zod ?ops]
  obtain d where d: "deliveries ?t = [d]" "(delivery_machine 6)\<^sup>*\<^sup>* (Dl_Pending, 1) (dl_status d, dl_attempt d)"
    "row_identity d = row_identity (sample_delivery ''d1'')" "dl_attempt d \<le> 6" "d \<noteq> sample_delivery ''d1'' \<longrightarrow> written_well 6 d"
    unfolding m delivery_store_fields(1) list_all2_Cons1 list_all2_Nil by (auto simp: start simp del: map_replicate)
  have "job_runs_left (cf_webhook_max_attempts sample_config) sample_job ?s \<le> length ?runs"
    by (simp add: m job_runs_left_def runs_left_def)
  from job_settles [OF _ this, of lenient_zod] have "\<exists>d'. find_row dl_id ''d1'' (deliveries ?t) = Some d' \<and> \<not> unfinished d'"
    unfolding run_jobs by (simp add: deliverable_def)
  with d(1) have "\<not> unfinished d" by (auto split: if_splits)
  moreover from this have "d \<noteq> sample_delivery ''d1''" using sample_delivery_fields(3) by metis
  ultimately show ?thesis using d by blast
qed

section \<open>Automatic disabling\<close>

definition disables_rightly :: "int \<Rightarrow> string \<Rightarrow> store \<Rightarrow> store \<Rightarrow> bool" where
  "disables_rightly now i s s' \<longleftrightarrow>
     (\<forall>k e e'. find_row ep_id k (endpoints s) = Some e \<and> find_row ep_id k (endpoints s') = Some e' \<longrightarrow>
        ep_status e' = ep_status e \<or>
        k = i \<and> ep_status e = Ep_Active \<and> ep_status e' = Ep_Disabled \<and> AUTO_DISABLE_THRESHOLD \<le> recent_failures now i s')"

lemma disables_none: "endpoints s' = endpoints s \<Longrightarrow> disables_rightly now i s s'"
  by (auto simp: disables_rightly_def)

lemma found_key: "find_row ep_id k t = Some e \<Longrightarrow> ep_id e = k"
  using find_row_Some by fastforce

lemma disables_notify: "disables_rightly now i s (snd (notifyMerchantOfFailure w now d i st e s))"
proof (cases "find_row ep_id i (endpoints s)")
  case None
  then show ?thesis by (simp add: notifyMerchantOfFailure_def disables_none)
next
  case (Some ep)
  show ?thesis
  proof (cases "find_row m_id (ep_merchant_id ep) (merchants s)")
    case None
    with Some show ?thesis by (simp add: notifyMerchantOfFailure_def disables_none)
  next
    case (Some m)
    let ?t = "snd (notifyMerchantOfFailure w now d i st e s)"
    show ?thesis
    proof (cases "AUTO_DISABLE_THRESHOLD \<le> recent_failures now i s \<and> ep_status ep = Ep_Active")
      case True
      with Some \<open>find_row ep_id i (endpoints s) = Some ep\<close>
      have "endpoints ?t = update_where (\<lambda>e. ep_id e = i) (patch_endpoint Disable_Endpoint) (endpoints s)" "deliveries ?t = deliveries s"
        by (simp_all add: notifyMerchantOfFailure_def update_endpoint_def Let_def)
      with True \<open>find_row ep_id i (endpoints s) = Some ep\<close> show ?thesis
        using found_key by (auto simp: disables_rightly_def endpoint_rows.find_row_update recent_failures_def split: if_splits)
    next
      case False
      with Some \<open>find_row ep_id i (endpoints s) = Some ep\<close> have "endpoints ?t = endpoints s"
        by (auto simp: notifyMerchantOfFailure_def Let_def)
      then show ?thesis by (rule disables_none)
    qed
  qed
qed

lemma disables_frame: "endpoints s = endpoints s0 \<Longrightarrow> disables_rightly now i s s' \<Longrightarrow> disables_rightly now i s0 s'"
  by (simp add: disables_rightly_def)

lemma disables_mark_notify:
  "disables_rightly now i s (snd (seq (markPermanentlyFailed j st e) (\<lambda>_. seq (notifyMerchantOfFailure w now d i st' e') (\<lambda>_. ret x)) s))"
  by (auto simp: markPermanentlyFailed_def update_delivery_def intro: disables_frame [OF _ disables_notify])

lemma disables_conclude:
  "disables_rightly now (ep_id ep) s (snd (conclude_attempt cfg w now data d ep st body err s))"
  by (cases "200 \<le> st"; cases "st < 300"; cases "cf_webhook_max_attempts cfg \<le> dl_attempt d")
     (auto simp: conclude_attempt_def Let_def update_delivery_def update_endpoint_def disables_none disables_mark_notify,
      auto simp: disables_rightly_def endpoint_rows.find_row_update split: if_splits)

lemma disables_attempt:
  "disables_rightly now (ep_id ep) s (snd (attempt_delivery cfg w now data d ep v s))"
proof -
  obtain x f where get: "secret_get w (ep_id ep) s = (Inr x, s\<lparr>redis := f\<rparr>)" using secret_get_frame by blast
  have "disables_rightly now (ep_id ep) (s\<lparr>redis := f\<rparr>) (snd (attempt_delivery cfg w now data d ep v s))"
    by (cases "truthy x")
       (auto simp: attempt_delivery_def seq_Inr [where m = "secret_get w (ep_id ep)" and s = s, OF get]
         disables_conclude disables_mark_notify split: sum.split prod.split)
  then show ?thesis by (rule disables_frame [rotated]) simp
qed

lemma disables_process: "disables_rightly now (wj_endpoint_id data) s (snd (process_delivery cfg z w now data s))"
proof (rule process_cases [of cfg z w now data s])
  assume "snd (process_delivery cfg z w now data s) = s"
  then show ?thesis by (simp add: disables_none)
next
  fix d e v
  assume "find_row ep_id (wj_endpoint_id data) (endpoints s) = Some e"
    and "process_delivery cfg z w now data s = attempt_delivery cfg w now data d e v s"
  then show ?thesis using disables_attempt [of now e s cfg w data d v] found_key by metis
qed

text \<open>
  Automatic disabling is deserved: a run of a delivery job changes the status of no endpoint but its own,
  never enables one, and disables its endpoint only when at least five permanently failed deliveries to it,
  created within the last 24 hours, are on record.
\<close>

theorem auto_disable_deserved:
  assumes "find_row ep_id k (endpoints s) = Some e"
    and "find_row ep_id k (endpoints (snd (process_delivery cfg z w now data s))) = Some e'"
    and "ep_status e' \<noteq> ep_status e"
  shows "k = wj_endpoint_id data \<and> ep_status e = Ep_Active \<and> ep_status e' = Ep_Disabled \<and>
    5 \<le> length (filter (\<lambda>d. dl_endpoint_id d = k \<and> dl_status d = Dl_Permanently_Failed \<and> now - 86400000 \<le> dl_created_at d)
      (deliveries (snd (process_delivery cfg z w now data s))))"
  using disables_process [of now data s cfg z w] assms
  unfolding disables_rightly_def recent_failures_def AUTO_DISABLE_THRESHOLD_def AUTO_DISABLE_WINDOW_MS_def count_where_def
  by fastforce

lemma broken_attempt:
  "attempt_post broken_world now secret d e v = Inl (Crash ''Invalid URL'')"
  by (simp add: attempt_post_def transport_post_def pinned_target_def broken_world_def Let_def)

text \<open>Four deliveries to the endpoint have failed for good; the fifth is on its last attempt.\<close>

definition failing_store :: store where
  "failing_store = delivery_store
     (map (\<lambda>i. (sample_delivery i)\<lparr>dl_status := Dl_Permanently_Failed\<rparr>) [''d2'', ''d3'', ''d4'', ''d5''] @
      [(sample_delivery ''d1'')\<lparr>dl_attempt := 6\<rparr>])"

lemma failing_run:
  "find_row ep_id ''ep1'' (endpoints (snd (process_delivery sample_config lenient_zod broken_world 1000 sample_job failing_store))) =
     Some ((sample_endpoint ''ep1'')\<lparr>ep_status := Ep_Disabled\<rparr>)"
proof -
  have merchant: "find_row m_id ''m1'' (merchants failing_store) = Some sample_merchant"
    by (simp add: failing_store_def delivery_store_def outbox_store_def sample_store_def empty_store_def sample_merchant_def)
  have owner: "ep_merchant_id (sample_endpoint ''ep1'') = ''m1''" "ep_status (sample_endpoint ''ep1'') = Ep_Active"
    "ep_id (sample_endpoint ''ep1'') = ''ep1''"
    by (simp_all add: sample_endpoint_def)
  have d: "dl_endpoint_id (sample_delivery i) = ''ep1''" "dl_created_at (sample_delivery i) = 0" "unfinished ((sample_delivery i)\<lparr>dl_attempt := n\<rparr>)"
    for i n
    by (simp_all add: sample_delivery_def new_delivery_def sample_endpoint_def unfinished_def)
  have secret: "secret_get broken_world ''ep1'' failing_store = (Inr (Some ''whsec''), failing_store)"
    by (simp add: secret_get_def failing_store_def)
  let ?d = "(sample_delivery ''d1'')\<lparr>dl_attempt := 6\<rparr>" and ?e = "sample_endpoint ''ep1''"
  have rows: "find_row dl_id ''d1'' (deliveries failing_store) = Some ?d"
    "find_row ep_id ''ep1'' (endpoints failing_store) = Some ?e"
    "find_row ev_id ''evt1'' (events failing_store) = Some failed_session_event"
    by (simp_all add: failing_store_def)
  have run: "process_delivery sample_config lenient_zod broken_world 1000 sample_job failing_store =
      conclude_attempt sample_config broken_world 1000 sample_job ?d ?e 0 [] (Some ''Invalid URL'') failing_store"
    by (simp add: process_delivery_def rows d(3) attempt_delivery_def owner(3) broken_attempt
        seq_Inr [where m = "secret_get broken_world ''ep1''", OF secret])
  let ?s = "failing_store\<lparr>deliveries := update_where (\<lambda>r. dl_id r = ''d1'') (patch_delivery (Mark_Failed 0 ''Invalid URL'')) (deliveries failing_store)\<rparr>"
  have "snd (conclude_attempt sample_config broken_world 1000 sample_job ?d ?e 0 [] (Some ''Invalid URL'') failing_store) =
      snd (notifyMerchantOfFailure broken_world 1000 ''d1'' ''ep1'' 0 ''Invalid URL'' ?s)"
    by (simp add: conclude_attempt_def markPermanentlyFailed_def update_delivery_def owner sample_config_def Let_def del: patch_delivery.simps)
  moreover have "recent_failures 1000 ''ep1'' ?s = 5"
    by (simp add: recent_failures_def failing_store_def d AUTO_DISABLE_WINDOW_MS_def)
  ultimately show ?thesis
    by (simp add: run notifyMerchantOfFailure_def rows owner merchant AUTO_DISABLE_THRESHOLD_def update_endpoint_def Let_def
        endpoint_rows.find_row_update del: patch_delivery.simps)
qed

theorem auto_disable_deserved_witness:
  "5 \<le> length (filter (\<lambda>d. dl_endpoint_id d = ''ep1'' \<and> dl_status d = Dl_Permanently_Failed \<and> 1000 - 86400000 \<le> dl_created_at d)
      (deliveries (snd (process_delivery sample_config lenient_zod broken_world 1000 sample_job failing_store))))"
proof -
  have "find_row ep_id ''ep1'' (endpoints failing_store) = Some (sample_endpoint ''ep1'')" by (simp add: failing_store_def)
  from auto_disable_deserved [OF this failing_run] show ?thesis by (simp add: sample_endpoint_def)
qed

section \<open>Signed requests\<close>

lemma buildSignatureHeader_signs: "buildSignatureHeader w secret body nowMs = signWebhookPayload (dw_hmac w) body secret (nowMs div 1000)"
  by (simp add: buildSignatureHeader_def signWebhookPayload_def Let_def)

text \<open>The declared event names; the stored enum has the same names with the first dot written as an underscore.\<close>

definition webhookEventNames :: "string list" where
  "webhookEventNames = [''payment.created'', ''payment.completed'', ''payment.failed'', ''subscription.created'',
     ''subscription.charged'', ''subscription.charge_failed'', ''subscription.recovery_attempt'', ''subscription.cancelled'',
     ''subscription.lapsed'', ''refund.created'', ''refund.completed'', ''invoice.created'', ''invoice.paid'',
     ''invoice.overdue'', ''agent.job_proposed'', ''agent.job_completed'', ''agent.job_disputed'',
     ''compliance.wallet_flagged'', ''compliance.wallet_blocked'']"

lemma event_type_roundtrip: "n \<in> set webhookEventNames \<Longrightarrow> event_type_header (dot_to_underscore n) = n"
  unfolding webhookEventNames_def by auto

text \<open>
  C37. A request authenticates itself: an attempt posts the serialised payload to the URL of the endpoint, with
  headers whose signature the verification of the SDK accepts for the very body that is posted, under the
  endpoint's secret, at any clock within five minutes of the attempt (and rejects as out of range at any other), and
  which name the event by its wire type, for each of the declared event names, its id and the id of the delivery.
\<close>

theorem delivered_request_verifies:
  assumes "dw_hmac w secret (show_int (now div 1000) @ ''.'' @ dw_json w (ev_payload event)) \<noteq> []"
    and "0 \<le> now \<and> now \<le> 8640000000000000" and "n \<in> set webhookEventNames" and "ev_type event = dot_to_underscore n"
  shows "\<exists>headers sig.
    attempt_post w now secret delivery endpoint event =
      transport_post (dw_transport w) (ep_url endpoint) headers (dw_json w (ev_payload event)) \<and>
    map_of headers ''Strimz-Signature'' = Some sig \<and>
    (\<forall>clock. verifyWebhookSignature (dw_hmac w) other (dw_json w (ev_payload event)) sig secret WEBHOOK_SIGNATURE_TOLERANCE_SECONDS clock =
      (if \<bar>clock - now div 1000\<bar> \<le> 300 then Valid else Invalid Timestamp_Out_Of_Range)) \<and>
    map_of headers ''Strimz-Event-Type'' = Some n \<and> map_of headers ''Strimz-Event-Id'' = Some (ev_id event) \<and>
    map_of headers ''X-Strimz-Delivery-Id'' = Some (dl_delivery_id delivery)"
proof -
  let ?body = "dw_json w (ev_payload event)"
  let ?sig = "buildSignatureHeader w secret ?body now"
  have "0 \<le> now div 1000" "now div 1000 \<le> 8640000000000" using assms(2) by auto
  then have "\<bar>now div 1000\<bar> \<le> 2 ^ 53" by simp
  note valid = signed_payload_verifies [of "dw_hmac w" secret "now div 1000" ?body other WEBHOOK_SIGNATURE_TOLERANCE_SECONDS, OF assms(1) this]
  show ?thesis
  proof (intro exI conjI allI)
    show "attempt_post w now secret delivery endpoint event =
      transport_post (dw_transport w) (ep_url endpoint) (delivery_headers event delivery ?sig) ?body"
      by (simp add: attempt_post_def Let_def)
    show "verifyWebhookSignature (dw_hmac w) other ?body ?sig secret WEBHOOK_SIGNATURE_TOLERANCE_SECONDS clock =
      (if \<bar>clock - now div 1000\<bar> \<le> 300 then Valid else Invalid Timestamp_Out_Of_Range)" for clock
      using valid [of clock] by (simp add: buildSignatureHeader_signs WEBHOOK_SIGNATURE_TOLERANCE_SECONDS_def)
  qed (simp_all add: delivery_headers_def assms(4) event_type_roundtrip [OF assms(3)])
qed

theorem delivered_request_verifies_witness:
  "\<exists>headers sig. attempt_post broken_world 5000 ''k'' (sample_delivery ''d1'') (sample_endpoint ''ep1'') failed_session_event =
      transport_post (dw_transport broken_world) ''https://ep1'' headers ''{}'' \<and>
    map_of headers ''Strimz-Signature'' = Some sig \<and> map_of headers ''Strimz-Event-Type'' = Some ''payment.failed'' \<and>
    map_of headers ''Strimz-Event-Id'' = Some ''evt1'' \<and>
    verifyWebhookSignature (\<lambda>_ _. [1]) (\<lambda>_. None) ''{}'' sig ''k'' WEBHOOK_SIGNATURE_TOLERANCE_SECONDS 305 = Valid"
proof -
  have w: "dw_hmac broken_world = (\<lambda>_ _. [1])" "dw_json broken_world = (\<lambda>_. ''{}'')" by (simp_all add: broken_world_def)
  have n: "''payment.failed'' \<in> set webhookEventNames" "ev_type failed_session_event = dot_to_underscore ''payment.failed''"
    by (simp_all add: webhookEventNames_def failed_session_event_def ref_event_def)
  have u: "ep_url (sample_endpoint ''ep1'') = ''https://ep1''" by (simp add: sample_endpoint_def)
  from delivered_request_verifies [of broken_world "''k''" 5000 failed_session_event "''payment.failed''"
      "sample_delivery ''d1''" "sample_endpoint ''ep1''" "\<lambda>_. None", OF _ _ n]
  obtain headers sig where h: "attempt_post broken_world 5000 ''k'' (sample_delivery ''d1'') (sample_endpoint ''ep1'') failed_session_event =
      transport_post (dw_transport broken_world) ''https://ep1'' headers ''{}''"
    "map_of headers ''Strimz-Signature'' = Some sig" "map_of headers ''Strimz-Event-Type'' = Some ''payment.failed''"
    "map_of headers ''Strimz-Event-Id'' = Some ''evt1''"
    "\<forall>clock. verifyWebhookSignature (\<lambda>_ _. [1]) (\<lambda>_. None) ''{}'' sig ''k'' WEBHOOK_SIGNATURE_TOLERANCE_SECONDS clock =
      (if \<bar>clock - 5\<bar> \<le> 300 then Valid else Invalid Timestamp_Out_Of_Range)"
    unfolding w u sample_event_fields by auto
  moreover have "verifyWebhookSignature (\<lambda>_ _. [1]) (\<lambda>_. None) ''{}'' sig ''k'' WEBHOOK_SIGNATURE_TOLERANCE_SECONDS 305 = Valid"
    using spec [OF h(5), of 305] by simp
  ultimately show ?thesis by blast
qed

text \<open>
  Signing secrets survive the loss of the cache: for an endpoint whose ciphertext column holds its
  encrypted secret, the worker finds the secret whether or not it is cached, and it is cached afterwards.
\<close>

lemma secret_survives_flush:
  assumes "encryptAesGcm (dw_aes w) nonce secret (dw_encryption_key w) = Inr blob" and "length nonce = 12"
    and "\<And>k. ae_decrypt (dw_aes w) k nonce (ae_encrypt (dw_aes w) k nonce secret) = Some secret"
    and "find_row ep_id i (endpoints s) = Some e" and "ep_signing_secret_ciphertext e = Some blob"
    and "redis s (secret_key i) = None \<or> redis s (secret_key i) = Some secret" and "secret \<noteq> []"
  shows "\<exists>s'. secret_get w i s = (Inr (Some secret), s') \<and> redis s' (secret_key i) = Some secret"
proof -
  have "decryptAesGcm (dw_aes w) blob (dw_encryption_key w) = Inr secret" by (rule decrypt_encrypt [OF assms(1-3)])
  moreover have "truthy (Some blob)" using assms(1) by (auto simp: encryptAesGcm_def split: sum.splits)
  ultimately show ?thesis
    using assms(4-7) by (auto simp: secret_get_def rehydrate_def secret_set_def)
qed

lemma secret_survives_flush_example:
  "\<exists>s'. secret_get broken_world ''ep1'' (outbox_store\<lparr>endpoints := [(sample_endpoint ''ep1'')
        \<lparr>ep_signing_secret_ciphertext := Some (''v1:'' @ toHex (replicate 12 0) @ '':'' @ toHex [104, 105])\<rparr>]\<rparr>) =
      (Inr (Some ''hi''), s') \<and> redis s' (secret_key ''ep1'') = Some ''hi''"
proof -
  let ?blob = "''v1:'' @ toHex (replicate 12 0) @ '':'' @ toHex [104, 105]"
  let ?e = "(sample_endpoint ''ep1'')\<lparr>ep_signing_secret_ciphertext := Some ?blob\<rparr>"
  have world: "dw_aes broken_world = toy_aes" "dw_encryption_key broken_world = toHex (replicate 32 0)"
    by (simp_all add: broken_world_def)
  have enc: "encryptAesGcm (dw_aes broken_world) (replicate 12 0) ''hi'' (dw_encryption_key broken_world) = Inr ?blob"
    by (simp add: world encryptAesGcm_def importKey_toHex toy_aes_def)
  have cipher: "ae_decrypt (dw_aes broken_world) k (replicate 12 0) (ae_encrypt (dw_aes broken_world) k (replicate 12 0) ''hi'') = Some ''hi''" for k
    by (simp add: world toy_aes_def char_of_def bit_0)
  have "find_row ep_id ''ep1'' (endpoints (outbox_store\<lparr>endpoints := [?e]\<rparr>)) = Some ?e" by (simp add: sample_endpoint_def)
  moreover have "redis (outbox_store\<lparr>endpoints := [?e]\<rparr>) (secret_key ''ep1'') = None"
    by (simp add: outbox_store_def sample_store_def empty_store_def)
  ultimately show ?thesis
    by (intro secret_survives_flush [OF enc _ cipher, of "''ep1''" "outbox_store\<lparr>endpoints := [?e]\<rparr>" ?e]) simp_all
qed

section \<open>The failure mail\<close>

fun esc :: "char \<Rightarrow> string" where
  "esc c = (if c = CHR ''&'' then ''&amp;'' else if c = CHR ''<'' then ''&lt;'' else if c = CHR ''>'' then ''&gt;''
    else if c = CHR 0x22 then ''&quot;'' else if c = CHR 0x27 then ''&#39;'' else [c])"

lemma replace_all_concat: "replace_all c t (concat (map f s)) = concat (map (replace_all c t \<circ> f) s)"
  by (induction s) (simp_all add: replace_all_def)

text \<open>
  Escaping is one pass: the five successive replacements of \<open>escapeHtml_mail\<close> amount to replacing each
  character on its own, ampersands first, so no entity is escaped twice; and nothing that could open a tag or
  close an attribute is left in the mail.
\<close>

theorem escapeHtml_one_pass:
  "escapeHtml_mail s = concat (map esc s) \<and> set (escapeHtml_mail s) \<inter> {CHR ''<'', CHR ''>'', CHR 0x22, CHR 0x27} = {}"
proof -
  have "replace_all (CHR ''&'') ''&amp;'' s = concat (map (\<lambda>c. if c = CHR ''&'' then ''&amp;'' else [c]) s)"
    by (simp add: replace_all_def)
  then have one: "escapeHtml_mail s = concat (map esc s)"
    unfolding escapeHtml_mail_def by (simp only: replace_all_concat, intro arg_cong [of _ _ concat] map_cong refl) (auto simp: replace_all_def)
  have "set (esc c) \<inter> {CHR ''<'', CHR ''>'', CHR 0x22, CHR 0x27} = {}" for c by auto
  with one show ?thesis by auto
qed

section \<open>Recovery\<close>

lemma requeue_all_ok:
  assumes "\<forall>d\<in>set ds. delivery_job_ok z (recovery_job eps d)"
  shows "fst (for_each (requeue z now eps) ds s) = Inr (map (\<lambda>_. ()) ds) \<and>
    deliveries (snd (for_each (requeue z now eps) ds s)) =
      update_where (\<lambda>r. dl_id r \<in> dl_id ` set ds) (patch_delivery (Bump_Next (now + STRANDED_AFTER_MS))) (deliveries s) \<and>
    endpoints (snd (for_each (requeue z now eps) ds s)) = endpoints s \<and>
    delivery_queue (snd (for_each (requeue z now eps) ds s)) = delivery_queue s @ map (\<lambda>d. (0, recovery_job eps d)) ds"
  using assms
proof (induction ds arbitrary: s)
  case Nil
  then show ?case by (simp add: update_where_none)
next
  case (Cons d ds)
  let ?t = "snd (requeue z now eps d s)"
  have run: "requeue z now eps d s = (Inr (), ?t)" using Cons.prems by (simp add: requeue_def update_delivery_def)
  have t: "deliveries ?t = update_where (\<lambda>r. dl_id r = dl_id d) (patch_delivery (Bump_Next (now + STRANDED_AFTER_MS))) (deliveries s)"
    "endpoints ?t = endpoints s" "delivery_queue ?t = delivery_queue s @ [(0, recovery_job eps d)]"
    using Cons.prems by (simp_all add: requeue_def update_delivery_def)
  have all: "for_each (requeue z now eps) (d # ds) s =
      seq (for_each (requeue z now eps) ds) (\<lambda>ys. ret (() # ys)) ?t"
    by (simp add: seq_Inr [where m = "requeue z now eps d" and s = s, OF run])
  have upd: "update_where (\<lambda>r. dl_id r \<in> K) (patch_delivery p) (update_where (\<lambda>r. dl_id r = k) (patch_delivery p) l) =
      update_where (\<lambda>r. dl_id r = k \<or> dl_id r \<in> K) (patch_delivery p) l" if "p = Bump_Next u" for K k p u l
    using that by (induction l) auto
  obtain r u where ru: "for_each (requeue z now eps) ds ?t = (r, u)" by fastforce
  with Cons.IH [of ?t] Cons.prems show ?case
    by (simp add: all seq_def t upd [OF refl] del: for_each.simps patch_delivery.simps)
qed

text \<open>
  Stranded deliveries are queued again, once: when no more deliveries are stranded than a batch holds, a sweep
  queues one job for each of them and nothing else,
  all of them unfinished; and no sweep of the next four minutes finds one of them stranded again.
\<close>

theorem stranded_deliveries_requeued:
  assumes "\<forall>d\<in>set (recovery_batch now s). delivery_job_ok z (recovery_job (endpoints s) d)"
    and "length (filter (stranded now (endpoints s)) (deliveries s)) \<le> RECOVERY_BATCH"
    and "distinct (map dl_id (deliveries s))" and "sweep_deliveries z now s = (r, s')"
  shows "r = Inr (length (recovery_batch now s)) \<and>
    delivery_queue s' = delivery_queue s @
      map (\<lambda>d. (0, recovery_job (endpoints s) d)) (filter (stranded now (endpoints s)) (deliveries s)) \<and>
    (\<forall>d\<in>set (recovery_batch now s). unfinished d) \<and>
    (\<forall>later d d'. now \<le> later \<and> later \<le> now + 240000 \<and> d \<in> set (recovery_batch now s) \<and>
       d' \<in> set (deliveries s') \<and> dl_id d' = dl_id d \<longrightarrow> \<not> stranded later (endpoints s') d')"
proof -
  let ?b = "recovery_batch now s"
  have b: "?b = filter (stranded now (endpoints s)) (deliveries s)" using assms(2) by (simp add: recovery_batch_def)
  note all = requeue_all_ok [OF assms(1), of now s]
  obtain v u where run: "for_each (requeue z now (endpoints s)) ?b s = (v, u)" by fastforce
  with all assms(4) have s': "s' = u" "r = Inr (length ?b)" by (auto simp: sweep_deliveries_def seq_def)
  have later: "\<not> stranded l (endpoints u) d'"
    if "l \<le> now + 240000" "d \<in> set ?b" "d' \<in> set (deliveries u)" "dl_id d' = dl_id d" for l d d'
  proof -
    let ?p = "Bump_Next (now + STRANDED_AFTER_MS)"
    from that(3) all run obtain q where "d' = (if dl_id q \<in> dl_id ` set ?b then patch_delivery ?p q else q)"
      by (auto simp: set_update_where simp del: patch_delivery.simps)
    moreover from this have "dl_id q = dl_id d" using that(4) by (auto split: if_splits)
    ultimately have "d' = patch_delivery ?p q" using that(2) by (metis image_eqI)
    then have "dl_next_attempt_at d' = Some (now + STRANDED_AFTER_MS)" by simp
    with that(1) show ?thesis by (simp add: stranded_def STRANDED_AFTER_MS_def)
  qed
  have "unfinished d" if "d \<in> set ?b" for d using that by (auto simp: b stranded_def unfinished_def)
  with later all run b s' show ?thesis by auto
qed

theorem stranded_deliveries_requeued_witness:
  "fst (sweep_deliveries lenient_zod 600000 (delivery_store [sample_delivery ''d1''])) = Inr 1 \<and>
   delivery_queue (snd (sweep_deliveries lenient_zod 600000 (delivery_store [sample_delivery ''d1'']))) = [(0, sample_job)]"
proof -
  let ?s = "delivery_store [sample_delivery ''d1'']"
  have ep: "dl_endpoint_id (sample_delivery ''d1'') = ''ep1''" "ep_status (sample_endpoint ''ep1'') = Ep_Active"
    by (simp_all add: sample_delivery_def new_delivery_def sample_endpoint_def)
  have str: "stranded 600000 (endpoints ?s) (sample_delivery ''d1'')"
    by (simp add: stranded_def ep) (simp add: sample_delivery_def new_delivery_def MAX_AGE_MS_def STRANDED_AFTER_MS_def)
  then have b: "filter (stranded 600000 (endpoints ?s)) (deliveries ?s) = [sample_delivery ''d1'']"
    "recovery_batch 600000 ?s = [sample_delivery ''d1'']" by (simp_all add: recovery_batch_def RECOVERY_BATCH_def)
  have job: "recovery_job (endpoints ?s) (sample_delivery ''d1'') = sample_job"
    by (simp add: recovery_job_def ep Let_def)
      (simp add: sample_job_def delivery_job_def sample_delivery_def new_delivery_def sample_endpoint_def failed_session_event_def ref_event_def)
  show ?thesis
    using stranded_deliveries_requeued [of 600000 ?s lenient_zod "fst (sweep_deliveries lenient_zod 600000 ?s)"
        "snd (sweep_deliveries lenient_zod 600000 ?s)"]
    by (simp add: str b(2) job RECOVERY_BATCH_def)
qed

end
