(* ===== verification/Webhook_Endpoints.thy ===== *)
theory Webhook_Endpoints
  imports Delivery_Facts Paging
begin

text \<open>
  The merchant's side of webhooks in the API (\<open>apps/api/src/modules/webhooks\<close>): registering an endpoint, its
  signing secret, rotation, enabling and disabling, the deliveries and their replay, and the address guard of the
  registration (\<open>ssrf-guard.ts\<close>). The resolver, the digest, the cipher and the draws are parameters; the worker
  of \<open>Delivery\<close> reads what is written here.
\<close>

section \<open>The address guard\<close>

definition dotted_quad :: "string \<Rightarrow> (nat \<times> nat) option" where
  "dotted_quad addr =
     (case split_on (CHR ''.'') addr of
        [a, b, c, d] \<Rightarrow> if list_all (\<lambda>p. p \<noteq> [] \<and> list_all is_digit p) [a, b, c, d] then Some (big_nat a, big_nat b) else None
      | _ \<Rightarrow> None)"

definition private_quad :: "nat \<Rightarrow> nat \<Rightarrow> bool" where
  "private_quad a b \<longleftrightarrow> a = 10 \<or> a = 127 \<or> a = 0 \<or> a = 169 \<and> b = 254 \<or> a = 172 \<and> 16 \<le> b \<and> b \<le> 31 \<or>
     a = 192 \<and> b = 168 \<or> a = 100 \<and> 64 \<le> b \<and> b \<le> 127"

definition isPrivateIp :: "string \<Rightarrow> api_exn + bool" where
  "isPrivateIp addr =
     (case isBlockedAddress addr of
        Inl e \<Rightarrow> Inl e
      | Inr True \<Rightarrow> Inr True
      | Inr False \<Rightarrow>
          Inr (addr = ''::1'' \<or> starts_with addr ''fc'' \<or> starts_with addr ''fd'' \<or> starts_with (to_lower addr) ''fe80:'' \<or>
               (case dotted_quad addr of None \<Rightarrow> False | Some (a, b) \<Rightarrow> private_quad a b)))"

fun any_private :: "string list \<Rightarrow> api_exn + bool" where
  "any_private [] = Inr False"
| "any_private (a # as) =
     (case isPrivateIp a of
        Inl e \<Rightarrow> Inl e
      | Inr p \<Rightarrow> if p then Inr True else any_private as)"

definition isPrivateOrLoopback :: "(string \<Rightarrow> api_exn + string list) \<Rightarrow> string \<Rightarrow> api_exn + bool" where
  "isPrivateOrLoopback lookupAll hostname =
     (let literal = (if starts_with hostname ''['' \<and> last hostname = CHR '']'' then butlast (tl hostname) else hostname);
          lower = to_lower hostname in
      if isIP literal \<noteq> None then isBlockedAddress literal
      else if lower = ''localhost'' \<or> lower = ''ip6-localhost'' \<or> drop (length lower - 6) lower = ''.local'' then Inr True
      else case lookupAll hostname of
        Inl e \<Rightarrow> Inr True
      | Inr addrs \<Rightarrow> any_private addrs)"

definition assertSafeUrl :: "transport \<Rightarrow> string \<Rightarrow> api_exn + unit" where
  "assertSafeUrl t url =
     (case tr_url t url of
        None \<Rightarrow> Inl (bad_request ''invalid_request'')
      | Some parsed \<Rightarrow>
          if up_protocol parsed \<noteq> ''https:'' then Inl (bad_request ''invalid_request'')
          else case isPrivateOrLoopback (tr_lookup t) (up_hostname parsed) of
            Inl e \<Rightarrow> Inl e
          | Inr True \<Rightarrow> Inl (bad_request ''invalid_request'')
          | Inr False \<Rightarrow> Inr ())"

section \<open>On the wire\<close>

definition prismaEventNameToWire :: "string \<Rightarrow> string" where
  "prismaEventNameToWire name =
     (let resource = takeWhile (\<lambda>c. c \<noteq> CHR ''_'') name in
      if CHR ''_'' \<notin> set name then name else resource @ CHR ''.'' # drop (length resource + 1) name)"

record endpoint_wire =
  ew_id :: string
  ew_merchant_id :: string
  ew_mode :: api_mode
  ew_url :: string
  ew_description :: "string option"
  ew_events :: "string list"
  ew_status :: endpoint_status
  ew_signing_secret_prefix :: string
  ew_last_delivered_at :: "int option"
  ew_created_at :: int

definition serialiseEndpoint :: "endpoint_row \<Rightarrow> endpoint_wire" where
  "serialiseEndpoint r = \<lparr>ew_id = ep_id r, ew_merchant_id = ep_merchant_id r, ew_mode = ep_mode r, ew_url = ep_url r,
     ew_description = ep_description r, ew_events = map prismaEventNameToWire (ep_events r), ew_status = ep_status r,
     ew_signing_secret_prefix = ep_signing_secret_prefix r, ew_last_delivered_at = ep_last_delivered_at r,
     ew_created_at = ep_created_at r\<rparr>"

record delivery_wire =
  dv_id :: string
  dv_merchant_id :: string
  dv_endpoint_id :: string
  dv_event_id :: string
  dv_event_name :: string
  dv_status :: delivery_status
  dv_attempt :: nat
  dv_response_code :: "nat option"
  dv_response_ms :: "int option"
  dv_last_error :: "string option"
  dv_next_attempt_at :: "int option"
  dv_delivered_at :: "int option"
  dv_created_at :: int

definition serialiseDelivery :: "delivery_row \<Rightarrow> delivery_wire" where
  "serialiseDelivery r = \<lparr>dv_id = dl_id r, dv_merchant_id = dl_merchant_id r, dv_endpoint_id = dl_endpoint_id r,
     dv_event_id = dl_event_id r, dv_event_name = prismaEventNameToWire (dl_event_name r), dv_status = dl_status r,
     dv_attempt = dl_attempt r, dv_response_code = dl_response_code r, dv_response_ms = dl_response_ms r,
     dv_last_error = dl_last_error r, dv_next_attempt_at = dl_next_attempt_at r, dv_delivered_at = dl_delivered_at r,
     dv_created_at = dl_created_at r\<rparr>"

section \<open>Endpoints and their secrets\<close>

record webhook_env =
  we_transport :: transport
  we_sha256 :: "string \<Rightarrow> string"
  we_aes :: aes
  we_encryption_key :: string
  we_redis_ok :: bool

record create_endpoint_input =
  ce_url :: string
  ce_events :: "string list"
  ce_mode :: api_mode
  ce_description :: "string option"

definition persistSigningSecret :: "webhook_env \<Rightarrow> 8 word list \<Rightarrow> string \<Rightarrow> string \<Rightarrow> (store, api_exn, string) proc" where
  "persistSigningSecret w nonce endpointId plaintext =
     seq (lift_sum (encryptAesGcm (we_aes w) nonce plaintext (we_encryption_key w))) (\<lambda>ciphertext.
     seq (require (we_redis_ok w) (Crash ''redis'')) (\<lambda>_.
     seq (secret_set endpointId plaintext) (\<lambda>_. ret ciphertext)))"

definition new_secret :: "string \<Rightarrow> string" where
  "new_secret draw = ''whsec_'' @ draw"

datatype endpoint_change =
  Set_Ciphertext string
| Set_Status endpoint_status
| Set_Secret string string string

fun change_endpoint :: "endpoint_change \<Rightarrow> endpoint_row \<Rightarrow> endpoint_row" where
  "change_endpoint (Set_Ciphertext c) r = r\<lparr>ep_signing_secret_ciphertext := Some c\<rparr>"
| "change_endpoint (Set_Status st) r = r\<lparr>ep_status := st\<rparr>"
| "change_endpoint (Set_Secret hash c prefix) r =
     r\<lparr>ep_signing_secret_hash := hash, ep_signing_secret_ciphertext := Some c, ep_signing_secret_prefix := prefix\<rparr>"

text \<open>\<open>merchantWebhookEndpoint.update\<close>.\<close>

definition write_endpoint :: "string \<Rightarrow> endpoint_change \<Rightarrow> (store, api_exn, endpoint_row) proc" where
  "write_endpoint i p =
     seq (gets (\<lambda>s. find_row ep_id i (endpoints s))) (\<lambda>r.
     seq (or_raise p2025 r) (\<lambda>e.
     seq (modify (\<lambda>s. s\<lparr>endpoints := update_where (\<lambda>r. ep_id r = i) (change_endpoint p) (endpoints s)\<rparr>)) (\<lambda>_.
     ret (change_endpoint p e))))"

definition new_endpoint :: "webhook_env \<Rightarrow> string \<Rightarrow> string \<Rightarrow> int \<Rightarrow> string \<Rightarrow> create_endpoint_input \<Rightarrow> endpoint_row" where
  "new_endpoint w i secret now merchantId inp = \<lparr>ep_id = i, ep_merchant_id = merchantId, ep_mode = ce_mode inp, ep_url = ce_url inp,
     ep_events = map dot_to_underscore (ce_events inp), ep_status = Ep_Active, ep_signing_secret_hash = we_sha256 w secret,
     ep_signing_secret_ciphertext = None, ep_signing_secret_prefix = take 12 secret, ep_description = ce_description inp,
     ep_last_delivered_at = None, ep_created_at = now\<rparr>"

definition createEndpoint ::
  "webhook_env \<Rightarrow> string \<Rightarrow> string \<Rightarrow> 8 word list \<Rightarrow> int \<Rightarrow> string \<Rightarrow> create_endpoint_input \<Rightarrow> (store, api_exn, endpoint_wire \<times> string) proc" where
  "createEndpoint w i draw nonce now merchantId inp =
     (let secret = new_secret draw in
      seq (lift_sum (assertSafeUrl (we_transport w) (ce_url inp))) (\<lambda>_.
      seq (modify (\<lambda>s. s\<lparr>endpoints := endpoints s @ [new_endpoint w i secret now merchantId inp]\<rparr>)) (\<lambda>_.
      seq (persistSigningSecret w nonce i secret) (\<lambda>ciphertext.
      seq (write_endpoint i (Set_Ciphertext ciphertext)) (\<lambda>row.
      ret (serialiseEndpoint row, secret))))))"

definition own_endpoint :: "string \<Rightarrow> string \<Rightarrow> (store, api_exn, endpoint_row) proc" where
  "own_endpoint merchantId i =
     seq (gets (\<lambda>s. find (\<lambda>r. ep_id r = i \<and> ep_merchant_id r = merchantId) (endpoints s))) (or_raise not_found)"

definition retrieveEndpoint :: "string \<Rightarrow> string \<Rightarrow> (store, api_exn, endpoint_wire) proc" where
  "retrieveEndpoint merchantId i = seq (own_endpoint merchantId i) (\<lambda>r. ret (serialiseEndpoint r))"

definition listEndpoints :: "string \<Rightarrow> list_params \<Rightarrow> (store, api_exn, endpoint_wire page) proc" where
  "listEndpoints merchantId p = gets (\<lambda>s. map_page serialiseEndpoint
     (list_page ep_id p (newest_first ep_created_at (filter (\<lambda>r. ep_merchant_id r = merchantId) (endpoints s)))))"

definition setEndpointStatus :: "string \<Rightarrow> string \<Rightarrow> endpoint_status \<Rightarrow> (store, api_exn, endpoint_wire) proc" where
  "setEndpointStatus merchantId i st =
     seq (own_endpoint merchantId i) (\<lambda>_.
     seq (write_endpoint i (Set_Status st)) (\<lambda>r. ret (serialiseEndpoint r)))"

definition rotateSecret ::
  "webhook_env \<Rightarrow> string \<Rightarrow> 8 word list \<Rightarrow> string \<Rightarrow> string \<Rightarrow> (store, api_exn, endpoint_wire \<times> string) proc" where
  "rotateSecret w draw nonce merchantId i =
     (let secret = new_secret draw in
      seq (own_endpoint merchantId i) (\<lambda>_.
      seq (persistSigningSecret w nonce i secret) (\<lambda>ciphertext.
      seq (write_endpoint i (Set_Secret (we_sha256 w secret) ciphertext (take 12 secret))) (\<lambda>row.
      ret (serialiseEndpoint row, secret)))))"

section \<open>Deliveries\<close>

definition own_delivery :: "string \<Rightarrow> string \<Rightarrow> (store, api_exn, delivery_row) proc" where
  "own_delivery merchantId i =
     seq (gets (\<lambda>s. find (\<lambda>r. dl_id r = i \<and> dl_merchant_id r = merchantId) (deliveries s))) (or_raise not_found)"

record delivery_detail =
  dd_delivery :: delivery_wire
  dd_delivery_id :: string
  dd_response_body :: "string option"
  dd_request_payload :: "event_payload option"

text \<open>Without an event the payload is the empty object (\<open>None\<close>).\<close>

definition retrieveDelivery :: "string \<Rightarrow> string \<Rightarrow> (store, api_exn, delivery_detail) proc" where
  "retrieveDelivery merchantId i =
     seq (own_delivery merchantId i) (\<lambda>r.
     seq (gets (\<lambda>s. find_row ev_id (dl_event_id r) (events s))) (\<lambda>ev.
     ret \<lparr>dd_delivery = serialiseDelivery r, dd_delivery_id = dl_delivery_id r, dd_response_body = dl_response_body r,
          dd_request_payload = map_option ev_payload ev\<rparr>))"

record delivery_filter =
  df_endpoint_id :: "string option"
  df_status :: "delivery_status option"
  df_event_name :: "string option"

definition delivery_selected :: "delivery_filter \<Rightarrow> delivery_row \<Rightarrow> bool" where
  "delivery_selected f d \<longleftrightarrow>
     (df_endpoint_id f \<noteq> None \<longrightarrow> df_endpoint_id f = Some (dl_endpoint_id d)) \<and>
     (df_status f \<noteq> None \<longrightarrow> df_status f = Some (dl_status d)) \<and>
     (truthy (df_event_name f) \<longrightarrow> dl_event_name d = dot_to_underscore (the (df_event_name f)))"

definition listDeliveries :: "string \<Rightarrow> list_params \<Rightarrow> delivery_filter \<Rightarrow> (store, api_exn, delivery_wire page) proc" where
  "listDeliveries merchantId p f = gets (\<lambda>s. map_page serialiseDelivery
     (list_page dl_id p (newest_first dl_created_at
       (filter (\<lambda>d. dl_merchant_id d = merchantId \<and> delivery_selected f d) (deliveries s)))))"

definition reset_delivery :: "delivery_row \<Rightarrow> delivery_row" where
  "reset_delivery d = d\<lparr>dl_status := Dl_Pending, dl_attempt := 1, dl_next_attempt_at := None, dl_last_error := None,
     dl_response_code := None\<rparr>"

definition replay_job :: "delivery_row \<Rightarrow> endpoint_row \<Rightarrow> webhook_delivery_job" where
  "replay_job d ep = \<lparr>wj_delivery_id = dl_delivery_id d, wj_endpoint_id = ep_id ep, wj_url = ep_url ep,
     wj_signing_secret_hash = ep_signing_secret_hash ep, wj_event_id = dl_event_id d\<rparr>"

definition replay :: "zod \<Rightarrow> string \<Rightarrow> string \<Rightarrow> (store, api_exn, delivery_wire) proc" where
  "replay z merchantId i =
     seq (own_delivery merchantId i) (\<lambda>row.
     seq (gets (\<lambda>s. find_row ep_id (dl_endpoint_id row) (endpoints s))) (\<lambda>e.
     seq (or_raise (bad_request ''invalid_request'') e) (\<lambda>endpoint.
     seq (modify (\<lambda>s. s\<lparr>deliveries := update_where (\<lambda>d. dl_id d = dl_id row) reset_delivery (deliveries s)\<rparr>)) (\<lambda>_.
     seq (require (delivery_job_ok z (replay_job row endpoint)) (Crash ''ZodError'')) (\<lambda>_.
     seq (modify (\<lambda>s. s\<lparr>delivery_queue := delivery_queue s @ [(0, replay_job row endpoint)]\<rparr>)) (\<lambda>_.
     ret (serialiseDelivery (reset_delivery row))))))))"

section \<open>Properties\<close>

lemma isPrivateIp_public: "isPrivateIp a = Inr False \<Longrightarrow> \<exists>ip. isIP a = Some ip \<and> \<not> block_check ip"
  by (auto simp: isPrivateIp_def isBlockedAddress_def split: option.splits sum.splits bool.splits)

lemma any_private_public: "any_private as = Inr False \<Longrightarrow> \<forall>a\<in>set as. \<exists>ip. isIP a = Some ip \<and> \<not> block_check ip"
  by (induction as) (auto split: sum.splits if_splits dest: isPrivateIp_public)

lemma seq_InrI: "m s = (Inr x, t) \<Longrightarrow> seq m k s = k x t"
  by (simp add: seq_def)

text \<open>
  What registration accepts, delivery can reach: an accepted URL is https and, with the same answers of the resolver,
  the worker's own guard admits it, so the first attempt goes to a public address. A name that resolves to no address
  at all passes registration and fails at delivery; \<open>new URL\<close> keeps brackets only around an IPv6 address.
\<close>

theorem accepted_url_reachable:
  assumes "assertSafeUrl t url = Inr ()" and "\<And>h. tr_lookup t h \<noteq> Inr []"
    and "\<And>u. tr_url t url = Some u \<Longrightarrow> starts_with (up_hostname u) ''['' \<Longrightarrow> isIP (butlast (tl (up_hostname u))) \<noteq> None"
  shows "\<exists>u address. tr_url t url = Some u \<and> up_protocol u = ''https:'' \<and> pinned_target t url = Inr (address, target_port u)"
proof -
  from assms(1) obtain u where u: "tr_url t url = Some u" "up_protocol u = ''https:''"
    and public: "isPrivateOrLoopback (tr_lookup t) (up_hostname u) = Inr False"
    by (auto simp: assertSafeUrl_def split: option.splits if_splits sum.splits bool.splits)
  let ?h = "up_hostname u"
  let ?lit = "if starts_with ?h ''['' \<and> last ?h = CHR '']'' then butlast (tl ?h) else ?h"
  have "\<exists>addrs. (case isIP ?lit of None \<Rightarrow> tr_lookup t ?lit | Some ip \<Rightarrow> Inr [?lit]) = Inr addrs \<and>
    (\<forall>a\<in>set addrs. \<exists>ip. isIP a = Some ip \<and> \<not> block_check ip)"
  proof (cases "isIP ?lit")
    case None
    then have host: "?lit = ?h" using assms(3) [OF u(1)] by (auto split: if_splits)
    with None public obtain addrs where "tr_lookup t ?h = Inr addrs" "any_private addrs = Inr False"
      by (auto simp: isPrivateOrLoopback_def Let_def split: sum.splits if_splits)
    with None host any_private_public show ?thesis by auto
  next
    case (Some ip)
    with public have "isBlockedAddress ?lit = Inr False"
      by (auto simp: isPrivateOrLoopback_def Let_def split: if_splits)
    with Some show ?thesis by (auto simp: isBlockedAddress_def)
  qed
  then obtain addrs where addrs: "(case isIP ?lit of None \<Rightarrow> tr_lookup t ?lit | Some ip \<Rightarrow> Inr [?lit]) = Inr addrs"
    and ok: "\<forall>a\<in>set addrs. \<exists>ip. isIP a = Some ip \<and> \<not> block_check ip" by blast
  from addrs assms(2) obtain a as where "addrs = a # as" by (cases addrs) (auto split: option.splits)
  with addrs ok all_permitted_iff [of "target_port u" addrs] have "\<exists>n. resolveWebhookTarget (tr_lookup t) ?h (target_port u) = Inr (a, n)"
    by (simp add: resolveWebhookTarget_def Let_def del: all_permitted.simps)
  with u show ?thesis by (auto simp: pinned_target_def senderFor_def)
qed

lemma dotted_quad_ipv4:
  assumes "parse_ipv4 s = Some w"
  obtains a b c d where "dotted_quad s = Some (a, b)" "unat w = quad a b c d" "a \<le> 255" "b \<le> 255" "c \<le> 255" "d \<le> 255"
proof -
  from assms obtain sa sb sc sd a b c d where split: "split_on (CHR ''.'') s = [sa, sb, sc, sd]"
    and segs: "v4_seg sa = Some a" "v4_seg sb = Some b" "v4_seg sc = Some c" "v4_seg sd = Some d"
    and w: "w = word_of_nat (((a * 256 + b) * 256 + c) * 256 + d)"
    by (auto simp: parse_ipv4_def map_eq_Cons_conv split: list.splits option.splits)
  have seg: "v4_seg t = Some n \<Longrightarrow> t \<noteq> [] \<and> list_all is_digit t \<and> big_nat t = n \<and> n \<le> 255" for t n
    by (auto simp: v4_seg_def split: if_splits)
  note facts = segs [THEN seg]
  have "quad a b c d < 2 ^ 32" using facts by (simp add: quad_def)
  then have "take_bit 32 (quad a b c d) = quad a b c d" by (simp only: take_bit_nat_eq_self)
  then have "unat (word_of_nat (quad a b c d) :: 32 word) = quad a b c d" by (simp add: unsigned_of_nat)
  then have "unat w = quad a b c d" by (simp only: w quad_def)
  with facts split that show ?thesis by (simp add: dotted_quad_def)
qed

lemma quad_between: "b0 \<le> b \<Longrightarrow> b \<le> b1 \<Longrightarrow> c \<le> 255 \<Longrightarrow> d \<le> 255 \<Longrightarrow> quad a b0 0 0 \<le> quad a b c d \<and> quad a b c d \<le> quad a b1 255 255"
  by (simp add: quad_def)

lemma private_quad_ranges:
  assumes "b \<le> 255" "c \<le> 255" "d \<le> 255" "private_quad a b"
  shows "\<exists>(lo, hi)\<in>set IPV4_RANGES. lo \<le> quad a b c d \<and> quad a b c d \<le> hi"
proof -
  have range: ?thesis if "(quad a b0 0 0, quad a b1 255 255) \<in> set IPV4_RANGES" "b0 \<le> b" "b \<le> b1" for b0 b1
    using that quad_between [OF that(2,3) assms(2,3)] by blast
  have members: "(quad 10 0 0 0, quad 10 255 255 255) \<in> set IPV4_RANGES" "(quad 127 0 0 0, quad 127 255 255 255) \<in> set IPV4_RANGES"
    "(quad 0 0 0 0, quad 0 255 255 255) \<in> set IPV4_RANGES" "(quad 169 254 0 0, quad 169 254 255 255) \<in> set IPV4_RANGES"
    "(quad 172 16 0 0, quad 172 31 255 255) \<in> set IPV4_RANGES" "(quad 192 168 0 0, quad 192 168 255 255) \<in> set IPV4_RANGES"
    "(quad 100 64 0 0, quad 100 127 255 255) \<in> set IPV4_RANGES"
    by (simp_all add: IPV4_RANGES_def)
  from assms(4) consider "a \<in> {10, 127, 0}" | "a = 169" "b = 254" | "a = 172" "16 \<le> b" "b \<le> 31" | "a = 192" "b = 168"
    | "a = 100" "64 \<le> b" "b \<le> 127" unfolding private_quad_def by auto
  then show ?thesis using range members assms(1) by cases auto
qed

lemma split_on_chars: "\<forall>p\<in>set (split_on c s). \<forall>x\<in>set p. P x \<Longrightarrow> x \<in> set s \<Longrightarrow> x = c \<or> P x"
  by (induction s) (auto split: list.splits if_splits)

lemma starts_with_set: "starts_with s p \<Longrightarrow> set p \<subseteq> set s"
  unfolding starts_with_def by (metis set_take_subset)

text \<open>
  For an IPv4 address the registration's string checks add nothing to the block list: both guards of the system
  refuse the same IPv4 addresses, and never fail on one.
\<close>

theorem guards_agree_ipv4:
  assumes "isIP a = Some (IPv4 ip)"
  shows "isPrivateIp a = isBlockedAddress a \<and> isPrivateIp a = Inr (\<exists>(lo, hi)\<in>set IPV4_RANGES. lo \<le> unat ip \<and> unat ip \<le> hi)"
proof -
  have parsed: "parse_ipv4 a = Some ip" using assms by (auto simp: isIP_def split: option.splits)
  from dotted_quad_ipv4 [OF parsed] obtain x y z t where quad: "dotted_quad a = Some (x, y)" "unat ip = quad x y z t"
    "x \<le> 255" "y \<le> 255" "z \<le> 255" "t \<le> 255" by blast
  have blocked: "isBlockedAddress a = Inr (\<exists>(lo, hi)\<in>set IPV4_RANGES. lo \<le> unat ip \<and> unat ip \<le> hi)"
    using assms by (simp add: isBlockedAddress_def v6_rules_mapped v4_rules_ranges)
  have chars: "c = CHR ''.'' \<or> is_digit c" if "c \<in> set a" for c
  proof -
    from quad(1) have "\<forall>p\<in>set (split_on (CHR ''.'') a). \<forall>x\<in>set p. is_digit x"
      by (auto simp: dotted_quad_def list_all_iff split: list.splits if_splits)
    then show ?thesis using split_on_chars that by metis
  qed
  then have "CHR ''f'' \<notin> set a" "CHR '':'' \<notin> set a" "CHR ''f'' \<notin> set (to_lower a)"
    by (force simp: is_digit_def to_lower_def ascii_lower_def)+
  then have "\<not> starts_with a ''fc''" "\<not> starts_with a ''fd''" "a \<noteq> ''::1''" "\<not> starts_with (to_lower a) ''fe80:''"
    by (auto dest: starts_with_set)
  then show ?thesis
    using quad private_quad_ranges [of y z t x] by (auto simp: isPrivateIp_def blocked quad(2) split: bool.split)
qed

lemma public_ip: "isPrivateIp ''2.2.2.10'' = Inr False"
proof -
  have "isBlockedAddress ''2.2.2.10'' = Inr False"
    by (simp add: isBlockedAddress_def public_address v6_rules_mapped v4_rules_ranges IPV4_RANGES_def quad_def)
  then show ?thesis
    by (simp add: isPrivateIp_def starts_with_def dotted_quad_def private_quad_def big_nat_def digit_of_def is_digit_def to_lower_def ascii_lower_def)
qed

lemma guards_agree_ipv4_witness:
  "isPrivateIp ''2.2.2.10'' = isBlockedAddress ''2.2.2.10'' \<and> isPrivateIp ''2.2.2.10'' = Inr False"
  using guards_agree_ipv4 [OF public_address] public_ip by simp

lemma public_accepted: "assertSafeUrl public_transport url = Inr ()"
proof -
  have host: "isIP ''hooks.test'' = None"
    by (simp add: isIP_def parse_ipv4_def v4_seg_def is_digit_def parse_ipv6_def zone_ok_def v6_seg_def hex_nibble_def)
  then have "isPrivateOrLoopback (tr_lookup public_transport) ''hooks.test'' = Inr False"
    by (simp add: isPrivateOrLoopback_def starts_with_def public_transport_def public_ip to_lower_def ascii_lower_def)
  then show ?thesis by (simp add: assertSafeUrl_def public_transport_def)
qed

lemma accepted_url_reachable_witness:
  "\<exists>u address. tr_url public_transport ''https://hooks.test'' = Some u \<and> up_protocol u = ''https:'' \<and>
     pinned_target public_transport ''https://hooks.test'' = Inr (address, target_port u)"
  by (rule accepted_url_reachable [OF public_accepted]) (auto simp: public_transport_def starts_with_def)

section \<open>Secrets reach the worker\<close>

lemma secret_at_worker:
  assumes "encryptAesGcm (dw_aes w) nonce secret (dw_encryption_key w) = Inr blob" "length nonce = 12"
    and "\<And>k. ae_decrypt (dw_aes w) k nonce (ae_encrypt (dw_aes w) k nonce secret) = Some secret"
    and "find_row ep_id i (endpoints s) = Some e" "ep_signing_secret_ciphertext e = Some blob"
    and "redis s (secret_key i) = Some secret" "secret \<noteq> []"
  shows "fst (secret_get w i s) = Inr (Some secret)" "fst (secret_get w i (s\<lparr>redis := \<lambda>_. None\<rparr>)) = Inr (Some secret)"
  using secret_survives_flush [OF assms(1-5) _ assms(7)] secret_survives_flush [OF assms(1-3), of i "s\<lparr>redis := \<lambda>_. None\<rparr>" e] assms(4-7)
  by auto

interpretation endpoint_changes: row_update ep_id change_endpoint
proof unfold_locales
  show "ep_id (change_endpoint p r) = ep_id r" for p r by (cases p) simp_all
qed

lemma write_endpoint_run:
  assumes "write_endpoint i p s = (Inr r, s')"
  shows "find_row ep_id i (endpoints s') = Some r" "redis s' = redis s"
    "\<exists>e. find_row ep_id i (endpoints s) = Some e \<and> r = change_endpoint p e"
proof -
  from assms obtain e where e: "find_row ep_id i (endpoints s) = Some e" and r: "r = change_endpoint p e"
    and s': "s' = s\<lparr>endpoints := update_where (\<lambda>r. ep_id r = i) (change_endpoint p) (endpoints s)\<rparr>"
    by (auto simp: write_endpoint_def or_raise_def split: option.splits)
  then show "find_row ep_id i (endpoints s') = Some r"
    using find_row_Some [OF e] by (simp add: endpoint_changes.find_row_update del: change_endpoint.simps)
  show "redis s' = redis s" by (simp add: s')
  from e r show "\<exists>e. find_row ep_id i (endpoints s) = Some e \<and> r = change_endpoint p e" by blast
qed

lemma persist_run:
  assumes "persistSigningSecret w nonce i secret s = (Inr c, s')"
  shows "encryptAesGcm (we_aes w) nonce secret (we_encryption_key w) = Inr c"
    "s' = s\<lparr>redis := (redis s)(secret_key i \<mapsto> secret)\<rparr>"
  using assms by (auto simp: persistSigningSecret_def secret_set_def require_def split: sum.splits if_splits)

lemma persist_and_write:
  assumes "seq (persistSigningSecret w nonce i secret) (\<lambda>c. seq (write_endpoint i (f c)) g) s = (Inr x, s')"
    and "\<And>r s. snd (g r s) = s" and "\<And>c r. ep_signing_secret_ciphertext (change_endpoint (f c) r) = Some c"
  shows "\<exists>e c. encryptAesGcm (we_aes w) nonce secret (we_encryption_key w) = Inr c \<and> find_row ep_id i (endpoints s') = Some e \<and>
    ep_signing_secret_ciphertext e = Some c \<and> redis s' (secret_key i) = Some secret"
proof -
  from assms(1) obtain c s1 r s2 where run: "persistSigningSecret w nonce i secret s = (Inr c, s1)" "write_endpoint i (f c) s1 = (Inr r, s2)"
    "g r s2 = (Inr x, s')" by (auto elim!: seq_InrE)
  with assms(2) [of r s2] have "s' = s2" by simp
  with persist_run [OF run(1)] write_endpoint_run [OF run(2)] assms(3) show ?thesis by auto
qed

lemma issued_secret_stored:
  assumes "createEndpoint w i draw nonce now merchantId inp s = (Inr (view, secret), s') \<or>
      rotateSecret w draw nonce merchantId i s = (Inr (view, secret), s')"
  shows "\<exists>e c. encryptAesGcm (we_aes w) nonce (new_secret draw) (we_encryption_key w) = Inr c \<and> find_row ep_id i (endpoints s') = Some e \<and>
    ep_signing_secret_ciphertext e = Some c \<and> redis s' (secret_key i) = Some (new_secret draw)"
  using assms
proof
  assume "createEndpoint w i draw nonce now merchantId inp s = (Inr (view, secret), s')"
  then obtain s1 where "seq (persistSigningSecret w nonce i (new_secret draw))
      (\<lambda>c. seq (write_endpoint i (Set_Ciphertext c)) (\<lambda>row. ret (serialiseEndpoint row, new_secret draw))) s1 = (Inr (view, secret), s')"
    by (auto simp: createEndpoint_def Let_def split: sum.splits)
  then show ?thesis by (rule persist_and_write) simp_all
next
  assume "rotateSecret w draw nonce merchantId i s = (Inr (view, secret), s')"
  then obtain s1 where "seq (persistSigningSecret w nonce i (new_secret draw))
      (\<lambda>c. seq (write_endpoint i (Set_Secret (we_sha256 w (new_secret draw)) c (take 12 (new_secret draw))))
        (\<lambda>row. ret (serialiseEndpoint row, new_secret draw))) s1 = (Inr (view, secret), s')"
    by (auto simp: rotateSecret_def Let_def elim!: seq_InrE [of "own_endpoint merchantId i"])
  then show ?thesis by (rule persist_and_write) simp_all
qed

lemma issued_secret:
  assumes "createEndpoint w i draw nonce now merchantId inp s = (Inr (view, secret), s') \<or>
      rotateSecret w draw nonce merchantId i s = (Inr (view, secret), s')"
  shows "secret = new_secret draw"
  using assms by (auto simp: createEndpoint_def rotateSecret_def Let_def split: sum.splits elim!: seq_InrE)

text \<open>
  C17. A signing secret that was handed out reaches the delivery worker: after a successful registration or rotation the
  worker, on the same cipher and key, signs with exactly that secret, from the cache and, when Redis has been flushed,
  from the ciphertext column; so a rotation also replaces the old secret everywhere.
\<close>

theorem issued_secret_reaches_worker:
  assumes "createEndpoint w i draw nonce now merchantId inp s = (Inr (view, secret), s') \<or>
      rotateSecret w draw nonce merchantId i s = (Inr (view, secret), s')"
    and "dw_aes d = we_aes w" "dw_encryption_key d = we_encryption_key w" "length nonce = 12"
    and "\<And>k. ae_decrypt (we_aes w) k nonce (ae_encrypt (we_aes w) k nonce (new_secret draw)) = Some (new_secret draw)"
  shows "secret = new_secret draw \<and> fst (secret_get d i s') = Inr (Some secret) \<and>
    fst (secret_get d i (s'\<lparr>redis := \<lambda>_. None\<rparr>)) = Inr (Some secret)"
proof -
  from issued_secret_stored [OF assms(1)] obtain e c where
    "encryptAesGcm (dw_aes d) nonce (new_secret draw) (dw_encryption_key d) = Inr c" "find_row ep_id i (endpoints s') = Some e"
    "ep_signing_secret_ciphertext e = Some c" "redis s' (secret_key i) = Some (new_secret draw)"
    unfolding assms(2,3) by blast
  moreover have "new_secret draw \<noteq> []" by (simp add: new_secret_def)
  ultimately show ?thesis
    unfolding issued_secret [OF assms(1)] using secret_at_worker [of d nonce "new_secret draw" c i s' e] assms(2-5) by simp
qed

lemma toy_cipher: "ae_decrypt toy_aes k n (ae_encrypt toy_aes k n p) = Some p"
proof -
  have "char_of (unat (of_char c :: 8 word)) = c" for c :: char
    by (cases c) (simp add: char_of_def bit_0)
  then show ?thesis by (induction p) (simp_all add: toy_aes_def)
qed

definition sample_env :: webhook_env where
  "sample_env = \<lparr>we_transport = public_transport, we_sha256 = (\<lambda>t. t), we_aes = toy_aes,
     we_encryption_key = toHex (replicate 32 0), we_redis_ok = True\<rparr>"

definition endpoint_input :: create_endpoint_input where
  "endpoint_input = \<lparr>ce_url = ''https://hooks.test'', ce_events = [''payment.completed''], ce_mode = Test, ce_description = None\<rparr>"

lemma issued_secret_reaches_worker_witness:
  "\<exists>view s'. createEndpoint sample_env ''ep9'' ''ab'' (replicate 12 0) 5 ''m1'' endpoint_input sample_store = (Inr (view, ''whsec_ab''), s') \<and>
     fst (secret_get broken_world ''ep9'' (s'\<lparr>redis := \<lambda>_. None\<rparr>)) = Inr (Some ''whsec_ab'')"
proof -
  let ?run = "createEndpoint sample_env ''ep9'' ''ab'' (replicate 12 0) 5 ''m1'' endpoint_input sample_store"
  have "\<exists>view s'. ?run = (Inr (view, new_secret ''ab''), s')"
    by (simp add: createEndpoint_def Let_def sample_env_def public_accepted persistSigningSecret_def encryptAesGcm_def importKey_toHex
        secret_set_def write_endpoint_def new_endpoint_def sample_store_def empty_store_def seq_assoc seq_def require_def)
  then obtain view s' where run: "?run = (Inr (view, new_secret ''ab''), s')" by blast
  have "dw_aes broken_world = we_aes sample_env" "dw_encryption_key broken_world = we_encryption_key sample_env"
    by (simp_all add: broken_world_def sample_env_def)
  moreover have "ae_decrypt (we_aes sample_env) k n (ae_encrypt (we_aes sample_env) k n p) = Some p" for k n p
    by (simp add: sample_env_def toy_cipher)
  ultimately show ?thesis
    using issued_secret_reaches_worker [OF disjI1 [OF run], of broken_world] run by (auto simp: new_secret_def)
qed

section \<open>Registration without the cache\<close>

text \<open>
  The row is inserted before the secret is stored: when Redis does not answer, the caller gets an error and no secret,
  but an active endpoint remains that listens to events and has no secret the worker could find.
\<close>

lemma failed_registration_leaves_endpoint:
  assumes "assertSafeUrl (we_transport w) (ce_url inp) = Inr ()" and "\<not> we_redis_ok w"
    and "find_row ep_id i (endpoints s) = None" and "redis s (secret_key i) = None"
  shows "\<exists>e s'. createEndpoint w i draw nonce now merchantId inp s = (Inl e, s') \<and>
    find_row ep_id i (endpoints s') = Some (new_endpoint w i (new_secret draw) now merchantId inp) \<and>
    fst (secret_get d i s') = Inr None"
proof -
  let ?r = "new_endpoint w i (new_secret draw) now merchantId inp"
  have r: "ep_id ?r = i" "ep_signing_secret_ciphertext ?r = None" by (simp_all add: new_endpoint_def)
  have found: "find_row ep_id i (endpoints s @ [?r]) = Some ?r" using assms(3) r(1) by (simp add: find_row_append)
  let ?t = "s\<lparr>endpoints := endpoints s @ [?r]\<rparr>"
  have "\<exists>e. persistSigningSecret w nonce i (new_secret draw) ?t = (Inl e, ?t)"
    using assms(2) by (auto simp: persistSigningSecret_def split: sum.split)
  then have "\<exists>e. createEndpoint w i draw nonce now merchantId inp s = (Inl e, ?t)"
    using assms(1) by (auto simp: createEndpoint_def Let_def seq_def)
  moreover have "secret_get d i ?t = (Inr None, ?t)"
    using assms(4) found r(2) by (simp add: secret_get_def rehydrate_def)
  ultimately show ?thesis using found by auto
qed

section \<open>Event names\<close>

text \<open>The API and the worker turn stored names into wire names in the same way, and every declared name comes back.\<close>

lemma wire_names_agree: "prismaEventNameToWire n = event_type_header n"
  by (induction n) (auto simp: prismaEventNameToWire_def Let_def)

lemma event_names_roundtrip:
  "list_all (\<lambda>n. prismaEventNameToWire (dot_to_underscore n) = n) webhookEventNames"
  by (simp add: webhookEventNames_def wire_names_agree)

end
