(* ===== verification/Webhook_System.thy ===== *)
theory Webhook_System
  imports Webhook_Endpoints
begin

text \<open>
  The outbox dispatcher, the delivery worker, the recovery sweep and the webhook handlers of the API together:
  they share the tables of deliveries, endpoints and events and the delivery queue. What links them is that every
  queued job finds the rows it names.
\<close>

definition event_ids :: "store \<Rightarrow> string set" where
  "event_ids s = ev_id ` set (events s)"

definition delivery_linked :: "store \<Rightarrow> delivery_row \<Rightarrow> bool" where
  "delivery_linked s d \<longleftrightarrow> dl_delivery_id d = dl_id d \<and> dl_endpoint_id d \<in> ep_id ` set (endpoints s) \<and>
     dl_event_id d \<in> event_ids s"

definition linked :: "zod \<Rightarrow> store \<Rightarrow> bool" where
  "linked z s \<longleftrightarrow> (\<forall>d\<in>set (deliveries s). delivery_linked s d) \<and> (\<forall>(n, j)\<in>set (delivery_queue s). deliverable z j s)"

definition delivery_key :: "delivery_row \<Rightarrow> string \<times> string \<times> string \<times> string" where
  "delivery_key d = (dl_id d, dl_delivery_id d, dl_endpoint_id d, dl_event_id d)"

definition link_keys :: "store \<Rightarrow> (string \<times> string \<times> string \<times> string) list \<times> string list \<times> string list" where
  "link_keys s = (map delivery_key (deliveries s), map ep_id (endpoints s), map ev_id (events s))"

lemma find_row_iff: "find_row key k t \<noteq> None \<longleftrightarrow> k \<in> key ` set t"
  unfolding find_row_None by auto

lemma deliverable_iff:
  "deliverable z j s \<longleftrightarrow> delivery_job_ok z j \<and> wj_delivery_id j \<in> dl_id ` set (deliveries s) \<and>
     wj_endpoint_id j \<in> ep_id ` set (endpoints s) \<and> wj_event_id j \<in> event_ids s"
  unfolding deliverable_def find_row_iff event_ids_def ..

lemma link_keys_sets:
  assumes "link_keys s = link_keys s'"
  shows "delivery_key ` set (deliveries s) = delivery_key ` set (deliveries s')"
    "dl_id ` set (deliveries s) = dl_id ` set (deliveries s')"
    "ep_id ` set (endpoints s) = ep_id ` set (endpoints s')" "event_ids s = event_ids s'"
proof -
  have eq: "map delivery_key (deliveries s) = map delivery_key (deliveries s')" "map ep_id (endpoints s) = map ep_id (endpoints s')"
    "map ev_id (events s) = map ev_id (events s')" using assms by (simp_all add: link_keys_def)
  show keys: "delivery_key ` set (deliveries s) = delivery_key ` set (deliveries s')" using eq(1) by (metis list.set_map)
  have "dl_id ` set ds = fst ` delivery_key ` set ds" for ds by (simp add: image_image delivery_key_def)
  then show "dl_id ` set (deliveries s) = dl_id ` set (deliveries s')" using keys by metis
  show "ep_id ` set (endpoints s) = ep_id ` set (endpoints s')" using eq(2) by (metis list.set_map)
  show "event_ids s = event_ids s'" unfolding event_ids_def using eq(3) by (metis list.set_map)
qed

lemma linked_cong:
  assumes "link_keys s = link_keys s'" and "set (delivery_queue s) = set (delivery_queue s')"
  shows "linked z s \<longleftrightarrow> linked z s'"
proof -
  have rows: "(\<forall>d\<in>set (deliveries t). delivery_linked t d) \<longleftrightarrow>
      (\<forall>(i, j, e, v)\<in>delivery_key ` set (deliveries t). j = i \<and> e \<in> ep_id ` set (endpoints t) \<and> v \<in> event_ids t)" for t
    by (auto simp: delivery_linked_def delivery_key_def)
  show ?thesis
    unfolding linked_def rows deliverable_iff link_keys_sets [OF assms(1)] assms(2) ..
qed

lemma deliverable_cong: "link_keys s = link_keys s' \<Longrightarrow> deliverable z j s \<longleftrightarrow> deliverable z j s'"
  unfolding deliverable_iff using link_keys_sets by metis

lemma linked_enqueue:
  "linked z s \<Longrightarrow> deliverable z j s \<Longrightarrow> linked z (s\<lparr>delivery_queue := delivery_queue s @ [(n, j)]\<rparr>)"
  by (auto simp: linked_def deliverable_iff delivery_linked_def event_ids_def)

lemma linked_insert:
  "linked z s \<Longrightarrow> delivery_linked s d \<Longrightarrow> linked z (s\<lparr>deliveries := deliveries s @ [d]\<rparr>)"
  by (auto simp: linked_def deliverable_iff delivery_linked_def event_ids_def)

section \<open>The worker\<close>

definition frame :: "(string \<times> string \<times> string \<times> string) list \<times> string list \<times> string list \<Rightarrow> (int \<times> webhook_delivery_job) list \<Rightarrow> store \<Rightarrow> bool" where
  "frame K Q s \<longleftrightarrow> link_keys s = K \<and> delivery_queue s = Q"

lemma delivery_key_patch [simp]: "delivery_key (patch_delivery p d) = delivery_key d"
  by (cases p) (simp_all add: delivery_key_def)

lemma frame_updates [keeps_intros]:
  "keeps (frame K Q) (update_delivery i p)" "keeps (frame K Q) (update_endpoint i q)"
  "keeps (frame K Q) (secret_set i t)" "keeps (frame K Q) (update_event i v)"
  by (simp_all add: keeps_def frame_def link_keys_def update_delivery_def update_endpoint_def secret_set_def
      update_event_def map_update_where)

lemma frame_secret_get [keeps_intros]: "keeps (frame K Q) (secret_get w i)"
proof (rule keepsI)
  fix s assume "frame K Q s"
  moreover obtain x f where "secret_get w i s = (Inr x, s\<lparr>redis := f\<rparr>)" using secret_get_frame by blast
  ultimately show "frame K Q (snd (secret_get w i s))" by (simp add: frame_def link_keys_def)
qed

lemma frame_notify [keeps_intros]: "keeps (frame K Q) (notifyMerchantOfFailure w now d i st e)"
  unfolding notifyMerchantOfFailure_def Let_def
  by (intro keeps_intros) (auto simp: or_raise_def frame_def link_keys_def intro!: keeps_intros split: option.split)

definition job_linked :: "zod \<Rightarrow> webhook_delivery_job \<Rightarrow> store \<Rightarrow> bool" where
  "job_linked z j s \<longleftrightarrow> linked z s \<and> deliverable z j s"

lemma keeps_frame_linked:
  assumes "\<And>K Q. keeps (frame K Q) m"
  shows "keeps (job_linked z j) m" "keeps (linked z) m"
proof -
  have same: "link_keys (snd (m s)) = link_keys s" "delivery_queue (snd (m s)) = delivery_queue s" for s
    using assms [of "link_keys s" "delivery_queue s"] by (auto simp: keeps_def frame_def)
  have "linked z (snd (m s)) = linked z s" for s by (rule linked_cong) (simp_all add: same)
  moreover have "deliverable z j (snd (m s)) = deliverable z j s" for s by (rule deliverable_cong) (rule same)
  ultimately show "keeps (job_linked z j) m" "keeps (linked z) m" by (simp_all add: keeps_def job_linked_def)
qed

lemmas job_linked_frames [keeps_intros] =
  frame_updates(1,2) [THEN keeps_frame_linked(1)] frame_secret_get [THEN keeps_frame_linked(1)]
  frame_notify [THEN keeps_frame_linked(1)]

lemma job_linked_enqueue:
  "job_linked z j s \<Longrightarrow> job_linked z j (s\<lparr>delivery_queue := delivery_queue s @ [(n, j)]\<rparr>)"
  by (auto simp: job_linked_def linked_enqueue deliverable_iff event_ids_def)

lemma job_linked_conclude [keeps_intros]: "keeps (job_linked z j) (conclude_attempt cfg w now j d ep st body err)"
  unfolding conclude_attempt_def markPermanentlyFailed_def Let_def
  by (intro keeps_intros) (rule job_linked_enqueue)

lemma job_linked_attempt: "keeps (job_linked z j) (attempt_delivery cfg w now j d ep v)"
  unfolding attempt_delivery_def markPermanentlyFailed_def
  by (intro keeps_intros) (auto split: sum.split intro!: keeps_intros)

lemma linked_process:
  assumes "linked z s"
  shows "linked z (snd (process_delivery cfg z w now j s))"
proof (cases "deliverable z j s")
  case True
  from process_deliverable [OF this, of cfg w now] obtain d e v where
    "process_delivery cfg z w now j s = (if unfinished d then attempt_delivery cfg w now j d e v s else (Inr (dl_status d, None), s))"
    by metis
  with True assms show ?thesis using job_linked_attempt [of z j cfg w now d e v] by (auto simp: keeps_def job_linked_def)
next
  case False
  then have "snd (process_delivery cfg z w now j s) = s"
    by (auto simp: deliverable_def process_delivery_def split: option.split)
  with assms show ?thesis by simp
qed

section \<open>The sweep\<close>

lemma keeps_for_each_in: "(\<And>x. x \<in> set xs \<Longrightarrow> keeps I (f x)) \<Longrightarrow> keeps I (for_each f xs)"
  by (induction xs) (auto intro!: keeps_intros)

text \<open>What the loop of a sweep relies on: the identifiers of the rows it read.\<close>

definition knows :: "zod \<Rightarrow> string set \<Rightarrow> string set \<Rightarrow> string set \<Rightarrow> store \<Rightarrow> bool" where
  "knows z D E V s \<longleftrightarrow> linked z s \<and> D \<subseteq> dl_id ` set (deliveries s) \<and> E = ep_id ` set (endpoints s) \<and> V \<subseteq> event_ids s"

lemma knows_frame: "link_keys s' = link_keys s \<Longrightarrow> delivery_queue s' = delivery_queue s \<Longrightarrow> knows z D E V s \<Longrightarrow> knows z D E V s'"
  using linked_cong [of s' s z] link_keys_sets [of s' s] by (simp add: knows_def)

lemma knows_enqueue:
  "knows z D E V s \<Longrightarrow> delivery_job_ok z j \<Longrightarrow> wj_delivery_id j \<in> D \<Longrightarrow> wj_endpoint_id j \<in> E \<Longrightarrow> wj_event_id j \<in> V \<Longrightarrow>
   knows z D E V (s\<lparr>delivery_queue := delivery_queue s @ [(n, j)]\<rparr>)"
  using linked_enqueue [of z s j n] by (auto simp: knows_def deliverable_iff event_ids_def)

lemma knows_requeue:
  assumes "dl_delivery_id d \<in> D" "dl_endpoint_id d \<in> E" "dl_event_id d \<in> V"
  shows "keeps (knows z D E V) (requeue z now eps d)"
proof (rule keepsI)
  fix s assume k: "knows z D E V s"
  let ?s = "s\<lparr>deliveries := update_where (\<lambda>r. dl_id r = dl_id d) (patch_delivery (Bump_Next (now + STRANDED_AFTER_MS))) (deliveries s)\<rparr>"
  have "knows z D E V ?s" by (rule knows_frame [OF _ _ k]) (simp_all add: link_keys_def map_update_where del: patch_delivery.simps)
  moreover have "snd (requeue z now eps d s) =
      (if delivery_job_ok z (recovery_job eps d) then ?s\<lparr>delivery_queue := delivery_queue ?s @ [(0, recovery_job eps d)]\<rparr> else ?s)"
    by (simp add: requeue_def update_delivery_def)
  ultimately show "knows z D E V (snd (requeue z now eps d s))"
    using knows_enqueue [of z D E V ?s "recovery_job eps d" 0] assms by (simp add: recovery_job_def Let_def)
qed

lemma linked_sweep:
  assumes "linked z s"
  shows "linked z (snd (sweep_deliveries z now s))"
proof -
  let ?D = "dl_id ` set (deliveries s)" and ?E = "ep_id ` set (endpoints s)"
  have "keeps (knows z ?D ?E (event_ids s)) (for_each (requeue z now (endpoints s)) (recovery_batch now s))"
  proof (intro keeps_for_each_in knows_requeue)
    fix d assume "d \<in> set (recovery_batch now s)"
    then have "d \<in> set (deliveries s)" by (auto simp: recovery_batch_def dest: in_set_takeD)
    with assms show "dl_delivery_id d \<in> ?D" "dl_endpoint_id d \<in> ?E" "dl_event_id d \<in> event_ids s"
      by (auto simp: linked_def delivery_linked_def)
  qed
  moreover have "knows z ?D ?E (event_ids s) s" using assms unfolding knows_def by simp
  ultimately have "knows z ?D ?E (event_ids s) (snd (for_each (requeue z now (endpoints s)) (recovery_batch now s) s))"
    unfolding keeps_def by blast
  then have "linked z (snd (for_each (requeue z now (endpoints s)) (recovery_batch now s) s))" unfolding knows_def by blast
  then show ?thesis by (simp add: sweep_deliveries_def)
qed

section \<open>The dispatcher\<close>

lemma knows_insert:
  "knows z D E V s \<Longrightarrow> delivery_linked s d \<Longrightarrow> knows z D E V (s\<lparr>deliveries := deliveries s @ [d]\<rparr>)"
  using linked_insert [of z s d] by (simp add: knows_def event_ids_def subset_insertI2)

lemma knows_create_each:
  "\<forall>ep\<in>set eps. ep_id ep \<in> E \<Longrightarrow> ev_id ev \<in> V \<Longrightarrow> keeps (knows z {} E V) (create_each z fault did now ev name k eps)"
proof (induction eps arbitrary: k)
  case Nil
  then show ?case by (simp add: keeps_def)
next
  case (Cons ep eps)
  let ?d = "new_delivery (did (ep_id ep)) now ev name ep" and ?j = "delivery_job (did (ep_id ep)) ep (ev_id ev)"
  show ?case
  proof (rule keepsI)
    fix s assume k: "knows z {} E V s"
    let ?s1 = "s\<lparr>deliveries := deliveries s @ [?d]\<rparr>"
    have "delivery_linked s ?d"
      using k Cons.prems by (auto simp: delivery_linked_def new_delivery_def knows_def)
    with k have s1: "knows z {} E V ?s1" by (rule knows_insert)
    have s2: "knows z {} E V (?s1\<lparr>delivery_queue := delivery_queue ?s1 @ [(0, ?j)]\<rparr>)" if "delivery_job_ok z ?j"
    proof -
      have "knows z {did (ep_id ep)} E V ?s1" using s1 by (auto simp: knows_def new_delivery_def)
      from knows_enqueue [OF this that] Cons.prems show ?thesis by (auto simp: delivery_job_def knows_def)
    qed
    show "knows z {} E V (snd (create_each z fault did now ev name k (ep # eps) s))"
      using k s1 s2 Cons.IH [of "k + 2"] Cons.prems by (simp add: op_ok_def keeps_def)
  qed
qed

lemma keeps_frame_knows: "(\<And>K Q. keeps (frame K Q) m) \<Longrightarrow> keeps (knows z D E V) m"
proof (rule keepsI)
  fix s assume "\<And>K Q. keeps (frame K Q) m" and k: "knows z D E V s"
  then have "frame (link_keys s) (delivery_queue s) (snd (m s))" by (metis keepsD frame_def prod.collapse)
  then show "knows z D E V (snd (m s))" using k by (intro knows_frame [of "snd (m s)" s]) (simp_all add: frame_def)
qed

lemma knows_create: "ev_id ev \<in> V \<Longrightarrow> keeps (knows z {} E V) (createDeliveries z fault did now ev t)"
proof (rule keepsI)
  fix s assume v: "ev_id ev \<in> V" and k: "knows z {} E V s"
  let ?eps = "filter (listens (ev_merchant_id ev) (ev_mode ev) (dot_to_underscore t)) (endpoints s)"
  have "\<forall>ep\<in>set ?eps. ep_id ep \<in> E" using k by (auto simp: knows_def)
  from knows_create_each [OF this v, of z fault did now "dot_to_underscore t" 3] k
  show "knows z {} E V (snd (createDeliveries z fault did now ev t s))"
    by (simp add: createDeliveries_def op_ok_def keeps_def Let_def)
qed

lemma knows_dispatch: "ev_id ev \<in> V \<Longrightarrow> keeps (knows z {} E V) (dispatch_event cfg z fault lost did now ev)"
  unfolding dispatch_event_def try_dispatch_def op_ok_def
  by (intro keeps_intros knows_create keeps_frame_knows)
    (auto simp: lift_sum_def intro!: keeps_intros split: sum.split)

lemma linked_tick:
  assumes "linked z s"
  shows "linked z (snd (tickNow cfg z fault lost did now s))"
proof -
  let ?c = "outbox_batch s" and ?E = "ep_id ` set (endpoints s)"
  let ?s = "s\<lparr>events := update_where (\<lambda>e. ev_id e \<in> ev_id ` set ?c) (patch_event (Claim_Event now)) (events s)\<rparr>"
  have "link_keys ?s = link_keys s" by (simp add: link_keys_def map_update_where)
  then have k: "knows z {} ?E (event_ids s) ?s"
    using assms by (intro knows_frame [of ?s s]) (simp_all add: knows_def)
  have "ev_id e \<in> event_ids s" if "e \<in> set ?c" for e
    using that by (auto simp: outbox_batch_def pending_events_def event_ids_def dest!: in_set_takeD)
  then have "keeps (knows z {} ?E (event_ids s)) (for_each (\<lambda>ev. dispatch_event cfg z fault lost (did (ev_id ev)) now ev) ?c)"
    by (intro keeps_for_each_in knows_dispatch)
  with k have all: "knows z {} ?E (event_ids s) (snd (for_each (\<lambda>ev. dispatch_event cfg z fault lost (did (ev_id ev)) now ev) ?c ?s))"
    unfolding keeps_def by blast
  have "snd (tickNow cfg z fault lost did now s) =
      (if ?c = [] then ?s else snd (for_each (\<lambda>ev. dispatch_event cfg z fault lost (did (ev_id ev)) now ev) ?c ?s))"
    by (simp add: tickNow_def)
  moreover have "linked z ?s" using k unfolding knows_def by (rule conjunct1)
  moreover have "linked z (snd (for_each (\<lambda>ev. dispatch_event cfg z fault lost (did (ev_id ev)) now ev) ?c ?s))"
    using all unfolding knows_def by (rule conjunct1)
  ultimately show ?thesis by presburger
qed

section \<open>The API\<close>

interpretation reset_rows: row_update dl_id "\<lambda>(_ :: unit). reset_delivery"
  by unfold_locales (simp add: reset_delivery_def)

lemma reset_others: "filter (\<lambda>d. dl_id d \<noteq> i) (update_where (\<lambda>d. dl_id d = i) reset_delivery t) = filter (\<lambda>d. dl_id d \<noteq> i) t"
  by (induction t) (simp_all add: reset_delivery_def)

lemma delivery_key_reset [simp]: "delivery_key (reset_delivery d) = delivery_key d"
  by (simp add: reset_delivery_def delivery_key_def)

lemma frame_write_endpoint [keeps_intros]: "keeps (frame K Q) (write_endpoint i p)"
  unfolding write_endpoint_def
  by (intro keeps_intros) (auto simp: or_raise_def frame_def link_keys_def map_update_where del: change_endpoint.simps
      intro!: keeps_intros split: option.split)

lemma frame_persist [keeps_intros]: "keeps (frame K Q) (persistSigningSecret w nonce i t)"
  unfolding persistSigningSecret_def by (intro keeps_intros)

lemma frame_own [keeps_intros]: "keeps (frame K Q) (own_endpoint m i)" "keeps (frame K Q) (own_delivery m i)"
  unfolding own_endpoint_def own_delivery_def by (auto simp: or_raise_def intro!: keeps_intros split: option.split)

lemmas linked_frames [keeps_intros] =
  frame_write_endpoint [THEN keeps_frame_linked(2)] frame_persist [THEN keeps_frame_linked(2)] frame_own [THEN keeps_frame_linked(2)]

lemma linked_add_endpoint: "linked z s \<Longrightarrow> linked z (s\<lparr>endpoints := endpoints s @ [e]\<rparr>)"
  by (auto simp: linked_def deliverable_iff delivery_linked_def event_ids_def)

lemma keeps_linked_api:
  "keeps (linked z) (createEndpoint w i draw nonce now m inp)" "keeps (linked z) (rotateSecret w draw nonce m i)"
  "keeps (linked z) (setEndpointStatus m i st)"
  unfolding createEndpoint_def rotateSecret_def setEndpointStatus_def Let_def
  by (auto intro!: keeps_intros linked_add_endpoint)

definition reset_in :: "string \<Rightarrow> store \<Rightarrow> store" where
  "reset_in i s = s\<lparr>deliveries := update_where (\<lambda>d. dl_id d = i) reset_delivery (deliveries s)\<rparr>"

lemma own_delivery_app [simp]:
  "own_delivery m i s = (case find (\<lambda>r. dl_id r = i \<and> dl_merchant_id r = m) (deliveries s) of None \<Rightarrow> Inl not_found | Some d \<Rightarrow> Inr d, s)"
  by (simp add: own_delivery_def split: option.split)

lemma seq_own_delivery [simp]:
  "seq (own_delivery m i) k s = (case find (\<lambda>r. dl_id r = i \<and> dl_merchant_id r = m) (deliveries s) of None \<Rightarrow> (Inl not_found, s) | Some d \<Rightarrow> k d s)"
  by (simp add: seq_def split: option.split)

lemma replay_effect:
  assumes "replay z m i s = (r, s')"
  obtains "s' = s" "\<exists>e. r = Inl e"
  | row ep where "row \<in> set (deliveries s)" "dl_id row = i" "dl_merchant_id row = m"
      "find_row ep_id (dl_endpoint_id row) (endpoints s) = Some ep" "s' = reset_in i s" "r = Inl (Crash ''ZodError'')"
  | row ep where "row \<in> set (deliveries s)" "dl_id row = i" "dl_merchant_id row = m"
      "find_row ep_id (dl_endpoint_id row) (endpoints s) = Some ep" "delivery_job_ok z (replay_job row ep)"
      "s' = reset_in i s\<lparr>delivery_queue := delivery_queue s @ [(0, replay_job row ep)]\<rparr>"
proof (cases "find (\<lambda>r. dl_id r = i \<and> dl_merchant_id r = m) (deliveries s)")
  case None
  with assms show ?thesis by (intro that(1)) (auto simp: replay_def)
next
  case found: (Some row)
  then have row: "row \<in> set (deliveries s)" "dl_id row = i" "dl_merchant_id row = m" by (auto simp: find_Some_iff)
  show ?thesis
  proof (cases "find_row ep_id (dl_endpoint_id row) (endpoints s)")
    case None
    with assms found show ?thesis by (intro that(1)) (auto simp: replay_def)
  next
    case (Some ep)
    have "replay z m i s =
      (if delivery_job_ok z (replay_job row ep)
       then (Inr (serialiseDelivery (reset_delivery row)), reset_in i s\<lparr>delivery_queue := delivery_queue s @ [(0, replay_job row ep)]\<rparr>)
       else (Inl (Crash ''ZodError''), reset_in i s))"
      by (simp add: replay_def found Some row(2) reset_in_def)
    with assms have run: "(r, s') =
      (if delivery_job_ok z (replay_job row ep)
       then (Inr (serialiseDelivery (reset_delivery row)), reset_in i s\<lparr>delivery_queue := delivery_queue s @ [(0, replay_job row ep)]\<rparr>)
       else (Inl (Crash ''ZodError''), reset_in i s))" by metis
    show ?thesis
    proof (cases "delivery_job_ok z (replay_job row ep)")
      case True
      with run show ?thesis by (intro that(3) [OF row Some True]) simp
    next
      case False
      with run show ?thesis by (intro that(2) [OF row Some]) simp_all
    qed
  qed
qed

lemma linked_reset: "linked z s \<Longrightarrow> linked z (reset_in i s)"
  using linked_cong [of "reset_in i s" s z] by (simp add: reset_in_def link_keys_def map_update_where)

lemma replay_deliverable:
  assumes "linked z s" "row \<in> set (deliveries s)" "delivery_job_ok z (replay_job row ep)"
    "find_row ep_id (dl_endpoint_id row) (endpoints s) = Some ep"
  shows "deliverable z (replay_job row ep) (reset_in i s)"
proof -
  have "deliverable z (replay_job row ep) s"
    using assms find_row_Some [OF assms(4)]
    by (auto simp: deliverable_iff replay_job_def linked_def delivery_linked_def)
  then show ?thesis using deliverable_cong [of "reset_in i s" s]
    by (simp add: reset_in_def link_keys_def map_update_where)
qed

lemma linked_replay:
  assumes "linked z s"
  shows "linked z (snd (replay z m i s))"
proof -
  obtain r s' where run: "replay z m i s = (r, s')" by fastforce
  from run show ?thesis
  proof (cases rule: replay_effect)
    case (3 row ep)
    with linked_enqueue [OF linked_reset [OF assms] replay_deliverable [OF assms 3(1,5,4)]] run
    show ?thesis by (simp add: reset_in_def)
  qed (use assms linked_reset run in auto)
qed

text \<open>
  Replaying a delivery, whatever became of it, runs it again: on the merchant's own delivery only, which is pending
  at its first attempt, with one job more in the queue; and as many runs of that job as the attempt limit settle it.
\<close>

theorem replay_settles:
  assumes "replay z m i s = (Inr view, s')" and "linked z s" and "distinct (map dl_id (deliveries s))"
    and "max 1 (cf_webhook_max_attempts cfg) \<le> length runs"
  shows "\<exists>job d d'. delivery_queue s' = delivery_queue s @ [(0, job)] \<and>
    find_row dl_id i (deliveries s') = Some d \<and> dl_merchant_id d = m \<and> dl_status d = Dl_Pending \<and> dl_attempt d = 1 \<and>
    filter (\<lambda>d. dl_id d \<noteq> i) (deliveries s') = filter (\<lambda>d. dl_id d \<noteq> i) (deliveries s) \<and>
    find_row dl_id i (deliveries (fold (\<lambda>(w, now) s. snd (process_delivery cfg z w now job s)) runs s')) = Some d' \<and> \<not> unfinished d'"
  using assms(1)
proof (cases rule: replay_effect)
  case (3 row ep)
  let ?job = "replay_job row ep"
  have i: "wj_delivery_id ?job = i" using assms(2) 3(1,2) by (auto simp: replay_job_def linked_def delivery_linked_def)
  have "deliverable z ?job (reset_in i s)" by (rule replay_deliverable [OF assms(2) 3(1,5,4)])
  then have job: "deliverable z ?job s'" by (simp add: 3(6) deliverable_def reset_in_def)
  have "find_row dl_id i (deliveries s) = Some row" using find_row_self [OF assms(3) 3(1)] 3(2) by simp
  then have row: "find_row dl_id i (deliveries s') = Some (reset_delivery row)"
    using 3(2) by (simp add: 3(6) reset_in_def reset_rows.find_row_update)
  have "job_runs_left (cf_webhook_max_attempts cfg) ?job s' \<le> length runs"
    using assms(4) row by (simp add: job_runs_left_def i runs_left_def reset_delivery_def)
  from job_settles [OF job this] i obtain d' where
    "find_row dl_id i (deliveries (fold (\<lambda>(w, now) s. snd (process_delivery cfg z w now ?job s)) runs s')) = Some d'" "\<not> unfinished d'"
    by auto
  moreover have "filter (\<lambda>d. dl_id d \<noteq> i) (deliveries s') = filter (\<lambda>d. dl_id d \<noteq> i) (deliveries s)"
    using 3(6) by (simp add: reset_in_def) (rule reset_others)
  moreover have "delivery_queue s' = delivery_queue s @ [(0, ?job)]" by (simp add: 3(6))
  ultimately show ?thesis using row 3(3) by (auto simp: reset_delivery_def)
qed auto

section \<open>All together\<close>

datatype webhook_op =
    Tick "string \<Rightarrow> nat option" "string \<Rightarrow> bool" "string \<Rightarrow> string \<Rightarrow> string" int
  | Deliver delivery_world int webhook_delivery_job
  | Sweep int
  | Register webhook_env string string "8 word list" int string create_endpoint_input
  | Rotate webhook_env string "8 word list" string string
  | Switch string string endpoint_status
  | Replay string string

fun run_webhook_op :: "config \<Rightarrow> zod \<Rightarrow> webhook_op \<Rightarrow> store \<Rightarrow> store" where
  "run_webhook_op cfg z (Tick fault lost did now) s = snd (tickNow cfg z fault lost did now s)"
| "run_webhook_op cfg z (Deliver w now j) s = snd (process_delivery cfg z w now j s)"
| "run_webhook_op cfg z (Sweep now) s = snd (sweep_deliveries z now s)"
| "run_webhook_op cfg z (Register w i draw nonce now m inp) s = snd (createEndpoint w i draw nonce now m inp s)"
| "run_webhook_op cfg z (Rotate w draw nonce m i) s = snd (rotateSecret w draw nonce m i s)"
| "run_webhook_op cfg z (Switch m i st) s = snd (setEndpointStatus m i st s)"
| "run_webhook_op cfg z (Replay m i) s = snd (replay z m i s)"

text \<open>
  C6. The parts fit: from a store whose deliveries and queued jobs name existing rows, whatever ticks of the
  dispatcher (faults included), runs of jobs, recovery sweeps, registrations, rotations, status changes and replays
  follow in whatever order, every job in the queue satisfies its schema and finds its delivery, its endpoint and its event.
\<close>

theorem queued_jobs_deliverable:
  assumes "linked z s"
  shows "linked z (fold (run_webhook_op cfg z) ops s) \<and>
    (\<forall>(delay, j)\<in>set (delivery_queue (fold (run_webhook_op cfg z) ops s)).
       delivery_job_ok z j \<and> wj_delivery_id j \<in> dl_id ` set (deliveries (fold (run_webhook_op cfg z) ops s)) \<and>
       wj_endpoint_id j \<in> ep_id ` set (endpoints (fold (run_webhook_op cfg z) ops s)) \<and>
       wj_event_id j \<in> ev_id ` set (events (fold (run_webhook_op cfg z) ops s)))"
proof -
  have step: "linked z t \<Longrightarrow> linked z (run_webhook_op cfg z op t)" for op t
    using keeps_linked_api by (cases op) (simp_all add: linked_tick linked_process linked_sweep linked_replay keeps_def)
  have "linked z (fold (run_webhook_op cfg z) ops s)" using assms by (induction ops arbitrary: s) (simp_all add: step)
  then show ?thesis unfolding linked_def deliverable_iff event_ids_def by blast
qed

theorem queued_jobs_deliverable_witness:
  "linked lenient_zod (fold (run_webhook_op sample_config lenient_zod)
     [Tick (\<lambda>_. None) (\<lambda>_. False) (\<lambda>e i. ''d'' @ i) 10, Deliver broken_world 20 sample_job, Sweep 600000] outbox_store)"
proof -
  have "linked lenient_zod outbox_store"
    by (simp add: linked_def outbox_store_def sample_store_def empty_store_def)
  from queued_jobs_deliverable [OF this, of sample_config] show ?thesis by blast
qed

definition settled_delivery :: delivery_row where
  [sample_defs]: "settled_delivery = (sample_delivery ''d1'')\<lparr>dl_status := Dl_Permanently_Failed, dl_attempt := 6\<rparr>"

lemma replay_settles_witness:
  "\<exists>s' job d'. snd (replay lenient_zod ''m1'' ''d1'' (delivery_store [settled_delivery])) = s' \<and> delivery_queue s' = [(0, job)] \<and>
     find_row dl_id ''d1'' (deliveries (fold (\<lambda>(w, now) s. snd (process_delivery sample_config lenient_zod w now job s))
       (replicate 6 (broken_world, 0)) s')) = Some d' \<and> \<not> unfinished d'"
proof -
  let ?s = "delivery_store [settled_delivery]"
  have row: "dl_id settled_delivery = ''d1''" "dl_delivery_id settled_delivery = ''d1''" "dl_merchant_id settled_delivery = ''m1''"
    "dl_endpoint_id settled_delivery = ''ep1''" "dl_event_id settled_delivery = ''evt1''"
    by (simp_all add: settled_delivery_def sample_delivery_def new_delivery_def sample_endpoint_def failed_session_event_def ref_event_def)
  have links: "linked lenient_zod ?s"
    using find_row_Some [of ep_id "''ep1''" "endpoints ?s"] find_row_Some [of ev_id "''evt1''" "events ?s"]
    by (force simp: linked_def delivery_linked_def row event_ids_def)
  have "replay_job settled_delivery (sample_endpoint ''ep1'') = sample_job"
    by (simp add: replay_job_def sample_job_def delivery_job_def row sample_endpoint_def)
  then obtain view s' where run: "replay lenient_zod ''m1'' ''d1'' ?s = (Inr view, s')"
    by (simp add: replay_def row)
  have "max 1 (cf_webhook_max_attempts sample_config) \<le> length (replicate 6 (broken_world, 0 :: int))" by (simp add: sample_config_def)
  from replay_settles [OF run links _ this] run show ?thesis by auto
qed

end
