(* ===== verification/Request_Interceptors.thy ===== *)
theory Request_Interceptors
  imports Api_Error Config "HOL-Library.AList"
begin

text \<open>
  The interceptors of the API that decide whether a handler runs:
  \<open>common/interceptors/idempotency.interceptor.ts\<close> (one run per idempotency key, its answer replayed) and
  \<open>common/interceptors/rate-limit.interceptor.ts\<close> (a fixed window per route and subject). Requests interleave:
  a request advances in steps (arrival, \<open>SET NX\<close>, \<open>GET\<close>, end of the handler), and a run of the API is a list
  of such steps with their times.
\<close>

section \<open>Keys with a deadline\<close>

text \<open>Redis keys with a time to live: a key is gone from its deadline on.\<close>

type_synonym 'v ttl_keys = "string \<Rightarrow> ('v \<times> int) option"

definition ttl_get :: "'v ttl_keys \<Rightarrow> string \<Rightarrow> int \<Rightarrow> 'v option" where
  "ttl_get r k now = (case r k of None \<Rightarrow> None | Some (v, deadline) \<Rightarrow> if now < deadline then Some v else None)"

definition ttl_put :: "string \<Rightarrow> 'v \<Rightarrow> int \<Rightarrow> int \<Rightarrow> 'v ttl_keys \<Rightarrow> 'v ttl_keys" where
  "ttl_put k v ttl now r = r(k := Some (v, now + ttl))"

definition ttl_set_nx :: "string \<Rightarrow> 'v \<Rightarrow> int \<Rightarrow> int \<Rightarrow> 'v ttl_keys \<Rightarrow> bool \<times> 'v ttl_keys" where
  "ttl_set_nx k v ttl now r = (if ttl_get r k now = None then (True, ttl_put k v ttl now r) else (False, r))"

text \<open>What a claim on such a key relies on.\<close>

locale claim_store =
  fixes get :: "'r \<Rightarrow> string \<Rightarrow> int \<Rightarrow> 'v option"
    and put :: "string \<Rightarrow> 'v \<Rightarrow> int \<Rightarrow> int \<Rightarrow> 'r \<Rightarrow> 'r"
    and set_nx :: "string \<Rightarrow> 'v \<Rightarrow> int \<Rightarrow> int \<Rightarrow> 'r \<Rightarrow> bool \<times> 'r"
  assumes put_same: "t < now + ttl \<Longrightarrow> get (put k v ttl now r) k t = Some v"
    and put_other: "k' \<noteq> k \<Longrightarrow> get (put k v ttl now r) k' t = get r k' t"
    and nx: "set_nx k v ttl now r = (if get r k now = None then (True, put k v ttl now r) else (False, r))"
begin

text \<open>\<open>kept r k v d\<close>: the key holds this value until \<open>d\<close>.\<close>

definition kept :: "'r \<Rightarrow> string \<Rightarrow> 'v \<Rightarrow> int \<Rightarrow> bool" where
  "kept r k v d \<longleftrightarrow> (\<forall>t<d. get r k t = Some v)"

lemma kept_get: "kept r k v d \<Longrightarrow> t < d \<Longrightarrow> get r k t = Some v"
  by (simp add: kept_def)

lemma kept_gone: "kept r k v d \<Longrightarrow> get r k t = None \<Longrightarrow> d \<le> t"
  using kept_get [of r k v d t] by force

lemma kept_put: "kept (put k v ttl now r) k v (now + ttl)"
  by (simp add: kept_def put_same)

lemma kept_put_other: "k' \<noteq> k \<Longrightarrow> kept r k' v' d \<Longrightarrow> kept (put k v ttl now r) k' v' d"
  by (simp add: kept_def put_other)

lemma claim_blocked: "kept r k v d \<Longrightarrow> t < d \<Longrightarrow> set_nx k v' ttl t r = (False, r)"
  by (simp add: nx kept_get)

lemma claim_wins: "fst (set_nx k v ttl now r) \<Longrightarrow> set_nx k v ttl now r = (True, put k v ttl now r) \<and> get r k now = None"
  by (simp add: nx split: if_splits)

lemma claim_exclusive:
  assumes "fst (set_nx k v ttl now r)" and "t < now + ttl"
  shows "\<not> fst (set_nx k v' ttl' t (snd (set_nx k v ttl now r)))"
proof -
  have "snd (set_nx k v ttl now r) = put k v ttl now r" using claim_wins [OF assms(1)] by simp
  with claim_blocked [OF kept_put assms(2)] show ?thesis by simp
qed

end

interpretation ttl: claim_store ttl_get ttl_put ttl_set_nx
  by unfold_locales (auto simp: ttl_get_def ttl_put_def ttl_set_nx_def)

section \<open>Idempotency\<close>

datatype idem_header = No_Header | Repeated_Header | Header string

text \<open>
  A request as the interceptor sees it: the merchant the guards attached, the header, the method, the URL, the
  text of its body (\<open>JSON.stringify(req.body ?? null)\<close>), and the metadata of its handler.
\<close>

record idem_request =
  iq_merchant :: "(string \<times> api_mode) option"
  iq_header :: idem_header
  iq_method :: string
  iq_url :: string
  iq_body :: string
  iq_skip :: bool
  iq_http_code :: "nat option"

datatype answer_body = Json string | Error_Body string details

text \<open>\<open>InProgress\<close> and \<open>Done\<close>, each with the fingerprint of its request.\<close>

datatype idem_record = In_Progress (ir_fingerprint: string) | Done (ir_fingerprint: string) nat answer_body

definition IN_PROGRESS_TTL :: int where
  "IN_PROGRESS_TTL = 60 * 1000"

definition RESULT_TTL :: int where
  "RESULT_TTL = 24 * 60 * 60 * 1000"

definition key_pattern :: "string \<Rightarrow> bool" where
  "key_pattern h \<longleftrightarrow> 1 \<le> length h \<and> length h \<le> 255 \<and> list_all (\<lambda>c. (33 :: nat) \<le> of_char c \<and> (of_char c :: nat) \<le> 126) h"

definition fingerprintOf :: "(string \<Rightarrow> string) \<Rightarrow> idem_request \<Rightarrow> string" where
  "fingerprintOf sha256 q = sha256 (iq_method q @ [CHR 0x0A] @ iq_url q @ [CHR 0x0A] @ iq_body q)"

definition idem_redis_key :: "string \<Rightarrow> api_mode \<Rightarrow> string \<Rightarrow> string" where
  "idem_redis_key merchant mode header =
     ''idem:'' @ merchant @ '':'' @ (case mode of Test \<Rightarrow> ''test'' | Live \<Rightarrow> ''live'') @ '':'' @ header"

text \<open>The checks before the claim: \<open>Inr None\<close> runs the handler without any record.\<close>

definition idem_gate :: "idem_request \<Rightarrow> api_exn + string option" where
  "idem_gate q =
     (case (iq_header q, iq_merchant q) of
        (No_Header, _) \<Rightarrow> Inr None
      | (_, None) \<Rightarrow> Inr None
      | (h, Some (merchant, mode)) \<Rightarrow>
          if iq_method q \<noteq> ''POST'' \<and> iq_method q \<noteq> ''PATCH'' then Inr None
          else if iq_skip q then Inr None
          else case h of
            Header header \<Rightarrow>
              if key_pattern header then Inr (Some (idem_redis_key merchant mode header))
              else Inl (bad_request ''invalid_request'')
          | _ \<Rightarrow> Inl (bad_request ''invalid_request''))"

definition success_status :: "idem_request \<Rightarrow> nat" where
  "success_status q = (case iq_http_code q of Some n \<Rightarrow> n | None \<Rightarrow> if iq_method q = ''POST'' then 201 else 200)"

fun errorRecord :: "api_exn \<Rightarrow> nat \<times> answer_body" where
  "errorRecord (Http status code d) = (status, Error_Body code d)"
| "errorRecord (Crash t) = (500, Error_Body ''api_error'' No_Details)"

text \<open>What a handler's end leaves in the record.\<close>

definition result_record :: "idem_request \<Rightarrow> api_exn + answer_body \<Rightarrow> nat \<times> answer_body" where
  "result_record q result = (case result of Inl e \<Rightarrow> errorRecord e | Inr body \<Rightarrow> (success_status q, body))"

text \<open>What the caller of a replay gets.\<close>

definition replay_answer :: "nat \<Rightarrow> answer_body \<Rightarrow> api_exn + answer_body" where
  "replay_answer status body =
     (if status < 400 then Inr body
      else case body of Error_Body code d \<Rightarrow> Inl (Http status code d) | Json t \<Rightarrow> Inl (Http status t No_Details))"

datatype idem_phase =
    Arriving
  | Bypassed
  | Claiming string
  | Reading string
  | Running string int
  | Refused api_exn
  | Replayed string nat answer_body
  | Answered string "api_exn + answer_body"

text \<open>
  The state: the keys in Redis, where each request is, and a log of handler starts and ends (the newest
  first), which no code reads.
\<close>

record idem_state =
  ix_redis :: "idem_record ttl_keys"
  ix_phase :: "nat \<Rightarrow> idem_phase"
  ix_starts :: "(nat \<times> int) list"
  ix_ends :: "(nat \<times> int \<times> (api_exn + answer_body)) list"

definition idem_start :: idem_state where
  "idem_start = \<lparr>ix_redis = (\<lambda>_. None), ix_phase = (\<lambda>_. Arriving), ix_starts = [], ix_ends = []\<rparr>"

definition set_phase :: "nat \<Rightarrow> idem_phase \<Rightarrow> idem_state \<Rightarrow> idem_state" where
  "set_phase i p x = x\<lparr>ix_phase := (ix_phase x)(i := p)\<rparr>"

text \<open>\<open>intercept\<close> up to the claim.\<close>

definition intercept_arrive :: "idem_request \<Rightarrow> nat \<Rightarrow> idem_state \<Rightarrow> idem_state" where
  "intercept_arrive q i x =
     (case idem_gate q of Inl e \<Rightarrow> set_phase i (Refused e) x
      | Inr None \<Rightarrow> set_phase i Bypassed x
      | Inr (Some k) \<Rightarrow> set_phase i (Claiming k) x)"

text \<open>\<open>claim\<close>: the marker is set when the key is free; otherwise the record is read.\<close>

definition claim_set :: "string \<Rightarrow> nat \<Rightarrow> string \<Rightarrow> bool \<Rightarrow> int \<Rightarrow> idem_state \<Rightarrow> idem_state" where
  "claim_set fingerprint i k redis_up now x =
     (if \<not> redis_up then set_phase i (Refused (Http 503 ''service_unavailable'' No_Details)) x
      else case ttl_set_nx k (In_Progress fingerprint) IN_PROGRESS_TTL now (ix_redis x) of
        (True, r) \<Rightarrow> set_phase i (Running k now) (x\<lparr>ix_redis := r, ix_starts := (i, now) # ix_starts x\<rparr>)
      | (False, r) \<Rightarrow> set_phase i (Reading k) x)"

definition claim_read :: "string \<Rightarrow> nat \<Rightarrow> string \<Rightarrow> bool \<Rightarrow> int \<Rightarrow> idem_state \<Rightarrow> idem_state" where
  "claim_read fingerprint i k redis_up now x =
     (if \<not> redis_up then set_phase i (Refused (Http 503 ''service_unavailable'' No_Details)) x
      else case ttl_get (ix_redis x) k now of
        None \<Rightarrow> set_phase i (Claiming k) x
      | Some record \<Rightarrow>
          if ir_fingerprint record \<noteq> fingerprint then set_phase i (Refused (conflict ''idempotency_error'')) x
          else case record of
            In_Progress f \<Rightarrow> set_phase i (Refused (conflict ''idempotency_in_progress'')) x
          | Done f status body \<Rightarrow> set_phase i (Replayed k status body) x)"

text \<open>\<open>store\<close>, at the end of the handler; a failure to write is swallowed.\<close>

definition store_result ::
  "idem_request \<Rightarrow> string \<Rightarrow> nat \<Rightarrow> string \<Rightarrow> bool \<Rightarrow> int \<Rightarrow> api_exn + answer_body \<Rightarrow> idem_state \<Rightarrow> idem_state" where
  "store_result q fingerprint i k redis_up now result x =
     (let (status, body) = result_record q result;
          r = (if redis_up then ttl_put k (Done fingerprint status body) RESULT_TTL now (ix_redis x) else ix_redis x)
      in set_phase i (Answered k result) (x\<lparr>ix_redis := r, ix_ends := (i, now, result) # ix_ends x\<rparr>))"

text \<open>A step of request \<open>i\<close> at a time; a step that does not fit its phase does nothing.\<close>

datatype idem_event =
    Arrive nat int
  | Claim_Step nat int bool
  | Read_Step nat int bool
  | Handler_End nat int bool "api_exn + answer_body"

fun event_time :: "idem_event \<Rightarrow> int" where
  "event_time (Arrive i t) = t"
| "event_time (Claim_Step i t up) = t"
| "event_time (Read_Step i t up) = t"
| "event_time (Handler_End i t up r) = t"

fun idem_step :: "(string \<Rightarrow> string) \<Rightarrow> (nat \<Rightarrow> idem_request) \<Rightarrow> idem_event \<Rightarrow> idem_state \<Rightarrow> idem_state" where
  "idem_step sha rq (Arrive i t) x =
     (case ix_phase x i of Arriving \<Rightarrow> intercept_arrive (rq i) i x | _ \<Rightarrow> x)"
| "idem_step sha rq (Claim_Step i t up) x =
     (case ix_phase x i of Claiming k \<Rightarrow> claim_set (fingerprintOf sha (rq i)) i k up t x | _ \<Rightarrow> x)"
| "idem_step sha rq (Read_Step i t up) x =
     (case ix_phase x i of Reading k \<Rightarrow> claim_read (fingerprintOf sha (rq i)) i k up t x | _ \<Rightarrow> x)"
| "idem_step sha rq (Handler_End i t up result) x =
     (case ix_phase x i of
        Running k c \<Rightarrow> store_result (rq i) (fingerprintOf sha (rq i)) i k up t result x | _ \<Rightarrow> x)"

fun idem_run :: "(string \<Rightarrow> string) \<Rightarrow> (nat \<Rightarrow> idem_request) \<Rightarrow> idem_event list \<Rightarrow> idem_state \<Rightarrow> idem_state" where
  "idem_run sha rq [] x = x"
| "idem_run sha rq (ev # evs) x = idem_run sha rq evs (idem_step sha rq ev x)"

section \<open>One run per key\<close>

definition idem_key :: "idem_request \<Rightarrow> string option" where
  "idem_key q = (case idem_gate q of Inr (Some k) \<Rightarrow> Some k | _ \<Rightarrow> None)"

text \<open>Starts, newest first: an earlier run of the same key ended a full day before the later one started.\<close>

fun runs_spaced :: "(nat \<Rightarrow> string option) \<Rightarrow> (nat \<times> int \<times> (api_exn + answer_body)) list \<Rightarrow> (nat \<times> int) list \<Rightarrow> bool" where
  "runs_spaced key ends [] = True"
| "runs_spaced key ends ((j, c') # starts) =
     ((\<forall>(i, c)\<in>set starts. key i = key j \<longrightarrow> (\<exists>f res. (i, f, res) \<in> set ends \<and> f + RESULT_TTL \<le> c')) \<and>
      runs_spaced key ends starts)"

lemma spaced_order:
  assumes "runs_spaced key E S" and "(i, c) \<in> set S" and "(j, c') \<in> set S" and "i \<noteq> j" and "key i = key j"
  shows "(\<exists>f res. (j, f, res) \<in> set E \<and> f + RESULT_TTL \<le> c) \<or> (\<exists>f res. (i, f, res) \<in> set E \<and> f + RESULT_TTL \<le> c')"
  using assms
proof (induction S)
  case (Cons s S)
  obtain a b where s: "s = (a, b)" by (cases s)
  from Cons.prems consider "a = i" "b = c" "(j, c') \<in> set S" | "a = j" "b = c'" "(i, c) \<in> set S"
    | "(i, c) \<in> set S" "(j, c') \<in> set S" unfolding s by auto
  then show ?case
  proof cases
    case 1
    with Cons.prems show ?thesis unfolding s by fastforce
  next
    case 2
    with Cons.prems show ?thesis unfolding s by fastforce
  next
    case 3
    with Cons show ?thesis unfolding s by simp
  qed
qed simp

lemma runs_spaced_mono: "runs_spaced key E S \<Longrightarrow> set E \<subseteq> set E' \<Longrightarrow> runs_spaced key E' S"
  by (induction S) fastforce+

text \<open>
  Times do not go back, handlers end within the life of their marker, and their results can be stored.
\<close>

definition timely :: "int \<Rightarrow> idem_state \<Rightarrow> bool" where
  "timely t x \<longleftrightarrow> (\<forall>i k c. ix_phase x i = Running k c \<longrightarrow> t < c + IN_PROGRESS_TTL)"

fun result_stored :: "idem_event \<Rightarrow> bool" where
  "result_stored (Handler_End i t up r) = up"
| "result_stored _ = True"

fun prompt :: "(string \<Rightarrow> string) \<Rightarrow> (nat \<Rightarrow> idem_request) \<Rightarrow> int \<Rightarrow> idem_event list \<Rightarrow> idem_state \<Rightarrow> bool" where
  "prompt sha rq now [] x = True"
| "prompt sha rq now (ev # evs) x =
     (now \<le> event_time ev \<and> timely (event_time ev) x \<and> result_stored ev \<and>
      prompt sha rq (event_time ev) evs (idem_step sha rq ev x))"

text \<open>The key a phase belongs to.\<close>

fun phase_key :: "idem_phase \<Rightarrow> string option" where
  "phase_key (Claiming k) = Some k"
| "phase_key (Reading k) = Some k"
| "phase_key (Running k c) = Some k"
| "phase_key (Replayed k status body) = Some k"
| "phase_key (Answered k result) = Some k"
| "phase_key _ = None"

definition done_record :: "(string \<Rightarrow> string) \<Rightarrow> idem_request \<Rightarrow> api_exn + answer_body \<Rightarrow> idem_record" where
  "done_record sha q result = (case result_record q result of (status, body) \<Rightarrow> Done (fingerprintOf sha q) status body)"

definition idem_inv :: "(string \<Rightarrow> string) \<Rightarrow> (nat \<Rightarrow> idem_request) \<Rightarrow> int \<Rightarrow> idem_state \<Rightarrow> bool" where
  "idem_inv sha rq now x \<longleftrightarrow>
     (\<forall>i k. phase_key (ix_phase x i) = Some k \<longrightarrow> idem_key (rq i) = Some k) \<and>
     (\<forall>i k c. ix_phase x i = Running k c \<longrightarrow> (i, c) \<in> set (ix_starts x) \<and>
        ttl.kept (ix_redis x) k (In_Progress (fingerprintOf sha (rq i))) (c + IN_PROGRESS_TTL)) \<and>
     (\<forall>i c. (i, c) \<in> set (ix_starts x) \<longrightarrow> c \<le> now \<and> (\<exists>k. idem_key (rq i) = Some k \<and>
        (ix_phase x i = Running k c \<or> (\<exists>f res. (i, f, res) \<in> set (ix_ends x))))) \<and>
     (\<forall>i f res. (i, f, res) \<in> set (ix_ends x) \<longrightarrow> (\<exists>k c. idem_key (rq i) = Some k \<and> (i, c) \<in> set (ix_starts x) \<and>
        ix_phase x i = Answered k res \<and>
        (f + RESULT_TTL \<le> now \<or> ttl.kept (ix_redis x) k (done_record sha (rq i) res) (f + RESULT_TTL)))) \<and>
     runs_spaced (\<lambda>i. idem_key (rq i)) (ix_ends x) (ix_starts x) \<and> distinct (map fst (ix_ends x))"

lemma idem_invI:
  assumes "\<And>i k. phase_key (ix_phase x i) = Some k \<Longrightarrow> idem_key (rq i) = Some k"
    and "\<And>i k c. ix_phase x i = Running k c \<Longrightarrow> (i, c) \<in> set (ix_starts x)"
    and "\<And>i k c. ix_phase x i = Running k c \<Longrightarrow>
        ttl.kept (ix_redis x) k (In_Progress (fingerprintOf sha (rq i))) (c + IN_PROGRESS_TTL)"
    and "\<And>i c. (i, c) \<in> set (ix_starts x) \<Longrightarrow> c \<le> now"
    and "\<And>i c. (i, c) \<in> set (ix_starts x) \<Longrightarrow> \<exists>k. idem_key (rq i) = Some k \<and>
        (ix_phase x i = Running k c \<or> (\<exists>f res. (i, f, res) \<in> set (ix_ends x)))"
    and "\<And>i f res. (i, f, res) \<in> set (ix_ends x) \<Longrightarrow> \<exists>k c. idem_key (rq i) = Some k \<and> (i, c) \<in> set (ix_starts x) \<and>
        ix_phase x i = Answered k res \<and>
        (f + RESULT_TTL \<le> now \<or> ttl.kept (ix_redis x) k (done_record sha (rq i) res) (f + RESULT_TTL))"
    and "runs_spaced (\<lambda>i. idem_key (rq i)) (ix_ends x) (ix_starts x)" and "distinct (map fst (ix_ends x))"
  shows "idem_inv sha rq now x"
  unfolding idem_inv_def using assms by blast

lemma idem_invD:
  assumes "idem_inv sha rq now x"
  shows "phase_key (ix_phase x i) = Some k \<Longrightarrow> idem_key (rq i) = Some k"
    and "ix_phase x i = Running k c \<Longrightarrow> (i, c) \<in> set (ix_starts x)"
    and "ix_phase x i = Running k c \<Longrightarrow>
        ttl.kept (ix_redis x) k (In_Progress (fingerprintOf sha (rq i))) (c + IN_PROGRESS_TTL)"
    and "(i, c) \<in> set (ix_starts x) \<Longrightarrow> c \<le> now"
    and "(i, c) \<in> set (ix_starts x) \<Longrightarrow> \<exists>k. idem_key (rq i) = Some k \<and>
        (ix_phase x i = Running k c \<or> (\<exists>f res. (i, f, res) \<in> set (ix_ends x)))"
    and "(i, f, res) \<in> set (ix_ends x) \<Longrightarrow> \<exists>k c. idem_key (rq i) = Some k \<and> (i, c) \<in> set (ix_starts x) \<and>
        ix_phase x i = Answered k res \<and>
        (f + RESULT_TTL \<le> now \<or> ttl.kept (ix_redis x) k (done_record sha (rq i) res) (f + RESULT_TTL))"
    and "runs_spaced (\<lambda>i. idem_key (rq i)) (ix_ends x) (ix_starts x)" and "distinct (map fst (ix_ends x))"
  using assms unfolding idem_inv_def by blast+

lemma idem_inv_later: 
  assumes "idem_inv sha rq now x" and "now \<le> t"
  shows "idem_inv sha rq t x"
proof (rule idem_invI)
  show "c \<le> t" if "(i, c) \<in> set (ix_starts x)" for i c using idem_invD(4) [OF assms(1) that] assms(2) by simp
  show "\<exists>k c. idem_key (rq i) = Some k \<and> (i, c) \<in> set (ix_starts x) \<and> ix_phase x i = Answered k res \<and>
        (f + RESULT_TTL \<le> t \<or> ttl.kept (ix_redis x) k (done_record sha (rq i) res) (f + RESULT_TTL))"
    if "(i, f, res) \<in> set (ix_ends x)" for i f res
    using idem_invD(6) [OF assms(1) that] assms(2) by force
qed (use idem_invD [OF assms(1)] in auto)

lemma idem_inv_start: "idem_inv sha rq now idem_start"
  by (simp add: idem_inv_def idem_start_def)

text \<open>A phase change of a request that neither runs nor has answered.\<close>

lemma idem_inv_set_phase:
  assumes inv: "idem_inv sha rq now x" and key: "\<And>k. phase_key p = Some k \<Longrightarrow> idem_key (rq i) = Some k"
    and p: "\<And>k c. p \<noteq> Running k c" and old: "\<And>k c. ix_phase x i \<noteq> Running k c" "\<And>k r. ix_phase x i \<noteq> Answered k r"
  shows "idem_inv sha rq now (set_phase i p x)"
proof (rule idem_invI)
  show "idem_key (rq j) = Some k" if "phase_key (ix_phase (set_phase i p x) j) = Some k" for j k
    using that key idem_invD(1) [OF inv] by (auto simp: set_phase_def split: if_splits)
  show "(j, c) \<in> set (ix_starts (set_phase i p x))" if "ix_phase (set_phase i p x) j = Running k c" for j k c
    using that p idem_invD(2) [OF inv] by (auto simp: set_phase_def split: if_splits)
  show "ttl.kept (ix_redis (set_phase i p x)) k (In_Progress (fingerprintOf sha (rq j))) (c + IN_PROGRESS_TTL)"
    if "ix_phase (set_phase i p x) j = Running k c" for j k c
    using that p idem_invD(3) [OF inv] by (auto simp: set_phase_def split: if_splits)
  show "c \<le> now" if "(j, c) \<in> set (ix_starts (set_phase i p x))" for j c
    using that idem_invD(4) [OF inv] by (auto simp: set_phase_def)
  show "\<exists>k. idem_key (rq j) = Some k \<and> (ix_phase (set_phase i p x) j = Running k c \<or>
      (\<exists>f res. (j, f, res) \<in> set (ix_ends (set_phase i p x))))" if "(j, c) \<in> set (ix_starts (set_phase i p x))" for j c
    using that idem_invD(5) [OF inv, of j c] by (auto simp: set_phase_def old)
  show "\<exists>k c. idem_key (rq j) = Some k \<and> (j, c) \<in> set (ix_starts (set_phase i p x)) \<and>
      ix_phase (set_phase i p x) j = Answered k res \<and> (f + RESULT_TTL \<le> now \<or>
        ttl.kept (ix_redis (set_phase i p x)) k (done_record sha (rq j) res) (f + RESULT_TTL))"
    if "(j, f, res) \<in> set (ix_ends (set_phase i p x))" for j f res
  proof -
    have "(j, f, res) \<in> set (ix_ends x)" using that by (simp add: set_phase_def)
    from idem_invD(6) [OF inv this] old(2) show ?thesis by (auto simp: set_phase_def)
  qed
  show "runs_spaced (\<lambda>i. idem_key (rq i)) (ix_ends (set_phase i p x)) (ix_starts (set_phase i p x))"
    using idem_invD(7) [OF inv] by (simp add: set_phase_def)
  show "distinct (map fst (ix_ends (set_phase i p x)))" using idem_invD(8) [OF inv] by (simp add: set_phase_def)
qed

text \<open>When a key is free, every earlier run of it has ended, a day ago at least.\<close>

lemma free_key_spaced:
  assumes inv: "idem_inv sha rq now x" and "timely now x" and free: "ttl_get (ix_redis x) k now = None"
    and "(i, c) \<in> set (ix_starts x)" and "idem_key (rq i) = Some k"
  shows "\<exists>f res. (i, f, res) \<in> set (ix_ends x) \<and> f + RESULT_TTL \<le> now"
proof -
  have "ix_phase x i \<noteq> Running k c"
    using idem_invD(3) [OF inv, of i k c] ttl.kept_get free assms(2) unfolding timely_def by fastforce
  with idem_invD(5) [OF inv assms(4)] assms(5) obtain f res where e: "(i, f, res) \<in> set (ix_ends x)" by auto
  with idem_invD(6) [OF inv e] assms(5)
  have "f + RESULT_TTL \<le> now \<or> ttl.kept (ix_redis x) k (done_record sha (rq i) res) (f + RESULT_TTL)" by auto
  then have "f + RESULT_TTL \<le> now" using ttl.kept_gone [OF _ free] by blast
  with e show ?thesis by blast
qed

lemma idem_inv_claim:
  assumes inv: "idem_inv sha rq now x" and timely: "timely now x" and i: "ix_phase x i = Claiming k"
  shows "idem_inv sha rq now (claim_set (fingerprintOf sha (rq i)) i k up now x)"
proof (cases "up \<and> ttl_get (ix_redis x) k now = None")
  case False
  have "idem_key (rq i) = Some k" using idem_invD(1) [OF inv, of i k] i by simp
  with False i show ?thesis
    by (auto simp: claim_set_def ttl.nx intro!: idem_inv_set_phase [OF inv])
next
  case True
  let ?m = "In_Progress (fingerprintOf sha (rq i))"
  let ?x = "claim_set (fingerprintOf sha (rq i)) i k up now x"
  have x': "?x = x\<lparr>ix_redis := ttl_put k ?m IN_PROGRESS_TTL now (ix_redis x), ix_starts := (i, now) # ix_starts x,
      ix_phase := (ix_phase x)(i := Running k now)\<rparr>"
    using True by (simp add: claim_set_def ttl.nx set_phase_def)
  have free: "ttl_get (ix_redis x) k now = None" using True by simp
  have key: "idem_key (rq i) = Some k" using idem_invD(1) [OF inv, of i k] i by simp
  have past: "\<exists>f res. (j, f, res) \<in> set (ix_ends x) \<and> f + RESULT_TTL \<le> now"
    if "(j, c) \<in> set (ix_starts x)" "idem_key (rq j) = Some k" for j c
    by (rule free_key_spaced [OF inv timely _ that]) (use True in simp)
  have other: "k' \<noteq> k" if "ix_phase x j = Running k' c" for j k' c
    using idem_invD(3) [OF inv that] ttl.kept_get [of "ix_redis x" k' _ "c + IN_PROGRESS_TTL" now] True timely that
    by (auto simp: timely_def)
  show ?thesis
  proof (rule idem_invI)
    show "idem_key (rq j) = Some k'" if "phase_key (ix_phase ?x j) = Some k'" for j k'
      using that key idem_invD(1) [OF inv, of j k'] unfolding x' by (auto split: if_splits)
    show "(j, c) \<in> set (ix_starts ?x)" if "ix_phase ?x j = Running k' c" for j k' c
      using that idem_invD(2) [OF inv, of j k' c] unfolding x' by (auto split: if_splits)
    show "ttl.kept (ix_redis ?x) k' (In_Progress (fingerprintOf sha (rq j))) (c + IN_PROGRESS_TTL)"
      if "ix_phase ?x j = Running k' c" for j k' c
      using that idem_invD(3) [OF inv, of j k' c] other [of j k' c] ttl.kept_put ttl.kept_put_other unfolding x'
      by (auto split: if_splits)
    show "c \<le> now" if "(j, c) \<in> set (ix_starts ?x)" for j c
      using that idem_invD(4) [OF inv, of j c] unfolding x' by auto
    show "\<exists>k'. idem_key (rq j) = Some k' \<and> (ix_phase ?x j = Running k' c \<or> (\<exists>f res. (j, f, res) \<in> set (ix_ends ?x)))"
      if "(j, c) \<in> set (ix_starts ?x)" for j c
      using that idem_invD(5) [OF inv, of j c] key i unfolding x' by auto
    show "\<exists>k' c. idem_key (rq j) = Some k' \<and> (j, c) \<in> set (ix_starts ?x) \<and> ix_phase ?x j = Answered k' res \<and>
        (f + RESULT_TTL \<le> now \<or> ttl.kept (ix_redis ?x) k' (done_record sha (rq j) res) (f + RESULT_TTL))"
      if "(j, f, res) \<in> set (ix_ends ?x)" for j f res
    proof -
      have e: "(j, f, res) \<in> set (ix_ends x)" using that unfolding x' by simp
      from idem_invD(6) [OF inv e] obtain k' c where j: "idem_key (rq j) = Some k'" "(j, c) \<in> set (ix_starts x)"
        "ix_phase x j = Answered k' res"
        "f + RESULT_TTL \<le> now \<or> ttl.kept (ix_redis x) k' (done_record sha (rq j) res) (f + RESULT_TTL)" by auto
      have "f + RESULT_TTL \<le> now \<or> ttl.kept (ix_redis ?x) k' (done_record sha (rq j) res) (f + RESULT_TTL)"
      proof (cases "k' = k")
        case True
        with j(4) ttl.kept_gone [OF _ free] show ?thesis by blast
      next
        case False
        with j(4) show ?thesis unfolding x' by (auto intro: ttl.kept_put_other [OF False])
      qed
      with j i show ?thesis unfolding x' by auto
    qed
    show "runs_spaced (\<lambda>i. idem_key (rq i)) (ix_ends ?x) (ix_starts ?x)"
      using idem_invD(7) [OF inv] past key unfolding x' by auto
    show "distinct (map fst (ix_ends ?x))" using idem_invD(8) [OF inv] unfolding x' by simp
  qed
qed

lemma idem_inv_end:
  assumes inv: "idem_inv sha rq now x" and i: "ix_phase x i = Running k c"
  shows "idem_inv sha rq now (store_result (rq i) (fingerprintOf sha (rq i)) i k True now result x)"
proof -
  let ?d = "done_record sha (rq i) result"
  let ?x = "store_result (rq i) (fingerprintOf sha (rq i)) i k True now result x"
  have x': "?x = x\<lparr>ix_redis := ttl_put k ?d RESULT_TTL now (ix_redis x), ix_ends := (i, now, result) # ix_ends x,
      ix_phase := (ix_phase x)(i := Answered k result)\<rparr>"
    by (simp add: store_result_def set_phase_def done_record_def Let_def split: prod.split)
  have key: "idem_key (rq i) = Some k" using idem_invD(1) [OF inv, of i k] i by simp
  have start: "(i, c) \<in> set (ix_starts x)" using idem_invD(2) [OF inv i] .
  have fresh: "(i, f, res) \<notin> set (ix_ends x)" for f res using idem_invD(6) [OF inv, of i f res] i by auto
  have alone: "\<exists>f res. (j, f, res) \<in> set (ix_ends x) \<and> f + RESULT_TTL \<le> now"
    if j: "(j, c') \<in> set (ix_starts x)" "idem_key (rq j) = Some k" "j \<noteq> i" for j c'
  proof -
    have "\<exists>f res. (j, f, res) \<in> set (ix_ends x) \<and> f + RESULT_TTL \<le> c"
      using spaced_order [OF idem_invD(7) [OF inv] start j(1)] j(2,3) key fresh by auto
    with idem_invD(4) [OF inv start] show ?thesis by fastforce
  qed
  show ?thesis
  proof (rule idem_invI)
    show "idem_key (rq j) = Some k'" if "phase_key (ix_phase ?x j) = Some k'" for j k'
      using that key idem_invD(1) [OF inv, of j k'] unfolding x' by (auto split: if_splits)
    show "(j, c) \<in> set (ix_starts ?x)" if "ix_phase ?x j = Running k' c" for j k' c
      using that idem_invD(2) [OF inv, of j k' c] unfolding x' by (auto split: if_splits)
    show "ttl.kept (ix_redis ?x) k' (In_Progress (fingerprintOf sha (rq j))) (c + IN_PROGRESS_TTL)"
      if "ix_phase ?x j = Running k' c" for j k' c
    proof -
      have j: "ix_phase x j = Running k' c" "j \<noteq> i" using that unfolding x' by (auto split: if_splits)
      have "k' \<noteq> k"
      proof
        assume "k' = k"
        with idem_invD(1) [OF inv, of j k] j(1) have "idem_key (rq j) = Some k" by simp
        from alone [OF idem_invD(2) [OF inv j(1)] this j(2)] obtain f res where "(j, f, res) \<in> set (ix_ends x)" by auto
        from idem_invD(6) [OF inv this] j(1) show False by auto
      qed
      with idem_invD(3) [OF inv j(1)] show ?thesis unfolding x' by (simp add: ttl.kept_put_other)
    qed
    show "c \<le> now" if "(j, c) \<in> set (ix_starts ?x)" for j c
      using that idem_invD(4) [OF inv, of j c] unfolding x' by auto
    show "\<exists>k'. idem_key (rq j) = Some k' \<and> (ix_phase ?x j = Running k' c \<or> (\<exists>f res. (j, f, res) \<in> set (ix_ends ?x)))"
      if "(j, c) \<in> set (ix_starts ?x)" for j c
      using that idem_invD(5) [OF inv, of j c] key unfolding x' by auto
    show "\<exists>k' c. idem_key (rq j) = Some k' \<and> (j, c) \<in> set (ix_starts ?x) \<and> ix_phase ?x j = Answered k' res \<and>
        (f + RESULT_TTL \<le> now \<or> ttl.kept (ix_redis ?x) k' (done_record sha (rq j) res) (f + RESULT_TTL))"
      if "(j, f, res) \<in> set (ix_ends ?x)" for j f res
    proof (cases "j = i")
      case True
      with that fresh have "f = now" "res = result" unfolding x' by auto
      with True key start show ?thesis unfolding x' by (auto simp: ttl.kept_put)
    next
      case False
      then have e: "(j, f, res) \<in> set (ix_ends x)" using that unfolding x' by auto
      from idem_invD(6) [OF inv e] obtain k' c' where j: "idem_key (rq j) = Some k'" "(j, c') \<in> set (ix_starts x)"
        "ix_phase x j = Answered k' res"
        "f + RESULT_TTL \<le> now \<or> ttl.kept (ix_redis x) k' (done_record sha (rq j) res) (f + RESULT_TTL)" by auto
      have "f + RESULT_TTL \<le> now \<or> ttl.kept (ix_redis ?x) k' (done_record sha (rq j) res) (f + RESULT_TTL)"
      proof (cases "k' = k")
        case True
        with alone [OF j(2) _ False] j(1) obtain f' res' where "(j, f', res') \<in> set (ix_ends x)" "f' + RESULT_TTL \<le> now" by auto
        moreover have "f' = f" using eq_key_imp_eq_value [OF idem_invD(8) [OF inv] e calculation(1)] by simp
        ultimately show ?thesis by simp
      next
        case False
        with j(4) show ?thesis unfolding x' by (auto intro: ttl.kept_put_other [OF False])
      qed
      with j False show ?thesis unfolding x' by auto
    qed
    show "runs_spaced (\<lambda>i. idem_key (rq i)) (ix_ends ?x) (ix_starts ?x)"
      using runs_spaced_mono [OF idem_invD(7) [OF inv], of "ix_ends ?x"] by (auto simp: x')
    show "distinct (map fst (ix_ends ?x))" using idem_invD(8) [OF inv] fresh unfolding x' by force
  qed
qed

lemma idem_inv_arrive:
  "idem_inv sha rq now x \<Longrightarrow> ix_phase x i = Arriving \<Longrightarrow> idem_inv sha rq now (intercept_arrive (rq i) i x)"
  unfolding intercept_arrive_def
  by (auto intro!: idem_inv_set_phase simp: idem_key_def split: sum.split option.split)

lemma idem_inv_read:
  assumes "idem_inv sha rq now x" and "ix_phase x i = Reading k"
  shows "idem_inv sha rq now (claim_read (fingerprintOf sha (rq i)) i k up now x)"
proof -
  have "idem_key (rq i) = Some k" using idem_invD(1) [OF assms(1), of i k] assms(2) by simp
  with assms show ?thesis
    unfolding claim_read_def by (auto intro!: idem_inv_set_phase split: option.split idem_record.split)
qed

lemma idem_inv_step:
  assumes "idem_inv sha rq now x" and "now \<le> event_time ev" and "timely (event_time ev) x" and "result_stored ev"
  shows "idem_inv sha rq (event_time ev) (idem_step sha rq ev x)"
proof -
  have "idem_inv sha rq (event_time ev) x" using idem_inv_later [OF assms(1,2)] .
  with assms(3,4) show ?thesis
    by (cases ev) (auto intro: idem_inv_arrive idem_inv_claim idem_inv_read idem_inv_end split: idem_phase.split)
qed

lemma idem_inv_run:
  assumes "idem_inv sha rq now x" and "prompt sha rq now evs x"
  shows "\<exists>t. idem_inv sha rq t (idem_run sha rq evs x)"
  using assms
proof (induction evs arbitrary: now x)
  case (Cons ev evs)
  then have "idem_inv sha rq (event_time ev) (idem_step sha rq ev x)" by (auto intro: idem_inv_step)
  with Cons show ?case by simp
qed auto

section \<open>Replays\<close>

text \<open>Every stored answer, and every replayed one, is that of a handler that ended.\<close>

definition ended_as :: "(string \<Rightarrow> string) \<Rightarrow> (nat \<Rightarrow> idem_request) \<Rightarrow> idem_state \<Rightarrow> string \<Rightarrow> string \<Rightarrow> nat \<Rightarrow> answer_body \<Rightarrow> bool" where
  "ended_as sha rq x k fp status body \<longleftrightarrow>
     (\<exists>j f res. (j, f, res) \<in> set (ix_ends x) \<and> idem_key (rq j) = Some k \<and> fingerprintOf sha (rq j) = fp \<and>
        result_record (rq j) res = (status, body))"

definition replay_inv :: "(string \<Rightarrow> string) \<Rightarrow> (nat \<Rightarrow> idem_request) \<Rightarrow> idem_state \<Rightarrow> bool" where
  "replay_inv sha rq x \<longleftrightarrow>
     (\<forall>i k. phase_key (ix_phase x i) = Some k \<longrightarrow> idem_key (rq i) = Some k) \<and>
     (\<forall>k fp status body d. ix_redis x k = Some (Done fp status body, d) \<longrightarrow> ended_as sha rq x k fp status body) \<and>
     (\<forall>i k status body. ix_phase x i = Replayed k status body \<longrightarrow>
        ended_as sha rq x k (fingerprintOf sha (rq i)) status body)"

lemma ended_as_grow: "ended_as sha rq x k fp st b \<Longrightarrow> set (ix_ends x) \<subseteq> set (ix_ends y) \<Longrightarrow> ended_as sha rq y k fp st b"
  unfolding ended_as_def by blast

lemma replay_inv_start: "replay_inv sha rq idem_start"
  by (simp add: replay_inv_def idem_start_def)

lemma replay_inv_set_phase:
  assumes "replay_inv sha rq x" and "\<And>k. phase_key p = Some k \<Longrightarrow> idem_key (rq i) = Some k"
    and "\<And>k st b. p = Replayed k st b \<Longrightarrow> ended_as sha rq x k (fingerprintOf sha (rq i)) st b"
  shows "replay_inv sha rq (set_phase i p x)"
proof -
  have "ended_as sha rq (set_phase i p x) = ended_as sha rq x"
    by (intro ext) (simp add: ended_as_def set_phase_def)
  with assms show ?thesis unfolding replay_inv_def by (auto simp: set_phase_def)
qed

lemma replay_inv_step: 
  assumes inv: "replay_inv sha rq x"
  shows "replay_inv sha rq (idem_step sha rq ev x)"
proof (cases ev)
  case (Arrive i t)
  with inv show ?thesis
    by (auto simp: intercept_arrive_def idem_key_def intro!: replay_inv_set_phase split: idem_phase.split sum.split option.split)
next
  case (Claim_Step i t up)
  have "replay_inv sha rq (claim_set (fingerprintOf sha (rq i)) i k up t x)" if k: "ix_phase x i = Claiming k" for k
  proof -
    have key: "idem_key (rq i) = Some k" using inv k by (simp add: replay_inv_def)
    let ?y = "x\<lparr>ix_redis := ttl_put k (In_Progress (fingerprintOf sha (rq i))) IN_PROGRESS_TTL t (ix_redis x), ix_starts := (i, t) # ix_starts x\<rparr>"
    have "ended_as sha rq ?y = ended_as sha rq x" by (intro ext) (simp add: ended_as_def)
    then have "replay_inv sha rq ?y" using inv by (auto simp: replay_inv_def ttl_put_def)
    with inv key show ?thesis
      by (auto simp: claim_set_def ttl.nx intro!: replay_inv_set_phase)
  qed
  with Claim_Step inv show ?thesis by (auto split: idem_phase.split)
next
  case (Read_Step i t up)
  have "replay_inv sha rq (claim_read (fingerprintOf sha (rq i)) i k up t x)" if k: "ix_phase x i = Reading k" for k
  proof -
    have key: "idem_key (rq i) = Some k" using inv k by (simp add: replay_inv_def)
    have "ended_as sha rq x k fp st b" if "ttl_get (ix_redis x) k t = Some (Done fp st b)" for fp st b
      using that inv by (auto simp: replay_inv_def ttl_get_def split: option.splits prod.splits if_splits)
    with inv key show ?thesis
      by (auto simp: claim_read_def intro!: replay_inv_set_phase split: option.split idem_record.split)
  qed
  with Read_Step inv show ?thesis by (auto split: idem_phase.split)
next
  case (Handler_End i t up res)
  have "replay_inv sha rq (store_result (rq i) (fingerprintOf sha (rq i)) i k up t res x)" if k: "ix_phase x i = Running k c" for k c
  proof -
    have key: "idem_key (rq i) = Some k" using inv k by (simp add: replay_inv_def)
    obtain st b where sb: "result_record (rq i) res = (st, b)" by fastforce
    let ?r = "if up then ttl_put k (Done (fingerprintOf sha (rq i)) st b) RESULT_TTL t (ix_redis x) else ix_redis x"
    let ?y = "x\<lparr>ix_redis := ?r, ix_ends := (i, t, res) # ix_ends x\<rparr>"
    have "ended_as sha rq ?y k (fingerprintOf sha (rq i)) st b" using key sb by (auto simp: ended_as_def)
    moreover have "ended_as sha rq ?y k' fp st' b'" if "ended_as sha rq x k' fp st' b'" for k' fp st' b'
      using that unfolding ended_as_def by fastforce
    ultimately have "replay_inv sha rq ?y" using inv unfolding replay_inv_def by (auto simp: ttl_put_def split: if_splits)
    with key sb show ?thesis by (auto simp: store_result_def Let_def intro!: replay_inv_set_phase)
  qed
  with Handler_End inv show ?thesis by (auto split: idem_phase.split)
qed

lemma replay_inv_run: "replay_inv sha rq x \<Longrightarrow> replay_inv sha rq (idem_run sha rq evs x)"
  by (induction evs arbitrary: x) (simp_all add: replay_inv_step)

lemma replay_answer_faithful:
  assumes "success_status q < 400" and "\<And>st c d. res = Inl (Http st c d) \<Longrightarrow> 400 \<le> st"
  shows "case_prod replay_answer (result_record q res) =
    (case res of Inr body \<Rightarrow> Inr body | Inl (Http st c d) \<Rightarrow> Inl (Http st c d) | Inl (Crash t) \<Rightarrow> Inl (Http 500 ''api_error'' No_Details))"
  using assms by (auto simp: result_record_def replay_answer_def split: sum.split exn.split)

section \<open>Rate limits\<close>

record rate_options =
  ro_max :: nat
  ro_window :: int
  ro_by_actor :: bool

record rate_request =
  rr_method :: string
  rr_route_url :: "string option"
  rr_url :: string
  rr_merchant_id :: "string option"
  rr_admin_id :: "string option"
  rr_ip :: "string option"

text \<open>\<open>Map\<close> of buckets: a count and the time the window ends.\<close>

type_synonym buckets = "(string \<times> nat \<times> int) list"

definition SIZE_CEILING :: nat where
  "SIZE_CEILING = 10000"

definition subjectKey :: "rate_request \<Rightarrow> bool \<Rightarrow> string" where
  "subjectKey q by_actor =
     (case (by_actor, rr_merchant_id q, rr_admin_id q) of
        (True, Some m, _) \<Rightarrow> ''m:'' @ m
      | (True, None, Some a) \<Rightarrow> ''a:'' @ a
      | _ \<Rightarrow> ''ip:'' @ (case rr_ip q of Some ip \<Rightarrow> ip | None \<Rightarrow> ''unknown''))"

definition bucket_key :: "rate_request \<Rightarrow> bool \<Rightarrow> string" where
  "bucket_key q by_actor =
     rr_method q @ '':'' @ (case rr_route_url q of Some u \<Rightarrow> u | None \<Rightarrow> rr_url q) @ '':'' @ subjectKey q by_actor"

definition rate_sweep :: "int \<Rightarrow> buckets \<Rightarrow> buckets" where
  "rate_sweep now = filter (\<lambda>(k, c, resetAt). \<not> resetAt \<le> now)"

definition retry_after :: "int \<Rightarrow> int \<Rightarrow> int" where
  "retry_after resetAt now = (resetAt - now + 999) div 1000"

definition rate_intercept :: "rate_options option \<Rightarrow> rate_request \<Rightarrow> int \<Rightarrow> (buckets, api_exn, unit) proc" where
  "rate_intercept opts q now = (\<lambda>bs.
     case opts of None \<Rightarrow> (Inr (), bs)
     | Some opt \<Rightarrow>
         let key = bucket_key q (ro_by_actor opt);
             fresh = (let swept = (if SIZE_CEILING \<le> length bs then rate_sweep now bs else bs)
                      in (Inr (), AList.update key (1, now + ro_window opt) swept))
         in case map_of bs key of
              None \<Rightarrow> fresh
            | Some (count, resetAt) \<Rightarrow>
                if resetAt \<le> now then fresh
                else if ro_max opt \<le> count
                then (Inl (Http 429 ''rate_limited'' (Fields [show_int (retry_after resetAt now)])), bs)
                else (Inr (), AList.update key (count + 1, resetAt) bs))"

text \<open>The events of one process: requests and the sweep timer.\<close>

datatype rate_event = Request "rate_options option" rate_request int | Sweep_Timer int

fun rate_time :: "rate_event \<Rightarrow> int" where
  "rate_time (Request opts q t) = t"
| "rate_time (Sweep_Timer t) = t"

fun rate_verdicts :: "rate_event list \<Rightarrow> buckets \<Rightarrow> bool list" where
  "rate_verdicts [] bs = []"
| "rate_verdicts (Request opts q t # evs) bs =
     (case rate_intercept opts q t bs of (v, bs') \<Rightarrow> (case v of Inl e \<Rightarrow> False | Inr u \<Rightarrow> True) # rate_verdicts evs bs')"
| "rate_verdicts (Sweep_Timer t # evs) bs = True # rate_verdicts evs (rate_sweep t bs)"

text \<open>The specification: one window per key, never swept.\<close>

definition window_step :: "nat \<Rightarrow> int \<Rightarrow> int \<Rightarrow> (nat \<times> int) option \<Rightarrow> bool \<times> (nat \<times> int) option" where
  "window_step mx w now b =
     (case b of None \<Rightarrow> (True, Some (1, now + w))
      | Some (c, r) \<Rightarrow>
          if r \<le> now then (True, Some (1, now + w)) else if mx \<le> c then (False, b) else (True, Some (c + 1, r)))"

fun window_verdicts :: "rate_event list \<Rightarrow> (string \<Rightarrow> (nat \<times> int) option) \<Rightarrow> bool list" where
  "window_verdicts [] m = []"
| "window_verdicts (Request None q t # evs) m = True # window_verdicts evs m"
| "window_verdicts (Request (Some opt) q t # evs) m =
     (let k = bucket_key q (ro_by_actor opt); (v, b) = window_step (ro_max opt) (ro_window opt) t (m k)
      in v # window_verdicts evs (m(k := b)))"
| "window_verdicts (Sweep_Timer t # evs) m = True # window_verdicts evs m"

text \<open>Buckets and windows agree on what is still live.\<close>

definition live :: "int \<Rightarrow> (nat \<times> int) option \<Rightarrow> (nat \<times> int) option" where
  "live now b = (case b of None \<Rightarrow> None | Some (c, r) \<Rightarrow> if r \<le> now then None else b)"

definition agree :: "int \<Rightarrow> buckets \<Rightarrow> (string \<Rightarrow> (nat \<times> int) option) \<Rightarrow> bool" where
  "agree now bs m \<longleftrightarrow> distinct (map fst bs) \<and> (\<forall>k. live now (map_of bs k) = live now (m k))"

lemma live_later: "live now a = live now b \<Longrightarrow> now \<le> t \<Longrightarrow> live t a = live t b"
  by (auto simp: live_def split: option.splits prod.splits if_splits)

lemma agree_later: "agree now bs m \<Longrightarrow> now \<le> t \<Longrightarrow> agree t bs m"
  using live_later unfolding agree_def by blast

lemma map_of_sweep:
  "distinct (map fst bs) \<Longrightarrow> map_of (rate_sweep now bs) k = live now (map_of bs k)"
proof (induction bs)
  case (Cons p bs)
  obtain j c r where p: "p = (j, c, r)" by (cases p)
  have "rate_sweep now (p # bs) = (if r \<le> now then rate_sweep now bs else p # rate_sweep now bs)"
    by (simp add: rate_sweep_def p)
  moreover have "map_of bs j = None" using Cons.prems by (simp add: p map_of_eq_None_iff)
  ultimately show ?case using Cons by (auto simp: p live_def)
qed (simp add: rate_sweep_def live_def)

lemma distinct_sweep: "distinct (map fst bs) \<Longrightarrow> distinct (map fst (rate_sweep now bs))"
  unfolding rate_sweep_def by (rule distinct_map_filter)

lemma live_live [simp]: "live now (live now b) = live now b"
  by (auto simp: live_def split: option.split prod.split)

lemma agree_sweep: "agree now bs m \<Longrightarrow> agree now (rate_sweep now bs) m"
  unfolding agree_def by (simp add: map_of_sweep distinct_sweep)

lemma agree_update: "agree now bs m \<Longrightarrow> agree now (AList.update k b bs) (m(k := Some b))"
  unfolding agree_def by (auto simp: distinct_update update_conv')

lemma rate_intercept_agrees:
  assumes "agree now bs m" and "k = bucket_key q (ro_by_actor opt)"
    and "window_step (ro_max opt) (ro_window opt) now (m k) = (v, b)"
  shows "\<exists>r bs'. rate_intercept (Some opt) q now bs = (r, bs') \<and> (case r of Inl e \<Rightarrow> False | Inr u \<Rightarrow> True) = v \<and> agree now bs' (m(k := b))"
proof -
  have l: "live now (map_of bs k) = live now (m k)" using assms(1) by (simp add: agree_def)
  have same: "m(k := m k) = m" by simp
  show ?thesis
  proof (cases "live now (m k)")
    case None
    with assms(3) have "v" "b = Some (1, now + ro_window opt)"
      by (auto simp: window_step_def live_def split: option.splits if_splits)
    moreover have "live now (map_of bs k) = None" using l None by simp
    ultimately show ?thesis
      using agree_update [OF assms(1), of k "(1, now + ro_window opt)"]
        agree_update [OF agree_sweep [OF assms(1)], of k "(1, now + ro_window opt)"]
      by (auto simp: rate_intercept_def Let_def assms(2) [symmetric] live_def split: option.splits if_splits)
  next
    case (Some p)
    obtain c r where p: "p = (c, r)" by (cases p)
    with Some have m: "m k = Some (c, r)" "\<not> r \<le> now" by (auto simp: live_def split: option.splits if_splits)
    have bs: "map_of bs k = Some (c, r)" using l Some p by (auto simp: live_def split: option.splits if_splits)
    show ?thesis
    proof (cases "ro_max opt \<le> c")
      case True
      then have "rate_intercept (Some opt) q now bs =
          (Inl (Http 429 ''rate_limited'' (Fields [show_int (retry_after r now)])), bs)"
        using bs m by (simp add: rate_intercept_def Let_def assms(2) [symmetric])
      moreover have "\<not> v" "b = m k" using assms(3) m True by (simp_all add: window_step_def)
      ultimately show ?thesis using assms(1) same by simp
    next
      case False
      then have "rate_intercept (Some opt) q now bs = (Inr (), AList.update k (c + 1, r) bs)"
        using bs m by (simp add: rate_intercept_def Let_def assms(2) [symmetric])
      moreover have "v" "b = Some (c + 1, r)" using assms(3) m False by (simp_all add: window_step_def)
      ultimately show ?thesis using agree_update [OF assms(1), of k "(c + 1, r)"] by simp
    qed
  qed
qed

lemma rate_verdicts_agree:
  assumes "agree now bs m" and "sorted (now # map rate_time evs)"
  shows "rate_verdicts evs bs = window_verdicts evs m"
  using assms
proof (induction evs arbitrary: now bs m)
  case (Cons ev evs)
  have agr: "agree (rate_time ev) bs m" using Cons.prems agree_later by fastforce
  have srt: "sorted (rate_time ev # map rate_time evs)" using Cons.prems(2) by simp
  show ?case
  proof (cases ev)
    case (Sweep_Timer t)
    with Cons.IH [OF agree_sweep [OF agr] srt] show ?thesis by simp
  next
    case (Request opts q t)
    show ?thesis
    proof (cases opts)
      case None
      with Cons.IH [OF agr srt] Request show ?thesis by (simp add: rate_intercept_def)
    next
      case (Some opt)
      let ?k = "bucket_key q (ro_by_actor opt)"
      obtain v b where w: "window_step (ro_max opt) (ro_window opt) t (m ?k) = (v, b)" by fastforce
      from rate_intercept_agrees [OF agr refl, of opt q v b] w Request obtain r bs' where
        r: "rate_intercept (Some opt) q t bs = (r, bs')" "(case r of Inl e \<Rightarrow> False | Inr u \<Rightarrow> True) = v"
          "agree (rate_time ev) bs' (m(?k := b))" by auto
      from Cons.IH [OF r(3) srt] r(1,2) w Some Request show ?thesis by (simp add: Let_def fun_upd_def)
    qed
  qed
qed simp

section \<open>How much a window lets through\<close>

text \<open>Accepted requests of a key with times in \<open>[a, a + w)\<close>.\<close>

fun accepted :: "string \<Rightarrow> int \<Rightarrow> int \<Rightarrow> rate_event list \<Rightarrow> bool list \<Rightarrow> nat" where
  "accepted k a w (Request (Some opt) q t # evs) (v # vs) =
     (if v \<and> bucket_key q (ro_by_actor opt) = k \<and> a \<le> t \<and> t < a + w then 1 else 0) + accepted k a w evs vs"
| "accepted k a w (ev # evs) (v # vs) = accepted k a w evs vs"
| "accepted k a w evs vs = 0"

text \<open>
  The state of a window while \<open>n\<close> requests of the interval were let through: a bucket that began before the
  interval accounts for at most its count, one that began in it for at most its count and a full bucket before.
\<close>

definition window_inv :: "nat \<Rightarrow> int \<Rightarrow> int \<Rightarrow> int \<Rightarrow> nat \<Rightarrow> (nat \<times> int) option \<Rightarrow> bool" where
  "window_inv mx a w now n b \<longleftrightarrow>
     (now < a \<longrightarrow> n = 0) \<and> n \<le> 2 * mx \<and>
     (case b of None \<Rightarrow> n = 0
      | Some (c, r) \<Rightarrow> c \<le> mx \<and> r - w \<le> now \<and> (r \<le> a \<longrightarrow> n = 0) \<and> (r < a + w \<longrightarrow> n \<le> c) \<and> (r < a + 2 * w \<longrightarrow> n \<le> mx + c))"

lemma window_inv_step:
  assumes "window_inv mx a w now n b" and "now \<le> t" and "window_step mx w t b = (v, b')" and "1 \<le> mx" and "0 \<le> w"
  shows "window_inv mx a w t (n + (if v \<and> a \<le> t \<and> t < a + w then 1 else 0)) b'"
proof (cases b)
  case None
  with assms show ?thesis by (auto simp: window_inv_def window_step_def)
next
  case (Some p)
  obtain c r where p: "p = (c, r)" by (cases p)
  consider "r \<le> t" | "\<not> r \<le> t" "mx \<le> c" | "\<not> r \<le> t" "\<not> mx \<le> c" by blast
  then show ?thesis
    using assms Some p by cases (auto simp: window_inv_def window_step_def)
qed

lemma window_bound:
  assumes "window_inv (ro_max o') a (ro_window o') now n (m k)" and "sorted (now # map rate_time evs)"
    and "\<forall>opt q t. Request (Some opt) q t \<in> set evs \<longrightarrow> bucket_key q (ro_by_actor opt) = k \<longrightarrow> opt = o'"
    and "1 \<le> ro_max o'" and "0 \<le> ro_window o'"
  shows "n + accepted k a (ro_window o') evs (window_verdicts evs m) \<le> 2 * ro_max o'"
  using assms(1-3)
proof (induction evs arbitrary: now n m)
  case Nil
  then show ?case by (simp add: window_inv_def)
next
  case (Cons ev evs)
  let ?t = "rate_time ev"
  have le: "now \<le> ?t" and srt: "sorted (?t # map rate_time evs)" using Cons.prems(2) by auto
  have same: "\<forall>opt q t. Request (Some opt) q t \<in> set evs \<longrightarrow> bucket_key q (ro_by_actor opt) = k \<longrightarrow> opt = o'"
    using Cons.prems(3) by simp
  show ?case
  proof (cases "\<exists>opt q t. ev = Request (Some opt) q t \<and> bucket_key q (ro_by_actor opt) = k")
    case True
    then obtain opt q t where ev': "ev = Request (Some opt) q t" and k': "bucket_key q (ro_by_actor opt) = k" by blast
    have "Request (Some opt) q t \<in> set (ev # evs)" by (simp add: ev')
    then have "opt = o'" using Cons.prems(3) k' by blast
    with ev' k' have ev: "ev = Request (Some o') q t" and k: "bucket_key q (ro_by_actor o') = k" by simp_all
    then have t: "?t = t" by simp
    obtain v b where w: "window_step (ro_max o') (ro_window o') t (m k) = (v, b)" by fastforce
    from window_inv_step [OF Cons.prems(1) le _ assms(4,5)] w
    have "window_inv (ro_max o') a (ro_window o') ?t (n + (if v \<and> a \<le> t \<and> t < a + ro_window o' then 1 else 0)) ((m(k := b)) k)"
      unfolding t by simp
    from Cons.IH [where m = "m(k := b)", OF this srt same] show ?thesis
      by (simp add: ev Let_def k w fun_upd_def)
  next
    case False
    have skip: "\<exists>m' v. m' k = m k \<and> window_verdicts (ev # evs) m = v # window_verdicts evs m'"
    proof (cases ev)
      case (Request opts q t)
      show ?thesis
      proof (cases opts)
        case (Some opt)
        obtain v b where w: "window_step (ro_max opt) (ro_window opt) t (m (bucket_key q (ro_by_actor opt))) = (v, b)" by fastforce
        let ?m' = "m(bucket_key q (ro_by_actor opt) := b)"
        have "?m' k = m k" using False Request Some by auto
        moreover have "window_verdicts (ev # evs) m = v # window_verdicts evs ?m'"
          using w Request Some by (simp add: Let_def)
        ultimately show ?thesis by blast
      qed (use Request in auto)
    qed auto
    then obtain m' v where m': "m' k = m k" "window_verdicts (ev # evs) m = v # window_verdicts evs m'" by blast
    have "accepted k a (ro_window o') (ev # evs) (v # vs) = accepted k a (ro_window o') evs vs" for vs
      using False by (cases "(k, a, ro_window o', ev # evs, v # vs)" rule: accepted.cases) auto
    moreover have "n + accepted k a (ro_window o') evs (window_verdicts evs m') \<le> 2 * ro_max o'"
      by (rule Cons.IH [OF _ _ same, of now]) (use Cons.prems m' in auto)
    ultimately show ?thesis unfolding m'(2) by simp
  qed
qed

section \<open>Properties\<close>

text \<open>
  C10. One run per idempotency key: when handlers end within the life of their marker and their answers can be
  stored, two runs of requests with the same key, however requests interleave, are a day apart: the earlier ended
  at least \<open>RESULT_TTL\<close> before the later started.
\<close>

theorem idempotent_runs_once:
  assumes "prompt sha rq now evs idem_start"
  shows "runs_spaced (\<lambda>i. idem_key (rq i)) (ix_ends (idem_run sha rq evs idem_start)) (ix_starts (idem_run sha rq evs idem_start))"
  using idem_inv_run [OF idem_inv_start assms] idem_invD(7) by blast

text \<open>
  A replayed answer is the answer: in every interleaving, with outages of Redis and slow handlers too, what a
  request gets from the store is what the handler of an earlier request with the same key and fingerprint ended with.
\<close>

theorem replay_same_answer:
  assumes "ix_phase (idem_run sha rq evs idem_start) i = Replayed k status body"
  shows "\<exists>j t res. (j, t, res) \<in> set (ix_ends (idem_run sha rq evs idem_start)) \<and>
     idem_key (rq j) = Some k \<and> idem_key (rq i) = Some k \<and> fingerprintOf sha (rq j) = fingerprintOf sha (rq i) \<and>
     result_record (rq j) res = (status, body)"
proof -
  have "replay_inv sha rq (idem_run sha rq evs idem_start)" by (rule replay_inv_run [OF replay_inv_start])
  with assms show ?thesis by (fastforce simp: replay_inv_def ended_as_def)
qed

text \<open>
  Rate limits: with buckets swept on a timer and at the size ceiling, no interval as long as the window lets more
  than twice the limit of requests of one key through; a burst at a window's edge reaches the bound.
\<close>

theorem rate_limit_bound:
  assumes "sorted (map rate_time evs)"
    and "\<forall>opt q t. Request (Some opt) q t \<in> set evs \<longrightarrow> bucket_key q (ro_by_actor opt) = k \<longrightarrow> opt = o'"
    and "1 \<le> ro_max o'" and "0 \<le> ro_window o'"
  shows "accepted k a (ro_window o') evs (rate_verdicts evs []) \<le> 2 * ro_max o'"
proof (cases evs)
  case (Cons ev evs')
  have srt: "sorted (rate_time ev # map rate_time evs)" using assms(1) Cons by simp
  have "rate_verdicts evs [] = window_verdicts evs (\<lambda>_. None)"
    by (rule rate_verdicts_agree [OF _ srt]) (simp add: agree_def live_def)
  moreover have "0 + accepted k a (ro_window o') evs (window_verdicts evs (\<lambda>_. None)) \<le> 2 * ro_max o'"
    by (rule window_bound [OF _ srt assms(2-4)]) (simp add: window_inv_def)
  ultimately show ?thesis by simp
qed simp

section \<open>Witnesses\<close>

definition sample_idem_request :: idem_request where
  "sample_idem_request = \<lparr>iq_merchant = Some (''m1'', Test), iq_header = Header ''key'', iq_method = ''POST'',
     iq_url = ''/v1/payment-sessions'', iq_body = ''{}'', iq_skip = False, iq_http_code = None\<rparr>"

lemma sample_idem_gate: "idem_gate sample_idem_request = Inr (Some (idem_redis_key ''m1'' Test ''key''))"
  by (simp add: idem_gate_def sample_idem_request_def key_pattern_def)

lemmas idem_eval = intercept_arrive_def claim_set_def claim_read_def store_result_def set_phase_def sample_idem_gate idem_start_def
  ttl_set_nx_def ttl_get_def ttl_put_def IN_PROGRESS_TTL_def RESULT_TTL_def timely_def result_record_def success_status_def Let_def

text \<open>
  The marker is not renewed: a handler that runs for a minute loses it, and a retry of the same request runs the
  write a second time.
\<close>

lemma slow_handler_runs_twice:
  "ix_starts (idem_run sha (\<lambda>_. sample_idem_request)
     [Arrive 0 0, Claim_Step 0 0 True, Arrive 1 60000, Claim_Step 1 60000 True] idem_start) = [(1, 60000), (0, 0)]"
  by (simp add: idem_eval)

abbreviation "retry_trace \<equiv> [Arrive 0 0, Claim_Step 0 0 True, Handler_End 0 5000 True (Inr (Json ''s1'')),
     Arrive 1 6000, Claim_Step 1 6000 True, Read_Step 1 6000 True]"

theorem idempotent_runs_once_witness:
  "runs_spaced (\<lambda>i. idem_key sample_idem_request) (ix_ends (idem_run (\<lambda>t. t) (\<lambda>_. sample_idem_request) retry_trace idem_start))
     (ix_starts (idem_run (\<lambda>t. t) (\<lambda>_. sample_idem_request) retry_trace idem_start)) \<and>
   ix_starts (idem_run (\<lambda>t. t) (\<lambda>_. sample_idem_request) retry_trace idem_start) = [(0, 0)]"
proof -
  have "prompt (\<lambda>t. t) (\<lambda>_. sample_idem_request) 0 retry_trace idem_start"
    by (simp add: idem_eval)
  moreover have "ix_starts (idem_run (\<lambda>t. t) (\<lambda>_. sample_idem_request) retry_trace idem_start) = [(0, 0)]"
    by (simp add: idem_eval)
  ultimately show ?thesis using idempotent_runs_once by blast
qed

theorem replay_same_answer_witness:
  "\<exists>j t res. (j, t, res) \<in> set (ix_ends (idem_run (\<lambda>t. t) (\<lambda>_. sample_idem_request) retry_trace idem_start)) \<and>
     result_record sample_idem_request res = (201, Json ''s1'')"
proof -
  have "ix_phase (idem_run (\<lambda>t. t) (\<lambda>_. sample_idem_request) retry_trace idem_start) 1 =
      Replayed (idem_redis_key ''m1'' Test ''key'') 201 (Json ''s1'')"
    by (simp add: idem_eval) (simp add: sample_idem_request_def)
  from replay_same_answer [OF this] show ?thesis by blast
qed

definition contact_limit :: rate_options where
  "contact_limit = \<lparr>ro_max = 1, ro_window = 1000, ro_by_actor = False\<rparr>"

definition contact_request :: rate_request where
  "contact_request = \<lparr>rr_method = ''POST'', rr_route_url = Some ''/v1/contact'', rr_url = ''/v1/contact'',
     rr_merchant_id = None, rr_admin_id = None, rr_ip = Some ''1.1.1.1''\<rparr>"

theorem rate_limit_bound_witness:
  "accepted (bucket_key contact_request False) 900 1000 (map (Request (Some contact_limit) contact_request) [950, 960, 1950])
     (rate_verdicts (map (Request (Some contact_limit) contact_request) [950, 960, 1950]) []) \<le> 2 \<and>
   rate_verdicts (map (Request (Some contact_limit) contact_request) [950, 960, 1950]) [] = [True, False, True]"
proof -
  let ?evs = "map (Request (Some contact_limit) contact_request) [950, 960, 1950]"
  have "sorted (map rate_time ?evs)" "1 \<le> ro_max contact_limit" "0 \<le> ro_window contact_limit"
    and "\<forall>opt q t. Request (Some opt) q t \<in> set ?evs \<longrightarrow> bucket_key q (ro_by_actor opt) = bucket_key contact_request False \<longrightarrow> opt = contact_limit"
    by (simp_all add: contact_limit_def)
  from rate_limit_bound [OF this(1,4,2,3), of 900]
  have "accepted (bucket_key contact_request False) 900 1000 ?evs (rate_verdicts ?evs []) \<le> 2"
    by (simp add: contact_limit_def)
  moreover have "rate_verdicts ?evs [] = [True, False, True]"
    by (simp add: rate_intercept_def contact_limit_def Let_def SIZE_CEILING_def)
  ultimately show ?thesis by blast
qed

end
