(* ===== verification/Access.thy ===== *)
theory Access
  imports Webhook_Crypto Merchant_Chain
begin

text \<open>
  Who may call the API: the guards of \<open>apps/api/src/common/guards\<close>, the API keys of
  \<open>modules/api-keys/api-keys.service.ts\<close>, and the checks for live mode of
  \<open>modules/merchants/merchants.service.ts\<close>. SHA-256 (\<open>sha\<close>), the random part of a key and Privy's
  token verification are parameters.
\<close>

section \<open>Requests and callers\<close>

text \<open>The metadata of a route: \<open>@Public\<close>, \<open>@SessionOnly\<close>, \<open>@RequireScopes\<close>, \<open>@RequireAdminRoles\<close>.\<close>

record route =
  rt_public :: bool
  rt_session_only :: bool
  rt_scopes :: "api_key_scope list option"
  rt_admin_roles :: "admin_role list option"

text \<open>\<open>CurrentMerchantPayload\<close>: the scopes are present when an API key authenticated the call.\<close>

record caller =
  cl_merchant_id :: string
  cl_api_key_id :: "string option"
  cl_scopes :: "api_key_scope list option"
  cl_mode :: api_mode

record admin_caller =
  dc_admin_id :: string
  dc_email :: string
  dc_role :: admin_role

abbreviation unauthorized :: "string \<Rightarrow> api_exn" where
  "unauthorized c \<equiv> Http 401 c No_Details"

definition bearer_token :: "string option \<Rightarrow> ('s, api_exn, string) proc" where
  "bearer_token auth =
     (case auth of
        None \<Rightarrow> raise (unauthorized ''authentication_error'')
      | Some h \<Rightarrow> if starts_with h ''Bearer '' then ret (js_trim (drop 7 h)) else raise (unauthorized ''authentication_error''))"

definition assertSecretKeyKind :: "string \<Rightarrow> ('s, api_exn, unit) proc" where
  "assertSecretKeyKind token = require (kindFromKey token = Some Secret) (unauthorized ''authentication_error'')"

definition assertDeploymentMode :: "arc_environment \<Rightarrow> api_mode \<Rightarrow> ('s, api_exn, unit) proc" where
  "assertDeploymentMode environment mode = require (mode = arcModeFor environment) (forbidden ''mode_unavailable'')"

definition assertApiKeyRouteAccess :: "route \<Rightarrow> api_key_scope list \<Rightarrow> ('s, api_exn, unit) proc" where
  "assertApiKeyRouteAccess rt held =
     seq (require (\<not> rt_session_only rt) (forbidden ''permission_denied'')) (\<lambda>_.
     let required = (case rt_scopes rt of None \<Rightarrow> [] | Some scopes \<Rightarrow> scopes) in
     seq (require (required \<noteq> []) (forbidden ''permission_denied'')) (\<lambda>_.
     require (list_all (\<lambda>scope. scope \<in> set held) required) (forbidden ''permission_denied'')))"

section \<open>Guards\<close>

definition authenticateWithApiKey ::
  "(string \<Rightarrow> string) \<Rightarrow> config \<Rightarrow> route \<Rightarrow> int \<Rightarrow> string \<Rightarrow> (store, api_exn, caller) proc" where
  "authenticateWithApiKey sha cfg rt now token =
     seq (assertSecretKeyKind token) (\<lambda>_.
     seq (or_raise (unauthorized ''authentication_error'') (modeFromKey token)) (\<lambda>mode.
     seq (assertDeploymentMode (cf_arc_environment cfg) mode) (\<lambda>_.
     seq (gets (\<lambda>s. find_row ak_hash (sha token) (api_keys s))) (\<lambda>row.
     seq (or_raise (unauthorized ''authentication_error'') row) (\<lambda>apiKey.
     seq (require (ak_revoked_at apiKey = None) (unauthorized ''authentication_error'')) (\<lambda>_.
     seq (gets (\<lambda>s. find_row m_id (ak_merchant_id apiKey) (merchants s))) (\<lambda>m.
     seq (or_raise p2025 m) (\<lambda>merchant.
     seq (require (m_status merchant = Merchant_Active) (forbidden ''permission_denied'')) (\<lambda>_.
     seq (assertApiKeyRouteAccess rt (ak_scopes apiKey)) (\<lambda>_.
     seq (modify (\<lambda>s. s\<lparr>api_keys := update_where (\<lambda>r. ak_id r = ak_id apiKey)
            (\<lambda>r. r\<lparr>ak_last_used_at := Some now\<rparr>) (api_keys s)\<rparr>)) (\<lambda>_.
     ret \<lparr>cl_merchant_id = ak_merchant_id apiKey, cl_api_key_id = Some (ak_id apiKey),
          cl_scopes = Some (ak_scopes apiKey), cl_mode = ak_mode apiKey\<rparr>)))))))))))"

text \<open>\<open>verify\<close> is Privy's token check: the user id of a valid token.\<close>

definition verifyAccessToken :: "(string \<Rightarrow> string option) \<Rightarrow> string \<Rightarrow> ('s, api_exn, string) proc" where
  "verifyAccessToken verify token = or_raise (unauthorized ''authentication_error'') (verify token)"

definition authenticateWithPrivy ::
  "(string \<Rightarrow> string option) \<Rightarrow> config \<Rightarrow> int \<Rightarrow> string \<Rightarrow> (store, api_exn, caller) proc" where
  "authenticateWithPrivy verify cfg now token =
     seq (verifyAccessToken verify token) (\<lambda>userId.
     seq (gets (\<lambda>s. find_row m_privy_user_id (Some userId) (merchants s))) (\<lambda>m.
     seq (or_raise (unauthorized ''merchant_not_synced'') m) (\<lambda>merchant.
     seq (require (m_status merchant = Merchant_Active) (forbidden ''permission_denied'')) (\<lambda>_.
     seq (modify (\<lambda>s. s\<lparr>merchants := update_where (\<lambda>r. m_id r = m_id merchant)
            (\<lambda>r. r\<lparr>m_last_login_at := Some now\<rparr>) (merchants s)\<rparr>)) (\<lambda>_.
     ret \<lparr>cl_merchant_id = m_id merchant, cl_api_key_id = None, cl_scopes = None,
          cl_mode = arcModeFor (cf_arc_environment cfg)\<rparr>)))))"

text \<open>\<open>None\<close>: a public route, called without a caller.\<close>

definition ApiKeyGuard :: "(string \<Rightarrow> string) \<Rightarrow> config \<Rightarrow> route \<Rightarrow> int \<Rightarrow> string option \<Rightarrow> (store, api_exn, caller option) proc" where
  "ApiKeyGuard sha cfg rt now auth =
     (if rt_public rt then ret None
      else seq (bearer_token auth) (\<lambda>token.
           seq (authenticateWithApiKey sha cfg rt now token) (\<lambda>c. ret (Some c))))"

definition PrivyAuthGuard ::
  "(string \<Rightarrow> string option) \<Rightarrow> config \<Rightarrow> route \<Rightarrow> int \<Rightarrow> string option \<Rightarrow> (store, api_exn, caller option) proc" where
  "PrivyAuthGuard verify cfg rt now auth =
     (if rt_public rt then ret None
      else seq (bearer_token auth) (\<lambda>token.
           seq (authenticateWithPrivy verify cfg now token) (\<lambda>c. ret (Some c))))"

definition PrivySessionGuard :: "(string \<Rightarrow> string option) \<Rightarrow> string option \<Rightarrow> (store, api_exn, string) proc" where
  "PrivySessionGuard verify auth = seq (bearer_token auth) (verifyAccessToken verify)"

definition MerchantAuthGuard ::
  "(string \<Rightarrow> string) \<Rightarrow> (string \<Rightarrow> string option) \<Rightarrow> config \<Rightarrow> route \<Rightarrow> int \<Rightarrow> string option \<Rightarrow> (store, api_exn, caller option) proc" where
  "MerchantAuthGuard sha verify cfg rt now auth =
     (if rt_public rt then ret None
      else seq (bearer_token auth) (\<lambda>token.
           seq (if starts_with token ''sk_'' \<or> starts_with token ''pk_''
                then authenticateWithApiKey sha cfg rt now token
                else authenticateWithPrivy verify cfg now token) (\<lambda>c. ret (Some c))))"

definition AdminAuthGuard ::
  "(string \<Rightarrow> string option) \<Rightarrow> route \<Rightarrow> int \<Rightarrow> string option \<Rightarrow> (store, api_exn, admin_caller option) proc" where
  "AdminAuthGuard verify rt now auth =
     (if rt_public rt then ret None
      else seq (bearer_token auth) (\<lambda>token.
           seq (verifyAccessToken verify token) (\<lambda>userId.
           seq (gets (\<lambda>s. find_row ad_privy_user_id (Some userId) (admin_users s))) (\<lambda>row.
           seq (or_raise (forbidden ''admin_access_denied'') row) (\<lambda>admin.
           seq (require (ad_active admin) (forbidden ''admin_account_inactive'')) (\<lambda>_.
           seq (case rt_admin_roles rt of
                  Some required \<Rightarrow> require (required = [] \<or> ad_role admin \<in> set required) (forbidden ''admin_insufficient_role'')
                | None \<Rightarrow> ret ()) (\<lambda>_.
           seq (modify (\<lambda>s. s\<lparr>admin_users := update_where (\<lambda>r. ad_id r = ad_id admin)
                  (\<lambda>r. r\<lparr>ad_last_login_at := Some now\<rparr>) (admin_users s)\<rparr>)) (\<lambda>_.
           ret (Some \<lparr>dc_admin_id = ad_id admin, dc_email = ad_email admin, dc_role = ad_role admin\<rparr>)))))))))"

section \<open>Live mode\<close>

definition live_mode_reasons :: "merchant_row \<Rightarrow> string list" where
  "live_mode_reasons m =
     (if m_email_verified m then [] else [''email_unverified'']) @
     (if m_two_factor_enabled m then [] else [''mfa_required'']) @
     (if m_onboarding_completed m then [] else [''onboarding_incomplete'']) @
     (if truthy (m_payout_address m) then [] else [''payout_address_missing''])"

definition liveModeEligibility :: "string \<Rightarrow> (store, api_exn, bool \<times> string list) proc" where
  "liveModeEligibility i =
     seq (gets (\<lambda>s. find_row m_id i (merchants s))) (\<lambda>row.
     seq (or_raise not_found row) (\<lambda>m.
     let reasons = live_mode_reasons m in ret (reasons = [], reasons)))"

definition assertLiveKeyMintable :: "config \<Rightarrow> string \<Rightarrow> (store, api_exn, unit) proc" where
  "assertLiveKeyMintable cfg merchantId =
     seq (require (cf_arc_environment cfg = Mainnet) (forbidden ''live_mode_unavailable'')) (\<lambda>_.
     seq (liveModeEligibility merchantId) (\<lambda>(eligible, reasons).
     require eligible (Http 403 ''live_mode_ineligible'' (Fields reasons))))"

section \<open>API keys\<close>

record api_key_input =
  ki_name :: string
  ki_kind :: api_key_kind
  ki_mode :: api_mode
  ki_scopes :: "api_key_scope list"

text \<open>An API key on the wire: the row without its hash.\<close>

record api_key_wire =
  aw_id :: string
  aw_merchant_id :: string
  aw_name :: string
  aw_kind :: api_key_kind
  aw_mode :: api_mode
  aw_prefix :: string
  aw_last_four :: string
  aw_scopes :: "api_key_scope list"
  aw_created_at :: int
  aw_last_used_at :: "int option"
  aw_revoked_at :: "int option"

definition serialise_key :: "api_key_row \<Rightarrow> api_key_wire" where
  "serialise_key r = \<lparr>aw_id = ak_id r, aw_merchant_id = ak_merchant_id r, aw_name = ak_name r, aw_kind = ak_kind r,
     aw_mode = ak_mode r, aw_prefix = ak_prefix r, aw_last_four = ak_last_four r, aw_scopes = ak_scopes r,
     aw_created_at = ak_created_at r, aw_last_used_at = ak_last_used_at r, aw_revoked_at = ak_revoked_at r\<rparr>"

definition visibleTo :: "caller \<Rightarrow> api_key_row \<Rightarrow> bool" where
  "visibleTo c r \<longleftrightarrow> ak_merchant_id r = cl_merchant_id c \<and> (cl_scopes c \<noteq> None \<longrightarrow> ak_mode r = cl_mode c)"

definition assertScopesHeld :: "api_key_scope list \<Rightarrow> api_key_scope list \<Rightarrow> ('s, api_exn, unit) proc" where
  "assertScopesHeld held requested = require (list_all (\<lambda>scope. scope \<in> set held) requested) (forbidden ''permission_denied'')"

text \<open>\<open>merchantApiKey.create\<close>, with the unique index on the hash.\<close>

definition new_key_row :: "string \<Rightarrow> int \<Rightarrow> string \<Rightarrow> string \<Rightarrow> api_key_scope list \<Rightarrow> generated_key \<Rightarrow> api_key_row" where
  "new_key_row i now merchantId name scopes g = \<lparr>ak_id = i, ak_merchant_id = merchantId, ak_name = name,
     ak_kind = gk_kind g, ak_mode = gk_mode g, ak_hash = gk_hash g, ak_prefix = gk_prefix g,
     ak_last_four = gk_last_four g, ak_scopes = scopes, ak_last_used_at = None, ak_revoked_at = None, ak_created_at = now\<rparr>"

definition insert_key :: "api_key_row \<Rightarrow> (store, api_exn, unit) proc" where
  "insert_key r =
     seq (gets api_keys) (\<lambda>t.
     if ak_hash r \<in> ak_hash ` set t \<or> ak_id r \<in> ak_id ` set t then raise (Crash ''P2002'')
     else modify (\<lambda>s. s\<lparr>api_keys := api_keys s @ [r]\<rparr>))"

text \<open>The mode check before a key is minted.\<close>

definition assert_mintable :: "config \<Rightarrow> string \<Rightarrow> api_mode \<Rightarrow> (store, api_exn, unit) proc" where
  "assert_mintable cfg merchantId mode =
     (if mode = Live then assertLiveKeyMintable cfg merchantId
      else assertDeploymentMode (cf_arc_environment cfg) mode)"

definition create_api_key ::
  "(string \<Rightarrow> string) \<Rightarrow> config \<Rightarrow> string \<Rightarrow> string \<Rightarrow> int \<Rightarrow> caller \<Rightarrow> api_key_input \<Rightarrow> (store, api_exn, api_key_wire \<times> string) proc" where
  "create_api_key sha cfg i random now c input =
     seq (case cl_scopes c of
            None \<Rightarrow> ret ()
          | Some held \<Rightarrow>
              seq (require (ki_mode input = cl_mode c) (forbidden ''permission_denied'')) (\<lambda>_.
              assertScopesHeld held (ki_scopes input))) (\<lambda>_.
     seq (assert_mintable cfg (cl_merchant_id c) (ki_mode input)) (\<lambda>_.
     let g = generateApiKey sha random (ki_kind input) (ki_mode input);
         row = new_key_row i now (cl_merchant_id c) (ki_name input) (ki_scopes input) g
     in seq (insert_key row) (\<lambda>_. ret (serialise_key row, gk_secret g))))"

text \<open>\<open>revoked\<close>: all keys, only the revoked, or only the others.\<close>

definition list_api_keys :: "caller \<Rightarrow> list_params \<Rightarrow> bool option \<Rightarrow> (store, api_exn, api_key_wire page) proc" where
  "list_api_keys c p revoked = gets (\<lambda>s.
     map_page serialise_key (list_page ak_id p (newest_first ak_created_at
       (filter (\<lambda>r. visibleTo c r \<and> (case revoked of None \<Rightarrow> True | Some b \<Rightarrow> (ak_revoked_at r \<noteq> None) = b)) (api_keys s)))))"

definition find_key :: "caller \<Rightarrow> string \<Rightarrow> (store, api_exn, api_key_row) proc" where
  "find_key c i =
     seq (gets (\<lambda>s. find (\<lambda>r. ak_id r = i \<and> visibleTo c r) (api_keys s))) (\<lambda>row. or_raise not_found row)"

definition retrieve_api_key :: "caller \<Rightarrow> string \<Rightarrow> (store, api_exn, api_key_wire) proc" where
  "retrieve_api_key c i = seq (find_key c i) (\<lambda>r. ret (serialise_key r))"

definition set_revoked :: "string \<Rightarrow> int \<Rightarrow> (store, api_exn, unit) proc" where
  "set_revoked i now = modify (\<lambda>s. s\<lparr>api_keys := update_where (\<lambda>r. ak_id r = i) (\<lambda>r. r\<lparr>ak_revoked_at := Some now\<rparr>) (api_keys s)\<rparr>)"

definition revoke_api_key :: "int \<Rightarrow> caller \<Rightarrow> string \<Rightarrow> (store, api_exn, api_key_wire) proc" where
  "revoke_api_key now c i =
     seq (find_key c i) (\<lambda>r.
     seq (set_revoked i now) (\<lambda>_. ret (serialise_key (r\<lparr>ak_revoked_at := Some now\<rparr>))))"

definition rotate_api_key ::
  "(string \<Rightarrow> string) \<Rightarrow> config \<Rightarrow> string \<Rightarrow> string \<Rightarrow> int \<Rightarrow> caller \<Rightarrow> string \<Rightarrow> (store, api_exn, api_key_wire \<times> string) proc" where
  "rotate_api_key sha cfg i random now c k =
     seq (find_key c k) (\<lambda>source.
     seq (case cl_scopes c of None \<Rightarrow> ret () | Some held \<Rightarrow> assertScopesHeld held (ak_scopes source)) (\<lambda>_.
     seq (assert_mintable cfg (cl_merchant_id c) (ak_mode source)) (\<lambda>_.
     let g = generateApiKey sha random (ak_kind source) (ak_mode source);
         row = new_key_row i now (cl_merchant_id c) (ak_name source) (ak_scopes source) g
     in seq (in_tx (seq (set_revoked k now) (\<lambda>_. insert_key row))) (\<lambda>_.
        ret (serialise_key row, gk_secret g)))))"

section \<open>What an operation does to the keys\<close>

text \<open>What never changes of a key, and what every operation leaves of it.\<close>

definition key_fact :: "api_key_row \<Rightarrow> string \<times> string \<times> api_mode \<times> api_key_scope list" where
  "key_fact r = (ak_hash r, ak_merchant_id r, ak_mode r, ak_scopes r)"

definition key_facts :: "store \<Rightarrow> (string \<times> string \<times> api_mode \<times> api_key_scope list) list" where
  "key_facts s = map key_fact (api_keys s)"

lemma key_facts_update:
  "(\<And>r. key_fact (f r) = key_fact r) \<Longrightarrow> map key_fact (update_where P f t) = map key_fact t"
  by (auto simp: update_where_def)

lemma key_fact_patches [simp]: "key_fact (r\<lparr>ak_last_used_at := a\<rparr>) = key_fact r" "key_fact (r\<lparr>ak_revoked_at := b\<rparr>) = key_fact r"
  by (simp_all add: key_fact_def)

lemma hashes_of_facts: "map fst (key_facts s) = map ak_hash (api_keys s)"
  by (simp add: key_facts_def key_fact_def comp_def)

lemma find_key_unchanged: "find_key c i s = (r, s') \<Longrightarrow> s' = s"
  by (auto simp: find_key_def split: option.splits)

lemma seq_find_key:
  "seq (find_key c i) k s =
     (case find (\<lambda>r. ak_id r = i \<and> visibleTo c r) (api_keys s) of None \<Rightarrow> (Inl not_found, s) | Some r \<Rightarrow> k r s)"
  by (simp add: find_key_def seq_def split: option.split)

lemma find_key_Inr: "find_key c i s = (Inr r, s') \<Longrightarrow> s' = s \<and> r \<in> set (api_keys s) \<and> ak_id r = i \<and> visibleTo c r"
  by (auto simp: find_key_def find_Some_iff in_set_conv_nth split: option.splits)

lemma assert_mintable_unchanged: "snd (assert_mintable cfg m mode s) = s"
  by (auto simp: assert_mintable_def assertLiveKeyMintable_def liveModeEligibility_def assertDeploymentMode_def seq_def Let_def
      split: option.split)

lemma assert_mintable_Inr:
  "fst (assert_mintable cfg m mode s) = Inr () \<Longrightarrow> mode = arcModeFor (cf_arc_environment cfg) \<and>
     (mode = Live \<longrightarrow> (\<exists>r. find_row m_id m (merchants s) = Some r \<and> live_mode_reasons r = []))"
  by (auto simp: assert_mintable_def assertLiveKeyMintable_def liveModeEligibility_def assertDeploymentMode_def seq_def Let_def
      split: option.splits if_splits)

text \<open>A mint appends one key, of the caller's merchant, or changes nothing.\<close>

definition minted :: "(string \<Rightarrow> string) \<Rightarrow> caller \<Rightarrow> api_mode \<Rightarrow> api_key_scope list \<Rightarrow> string \<Rightarrow> store \<Rightarrow> store \<Rightarrow> bool" where
  "minted sha c mode scopes secret s s' \<longleftrightarrow>
     key_facts s' = key_facts s @ [(sha secret, cl_merchant_id c, mode, scopes)] \<and>
     sha secret \<notin> fst ` set (key_facts s) \<and> merchants s' = merchants s"

lemma minted_distinct: "minted sha c mode scopes secret s s' \<Longrightarrow> distinct (map fst (key_facts s)) \<Longrightarrow> distinct (map fst (key_facts s'))"
  by (simp add: minted_def)

lemma generateApiKey_fields:
  "gk_hash (generateApiKey sha random k m) = sha (gk_secret (generateApiKey sha random k m))"
  "gk_secret (generateApiKey sha random k m) = prefixFor k m @ random"
  "gk_kind (generateApiKey sha random k m) = k" "gk_mode (generateApiKey sha random k m) = m"
  by (simp_all add: generateApiKey_def Let_def)

lemma seq_insert_key:
  "seq (insert_key r) k s =
     (if ak_hash r \<in> ak_hash ` set (api_keys s) \<or> ak_id r \<in> ak_id ` set (api_keys s) then (Inl (Crash ''P2002''), s)
      else k () (s\<lparr>api_keys := api_keys s @ [r]\<rparr>))"
  by (simp add: insert_key_def seq_def)

lemma insert_key_Inr:
  "insert_key r s = (Inr u, s') \<longleftrightarrow>
     ak_hash r \<notin> ak_hash ` set (api_keys s) \<and> ak_id r \<notin> ak_id ` set (api_keys s) \<and> s' = s\<lparr>api_keys := api_keys s @ [r]\<rparr>"
  by (auto simp: insert_key_def)

lemma insert_key_fails: "insert_key r s = (Inl e, s') \<Longrightarrow> s' = s"
  by (auto simp: insert_key_def split: if_splits)

lemma create_api_key_Inr:
  assumes "create_api_key sha cfg i random now c input s = (Inr (w, secret), s')"
  shows "minted sha c (ki_mode input) (ki_scopes input) secret s s'"
    and "cl_scopes c = Some held \<Longrightarrow> set (ki_scopes input) \<subseteq> set held \<and> ki_mode input = cl_mode c"
    and "ki_mode input = arcModeFor (cf_arc_environment cfg)"
    and "ki_mode input = Live \<Longrightarrow> \<exists>r. find_row m_id (cl_merchant_id c) (merchants s) = Some r \<and> live_mode_reasons r = []"
    and "secret = prefixFor (ki_kind input) (ki_mode input) @ random"
    and "s' = s\<lparr>api_keys := api_keys s @
      [new_key_row i now (cl_merchant_id c) (ki_name input) (ki_scopes input) (generateApiKey sha random (ki_kind input) (ki_mode input))]\<rparr>"
proof -
  let ?g = "generateApiKey sha random (ki_kind input) (ki_mode input)"
  have run: "fst (assert_mintable cfg (cl_merchant_id c) (ki_mode input) s) = Inr ()"
    "insert_key (new_key_row i now (cl_merchant_id c) (ki_name input) (ki_scopes input) ?g) s = (Inr (), s')"
    "secret = gk_secret ?g"
    "cl_scopes c = Some held \<longrightarrow> set (ki_scopes input) \<subseteq> set held \<and> ki_mode input = cl_mode c" for held
    using assms assert_mintable_unchanged [of cfg "cl_merchant_id c" "ki_mode input" s]
    by (auto simp: create_api_key_def seq_def Let_def assertScopesHeld_def list_all_iff split: option.splits prod.splits sum.splits if_splits)
  show "cl_scopes c = Some held \<Longrightarrow> set (ki_scopes input) \<subseteq> set held \<and> ki_mode input = cl_mode c" using run(4) by blast
  show "ki_mode input = arcModeFor (cf_arc_environment cfg)"
    "ki_mode input = Live \<Longrightarrow> \<exists>r. find_row m_id (cl_merchant_id c) (merchants s) = Some r \<and> live_mode_reasons r = []"
    using assert_mintable_Inr [OF run(1)] by blast+
  show "secret = prefixFor (ki_kind input) (ki_mode input) @ random" using run(3) by (simp add: generateApiKey_fields)
  show "s' = s\<lparr>api_keys := api_keys s @ [new_key_row i now (cl_merchant_id c) (ki_name input) (ki_scopes input) ?g]\<rparr>"
    using run(2) by (simp add: insert_key_Inr)
  show "minted sha c (ki_mode input) (ki_scopes input) secret s s'"
    using run(2,3) by (auto simp: minted_def insert_key_Inr new_key_row_def key_facts_def key_fact_def generateApiKey_fields)
qed

lemma rotate_api_key_Inr:
  assumes "rotate_api_key sha cfg i random now c k s = (Inr (w, secret), s')"
  obtains source where "source \<in> set (api_keys s)" "ak_id source = k" "visibleTo c source"
    and "minted sha c (ak_mode source) (ak_scopes source) secret s s'"
    and "\<And>held. cl_scopes c = Some held \<Longrightarrow> set (ak_scopes source) \<subseteq> set held"
    and "ak_mode source = arcModeFor (cf_arc_environment cfg)"
    and "secret = prefixFor (ak_kind source) (ak_mode source) @ random"
    and "s' = s\<lparr>api_keys := update_where (\<lambda>r. ak_id r = k) (\<lambda>r. r\<lparr>ak_revoked_at := Some now\<rparr>) (api_keys s) @
      [new_key_row i now (cl_merchant_id c) (ak_name source) (ak_scopes source) (generateApiKey sha random (ak_kind source) (ak_mode source))]\<rparr>"
proof -
  obtain source where find: "find_key c k s = (Inr source, s)"
    using assms find_key_unchanged by (fastforce simp: rotate_api_key_def elim!: seq_InrE)
  let ?g = "generateApiKey sha random (ak_kind source) (ak_mode source)"
  let ?row = "new_key_row i now (cl_merchant_id c) (ak_name source) (ak_scopes source) ?g"
  let ?t = "update_where (\<lambda>r. ak_id r = k) (\<lambda>r. r\<lparr>ak_revoked_at := Some now\<rparr>) (api_keys s)"
  have "seq (case cl_scopes c of None \<Rightarrow> ret () | Some held \<Rightarrow> assertScopesHeld held (ak_scopes source)) (\<lambda>_.
     seq (assert_mintable cfg (cl_merchant_id c) (ak_mode source)) (\<lambda>_.
     seq (in_tx (seq (set_revoked k now) (\<lambda>_. insert_key ?row))) (\<lambda>_. ret (serialise_key ?row, gk_secret ?g)))) s = (Inr (w, secret), s')"
    using assms unfolding rotate_api_key_def Let_def seq_Inr [where m = "find_key c k" and s = s, OF find] .
  then obtain s1 s2 where
    scopes: "(case cl_scopes c of None \<Rightarrow> ret () | Some held \<Rightarrow> assertScopesHeld held (ak_scopes source)) s = (Inr (), s1)"
    and mint: "assert_mintable cfg (cl_merchant_id c) (ak_mode source) s1 = (Inr (), s2)"
    and ins: "in_tx (seq (set_revoked k now) (\<lambda>_. insert_key ?row)) s2 = (Inr (), s')" and "secret = gk_secret ?g"
    by (auto elim!: seq_InrE)
  have "s1 = s" using scopes by (cases "cl_scopes c") (auto simp: assertScopesHeld_def split: if_splits)
  moreover have "s2 = s1" using mint assert_mintable_unchanged [of cfg "cl_merchant_id c" "ak_mode source" s1] by simp
  moreover have "set (ak_scopes source) \<subseteq> set held" if "cl_scopes c = Some held" for held
    using scopes that by (auto simp: assertScopesHeld_def list_all_iff split: if_splits)
  ultimately have run: "fst (assert_mintable cfg (cl_merchant_id c) (ak_mode source) s) = Inr ()"
    "insert_key ?row (s\<lparr>api_keys := ?t\<rparr>) = (Inr (), s')"
    "secret = gk_secret ?g"
    "\<And>held. cl_scopes c = Some held \<Longrightarrow> set (ak_scopes source) \<subseteq> set held"
    using mint ins \<open>secret = gk_secret ?g\<close> by (simp_all add: set_revoked_def)
  have s': "s' = s\<lparr>api_keys := ?t @ [?row]\<rparr>" and fresh: "ak_hash ?row \<notin> ak_hash ` set ?t"
    using run(2) by (auto simp: insert_key_Inr)
  have facts: "map key_fact ?t = key_facts s" by (simp add: key_facts_update key_facts_def)
  have "ak_hash ` set ?t = fst ` set (key_facts s)"
    unfolding facts [symmetric] by (simp add: image_image key_fact_def)
  then have "minted sha c (ak_mode source) (ak_scopes source) secret s s'"
    using fresh run(3) facts
    by (simp add: minted_def s' key_facts_def new_key_row_def key_fact_def generateApiKey_fields del: set_map)
  with find_key_Inr [OF find] run s' assert_mintable_Inr [OF run(1)] show ?thesis
    by (intro that) (auto simp: generateApiKey_fields)
qed

section \<open>What a token is worth\<close>

definition key_caller :: "api_key_row \<Rightarrow> caller" where
  "key_caller r = \<lparr>cl_merchant_id = ak_merchant_id r, cl_api_key_id = Some (ak_id r), cl_scopes = Some (ak_scopes r), cl_mode = ak_mode r\<rparr>"

definition route_open :: "route \<Rightarrow> api_key_scope list \<Rightarrow> bool" where
  "route_open rt held \<longleftrightarrow>
     \<not> rt_session_only rt \<and> (\<exists>required. rt_scopes rt = Some required \<and> required \<noteq> [] \<and> set required \<subseteq> set held)"

lemma assertApiKeyRouteAccess_eq:
  "assertApiKeyRouteAccess rt held s = ((if route_open rt held then Inr () else Inl (forbidden ''permission_denied'')), s)"
  by (auto simp: assertApiKeyRouteAccess_def route_open_def Let_def list_all_iff split: option.split)

text \<open>The verdict on a token in a state.\<close>

definition token_verdict :: "(string \<Rightarrow> string) \<Rightarrow> config \<Rightarrow> route \<Rightarrow> string \<Rightarrow> store \<Rightarrow> api_exn + api_key_row" where
  "token_verdict sha cfg rt token s =
     (if kindFromKey token \<noteq> Some Secret then Inl (unauthorized ''authentication_error'')
      else case modeFromKey token of None \<Rightarrow> Inl (unauthorized ''authentication_error'')
      | Some mode \<Rightarrow>
          if mode \<noteq> arcModeFor (cf_arc_environment cfg) then Inl (forbidden ''mode_unavailable'')
          else case find_row ak_hash (sha token) (api_keys s) of None \<Rightarrow> Inl (unauthorized ''authentication_error'')
          | Some r \<Rightarrow>
              if ak_revoked_at r \<noteq> None then Inl (unauthorized ''authentication_error'')
              else case find_row m_id (ak_merchant_id r) (merchants s) of None \<Rightarrow> Inl p2025
              | Some m \<Rightarrow>
                  if m_status m \<noteq> Merchant_Active \<or> \<not> route_open rt (ak_scopes r)
                  then Inl (forbidden ''permission_denied'') else Inr r)"

lemma authenticateWithApiKey_eq:
  "authenticateWithApiKey sha cfg rt now token s =
     (case token_verdict sha cfg rt token s of
        Inl e \<Rightarrow> (Inl e, s)
      | Inr r \<Rightarrow> (Inr (key_caller r),
          s\<lparr>api_keys := update_where (\<lambda>r'. ak_id r' = ak_id r) (\<lambda>r'. r'\<lparr>ak_last_used_at := Some now\<rparr>) (api_keys s)\<rparr>))"
proof -
  have access: "seq (assertApiKeyRouteAccess rt held) k s =
     (if route_open rt held then k () s else (Inl (forbidden ''permission_denied''), s))"
    for held and k :: "unit \<Rightarrow> (store, api_exn, caller) proc"
    by (simp add: seq_def assertApiKeyRouteAccess_eq)
  have orr_m: "seq (or_raise e x) k s = (case x of None \<Rightarrow> (Inl e, s) | Some y \<Rightarrow> k y s)"
    for e :: api_exn and x :: "merchant_row option" and k :: "merchant_row \<Rightarrow> (store, api_exn, caller) proc"
    by (simp add: seq_def split: option.split)
  have orr_a: "seq (or_raise e x) k s = (case x of None \<Rightarrow> (Inl e, s) | Some y \<Rightarrow> k y s)"
    for e :: api_exn and x :: "api_key_row option" and k :: "api_key_row \<Rightarrow> (store, api_exn, caller) proc"
    by (simp add: seq_def split: option.split)
  show ?thesis
    by (auto simp: authenticateWithApiKey_def token_verdict_def assertSecretKeyKind_def assertDeploymentMode_def
        access orr_m orr_a key_caller_def split: option.split)
qed

lemma token_verdict_Inr:
  "token_verdict sha cfg rt token s = Inr r \<longleftrightarrow>
     kindFromKey token = Some Secret \<and> modeFromKey token = Some (arcModeFor (cf_arc_environment cfg)) \<and>
     find_row ak_hash (sha token) (api_keys s) = Some r \<and> ak_revoked_at r = None \<and>
     (\<exists>m. find_row m_id (ak_merchant_id r) (merchants s) = Some m \<and> m_status m = Merchant_Active) \<and> route_open rt (ak_scopes r)"
  by (auto simp: token_verdict_def split: option.splits)

lemma authenticate_Inr:
  assumes "authenticateWithApiKey sha cfg rt now token s = (Inr c, s')"
  obtains r where "token_verdict sha cfg rt token s = Inr r" "c = key_caller r" "key_facts s' = key_facts s"
    "merchants s' = merchants s"
  using assms by (auto simp: authenticateWithApiKey_eq key_facts_def key_facts_update split: sum.splits)

lemma key_facts_authenticate: "key_facts (snd (authenticateWithApiKey sha cfg rt now token s)) = key_facts s"
  by (simp add: authenticateWithApiKey_eq key_facts_def key_facts_update split: sum.split)

section \<open>Keys minted from a key\<close>

text \<open>
  Someone who knows the secrets \<open>K\<close> calls the API with them: each secret a call returns is known next.
  Meanwhile others mint keys of their own, and every handler that is not about keys does what it likes to the
  other tables, to the revocation and to the last use of keys.
\<close>

inductive key_reach :: "(string \<Rightarrow> string) \<Rightarrow> config \<Rightarrow> string set \<Rightarrow> store \<Rightarrow> string set \<Rightarrow> store \<Rightarrow> bool"
  for sha cfg K0 s0 where
  Start: "key_reach sha cfg K0 s0 K0 s0"
| Mint: "key_reach sha cfg K0 s0 K s \<Longrightarrow> t \<in> K \<Longrightarrow> authenticateWithApiKey sha cfg rt now t s = (Inr c, s1) \<Longrightarrow>
    create_api_key sha cfg i random now c input s1 = (Inr (w, secret), s2) \<Longrightarrow> key_reach sha cfg K0 s0 (insert secret K) s2"
| Rotate: "key_reach sha cfg K0 s0 K s \<Longrightarrow> t \<in> K \<Longrightarrow> authenticateWithApiKey sha cfg rt now t s = (Inr c, s1) \<Longrightarrow>
    rotate_api_key sha cfg i random now c k s1 = (Inr (w, secret), s2) \<Longrightarrow> key_reach sha cfg K0 s0 (insert secret K) s2"
| Other_Mint: "key_reach sha cfg K0 s0 K s \<Longrightarrow> create_api_key sha cfg i random now c input s = (Inr (w, secret), s2) \<Longrightarrow>
    key_reach sha cfg K0 s0 K s2"
| Other_Rotate: "key_reach sha cfg K0 s0 K s \<Longrightarrow> rotate_api_key sha cfg i random now c k s = (Inr (w, secret), s2) \<Longrightarrow>
    key_reach sha cfg K0 s0 K s2"
| Other: "key_reach sha cfg K0 s0 K s \<Longrightarrow> key_facts s2 = key_facts s \<Longrightarrow> key_reach sha cfg K0 s0 K s2"

text \<open>Every known secret is the hash of a key of this merchant and mode with scopes among these.\<close>

definition worth_at_most :: "(string \<Rightarrow> string) \<Rightarrow> string \<Rightarrow> api_mode \<Rightarrow> api_key_scope set \<Rightarrow> string set \<Rightarrow> store \<Rightarrow> bool" where
  "worth_at_most sha m mode S K s \<longleftrightarrow> distinct (map fst (key_facts s)) \<and>
     (\<forall>t\<in>K. \<exists>scopes. (sha t, m, mode, scopes) \<in> set (key_facts s) \<and> set scopes \<subseteq> S)"

lemma worth_of_caller:
  assumes "worth_at_most sha m mode S K s" and "t \<in> K" and "authenticateWithApiKey sha cfg rt now t s = (Inr c, s1)"
  shows "cl_merchant_id c = m \<and> cl_mode c = mode \<and> (\<exists>scopes. cl_scopes c = Some scopes \<and> set scopes \<subseteq> S)"
    and "worth_at_most sha m mode S K s1"
proof -
  from assms(3) obtain r where r: "token_verdict sha cfg rt t s = Inr r" "c = key_caller r" "key_facts s1 = key_facts s"
    by (rule authenticate_Inr)
  from assms(1,2) obtain scopes where f: "(sha t, m, mode, scopes) \<in> set (key_facts s)" "set scopes \<subseteq> S"
    and d: "distinct (map fst (key_facts s))" by (auto simp: worth_at_most_def)
  from r(1) have "find_row ak_hash (sha t) (api_keys s) = Some r" by (simp add: token_verdict_Inr)
  then have "key_fact r \<in> set (key_facts s)" "ak_hash r = sha t"
    using find_row_Some by (fastforce simp: key_facts_def)+
  then have "(sha t, ak_merchant_id r, ak_mode r, ak_scopes r) \<in> set (key_facts s)" by (simp add: key_fact_def)
  from eq_key_imp_eq_value [OF d f(1) this] r(2) f(2)
  show "cl_merchant_id c = m \<and> cl_mode c = mode \<and> (\<exists>scopes. cl_scopes c = Some scopes \<and> set scopes \<subseteq> S)"
    by (simp add: key_caller_def)
  show "worth_at_most sha m mode S K s1" using assms(1) r(3) by (simp add: worth_at_most_def)
qed

lemma worth_minted:
  assumes "worth_at_most sha m mode S K s" and "minted sha c mode' scopes secret s s'"
  shows "worth_at_most sha m mode S K s'"
    and "cl_merchant_id c = m \<Longrightarrow> mode' = mode \<Longrightarrow> set scopes \<subseteq> S \<Longrightarrow> worth_at_most sha m mode S (insert secret K) s'"
  using assms by (auto simp: worth_at_most_def minted_def)

lemma key_reach_worth:
  assumes "key_reach sha cfg K0 s0 K s" and "worth_at_most sha m mode S K0 s0"
  shows "worth_at_most sha m mode S K s"
  using assms
proof (induction rule: key_reach.induct)
  case (Mint K s t rt now c s1 i random input w secret s2)
  from worth_of_caller [OF Mint.IH [OF Mint.prems] Mint.hyps(2,3)] obtain scopes where
    c: "cl_merchant_id c = m" "cl_mode c = mode" "cl_scopes c = Some scopes" "set scopes \<subseteq> S"
    and w: "worth_at_most sha m mode S K s1" by blast
  from create_api_key_Inr(1,2) [OF Mint.hyps(4)] c have "minted sha c (ki_mode input) (ki_scopes input) secret s1 s2"
    "set (ki_scopes input) \<subseteq> S" "ki_mode input = mode" by blast+
  with worth_minted(2) [OF w] c show ?case by blast
next
  case (Rotate K s t rt now c s1 i random k w secret s2)
  from worth_of_caller [OF Rotate.IH [OF Rotate.prems] Rotate.hyps(2,3)] obtain scopes where
    c: "cl_merchant_id c = m" "cl_mode c = mode" "cl_scopes c = Some scopes" "set scopes \<subseteq> S"
    and w: "worth_at_most sha m mode S K s1" by blast
  obtain source where src: "visibleTo c source" "set (ak_scopes source) \<subseteq> set scopes"
    "minted sha c (ak_mode source) (ak_scopes source) secret s1 s2" by (rule rotate_api_key_Inr [OF Rotate.hyps(4)]) (use c(3) in blast)
  with worth_minted(2) [OF w src(3)] c show ?case by (auto simp: visibleTo_def)
next
  case (Other_Mint K s i random now c input w secret s2)
  then show ?case using worth_minted(1) [OF _ create_api_key_Inr(1) [OF Other_Mint.hyps(2)]] by blast
next
  case (Other_Rotate K s i random now c k w secret s2)
  from Other_Rotate.hyps(2) obtain mode' scopes where "minted sha c mode' scopes secret s s2" by (rule rotate_api_key_Inr)
  from worth_minted(1) [OF _ this] Other_Rotate show ?case by blast
qed (auto simp: worth_at_most_def)

lemma find_row_hash:
  assumes "distinct (map fst (key_facts s))" and "r \<in> set (api_keys s)"
  shows "find_row ak_hash (ak_hash r) (api_keys s) = Some r"
  using find_row_self [OF assms(1) [unfolded hashes_of_facts] assms(2)] .

lemma prefix_token:
  "kindFromKey (prefixFor Secret m @ rest) = Some Secret" "modeFromKey (prefixFor Secret m @ rest) = Some m"
  using key_prefix_roundtrip by blast+

section \<open>Properties\<close>

text \<open>
  C9. An API key never grows: starting from one known key, whatever calls are made with it and with the keys those
  calls return, and whatever others do meanwhile, every known secret that a guard accepts acts for the same merchant, in
  the same mode, with scopes among those of the first key.
\<close>

theorem api_key_no_escalation:
  assumes "key_reach sha cfg {t0} s0 K s" and "distinct (map ak_hash (api_keys s0))"
    and "find_row ak_hash (sha t0) (api_keys s0) = Some r0" and "t \<in> K"
    and "MerchantAuthGuard sha verify cfg rt now (Some (''Bearer '' @ t)) s = (Inr (Some c), s')"
    and "\<not> rt_public rt" and "js_trim t = t" and "starts_with t ''sk_''"
  shows "cl_merchant_id c = ak_merchant_id r0 \<and> cl_mode c = ak_mode r0 \<and>
    (\<exists>scopes. cl_scopes c = Some scopes \<and> set scopes \<subseteq> set (ak_scopes r0))"
proof -
  have "(sha t0, ak_merchant_id r0, ak_mode r0, ak_scopes r0) \<in> set (key_facts s0)"
    using find_row_Some [OF assms(3)] by (force simp: key_facts_def key_fact_def)
  then have "worth_at_most sha (ak_merchant_id r0) (ak_mode r0) (set (ak_scopes r0)) {t0} s0"
    using assms(2) by (auto simp: worth_at_most_def hashes_of_facts)
  from key_reach_worth [OF assms(1) this]
  have w: "worth_at_most sha (ak_merchant_id r0) (ak_mode r0) (set (ak_scopes r0)) K s" .
  have "(bearer_token (Some (''Bearer '' @ t)) :: (store, api_exn, string) proc) = ret t" using assms(7) by (simp add: bearer_token_def starts_with_def)
  then have "seq (authenticateWithApiKey sha cfg rt now t) (\<lambda>c. ret (Some c)) s = (Inr (Some c), s')"
    using assms(5,6,8) by (simp add: MerchantAuthGuard_def)
  then have "authenticateWithApiKey sha cfg rt now t s = (Inr c, s')" by (auto elim!: seq_InrE)
  from worth_of_caller(1) [OF w assms(4) this] show ?thesis .
qed

text \<open>
  What the key guard lets through: only an unrevoked key of an active merchant, of the mode of this
  deployment, on a route that is not for dashboard sessions and whose scopes, at least one, the key all holds; a
  route without scopes is closed to keys.
\<close>

theorem api_key_access_sound:
  assumes "authenticateWithApiKey sha cfg rt now token s = (Inr c, s')"
  shows "\<exists>r m required. r \<in> set (api_keys s) \<and> ak_hash r = sha token \<and> ak_revoked_at r = None \<and>
    cl_merchant_id c = ak_merchant_id r \<and> cl_scopes c = Some (ak_scopes r) \<and> m \<in> set (merchants s) \<and> m_id m = ak_merchant_id r \<and>
    m_status m = Merchant_Active \<and> modeFromKey token = Some (arcModeFor (cf_arc_environment cfg)) \<and>
    \<not> rt_session_only rt \<and> rt_scopes rt = Some required \<and> required \<noteq> [] \<and> set required \<subseteq> set (ak_scopes r)"
proof -
  from assms obtain r where r: "token_verdict sha cfg rt token s = Inr r" "c = key_caller r" by (rule authenticate_Inr)
  then obtain m where m: "find_row m_id (ak_merchant_id r) (merchants s) = Some m" "m_status m = Merchant_Active"
    and k: "find_row ak_hash (sha token) (api_keys s) = Some r" by (auto simp: token_verdict_Inr)
  from r(1) obtain required where "rt_scopes rt = Some required" "required \<noteq> []" "set required \<subseteq> set (ak_scopes r)"
    "\<not> rt_session_only rt" by (auto simp: token_verdict_Inr route_open_def)
  with r m find_row_Some [OF m(1)] find_row_Some [OF k] show ?thesis
    by (auto simp: token_verdict_Inr key_caller_def)
qed

text \<open>
  Round trip of a secret key: the secret that \<open>create\<close> returns is accepted at once, as its merchant
  with its scopes, on every route those scopes open.
\<close>

theorem created_key_authenticates:
  assumes "create_api_key sha cfg i random now c input s = (Inr (w, secret), s')"
    and "ki_kind input = Secret" and "distinct (map ak_hash (api_keys s))"
    and "find_row m_id (cl_merchant_id c) (merchants s) = Some m" and "m_status m = Merchant_Active"
    and "route_open rt (ki_scopes input)"
  shows "fst (authenticateWithApiKey sha cfg rt t secret s') =
    Inr \<lparr>cl_merchant_id = cl_merchant_id c, cl_api_key_id = Some i, cl_scopes = Some (ki_scopes input), cl_mode = ki_mode input\<rparr>"
proof -
  note run = create_api_key_Inr [OF assms(1)]
  let ?row = "new_key_row i now (cl_merchant_id c) (ki_name input) (ki_scopes input) (generateApiKey sha random Secret (ki_mode input))"
  have s': "s' = s\<lparr>api_keys := api_keys s @ [?row]\<rparr>" and secret: "secret = prefixFor Secret (ki_mode input) @ random"
    using run(5,6) assms(2) by simp_all
  have hash: "ak_hash ?row = sha secret" by (simp add: new_key_row_def generateApiKey_fields secret)
  have "distinct (map fst (key_facts s'))"
    using minted_distinct [OF run(1)] assms(3) by (simp add: hashes_of_facts)
  from find_row_hash [OF this, of ?row] hash have "find_row ak_hash (sha secret) (api_keys s') = Some ?row" by (simp add: s')
  moreover have "ak_revoked_at ?row = None" "ak_merchant_id ?row = cl_merchant_id c" "ak_scopes ?row = ki_scopes input"
    "ak_id ?row = i" "ak_mode ?row = ki_mode input"
    by (simp_all add: new_key_row_def generateApiKey_fields)
  moreover have "find_row m_id (cl_merchant_id c) (merchants s') = Some m" using assms(4) by (simp add: s')
  ultimately have "token_verdict sha cfg rt secret s' = Inr ?row"
    unfolding token_verdict_Inr using assms(5,6) run(3) prefix_token secret by simp
  then show ?thesis by (simp add: authenticateWithApiKey_eq key_caller_def new_key_row_def generateApiKey_fields)
qed

text \<open>
  Rotation: the old secret is refused from then on, in every later state in which nobody restores the key, and a
  key that only a dashboard session or a caller with all its scopes could rotate is replaced by one with its scopes.
\<close>

theorem rotated_key_refused:
  assumes "rotate_api_key sha cfg i random now c k s = (Inr (w, secret), s')"
    and "distinct (map ak_hash (api_keys s))" and "distinct (map ak_id (api_keys s))"
    and "r \<in> set (api_keys s)" and "ak_id r = k" and "ak_hash r = sha token"
  shows "fst (authenticateWithApiKey sha cfg rt t token s') \<in> {Inl (unauthorized ''authentication_error''), Inl (forbidden ''mode_unavailable'')} \<and>
    (\<exists>r'\<in>set (api_keys s'). ak_hash r' = sha secret \<and> ak_revoked_at r' = None \<and> ak_scopes r' = ak_scopes r \<and> ak_mode r' = ak_mode r)"
proof -
  from assms(1) obtain source where src: "source \<in> set (api_keys s)" "ak_id source = k"
    "minted sha c (ak_mode source) (ak_scopes source) secret s s'"
    "secret = prefixFor (ak_kind source) (ak_mode source) @ random"
    "s' = s\<lparr>api_keys := update_where (\<lambda>r. ak_id r = k) (\<lambda>r. r\<lparr>ak_revoked_at := Some now\<rparr>) (api_keys s) @
      [new_key_row i now (cl_merchant_id c) (ak_name source) (ak_scopes source) (generateApiKey sha random (ak_kind source) (ak_mode source))]\<rparr>"
    by (rule rotate_api_key_Inr)
  have "source = r" using assms(3,4,5) src(1,2) by (auto simp: distinct_map inj_on_def)
  let ?r = "r\<lparr>ak_revoked_at := Some now\<rparr>"
  have "?r \<in> set (api_keys s')" using assms(4,5) by (auto simp: src(5) set_update_where)
  moreover have "distinct (map fst (key_facts s'))" using minted_distinct [OF src(3)] assms(2) by (simp add: hashes_of_facts)
  ultimately have "find_row ak_hash (sha token) (api_keys s') = Some ?r" using find_row_hash [of s' ?r] assms(6) by simp
  then have "fst (authenticateWithApiKey sha cfg rt t token s') \<in> {Inl (unauthorized ''authentication_error''), Inl (forbidden ''mode_unavailable'')}"
    by (auto simp: authenticateWithApiKey_eq token_verdict_def split: option.split)
  moreover have "\<exists>r'\<in>set (api_keys s'). ak_hash r' = sha secret \<and> ak_revoked_at r' = None \<and> ak_scopes r' = ak_scopes r \<and> ak_mode r' = ak_mode r"
    unfolding src(5) src(4) by (auto simp: new_key_row_def generateApiKey_fields \<open>source = r\<close>)
  ultimately show ?thesis by blast
qed

section \<open>Witnesses\<close>

definition session_caller :: caller where
  [sample_defs]: "session_caller = \<lparr>cl_merchant_id = ''m1'', cl_api_key_id = None, cl_scopes = None, cl_mode = Test\<rparr>"

definition keys_input :: api_key_input where
  [sample_defs]: "keys_input = \<lparr>ki_name = ''ci'', ki_kind = Secret, ki_mode = Test, ki_scopes = [Api_Keys_Write, Sessions_Read]\<rparr>"

definition keyed_row :: api_key_row where
  [sample_defs]: "keyed_row = \<lparr>ak_id = ''k0'', ak_merchant_id = ''m1'', ak_name = ''ci'', ak_kind = Secret, ak_mode = Test,
     ak_hash = ''sk_test_ab'', ak_prefix = ''sk_test_ab'', ak_last_four = ''t_ab'', ak_scopes = [Api_Keys_Write, Sessions_Read],
     ak_last_used_at = None, ak_revoked_at = None, ak_created_at = 5\<rparr>"

definition keyed_store :: store where
  [sample_defs]: "keyed_store = sample_store\<lparr>api_keys := [keyed_row]\<rparr>"

definition keys_route :: route where
  [sample_defs]: "keys_route = \<lparr>rt_public = False, rt_session_only = False, rt_scopes = Some [Api_Keys_Write], rt_admin_roles = None\<rparr>"

lemmas key_eval = generateApiKey_def Let_def new_key_row_def API_KEY_PREFIX_DISPLAY_LENGTH_def assertScopesHeld_def
  assert_mintable_def assertDeploymentMode_def sample_config_def

lemma sample_create:
  "create_api_key (\<lambda>t. t) sample_config ''k0'' ''ab'' 5 session_caller keys_input sample_store =
     (Inr (serialise_key keyed_row, ''sk_test_ab''), keyed_store)"
  by (simp add: create_api_key_def key_eval session_caller_def keys_input_def keyed_store_def keyed_row_def sample_store_def empty_store_def seq_assoc seq_insert_key)

lemma sample_verdict:
  "token_verdict (\<lambda>t. t) sample_config keys_route ''sk_test_ab'' keyed_store = Inr keyed_row"
  by (simp add: token_verdict_Inr kindFromKey_def modeFromKey_def starts_with_def keyed_store_def keyed_row_def sample_config_def
      sample_store_def sample_merchant_def route_open_def keys_route_def)

lemma sample_key_facts: "distinct (map ak_hash (api_keys keyed_store))" "distinct (map ak_id (api_keys keyed_store))"
  "keyed_row \<in> set (api_keys keyed_store)" "ak_hash keyed_row = ''sk_test_ab''" "ak_id keyed_row = ''k0''"
  by (simp_all add: keyed_store_def keyed_row_def)

theorem api_key_access_sound_witness:
  "\<exists>r. r \<in> set (api_keys keyed_store) \<and> ak_revoked_at r = None \<and> ak_merchant_id r = ''m1''"
proof -
  have "authenticateWithApiKey (\<lambda>t. t) sample_config keys_route 9 ''sk_test_ab'' keyed_store =
      (Inr (key_caller keyed_row), snd (authenticateWithApiKey (\<lambda>t. t) sample_config keys_route 9 ''sk_test_ab'' keyed_store))"
    by (simp add: authenticateWithApiKey_eq sample_verdict)
  from api_key_access_sound [OF this] show ?thesis by (auto simp: key_caller_def keyed_row_def)
qed

theorem created_key_authenticates_witness:
  "fst (authenticateWithApiKey (\<lambda>t. t) sample_config keys_route 9 ''sk_test_ab'' keyed_store) =
     Inr \<lparr>cl_merchant_id = ''m1'', cl_api_key_id = Some ''k0'', cl_scopes = Some [Api_Keys_Write, Sessions_Read], cl_mode = Test\<rparr>"
proof -
  have "ki_kind keys_input = Secret" "distinct (map ak_hash (api_keys sample_store))"
    "find_row m_id (cl_merchant_id session_caller) (merchants sample_store) = Some sample_merchant"
    "m_status sample_merchant = Merchant_Active" "route_open keys_route (ki_scopes keys_input)"
    by (simp_all add: keys_input_def sample_store_def empty_store_def session_caller_def sample_merchant_def route_open_def keys_route_def)
  from created_key_authenticates [OF sample_create this] show ?thesis by (simp add: session_caller_def keys_input_def)
qed

lemma sample_rotate:
  "\<exists>w s'. rotate_api_key (\<lambda>t. t) sample_config ''k1'' ''cd'' 8 session_caller ''k0'' keyed_store = (Inr (w, ''sk_test_cd''), s')"
  by (simp add: rotate_api_key_def find_key_def visibleTo_def key_eval session_caller_def keyed_store_def keyed_row_def set_revoked_def in_tx_def seq_def insert_key_def)

theorem rotated_key_refused_witness:
  "\<exists>s'. fst (authenticateWithApiKey (\<lambda>t. t) sample_config keys_route 9 ''sk_test_ab'' s') \<in>
      {Inl (unauthorized ''authentication_error''), Inl (forbidden ''mode_unavailable'')} \<and>
    (\<exists>r'. r' \<in> set (api_keys s') \<and> ak_hash r' = ''sk_test_cd'' \<and> ak_scopes r' = [Api_Keys_Write, Sessions_Read])"
proof -
  obtain w s' where "rotate_api_key (\<lambda>t. t) sample_config ''k1'' ''cd'' 8 session_caller ''k0'' keyed_store = (Inr (w, ''sk_test_cd''), s')"
    using sample_rotate by blast
  from rotated_key_refused [OF this sample_key_facts(1,2,3,5,4), of keys_route 9] show ?thesis
    by (intro exI [of _ s']) (auto simp: keyed_row_def)
qed

theorem api_key_no_escalation_witness:
  "\<exists>c s s'. MerchantAuthGuard (\<lambda>t. t) (\<lambda>_. None) sample_config keys_route 9 (Some ''Bearer sk_test_ab'') s = (Inr (Some c), s') \<and>
     cl_merchant_id c = ''m1'' \<and> cl_mode c = Test"
proof -
  let ?t = "''sk_test_ab''"
  obtain s1 where auth: "authenticateWithApiKey (\<lambda>t. t) sample_config keys_route 9 ?t keyed_store = (Inr (key_caller keyed_row), s1)"
    by (simp add: authenticateWithApiKey_eq sample_verdict)
  have guard: "MerchantAuthGuard (\<lambda>t. t) (\<lambda>_. None) sample_config keys_route 9 (Some (''Bearer '' @ ?t)) keyed_store = (Inr (Some (key_caller keyed_row)), s1)"
    using auth by (simp add: MerchantAuthGuard_def keys_route_def bearer_token_def starts_with_def js_trim_def is_space_def seq_def)
  have found: "find_row ak_hash ?t (api_keys keyed_store) = Some keyed_row" by (simp add: keyed_store_def keyed_row_def)
  have "\<not> rt_public keys_route" "js_trim ?t = ?t" "starts_with ?t ''sk_''"
    by (simp_all add: keys_route_def js_trim_def is_space_def starts_with_def)
  from api_key_no_escalation [OF key_reach.Start sample_key_facts(1) found _ guard this]
  have "cl_merchant_id (key_caller keyed_row) = ''m1'' \<and> cl_mode (key_caller keyed_row) = Test" by (simp add: keyed_row_def)
  with guard show ?thesis by auto
qed

text \<open>\<open>rotate\<close> does not ask whether its key is revoked: a revoked key is replaced by an active one.\<close>

lemma rotate_revives_revoked_key:
  "\<exists>w s'. rotate_api_key (\<lambda>t. t) sample_config ''k1'' ''cd'' 8 session_caller ''k0''
     (keyed_store\<lparr>api_keys := [keyed_row\<lparr>ak_revoked_at := Some 6\<rparr>]\<rparr>) = (Inr (w, ''sk_test_cd''), s') \<and> aw_revoked_at w = None"
  by (simp add: rotate_api_key_def find_key_def visibleTo_def key_eval session_caller_def keyed_store_def keyed_row_def set_revoked_def
      in_tx_def seq_def insert_key_def serialise_key_def)

end
