(* ===== verification/Accounts.thy ===== *)
theory Accounts
  imports Access Sessions "HOL-Library.AList"
begin

text \<open>
  Merchant accounts and their customers: login through Privy (\<open>apps/api/src/modules/auth/auth.service.ts\<close>,
  \<open>infra/privy/privy.service.ts\<close>, \<open>privy-webhook.service.ts\<close>), the merchant profile
  (\<open>modules/merchants/merchants.service.ts\<close>, \<open>merchants.serialiser.ts\<close>), customers
  (\<open>modules/customers/customers.service.ts\<close>) and transactions
  (\<open>modules/transactions/transactions.service.ts\<close>). Privy's answers and the chain's balances are parameters.
\<close>

section \<open>Privy users\<close>

record privy_account =
  pa_type :: string
  pa_address :: "string option"
  pa_account_email :: "string option"
  pa_chain_type :: "string option"

record privy_user =
  pv_email :: "string option"
  pv_accounts :: "privy_account list"
  pv_mfa_methods :: nat

definition lower_opt :: "string option \<Rightarrow> string option" where
  "lower_opt = map_option to_lower"

definition primaryEmail :: "privy_user \<Rightarrow> string option" where
  "primaryEmail u =
     (if truthy (pv_email u) then lower_opt (pv_email u)
      else let linked = find (\<lambda>a. pa_type a = ''email'' \<and> pa_address a \<noteq> None) (pv_accounts u) in
        if (case linked of None \<Rightarrow> False | Some a \<Rightarrow> truthy (pa_address a))
        then (case linked of None \<Rightarrow> None | Some a \<Rightarrow> lower_opt (pa_address a))
        else (case find (\<lambda>a. case pa_account_email a of None \<Rightarrow> False | Some e \<Rightarrow> CHR ''@'' \<in> set e) (pv_accounts u) of
                None \<Rightarrow> None | Some a \<Rightarrow> lower_opt (pa_account_email a)))"

definition primaryWallet :: "privy_user \<Rightarrow> string option" where
  "primaryWallet u =
     (case find (\<lambda>a. pa_type a = ''wallet'' \<and> pa_address a \<noteq> None \<and>
              (\<not> truthy (pa_chain_type a) \<or> pa_chain_type a = Some ''ethereum'')) (pv_accounts u) of
        None \<Rightarrow> None | Some a \<Rightarrow> lower_opt (pa_address a))"

definition hasMfa :: "privy_user \<Rightarrow> bool" where
  "hasMfa u \<longleftrightarrow> 0 < pv_mfa_methods u"

section \<open>Merchants on the wire\<close>

record merchant_wire =
  mw_id :: string
  mw_onchain_merchant_id :: "nat option"
  mw_business_name :: string
  mw_email :: string
  mw_tier :: merchant_tier
  mw_status :: merchant_status
  mw_payout_address :: "string option"
  mw_wallet_address :: "string option"
  mw_onboarding_completed :: bool
  mw_default_currency :: payment_currency
  mw_country_code :: "string option"
  mw_website_url :: "string option"
  mw_logo_url :: "string option"
  mw_metadata :: metadata
  mw_email_prefs :: "(string \<times> bool) list"
  mw_created_at :: int

definition serialiseMerchant :: "merchant_row \<Rightarrow> merchant_wire" where
  "serialiseMerchant m = \<lparr>mw_id = m_id m, mw_onchain_merchant_id = m_onchain_merchant_id m,
     mw_business_name = (case m_business_name m of None \<Rightarrow> [] | Some n \<Rightarrow> n), mw_email = m_email m, mw_tier = m_tier m,
     mw_status = m_status m, mw_payout_address = m_payout_address m, mw_wallet_address = m_wallet_address m,
     mw_onboarding_completed = m_onboarding_completed m, mw_default_currency = m_default_currency m,
     mw_country_code = m_country_code m, mw_website_url = m_website_url m, mw_logo_url = m_logo_url m,
     mw_metadata = m_metadata m, mw_email_prefs = m_email_prefs m, mw_created_at = m_created_at m\<rparr>"

section \<open>Login\<close>

text \<open>
  A sync reads the merchant first and writes later; other requests run in between, so the write takes the row as
  it was read.
\<close>

record refresh_fields =
  rf_email :: string
  rf_email_verified :: bool
  rf_two_factor :: bool
  rf_wallet :: "string option"
  rf_now :: int

definition refreshFields :: "privy_user \<Rightarrow> string \<Rightarrow> merchant_row option \<Rightarrow> int \<Rightarrow> refresh_fields" where
  "refreshFields u email existing now = \<lparr>rf_email = email, rf_email_verified = truthy (pv_email u), rf_two_factor = hasMfa u,
     rf_wallet = or_else (primaryWallet u) (Option.bind existing m_wallet_address), rf_now = now\<rparr>"

definition apply_refresh :: "refresh_fields \<times> string option \<Rightarrow> merchant_row \<Rightarrow> merchant_row" where
  "apply_refresh p m = (case p of (f, payout) \<Rightarrow>
     m\<lparr>m_email := rf_email f, m_email_verified := rf_email_verified f, m_two_factor_enabled := rf_two_factor f,
       m_wallet_address := rf_wallet f, m_last_login_at := Some (rf_now f), m_payout_address := payout\<rparr>)"

text \<open>\<open>merchant.update\<close>, with the unique index on the e-mail.\<close>

definition update_merchant :: "string \<Rightarrow> refresh_fields \<times> string option \<Rightarrow> (store, api_exn, merchant_row) proc" where
  "update_merchant i p =
     seq (gets merchants) (\<lambda>t.
     case find_row m_id i t of
       None \<Rightarrow> raise p2025
     | Some m \<Rightarrow>
         if list_ex (\<lambda>r. m_id r \<noteq> i \<and> m_email r = rf_email (fst p)) t then raise (Crash ''P2002'')
         else seq (modify (\<lambda>s. s\<lparr>merchants := update_where (\<lambda>r. m_id r = i) (apply_refresh p) (merchants s)\<rparr>)) (\<lambda>_.
              ret (apply_refresh p m)))"

definition new_merchant :: "string \<Rightarrow> string \<Rightarrow> string option \<Rightarrow> refresh_fields \<Rightarrow> merchant_row" where
  "new_merchant i privyUserId payout f = \<lparr>m_id = i, m_email = rf_email f, m_business_name = None, m_tier = Free,
     m_wallet_address = rf_wallet f, m_payout_address = payout, m_onboarding_completed = False,
     m_onchain_merchant_id = None, m_onchain_registration_tx_hash = None, m_onchain_registration_requested_at = None,
     m_onchain_fee_bps = None, m_onchain_fee_tx_hash = None, m_onchain_fee_changed_at = None,
     m_privy_user_id = Some privyUserId, m_email_verified = rf_email_verified f, m_two_factor_enabled = rf_two_factor f,
     m_status = Merchant_Active, m_business_sector = None, m_default_currency = USDC, m_country_code = None,
     m_phone = None, m_website_url = None, m_logo_url = None, m_email_prefs = [], m_metadata = [],
     m_last_login_at = Some (rf_now f), m_notifications_last_read_at = None, m_created_at = rf_now f\<rparr>"

text \<open>\<open>merchant.create\<close>, with the unique indexes on the Privy id and the e-mail.\<close>

definition create_merchant :: "merchant_row \<Rightarrow> (store, api_exn, merchant_row) proc" where
  "create_merchant r =
     seq (gets merchants) (\<lambda>t.
     if list_ex (\<lambda>q. m_privy_user_id q = m_privy_user_id r \<or> m_email q = m_email r \<or> m_id q = m_id r) t then raise (Crash ''P2002'')
     else seq (modify (\<lambda>s. s\<lparr>merchants := merchants s @ [r]\<rparr>)) (\<lambda>_. ret r))"

definition sync_read :: "string \<Rightarrow> (store, api_exn, merchant_row option) proc" where
  "sync_read privyUserId = gets (\<lambda>s. find_row m_privy_user_id (Some privyUserId) (merchants s))"

definition update_after_conflict :: "string \<Rightarrow> string option \<Rightarrow> refresh_fields \<Rightarrow> (store, api_exn, merchant_row) proc" where
  "update_after_conflict privyUserId wallet f =
     seq (sync_read privyUserId) (\<lambda>row.
     seq (or_raise p2025 row) (\<lambda>r. update_merchant (m_id r) (f, or_else (m_payout_address r) wallet)))"

definition sync_write ::
  "string \<Rightarrow> int \<Rightarrow> string \<Rightarrow> privy_user \<Rightarrow> merchant_row option \<Rightarrow> (store, api_exn, merchant_wire \<times> bool) proc" where
  "sync_write i now privyUserId u existing =
     (case primaryEmail u of
        None \<Rightarrow> raise (forbidden ''permission_denied'')
      | Some email \<Rightarrow>
          if email = [] then raise (forbidden ''permission_denied'')
          else let wallet = primaryWallet u; f = refreshFields u email existing now in
            case existing of
              Some e \<Rightarrow>
                seq (update_merchant (m_id e) (f, or_else (m_payout_address e) wallet)) (\<lambda>m. ret (serialiseMerchant m, False))
            | None \<Rightarrow>
                catch (seq (create_merchant (new_merchant i privyUserId wallet f)) (\<lambda>m. ret (serialiseMerchant m, True)))
                  (\<lambda>err. if err = Crash ''P2002''
                         then seq (update_after_conflict privyUserId wallet f) (\<lambda>m. ret (serialiseMerchant m, False))
                         else raise err))"

definition syncByPrivyUserId :: "(string \<Rightarrow> privy_user option) \<Rightarrow> string \<Rightarrow> int \<Rightarrow> string \<Rightarrow> (store, api_exn, merchant_wire \<times> bool) proc" where
  "syncByPrivyUserId get_user i now privyUserId =
     seq (or_raise (Crash ''privy'') (get_user privyUserId)) (\<lambda>u.
     if primaryEmail u = None then raise (forbidden ''permission_denied'')
     else seq (sync_read privyUserId) (sync_write i now privyUserId u))"

definition auth_sync ::
  "(string \<Rightarrow> string option) \<Rightarrow> (string \<Rightarrow> privy_user option) \<Rightarrow> string \<Rightarrow> int \<Rightarrow> string \<Rightarrow> (store, api_exn, merchant_wire \<times> bool) proc" where
  "auth_sync verify get_user i now token =
     seq (verifyAccessToken verify token) (syncByPrivyUserId get_user i now)"

text \<open>Privy's webhook: an event with a user id syncs that user; failures are logged only.\<close>

definition SYNC_EVENTS :: "string list" where
  "SYNC_EVENTS = [''user.linked_account'', ''user.unlinked_account'', ''user.updated_account'',
     ''user.transferred_account'', ''user.authenticated'']"

definition handlePrivyEvent :: "(string \<Rightarrow> privy_user option) \<Rightarrow> string \<Rightarrow> int \<Rightarrow> string \<Rightarrow> string option \<Rightarrow> (store, api_exn, unit) proc" where
  "handlePrivyEvent get_user i now type user =
     (if type \<notin> set SYNC_EVENTS \<or> \<not> truthy user then ret ()
      else catch (seq (syncByPrivyUserId get_user i now (the user)) (\<lambda>_. ret ())) (\<lambda>_. ret ()))"

section \<open>The merchant profile\<close>

definition findMerchant :: "string \<Rightarrow> (store, api_exn, merchant_wire) proc" where
  "findMerchant i = seq (gets (\<lambda>s. find_row m_id i (merchants s))) (\<lambda>r. seq (or_raise not_found r) (\<lambda>m. ret (serialiseMerchant m)))"

text \<open>A field of the patch: absent, or the new value.\<close>

record merchant_patch =
  mp_business_name :: "string option"
  mp_payout_address :: "string option"
  mp_default_currency :: "payment_currency option"
  mp_website_url :: "string option option"
  mp_logo_url :: "string option option"
  mp_country_code :: "string option option"
  mp_metadata :: "metadata option"
  mp_email_prefs :: "(string \<times> bool) list option"

text \<open>\<open>{ ...old, ...new }\<close>.\<close>

definition spread :: "('k \<times> 'v) list \<Rightarrow> ('k \<times> 'v) list \<Rightarrow> ('k \<times> 'v) list" where
  "spread old new = fold (\<lambda>(k, v). AList.update k v) new old"

definition patched_metadata :: "merchant_patch \<Rightarrow> merchant_row \<Rightarrow> metadata \<times> (string \<times> bool) list" where
  "patched_metadata p m =
     (case mp_email_prefs p of
        Some prefs \<Rightarrow>
          (spread (m_metadata m) (case mp_metadata p of None \<Rightarrow> [] | Some d \<Rightarrow> d), spread (m_email_prefs m) prefs)
      | None \<Rightarrow> (case mp_metadata p of Some d \<Rightarrow> (d, []) | None \<Rightarrow> (m_metadata m, m_email_prefs m)))"

definition patch_merchant_row :: "merchant_patch \<Rightarrow> merchant_row \<Rightarrow> merchant_row" where
  "patch_merchant_row p m =
     (let (d, prefs) = patched_metadata p m in
      m\<lparr>m_business_name := or_else (mp_business_name p) (m_business_name m),
        m_payout_address := or_else (mp_payout_address p) (m_payout_address m),
        m_default_currency := set_or (mp_default_currency p) (m_default_currency m),
        m_website_url := set_or (mp_website_url p) (m_website_url m),
        m_logo_url := set_or (mp_logo_url p) (m_logo_url m),
        m_country_code := set_or (mp_country_code p) (m_country_code m),
        m_metadata := d, m_email_prefs := prefs\<rparr>)"

definition write_merchant :: "string \<Rightarrow> (merchant_row \<Rightarrow> merchant_row) \<Rightarrow> (store, api_exn, merchant_row) proc" where
  "write_merchant i f =
     seq (gets (\<lambda>s. find_row m_id i (merchants s))) (\<lambda>r.
     seq (or_raise p2025 r) (\<lambda>m.
     seq (modify (\<lambda>s. s\<lparr>merchants := update_where (\<lambda>r. m_id r = i) f (merchants s)\<rparr>)) (\<lambda>_. ret (f m))))"

definition update_profile :: "string \<Rightarrow> merchant_patch \<Rightarrow> (store, api_exn, merchant_wire) proc" where
  "update_profile i p = seq (write_merchant i (patch_merchant_row p)) (\<lambda>m. ret (serialiseMerchant m))"

record onboard_input =
  oi_business_name :: string
  oi_business_sector :: string
  oi_country_code :: string
  oi_website_url :: "string option"
  oi_logo_url :: "string option"
  oi_phone :: "string option"
  oi_payout_address :: string
  oi_default_currency :: "payment_currency option"

definition onboard_row :: "onboard_input \<Rightarrow> merchant_row \<Rightarrow> merchant_row" where
  "onboard_row i m =
     m\<lparr>m_business_name := Some (oi_business_name i), m_business_sector := Some (oi_business_sector i),
       m_country_code := Some (oi_country_code i), m_website_url := oi_website_url i, m_logo_url := oi_logo_url i,
       m_phone := oi_phone i, m_payout_address := Some (oi_payout_address i),
       m_default_currency := set_or (oi_default_currency i) USDC, m_onboarding_completed := True\<rparr>"

definition onboard :: "int \<Rightarrow> string \<Rightarrow> onboard_input \<Rightarrow> (store, api_exn, merchant_wire) proc" where
  "onboard now i input =
     seq (write_merchant i (onboard_row input)) (\<lambda>m.
     seq (startRegistrationIfEligible now i) (\<lambda>_. ret (serialiseMerchant m)))"

record public_brand =
  pb_id :: string
  pb_business_name :: string
  pb_logo_url :: "string option"
  pb_wallet_address :: "string option"

definition getPublicBrand :: "string \<Rightarrow> (store, api_exn, public_brand) proc" where
  "getPublicBrand i =
     seq (gets (\<lambda>s. find_row m_id i (merchants s))) (\<lambda>r.
     seq (or_raise not_found r) (\<lambda>m.
     ret \<lparr>pb_id = m_id m, pb_business_name = (case m_business_name m of None \<Rightarrow> ''Merchant'' | Some n \<Rightarrow> n),
          pb_logo_url = m_logo_url m, pb_wallet_address = m_wallet_address m\<rparr>))"

section \<open>Balances\<close>

record token_balance =
  tb_currency :: payment_currency
  tb_contract :: string
  tb_raw :: string
  tb_formatted :: string

record balance_view =
  bv_payout_address :: "string option"
  bv_wallet_address :: "string option"
  bv_can_sign :: bool
  bv_balances :: "token_balance list"

text \<open>viem's \<open>formatUnits(value, 6)\<close> of a natural number.\<close>

definition formatUnits6 :: "nat \<Rightarrow> string" where
  "formatUnits6 n =
     (let frac = rev (dropWhile (\<lambda>c. c = CHR ''0'') (rev (drop 1 (show_nat (1000000 + n mod 1000000))))) in
      show_nat (n div 1000000) @ (if frac = [] then [] else CHR ''.'' # frac))"

definition buildBalance :: "payment_currency \<Rightarrow> string \<Rightarrow> nat option \<Rightarrow> token_balance" where
  "buildBalance currency contract result =
     (case result of
        None \<Rightarrow> \<lparr>tb_currency = currency, tb_contract = contract, tb_raw = ''0'', tb_formatted = ''0.00''\<rparr>
      | Some v \<Rightarrow> \<lparr>tb_currency = currency, tb_contract = contract, tb_raw = show_nat v, tb_formatted = formatUnits6 v\<rparr>)"

text \<open>\<open>checksum\<close> is viem's \<open>getAddress\<close>, \<open>balance_of\<close> the answer of a token contract, if any.\<close>

definition getBalance ::
  "config \<Rightarrow> (string \<Rightarrow> string option) \<Rightarrow> (string \<Rightarrow> string \<Rightarrow> nat option) \<Rightarrow> string \<Rightarrow> (store, api_exn, balance_view) proc" where
  "getBalance cfg checksum balance_of i =
     (let addr = (\<lambda>a. or_raise (Crash ''InvalidAddressError'') (checksum a)) in
      seq (gets (\<lambda>s. find_row m_id i (merchants s))) (\<lambda>r.
      seq (or_raise not_found r) (\<lambda>m.
      if \<not> truthy (m_payout_address m)
      then ret \<lparr>bv_payout_address = None, bv_wallet_address = m_wallet_address m, bv_can_sign = False, bv_balances = []\<rparr>
      else seq (require (truthy (cf_arc_usdc_address cfg)) (Http 404 ''invalid_state'' No_Details)) (\<lambda>_.
      seq (addr (the (cf_arc_usdc_address cfg))) (\<lambda>usdc.
      seq (if truthy (cf_arc_eurc_address cfg) then seq (addr (the (cf_arc_eurc_address cfg))) (\<lambda>a. ret (Some a)) else ret None) (\<lambda>eurc.
      seq (addr (the (m_payout_address m))) (\<lambda>owner.
      seq (if truthy (m_wallet_address m) then seq (addr (the (m_wallet_address m))) (\<lambda>w. ret (w = owner)) else ret False) (\<lambda>can_sign.
      ret \<lparr>bv_payout_address = Some owner, bv_wallet_address = m_wallet_address m, bv_can_sign = can_sign,
           bv_balances = buildBalance USDC usdc (balance_of usdc owner) #
             (case eurc of None \<Rightarrow> [] | Some e \<Rightarrow> [buildBalance EURC e (balance_of e owner)])\<rparr>))))))))"

section \<open>Customers\<close>

record upsert_customer_input =
  ui_wallet_address :: string
  ui_email :: "string option"
  ui_external_ref :: "string option"
  ui_display_name :: "string option"
  ui_metadata :: "metadata option"

definition is_customer :: "string \<Rightarrow> string \<Rightarrow> customer_row \<Rightarrow> bool" where
  "is_customer merchantId wallet r \<longleftrightarrow> cu_merchant_id r = merchantId \<and> cu_wallet_address r = wallet"

text \<open>\<open>customer.upsert\<close>; new metadata replace the whole bag, the e-mail history in it too.\<close>

definition upsertCustomer :: "string \<Rightarrow> int \<Rightarrow> string \<Rightarrow> upsert_customer_input \<Rightarrow> (store, api_exn, customer_row) proc" where
  "upsertCustomer cid now merchantId i =
     (let w = ui_wallet_address i;
          upd = (\<lambda>r. r\<lparr>cu_email := or_else (ui_email i) (cu_email r), cu_external_ref := or_else (ui_external_ref i) (cu_external_ref r),
                 cu_display_name := or_else (ui_display_name i) (cu_display_name r),
                 cu_metadata := set_or (ui_metadata i) (cu_metadata r),
                 cu_email_history := (if ui_metadata i = None then cu_email_history r else []), cu_last_seen_at := now\<rparr>);
          fresh = \<lparr>cu_id = cid, cu_merchant_id = merchantId, cu_wallet_address = w, cu_email = ui_email i,
                 cu_external_ref = ui_external_ref i, cu_display_name = ui_display_name i, cu_email_history = [],
                 cu_metadata = set_or (ui_metadata i) [], cu_first_seen_at = now, cu_last_seen_at = now\<rparr>
      in seq (gets (\<lambda>s. find (is_customer merchantId w) (customers s))) (\<lambda>row.
         case row of
           Some r \<Rightarrow> seq (modify (\<lambda>s. s\<lparr>customers := update_where (is_customer merchantId w) upd (customers s)\<rparr>)) (\<lambda>_. ret (upd r))
         | None \<Rightarrow> seq (modify (\<lambda>s. s\<lparr>customers := customers s @ [fresh]\<rparr>)) (\<lambda>_. ret fresh)))"

definition retrieveCustomer :: "string \<Rightarrow> string \<Rightarrow> (store, api_exn, customer_row) proc" where
  "retrieveCustomer merchantId i =
     seq (gets (\<lambda>s. find (\<lambda>r. cu_id r = i \<and> cu_merchant_id r = merchantId) (customers s))) (or_raise not_found)"

definition upsertFromCheckout :: "string \<Rightarrow> int \<Rightarrow> string \<Rightarrow> string \<Rightarrow> string \<Rightarrow> (store, api_exn, customer_row) proc" where
  "upsertFromCheckout cid now merchantId wallet email =
     (let w = to_lower wallet;
          fresh = \<lparr>cu_id = cid, cu_merchant_id = merchantId, cu_wallet_address = w, cu_email = Some email,
                 cu_external_ref = None, cu_display_name = None, cu_email_history = [(email, now)],
                 cu_metadata = [], cu_first_seen_at = now, cu_last_seen_at = now\<rparr>
      in seq (gets (\<lambda>s. find (is_customer merchantId w) (customers s))) (\<lambda>row.
         case row of
           None \<Rightarrow> seq (modify (\<lambda>s. s\<lparr>customers := customers s @ [fresh]\<rparr>)) (\<lambda>_. ret fresh)
         | Some existing \<Rightarrow>
             if cu_email existing \<noteq> None
             then seq (modify (\<lambda>s. s\<lparr>customers := update_where (\<lambda>r. cu_id r = cu_id existing) (\<lambda>r. r\<lparr>cu_last_seen_at := now\<rparr>) (customers s)\<rparr>)) (\<lambda>_.
                  ret (existing\<lparr>cu_last_seen_at := now\<rparr>))
             else seq (modify (\<lambda>s. s\<lparr>customers := update_where (\<lambda>r. cu_id r = cu_id existing \<and> cu_email r = None)
                       (\<lambda>r. r\<lparr>cu_email := Some email, cu_metadata := cu_metadata existing,
                              cu_email_history := cu_email_history existing @ [(email, now)], cu_last_seen_at := now\<rparr>) (customers s)\<rparr>)) (\<lambda>_.
                  seq (gets (\<lambda>s. find_row cu_id (cu_id existing) (customers s))) (or_raise p2025))))"

record customer_filter =
  cf_list_ref :: "string option"
  cf_list_wallet :: "string option"

definition listCustomers :: "string \<Rightarrow> list_params \<Rightarrow> customer_filter \<Rightarrow> (store, api_exn, customer_row page) proc" where
  "listCustomers merchantId p f = gets (\<lambda>s.
     list_page cu_id p (newest_first cu_last_seen_at (filter (\<lambda>r. cu_merchant_id r = merchantId \<and>
       (cf_list_ref f \<noteq> None \<longrightarrow> cu_external_ref r = cf_list_ref f) \<and>
       (truthy (cf_list_wallet f) \<longrightarrow> to_lower (cu_wallet_address r) = to_lower (the (cf_list_wallet f)))) (customers s))))"

section \<open>Transactions\<close>

record tx_filter =
  tf_kind :: "transaction_kind option"
  tf_status :: "transaction_status option"
  tf_session_id :: "string option"
  tf_subscription_id :: "string option"
  tf_customer_id :: "string option"
  tf_from :: "int option"
  tf_before :: "int option"

definition tx_selected :: "tx_filter \<Rightarrow> tx_row \<Rightarrow> bool" where
  "tx_selected f t \<longleftrightarrow>
     (tf_kind f \<noteq> None \<longrightarrow> tf_kind f = Some (tx_kind t)) \<and> (tf_status f \<noteq> None \<longrightarrow> tf_status f = Some (tx_status t)) \<and>
     (tf_session_id f \<noteq> None \<longrightarrow> tx_session_id t = tf_session_id f) \<and>
     (tf_subscription_id f \<noteq> None \<longrightarrow> tx_subscription_id t = tf_subscription_id f) \<and>
     (tf_customer_id f \<noteq> None \<longrightarrow> tx_customer_id t = tf_customer_id f) \<and>
     (tf_from f \<noteq> None \<longrightarrow> the (tf_from f) \<le> tx_block_timestamp t) \<and> (tf_before f \<noteq> None \<longrightarrow> tx_block_timestamp t < the (tf_before f))"

definition retrieveTransaction :: "string \<Rightarrow> api_mode \<Rightarrow> string \<Rightarrow> (store, api_exn, tx_row) proc" where
  "retrieveTransaction merchantId mode i =
     seq (gets (\<lambda>s. find (\<lambda>t. tx_id t = i \<and> tx_merchant_id t = merchantId \<and> tx_mode t = mode) (transactions s))) (or_raise not_found)"

definition listTransactions :: "string \<Rightarrow> api_mode \<Rightarrow> list_params \<Rightarrow> tx_filter \<Rightarrow> (store, api_exn, tx_row page) proc" where
  "listTransactions merchantId mode p f = gets (\<lambda>s.
     list_page tx_id p (newest_first tx_block_timestamp
       (filter (\<lambda>t. tx_merchant_id t = merchantId \<and> tx_mode t = mode \<and> tx_selected f t) (transactions s))))"

section \<open>One merchant per login\<close>

text \<open>The unique indexes of the merchant table.\<close>

definition merchants_unique :: "store \<Rightarrow> bool" where
  "merchants_unique s \<longleftrightarrow> distinct (map m_id (merchants s)) \<and> distinct (map m_email (merchants s)) \<and>
     (\<forall>r\<in>set (merchants s). \<forall>q\<in>set (merchants s). m_privy_user_id r \<noteq> None \<longrightarrow> m_privy_user_id r = m_privy_user_id q \<longrightarrow> r = q)"

interpretation refresh: row_update m_id apply_refresh
  by unfold_locales (simp add: apply_refresh_def split: prod.split)

lemma apply_refresh_fields [simp]:
  "m_privy_user_id (apply_refresh p m) = m_privy_user_id m" "m_email (apply_refresh p m) = rf_email (fst p)"
  "m_payout_address (apply_refresh p m) = snd p"
  by (simp_all add: apply_refresh_def split: prod.split)

lemma update_merchant_unique:
  assumes "merchants_unique s"
  shows "merchants_unique (snd (update_merchant i p s))"
proof (cases "find_row m_id i (merchants s) = None \<or> list_ex (\<lambda>r. m_id r \<noteq> i \<and> m_email r = rf_email (fst p)) (merchants s)")
  case True
  with assms show ?thesis by (auto simp: update_merchant_def split: option.split)
next
  case False
  let ?t = "update_where (\<lambda>r. m_id r = i) (apply_refresh p) (merchants s)"
  from False obtain m where "find_row m_id i (merchants s) = Some m" by auto
  with False have run: "snd (update_merchant i p s) = s\<lparr>merchants := ?t\<rparr>" by (simp add: update_merchant_def)
  have ids: "inj_on m_id (set (merchants s))" and mails: "inj_on m_email (set (merchants s))" and d: "distinct (merchants s)"
    using assms by (auto simp: merchants_unique_def distinct_map)
  have free: "r \<in> set (merchants s) \<Longrightarrow> m_id r \<noteq> i \<Longrightarrow> m_email r \<noteq> rf_email (fst p)" for r
    using False by (auto simp: list_ex_iff)
  have "inj_on (\<lambda>r. m_email (if m_id r = i then apply_refresh p r else r)) (set (merchants s))"
  proof (rule inj_onI)
    fix x y
    assume "x \<in> set (merchants s)" "y \<in> set (merchants s)"
      "m_email (if m_id x = i then apply_refresh p x else x) = m_email (if m_id y = i then apply_refresh p y else y)"
    with ids mails free [of x] free [of y] show "x = y" by (auto simp: inj_on_def split: if_splits)
  qed
  then have mails': "distinct (map m_email ?t)" using d by (simp add: update_where_def distinct_map comp_def)
  have same: "r = q" if "r \<in> set ?t" "q \<in> set ?t" "m_privy_user_id r \<noteq> None" "m_privy_user_id r = m_privy_user_id q" for r q
  proof -
    from that(1,2) obtain r0 q0 where "r0 \<in> set (merchants s)" "r = (if m_id r0 = i then apply_refresh p r0 else r0)"
      "q0 \<in> set (merchants s)" "q = (if m_id q0 = i then apply_refresh p q0 else q0)" by (auto simp: set_update_where)
    moreover from this that(3,4) have "m_privy_user_id r0 \<noteq> None" "m_privy_user_id r0 = m_privy_user_id q0" by (auto split: if_splits)
    ultimately show ?thesis using assms unfolding merchants_unique_def by blast
  qed
  have "\<forall>r\<in>set ?t. \<forall>q\<in>set ?t. m_privy_user_id r \<noteq> None \<longrightarrow> m_privy_user_id r = m_privy_user_id q \<longrightarrow> r = q"
    using same by blast
  with mails' show ?thesis unfolding run using assms by (simp add: merchants_unique_def)
qed

lemma create_merchant_unique:
  "merchants_unique s \<Longrightarrow> merchants_unique (snd (create_merchant r s))"
  by (auto simp: create_merchant_def merchants_unique_def list_ex_iff)

lemma update_after_conflict_unique: "merchants_unique s \<Longrightarrow> merchants_unique (snd (update_after_conflict p w f s))"
  by (auto simp: update_after_conflict_def sync_read_def seq_def update_merchant_unique split: option.split)

lemma sync_write_unique:
  assumes "merchants_unique s"
  shows "merchants_unique (snd (sync_write i now p u existing s))"
proof -
  let ?f = "\<lambda>email. refreshFields u email existing now"
  have create: "merchants_unique (snd (catch (seq (create_merchant r) (\<lambda>m. ret (g m)))
      (\<lambda>err. if err = Crash ''P2002'' then seq (update_after_conflict p w f) (\<lambda>m. ret (h m)) else raise err) s))" for r g w f h
  proof -
    have "merchants_unique (snd (create_merchant r s))" by (rule create_merchant_unique [OF assms])
    then show ?thesis
      by (cases "create_merchant r s")
        (auto simp: catch_def seq_def update_after_conflict_unique split: sum.split prod.split,
         (metis snd_conv update_after_conflict_unique)+)
  qed
  show ?thesis
    using update_merchant_unique [OF assms] create assms
    by (auto simp: sync_write_def Let_def split: option.split)
qed

lemma create_merchant_success:
  assumes "create_merchant r s = (Inr m, s')"
  shows "m = r" "s' = s\<lparr>merchants := merchants s @ [r]\<rparr>"
    "\<forall>q\<in>set (merchants s). m_privy_user_id q \<noteq> m_privy_user_id r \<and> m_email q \<noteq> m_email r \<and> m_id q \<noteq> m_id r"
  using assms by (auto simp: create_merchant_def list_ex_iff split: if_splits)

lemma new_merchant_fields [simp]:
  "m_id (new_merchant i p w f) = i" "m_privy_user_id (new_merchant i p w f) = Some p" "m_email (new_merchant i p w f) = rf_email f"
  "m_payout_address (new_merchant i p w f) = w"
  by (simp_all add: new_merchant_def)

lemma find_row_append_new: "\<forall>q\<in>set t. k q \<noteq> k r \<Longrightarrow> find_row k (k r) (t @ [r]) = Some r"
  by (induction t) (auto simp: find_row_def)

lemma refresh_email [simp]: "rf_email (refreshFields u e x now) = e"
  by (simp add: refreshFields_def)

lemma create_again_conflicts:
  "m_privy_user_id r' = m_privy_user_id r \<Longrightarrow> create_merchant r' (s\<lparr>merchants := t @ [r]\<rparr>) = (Inl (Crash ''P2002''), s\<lparr>merchants := t @ [r]\<rparr>)"
  by (simp add: create_merchant_def)

lemma update_after_create:
  assumes "\<forall>q\<in>set t. m_privy_user_id q \<noteq> Some p \<and> m_email q \<noteq> rf_email f \<and> m_id q \<noteq> m_id r"
    and "m_privy_user_id r = Some p"
  shows "update_after_conflict p w f (s\<lparr>merchants := t @ [r]\<rparr>) =
    (Inr (apply_refresh (f, or_else (m_payout_address r) w) r),
     s\<lparr>merchants := t @ [apply_refresh (f, or_else (m_payout_address r) w) r]\<rparr>)"
proof -
  have privy: "find_row m_privy_user_id (Some p) (t @ [r]) = Some r"
    using find_row_append_new [of t m_privy_user_id r] assms by simp
  have id: "find_row m_id (m_id r) (t @ [r]) = Some r"
    using find_row_append_new [of t m_id r] assms by simp
  have "update_where (\<lambda>q. m_id q = m_id r) g (t @ [r]) = t @ [g r]" for g
    using assms by (auto simp: update_where_def intro!: map_idI)
  moreover have "\<not> list_ex (\<lambda>q. m_id q \<noteq> m_id r \<and> m_email q = rf_email f) (t @ [r])"
    using assms by (auto simp: list_ex_iff)
  ultimately show ?thesis using privy id
    by (simp add: update_after_conflict_def sync_read_def update_merchant_def)
qed

text \<open>
  Two first logins of one user that both saw no merchant: the one that writes second finds the unique index taken
  and updates, so both return the same merchant, one row is added, and only the first is reported as new.
\<close>

theorem concurrent_logins_share_merchant:
  assumes "merchants_unique s"
    and "sync_write i now p u None s = (Inr (m, True), s1)"
  shows "\<exists>m2 s2. sync_write j later p u None s1 = (Inr (m2, False), s2) \<and> mw_id m2 = mw_id m \<and>
    merchants_unique s2 \<and> length (merchants s2) = length (merchants s) + 1"
proof -
  from assms(2) obtain email where email: "primaryEmail u = Some email" "email \<noteq> []"
    by (auto simp: sync_write_def split: option.splits if_splits)
  let ?f = "\<lambda>t. refreshFields u email None t" and ?w = "primaryWallet u"
  let ?r = "new_merchant i p ?w (?f now)"
  obtain x sx where run: "create_merchant ?r s = (x, sx)" by fastforce
  with assms(2) email have x: "x = Inr ?r" "s1 = sx" "m = serialiseMerchant ?r"
    by (auto simp: sync_write_def catch_def seq_def Let_def update_after_conflict_def sync_read_def
          dest: create_merchant_success(1) split: sum.splits if_splits option.splits prod.splits)
  note made = create_merchant_success [OF run [unfolded x(1)]]
  let ?p = "(?f later, or_else ?w ?w)"
  have again: "sync_write j later p u None s1 =
      (Inr (serialiseMerchant (apply_refresh ?p ?r), False), s\<lparr>merchants := merchants s @ [apply_refresh ?p ?r]\<rparr>)"
    using email made x(2) update_after_create [of "merchants s" p "?f later" ?r ?w s]
    by (simp add: sync_write_def catch_def seq_def Let_def create_again_conflicts)
  moreover have "mw_id (serialiseMerchant (apply_refresh ?p ?r)) = mw_id m"
    by (simp add: x serialiseMerchant_def)
  moreover have "merchants_unique (snd (sync_write j later p u None s1))"
    using create_merchant_unique [OF assms(1), of ?r] run x by (intro sync_write_unique) simp
  ultimately show ?thesis by simp
qed

definition payout_kept :: "merchant_row \<Rightarrow> string \<Rightarrow> store \<Rightarrow> bool" where
  "payout_kept r a s \<longleftrightarrow> (\<exists>r'\<in>set (merchants s). m_id r' = m_id r \<and> m_payout_address r' = Some a)"

lemma payout_kept_self: "r \<in> set (merchants s) \<Longrightarrow> m_payout_address r = Some a \<Longrightarrow> payout_kept r a s"
  by (auto simp: payout_kept_def)

lemma update_merchant_rows:
  "snd (update_merchant i p s) = s \<or>
   snd (update_merchant i p s) = s\<lparr>merchants := update_where (\<lambda>r. m_id r = i) (apply_refresh p) (merchants s)\<rparr>"
  by (auto simp: update_merchant_def split: option.split)

lemma update_merchant_keeps:
  assumes "r \<in> set (merchants s)" "m_payout_address r = Some a" "m_id r = i \<Longrightarrow> snd p = Some a"
  shows "payout_kept r a (snd (update_merchant i p s))"
  using update_merchant_rows [of i p s]
proof
  assume "snd (update_merchant i p s) = s"
  then show ?thesis using payout_kept_self [OF assms(1,2)] by simp
next
  assume *: "snd (update_merchant i p s) = s\<lparr>merchants := update_where (\<lambda>r. m_id r = i) (apply_refresh p) (merchants s)\<rparr>"
  let ?r = "if m_id r = i then apply_refresh p r else r"
  have "?r \<in> set (merchants (snd (update_merchant i p s)))" using assms(1) by (auto simp: * set_update_where)
  moreover have "m_id ?r = m_id r" "m_payout_address ?r = Some a" using assms(2,3) by (simp_all add: refresh.key_upd)
  ultimately show ?thesis unfolding payout_kept_def by blast
qed

lemma sync_update_keeps:
  assumes "merchants_unique s" "r \<in> set (merchants s)" "m_payout_address r = Some a" "e \<in> set (merchants s)"
  shows "payout_kept r a (snd (update_merchant (m_id e) (f, or_else (m_payout_address e) w) s))"
proof (rule update_merchant_keeps [OF assms(2,3)])
  assume "m_id r = m_id e"
  then have "r = e" using assms(1,2,4) by (auto simp: merchants_unique_def distinct_map inj_on_def)
  then show "snd (f, or_else (m_payout_address e) w) = Some a" using assms(3) by (simp add: or_else_def)
qed

lemma conflict_keeps:
  assumes "merchants_unique s" "r \<in> set (merchants s)" "m_payout_address r = Some a"
  shows "payout_kept r a (snd (update_after_conflict p w f s))"
proof (cases "find_row m_privy_user_id (Some p) (merchants s)")
  case None
  then show ?thesis using payout_kept_self [OF assms(2,3)] by (simp add: update_after_conflict_def sync_read_def seq_def)
next
  case (Some e)
  then have "e \<in> set (merchants s)" by (auto dest: find_row_Some)
  from sync_update_keeps [OF assms this] show ?thesis
    by (simp add: update_after_conflict_def sync_read_def seq_def Some)
qed

lemma create_merchant_keeps:
  "create_merchant q s = (x, s') \<Longrightarrow> (\<exists>e. x = Inl e \<and> s' = s) \<or> (x = Inr q \<and> s' = s\<lparr>merchants := merchants s @ [q]\<rparr>)"
  by (auto simp: create_merchant_def split: if_splits)

lemma sync_create_keeps:
  assumes "merchants_unique s" "r \<in> set (merchants s)" "m_payout_address r = Some a"
  shows "payout_kept r a (snd (sync_write i now p u None s))"
proof (cases "primaryEmail u = None \<or> primaryEmail u = Some []")
  case True
  then show ?thesis using payout_kept_self [OF assms(2,3)] by (auto simp: sync_write_def)
next
  case False
  then obtain email where email: "primaryEmail u = Some email" "email \<noteq> []" by auto
  let ?f = "refreshFields u email None now" and ?w = "primaryWallet u"
  obtain x sx where run: "create_merchant (new_merchant i p ?w ?f) s = (x, sx)" by fastforce
  from create_merchant_keeps [OF this] show ?thesis
    using email run payout_kept_self [OF assms(2,3)] conflict_keeps [OF assms, of p ?w ?f] assms(2,3)
    by (auto simp: sync_write_def catch_def seq_def Let_def payout_kept_def split: sum.splits prod.splits)
qed

text \<open>
  The payout address belongs to the merchant: a login that runs on its own leaves every payout address that is
  set, of this merchant and of every other, as it was.
\<close>

theorem login_keeps_payout:
  assumes "merchants_unique s" and "r \<in> set (merchants s)" and "m_payout_address r = Some a"
  shows "\<exists>r'\<in>set (merchants (snd (syncByPrivyUserId get_user i now p s))). m_id r' = m_id r \<and> m_payout_address r' = Some a"
proof -
  have "payout_kept r a (snd (sync_write i now p u x s))" if "x = find_row m_privy_user_id (Some p) (merchants s)" for u x
  proof (cases x)
    case None
    then show ?thesis using sync_create_keeps [OF assms] by simp
  next
    case (Some e)
    with that have "e \<in> set (merchants s)" using find_row_Some [of m_privy_user_id "Some p"] by metis
    from sync_update_keeps [OF assms this] Some payout_kept_self [OF assms(2,3)] show ?thesis
      by (auto simp: sync_write_def seq_def Let_def split: option.split sum.split prod.split) (metis snd_conv)+
  qed
  then have "payout_kept r a (snd (syncByPrivyUserId get_user i now p s))"
    using payout_kept_self [OF assms(2,3)]
    by (auto simp: syncByPrivyUserId_def sync_read_def split: option.split)
  then show ?thesis by (simp add: payout_kept_def)
qed

definition new_user :: privy_user where
  [sample_defs]: "new_user = \<lparr>pv_email = Some ''a@b'', pv_accounts = [\<lparr>pa_type = ''wallet'', pa_address = Some ''0xw'',
     pa_account_email = None, pa_chain_type = None\<rparr>], pv_mfa_methods = 0\<rparr>"

lemma new_user_eval:
  "primaryEmail new_user = Some ''a@b''" "primaryWallet new_user = Some ''0xw''" "hasMfa new_user = False"
  by (simp_all add: new_user_def primaryEmail_def primaryWallet_def hasMfa_def lower_opt_def truthy_def to_lower_def ascii_lower_def)

definition one_merchant :: store where
  [sample_defs]: "one_merchant = empty_store\<lparr>merchants := [sample_merchant\<lparr>m_email := ''c@d''\<rparr>]\<rparr>"

lemma one_merchant_unique: "merchants_unique one_merchant"
  by (simp add: merchants_unique_def one_merchant_def)

lemma concurrent_logins_share_merchant_witness:
  "\<exists>m s1 m2 s2. sync_write ''m9'' 1 ''did:9'' new_user None one_merchant = (Inr (m, True), s1) \<and>
     sync_write ''m10'' 2 ''did:9'' new_user None s1 = (Inr (m2, False), s2) \<and> mw_id m2 = mw_id m \<and> length (merchants s2) = 2"
proof -
  let ?r = "new_merchant ''m9'' ''did:9'' (Some ''0xw'') (refreshFields new_user ''a@b'' None 1)"
  have "create_merchant ?r one_merchant = (Inr ?r, one_merchant\<lparr>merchants := merchants one_merchant @ [?r]\<rparr>)"
    by (simp add: create_merchant_def one_merchant_def sample_merchant_def)
  then have run: "sync_write ''m9'' 1 ''did:9'' new_user None one_merchant =
      (Inr (serialiseMerchant ?r, True), one_merchant\<lparr>merchants := merchants one_merchant @ [?r]\<rparr>)"
    by (simp add: sync_write_def new_user_eval Let_def catch_def seq_def)
  from concurrent_logins_share_merchant [OF one_merchant_unique run, of "''m10''" 2] run show ?thesis
    by (auto simp: one_merchant_def empty_store_def)
qed

lemma login_keeps_payout_witness:
  "\<exists>r'\<in>set (merchants (snd (syncByPrivyUserId (\<lambda>_. Some new_user) ''m9'' 1 ''did:m1'' one_merchant))).
     m_id r' = ''m1'' \<and> m_payout_address r' = Some sample_address"
  using login_keeps_payout [OF one_merchant_unique, of "sample_merchant\<lparr>m_email := ''c@d''\<rparr>" sample_address]
  by (simp add: one_merchant_def sample_merchant_def)

text \<open>
  Interleaved with the dashboard the login does not: it read the merchant before the payout address was set, and
  writes its wallet over it.
\<close>

lemma login_race_overwrites_payout:
  "let e = sample_merchant\<lparr>m_payout_address := None\<rparr>;
       p = \<lparr>mp_business_name = None, mp_payout_address = Some other_address, mp_default_currency = None, mp_website_url = None,
         mp_logo_url = None, mp_country_code = None, mp_metadata = None, mp_email_prefs = None\<rparr>;
       (x, s) = update_profile ''m1'' p (empty_store\<lparr>merchants := [e]\<rparr>) in
   map m_payout_address (merchants s) = [Some other_address] \<and>
   map m_payout_address (merchants (snd (sync_write ''m9'' 2 ''did:m1'' new_user (Some e) s))) = [Some ''0xw'']"
  by (simp add: update_profile_def write_merchant_def patch_merchant_row_def patched_metadata_def sample_merchant_def or_else_def
      sync_write_def new_user_eval update_merchant_def refreshFields_def update_where_def set_or_def Let_def seq_def)

text \<open>A patch of the metadata alone drops the stored e-mail preferences.\<close>

lemma metadata_patch_drops_prefs:
  "mp_email_prefs p = None \<Longrightarrow> mp_metadata p = Some d \<Longrightarrow> m_email_prefs (patch_merchant_row p m) = []"
  by (simp add: patch_merchant_row_def patched_metadata_def)

end
