(* ===== verification/Analytics.thy ===== *)
theory Analytics
  imports Money Paging Calendar "HOL-Library.List_Lexorder" "HOL-Library.Char_ord" "HOL-Library.Product_Lexorder" "HOL-Library.AList"
begin

text \<open>
  The statistics of a merchant (\<open>apps/api/src/modules/analytics/analytics.service.ts\<close>): SQL aggregates over the
  tables, turned into totals per currency. A \<open>GROUP BY\<close> is a list of groups, \<open>FILTER\<close> a filter of a group,
  \<open>sum(...)::text\<close> the decimal text of a sum; text is compared bytewise. A rate is the exact quotient.
\<close>

section \<open>Aggregates\<close>

definition sum_text :: "('r \<Rightarrow> string) \<Rightarrow> 'r list \<Rightarrow> string" where
  "sum_text f rs = show_nat (\<Sum>r\<leftarrow>rs. big_nat (f r))"

definition all_currencies :: "payment_currency list" where
  "all_currencies = [USDC, EURC]"

text \<open>\<open>GROUP BY currency\<close>.\<close>

definition group_by_currency :: "('r \<Rightarrow> payment_currency) \<Rightarrow> 'r list \<Rightarrow> (payment_currency \<times> 'r list) list" where
  "group_by_currency cur rs =
     map (\<lambda>c. (c, filter (\<lambda>r. cur r = c) rs)) (filter (\<lambda>c. list_ex (\<lambda>r. cur r = c) rs) all_currencies)"

text \<open>A row of an aggregate query: the count of each status, and the other counts and amounts by column.\<close>

record 'st aggregate_row =
  ag_currency :: string
  ag_total :: nat
  ag_status :: "'st \<Rightarrow> nat"
  ag_count :: "string \<Rightarrow> nat"
  ag_amount :: "string \<Rightarrow> string"

definition sumCounts :: "'st aggregate_row list \<Rightarrow> ('st aggregate_row \<Rightarrow> nat) \<Rightarrow> nat" where
  "sumCounts rows col = (\<Sum>r\<leftarrow>rows. col r)"

definition amountsOf :: "'st aggregate_row list \<Rightarrow> string \<Rightarrow> api_exn + (payment_currency \<Rightarrow> string)" where
  "amountsOf rows col = toCurrencyAmounts (map (\<lambda>r. (ag_currency r, ag_amount r col)) rows)"

definition statusCounts :: "'st list \<Rightarrow> 'st aggregate_row list \<Rightarrow> api_exn + ('st \<Rightarrow> nat)" where
  "statusCounts statuses rows =
     (let out = (\<lambda>st. if st \<in> set statuses then sumCounts rows (\<lambda>r. ag_status r st) else 0);
          counted = (\<Sum>st\<leftarrow>statuses. out st) in
      if counted \<noteq> sumCounts rows ag_total then Inl (Crash ''a status is missing'') else Inr out)"

section \<open>Recurring revenue\<close>

definition normaliseToMonthly :: "nat \<Rightarrow> subscription_interval \<Rightarrow> nat \<Rightarrow> nat" where
  "normaliseToMonthly amount interval intervalCount =
     (let factor = (if intervalCount = 0 then 1 else intervalCount) in
      case interval of
        Daily \<Rightarrow> amount * 30 div factor
      | Weekly \<Rightarrow> amount * 30 div (factor * 7)
      | Monthly \<Rightarrow> amount div factor
      | Quarterly \<Rightarrow> amount div (factor * 3)
      | Yearly \<Rightarrow> amount div (factor * 12))"

definition monthly_of :: "sub_row \<Rightarrow> nat" where
  "monthly_of r = normaliseToMonthly (big_nat (su_amount r)) (su_interval r) (su_interval_count r)"

text \<open>The \<open>Map\<close> keeps the currencies in the order they first occur.\<close>

fun add_monthly :: "sub_row list \<Rightarrow> (payment_currency \<times> nat) list \<Rightarrow> (payment_currency \<times> nat) list" where
  "add_monthly [] m = m"
| "add_monthly (r # rs) m =
     add_monthly rs (AList.update (su_currency r) ((case map_of m (su_currency r) of None \<Rightarrow> 0 | Some n \<Rightarrow> n) + monthly_of r) m)"

definition active_subs :: "string \<Rightarrow> api_mode \<Rightarrow> store \<Rightarrow> sub_row list" where
  "active_subs merchantId mode s =
     filter (\<lambda>r. su_merchant_id r = merchantId \<and> su_mode r = mode \<and> su_status r = Sub_Active) (subs s)"

record stats_mrr =
  mr_mrr :: "payment_currency \<Rightarrow> string"
  mr_active_subscribers :: nat

definition mrr :: "string \<Rightarrow> api_mode \<Rightarrow> (store, api_exn, stats_mrr) proc" where
  "mrr merchantId mode =
     seq (gets (active_subs merchantId mode)) (\<lambda>rows.
     seq (lift_sum (toCurrencyAmounts (map (\<lambda>(c, n). (currency_name c, show_nat n)) (add_monthly rows [])))) (\<lambda>amounts.
     ret \<lparr>mr_mrr = amounts, mr_active_subscribers = length rows\<rparr>))"

section \<open>Volume\<close>

definition is_volume :: "string \<Rightarrow> api_mode \<Rightarrow> tx_row \<Rightarrow> bool" where
  "is_volume merchantId mode t \<longleftrightarrow>
     tx_merchant_id t = merchantId \<and> tx_mode t = mode \<and> tx_status t = Tx_Confirmed \<and> tx_kind t \<noteq> Refund_Kind"

record volume_window =
  vw_count :: nat
  vw_gross :: "payment_currency \<Rightarrow> string"
  vw_fees :: "payment_currency \<Rightarrow> string"
  vw_net :: "payment_currency \<Rightarrow> string"

text \<open>The query of one window: the group of each currency, with the window's \<open>FILTER\<close>.\<close>

definition window_rows :: "int option \<Rightarrow> tx_row list \<Rightarrow> unit aggregate_row list" where
  "window_rows from rows = map (\<lambda>(c, g).
     let w = filter (\<lambda>t. case from of None \<Rightarrow> True | Some d \<Rightarrow> d \<le> tx_block_timestamp t) g in
     \<lparr>ag_currency = currency_name c, ag_total = length w, ag_status = (\<lambda>_. 0), ag_count = (\<lambda>_. length w),
      ag_amount = (\<lambda>col. if col = ''gross'' then sum_text tx_amount w else if col = ''fees'' then sum_text tx_fee_amount w
                         else sum_text tx_net_amount w)\<rparr>) (group_by_currency tx_currency rows)"

definition volume_window_of :: "int option \<Rightarrow> tx_row list \<Rightarrow> (store, api_exn, volume_window) proc" where
  "volume_window_of from rows =
     (let ag = window_rows from rows in
      seq (lift_sum (amountsOf ag ''gross'')) (\<lambda>gross.
      seq (lift_sum (amountsOf ag ''fees'')) (\<lambda>fees.
      seq (lift_sum (amountsOf ag ''net'')) (\<lambda>net.
      ret \<lparr>vw_count = sumCounts ag ag_total, vw_gross = gross, vw_fees = fees, vw_net = net\<rparr>))))"

definition summaryVolume :: "int \<Rightarrow> string \<Rightarrow> api_mode \<Rightarrow> (store, api_exn, volume_window \<times> volume_window \<times> volume_window) proc" where
  "summaryVolume now merchantId mode =
     seq (gets (\<lambda>s. filter (is_volume merchantId mode) (transactions s))) (\<lambda>rows.
     seq (volume_window_of (Some (now - 7 * DAY_MS)) rows) (\<lambda>last7d.
     seq (volume_window_of (Some (now - 30 * DAY_MS)) rows) (\<lambda>last30d.
     seq (volume_window_of None rows) (\<lambda>allTime. ret (last7d, last30d, allTime)))))"

record volume_day =
  vd_day :: int
  vd_currency :: payment_currency
  vd_count :: nat
  vd_gross :: string
  vd_fees :: string
  vd_net :: string

definition volume_range :: "int \<Rightarrow> int option \<Rightarrow> int option \<Rightarrow> int \<times> int" where
  "volume_range now from to = (let t = set_or to now in (set_or from (t - 30 * DAY_MS), t))"

definition volume :: "int \<Rightarrow> string \<Rightarrow> api_mode \<Rightarrow> int option \<Rightarrow> int option \<Rightarrow> (store, api_exn, (int \<times> int) \<times> volume_day list) proc" where
  "volume now merchantId mode qfrom qto =
     (let (from, to) = volume_range now qfrom qto in
      seq (gets (\<lambda>s. filter (\<lambda>t. is_volume merchantId mode t \<and> from \<le> tx_block_timestamp t \<and> tx_block_timestamp t \<le> to) (transactions s))) (\<lambda>rows.
      ret ((from, to), concat (map (\<lambda>d. map (\<lambda>(c, g). \<lparr>vd_day = d, vd_currency = c, vd_count = length g,
          vd_gross = sum_text tx_amount g, vd_fees = sum_text tx_fee_amount g, vd_net = sum_text tx_net_amount g\<rparr>)
          (group_by_currency tx_currency (filter (\<lambda>t. day_of (tx_block_timestamp t) = d) rows)))
        (sort (remdups (map (\<lambda>t. day_of (tx_block_timestamp t)) rows)))))))"

section \<open>Conversion and churn\<close>

record rate_bucket =
  rb_bucket :: int
  rb_part :: nat
  rb_whole :: nat
  rb_rate :: "nat \<times> nat"

text \<open>The quotient as a pair; 0 of 1 without rows.\<close>

definition rate_of :: "nat \<Rightarrow> nat \<Rightarrow> nat \<times> nat" where
  "rate_of part whole = (if whole = 0 then (0, 1) else (part, whole))"

definition bucket_rates :: "('r \<Rightarrow> int) \<Rightarrow> ('r \<Rightarrow> bool) \<Rightarrow> 'r list \<Rightarrow> rate_bucket list" where
  "bucket_rates bucket hit rows = map (\<lambda>b. let g = filter (\<lambda>r. bucket r = b) rows; part = length (filter hit g) in
     \<lparr>rb_bucket = b, rb_part = part, rb_whole = length g, rb_rate = rate_of part (length g)\<rparr>) (sort (remdups (map bucket rows)))"

definition conversion :: "int \<Rightarrow> string \<Rightarrow> api_mode \<Rightarrow> int option \<Rightarrow> int option \<Rightarrow> (store, api_exn, (int \<times> int) \<times> rate_bucket list) proc" where
  "conversion now merchantId mode qfrom qto =
     (let from = set_or qfrom (now - 30 * DAY_MS); to = set_or qto now in
      seq (gets (\<lambda>s. filter (\<lambda>r. ps_merchant_id r = merchantId \<and> ps_mode r = mode \<and> from \<le> ps_created_at r \<and> ps_created_at r \<le> to) (sessions s))) (\<lambda>rows.
      ret ((from, to), bucket_rates (\<lambda>r. day_of (ps_created_at r)) (\<lambda>r. ps_status r = Confirmed) rows)))"

definition churn :: "int \<Rightarrow> string \<Rightarrow> api_mode \<Rightarrow> int option \<Rightarrow> int option \<Rightarrow> (store, api_exn, (int \<times> int) \<times> rate_bucket list) proc" where
  "churn now merchantId mode qfrom qto =
     (let from = set_or qfrom (now - 365 * DAY_MS); to = set_or qto now in
      seq (gets (\<lambda>s. filter (\<lambda>r. su_merchant_id r = merchantId \<and> su_mode r = mode \<and> from \<le> su_created_at r \<and> su_created_at r \<le> to) (subs s))) (\<lambda>rows.
      ret ((from, to), bucket_rates (\<lambda>r. start_of_month (su_created_at r)) (\<lambda>r. su_status r = Sub_Cancelled \<or> su_status r = Lapsed) rows)))"

section \<open>The summary\<close>

definition status_count :: "('r \<Rightarrow> 'st) \<Rightarrow> 'r list \<Rightarrow> 'st \<Rightarrow> nat" where
  "status_count f rs st = length (filter (\<lambda>r. f r = st) rs)"

definition session_statuses :: "session_status list" where
  "session_statuses = [Created, Awaiting_Payment, Submitted, Confirmed, Failed, Expired, Cancelled]"

definition invoice_statuses :: "invoice_status list" where
  "invoice_statuses = [Draft, Sent, Paid, Overdue, Void]"

definition refund_statuses :: "refund_status list" where
  "refund_statuses = [Rf_Pending, Awaiting_Signature, Rf_Submitted, Rf_Completed, Rf_Failed, Rf_Cancelled]"

definition subscription_statuses :: "subscription_status list" where
  "subscription_statuses = [Trialing, Sub_Active, At_Risk, Paused, Sub_Cancelled, Lapsed]"

record money =
  mo_count :: nat
  mo_amount :: "payment_currency \<Rightarrow> string"

record sessions_summary =
  ss_total :: nat
  ss_by_status :: "session_status \<Rightarrow> nat"
  ss_confirmed :: money

definition session_groups :: "session_row list \<Rightarrow> session_status aggregate_row list" where
  "session_groups rows = map (\<lambda>(c, g). \<lparr>ag_currency = currency_name c, ag_total = length g, ag_status = status_count ps_status g,
     ag_count = (\<lambda>_. 0), ag_amount = (\<lambda>_. sum_text ps_amount (filter (\<lambda>r. ps_status r = Confirmed) g))\<rparr>) (group_by_currency ps_currency rows)"

definition summarySessions :: "string \<Rightarrow> api_mode \<Rightarrow> (store, api_exn, sessions_summary) proc" where
  "summarySessions merchantId mode =
     seq (gets (\<lambda>s. session_groups (filter (\<lambda>r. ps_merchant_id r = merchantId \<and> ps_mode r = mode) (sessions s)))) (\<lambda>rows.
     seq (lift_sum (statusCounts session_statuses rows)) (\<lambda>byStatus.
     seq (lift_sum (amountsOf rows ''confirmedAmount'')) (\<lambda>confirmed.
     ret \<lparr>ss_total = sumCounts rows ag_total, ss_by_status = byStatus,
          ss_confirmed = \<lparr>mo_count = byStatus Confirmed, mo_amount = confirmed\<rparr>\<rparr>)))"

record invoices_summary =
  is_by_status :: "invoice_status \<Rightarrow> nat"
  is_outstanding :: money
  is_overdue :: money
  is_paid_last30d :: money

definition outstanding :: "invoice_row \<Rightarrow> bool" where
  "outstanding r \<longleftrightarrow> iv_status r = Sent \<or> iv_status r = Overdue"

definition paid30 :: "int \<Rightarrow> invoice_row \<Rightarrow> bool" where
  "paid30 now r \<longleftrightarrow> iv_status r = Paid \<and> (case iv_paid_at r of None \<Rightarrow> False | Some t \<Rightarrow> now - 30 * DAY_MS \<le> t)"

definition invoice_groups :: "int \<Rightarrow> invoice_row list \<Rightarrow> invoice_status aggregate_row list" where
  "invoice_groups now rows = map (\<lambda>(c, g). \<lparr>ag_currency = currency_name c, ag_total = length g, ag_status = status_count iv_status g,
     ag_count = (\<lambda>col. if col = ''outstandingCount'' then length (filter outstanding g) else length (filter (paid30 now) g)),
     ag_amount = (\<lambda>col. if col = ''outstandingAmount'' then sum_text iv_total (filter outstanding g)
        else if col = ''overdueAmount'' then sum_text iv_total (filter (\<lambda>r. iv_status r = Overdue) g)
        else sum_text iv_total (filter (paid30 now) g))\<rparr>) (group_by_currency iv_currency rows)"

definition summaryInvoices :: "int \<Rightarrow> string \<Rightarrow> api_mode \<Rightarrow> (store, api_exn, invoices_summary) proc" where
  "summaryInvoices now merchantId mode =
     seq (gets (\<lambda>s. invoice_groups now (filter (\<lambda>r. iv_merchant_id r = merchantId \<and> iv_mode r = mode) (invoices s)))) (\<lambda>rows.
     seq (lift_sum (statusCounts invoice_statuses rows)) (\<lambda>byStatus.
     seq (lift_sum (amountsOf rows ''outstandingAmount'')) (\<lambda>outst.
     seq (lift_sum (amountsOf rows ''overdueAmount'')) (\<lambda>overdue.
     seq (lift_sum (amountsOf rows ''paidLast30dAmount'')) (\<lambda>paid.
     ret \<lparr>is_by_status = byStatus,
          is_outstanding = \<lparr>mo_count = sumCounts rows (\<lambda>r. ag_count r ''outstandingCount''), mo_amount = outst\<rparr>,
          is_overdue = \<lparr>mo_count = byStatus Overdue, mo_amount = overdue\<rparr>,
          is_paid_last30d = \<lparr>mo_count = sumCounts rows (\<lambda>r. ag_count r ''paidLast30dCount''), mo_amount = paid\<rparr>\<rparr>)))))"

record refunds_summary =
  rs_by_status :: "refund_status \<Rightarrow> nat"
  rs_completed :: money

definition refund_groups :: "refund_row list \<Rightarrow> refund_status aggregate_row list" where
  "refund_groups rows = map (\<lambda>(c, g). \<lparr>ag_currency = currency_name c, ag_total = length g, ag_status = status_count rf_status g,
     ag_count = (\<lambda>_. 0), ag_amount = (\<lambda>_. sum_text rf_amount (filter (\<lambda>r. rf_status r = Rf_Completed) g))\<rparr>) (group_by_currency rf_currency rows)"

definition summaryRefunds :: "string \<Rightarrow> api_mode \<Rightarrow> (store, api_exn, refunds_summary) proc" where
  "summaryRefunds merchantId mode =
     seq (gets (\<lambda>s. refund_groups (filter (\<lambda>r. rf_merchant_id r = merchantId \<and> rf_mode r = mode) (refunds s)))) (\<lambda>rows.
     seq (lift_sum (statusCounts refund_statuses rows)) (\<lambda>byStatus.
     seq (lift_sum (amountsOf rows ''completedAmount'')) (\<lambda>completed.
     ret \<lparr>rs_by_status = byStatus, rs_completed = \<lparr>mo_count = byStatus Rf_Completed, mo_amount = completed\<rparr>\<rparr>)))"

text \<open>No grouping: one row.\<close>

definition summarySubscriptions :: "string \<Rightarrow> api_mode \<Rightarrow> (store, api_exn, nat \<times> (subscription_status \<Rightarrow> nat)) proc" where
  "summarySubscriptions merchantId mode =
     seq (gets (\<lambda>s. let g = filter (\<lambda>r. su_merchant_id r = merchantId \<and> su_mode r = mode) (subs s) in
       [\<lparr>ag_currency = [], ag_total = length g, ag_status = status_count su_status g, ag_count = (\<lambda>_. 0), ag_amount = (\<lambda>_. [])\<rparr>])) (\<lambda>rows.
     seq (lift_sum (statusCounts subscription_statuses rows)) (\<lambda>byStatus. ret (sumCounts rows ag_total, byStatus)))"

record stats_summary =
  st_mode :: api_mode
  st_generated_at :: int
  st_volume :: "volume_window \<times> volume_window \<times> volume_window"
  st_sessions :: sessions_summary
  st_invoices :: invoices_summary
  st_refunds :: refunds_summary
  st_subscriptions :: "nat \<times> (subscription_status \<Rightarrow> nat)"
  st_customers :: nat

definition summary :: "int \<Rightarrow> string \<Rightarrow> api_mode \<Rightarrow> (store, api_exn, stats_summary) proc" where
  "summary now merchantId mode =
     seq (summaryVolume now merchantId mode) (\<lambda>vol.
     seq (summarySessions merchantId mode) (\<lambda>sess.
     seq (summaryInvoices now merchantId mode) (\<lambda>inv.
     seq (summaryRefunds merchantId mode) (\<lambda>refs.
     seq (summarySubscriptions merchantId mode) (\<lambda>subscriptions.
     seq (gets (\<lambda>s. count_where (\<lambda>r. cu_merchant_id r = merchantId) (customers s))) (\<lambda>custs.
     ret \<lparr>st_mode = mode, st_generated_at = now, st_volume = vol, st_sessions = sess, st_invoices = inv, st_refunds = refs,
          st_subscriptions = subscriptions, st_customers = custs\<rparr>))))))"

section \<open>Lifetime value\<close>

record ltv_row =
  lv_customer_id :: string
  lv_total :: nat
  lv_count :: nat

text \<open>\<open>COALESCE\<close> over the transaction, its session and its subscription.\<close>

definition tx_customer :: "store \<Rightarrow> tx_row \<Rightarrow> string option" where
  "tx_customer s t =
     or_else (tx_customer_id t) (or_else
       (Option.bind (tx_session_id t) (\<lambda>i. Option.bind (find_row ps_id i (sessions s)) ps_customer_id))
       (Option.bind (tx_subscription_id t) (\<lambda>i. map_option su_customer_id (find_row su_id i (subs s)))))"

definition ltv_order :: "ltv_row \<Rightarrow> int \<times> string" where
  "ltv_order r = (- int (lv_total r), lv_customer_id r)"

definition ltv_table :: "string \<Rightarrow> api_mode \<Rightarrow> payment_currency \<Rightarrow> store \<Rightarrow> ltv_row list" where
  "ltv_table merchantId mode cur s =
     (let txs = filter (\<lambda>t. is_volume merchantId mode t \<and> tx_currency t = cur) (transactions s);
          ids = remdups (concat (map (\<lambda>t. case tx_customer s t of None \<Rightarrow> [] | Some c \<Rightarrow> [c]) txs)) in
      sort_key ltv_order (map (\<lambda>c. let g = filter (\<lambda>t. tx_customer s t = Some c) txs in
        \<lparr>lv_customer_id = c, lv_total = (\<Sum>t\<leftarrow>g. big_nat (tx_amount t)), lv_count = length g\<rparr>) ids))"

text \<open>The condition of the query behind a cursor.\<close>

definition behind_ltv :: "(string \<times> string) option \<Rightarrow> ltv_row \<Rightarrow> bool" where
  "behind_ltv after r \<longleftrightarrow>
     (case after of None \<Rightarrow> True
      | Some (spend, c) \<Rightarrow> lv_total r < big_nat spend \<or> lv_total r = big_nat spend \<and> c < lv_customer_id r)"

record cursor_codec =
  cc_encode :: "string \<times> string \<Rightarrow> string"
  cc_decode :: "string \<Rightarrow> (string \<times> string) option"

definition ltv :: "cursor_codec \<Rightarrow> string \<Rightarrow> api_mode \<Rightarrow> payment_currency \<Rightarrow> nat \<Rightarrow> string option \<Rightarrow> (store, api_exn, ltv_row page) proc" where
  "ltv w merchantId mode cur limit cursor =
     seq (if truthy cursor then seq (or_raise (bad_request ''invalid_request'') (cc_decode w (the cursor))) (\<lambda>c. ret (Some c)) else ret None) (\<lambda>after.
     seq (gets (\<lambda>s. take (limit + 1) (filter (behind_ltv after) (ltv_table merchantId mode cur s)))) (\<lambda>rows.
     let more = limit < length rows; pg = (if more then take limit rows else rows) in
     ret \<lparr>pg_data = pg,
          pg_next_cursor = (if more \<and> pg \<noteq> [] then Some (cc_encode w (show_nat (lv_total (last pg)), lv_customer_id (last pg))) else None),
          pg_has_more = more\<rparr>))"

section \<open>Groups add up\<close>

lemma sum_text_Nil [simp]: "sum_text f [] = ''0''"
  by (simp add: sum_text_def show_nat.simps [of 0])

lemma group_none: "\<not> list_ex (\<lambda>r. cur r = c) rs \<Longrightarrow> filter P (filter (\<lambda>r. cur r = c) rs) = []"
  by (induction rs) auto

lemma count_by_currency:
  "length (filter P (filter (\<lambda>r. cur r = USDC) rs)) + length (filter P (filter (\<lambda>r. cur r = EURC) rs)) = length (filter P rs)"
proof (induction rs)
  case (Cons r rs)
  then show ?case by (cases "cur r") auto
qed simp

lemma group_by_currency_eq:
  "group_by_currency cur rs =
     (if list_ex (\<lambda>r. cur r = USDC) rs then [(USDC, filter (\<lambda>r. cur r = USDC) rs)] else []) @
     (if list_ex (\<lambda>r. cur r = EURC) rs then [(EURC, filter (\<lambda>r. cur r = EURC) rs)] else [])"
  by (simp add: group_by_currency_def all_currencies_def)

lemma group_counts:
  assumes "\<And>c g. k (c, g) = length (filter P g)"
  shows "(\<Sum>x\<leftarrow>group_by_currency cur rs. k x) = length (filter P rs)"
  unfolding group_by_currency_eq count_by_currency [of P cur rs, symmetric]
  using group_none [of cur USDC rs P] group_none [of cur EURC rs P]
  by (simp add: assms del: filter_filter)

lemma token_amount_sum: "token_amount_ok (sum_text f rs)"
  using show_nat_digits [of "\<Sum>r\<leftarrow>rs. big_nat (f r)"] show_nat.simps [of "\<Sum>r\<leftarrow>rs. big_nat (f r)"]
  by (simp add: token_amount_ok_def sum_text_def)

lemma two_currencies:
  fixes f g :: "payment_currency \<Rightarrow> 'a"
  shows "f USDC = g USDC \<Longrightarrow> f EURC = g EURC \<Longrightarrow> f = g"
  by (rule ext) (metis (full_types) payment_currency.exhaust)

lemma group_amounts:
  assumes "\<And>c g. h (c, g) = (currency_name c, sum_text f (filter P g))"
  shows "toCurrencyAmounts (map h (group_by_currency cur rs)) = Inr (\<lambda>c. sum_text f (filter P (filter (\<lambda>r. cur r = c) rs)))"
proof -
  have *: "toCurrencyAmounts (map h (group_by_currency cur rs)) =
      Inr (\<lambda>c. if list_ex (\<lambda>r. cur r = c) rs then sum_text f (filter P (filter (\<lambda>r. cur r = c) rs)) else ''0'')"
    unfolding group_by_currency_eq toCurrencyAmounts_def zeroCurrencyAmounts_def
    by (simp add: assms token_amount_sum parse_currency.simps del: filter_filter) (intro conjI impI two_currencies; simp)
  show ?thesis unfolding *
    using group_none [of cur _ rs P] by (auto simp del: filter_filter intro!: two_currencies)
qed

section \<open>The summary is exact\<close>

lemma counts_exact:
  assumes "\<And>c g. k (h (c, g)) = length (filter P g)"
  shows "sumCounts (map h (group_by_currency cur rs)) k = length (filter P rs)"
  using group_counts [of "\<lambda>x. k (h x)" P] assms by (simp add: sumCounts_def comp_def)

lemma total_exact:
  "(\<And>c g. ag_total (h (c, g)) = length g) \<Longrightarrow> sumCounts (map h (group_by_currency cur rs)) ag_total = length rs"
  using counts_exact [of ag_total h "\<lambda>_. True"] by simp

lemma all_statuses:
  assumes "\<And>st. st \<in> set statuses" "distinct statuses"
  shows "(\<Sum>st\<leftarrow>statuses. status_count f rs st) = length rs"
proof (induction rs)
  case Nil
  then show ?case by (simp add: status_count_def sum_list_0)
next
  case (Cons r rs)
  have "(\<Sum>st\<leftarrow>statuses. status_count f (r # rs) st) = (\<Sum>st\<leftarrow>statuses. status_count f rs st + (if f r = st then 1 else 0))"
    by (intro arg_cong [where f = sum_list] map_cong refl) (simp add: status_count_def)
  also have "\<dots> = (\<Sum>st\<leftarrow>statuses. status_count f rs st) + (\<Sum>st\<leftarrow>statuses. if f r = st then 1 else 0)"
    by (rule sum_list_addf)
  also have "(\<Sum>st\<leftarrow>statuses. if f r = st then 1 else 0) = (1 :: nat)"
    using assms by (simp add: sum_list_distinct_conv_sum_set)
  finally show ?case using Cons by simp
qed

lemma status_counts_exact:
  assumes "\<And>st. st \<in> set statuses" "distinct statuses"
    and "\<And>c g. ag_total (h (c, g)) = length g" "\<And>c g. ag_status (h (c, g)) = status_count f g"
  shows "statusCounts statuses (map h (group_by_currency cur rs)) = Inr (status_count f rs)"
proof -
  have "sumCounts (map h (group_by_currency cur rs)) (\<lambda>r. ag_status r st) = status_count f rs st" for st
    using counts_exact [of "\<lambda>r. ag_status r st" h "\<lambda>r. f r = st" cur rs] by (simp add: assms(4) status_count_def)
  then show ?thesis using assms(1) all_statuses [OF assms(1,2), of f rs] total_exact [of h cur rs] assms(3) by (simp add: statusCounts_def)
qed

definition text_by_currency :: "('r \<Rightarrow> payment_currency) \<Rightarrow> ('r \<Rightarrow> string) \<Rightarrow> 'r list \<Rightarrow> payment_currency \<Rightarrow> string" where
  "text_by_currency cur f rs = (\<lambda>c. show_nat (\<Sum>r\<leftarrow>filter (\<lambda>r. cur r = c) rs. big_nat (f r)))"

lemma amounts_exact:
  assumes "\<And>c g. ag_currency (h (c, g)) = currency_name c" "\<And>c g. ag_amount (h (c, g)) col = sum_text f (filter P g)"
  shows "amountsOf (map h (group_by_currency cur rs)) col = Inr (text_by_currency cur f (filter P rs))"
  using group_amounts [of "\<lambda>x. (ag_currency (h x), ag_amount (h x) col)" f P cur rs] assms
  by (simp add: amountsOf_def comp_def text_by_currency_def sum_text_def conj_commute)

text \<open>The tables a merchant sees in a mode.\<close>

definition my_sessions :: "string \<Rightarrow> api_mode \<Rightarrow> store \<Rightarrow> session_row list" where
  "my_sessions m mode s = filter (\<lambda>r. ps_merchant_id r = m \<and> ps_mode r = mode) (sessions s)"

definition my_invoices :: "string \<Rightarrow> api_mode \<Rightarrow> store \<Rightarrow> invoice_row list" where
  "my_invoices m mode s = filter (\<lambda>r. iv_merchant_id r = m \<and> iv_mode r = mode) (invoices s)"

definition my_refunds :: "string \<Rightarrow> api_mode \<Rightarrow> store \<Rightarrow> refund_row list" where
  "my_refunds m mode s = filter (\<lambda>r. rf_merchant_id r = m \<and> rf_mode r = mode) (refunds s)"

definition my_subs :: "string \<Rightarrow> api_mode \<Rightarrow> store \<Rightarrow> sub_row list" where
  "my_subs m mode s = filter (\<lambda>r. su_merchant_id r = m \<and> su_mode r = mode) (subs s)"

lemma sessions_exact:
  "summarySessions m mode s = (Inr \<lparr>ss_total = length (my_sessions m mode s), ss_by_status = status_count ps_status (my_sessions m mode s),
     ss_confirmed = \<lparr>mo_count = status_count ps_status (my_sessions m mode s) Confirmed,
       mo_amount = text_by_currency ps_currency ps_amount (filter (\<lambda>r. ps_status r = Confirmed) (my_sessions m mode s))\<rparr>\<rparr>, s)"
proof -
  have all: "st \<in> set session_statuses" for st by (cases st) (simp_all add: session_statuses_def)
  let ?R = "my_sessions m mode s"
  have "statusCounts session_statuses (session_groups ?R) = Inr (status_count ps_status ?R)"
    unfolding session_groups_def by (rule status_counts_exact [OF all]) (simp_all add: session_statuses_def)
  moreover have "sumCounts (session_groups ?R) ag_total = length ?R" unfolding session_groups_def by (rule total_exact) simp
  moreover have "amountsOf (session_groups ?R) col = Inr (text_by_currency ps_currency ps_amount (filter (\<lambda>r. ps_status r = Confirmed) ?R))" for col
    unfolding session_groups_def by (rule amounts_exact) simp_all
  ultimately show ?thesis by (simp add: summarySessions_def my_sessions_def)
qed

lemma invoices_exact:
  "summaryInvoices now m mode s = (Inr \<lparr>is_by_status = status_count iv_status (my_invoices m mode s),
     is_outstanding = \<lparr>mo_count = length (filter outstanding (my_invoices m mode s)),
       mo_amount = text_by_currency iv_currency iv_total (filter outstanding (my_invoices m mode s))\<rparr>,
     is_overdue = \<lparr>mo_count = status_count iv_status (my_invoices m mode s) Overdue,
       mo_amount = text_by_currency iv_currency iv_total (filter (\<lambda>r. iv_status r = Overdue) (my_invoices m mode s))\<rparr>,
     is_paid_last30d = \<lparr>mo_count = length (filter (paid30 now) (my_invoices m mode s)),
       mo_amount = text_by_currency iv_currency iv_total (filter (paid30 now) (my_invoices m mode s))\<rparr>\<rparr>, s)"
proof -
  have all: "st \<in> set invoice_statuses" for st by (cases st) (simp_all add: invoice_statuses_def)
  let ?R = "my_invoices m mode s" and ?rows = "\<lambda>R. invoice_groups now R"
  have "statusCounts invoice_statuses (?rows ?R) = Inr (status_count iv_status ?R)"
    unfolding invoice_groups_def by (rule status_counts_exact [OF all]) (simp_all add: invoice_statuses_def)
  moreover have "sumCounts (?rows ?R) (\<lambda>r. ag_count r ''outstandingCount'') = length (filter outstanding ?R)"
    "sumCounts (?rows ?R) (\<lambda>r. ag_count r ''paidLast30dCount'') = length (filter (paid30 now) ?R)"
    unfolding invoice_groups_def by (rule counts_exact, simp)+
  moreover have "amountsOf (?rows ?R) ''outstandingAmount'' = Inr (text_by_currency iv_currency iv_total (filter outstanding ?R))"
    "amountsOf (?rows ?R) ''overdueAmount'' = Inr (text_by_currency iv_currency iv_total (filter (\<lambda>r. iv_status r = Overdue) ?R))"
    "amountsOf (?rows ?R) ''paidLast30dAmount'' = Inr (text_by_currency iv_currency iv_total (filter (paid30 now) ?R))"
    unfolding invoice_groups_def by (rule amounts_exact, simp, simp)+
  ultimately show ?thesis by (simp add: summaryInvoices_def my_invoices_def)
qed

lemma refunds_exact:
  "summaryRefunds m mode s = (Inr \<lparr>rs_by_status = status_count rf_status (my_refunds m mode s),
     rs_completed = \<lparr>mo_count = status_count rf_status (my_refunds m mode s) Rf_Completed,
       mo_amount = text_by_currency rf_currency rf_amount (filter (\<lambda>r. rf_status r = Rf_Completed) (my_refunds m mode s))\<rparr>\<rparr>, s)"
proof -
  have all: "st \<in> set refund_statuses" for st by (cases st) (simp_all add: refund_statuses_def)
  let ?R = "my_refunds m mode s"
  have "statusCounts refund_statuses (refund_groups ?R) = Inr (status_count rf_status ?R)"
    unfolding refund_groups_def by (rule status_counts_exact [OF all]) (simp_all add: refund_statuses_def)
  moreover have "amountsOf (refund_groups ?R) col = Inr (text_by_currency rf_currency rf_amount (filter (\<lambda>r. rf_status r = Rf_Completed) ?R))" for col
    unfolding refund_groups_def by (rule amounts_exact) simp_all
  ultimately show ?thesis by (simp add: summaryRefunds_def my_refunds_def)
qed

lemma subscriptions_exact:
  "summarySubscriptions m mode s = (Inr (length (my_subs m mode s), status_count su_status (my_subs m mode s)), s)"
proof -
  have all: "st \<in> set subscription_statuses" for st by (cases st) (simp_all add: subscription_statuses_def)
  have "distinct subscription_statuses" by (simp add: subscription_statuses_def)
  from all_statuses [OF all this, of su_status "my_subs m mode s"] all show ?thesis
    by (simp add: summarySubscriptions_def statusCounts_def sumCounts_def my_subs_def Let_def)
qed

definition in_window :: "int option \<Rightarrow> tx_row \<Rightarrow> bool" where
  "in_window from t \<longleftrightarrow> (case from of None \<Rightarrow> True | Some d \<Rightarrow> d \<le> tx_block_timestamp t)"

definition exact_window :: "int option \<Rightarrow> tx_row list \<Rightarrow> volume_window" where
  "exact_window from rows = (let w = filter (in_window from) rows in
     \<lparr>vw_count = length w, vw_gross = text_by_currency tx_currency tx_amount w, vw_fees = text_by_currency tx_currency tx_fee_amount w,
      vw_net = text_by_currency tx_currency tx_net_amount w\<rparr>)"

lemma window_exact: "volume_window_of from rows s = (Inr (exact_window from rows), s)"
proof -
  have "sumCounts (window_rows from rows) ag_total = length (filter (in_window from) rows)"
    unfolding window_rows_def in_window_def [abs_def] by (rule counts_exact) (simp add: Let_def)
  moreover have "amountsOf (window_rows from rows) ''gross'' = Inr (text_by_currency tx_currency tx_amount (filter (in_window from) rows))"
    "amountsOf (window_rows from rows) ''fees'' = Inr (text_by_currency tx_currency tx_fee_amount (filter (in_window from) rows))"
    "amountsOf (window_rows from rows) ''net'' = Inr (text_by_currency tx_currency tx_net_amount (filter (in_window from) rows))"
    unfolding window_rows_def in_window_def [abs_def] by (rule amounts_exact, simp add: Let_def, simp add: Let_def)+
  ultimately show ?thesis by (simp add: volume_window_of_def exact_window_def Let_def)
qed

text \<open>
  C18. The dashboard summary never fails and every figure in it is exact: the three volume windows, the counts by
  status (each status of the database is counted, so the check for a missing one never trips), the confirmed,
  outstanding, overdue, paid and refunded totals with their counts, and the customers are the counts and the sums per
  currency of the rows that the names say, of this merchant and, but for the customers, in this mode only.
\<close>

theorem summary_exact:
  "let txs = filter (\<lambda>t. tx_merchant_id t = m \<and> tx_mode t = mode \<and> tx_status t = Tx_Confirmed \<and> tx_kind t \<noteq> Refund_Kind) (transactions s);
       sess = filter (\<lambda>r. ps_merchant_id r = m \<and> ps_mode r = mode) (sessions s);
       invs = filter (\<lambda>r. iv_merchant_id r = m \<and> iv_mode r = mode) (invoices s);
       refs = filter (\<lambda>r. rf_merchant_id r = m \<and> rf_mode r = mode) (refunds s);
       sbs = filter (\<lambda>r. su_merchant_id r = m \<and> su_mode r = mode) (subs s);
       due = (\<lambda>r. iv_status r = Sent \<or> iv_status r = Overdue);
       paid = (\<lambda>r. iv_status r = Paid \<and> (\<exists>t. iv_paid_at r = Some t \<and> now - 30 * DAY_MS \<le> t))
   in summary now m mode s = (Inr \<lparr>st_mode = mode, st_generated_at = now,
     st_volume = (exact_window (Some (now - 7 * DAY_MS)) txs, exact_window (Some (now - 30 * DAY_MS)) txs, exact_window None txs),
     st_sessions = \<lparr>ss_total = length sess, ss_by_status = (\<lambda>st. length (filter (\<lambda>r. ps_status r = st) sess)),
       ss_confirmed = \<lparr>mo_count = length (filter (\<lambda>r. ps_status r = Confirmed) sess),
         mo_amount = text_by_currency ps_currency ps_amount (filter (\<lambda>r. ps_status r = Confirmed) sess)\<rparr>\<rparr>,
     st_invoices = \<lparr>is_by_status = (\<lambda>st. length (filter (\<lambda>r. iv_status r = st) invs)),
       is_outstanding = \<lparr>mo_count = length (filter due invs), mo_amount = text_by_currency iv_currency iv_total (filter due invs)\<rparr>,
       is_overdue = \<lparr>mo_count = length (filter (\<lambda>r. iv_status r = Overdue) invs),
         mo_amount = text_by_currency iv_currency iv_total (filter (\<lambda>r. iv_status r = Overdue) invs)\<rparr>,
       is_paid_last30d = \<lparr>mo_count = length (filter paid invs), mo_amount = text_by_currency iv_currency iv_total (filter paid invs)\<rparr>\<rparr>,
     st_refunds = \<lparr>rs_by_status = (\<lambda>st. length (filter (\<lambda>r. rf_status r = st) refs)),
       rs_completed = \<lparr>mo_count = length (filter (\<lambda>r. rf_status r = Rf_Completed) refs),
         mo_amount = text_by_currency rf_currency rf_amount (filter (\<lambda>r. rf_status r = Rf_Completed) refs)\<rparr>\<rparr>,
     st_subscriptions = (length sbs, \<lambda>st. length (filter (\<lambda>r. su_status r = st) sbs)),
     st_customers = length (filter (\<lambda>r. cu_merchant_id r = m) (customers s))\<rparr>, s)"
proof -
  have spec: "is_volume m mode = (\<lambda>t. tx_merchant_id t = m \<and> tx_mode t = mode \<and> tx_status t = Tx_Confirmed \<and> tx_kind t \<noteq> Refund_Kind)"
    "outstanding = (\<lambda>r. iv_status r = Sent \<or> iv_status r = Overdue)"
    "paid30 now = (\<lambda>r. iv_status r = Paid \<and> (\<exists>t. iv_paid_at r = Some t \<and> now - 30 * DAY_MS \<le> t))"
    by (auto simp: fun_eq_iff is_volume_def outstanding_def paid30_def split: option.split)
  have counts: "status_count f rows = (\<lambda>st. length (filter (\<lambda>r. f r = st) rows))" for f :: "'r \<Rightarrow> 'st" and rows
    by (simp add: fun_eq_iff status_count_def)
  show ?thesis
    unfolding Let_def summary_def summaryVolume_def seq_assoc
    by (simp add: window_exact sessions_exact invoices_exact refunds_exact subscriptions_exact seq_def spec counts
        count_where_def my_sessions_def my_invoices_def my_refunds_def my_subs_def del: filter_filter)
qed

section \<open>Recurring revenue is exact\<close>

lemma add_monthly_lookup:
  "map_of (add_monthly rs m) c =
     (if list_ex (\<lambda>r. su_currency r = c) rs
      then Some ((case map_of m c of None \<Rightarrow> 0 | Some n \<Rightarrow> n) + (\<Sum>r\<leftarrow>filter (\<lambda>r. su_currency r = c) rs. monthly_of r))
      else map_of m c)"
  by (induction rs arbitrary: m) (auto simp: update_conv group_none [where P = "\<lambda>_. True", simplified] split: option.splits)

lemma add_monthly_distinct: "distinct (map fst m) \<Longrightarrow> distinct (map fst (add_monthly rs m))"
  by (induction rs arbitrary: m) (simp_all add: distinct_update)

lemma collect_lookup:
  "distinct (map fst m) \<Longrightarrow> \<forall>c\<in>fst ` set m. c \<notin> set seen \<Longrightarrow>
   collect_amounts (map (\<lambda>(c, n). (currency_name c, show_nat n)) m) seen out =
     Inr (\<lambda>c. case map_of m c of None \<Rightarrow> out c | Some n \<Rightarrow> show_nat n)"
proof (induction m arbitrary: seen out)
  case (Cons x m)
  obtain c n where x: "x = (c, n)" by fastforce
  have "token_amount_ok (show_nat n)"
    using show_nat_digits [of n] show_nat.simps [of n] by (simp add: token_amount_ok_def)
  moreover have "map_of m c = None" using Cons.prems(1) by (simp add: x map_of_eq_None_iff)
  then have "(\<lambda>a. case map_of m a of None \<Rightarrow> (out(c := show_nat n)) a | Some k \<Rightarrow> show_nat k) =
      (\<lambda>a. case map_of ((c, n) # m) a of None \<Rightarrow> out a | Some k \<Rightarrow> show_nat k)"
    by (intro ext) (simp split: option.split)
  moreover have "collect_amounts (map (\<lambda>(c, n). (currency_name c, show_nat n)) m) (c # seen) (out(c := show_nat n)) =
      Inr (\<lambda>a. case map_of m a of None \<Rightarrow> (out(c := show_nat n)) a | Some k \<Rightarrow> show_nat k)"
    using Cons.prems by (intro Cons.IH) (auto simp: x)
  moreover have "c \<notin> set seen" using Cons.prems(2) by (simp add: x)
  ultimately show ?case by (simp only: x list.map prod.case collect_amounts.simps parse_currency_name option.case if_False if_True)
qed simp

lemma mrr_exact:
  "mrr m mode s = (Inr \<lparr>mr_mrr = (\<lambda>c. show_nat (\<Sum>r\<leftarrow>filter (\<lambda>r. su_currency r = c) (active_subs m mode s). monthly_of r)),
     mr_active_subscribers = length (active_subs m mode s)\<rparr>, s)"
proof -
  let ?rs = "active_subs m mode s"
  have "toCurrencyAmounts (map (\<lambda>(c, n). (currency_name c, show_nat n)) (add_monthly ?rs [])) =
      Inr (\<lambda>c. show_nat (\<Sum>r\<leftarrow>filter (\<lambda>r. su_currency r = c) ?rs. monthly_of r))"
    using collect_lookup [OF add_monthly_distinct [of "[]" ?rs], of "[]" "\<lambda>_. ''0''"]
      group_none [of su_currency _ ?rs "\<lambda>_. True"] sum_text_Nil [of "\<lambda>_. []"]
    by (auto simp: toCurrencyAmounts_def zeroCurrencyAmounts_def add_monthly_lookup sum_text_def intro!: ext)
  then show ?thesis by (simp add: mrr_def)
qed

section \<open>Pages by position in the order\<close>

text \<open>
  A table that is read in a strict order, each page behind the last row of the one before: following the pages reads the
  table once. The interface is the order; \<open>ltv_pages\<close> provides it.
\<close>

locale keyset_pages =
  fixes ord :: "'r \<Rightarrow> 'k::linorder"
    and rows :: "'s \<Rightarrow> 'r list"
  assumes strict: "sorted_wrt (\<lambda>a b. ord a < ord b) (rows s)"
begin

lemma behind_last:
  assumes "rows s = xs @ y # ys"
  shows "filter (\<lambda>r. ord y < ord r) (rows s) = ys"
proof -
  have "\<forall>x\<in>set xs. ord x < ord y" "\<forall>z\<in>set ys. ord y < ord z"
    using strict [of s] assms by (auto simp: sorted_wrt_append)
  then have "filter (\<lambda>r. ord y < ord r) xs = []" "filter (\<lambda>r. ord y < ord r) ys = ys"
    by (auto simp: filter_empty_conv filter_id_conv dest: order_less_asym)
  then show ?thesis by (simp add: assms)
qed

lemma drop_step:
  assumes "rows s = xs @ ys" "0 < n" "n < length ys"
  shows "filter (\<lambda>r. ord (last (take n ys)) < ord r) (rows s) = drop n ys"
proof -
  have "take n ys \<noteq> []" using assms by auto
  then have "rows s = (xs @ butlast (take n ys)) @ last (take n ys) # drop n ys"
    using assms(1) by (metis append.assoc append_Cons append_Nil append_butlast_last_id append_take_drop_id)
  then show ?thesis by (rule behind_last)
qed

end

lemma ltv_ids_distinct: "distinct (map lv_customer_id (ltv_table m mode cur s))"
  by (simp add: ltv_table_def Let_def distinct_map inj_on_def)

interpretation ltv_rows: keyset_pages ltv_order "\<lambda>(m, mode, cur, s). ltv_table m mode cur s"
proof unfold_locales
  fix x :: "string \<times> api_mode \<times> payment_currency \<times> store"
  obtain m mode cur s where x: "x = (m, mode, cur, s)" by (cases x) auto
  let ?t = "ltv_table m mode cur s"
  have "sorted (map ltv_order ?t)" by (simp add: ltv_table_def Let_def)
  moreover have "inj_on ltv_order (set ?t)"
    using ltv_ids_distinct [of m mode cur s] by (auto simp: distinct_map inj_on_def ltv_order_def)
  then have "distinct (map ltv_order ?t)" using ltv_ids_distinct [of m mode cur s] by (simp add: distinct_map)
  ultimately have "sorted_wrt (<) (map ltv_order ?t)" by (simp add: strict_sorted_iff)
  then show "sorted_wrt (\<lambda>a b. ltv_order a < ltv_order b) (case x of (m, mode, cur, s) \<Rightarrow> ltv_table m mode cur s)"
    by (simp add: x sorted_wrt_map)
qed

text \<open>Following the cursors, with a bound on the number of pages.\<close>

fun ltv_pages :: "nat \<Rightarrow> cursor_codec \<Rightarrow> string \<Rightarrow> api_mode \<Rightarrow> payment_currency \<Rightarrow> nat \<Rightarrow> string option \<Rightarrow> store \<Rightarrow> ltv_row list option" where
  "ltv_pages 0 w m mode cur limit c s = None"
| "ltv_pages (Suc n) w m mode cur limit c s =
     (case fst (ltv w m mode cur limit c s) of
        Inl e \<Rightarrow> None
      | Inr p \<Rightarrow> if pg_has_more p then map_option (\<lambda>rest. pg_data p @ rest) (ltv_pages n w m mode cur limit (pg_next_cursor p) s)
                else Some (pg_data p))"

definition cursors_ok :: "cursor_codec \<Rightarrow> ltv_row list \<Rightarrow> bool" where
  "cursors_ok w rows \<longleftrightarrow> (\<forall>r\<in>set rows. let x = (show_nat (lv_total r), lv_customer_id r) in
     cc_encode w x \<noteq> [] \<and> cc_decode w (cc_encode w x) = Some x)"

lemma behind_ltv_order: "behind_ltv (Some (show_nat (lv_total y), lv_customer_id y)) = (\<lambda>r. ltv_order y < ltv_order r)"
  by (rule ext) (auto simp: behind_ltv_def ltv_order_def)

lemma ltv_read:
  assumes "0 < limit" and "take (limit + 1) (filter (behind_ltv after) (ltv_table m mode cur s)) = take (limit + 1) ys"
    and "(c = None \<and> after = None) \<or> (truthy c \<and> cc_decode w (the c) = after \<and> after \<noteq> None)"
  shows "ltv w m mode cur limit c s =
    (Inr \<lparr>pg_data = take limit ys, pg_next_cursor = (if limit < length ys
        then Some (cc_encode w (show_nat (lv_total (last (take limit ys))), lv_customer_id (last (take limit ys)))) else None),
        pg_has_more = (limit < length ys)\<rparr>, s)"
proof -
  let ?pg = "if limit < length (take (limit + 1) ys) then take limit (take (limit + 1) ys) else take (limit + 1) ys"
  have more: "limit < length (take (limit + 1) ys) \<longleftrightarrow> limit < length ys" by auto
  have pg: "?pg = take limit ys" by (auto simp: min_def)
  have ne: "limit < length ys \<Longrightarrow> take limit ys \<noteq> []" using assms(1) by auto
  have first: "(if truthy c then seq (or_raise (bad_request ''invalid_request'') (cc_decode w (the c))) (\<lambda>c. ret (Some c)) else ret None) s = (Inr after, s)"
    using assms(3) by (auto simp: or_raise_def)
  have "ltv w m mode cur limit c s = (let rows = take (limit + 1) (filter (behind_ltv after) (ltv_table m mode cur s));
      more = limit < length rows; pg = (if more then take limit rows else rows) in
     (Inr \<lparr>pg_data = pg,
          pg_next_cursor = (if more \<and> pg \<noteq> [] then Some (cc_encode w (show_nat (lv_total (last pg)), lv_customer_id (last pg))) else None),
          pg_has_more = more\<rparr>, s))"
    unfolding ltv_def by (subst seq_def, subst first) (simp only: prod.case sum.case Let_def seq_gets ret_app)
  then show ?thesis unfolding assms(2) Let_def pg more using ne by simp
qed

lemma ltv_pages_from:
  assumes "ltv_table m mode cur s = xs @ ys" "0 < limit" "cursors_ok w (ltv_table m mode cur s)" "length ys < n"
    and "(xs = [] \<and> c = None) \<or> (xs \<noteq> [] \<and> c = Some (cc_encode w (show_nat (lv_total (last xs)), lv_customer_id (last xs))))"
  shows "ltv_pages n w m mode cur limit c s = Some ys"
  using assms
proof (induction n arbitrary: xs ys c)
  case (Suc n)
  let ?t = "ltv_table m mode cur s"
  have read: "ltv w m mode cur limit c s =
    (Inr \<lparr>pg_data = take limit ys, pg_next_cursor = (if limit < length ys
        then Some (cc_encode w (show_nat (lv_total (last (take limit ys))), lv_customer_id (last (take limit ys)))) else None),
        pg_has_more = limit < length ys\<rparr>, s)"
  proof -
    have rows: "take (limit + 1) (filter (behind_ltv after) ?t) = take (limit + 1) ys"
      if "(xs = [] \<and> after = None) \<or> (xs \<noteq> [] \<and> after = Some (show_nat (lv_total (last xs)), lv_customer_id (last xs)))" for after
    proof (cases "xs = []")
      case True
      with that Suc.prems(1) show ?thesis by (simp add: behind_ltv_def)
    next
      case False
      then have "?t = butlast xs @ last xs # ys" using Suc.prems(1) by simp
      from ltv_rows.behind_last [of "(m, mode, cur, s)", simplified, OF this] False that show ?thesis
        by (simp add: behind_ltv_order)
    qed
    show ?thesis
    proof (cases "xs = []")
      case True
      with Suc.prems(5) rows [of None] Suc.prems(2) show ?thesis by (intro ltv_read) simp_all
    next
      case False
      let ?x = "(show_nat (lv_total (last xs)), lv_customer_id (last xs))"
      have "last xs \<in> set ?t" using False Suc.prems(1) by simp
      with Suc.prems(3) have "cc_encode w ?x \<noteq> []" "cc_decode w (cc_encode w ?x) = Some ?x"
        unfolding cursors_ok_def by (auto simp: Let_def)
      with False Suc.prems(5) rows [of "Some ?x"] Suc.prems(2) show ?thesis by (intro ltv_read [where after = "Some ?x"]) simp_all
    qed
  qed
  show ?case
  proof (cases "limit < length ys")
    case True
    have "ltv_pages n w m mode cur limit (Some (cc_encode w (show_nat (lv_total (last (take limit ys))), lv_customer_id (last (take limit ys))))) s
        = Some (drop limit ys)"
    proof (rule Suc.IH)
      show "?t = (xs @ take limit ys) @ drop limit ys" using Suc.prems(1) by simp
      show "length (drop limit ys) < n" using Suc.prems(2,4) True by simp
      show "xs @ take limit ys = [] \<and> Some (cc_encode w (show_nat (lv_total (last (take limit ys))), lv_customer_id (last (take limit ys)))) = None \<or>
        xs @ take limit ys \<noteq> [] \<and> Some (cc_encode w (show_nat (lv_total (last (take limit ys))), lv_customer_id (last (take limit ys)))) =
          Some (cc_encode w (show_nat (lv_total (last (xs @ take limit ys))), lv_customer_id (last (xs @ take limit ys))))"
        using True Suc.prems(2) by (cases "take limit ys = []") auto
    qed (use Suc.prems in auto)
    with read True show ?thesis by simp
  next
    case False
    with read show ?thesis by simp
  qed
qed simp

text \<open>
  The pages of the lifetime-value list are exact: with a positive limit, following the cursors from the first page
  lists every paying customer once, by falling spend and then by id, and needs no more pages than there are customers.
\<close>

theorem ltv_pages_complete:
  assumes "0 < limit" and "cursors_ok w (ltv_table m mode cur s)"
  shows "ltv_pages (length (ltv_table m mode cur s) + 1) w m mode cur limit None s = Some (ltv_table m mode cur s) \<and>
    distinct (map lv_customer_id (ltv_table m mode cur s)) \<and>
    sorted_wrt (\<lambda>a b. lv_total b < lv_total a \<or> lv_total a = lv_total b \<and> lv_customer_id a < lv_customer_id b) (ltv_table m mode cur s)"
proof -
  have "sorted_wrt (\<lambda>a b. ltv_order a < ltv_order b) (ltv_table m mode cur s)"
    using ltv_rows.strict [of "(m, mode, cur, s)"] by simp
  then have "sorted_wrt (\<lambda>a b. lv_total b < lv_total a \<or> lv_total a = lv_total b \<and> lv_customer_id a < lv_customer_id b) (ltv_table m mode cur s)"
    by (rule sorted_wrt_mono_rel [rotated]) (auto simp: ltv_order_def)
  moreover have "ltv_pages (length (ltv_table m mode cur s) + 1) w m mode cur limit None s = Some (ltv_table m mode cur s)"
    by (rule ltv_pages_from [where xs = "[]"]) (use assms in auto)
  ultimately show ?thesis using ltv_ids_distinct by blast
qed

definition colon_codec :: cursor_codec where
  "colon_codec = \<lparr>cc_encode = (\<lambda>(a, c). a @ CHR '':'' # c),
     cc_decode = (\<lambda>t. Some (takeWhile (\<lambda>x. x \<noteq> CHR '':'') t, drop 1 (dropWhile (\<lambda>x. x \<noteq> CHR '':'') t)))\<rparr>"

lemma colon_codec_ok: "cursors_ok colon_codec rows"
proof -
  have "\<forall>x\<in>set (show_nat n). x \<noteq> CHR '':''" for n
    using show_nat_digits [of n] by (auto simp: list_all_iff is_digit_def)
  then have "takeWhile (\<lambda>x. x \<noteq> CHR '':'') (show_nat n @ CHR '':'' # c) = show_nat n"
    "dropWhile (\<lambda>x. x \<noteq> CHR '':'') (show_nat n @ CHR '':'' # c) = CHR '':'' # c" for n c
    by (simp_all add: takeWhile_append dropWhile_append3 dropWhile_append2 cong: if_cong)
  then show ?thesis by (simp add: cursors_ok_def colon_codec_def Let_def)
qed

definition buyer_tx :: "string \<Rightarrow> string \<Rightarrow> string \<Rightarrow> tx_row" where
  "buyer_tx i c a = \<lparr>tx_id = i, tx_merchant_id = ''m1'', tx_kind = One_Shot, tx_status = Tx_Confirmed, tx_customer_id = Some c,
     tx_session_id = None, tx_subscription_id = None, tx_subscription_charge_id = None, tx_refund_id = None, tx_amount = a,
     tx_fee_amount = ''0'', tx_net_amount = a, tx_currency = USDC, tx_payer_address = [], tx_merchant_address = [],
     tx_onchain_tx_hash = i, tx_block_number = 1, tx_block_timestamp = 0, tx_mode = Test, tx_created_at = 0\<rparr>"

definition two_buyers :: store where
  "two_buyers = empty_store\<lparr>transactions := [buyer_tx ''t1'' ''c1'' ''5'', buyer_tx ''t2'' ''c2'' ''9'']\<rparr>"

lemma two_buyers_table:
  "ltv_table ''m1'' Test USDC two_buyers =
     [\<lparr>lv_customer_id = ''c2'', lv_total = 9, lv_count = 1\<rparr>, \<lparr>lv_customer_id = ''c1'', lv_total = 5, lv_count = 1\<rparr>]"
  by (simp add: ltv_table_def two_buyers_def buyer_tx_def empty_store_def is_volume_def tx_customer_def or_else_def ltv_order_def
      big_nat_def digit_of_def Let_def)

lemma ltv_pages_complete_witness:
  "ltv_pages 3 colon_codec ''m1'' Test USDC 1 None two_buyers =
     Some [\<lparr>lv_customer_id = ''c2'', lv_total = 9, lv_count = 1\<rparr>, \<lparr>lv_customer_id = ''c1'', lv_total = 5, lv_count = 1\<rparr>]"
  using ltv_pages_complete [of 1 colon_codec "''m1''" Test USDC two_buyers] colon_codec_ok
  by (simp add: two_buyers_table numeral_3_eq_3)

end
