(* ===== verification/Admin.thy ===== *)
theory Admin
  imports Accounts Analytics
begin

text \<open>
  The operators' side of the API (\<open>apps/api/src/modules/admin\<close>): merchants' status and plan, the accounts of the
  administrators and their invites, broadcasts and the platform figures. Every change writes an audit row. The token
  digest, Privy, the registry and the mail server are parameters. Views leave out the columns the queries do not
  select; the date of an invite is the date of its row.
\<close>

section \<open>Audit\<close>

definition writeAudit :: "string \<Rightarrow> string option \<Rightarrow> string \<Rightarrow> string \<Rightarrow> string \<Rightarrow> audit_metadata \<Rightarrow> (store, api_exn, unit) proc" where
  "writeAudit actorId merchantId action targetType targetId meta =
     modify (\<lambda>s. s\<lparr>audit := audit s @ [\<lparr>au_id = None, au_merchant_id = merchantId, au_actor_id = Some actorId,
       au_category = ''admin'', au_action = action, au_target_type = targetType, au_target_id = targetId, au_metadata = meta\<rparr>]\<rparr>)"

section \<open>Merchants\<close>

record merchant_filter =
  mf_status :: "merchant_status option"
  mf_tier :: "merchant_tier option"
  mf_query :: "string option"

text \<open>\<open>{ contains: query, mode: 'insensitive' }\<close>.\<close>

fun contains :: "string \<Rightarrow> string \<Rightarrow> bool" where
  "contains q [] = (q = [])"
| "contains q (c # cs) = (starts_with (c # cs) q \<or> contains q cs)"

definition icontains :: "string \<Rightarrow> string \<Rightarrow> bool" where
  "icontains q s = contains (to_lower q) (to_lower s)"

definition merchant_selected :: "merchant_filter \<Rightarrow> merchant_row \<Rightarrow> bool" where
  "merchant_selected f m \<longleftrightarrow> (mf_status f \<noteq> None \<longrightarrow> mf_status f = Some (m_status m)) \<and>
     (mf_tier f \<noteq> None \<longrightarrow> mf_tier f = Some (m_tier m)) \<and>
     (truthy (mf_query f) \<longrightarrow> icontains (the (mf_query f)) (m_email m) \<or>
        (case m_business_name m of None \<Rightarrow> False | Some n \<Rightarrow> icontains (the (mf_query f)) n))"

record merchant_item =
  mt_id :: string
  mt_email :: string
  mt_business_name :: "string option"
  mt_tier :: merchant_tier
  mt_status :: merchant_status
  mt_default_currency :: payment_currency
  mt_country_code :: "string option"
  mt_created_at :: int
  mt_last_login_at :: "int option"

definition merchant_item_of :: "merchant_row \<Rightarrow> merchant_item" where
  "merchant_item_of m = \<lparr>mt_id = m_id m, mt_email = m_email m, mt_business_name = m_business_name m, mt_tier = m_tier m,
     mt_status = m_status m, mt_default_currency = m_default_currency m, mt_country_code = m_country_code m,
     mt_created_at = m_created_at m, mt_last_login_at = m_last_login_at m\<rparr>"

definition listMerchants :: "list_params \<Rightarrow> merchant_filter \<Rightarrow> (store, api_exn, merchant_item page) proc" where
  "listMerchants p f = gets (\<lambda>s. map_page merchant_item_of
     (list_page m_id p (newest_first m_created_at (filter (merchant_selected f) (merchants s)))))"

fun status_name :: "merchant_status \<Rightarrow> string" where
  "status_name Merchant_Active = ''active''"
| "status_name Merchant_Suspended = ''suspended''"
| "status_name Merchant_Closed = ''closed''"

datatype merchant_change = New_Status merchant_status | New_Tier merchant_tier

fun change_merchant :: "merchant_change \<Rightarrow> merchant_row \<Rightarrow> merchant_row" where
  "change_merchant (New_Status st) m = m\<lparr>m_status := st\<rparr>"
| "change_merchant (New_Tier t) m = m\<lparr>m_tier := t\<rparr>"

definition change_merchant_row :: "string \<Rightarrow> merchant_change \<Rightarrow> (store, api_exn, unit) proc" where
  "change_merchant_row i c = modify (\<lambda>s. s\<lparr>merchants := update_where (\<lambda>m. m_id m = i) (change_merchant c) (merchants s)\<rparr>)"

definition setMerchantStatus :: "string \<Rightarrow> merchant_status \<Rightarrow> string \<Rightarrow> (store, api_exn, string \<times> merchant_status) proc" where
  "setMerchantStatus merchantId nextStatus actorId =
     seq (gets (\<lambda>s. find_row m_id merchantId (merchants s))) (\<lambda>row.
     seq (or_raise not_found row) (\<lambda>merchant.
     seq (require (m_status merchant \<noteq> nextStatus) (bad_request ''invalid_state'')) (\<lambda>_.
     seq (change_merchant_row merchantId (New_Status nextStatus)) (\<lambda>_.
     seq (writeAudit actorId (Some merchantId) (''merchant.'' @ status_name nextStatus) ''Merchant'' merchantId
            (Merchant_Status_Meta (m_status merchant) nextStatus)) (\<lambda>_.
     ret (merchantId, nextStatus))))))"

definition verifyOnchainFeeForTier :: "registry_fees \<Rightarrow> nat option \<Rightarrow> (store, api_exn, nat \<times> nat) proc" where
  "verifyOnchainFeeForTier registry onchainMerchantId =
     (case onchainMerchantId of
        None \<Rightarrow> raise (conflict ''merchant_not_registered'')
      | Some oid \<Rightarrow> seq (readRegistryFee registry oid) (\<lambda>(fee, maxFee). ret (oid, fee)))"

definition setMerchantTier :: "registry_fees \<Rightarrow> string \<Rightarrow> merchant_tier \<Rightarrow> string \<Rightarrow> (store, api_exn, string \<times> merchant_tier) proc" where
  "setMerchantTier registry merchantId tier actorId =
     seq (gets (\<lambda>s. find_row m_id merchantId (merchants s))) (\<lambda>row.
     seq (or_raise not_found row) (\<lambda>merchant.
     seq (verifyOnchainFeeForTier registry (m_onchain_merchant_id merchant)) (\<lambda>(oid, fee).
     seq (change_merchant_row merchantId (New_Tier tier)) (\<lambda>_.
     seq (writeAudit actorId (Some merchantId) ''merchant.tier_changed'' ''Merchant'' merchantId
            (Merchant_Tier_Meta (m_tier merchant) tier oid fee)) (\<lambda>_.
     ret (merchantId, tier))))))"

section \<open>Administrators\<close>

definition ADMIN_INVITE_TTL_MS :: int where
  "ADMIN_INVITE_TTL_MS = 7 * 24 * 60 * 60 * 1000"

record admin_view =
  av_id :: string
  av_email :: string
  av_name :: "string option"
  av_role :: admin_role
  av_active :: bool
  av_last_login_at :: "int option"
  av_created_at :: int

definition admin_view_of :: "admin_user_row \<Rightarrow> admin_view" where
  "admin_view_of a = \<lparr>av_id = ad_id a, av_email = ad_email a, av_name = ad_name a, av_role = ad_role a, av_active = ad_active a,
     av_last_login_at = ad_last_login_at a, av_created_at = ad_created_at a\<rparr>"

definition find_admin :: "string \<Rightarrow> (store, api_exn, admin_user_row option) proc" where
  "find_admin i = gets (\<lambda>s. find_row ad_id i (admin_users s))"

definition getMe :: "string \<Rightarrow> (store, api_exn, admin_view) proc" where
  "getMe i = seq (find_admin i) (\<lambda>a. seq (or_raise not_found a) (\<lambda>r. ret (admin_view_of r)))"

record admin_item =
  al_admin :: admin_view
  al_invite_expires_at :: "int option"
  al_invite_pending :: bool
  al_invited_by :: "(string \<times> string) option"

definition listAdmins :: "(store, api_exn, admin_item list) proc" where
  "listAdmins = gets (\<lambda>s. map (\<lambda>a. \<lparr>al_admin = admin_view_of a, al_invite_expires_at = ad_invite_expires_at a,
       al_invite_pending = (ad_privy_user_id a = None),
       al_invited_by = Option.bind (ad_invited_by a) (\<lambda>i. map_option (\<lambda>b. (ad_id b, ad_email b)) (find_row ad_id i (admin_users s)))\<rparr>)
     (newest_first ad_created_at (admin_users s)))"

text \<open>The mail of a handler: the address, the subject and what the template is filled with. \<open>mail_ok\<close>: it could be sent.\<close>

definition send_mail :: "(string \<Rightarrow> bool) \<Rightarrow> email \<Rightarrow> (store, api_exn, unit) proc" where
  "send_mail mail_ok e = seq (require (mail_ok (em_to e)) (Crash ''mail'')) (\<lambda>_. modify (\<lambda>s. s\<lparr>emails := emails s @ [e]\<rparr>))"

fun role_name :: "admin_role \<Rightarrow> string" where
  "role_name Super_Admin = ''super_admin''"
| "role_name Admin = ''admin''"
| "role_name Read_Only = ''read_only''"

definition display_name :: "admin_user_row option \<Rightarrow> string \<Rightarrow> string" where
  "display_name a fallback = (case a of None \<Rightarrow> fallback | Some r \<Rightarrow> (case ad_name r of None \<Rightarrow> ad_email r | Some n \<Rightarrow> n))"

definition sendInviteEmail :: "(string \<Rightarrow> bool) \<Rightarrow> (string \<Rightarrow> string) \<Rightarrow> admin_user_row \<Rightarrow> admin_user_row option \<Rightarrow> string \<Rightarrow> (store, api_exn, unit) proc" where
  "sendInviteEmail mail_ok accept_url admin inviter token =
     send_mail mail_ok \<lparr>em_to = ad_email admin, em_subject = ''You are invited to be a Strimz admin'',
       em_about = [role_name (ad_role admin), display_name inviter ''A Strimz admin'', accept_url token]\<rparr>"

definition best_effort :: "(store, api_exn, unit) proc \<Rightarrow> (store, api_exn, unit) proc" where
  "best_effort m = catch m (\<lambda>_. ret ())"

datatype admin_patch =
  Renew_Invite string int | Accept_Invite string int | Set_Role admin_role | Set_Active bool

fun patch_admin :: "admin_patch \<Rightarrow> admin_user_row \<Rightarrow> admin_user_row" where
  "patch_admin (Renew_Invite h t) a = a\<lparr>ad_invite_token_hash := Some h, ad_invite_expires_at := Some t\<rparr>"
| "patch_admin (Accept_Invite p now) a =
     a\<lparr>ad_privy_user_id := Some p, ad_invite_token_hash := None, ad_invite_expires_at := None, ad_last_login_at := Some now\<rparr>"
| "patch_admin (Set_Role r) a = a\<lparr>ad_role := r\<rparr>"
| "patch_admin (Set_Active b) a = a\<lparr>ad_active := b\<rparr>"

text \<open>\<open>adminUser.updateMany\<close> and its count.\<close>

definition update_admins :: "(admin_user_row \<Rightarrow> bool) \<Rightarrow> admin_patch \<Rightarrow> (store, api_exn, nat) proc" where
  "update_admins P p =
     seq (gets (\<lambda>s. count_where P (admin_users s))) (\<lambda>n.
     seq (modify (\<lambda>s. s\<lparr>admin_users := update_where P (patch_admin p) (admin_users s)\<rparr>)) (\<lambda>_. ret n))"

record admin_world =
  aw_sha256 :: "string \<Rightarrow> string"
  aw_mail_ok :: "string \<Rightarrow> bool"
  aw_accept_url :: "string \<Rightarrow> string"
  aw_dashboard_url :: string
  aw_get_user :: "string \<Rightarrow> privy_user option"

definition inviteAdmin ::
  "admin_world \<Rightarrow> string \<Rightarrow> string \<Rightarrow> int \<Rightarrow> string \<Rightarrow> string option \<Rightarrow> admin_role \<Rightarrow> string \<Rightarrow> (store, api_exn, admin_view) proc" where
  "inviteAdmin w i token now email name role invitedById =
     seq (gets (\<lambda>s. find_row ad_email (to_lower email) (admin_users s))) (\<lambda>existing.
     seq (require (existing = None) (bad_request ''already_exists'')) (\<lambda>_.
     seq (find_admin invitedById) (\<lambda>inviter.
     let admin = \<lparr>ad_id = i, ad_privy_user_id = None, ad_email = to_lower email, ad_role = role, ad_active = True, ad_name = name,
           ad_invited_by = Some invitedById, ad_invite_token_hash = Some (aw_sha256 w token),
           ad_invite_expires_at = Some (now + ADMIN_INVITE_TTL_MS), ad_last_login_at = None, ad_created_at = now\<rparr> in
     seq (modify (\<lambda>s. s\<lparr>admin_users := admin_users s @ [admin]\<rparr>)) (\<lambda>_.
     seq (writeAudit invitedById None ''admin.invited'' ''AdminUser'' i (Admin_Invite_Meta (to_lower email) role)) (\<lambda>_.
     seq (best_effort (sendInviteEmail (aw_mail_ok w) (aw_accept_url w) admin inviter token)) (\<lambda>_.
     ret (admin_view_of admin)))))))"

definition resendInvite :: "admin_world \<Rightarrow> string \<Rightarrow> int \<Rightarrow> string \<Rightarrow> string \<Rightarrow> (store, api_exn, admin_view) proc" where
  "resendInvite w token now adminId actorId =
     seq (find_admin adminId) (\<lambda>row.
     seq (or_raise not_found row) (\<lambda>target.
     seq (require (ad_privy_user_id target = None) (bad_request ''invalid_state'')) (\<lambda>_.
     seq (require (ad_active target) (bad_request ''invalid_state'')) (\<lambda>_.
     seq (find_admin actorId) (\<lambda>inviter.
     seq (update_admins (\<lambda>a. ad_id a = ad_id target \<and> ad_privy_user_id a = None \<and> ad_active a)
            (Renew_Invite (aw_sha256 w token) (now + ADMIN_INVITE_TTL_MS))) (\<lambda>count.
     seq (require (count = 1) (bad_request ''invalid_state'')) (\<lambda>_.
     seq (find_admin (ad_id target)) (\<lambda>row'.
     seq (or_raise p2025 row') (\<lambda>admin.
     seq (writeAudit actorId None ''admin.invite_resent'' ''AdminUser'' (ad_id admin) (Admin_Invite_Meta (ad_email admin) (ad_role admin))) (\<lambda>_.
     seq (catch (sendInviteEmail (aw_mail_ok w) (aw_accept_url w) admin inviter token)
            (\<lambda>_. raise (Http 503 ''invite_email_failed'' No_Details))) (\<lambda>_.
     ret (admin_view_of admin))))))))))))"

definition invalid_invite :: api_exn where
  "invalid_invite = bad_request ''invite_invalid''"

definition invite_open :: "int \<Rightarrow> admin_user_row \<Rightarrow> bool" where
  "invite_open now a \<longleftrightarrow> ad_privy_user_id a = None \<and> ad_active a \<and>
     (case ad_invite_expires_at a of None \<Rightarrow> False | Some t \<Rightarrow> now < t)"

text \<open>
  Acceptance checks first, with a call to Privy in between; the transaction repeats the condition in its \<open>where\<close>. The
  Privy id is unique.
\<close>

definition accept_check :: "admin_world \<Rightarrow> string \<Rightarrow> string \<Rightarrow> int \<Rightarrow> (store, api_exn, string \<times> string) proc" where
  "accept_check w token privyUserId now =
     seq (gets (\<lambda>s. find_row ad_invite_token_hash (Some (aw_sha256 w token)) (admin_users s))) (\<lambda>row.
     seq (or_raise invalid_invite row) (\<lambda>invite.
     seq (require (invite_open now invite) invalid_invite) (\<lambda>_.
     seq (gets (\<lambda>s. find_row ad_privy_user_id (Some privyUserId) (admin_users s))) (\<lambda>alreadyAdmin.
     seq (require (alreadyAdmin = None) (bad_request ''already_admin'')) (\<lambda>_.
     seq (or_raise (Crash ''privy'') (aw_get_user w privyUserId)) (\<lambda>user.
     seq (require (primaryEmail user = Some (ad_email invite)) (forbidden ''invite_email_mismatch'')) (\<lambda>_.
     ret (ad_id invite, ad_email invite))))))))"

definition accept_where :: "string \<Rightarrow> string \<Rightarrow> string \<Rightarrow> int \<Rightarrow> admin_user_row \<Rightarrow> bool" where
  "accept_where i email tokenHash now a \<longleftrightarrow>
     ad_id a = i \<and> ad_email a = email \<and> ad_invite_token_hash a = Some tokenHash \<and> invite_open now a"

definition accept_commit :: "admin_world \<Rightarrow> string \<Rightarrow> string \<Rightarrow> int \<Rightarrow> string \<times> string \<Rightarrow> (store, api_exn, admin_view) proc" where
  "accept_commit w token privyUserId now invite =
     (let P = accept_where (fst invite) (snd invite) (aw_sha256 w token) now in
      in_tx (
        seq (gets (\<lambda>s. list_ex P (admin_users s) \<and> find_row ad_privy_user_id (Some privyUserId) (admin_users s) \<noteq> None)) (\<lambda>taken.
        seq (require (\<not> taken) (Crash ''P2002'')) (\<lambda>_.
        seq (update_admins P (Accept_Invite privyUserId now)) (\<lambda>count.
        seq (require (count = 1) invalid_invite) (\<lambda>_.
        seq (writeAudit (fst invite) None ''admin.invite_accepted'' ''AdminUser'' (fst invite) (Invite_Accepted_Meta privyUserId)) (\<lambda>_.
        seq (find_admin (fst invite)) (\<lambda>row.
        seq (or_raise p2025 row) (\<lambda>a. ret (admin_view_of a))))))))))"

definition acceptInvite :: "admin_world \<Rightarrow> string \<Rightarrow> string \<Rightarrow> int \<Rightarrow> (store, api_exn, admin_view) proc" where
  "acceptInvite w token privyUserId now = seq (accept_check w token privyUserId now) (accept_commit w token privyUserId now)"

definition update_admin :: "string \<Rightarrow> admin_patch \<Rightarrow> (store, api_exn, unit) proc" where
  "update_admin i p = modify (\<lambda>s. s\<lparr>admin_users := update_where (\<lambda>a. ad_id a = i) (patch_admin p) (admin_users s)\<rparr>)"

definition setAdminRole :: "admin_world \<Rightarrow> string \<Rightarrow> admin_role \<Rightarrow> string \<Rightarrow> (store, api_exn, string \<times> string \<times> admin_role) proc" where
  "setAdminRole w adminId role actorId =
     seq (require (adminId \<noteq> actorId) (bad_request ''cannot_modify_self'')) (\<lambda>_.
     seq (find_admin adminId) (\<lambda>row.
     seq (or_raise not_found row) (\<lambda>previous.
     seq (require (ad_role previous \<noteq> role) (bad_request ''invalid_state'')) (\<lambda>_.
     seq (find_admin actorId) (\<lambda>actor.
     seq (update_admin adminId (Set_Role role)) (\<lambda>_.
     seq (writeAudit actorId None ''admin.role_changed'' ''AdminUser'' adminId (Admin_Role_Meta (ad_role previous) role)) (\<lambda>_.
     seq (best_effort (send_mail (aw_mail_ok w) \<lparr>em_to = ad_email previous, em_subject = ''Your Strimz admin role was updated'',
            em_about = [role_name (ad_role previous), role_name role, display_name actor ''A Strimz super admin'']\<rparr>)) (\<lambda>_.
     ret (adminId, ad_email previous, role)))))))))"

definition setAdminStatus :: "admin_world \<Rightarrow> string \<Rightarrow> bool \<Rightarrow> string \<Rightarrow> (store, api_exn, string \<times> string \<times> bool) proc" where
  "setAdminStatus w adminId active actorId =
     seq (require (adminId \<noteq> actorId) (bad_request ''cannot_modify_self'')) (\<lambda>_.
     seq (find_admin adminId) (\<lambda>row.
     seq (or_raise not_found row) (\<lambda>previous.
     seq (require (ad_active previous \<noteq> active) (bad_request ''invalid_state'')) (\<lambda>_.
     seq (find_admin actorId) (\<lambda>actor.
     seq (update_admin adminId (Set_Active active)) (\<lambda>_.
     seq (writeAudit actorId None (''admin.'' @ (if active then ''active'' else ''suspended'')) ''AdminUser'' adminId
            (Admin_Status_Meta (ad_active previous) active)) (\<lambda>_.
     seq (best_effort (send_mail (aw_mail_ok w) \<lparr>em_to = ad_email previous,
            em_subject = (if active then ''Your Strimz admin access has been restored'' else ''Your Strimz admin access has been paused''),
            em_about = [display_name actor ''A Strimz super admin'']\<rparr>)) (\<lambda>_.
     ret (adminId, ad_email previous, active)))))))))"

section \<open>Broadcasts\<close>

record broadcast_input =
  bi_to_all :: bool
  bi_merchant_id :: "string option"
  bi_title :: string
  bi_body :: string

record broadcast_wire =
  bw_id :: string
  bw_title :: string
  bw_body :: string
  bw_to_all :: bool
  bw_merchant_id :: "string option"
  bw_merchant_email :: "string option"
  bw_sender_id :: string
  bw_sender_email :: "string option"
  bw_emailed_at :: "int option"
  bw_created_at :: int

definition serialiseBroadcast :: "store \<Rightarrow> broadcast_row \<Rightarrow> broadcast_wire" where
  "serialiseBroadcast s r = \<lparr>bw_id = bc_id r, bw_title = bc_title r, bw_body = bc_body r, bw_to_all = bc_to_all r,
     bw_merchant_id = bc_merchant_id r,
     bw_merchant_email = Option.bind (bc_merchant_id r) (\<lambda>i. map_option m_email (find_row m_id i (merchants s))),
     bw_sender_id = bc_sender_id r, bw_sender_email = map_option ad_email (find_row ad_id (bc_sender_id r) (admin_users s)),
     bw_emailed_at = bc_emailed_at r, bw_created_at = bc_created_at r\<rparr>"

text \<open>One recipient: \<open>True\<close> when the mail failed.\<close>

definition mail_broadcast :: "(string \<Rightarrow> bool) \<Rightarrow> string \<Rightarrow> broadcast_input \<Rightarrow> admin_user_row \<Rightarrow> merchant_row \<Rightarrow> (store, api_exn, bool) proc" where
  "mail_broadcast mail_ok dashboard_url inp sender r =
     catch (seq (send_mail mail_ok \<lparr>em_to = m_email r, em_subject = bi_title inp,
              em_about = [case m_business_name r of None \<Rightarrow> [] | Some n \<Rightarrow> n, bi_body inp, display_name (Some sender) [], ad_email sender, dashboard_url]\<rparr>)
            (\<lambda>_. ret False)) (\<lambda>_. ret True)"

definition broadcast_target :: "broadcast_input \<Rightarrow> (store, api_exn, merchant_row option) proc" where
  "broadcast_target inp =
     (if bi_to_all inp then ret None
      else seq (require (truthy (bi_merchant_id inp)) (bad_request ''invalid_request'')) (\<lambda>_.
           seq (gets (\<lambda>s. find_row m_id (the (bi_merchant_id inp)) (merchants s))) (\<lambda>row.
           seq (or_raise (bad_request ''invalid_request'') row) (\<lambda>m. ret (Some m)))))"

definition createBroadcast ::
  "(string \<Rightarrow> bool) \<Rightarrow> string \<Rightarrow> string \<Rightarrow> int \<Rightarrow> broadcast_input \<Rightarrow> string \<Rightarrow> (store, api_exn, broadcast_wire) proc" where
  "createBroadcast mail_ok dashboard_url i now inp senderId =
     seq (find_admin senderId) (\<lambda>s0.
     seq (or_raise not_found s0) (\<lambda>sender.
     seq (broadcast_target inp) (\<lambda>target.
     let row = \<lparr>bc_id = i, bc_sender_id = senderId, bc_to_all = bi_to_all inp, bc_merchant_id = map_option m_id target,
           bc_title = bi_title inp, bc_body = bi_body inp, bc_emailed_at = None, bc_created_at = now\<rparr> in
     seq (modify (\<lambda>s. s\<lparr>broadcasts := broadcasts s @ [row]\<rparr>)) (\<lambda>_.
     seq (gets (\<lambda>s. case target of Some m \<Rightarrow> [m] | None \<Rightarrow> filter (\<lambda>m. m_status m = Merchant_Active) (merchants s))) (\<lambda>recipients.
     seq (for_each (mail_broadcast mail_ok dashboard_url inp sender) recipients) (\<lambda>failed.
     seq (modify (\<lambda>s. s\<lparr>broadcasts := update_where (\<lambda>b. bc_id b = i) (\<lambda>b. b\<lparr>bc_emailed_at := Some now\<rparr>) (broadcasts s)\<rparr>)) (\<lambda>_.
     seq (writeAudit senderId None ''admin.broadcast.create'' ''AdminBroadcast'' i
            (Broadcast_Meta (bi_to_all inp) (bi_merchant_id inp) (length recipients) (length (filter id failed)))) (\<lambda>_.
     gets (\<lambda>s. serialiseBroadcast s row)))))))))"

definition listBroadcasts :: "bool option \<Rightarrow> int option \<Rightarrow> (store, api_exn, broadcast_wire list) proc" where
  "listBroadcasts to_all limit = gets (\<lambda>s. map (serialiseBroadcast s)
     (take (nat (min (max (set_or limit 50) 1) 100))
       (newest_first bc_created_at (filter (\<lambda>b. to_all = None \<or> to_all = Some (bc_to_all b)) (broadcasts s)))))"

section \<open>Platform figures\<close>

definition confirmed_in :: "api_mode \<Rightarrow> tx_row \<Rightarrow> bool" where
  "confirmed_in mode t \<longleftrightarrow> tx_status t = Tx_Confirmed \<and> tx_mode t = mode"

definition currency_sums :: "(tx_row \<Rightarrow> string) \<Rightarrow> (tx_row \<Rightarrow> bool) \<Rightarrow> tx_row list \<Rightarrow> (store, api_exn, payment_currency \<Rightarrow> string) proc" where
  "currency_sums f P rows =
     lift_sum (toCurrencyAmounts (map (\<lambda>(c, g). (currency_name c, sum_text f (filter P g))) (group_by_currency tx_currency rows)))"

record admin_overview =
  ao_mode :: api_mode
  ao_by_status :: "(merchant_status \<times> nat) list"
  ao_total :: nat
  ao_last30d_signups :: nat
  ao_lifetime :: "payment_currency \<Rightarrow> string"
  ao_fees :: "payment_currency \<Rightarrow> string"
  ao_last30d :: "payment_currency \<Rightarrow> string"
  ao_confirmed_sessions :: nat
  ao_active_subs :: nat
  ao_mrr :: "payment_currency \<Rightarrow> string"

text \<open>\<open>groupBy({ by: ['status'] })\<close>: only the statuses that occur.\<close>

definition merchants_by_status :: "store \<Rightarrow> (merchant_status \<times> nat) list" where
  "merchants_by_status s = map (\<lambda>st. (st, status_count m_status (merchants s) st))
     (filter (\<lambda>st. list_ex (\<lambda>m. m_status m = st) (merchants s)) [Merchant_Active, Merchant_Suspended, Merchant_Closed])"

definition getOverview :: "int \<Rightarrow> api_mode \<Rightarrow> (store, api_exn, admin_overview) proc" where
  "getOverview now mode =
     seq (gets (\<lambda>s. filter (confirmed_in mode) (transactions s))) (\<lambda>txs.
     seq (gets (\<lambda>s. filter (\<lambda>r. su_status r = Sub_Active \<and> su_mode r = mode) (subs s))) (\<lambda>active.
     seq (currency_sums tx_amount (\<lambda>_. True) txs) (\<lambda>lifetime.
     seq (currency_sums tx_fee_amount (\<lambda>_. True) txs) (\<lambda>fees.
     seq (currency_sums tx_amount (\<lambda>t. now - 30 * DAY_MS \<le> tx_block_timestamp t) txs) (\<lambda>last30d.
     seq (lift_sum (toCurrencyAmounts (map (\<lambda>(c, n). (currency_name c, show_nat n)) (add_monthly active [])))) (\<lambda>monthly.
     gets (\<lambda>s. \<lparr>ao_mode = mode, ao_by_status = merchants_by_status s, ao_total = (\<Sum>(st, n)\<leftarrow>merchants_by_status s. n),
       ao_last30d_signups = count_where (\<lambda>m. now - 30 * DAY_MS \<le> m_created_at m) (merchants s), ao_lifetime = lifetime,
       ao_fees = fees, ao_last30d = last30d,
       ao_confirmed_sessions = count_where (\<lambda>r. ps_status r = Confirmed \<and> ps_mode r = mode) (sessions s),
       ao_active_subs = length active, ao_mrr = monthly\<rparr>)))))))"

record merchant_stats =
  ms_confirmed_payments :: nat
  ms_active_subscriptions :: nat
  ms_lifetime :: "payment_currency \<Rightarrow> string"
  ms_last30d :: "payment_currency \<Rightarrow> string"

record merchant_detail =
  md_item :: merchant_item
  md_payout_address :: "string option"
  md_website_url :: "string option"
  md_logo_url :: "string option"
  md_onchain_merchant_id :: "nat option"
  md_stats :: merchant_stats

definition getMerchant :: "int \<Rightarrow> string \<Rightarrow> api_mode \<Rightarrow> (store, api_exn, merchant_detail) proc" where
  "getMerchant now merchantId mode =
     seq (gets (\<lambda>s. find_row m_id merchantId (merchants s))) (\<lambda>row.
     seq (or_raise not_found row) (\<lambda>m.
     seq (gets (\<lambda>s. filter (\<lambda>t. tx_merchant_id t = merchantId \<and> confirmed_in mode t) (transactions s))) (\<lambda>txs.
     seq (currency_sums tx_amount (\<lambda>_. True) txs) (\<lambda>lifetime.
     seq (currency_sums tx_amount (\<lambda>t. now - 30 * DAY_MS \<le> tx_block_timestamp t) txs) (\<lambda>last30d.
     gets (\<lambda>s. \<lparr>md_item = merchant_item_of m, md_payout_address = m_payout_address m, md_website_url = m_website_url m,
       md_logo_url = m_logo_url m, md_onchain_merchant_id = m_onchain_merchant_id m,
       md_stats = \<lparr>ms_confirmed_payments = count_where (\<lambda>r. ps_merchant_id r = merchantId \<and> ps_status r = Confirmed \<and> ps_mode r = mode) (sessions s),
         ms_active_subscriptions = count_where (\<lambda>r. su_merchant_id r = merchantId \<and> su_status r = Sub_Active \<and> su_mode r = mode) (subs s),
         ms_lifetime = lifetime, ms_last30d = last30d\<rparr>\<rparr>))))))"

record admin_volume_day =
  ad_day :: int
  ad_currency :: payment_currency
  ad_volume :: string
  ad_fees :: string
  ad_count :: nat

definition getVolumeSeries :: "int \<Rightarrow> int option \<Rightarrow> int option \<Rightarrow> api_mode \<Rightarrow> (store, api_exn, (int \<times> int) \<times> admin_volume_day list) proc" where
  "getVolumeSeries now qfrom qto mode =
     (let from = set_or qfrom (now - 90 * DAY_MS); to = set_or qto now in
      seq (gets (\<lambda>s. filter (\<lambda>t. confirmed_in mode t \<and> from \<le> tx_block_timestamp t \<and> tx_block_timestamp t \<le> to) (transactions s))) (\<lambda>rows.
      ret ((from, to), concat (map (\<lambda>d. map (\<lambda>(c, g). \<lparr>ad_day = d, ad_currency = c, ad_volume = sum_text tx_amount g,
          ad_fees = sum_text tx_fee_amount g, ad_count = length g\<rparr>)
          (group_by_currency tx_currency (filter (\<lambda>t. day_of (tx_block_timestamp t) = d) rows)))
        (sort (remdups (map (\<lambda>t. day_of (tx_block_timestamp t)) rows)))))))"

definition getSignupSeries :: "int \<Rightarrow> int option \<Rightarrow> int option \<Rightarrow> (store, api_exn, (int \<times> int) \<times> (int \<times> nat) list) proc" where
  "getSignupSeries now qfrom qto =
     (let from = set_or qfrom (now - 90 * DAY_MS); to = set_or qto now in
      seq (gets (\<lambda>s. map (\<lambda>m. day_of (m_created_at m)) (filter (\<lambda>m. from \<le> m_created_at m \<and> m_created_at m \<le> to) (merchants s)))) (\<lambda>days.
      ret ((from, to), map (\<lambda>d. (d, count_list days d)) (sort (remdups days)))))"

record top_merchant =
  tm_merchant_id :: string
  tm_business_name :: "string option"
  tm_email :: string
  tm_volume :: nat
  tm_count :: nat

definition top_merchants :: "payment_currency \<Rightarrow> api_mode \<Rightarrow> nat \<Rightarrow> (store, api_exn, top_merchant list) proc" where
  "top_merchants cur mode limit = gets (\<lambda>s.
     let mine = (\<lambda>m. filter (\<lambda>t. tx_merchant_id t = m_id m \<and> confirmed_in mode t \<and> tx_currency t = cur) (transactions s)) in
     take (min limit 50) (sort_key (\<lambda>t. (- int (tm_volume t), tm_merchant_id t))
       (map (\<lambda>m. \<lparr>tm_merchant_id = m_id m, tm_business_name = m_business_name m, tm_email = m_email m,
           tm_volume = (\<Sum>t\<leftarrow>mine m. big_nat (tx_amount t)), tm_count = length (mine m)\<rparr>)
         (filter (\<lambda>m. mine m \<noteq> []) (merchants s)))))"

record admin_health =
  ah_deliveries :: "(delivery_status \<times> nat) list"
  ah_at_risk :: nat
  ah_lapsed :: nat

text \<open>The cursors of the indexer are not part of the store.\<close>

definition getHealth :: "int \<Rightarrow> (store, api_exn, admin_health) proc" where
  "getHealth now = gets (\<lambda>s.
     let recent = filter (\<lambda>d. now - 3600000 \<le> dl_created_at d) (deliveries s) in
     \<lparr>ah_deliveries = map (\<lambda>st. (st, status_count dl_status recent st))
        (filter (\<lambda>st. list_ex (\<lambda>d. dl_status d = st) recent) [Dl_Pending, Dl_Delivered, Dl_Retrying, Dl_Permanently_Failed]),
      ah_at_risk = count_where (\<lambda>r. su_status r = At_Risk) (subs s),
      ah_lapsed = count_where (\<lambda>r. su_status r = Lapsed \<and> now - 7 * DAY_MS \<le> su_updated_at r) (subs s)\<rparr>)"

section \<open>The routes\<close>

text \<open>
  The write routes of \<open>AdminController\<close> with the roles their decorators ask for; the identifiers and tokens the
  handlers draw are part of the request.
\<close>

datatype admin_request =
    Change_Status string merchant_status
  | Change_Tier string merchant_tier
  | Invite_Admin string string string "string option" admin_role
  | Resend_Invite string string
  | Set_Admin_Role string admin_role
  | Set_Admin_Status string bool
  | Send_Broadcast string broadcast_input

fun required_roles :: "admin_request \<Rightarrow> admin_role list" where
  "required_roles (Change_Status _ _) = [Super_Admin, Admin]"
| "required_roles (Change_Tier _ _) = [Super_Admin, Admin]"
| "required_roles (Send_Broadcast _ _) = [Super_Admin, Admin]"
| "required_roles _ = [Super_Admin]"

definition admin_route :: "admin_role list \<Rightarrow> route" where
  "admin_route roles = \<lparr>rt_public = False, rt_session_only = False, rt_scopes = None, rt_admin_roles = Some roles\<rparr>"

definition answered :: "(store, api_exn, 'a) proc \<Rightarrow> (store, api_exn, unit) proc" where
  "answered m = seq m (\<lambda>_. ret ())"

fun handle_admin :: "admin_world \<Rightarrow> registry_fees \<Rightarrow> int \<Rightarrow> string \<Rightarrow> admin_request \<Rightarrow> (store, api_exn, unit) proc" where
  "handle_admin w registry now actor (Change_Status i st) = answered (setMerchantStatus i st actor)"
| "handle_admin w registry now actor (Change_Tier i t) = answered (setMerchantTier registry i t actor)"
| "handle_admin w registry now actor (Invite_Admin i token email name role) = answered (inviteAdmin w i token now email name role actor)"
| "handle_admin w registry now actor (Resend_Invite i token) = answered (resendInvite w token now i actor)"
| "handle_admin w registry now actor (Set_Admin_Role i role) = answered (setAdminRole w i role actor)"
| "handle_admin w registry now actor (Set_Admin_Status i active) = answered (setAdminStatus w i active actor)"
| "handle_admin w registry now actor (Send_Broadcast i inp) = answered (createBroadcast (aw_mail_ok w) (aw_dashboard_url w) i now inp actor)"

definition admin_call ::
  "admin_world \<Rightarrow> registry_fees \<Rightarrow> (string \<Rightarrow> string option) \<Rightarrow> int \<Rightarrow> string option \<Rightarrow> admin_request \<Rightarrow> (store, api_exn, unit) proc" where
  "admin_call w registry verify now auth req =
     seq (AdminAuthGuard verify (admin_route (required_roles req)) now auth) (\<lambda>c.
     case c of None \<Rightarrow> ret () | Some a \<Rightarrow> handle_admin w registry now (dc_admin_id a) req)"

definition accept_call :: "admin_world \<Rightarrow> (string \<Rightarrow> string option) \<Rightarrow> int \<Rightarrow> string option \<Rightarrow> string \<Rightarrow> (store, api_exn, unit) proc" where
  "accept_call w verify now auth token =
     seq (PrivySessionGuard verify auth) (\<lambda>privyUserId. answered (acceptInvite w token privyUserId now))"

section \<open>There is always a super administrator\<close>

definition acting :: "string \<Rightarrow> store \<Rightarrow> bool" where
  "acting i s \<longleftrightarrow> (\<exists>a\<in>set (admin_users s). ad_id a = i \<and> ad_role a = Super_Admin \<and> ad_active a \<and> ad_privy_user_id a \<noteq> None)"

lemma acting_cong: "admin_users s' = admin_users s \<Longrightarrow> acting i s' = acting i s"
  by (simp add: acting_def)

lemma acting_append: "acting i s \<Longrightarrow> acting i (s\<lparr>admin_users := admin_users s @ [a]\<rparr>)"
  by (auto simp: acting_def)

lemma keeps_acting [keeps_intros]:
  "keeps (acting i) (writeAudit a m x t j d)" "keeps (acting i) (send_mail ok e)" "keeps (acting i) (find_admin j)"
  unfolding writeAudit_def send_mail_def find_admin_def by (auto intro!: keeps_intros simp: acting_def)

lemma keeps_acting_best_effort [keeps_intros]: "keeps (acting i) m \<Longrightarrow> keeps (acting i) (best_effort m)"
  unfolding best_effort_def by (intro keeps_intros)

lemma keeps_acting_invite_mail [keeps_intros]: "keeps (acting i) (sendInviteEmail ok u a b t)"
  unfolding sendInviteEmail_def by (intro keeps_intros)

lemma acting_update_where:
  "acting i s \<Longrightarrow> (\<And>a. ad_id a = i \<Longrightarrow> ad_privy_user_id a \<noteq> None \<Longrightarrow> \<not> P a) \<Longrightarrow>
   acting i (s\<lparr>admin_users := update_where P f (admin_users s)\<rparr>)"
  unfolding acting_def by (fastforce simp: set_update_where)

lemma keeps_acting_update: "j \<noteq> i \<Longrightarrow> keeps (acting i) (update_admin j p)"
  unfolding update_admin_def by (intro keeps_intros acting_update_where) auto

lemma keeps_acting_updates: "(\<And>a. P a \<Longrightarrow> ad_privy_user_id a = None) \<Longrightarrow> keeps (acting i) (update_admins P p)"
  unfolding update_admins_def by (intro keeps_intros acting_update_where) auto

lemma keeps_checked: "(c \<Longrightarrow> keeps I m) \<Longrightarrow> keeps I (seq (require c e) (\<lambda>_. m))"
  by (cases c) (auto simp: keeps_def seq_def require_def)

lemma keeps_acting_answered [keeps_intros]: "keeps I m \<Longrightarrow> keeps I (answered m)"
  unfolding answered_def by (intro keeps_intros)

lemma keeps_acting_merchants [keeps_intros]: "keeps (acting i) (change_merchant_row j c)"
  unfolding change_merchant_row_def by (intro keeps_intros) (simp add: acting_def)

lemma keeps_acting_or_raise [keeps_intros]: "keeps (acting i) (or_raise e x)"
  unfolding or_raise_def by (intro keeps_intros)

lemma keeps_acting_registry [keeps_intros]: "keeps (acting i) (verifyOnchainFeeForTier g x)"
  unfolding verifyOnchainFeeForTier_def readRegistryFee_def
  by (auto intro!: keeps_intros split: option.splits prod.splits sum.splits)

lemma merchant_handlers_keep_acting:
  "keeps (acting i) (setMerchantStatus j st a)" "keeps (acting i) (setMerchantTier g j t a)"
  unfolding setMerchantStatus_def setMerchantTier_def by (auto intro!: keeps_intros split: prod.splits)

lemma invite_handlers_keep_acting:
  "keeps (acting i) (inviteAdmin w j token now email name role a)" "keeps (acting i) (resendInvite w token now j a)"
  "keeps (acting i) (acceptInvite w token p now)"
  unfolding inviteAdmin_def resendInvite_def acceptInvite_def accept_check_def accept_commit_def Let_def
  by (auto intro!: keeps_intros keeps_acting_updates acting_append simp: accept_where_def invite_open_def)

lemma keeps_acting_target [keeps_intros]: "keeps (acting i) (broadcast_target inp)"
  unfolding broadcast_target_def by (intro keeps_intros)

lemma keeps_acting_mail_one [keeps_intros]: "keeps (acting i) (mail_broadcast ok u inp a r)"
  unfolding mail_broadcast_def by (intro keeps_intros)

lemma broadcast_keeps_acting: "keeps (acting i) (createBroadcast ok u j now inp a)"
  unfolding createBroadcast_def Let_def by (intro keeps_intros) (simp_all add: acting_def)

lemma admin_changes_keep_actor: "keeps (acting i) (setAdminRole w j r i)" "keeps (acting i) (setAdminStatus w j b i)"
  unfolding setAdminRole_def setAdminStatus_def
  by (intro keeps_checked keeps_intros keeps_acting_update, assumption)+

lemma acting_stamped:
  assumes "acting i s"
  shows "acting i (s\<lparr>admin_users := update_where P (\<lambda>r. r\<lparr>ad_last_login_at := t\<rparr>) (admin_users s)\<rparr>)"
proof -
  obtain a where "a \<in> set (admin_users s)" and a: "ad_id a = i" "ad_role a = Super_Admin" "ad_active a" "ad_privy_user_id a \<noteq> None"
    using assms by (auto simp: acting_def)
  let ?b = "if P a then a\<lparr>ad_last_login_at := t\<rparr> else a"
  have "?b \<in> set (update_where P (\<lambda>r. r\<lparr>ad_last_login_at := t\<rparr>) (admin_users s))"
    using \<open>a \<in> set (admin_users s)\<close> by (auto simp: set_update_where)
  then show ?thesis unfolding acting_def by (intro bexI [of _ ?b]) (use a in simp_all)
qed

lemma guard_keeps_acting: "keeps (acting i) (AdminAuthGuard verify rt now auth)"
  unfolding AdminAuthGuard_def bearer_token_def verifyAccessToken_def
  by (intro keeps_intros acting_stamped)

lemma session_guard_keeps_acting: "keeps (acting i) (PrivySessionGuard verify auth)"
  unfolding PrivySessionGuard_def bearer_token_def verifyAccessToken_def by (intro keeps_intros)

lemma guarded_super_admin_acts:
  assumes "AdminAuthGuard verify (admin_route [Super_Admin]) now auth s = (Inr (Some c), s')"
  shows "acting (dc_admin_id c) s'"
proof -
  obtain a p where "find_row ad_privy_user_id (Some p) (admin_users s) = Some a" "ad_active a" "ad_role a = Super_Admin"
    and c: "dc_admin_id c = ad_id a"
    and s': "s' = s\<lparr>admin_users := update_where (\<lambda>r. ad_id r = ad_id a) (\<lambda>r. r\<lparr>ad_last_login_at := Some now\<rparr>) (admin_users s)\<rparr>"
    using assms unfolding AdminAuthGuard_def bearer_token_def verifyAccessToken_def admin_route_def
    by (auto elim!: seq_InrE simp: or_raise_def require_def split: option.splits if_splits)
  then have "acting (ad_id a) s" by (auto simp: acting_def dest: find_row_Some)
  then show ?thesis unfolding c s' by (rule acting_stamped)
qed

lemma admin_call_keeps_acting:
  assumes acts: "acting i s"
  shows "\<exists>j. acting j (snd (admin_call w registry verify now auth req s))"
proof (cases "AdminAuthGuard verify (admin_route (required_roles req)) now auth s")
  case (Pair r s1)
  have s1: "acting i s1" using guard_keeps_acting acts Pair by (rule keepsD)
  show ?thesis
  proof (cases "\<exists>c. r = Inr (Some c)")
    case False
    then show ?thesis using s1 Pair by (auto simp: admin_call_def seq_def split: sum.splits option.splits)
  next
    case True
    then obtain c where r: "r = Inr (Some c)" by blast
    have call: "admin_call w registry verify now auth req s = handle_admin w registry now (dc_admin_id c) req s1"
      using Pair r by (simp add: admin_call_def seq_def)
    have super: "required_roles req = [Super_Admin] \<Longrightarrow> acting (dc_admin_id c) s1"
      using guarded_super_admin_acts Pair r by simp
    have step: "keeps (acting k) (handle_admin w registry now (dc_admin_id c) req)"
      if "required_roles req \<noteq> [Super_Admin] \<or> k = dc_admin_id c" for k
      using that merchant_handlers_keep_acting invite_handlers_keep_acting broadcast_keeps_acting admin_changes_keep_actor
      by (cases req) (auto intro!: keeps_acting_answered)
    show ?thesis
    proof (cases "required_roles req = [Super_Admin]")
      case True
      then show ?thesis using step super by (auto simp: call keeps_def)
    next
      case False
      then show ?thesis using step s1 by (auto simp: call keeps_def)
    qed
  qed
qed

lemma accept_call_keeps_acting: "acting i s \<Longrightarrow> acting i (snd (accept_call w verify now auth token s))"
  using keeps_seq [OF session_guard_keeps_acting keeps_acting_answered [OF invite_handlers_keep_acting(3)]]
  by (simp add: accept_call_def keeps_def)

text \<open>The calls of one day, each with its time and its bearer token.\<close>

datatype admin_traffic = Admin_Call admin_request | Accept_Call string

fun serve :: "admin_world \<Rightarrow> registry_fees \<Rightarrow> (string \<Rightarrow> string option) \<Rightarrow> int \<times> string option \<times> admin_traffic \<Rightarrow> store \<Rightarrow> store" where
  "serve w registry verify (now, auth, Admin_Call req) s = snd (admin_call w registry verify now auth req s)"
| "serve w registry verify (now, auth, Accept_Call token) s = snd (accept_call w verify now auth token s)"

lemma serve_keeps_acting:
  assumes "\<exists>i. acting i s"
  shows "\<exists>i. acting i (serve w registry verify c s)"
proof -
  obtain now auth t where c: "c = (now, auth, t)" by (cases c)
  show ?thesis using assms admin_call_keeps_acting accept_call_keeps_acting unfolding c by (cases t) (simp, metis)+
qed

text \<open>
  C12. Whatever calls reach the admin API one after the other, by whomever and with whatever bearer tokens, an active super
  administrator with a linked login remains: the roles of the routes let only super administrators change the accounts of
  others, and no one changes their own.
\<close>

theorem super_admin_remains:
  assumes "\<exists>i. acting i s"
  shows "\<exists>i. acting i (fold (serve w registry verify) calls s)"
  using assms
proof (induction calls arbitrary: s)
  case (Cons c calls)
  show ?case using Cons.IH [OF serve_keeps_acting [OF Cons.prems]] by simp
qed simp

definition operator :: "string \<Rightarrow> admin_role \<Rightarrow> admin_user_row" where
  "operator i r = \<lparr>ad_id = i, ad_privy_user_id = Some i, ad_email = i @ ''@strimz.xyz'', ad_role = r, ad_active = True, ad_name = None,
     ad_invited_by = None, ad_invite_token_hash = None, ad_invite_expires_at = None, ad_last_login_at = None, ad_created_at = 0\<rparr>"

definition operators :: store where
  "operators = empty_store\<lparr>admin_users := [operator ''a'' Super_Admin, operator ''b'' Super_Admin]\<rparr>"

definition quiet_world :: admin_world where
  "quiet_world = \<lparr>aw_sha256 = id, aw_mail_ok = (\<lambda>_. True), aw_accept_url = id, aw_dashboard_url = [], aw_get_user = (\<lambda>_. None)\<rparr>"

definition demote :: "string \<Rightarrow> admin_request" where
  "demote i = Set_Admin_Role i Read_Only"

definition mutual_demotion :: "(int \<times> string option \<times> admin_traffic) list" where
  "mutual_demotion = [(1, Some ''Bearer a'', Admin_Call (demote ''b'')), (2, Some ''Bearer b'', Admin_Call (demote ''a''))]"

theorem super_admin_remains_witness:
  "map ad_role (admin_users (fold (serve quiet_world (\<lambda>_. None) Some) mutual_demotion operators)) = [Super_Admin, Read_Only] \<and>
   (\<exists>i. acting i (fold (serve quiet_world (\<lambda>_. None) Some) mutual_demotion operators))"
proof (rule conjI)
  show "map ad_role (admin_users (fold (serve quiet_world (\<lambda>_. None) Some) mutual_demotion operators)) = [Super_Admin, Read_Only]"
    by code_simp
  have "acting ''a'' operators" by (simp add: acting_def operators_def operator_def)
  then show "\<exists>i. acting i (fold (serve quiet_world (\<lambda>_. None) Some) mutual_demotion operators)"
    by (intro super_admin_remains exI)
qed

text \<open>
  The guard and the handler are separate steps. When two super administrators demote each other and both guards run
  first, none is left.
\<close>

definition concurrent_demotion :: store where
  "concurrent_demotion =
     (let guard = (\<lambda>t. snd \<circ> AdminAuthGuard Some (admin_route [Super_Admin]) 1 (Some t));
          handler = (\<lambda>actor i. snd \<circ> handle_admin quiet_world (\<lambda>_. None) 1 actor (demote i))
      in handler ''b'' ''a'' (handler ''a'' ''b'' (guard ''Bearer b'' (guard ''Bearer a'' operators))))"

lemma concurrent_demotion_leaves_none: "map ad_role (admin_users concurrent_demotion) = [Read_Only, Read_Only]"
  by code_simp

section \<open>Invites\<close>

definition hash_unused :: "string \<Rightarrow> store \<Rightarrow> bool" where
  "hash_unused h s \<longleftrightarrow> (\<forall>a\<in>set (admin_users s). ad_invite_token_hash a \<noteq> Some h)"

lemma accept_commit_result:
  assumes "accept_commit w token p now iv s = (r, s')"
  shows "(\<exists>e. r = Inl e) \<and> s' = s \<or>
    count_where (accept_where (fst iv) (snd iv) (aw_sha256 w token) now) (admin_users s) = 1 \<and>
    admin_users s' = update_where (accept_where (fst iv) (snd iv) (aw_sha256 w token) now) (patch_admin (Accept_Invite p now)) (admin_users s)"
  using assms unfolding accept_commit_def Let_def
  by (auto simp: in_tx_def seq_def require_def update_admins_def writeAudit_def find_admin_def or_raise_def
      split: prod.splits sum.splits if_splits option.splits)

lemma accepted_hash_unused:
  assumes one: "count_where P rows = 1" and P: "\<And>a. P a \<Longrightarrow> ad_invite_token_hash a = Some h"
    and unique: "count_where (\<lambda>a. ad_invite_token_hash a = Some h) rows \<le> 1"
    and r: "r \<in> set (update_where P (patch_admin (Accept_Invite p now)) rows)"
  shows "ad_invite_token_hash r \<noteq> Some h"
proof
  assume h: "ad_invite_token_hash r = Some h"
  obtain q where q: "q \<in> set rows" and rq: "r = (if P q then patch_admin (Accept_Invite p now) q else q)"
    using r by (auto simp: set_update_where)
  have "\<not> P q"
  proof
    assume "P q"
    then show False using h unfolding rq by simp
  qed
  then have q: "q \<in> set rows" "\<not> P q" "ad_invite_token_hash q = Some h" using q rq h by simp_all
  let ?H = "\<lambda>a. ad_invite_token_hash a = Some h"
  have "count_where ?H rows = count_where P rows + count_where (\<lambda>a. ?H a \<and> \<not> P a) rows"
    using P by (induction rows) (auto simp: count_where_def)
  moreover have "0 < count_where (\<lambda>a. ?H a \<and> \<not> P a) rows"
    using q by (auto simp: count_where_def filter_empty_conv)
  ultimately show False using one unique by simp
qed

text \<open>Commits of one token in the order they reach the database, whatever each had read before; the accounts that got in.\<close>

fun accept_all :: "admin_world \<Rightarrow> string \<Rightarrow> (string \<times> int \<times> string \<times> string) list \<Rightarrow> store \<Rightarrow> string list" where
  "accept_all w token [] s = []"
| "accept_all w token ((p, now, iv) # calls) s =
     (case accept_commit w token p now iv s of (r, s') \<Rightarrow>
        (case r of Inl _ \<Rightarrow> [] | Inr _ \<Rightarrow> [p]) @ accept_all w token calls s')"

lemma accept_all_unused: "hash_unused (aw_sha256 w token) s \<Longrightarrow> accept_all w token calls s = []"
proof (induction calls)
  case (Cons c calls)
  obtain p now iv where c: "c = (p, now, iv)" by (cases c)
  obtain r s' where run: "accept_commit w token p now iv s = (r, s')" by (cases "accept_commit w token p now iv s")
  have "count_where (accept_where (fst iv) (snd iv) (aw_sha256 w token) now) (admin_users s) = 0"
    using Cons.prems by (auto simp: count_where_def accept_where_def hash_unused_def filter_empty_conv)
  with accept_commit_result [OF run] have "(\<exists>e. r = Inl e) \<and> s' = s" by auto
  then show ?case using Cons run c by auto
qed simp

text \<open>
  C30. An admin invite is accepted at most once: of any number of acceptances of one token that interleave their checks as they
  like, at most one account is linked, because the commit repeats the conditions and clears the token.
\<close>

theorem invite_single_use:
  assumes "count_where (\<lambda>a. ad_invite_token_hash a = Some (aw_sha256 w token)) (admin_users s) \<le> 1"
  shows "length (accept_all w token calls s) \<le> 1"
  using assms
proof (induction calls arbitrary: s)
  case (Cons c calls)
  obtain p now iv where c: "c = (p, now, iv)" by (cases c)
  obtain r s' where run: "accept_commit w token p now iv s = (r, s')" by (cases "accept_commit w token p now iv s")
  show ?case
  proof (cases "(\<exists>e. r = Inl e) \<and> s' = s")
    case True
    then show ?thesis using Cons.IH [OF Cons.prems] run c by auto
  next
    case False
    then have "hash_unused (aw_sha256 w token) s'"
      using accept_commit_result [OF run] accepted_hash_unused [OF _ _ Cons.prems]
      by (fastforce simp: hash_unused_def accept_where_def)
    then show ?thesis using run c by (auto simp: accept_all_unused split: sum.splits)
  qed
qed simp

definition invited :: store where
  "invited = empty_store\<lparr>admin_users := [operator ''a'' Super_Admin,
     (operator ''c'' Admin)\<lparr>ad_privy_user_id := None, ad_invite_token_hash := Some ''t'', ad_invite_expires_at := Some 9\<rparr>]\<rparr>"

theorem invite_single_use_witness:
  "accept_all quiet_world ''t'' [(''x'', 9, ''c'', ''c@strimz.xyz''), (''y'', 1, ''c'', ''c@strimz.xyz''), (''z'', 2, ''c'', ''c@strimz.xyz'')] invited = [''y''] \<and>
   length (accept_all quiet_world ''t'' [(''x'', 9, ''c'', ''c@strimz.xyz''), (''y'', 1, ''c'', ''c@strimz.xyz''), (''z'', 2, ''c'', ''c@strimz.xyz'')] invited) \<le> 1"
proof (rule conjI)
  show "accept_all quiet_world ''t'' [(''x'', 9, ''c'', ''c@strimz.xyz''), (''y'', 1, ''c'', ''c@strimz.xyz''), (''z'', 2, ''c'', ''c@strimz.xyz'')] invited = [''y'']"
    by code_simp
qed (rule invite_single_use, code_simp)

section \<open>Suspended merchants\<close>

lemma set_status_result:
  assumes "setMerchantStatus i st actor s = (Inr x, s')"
  shows "\<forall>m\<in>set (merchants s'). m_id m = i \<longrightarrow> m_status m = st"
proof (cases "find_row m_id i (merchants s)")
  case None
  then show ?thesis using assms by (simp add: setMerchantStatus_def or_raise_def seq_def)
next
  case (Some m)
  then have upd: "merchants s' = update_where (\<lambda>m. m_id m = i) (change_merchant (New_Status st)) (merchants s)"
    using assms by (auto simp: setMerchantStatus_def change_merchant_row_def writeAudit_def or_raise_def split: if_splits)
  show ?thesis
  proof (intro ballI impI)
    fix m' assume "m' \<in> set (merchants s')" and i: "m_id m' = i"
    then obtain q where q: "m' = (if m_id q = i then change_merchant (New_Status st) q else q)" by (auto simp: upd set_update_where)
    then have "m_id q = i" using i by (auto split: if_splits)
    then show "m_status m' = st" using q by simp
  qed
qed

lemma api_key_caller_active:
  assumes "authenticateWithApiKey sha cfg rt now t s = (Inr c, s')"
  shows "\<exists>m\<in>set (merchants s). m_id m = cl_merchant_id c \<and> m_status m = Merchant_Active"
  using assms by (rule authenticate_Inr) (auto simp: token_verdict_Inr key_caller_def dest!: find_row_Some)

lemma privy_caller_active:
  assumes "authenticateWithPrivy verify cfg now t s = (Inr c, s')"
  shows "\<exists>m\<in>set (merchants s). m_id m = cl_merchant_id c \<and> m_status m = Merchant_Active"
proof -
  obtain u m where "find_row m_privy_user_id (Some u) (merchants s) = Some m" "m_status m = Merchant_Active" "cl_merchant_id c = m_id m"
    using assms by (cases "verify t")
      (auto simp: authenticateWithPrivy_def verifyAccessToken_def or_raise_def seq_def split: option.splits if_splits)
  then show ?thesis by (auto dest: find_row_Some)
qed

lemma guard_caller_active:
  assumes "MerchantAuthGuard sha verify cfg rt now auth s = (Inr (Some c), s')"
  shows "\<exists>m\<in>set (merchants s). m_id m = cl_merchant_id c \<and> m_status m = Merchant_Active"
proof -
  from assms obtain t where "seq (if starts_with t ''sk_'' \<or> starts_with t ''pk_'' then authenticateWithApiKey sha cfg rt now t
      else authenticateWithPrivy verify cfg now t) (\<lambda>c. ret (Some c)) s = (Inr (Some c), s')"
    by (cases "rt_public rt"; cases auth) (auto simp: MerchantAuthGuard_def bearer_token_def seq_def split: if_splits)
  then show ?thesis by (auto elim!: seq_InrE intro: api_key_caller_active privy_caller_active split: if_splits)
qed

text \<open>
  After an administrator suspended or closed a merchant, no credential of theirs passes the merchant guard, neither their
  API keys nor their dashboard session, on any route.
\<close>

theorem suspended_merchant_locked_out:
  assumes set: "setMerchantStatus i st actor s = (Inr x, s')" and st: "st \<noteq> Merchant_Active"
    and pass: "MerchantAuthGuard sha verify cfg rt now auth s' = (Inr (Some c), s'')"
  shows "cl_merchant_id c \<noteq> i"
  using set_status_result [OF set] st guard_caller_active [OF pass] by auto

definition suspension :: "(api_exn + string \<times> merchant_status) \<times> store" where
  "suspension = setMerchantStatus ''m2'' Merchant_Suspended ''a'' sample_store"

definition other_login :: "(api_exn + caller option) \<times> store" where
  "other_login = MerchantAuthGuard id (\<lambda>_. Some ''did:m1'') sample_config keys_route 5 (Some ''Bearer t'') (snd suspension)"

theorem suspended_merchant_locked_out_witness:
  "fst suspension = Inr (''m2'', Merchant_Suspended) \<and> (\<exists>c. fst other_login = Inr (Some c) \<and> cl_merchant_id c \<noteq> ''m2'')"
proof -
  have suspended: "fst suspension = Inr (''m2'', Merchant_Suspended)" by code_simp
  have login: "fst other_login = Inr (Some \<lparr>cl_merchant_id = ''m1'', cl_api_key_id = None, cl_scopes = None, cl_mode = Test\<rparr>)"
    by code_simp
  have "setMerchantStatus ''m2'' Merchant_Suspended ''a'' sample_store = (Inr (''m2'', Merchant_Suspended), snd suspension)"
    using suspended by (simp add: suspension_def prod_eq_iff)
  from suspended_merchant_locked_out [OF this, of id "\<lambda>_. Some ''did:m1''" sample_config keys_route 5 "Some ''Bearer t''" _ "snd other_login"] login
  have "cl_merchant_id \<lparr>cl_merchant_id = ''m1'', cl_api_key_id = None, cl_scopes = None, cl_mode = Test\<rparr> \<noteq> ''m2''"
    unfolding other_login_def by (metis merchant_status.distinct(1) prod.collapse)
  then show ?thesis using suspended login by blast
qed

end
