(* ===== verification/Notices.thy ===== *)
theory Notices
  imports Sweepers Accounts Calendar "HOL-Library.Multiset"
begin

text \<open>
  The mails the scheduler sends from rows: \<open>crons/merchant-notifications\<close> (five lanes), \<open>crons/payer-notifications\<close>
  (four lanes), \<open>infra/email/email-budget.service.ts\<close> and the mail client. A lane reads the oldest rows whose
  \<open>...NotifiedAt\<close> column is null, mails each and stamps the column. The lanes of a tick are started together and
  write disjoint columns; the model runs them one after the other.
\<close>

section \<open>Settings and outside world\<close>

text \<open>
  The settings the lanes read, and the renderings of \<open>Date\<close> that depend on the time zone and the locale data of the
  server: \<open>ns_short_date\<close> and \<open>ns_long_date\<close> (\<open>toLocaleDateString\<close> with a short and a long month),
  \<open>ns_date_time\<close> and \<open>ns_utc\<close> (\<open>toLocaleString\<close>; \<open>common/format-utc.ts\<close>).
\<close>

record notice_settings =
  ns_environment :: arc_environment
  ns_batch_size :: nat
  ns_daily_email_budget :: nat
  ns_send_charge_receipts :: bool
  ns_dashboard_url :: "string option"
  ns_short_date :: "int \<Rightarrow> string"
  ns_long_date :: "int \<Rightarrow> string"
  ns_date_time :: "int \<Rightarrow> string"
  ns_utc :: "int \<Rightarrow> string"

text \<open>
  What can fail around a send: the query of a lane, the two Redis commands of a reservation, the provider (none in
  stub mode, where \<open>EmailService.send\<close> only logs), and the database update that stamps the row.
\<close>

datatype redis_outcome = Redis_Ok | Incr_Fails | Expire_Fails

record mail_world =
  mw_stub :: bool
  mw_query :: "notice \<Rightarrow> bool"
  mw_redis :: "notice \<Rightarrow> string \<Rightarrow> redis_outcome"
  mw_deliver :: "email \<Rightarrow> bool"
  mw_stamp :: "notice \<Rightarrow> string \<Rightarrow> bool"

definition email_send :: "mail_world \<Rightarrow> email \<Rightarrow> (store, api_exn, unit) proc" where
  "email_send w e =
     (if mw_stub w then ret ()
      else if mw_deliver w e then modify (\<lambda>s. s\<lparr>emails := emails s @ [e]\<rparr>)
      else raise (Crash ''resend error''))"

section \<open>The daily budget (\<open>email-budget.service.ts\<close>)\<close>

definition pad2 :: "int \<Rightarrow> string" where
  "pad2 n = (let d = show_int n in if length d < 2 then CHR ''0'' # d else d)"

definition todayKey :: "int \<Rightarrow> string" where
  "todayKey now = (let c = civil_of_day (day_of now) in
     ''strimz:email:budget:'' @ show_int (cv_year c) @ ''-'' @ pad2 (cv_month c) @ ''-'' @ pad2 (cv_day c))"

definition sent_today :: "int \<Rightarrow> store \<Rightarrow> nat" where
  "sent_today now s = (case redis s (todayKey now) of None \<Rightarrow> 0 | Some v \<Rightarrow> big_nat v)"

text \<open>
  \<open>INCR\<close>, \<open>EXPIRE\<close> after the first of the day, and the verdict. A key is only read on its day, so its expiry after
  48 hours is not observable.
\<close>

definition reserve :: "redis_outcome \<Rightarrow> notice_settings \<Rightarrow> int \<Rightarrow> bool \<Rightarrow> (store, api_exn, bool \<times> nat) proc" where
  "reserve f c now critical =
     seq (require (f \<noteq> Incr_Fails) (Crash ''redis'')) (\<lambda>_.
     seq (gets (\<lambda>s. sent_today now s + 1)) (\<lambda>n.
     seq (modify (\<lambda>s. s\<lparr>redis := (redis s)(todayKey now := Some (show_nat n))\<rparr>)) (\<lambda>_.
     seq (require (n \<noteq> 1 \<or> f \<noteq> Expire_Fails) (Crash ''redis'')) (\<lambda>_.
     ret (\<not> ns_daily_email_budget c < n \<or> critical, n)))))"

section \<open>What the mails show\<close>

definition amount_display :: "string \<Rightarrow> payment_currency \<Rightarrow> string option" where
  "amount_display amount currency =
     (if list_all is_digit amount then Some (formatUnits6 (big_nat amount) @ '' '' @ currency_name currency) else None)"

text \<open>Non-ASCII punctuation is written in ASCII.\<close>

definition shortAddr :: "string option \<Rightarrow> string" where
  "shortAddr a = (if truthy a then take 6 (the a) @ ''...'' @ drop (length (the a) - 4) (the a) else ''unknown'')"

fun interval_name :: "subscription_interval \<Rightarrow> string" where
  "interval_name Daily = ''daily''"
| "interval_name Weekly = ''weekly''"
| "interval_name Monthly = ''monthly''"
| "interval_name Quarterly = ''quarterly''"
| "interval_name Yearly = ''yearly''"

definition cadenceDisplay :: "string \<Rightarrow> nat \<Rightarrow> string" where
  "cadenceDisplay interval num =
     (let i = to_lower interval; unit = (if i \<noteq> [] \<and> last i = CHR ''s'' then butlast i else i) in
      if num = 1 then ''every '' @ unit else ''every '' @ show_nat num @ '' '' @ unit @ ''s'')"

text \<open>
  \<open>setUTCMonth\<close> and \<open>setUTCFullYear\<close>: the day of the month is kept and counted from the first of the new month,
  so that a day the month does not have runs into the next one.
\<close>

definition set_utc_month :: "int \<Rightarrow> int \<Rightarrow> int \<Rightarrow> int" where
  "set_utc_month t year month0 =
     (let c = civil_of_day (day_of t) in
      (day_of_civil \<lparr>cv_year = year + month0 div 12, cv_month = month0 mod 12 + 1, cv_day = 1\<rparr> + cv_day c - 1) * DAY_MS + t mod DAY_MS)"

definition addInterval :: "int \<Rightarrow> subscription_interval \<Rightarrow> nat \<Rightarrow> int" where
  "addInterval base interval num =
     (let n = int (if num < 1 then 1 else num); c = civil_of_day (day_of base); y = cv_year c; m = cv_month c - 1 in
      case interval of
        Daily \<Rightarrow> base + n * DAY_MS
      | Weekly \<Rightarrow> base + 7 * n * DAY_MS
      | Monthly \<Rightarrow> set_utc_month base y (m + n)
      | Quarterly \<Rightarrow> set_utc_month base y (m + 3 * n)
      | Yearly \<Rightarrow> set_utc_month base (y + n) m)"

definition STRIMZ_ORIGIN :: string where
  "STRIMZ_ORIGIN = ''https://strimz-finance.vercel.app''"

definition dashboardOrigin :: "notice_settings \<Rightarrow> string" where
  "dashboardOrigin c = set_or (ns_dashboard_url c) STRIMZ_ORIGIN"

fun network_name :: "arc_environment \<Rightarrow> string" where
  "network_name Mainnet = ''Arc Mainnet''"
| "network_name Testnet = ''Arc Testnet''"

definition explorer_tx :: "notice_settings \<Rightarrow> string option \<Rightarrow> string" where
  "explorer_tx c h = (if truthy h then arcExplorerTxUrl (ns_environment c) (the h) else ''#'')"

definition prefEnabled :: "merchant_row \<Rightarrow> string \<Rightarrow> bool" where
  "prefEnabled m key = set_or (map_of (m_email_prefs m) key) True"

section \<open>The rows of a lane\<close>

text \<open>
  What a lane does with a row: stamp it without a mail, or mail it. \<open>Mail r e\<close>: \<open>r\<close> is the budget reservation, if the
  lane makes one (\<open>Some True\<close> for a critical mail), \<open>e\<close> the mail, none when composing it throws. The rows a foreign
  key promises are looked up; a lane would throw without them.
\<close>

datatype todo = Stamp_Only | Mail "bool option" "email option"

definition compose :: "string \<Rightarrow> string option \<Rightarrow> (string \<Rightarrow> string) \<Rightarrow> (string \<Rightarrow> string list) \<Rightarrow> email option" where
  "compose recipient amount subject about =
     map_option (\<lambda>a. \<lparr>em_to = recipient, em_subject = subject a, em_about = about a\<rparr>) amount"

definition merchant_of :: "store \<Rightarrow> string \<Rightarrow> merchant_row option" where
  "merchant_of s i = find_row m_id i (merchants s)"

definition plan_of :: "store \<Rightarrow> string \<Rightarrow> plan_row option" where
  "plan_of s i = find_row pl_id i (plans s)"

definition sub_of :: "store \<Rightarrow> string \<Rightarrow> sub_row option" where
  "sub_of s i = find_row su_id i (subs s)"

definition customer_email :: "store \<Rightarrow> string \<Rightarrow> string option" where
  "customer_email s i = Option.bind (find_row cu_id i (customers s)) cu_email"

definition business_name :: "string \<Rightarrow> merchant_row \<Rightarrow> string" where
  "business_name fallback m = set_or (m_business_name m) fallback"

subsection \<open>Merchant lanes\<close>

definition welcome_todo :: "notice_settings \<Rightarrow> merchant_row \<Rightarrow> todo" where
  "welcome_todo c m = Mail None (Some \<lparr>em_to = m_email m, em_subject = ''Welcome to Strimz'',
     em_about = [set_or (m_business_name m) [], dashboardOrigin c @ ''/app'', STRIMZ_ORIGIN @ ''/docs'']\<rparr>)"

definition payment_todo :: "notice_settings \<Rightarrow> store \<Rightarrow> session_row \<Rightarrow> todo" where
  "payment_todo c s r = (case merchant_of s (ps_merchant_id r) of
     None \<Rightarrow> Mail None None
   | Some m \<Rightarrow>
       if \<not> prefEnabled m ''paymentReceived'' then Stamp_Only
       else Mail None (compose (m_email m) (amount_display (ps_amount r) (ps_currency r)) (\<lambda>a. ''You received '' @ a)
         (\<lambda>a. [business_name ''merchant'' m, a, shortAddr (ps_payer_wallet_address r), set_or (ps_description r) [],
               ps_id r, network_name (ns_environment c), explorer_tx c (ps_onchain_tx_hash r),
               dashboardOrigin c @ ''/app/transactions''])))"

definition sub_started_todo :: "notice_settings \<Rightarrow> store \<Rightarrow> sub_row \<Rightarrow> todo" where
  "sub_started_todo c s r = (case (merchant_of s (su_merchant_id r), plan_of s (su_plan_id r)) of
     (Some m, Some p) \<Rightarrow>
       Mail None (compose (m_email m) (amount_display (su_amount r) (su_currency r)) (\<lambda>_. ''New subscriber on '' @ pl_name p)
         (\<lambda>a. [business_name ''merchant'' m, pl_name p, a,
               cadenceDisplay (interval_name (pl_interval p)) (pl_interval_count p), shortAddr (Some (su_payer_address r)),
               su_id r, network_name (ns_environment c),
               ns_short_date c (addInterval (su_current_period_start_at r) (pl_interval p) (pl_interval_count p)),
               explorer_tx c (su_enrolment_tx_hash r), dashboardOrigin c @ ''/app/subscriptions/'' @ su_id r]))
   | _ \<Rightarrow> Mail None None)"

definition charged_todo :: "notice_settings \<Rightarrow> store \<Rightarrow> charge_row \<Rightarrow> todo" where
  "charged_todo c s r = (case (merchant_of s (ch_merchant_id r), sub_of s (ch_subscription_id r)) of
     (Some m, Some u) \<Rightarrow>
       if \<not> prefEnabled m ''subscriptionCharged'' then Stamp_Only
       else (case plan_of s (su_plan_id u) of
         None \<Rightarrow> Mail None None
       | Some p \<Rightarrow> Mail None (compose (m_email m) (amount_display (ch_amount r) (ch_currency r)) (\<lambda>a. ''You received '' @ a)
           (\<lambda>a. [business_name ''merchant'' m, pl_name p, a, shortAddr (Some (su_payer_address u)), su_id u, ch_id r,
                 network_name (ns_environment c),
                 ns_short_date c (ch_period_start_at r) @ '' - '' @ ns_short_date c (ch_period_end_at r),
                 (case su_next_charge_at u of None \<Rightarrow> [] | Some t \<Rightarrow> ns_short_date c t),
                 explorer_tx c (ch_onchain_tx_hash r), dashboardOrigin c @ ''/app/subscriptions/'' @ su_id u])))
   | _ \<Rightarrow> Mail None None)"

datatype security_kind = Payout_Change | Ownership_Transfer

text \<open>\<open>securityMetadataSchema.parse\<close> and \<open>securityNotice\<close>: kind, address, time, subject and transaction.\<close>

definition securityNotice :: "string \<Rightarrow> alert_metadata \<Rightarrow> (security_kind \<times> string \<times> int \<times> string) option" where
  "securityNotice action m =
     (if action = ''merchant.payout_change_initiated_onchain'' \<and> truthy (al_new_payout_address m) \<and>
         al_commit_at m \<noteq> None \<and> al_commit_at m \<noteq> Some 0
      then Some (Payout_Change, the (al_new_payout_address m), the (al_commit_at m),
        ''Your Strimz payout address is changing'')
      else if action = ''merchant.ownership_transfer_initiated_onchain'' \<and> truthy (al_pending_owner m) \<and>
         al_acceptable_at m \<noteq> None \<and> al_acceptable_at m \<noteq> Some 0
      then Some (Ownership_Transfer, the (al_pending_owner m), the (al_acceptable_at m),
        ''Your Strimz merchant account is being handed over'')
      else None)"

fun alert_meta_of :: "audit_metadata \<Rightarrow> alert_metadata option" where
  "alert_meta_of (Alert_Meta m) = (if al_transaction_hash m = None then None else Some m)"
| "alert_meta_of _ = None"

definition audit_of :: "store \<Rightarrow> string \<Rightarrow> audit_row option" where
  "audit_of s i = find_row au_id (Some i) (audit s)"

definition security_mail :: "notice_settings \<Rightarrow> merchant_row \<Rightarrow> audit_row \<Rightarrow> email option" where
  "security_mail c m a =
     Option.bind (alert_meta_of (au_metadata a)) (\<lambda>meta.
     map_option (\<lambda>(kind, address, effective, subject). \<lparr>em_to = m_email m, em_subject = subject,
         em_about = [set_or (m_business_name m) [], address, ns_utc c effective, dashboardOrigin c @ ''/app/settings'',
                     arcExplorerTxUrl (ns_environment c) (the (al_transaction_hash meta))]\<rparr>)
       (securityNotice (au_action a) meta))"

definition security_todo :: "notice_settings \<Rightarrow> store \<Rightarrow> security_alert_row \<Rightarrow> todo" where
  "security_todo c s r = (case (merchant_of s (sa_merchant_id r), audit_of s (sa_audit_log_id r)) of
     (Some m, Some a) \<Rightarrow> Mail None (security_mail c m a)
   | _ \<Rightarrow> Mail None None)"

subsection \<open>Payer lanes\<close>

definition payer_mail ::
  "store \<Rightarrow> string \<Rightarrow> bool \<Rightarrow> string option \<Rightarrow> string option \<Rightarrow> (string \<Rightarrow> string \<Rightarrow> string) \<Rightarrow> (string \<Rightarrow> string \<Rightarrow> string list) \<Rightarrow> todo" where
  "payer_mail s merchantId critical email amount subject about =
     (if \<not> truthy email then Stamp_Only
      else Mail (Some critical) (Option.bind (merchant_of s merchantId) (\<lambda>m.
        let name = business_name ''the merchant'' m in compose (the email) amount (subject name) (about name))))"

definition receipt_todo :: "notice_settings \<Rightarrow> store \<Rightarrow> session_row \<Rightarrow> todo" where
  "receipt_todo c s r =
     payer_mail s (ps_merchant_id r) True (Option.bind (ps_customer_id r) (customer_email s))
       (amount_display (ps_amount r) (ps_currency r))
       (\<lambda>name a. ''Your '' @ a @ '' payment to '' @ name)
       (\<lambda>name a. [name, a, set_or (ps_description r) [], ps_id r, ns_date_time c (ps_updated_at r),
          network_name (ns_environment c), explorer_tx c (ps_onchain_tx_hash r)])"

definition enrolled_todo :: "notice_settings \<Rightarrow> store \<Rightarrow> sub_row \<Rightarrow> todo" where
  "enrolled_todo c s r = (case plan_of s (su_plan_id r) of
     None \<Rightarrow> Mail None None
   | Some p \<Rightarrow>
       payer_mail s (su_merchant_id r) True (customer_email s (su_customer_id r))
         (amount_display (su_amount r) (su_currency r))
         (\<lambda>name a. ''You subscribed to '' @ name)
         (\<lambda>name a. [name, pl_name p, a, cadenceDisplay (interval_name (pl_interval p)) (pl_interval_count p),
            ns_long_date c (addInterval (su_current_period_start_at r) (pl_interval p) (pl_interval_count p)),
            su_id r, ns_long_date c (su_created_at r), network_name (ns_environment c), explorer_tx c (su_enrolment_tx_hash r)]))"

definition renewal_todo :: "notice_settings \<Rightarrow> store \<Rightarrow> charge_row \<Rightarrow> todo" where
  "renewal_todo c s r = (case Option.bind (sub_of s (ch_subscription_id r)) (\<lambda>u. map_option (Pair u) (plan_of s (su_plan_id u))) of
     None \<Rightarrow> Mail None None
   | Some (u, p) \<Rightarrow>
       payer_mail s (ch_merchant_id r) False (customer_email s (su_customer_id u))
         (amount_display (ch_amount r) (ch_currency r))
         (\<lambda>name a. name @ '' charged '' @ a)
         (\<lambda>name a. [name, pl_name p, a, ns_date_time c (set_or (ch_executed_at r) (ch_scheduled_at r)),
            (case su_next_charge_at u of None \<Rightarrow> [] | Some t \<Rightarrow> ns_long_date c t), su_id u,
            network_name (ns_environment c), explorer_tx c (ch_onchain_tx_hash r)]))"

definition refund_email :: "store \<Rightarrow> refund_row \<Rightarrow> string option" where
  "refund_email s r =
     Option.bind (find_row tx_id (rf_transaction_id r) (transactions s)) (\<lambda>t.
     Option.bind (tx_session_id t) (\<lambda>i.
     Option.bind (find_row ps_id i (sessions s)) (\<lambda>p.
     Option.bind (ps_customer_id p) (customer_email s))))"

definition refunded_todo :: "notice_settings \<Rightarrow> store \<Rightarrow> refund_row \<Rightarrow> todo" where
  "refunded_todo c s r =
     (let t = find_row tx_id (rf_transaction_id r) (transactions s);
          shown = amount_display (rf_amount r) (rf_currency r);
          original = (case t of None \<Rightarrow> shown | Some x \<Rightarrow> amount_display (tx_amount x) (tx_currency x));
          paidAt = (case t of None \<Rightarrow> rf_created_at r | Some x \<Rightarrow> tx_created_at x)
      in payer_mail s (rf_merchant_id r) True (refund_email s r) (if original = None then None else shown)
        (\<lambda>name a. name @ '' refunded '' @ a)
        (\<lambda>name a. [name, a, the original, ns_long_date c paidAt, ns_date_time c (set_or (rf_completed_at r) (rf_created_at r)),
           set_or (rf_note r) [], rf_id r, rf_transaction_id r, network_name (ns_environment c),
           explorer_tx c (rf_refund_tx_hash r)]))"

section \<open>The queries\<close>

text \<open>\<open>orderBy ... asc\<close> on a nullable column: Postgres puts the nulls last.\<close>

definition nulls_last :: "('r \<Rightarrow> int option) \<Rightarrow> 'r list \<Rightarrow> 'r list" where
  "nulls_last f rows = sort_key (\<lambda>r. the (f r)) (filter (\<lambda>r. f r \<noteq> None) rows) @ filter (\<lambda>r. f r = None) rows"

definition batch ::
  "nat \<Rightarrow> ('r list \<Rightarrow> 'r list) \<Rightarrow> ('r \<Rightarrow> bool) \<Rightarrow> ('r \<Rightarrow> string) \<Rightarrow> ('r \<Rightarrow> todo) \<Rightarrow> 'r list \<Rightarrow> (string \<times> todo) list" where
  "batch n order P key f t = map (\<lambda>r. (key r, f r)) (take n (order (filter P t)))"

text \<open>\<open>findMany\<close> with \<open>where\<close>, \<open>orderBy\<close> and \<open>take\<close>, and what the loop does with each row.\<close>

fun lane_rows :: "notice_settings \<Rightarrow> store \<Rightarrow> notice \<Rightarrow> (string \<times> todo) list" where
  "lane_rows c s Merchant_Welcome = batch (ns_batch_size c) (sort_key m_created_at)
     (\<lambda>r. notified s Merchant_Welcome (m_id r) = None) m_id (welcome_todo c) (merchants s)"
| "lane_rows c s Merchant_Payment = batch (ns_batch_size c) (sort_key ps_updated_at)
     (\<lambda>r. ps_status r = Confirmed \<and> notified s Merchant_Payment (ps_id r) = None) ps_id (payment_todo c s) (sessions s)"
| "lane_rows c s Merchant_Sub_Started = batch (ns_batch_size c) (sort_key su_created_at)
     (\<lambda>r. notified s Merchant_Sub_Started (su_id r) = None) su_id (sub_started_todo c s) (subs s)"
| "lane_rows c s Merchant_Charged = batch (ns_batch_size c) (nulls_last ch_executed_at)
     (\<lambda>r. ch_status r = Ch_Succeeded \<and> notified s Merchant_Charged (ch_id r) = None) ch_id (charged_todo c s) (charges s)"
| "lane_rows c s Merchant_Security = batch (ns_batch_size c) (sort_key sa_created_at)
     (\<lambda>r. notified s Merchant_Security (sa_id r) = None) sa_id (security_todo c s) (security_alerts s)"
| "lane_rows c s Payer_Payment = batch (ns_batch_size c) (sort_key ps_updated_at)
     (\<lambda>r. ps_status r = Confirmed \<and> ps_customer_id r \<noteq> None \<and> notified s Payer_Payment (ps_id r) = None) ps_id (receipt_todo c s) (sessions s)"
| "lane_rows c s Payer_Sub_Started = batch (ns_batch_size c) (sort_key su_created_at)
     (\<lambda>r. notified s Payer_Sub_Started (su_id r) = None) su_id (enrolled_todo c s) (subs s)"
| "lane_rows c s Payer_Charged = (if \<not> ns_send_charge_receipts c then [] else
     batch (ns_batch_size c) (nulls_last ch_executed_at)
       (\<lambda>r. ch_status r = Ch_Succeeded \<and> notified s Payer_Charged (ch_id r) = None) ch_id (renewal_todo c s) (charges s))"
| "lane_rows c s Payer_Refund = batch (ns_batch_size c) (nulls_last rf_completed_at)
     (\<lambda>r. rf_status r = Rf_Completed \<and> notified s Payer_Refund (rf_id r) = None) rf_id (refunded_todo c s) (refunds s)"

section \<open>A lane and a tick\<close>

text \<open>The \<open>update\<close> that stamps a row; \<open>@updatedAt\<close> columns change with it.\<close>

fun touch :: "notice \<Rightarrow> int \<Rightarrow> string \<Rightarrow> store \<Rightarrow> store" where
  "touch Merchant_Payment now i s = s\<lparr>sessions := update_where (\<lambda>r. ps_id r = i) (\<lambda>r. r\<lparr>ps_updated_at := now\<rparr>) (sessions s)\<rparr>"
| "touch Payer_Payment now i s = s\<lparr>sessions := update_where (\<lambda>r. ps_id r = i) (\<lambda>r. r\<lparr>ps_updated_at := now\<rparr>) (sessions s)\<rparr>"
| "touch Merchant_Sub_Started now i s = s\<lparr>subs := update_where (\<lambda>r. su_id r = i) (\<lambda>r. r\<lparr>su_updated_at := now\<rparr>) (subs s)\<rparr>"
| "touch Payer_Sub_Started now i s = s\<lparr>subs := update_where (\<lambda>r. su_id r = i) (\<lambda>r. r\<lparr>su_updated_at := now\<rparr>) (subs s)\<rparr>"
| "touch Merchant_Charged now i s = s\<lparr>charges := update_where (\<lambda>r. ch_id r = i) (\<lambda>r. r\<lparr>ch_updated_at := now\<rparr>) (charges s)\<rparr>"
| "touch Payer_Charged now i s = s\<lparr>charges := update_where (\<lambda>r. ch_id r = i) (\<lambda>r. r\<lparr>ch_updated_at := now\<rparr>) (charges s)\<rparr>"
| "touch _ now i s = s"

definition stamp :: "mail_world \<Rightarrow> int \<Rightarrow> notice \<Rightarrow> string \<Rightarrow> (store, api_exn, unit) proc" where
  "stamp w now n i =
     seq (require (mw_stamp w n i) (Crash ''database'')) (\<lambda>_.
     modify (\<lambda>s. (touch n now i s)\<lparr>notified := (notified s)(n := (notified s n)(i := Some now))\<rparr>))"

record lane_result =
  lr_sent :: nat
  lr_failed :: nat

definition try_mail ::
  "mail_world \<Rightarrow> int \<Rightarrow> notice \<Rightarrow> string \<Rightarrow> email option \<Rightarrow> lane_result \<Rightarrow> (store, api_exn, lane_result) proc" where
  "try_mail w now n i e acc =
     catch (seq (case e of None \<Rightarrow> raise (Crash ''compose'') | Some m \<Rightarrow> email_send w m) (\<lambda>_.
            seq (stamp w now n i) (\<lambda>_. ret (acc\<lparr>lr_sent := lr_sent acc + 1\<rparr>))))
       (\<lambda>_. ret (acc\<lparr>lr_failed := lr_failed acc + 1\<rparr>))"

definition allowance :: "redis_outcome \<Rightarrow> notice_settings \<Rightarrow> int \<Rightarrow> bool option \<Rightarrow> (store, api_exn, bool) proc" where
  "allowance f c now r = (case r of None \<Rightarrow> ret True | Some critical \<Rightarrow> seq (reserve f c now critical) (\<lambda>(allowed, _). ret allowed))"

fun lane_loop ::
  "mail_world \<Rightarrow> notice_settings \<Rightarrow> int \<Rightarrow> notice \<Rightarrow> (string \<times> todo) list \<Rightarrow> lane_result \<Rightarrow> (store, api_exn, lane_result) proc" where
  "lane_loop w c now n [] acc = ret acc"
| "lane_loop w c now n ((i, Stamp_Only) # rows) acc =
     seq (stamp w now n i) (\<lambda>_. lane_loop w c now n rows acc)"
| "lane_loop w c now n ((i, Mail r e) # rows) acc =
     seq (allowance (mw_redis w n i) c now r) (\<lambda>allowed.
       if \<not> allowed then ret acc
       else seq (try_mail w now n i e acc) (lane_loop w c now n rows))"

definition run_lane :: "mail_world \<Rightarrow> notice_settings \<Rightarrow> int \<Rightarrow> notice \<Rightarrow> (store, api_exn, lane_result) proc" where
  "run_lane w c now n =
     seq (require (mw_query w n) (Crash ''database'')) (\<lambda>_.
     seq (gets (\<lambda>s. lane_rows c s n)) (\<lambda>rows. lane_loop w c now n rows \<lparr>lr_sent = 0, lr_failed = 0\<rparr>))"

text \<open>\<open>Promise.all\<close>: every promise runs to its end, and the first rejection is the result.\<close>

fun promise_all :: "('s, 'e, 'a) proc list \<Rightarrow> ('s, 'e, 'a list) proc" where
  "promise_all [] = ret []"
| "promise_all (m # ms) = (\<lambda>s. case m s of (r, s') \<Rightarrow> (case promise_all ms s' of (rs, s'') \<Rightarrow>
     (case r of Inl e \<Rightarrow> (Inl e, s'') | Inr x \<Rightarrow> (map_sum id ((#) x) rs, s''))))"

definition total :: "lane_result list \<Rightarrow> lane_result" where
  "total rs = \<lparr>lr_sent = sum_list (map lr_sent rs), lr_failed = sum_list (map lr_failed rs)\<rparr>"

definition MERCHANT_LANES :: "notice list" where
  "MERCHANT_LANES = [Merchant_Welcome, Merchant_Payment, Merchant_Sub_Started, Merchant_Charged, Merchant_Security]"

definition PAYER_LANES :: "notice list" where
  "PAYER_LANES = [Payer_Payment, Payer_Sub_Started, Payer_Charged, Payer_Refund]"

definition merchantTickNow :: "mail_world \<Rightarrow> notice_settings \<Rightarrow> int \<Rightarrow> (store, api_exn, lane_result) proc" where
  "merchantTickNow w c now = seq (promise_all (map (run_lane w c now) MERCHANT_LANES)) (\<lambda>rs. ret (total rs))"

definition payerTickNow :: "mail_world \<Rightarrow> notice_settings \<Rightarrow> int \<Rightarrow> (store, api_exn, lane_result) proc" where
  "payerTickNow w c now = seq (promise_all (map (run_lane w c now) PAYER_LANES)) (\<lambda>rs. ret (total rs))"


section \<open>What a tick may send\<close>

text \<open>
  The promise of the lanes, stated over the tables: whom the mail of a row and a column is due to, if to anyone. A
  payment or charge has to have succeeded, a refund to be completed, and a merchant who turned a kind of mail off, or
  a customer without an address, gets none.
\<close>

definition if_some :: "bool \<Rightarrow> 'a option \<Rightarrow> 'a option" where
  "if_some b x = (if b then x else None)"

definition merchant_mail :: "store \<Rightarrow> string option \<Rightarrow> string \<Rightarrow> string option" where
  "merchant_mail s pref i = Option.bind (merchant_of s i) (\<lambda>m.
     if_some (case pref of None \<Rightarrow> True | Some k \<Rightarrow> prefEnabled m k) (Some (m_email m)))"

fun entitled :: "store \<Rightarrow> notice \<Rightarrow> string \<Rightarrow> string option" where
  "entitled s Merchant_Welcome i = merchant_mail s None i"
| "entitled s Merchant_Payment i = Option.bind (find_row ps_id i (sessions s)) (\<lambda>r.
     if_some (ps_status r = Confirmed) (merchant_mail s (Some ''paymentReceived'') (ps_merchant_id r)))"
| "entitled s Merchant_Sub_Started i = Option.bind (sub_of s i) (\<lambda>r. merchant_mail s None (su_merchant_id r))"
| "entitled s Merchant_Charged i = Option.bind (find_row ch_id i (charges s)) (\<lambda>r.
     if_some (ch_status r = Ch_Succeeded) (merchant_mail s (Some ''subscriptionCharged'') (ch_merchant_id r)))"
| "entitled s Merchant_Security i = Option.bind (find_row sa_id i (security_alerts s)) (\<lambda>r. merchant_mail s None (sa_merchant_id r))"
| "entitled s Payer_Payment i = Option.bind (find_row ps_id i (sessions s)) (\<lambda>r.
     if_some (ps_status r = Confirmed) (Option.bind (ps_customer_id r) (customer_email s)))"
| "entitled s Payer_Sub_Started i = Option.bind (sub_of s i) (\<lambda>r. customer_email s (su_customer_id r))"
| "entitled s Payer_Charged i = Option.bind (find_row ch_id i (charges s)) (\<lambda>r.
     if_some (ch_status r = Ch_Succeeded) (Option.bind (sub_of s (ch_subscription_id r)) (\<lambda>u. customer_email s (su_customer_id u))))"
| "entitled s Payer_Refund i = Option.bind (find_row rf_id i (refunds s)) (\<lambda>r. if_some (rf_status r = Rf_Completed) (refund_email s r))"

definition row_ids :: "store \<Rightarrow> string list list" where
  "row_ids s = [map m_id (merchants s), map ps_id (sessions s), map su_id (subs s), map ch_id (charges s),
     map sa_id (security_alerts s), map rf_id (refunds s)]"

text \<open>Primary keys of the tables the lanes read.\<close>

definition notice_keys_ok :: "store \<Rightarrow> bool" where
  "notice_keys_ok s \<longleftrightarrow> list_all distinct (row_ids s)"

text \<open>The rows the \<open>where\<close> of a lane admits, the stamp apart.\<close>

fun notice_ids :: "store \<Rightarrow> notice \<Rightarrow> string list" where
  "notice_ids s Merchant_Welcome = map m_id (merchants s)"
| "notice_ids s Merchant_Payment = map ps_id (filter (\<lambda>r. ps_status r = Confirmed) (sessions s))"
| "notice_ids s Merchant_Sub_Started = map su_id (subs s)"
| "notice_ids s Merchant_Charged = map ch_id (filter (\<lambda>r. ch_status r = Ch_Succeeded) (charges s))"
| "notice_ids s Merchant_Security = map sa_id (security_alerts s)"
| "notice_ids s Payer_Payment = map ps_id (filter (\<lambda>r. ps_status r = Confirmed \<and> ps_customer_id r \<noteq> None) (sessions s))"
| "notice_ids s Payer_Sub_Started = map su_id (subs s)"
| "notice_ids s Payer_Charged = map ch_id (filter (\<lambda>r. ch_status r = Ch_Succeeded) (charges s))"
| "notice_ids s Payer_Refund = map rf_id (filter (\<lambda>r. rf_status r = Rf_Completed) (refunds s))"

definition pending :: "store \<Rightarrow> notice \<Rightarrow> string list" where
  "pending s n = filter (\<lambda>i. notified s n i = None) (notice_ids s n)"

interpretation touched_session: row_update ps_id "\<lambda>now r. r\<lparr>ps_updated_at := now\<rparr>" by unfold_locales simp
interpretation touched_sub: row_update su_id "\<lambda>now r. r\<lparr>su_updated_at := now\<rparr>" by unfold_locales simp
interpretation touched_charge: row_update ch_id "\<lambda>now r. r\<lparr>ch_updated_at := now\<rparr>" by unfold_locales simp

lemma map_filter_update:
  assumes "\<And>r. P (f r) = P r" and "\<And>r. key (f r) = key r"
  shows "map key (filter P (update_where Q f t)) = map key (filter P t)"
  using assms by (induction t) auto

lemma bind_map_option: "Option.bind (map_option f x) g = Option.bind x (\<lambda>y. g (f y))"
  by (cases x) auto

lemmas update_finders = touched_session.find_row_update touched_sub.find_row_update touched_charge.find_row_update

lemma untouched [simp]:
  "merchants (touch n now i s) = merchants s" "customers (touch n now i s) = customers s"
  "plans (touch n now i s) = plans s" "transactions (touch n now i s) = transactions s"
  "refunds (touch n now i s) = refunds s" "security_alerts (touch n now i s) = security_alerts s"
  "audit (touch n now i s) = audit s" "emails (touch n now i s) = emails s" "redis (touch n now i s) = redis s"
  "notified (touch n now i s) = notified s"
  by (cases n; simp)+

lemma row_ids_touch [simp]: "row_ids (touch n now i s) = row_ids s"
  by (cases n) (simp_all add: row_ids_def)

lemma notice_ids_touch [simp]: "notice_ids (touch n now i s) = notice_ids s"
proof
  fix k
  show "notice_ids (touch n now i s) k = notice_ids s k"
    by (cases n; cases k) (simp_all add: map_filter_update)
qed

lemma finders_touch:
  "find_row ps_id k (sessions (touch n now i s)) =
     map_option (\<lambda>r. if n \<in> {Merchant_Payment, Payer_Payment} \<and> k = i then r\<lparr>ps_updated_at := now\<rparr> else r) (find_row ps_id k (sessions s))"
  "find_row su_id k (subs (touch n now i s)) =
     map_option (\<lambda>r. if n \<in> {Merchant_Sub_Started, Payer_Sub_Started} \<and> k = i then r\<lparr>su_updated_at := now\<rparr> else r) (find_row su_id k (subs s))"
  "find_row ch_id k (charges (touch n now i s)) =
     map_option (\<lambda>r. if n \<in> {Merchant_Charged, Payer_Charged} \<and> k = i then r\<lparr>ch_updated_at := now\<rparr> else r) (find_row ch_id k (charges s))"
  by (cases n; simp add: update_finders option.map_ident cong: option.map_cong; auto dest: find_row_Some intro!: option.map_cong)+

lemma customer_email_touch [simp]: "customer_email (touch n now i s) = customer_email s"
  by (simp add: customer_email_def fun_eq_iff)

lemma entitled_touch [simp]: "entitled (touch n now i s) = entitled s"
proof (intro ext)
  fix k j
  show "entitled (touch n now i s) k j = entitled s k j"
    by (cases k) (simp_all add: finders_touch bind_map_option merchant_mail_def merchant_of_def sub_of_def
        customer_email_def refund_email_def if_distrib cong: if_cong)
qed

lemma entitled_frame [simp]:
  "entitled (s\<lparr>emails := e\<rparr>) = entitled s" "entitled (s\<lparr>redis := d\<rparr>) = entitled s" "entitled (s\<lparr>notified := f\<rparr>) = entitled s"
proof -
  have "merchant_mail (s\<lparr>emails := e\<rparr>) = merchant_mail s" "merchant_mail (s\<lparr>redis := d\<rparr>) = merchant_mail s"
    "merchant_mail (s\<lparr>notified := f\<rparr>) = merchant_mail s"
    "sub_of (s\<lparr>emails := e\<rparr>) = sub_of s" "sub_of (s\<lparr>redis := d\<rparr>) = sub_of s" "sub_of (s\<lparr>notified := f\<rparr>) = sub_of s"
    "customer_email (s\<lparr>emails := e\<rparr>) = customer_email s" "customer_email (s\<lparr>redis := d\<rparr>) = customer_email s"
    "customer_email (s\<lparr>notified := f\<rparr>) = customer_email s"
    by (simp_all add: fun_eq_iff merchant_mail_def merchant_of_def sub_of_def customer_email_def)
  note frames = this
  show "entitled (s\<lparr>emails := e\<rparr>) = entitled s" "entitled (s\<lparr>redis := d\<rparr>) = entitled s" "entitled (s\<lparr>notified := f\<rparr>) = entitled s"
    by (intro ext; rename_tac k j; case_tac k; simp add: frames refund_email_def)+
qed

lemma notice_ids_frame [simp]:
  "notice_ids (s\<lparr>emails := e\<rparr>) = notice_ids s" "notice_ids (s\<lparr>redis := d\<rparr>) = notice_ids s" "notice_ids (s\<lparr>notified := f\<rparr>) = notice_ids s"
  by (intro ext; rename_tac k; case_tac k; simp)+

lemma row_ids_frame [simp]:
  "row_ids (s\<lparr>emails := e\<rparr>) = row_ids s" "row_ids (s\<lparr>redis := d\<rparr>) = row_ids s" "row_ids (s\<lparr>notified := f\<rparr>) = row_ids s"
  by (simp_all add: row_ids_def)

text \<open>What a tick may change: mails, stamps with their update times, and the counter of the day. \<open>core\<close> forgets these.\<close>

definition core :: "store \<Rightarrow> store" where
  "core s = s\<lparr>sessions := map (\<lambda>r. r\<lparr>ps_updated_at := 0\<rparr>) (sessions s), subs := map (\<lambda>r. r\<lparr>su_updated_at := 0\<rparr>) (subs s),
     charges := map (\<lambda>r. r\<lparr>ch_updated_at := 0\<rparr>) (charges s), notified := (\<lambda>_ _. None), emails := [], redis := (\<lambda>_. None)\<rparr>"

lemma map_touched: "(\<And>r. g (f r) = g r) \<Longrightarrow> map g (update_where P f t) = map g t"
  by (induction t) auto

lemma core_touch [simp]: "core (touch n now i s) = core s"
  by (cases n) (simp_all add: core_def map_touched)

lemma core_frame [simp]:
  "core (s\<lparr>emails := e\<rparr>) = core s" "core (s\<lparr>redis := d\<rparr>) = core s" "core (s\<lparr>notified := f\<rparr>) = core s"
  by (simp_all add: core_def)

text \<open>
  \<open>mails_sent live f s s' ms\<close>: from \<open>s\<close> to \<open>s'\<close> exactly the mails \<open>ms\<close> went out, each for a column and row that was
  unstamped, to the address it is due to. Of each column and row they have at most one if it is stamped now, and \<open>f\<close>
  more. If \<open>live\<close>, each stamped row with an address is mailed. No stamp is lost.
\<close>

type_synonym sent_mails = "((notice \<times> string) \<times> email) list"

definition times_sent :: "notice \<Rightarrow> string \<Rightarrow> sent_mails \<Rightarrow> nat" where
  "times_sent n i ms = length (filter (\<lambda>m. fst m = (n, i)) ms)"

lemma times_sent_simps [simp]:
  "times_sent n i [] = 0" "times_sent n i (ms @ ns) = times_sent n i ms + times_sent n i ns"
  "times_sent n i (m # ms) = (if fst m = (n, i) then 1 else 0) + times_sent n i ms"
  by (simp_all add: times_sent_def)

lemma times_sent_mem: "(n, i) \<in> fst ` set ms \<longleftrightarrow> 1 \<le> times_sent n i ms"
  by (induction ms) auto

definition mails_sent :: "bool \<Rightarrow> (notice \<Rightarrow> string \<Rightarrow> nat) \<Rightarrow> store \<Rightarrow> store \<Rightarrow> sent_mails \<Rightarrow> bool" where
  "mails_sent live f s s' ms \<longleftrightarrow>
     emails s' = emails s @ map snd ms \<and>
     (\<forall>n i e. ((n, i), e) \<in> set ms \<longrightarrow> notified s n i = None \<and> entitled s n i = Some (em_to e)) \<and>
     (\<forall>n i. times_sent n i ms \<le> (if notified s' n i = None then 0 else 1) + f n i) \<and>
     (live \<longrightarrow> (\<forall>n i. notified s n i = None \<and> notified s' n i \<noteq> None \<and> truthy (entitled s n i) \<longrightarrow> (n, i) \<in> fst ` set ms)) \<and>
     (\<forall>n i. notified s n i \<noteq> None \<longrightarrow> notified s' n i \<noteq> None) \<and>
     entitled s' = entitled s \<and> notice_ids s' = notice_ids s \<and> row_ids s' = row_ids s \<and> core s' = core s"

abbreviation none_fail :: "notice \<Rightarrow> string \<Rightarrow> nat" where
  "none_fail \<equiv> \<lambda>_ _. 0"

lemma mails_sent_same:
  "notified s' = notified s \<Longrightarrow> emails s' = emails s \<Longrightarrow> entitled s' = entitled s \<Longrightarrow> notice_ids s' = notice_ids s \<Longrightarrow>
   row_ids s' = row_ids s \<Longrightarrow> core s' = core s \<Longrightarrow> mails_sent live f s s' []"
  by (auto simp: mails_sent_def)

lemma mails_sent_refl: "mails_sent live f s s []"
  by (simp add: mails_sent_same)

lemma mails_sent_redis: "mails_sent live f s (s\<lparr>redis := d\<rparr>) []"
  by (simp add: mails_sent_same)

lemma mails_sent_mono:
  assumes "mails_sent live f s s' ms" "\<And>n i. f n i \<le> g n i" "live' \<longrightarrow> live"
  shows "mails_sent live' g s s' ms"
proof -
  have "times_sent n i ms \<le> (if notified s' n i = None then 0 else 1) + g n i" for n i
    using assms(1,2) unfolding mails_sent_def by (meson add_left_mono le_trans)
  with assms(1,3) show ?thesis by (simp add: mails_sent_def)
qed

lemma mails_sent_trans:
  assumes "mails_sent live f s t ms" "mails_sent live g t u ns"
  shows "mails_sent live (\<lambda>n i. f n i + g n i) s u (ms @ ns)"
proof -
  have "times_sent n i (ms @ ns) \<le> (if notified u n i = None then 0 else 1) + (f n i + g n i)" for n i
  proof -
    have 1: "times_sent n i ms \<le> (if notified t n i = None then 0 else 1) + f n i"
      and 2: "times_sent n i ns \<le> (if notified u n i = None then 0 else 1) + g n i"
      and keep: "notified t n i \<noteq> None \<Longrightarrow> notified u n i \<noteq> None"
      using assms by (simp_all add: mails_sent_def)
    have "(n, i) \<notin> fst ` set ns" if "notified t n i \<noteq> None" using assms(2) that by (auto simp: mails_sent_def)
    then have "notified t n i \<noteq> None \<Longrightarrow> times_sent n i ns = 0" unfolding times_sent_mem by simp
    with 1 2 keep show ?thesis by (cases "notified t n i = None") auto
  qed
  moreover have "notified s n i = None \<and> entitled s n i = Some (em_to e)" if "((n, i), e) \<in> set (ms @ ns)" for n i e
    using that assms by (fastforce simp: mails_sent_def)
  moreover have "(n, i) \<in> fst ` set (ms @ ns)"
    if "live" "notified s n i = None" "notified u n i \<noteq> None" "truthy (entitled s n i)" for n i
  proof (cases "notified t n i = None")
    case True
    with that assms(2) assms(1) have "(n, i) \<in> fst ` set ns" unfolding mails_sent_def by metis
    then show ?thesis by (simp add: image_Un)
  next
    case False
    with that assms(1) have "(n, i) \<in> fst ` set ms" unfolding mails_sent_def by blast
    then show ?thesis by (simp add: image_Un)
  qed
  ultimately show ?thesis using assms by (simp add: mails_sent_def)
qed

text \<open>One row: the loop's treatment of it costs one of \<open>f\<close> when its stamp fails.\<close>

definition failing :: "mail_world \<Rightarrow> notice set \<Rightarrow> string set \<Rightarrow> notice \<Rightarrow> string \<Rightarrow> nat" where
  "failing w N I n i = (if n \<in> N \<and> i \<in> I \<and> \<not> mw_stamp w n i then 1 else 0)"

lemma stamp_run:
  "stamp w now n i s = (if mw_stamp w n i
     then (Inr (), (touch n now i s)\<lparr>notified := (notified s)(n := (notified s n)(i := Some now))\<rparr>) else (Inl (Crash ''database''), s))"
  by (simp add: stamp_def)

lemma mails_sent_stamp:
  assumes "\<not> truthy (entitled s n i)"
  shows "mails_sent live f s (snd (stamp w now n i s)) []"
    and "\<forall>k j. (k, j) \<noteq> (n, i) \<longrightarrow> notified (snd (stamp w now n i s)) k j = notified s k j"
  using assms by (auto simp: stamp_run mails_sent_def)

lemma try_mail_run:
  "try_mail w now n i e acc s =
     (if e = None \<or> \<not> mw_stub w \<and> \<not> mw_deliver w (the e) then (Inr (acc\<lparr>lr_failed := lr_failed acc + 1\<rparr>), s)
      else let s1 = (if mw_stub w then s else s\<lparr>emails := emails s @ [the e]\<rparr>) in
        if mw_stamp w n i then (Inr (acc\<lparr>lr_sent := lr_sent acc + 1\<rparr>), snd (stamp w now n i s1))
        else (Inr (acc\<lparr>lr_failed := lr_failed acc + 1\<rparr>), s1))"
  by (cases e) (simp_all add: try_mail_def email_send_def catch_def seq_def stamp_run Let_def)

lemma try_mail_returns: "\<exists>acc'. fst (try_mail w now n i e acc s) = Inr acc'"
  by (simp add: try_mail_run Let_def)

lemma mails_sent_mail:
  assumes "notified s n i = None" "\<And>m. e = Some m \<Longrightarrow> entitled s n i = Some (em_to m)"
  shows "\<exists>ms. mails_sent (\<not> mw_stub w) (failing w {n} {i}) s (snd (try_mail w now n i e acc s)) ms"
    and "\<forall>k j. (k, j) \<noteq> (n, i) \<longrightarrow> notified (snd (try_mail w now n i e acc s)) k j = notified s k j"
proof -
  have "mails_sent (\<not> mw_stub w) (failing w {n} {i}) s (snd (try_mail w now n i e acc s))
      (if e = None \<or> mw_stub w \<or> \<not> mw_deliver w (the e) then [] else [((n, i), the e)])"
  proof (cases "e = None \<or> \<not> mw_stub w \<and> \<not> mw_deliver w (the e)")
    case True
    then show ?thesis by (auto simp: try_mail_run mails_sent_refl)
  next
    case False
    with assms show ?thesis
      by (cases "mw_stub w"; cases "mw_stamp w n i") (auto simp: try_mail_run stamp_run Let_def mails_sent_def failing_def)
  qed
  then show "\<exists>ms. mails_sent (\<not> mw_stub w) (failing w {n} {i}) s (snd (try_mail w now n i e acc s)) ms" by blast
  show "\<forall>k j. (k, j) \<noteq> (n, i) \<longrightarrow> notified (snd (try_mail w now n i e acc s)) k j = notified s k j"
    by (auto simp: try_mail_run stamp_run Let_def)
qed

section \<open>The rows a lane takes\<close>

lemma mset_nulls_last: "mset (nulls_last f xs) = mset xs"
  by (induction xs) (auto simp: nulls_last_def)

lemma batch_elem:
  assumes "\<And>xs. mset (order xs) = mset xs" and "(i, t) \<in> set (batch k order P key f rows)"
  obtains r where "r \<in> set rows" "P r" "i = key r" "t = f r"
proof -
  have "set (order xs) = set xs" for xs using assms(1) mset_eq_setD by blast
  with assms(2) that show ?thesis by (auto simp: batch_def dest!: in_set_takeD)
qed

lemma batch_distinct:
  assumes "\<And>xs. mset (order xs) = mset xs" and "distinct (map key rows)"
  shows "distinct (map fst (batch k order P key f rows))"
proof -
  have "mset (map key (order (filter P rows))) = mset (map key (filter P rows))" by (simp add: assms(1))
  then have "distinct (map key (order (filter P rows)))"
    using assms(2) by (metis distinct_map_filter mset_eq_imp_distinct_iff)
  then show ?thesis by (simp add: batch_def comp_def take_map [symmetric])
qed

lemma length_batch:
  assumes "\<And>xs. mset (order xs) = mset xs"
  shows "length (batch k order P key f rows) = min k (length (filter P rows))"
  using mset_eq_length [OF assms, of "filter P rows"] by (simp add: batch_def min.commute)

lemma lane_distinct:
  assumes "notice_keys_ok s"
  shows "distinct (map fst (lane_rows c s n))"
  using assms by (cases n) (auto simp: notice_keys_ok_def row_ids_def intro!: batch_distinct mset_nulls_last)

lemma compose_Some: "compose a x sub ab = Some e \<Longrightarrow> em_to e = a"
  by (auto simp: compose_def)

lemma payer_mail_Some:
  assumes "payer_mail s mid cr email amount sub ab = Mail r (Some e)"
  shows "email = Some (em_to e) \<and> r = Some cr"
  using assms by (auto simp: payer_mail_def truthy_def Let_def bind_eq_Some_conv dest!: compose_Some split: if_splits option.splits)

lemma payer_mail_Stamp: "payer_mail s mid cr email amount sub ab = Stamp_Only \<longleftrightarrow> \<not> truthy email"
  by (simp add: payer_mail_def)

lemma lane_entitled:
  assumes keys: "notice_keys_ok s" and row: "(i, t) \<in> set (lane_rows c s n)"
  shows "notified s n i = None \<and> (\<forall>r e. t = Mail r (Some e) \<longrightarrow> entitled s n i = Some (em_to e)) \<and>
    (t = Stamp_Only \<longrightarrow> \<not> truthy (entitled s n i))"
proof -
  note known = keys [unfolded notice_keys_ok_def row_ids_def, simplified]
  note elem = batch_elem [where order = "sort_key f" for f, OF mset_sort] batch_elem [where order = "nulls_last f" for f, OF mset_nulls_last]
  show ?thesis
  proof (cases n)
    case Merchant_Welcome
    with row known show ?thesis
      by (auto elim!: elem simp: welcome_todo_def merchant_mail_def merchant_of_def if_some_def find_row_self)
  next
    case Merchant_Payment
    with row known show ?thesis
      by (auto elim!: elem simp: payment_todo_def merchant_mail_def if_some_def find_row_self dest!: compose_Some split: option.splits if_splits)
  next
    case Merchant_Sub_Started
    with row known show ?thesis
      by (auto elim!: elem simp: sub_started_todo_def merchant_mail_def sub_of_def if_some_def find_row_self dest!: compose_Some split: option.splits if_splits)
  next
    case Merchant_Charged
    with row known show ?thesis
      by (auto elim!: elem simp: charged_todo_def merchant_mail_def if_some_def find_row_self dest!: compose_Some split: option.splits if_splits)
  next
    case Merchant_Security
    with row known show ?thesis
      by (auto elim!: elem simp: security_todo_def security_mail_def merchant_mail_def if_some_def find_row_self bind_eq_Some_conv split: option.splits if_splits)
  next
    case Payer_Payment
    with row known show ?thesis
      by (auto elim!: elem simp: receipt_todo_def if_some_def find_row_self payer_mail_Stamp dest!: payer_mail_Some)
  next
    case Payer_Sub_Started
    with row known show ?thesis
      by (auto elim!: elem simp: enrolled_todo_def sub_of_def find_row_self payer_mail_Stamp dest!: payer_mail_Some split: option.splits)
  next
    case Payer_Charged
    with row known show ?thesis
      by (auto elim!: elem simp: renewal_todo_def if_some_def find_row_self payer_mail_Stamp dest!: payer_mail_Some
          split: option.splits if_splits Option.bind_split_asm)
  next
    case Payer_Refund
    with row known show ?thesis
      by (auto elim!: elem simp: refunded_todo_def if_some_def find_row_self Let_def payer_mail_Stamp dest!: payer_mail_Some)
  qed
qed

section \<open>At most one mail per column and row\<close>

lemma allowance_run:
  obtains (allowed) d where "allowance f c now r s = (Inr True, s\<lparr>redis := d\<rparr>)"
  | (refused) d where "allowance f c now r s = (Inr False, s\<lparr>redis := d\<rparr>)" "r = Some False"
  | (broken) d e where "allowance f c now r s = (Inl e, s\<lparr>redis := d\<rparr>)" "f \<noteq> Redis_Ok"
proof (cases r)
  case None
  then have "allowance f c now r s = (Inr True, s\<lparr>redis := redis s\<rparr>)" by (simp add: allowance_def)
  then show ?thesis by (rule allowed)
next
  case (Some cr)
  let ?n = "sent_today now s + 1"
  let ?s = "s\<lparr>redis := (redis s)(todayKey now := Some (show_nat ?n))\<rparr>"
  note run = Some allowance_def reserve_def seq_def
  show ?thesis
  proof (cases "f = Incr_Fails")
    case True
    then have "allowance f c now r s = (Inl (Crash ''redis''), s\<lparr>redis := redis s\<rparr>)" by (simp add: run)
    then show ?thesis by (rule broken) (simp add: True)
  next
    case False
    then have eq: "allowance f c now r s = (if ?n = 1 \<and> f = Expire_Fails then Inl (Crash ''redis'')
        else Inr (\<not> ns_daily_email_budget c < ?n \<or> cr), ?s)" by (simp add: run)
    consider "?n = 1 \<and> f = Expire_Fails" | "\<not> (?n = 1 \<and> f = Expire_Fails)" "\<not> ns_daily_email_budget c < ?n \<or> cr"
      | "\<not> (?n = 1 \<and> f = Expire_Fails)" "\<not> (\<not> ns_daily_email_budget c < ?n \<or> cr)" by blast
    then show ?thesis
    proof cases
      case 1
      with eq have "allowance f c now r s = (Inl (Crash ''redis''), ?s)" by simp
      then show ?thesis by (rule broken) (use 1 in simp)
    next
      case 2
      with eq have "allowance f c now r s = (Inr True, ?s)" by (simp only: if_False)
      then show ?thesis by (rule allowed)
    next
      case 3
      with eq have "allowance f c now r s = (Inr False, ?s)" by (simp only: if_False)
      then show ?thesis by (rule refused) (use 3 Some in simp)
    qed
  qed
qed

definition rows_due :: "store \<Rightarrow> notice \<Rightarrow> (string \<times> todo) list \<Rightarrow> bool" where
  "rows_due s n rows \<longleftrightarrow> distinct (map fst rows) \<and>
     (\<forall>i t. (i, t) \<in> set rows \<longrightarrow> notified s n i = None \<and> (\<forall>r e. t = Mail r (Some e) \<longrightarrow> entitled s n i = Some (em_to e)) \<and>
        (t = Stamp_Only \<longrightarrow> \<not> truthy (entitled s n i)))"

lemma rows_due_Cons:
  "rows_due s n ((i, t) # rows) \<longleftrightarrow> i \<notin> fst ` set rows \<and> notified s n i = None \<and>
     (\<forall>r e. t = Mail r (Some e) \<longrightarrow> entitled s n i = Some (em_to e)) \<and> (t = Stamp_Only \<longrightarrow> \<not> truthy (entitled s n i)) \<and>
     rows_due s n rows"
  by (auto simp: rows_due_def)

lemma rows_due_after:
  assumes "rows_due s n rows" "i \<notin> fst ` set rows" "mails_sent l f s s' ms" "\<And>j. j \<noteq> i \<Longrightarrow> notified s' n j = notified s n j"
  shows "rows_due s' n rows"
proof -
  have "notified s' n j = notified s n j" if "(j, t) \<in> set rows" for j t
    using assms(2,4) that by (metis fst_conv image_eqI)
  moreover have "entitled s' = entitled s" using assms(3) by (simp add: mails_sent_def)
  ultimately show ?thesis using assms(1) unfolding rows_due_def by simp
qed

text \<open>The effect of a lane \<open>n\<close> over the rows \<open>I\<close>; what is undisturbed are the columns of the other lanes.\<close>

definition lane_effect :: "mail_world \<Rightarrow> notice \<Rightarrow> string set \<Rightarrow> store \<Rightarrow> store \<Rightarrow> bool" where
  "lane_effect w n I s s' \<longleftrightarrow> (\<exists>ms. mails_sent (\<not> mw_stub w) (failing w {n} I) s s' ms) \<and>
     (\<forall>k j. k \<noteq> n \<longrightarrow> notified s' k j = notified s k j)"

lemma lane_effect_stop: "lane_effect w n I s s" "lane_effect w n I s (s\<lparr>redis := d\<rparr>)"
  unfolding lane_effect_def by (auto intro!: exI [of _ "[]"] mails_sent_refl mails_sent_redis)

lemma lane_effect_step:
  assumes "mails_sent (\<not> mw_stub w) (failing w {n} {i}) s s1 ms" "\<And>k j. k \<noteq> n \<Longrightarrow> notified s1 k j = notified s k j"
    and "lane_effect w n I s1 s'" and "i \<notin> I"
  shows "lane_effect w n (insert i I) s s'"
proof -
  from assms(3) obtain ns where "mails_sent (\<not> mw_stub w) (failing w {n} I) s1 s' ns" by (auto simp: lane_effect_def)
  from mails_sent_trans [OF assms(1) this]
  have "mails_sent (\<not> mw_stub w) (failing w {n} (insert i I)) s s' (ms @ ns)"
    by (rule mails_sent_mono) (use assms(4) in \<open>auto simp: failing_def\<close>)
  with assms(2,3) show ?thesis by (auto simp: lane_effect_def)
qed

lemma lane_loop_effect:
  "rows_due s n rows \<Longrightarrow> lane_effect w n (fst ` set rows) s (snd (lane_loop w c now n rows acc s))"
proof (induction rows arbitrary: s acc)
  case Nil
  then show ?case by (simp add: lane_effect_stop)
next
  case (Cons row rows)
  obtain i t where row: "row = (i, t)" by (cases row)
  note due = Cons.prems [unfolded row rows_due_Cons]
  have more: ?case if "mails_sent (\<not> mw_stub w) (failing w {n} {i}) s s1 ms"
    "\<And>k j. (k, j) \<noteq> (n, i) \<Longrightarrow> notified s1 k j = notified s k j"
    "snd (lane_loop w c now n (row # rows) acc s) = snd (lane_loop w c now n rows acc' s1)" for s1 ms acc'
  proof -
    have "rows_due s1 n rows" using rows_due_after [OF _ _ that(1)] due that(2) by auto
    from lane_effect_step [OF that(1) _ Cons.IH [OF this]] due that(2,3) show ?thesis by (auto simp: row)
  qed
  show ?case
  proof (cases t)
    case Stamp_Only
    with due have "\<not> truthy (entitled s n i)" by simp
    note st = mails_sent_stamp(1) [OF this, of "\<not> mw_stub w" "failing w {n} {i}" w now] mails_sent_stamp(2) [OF this, of w now]
    show ?thesis
    proof (cases "mw_stamp w n i")
      case True
      then show ?thesis using more [OF st(1)] st(2) by (simp add: row Stamp_Only seq_def stamp_run)
    next
      case False
      then show ?thesis by (simp add: row Stamp_Only seq_def stamp_run lane_effect_stop)
    qed
  next
    case (Mail r e)
    show ?thesis
    proof (cases rule: allowance_run [of "mw_redis w n i" c now r s])
      case (allowed d)
      let ?s = "s\<lparr>redis := d\<rparr>"
      note tried = mails_sent_mail [where s = ?s and n = n and i = i and e = e and acc = acc and w = w and now = now]
      from tried(1) due Mail obtain ms where m: "mails_sent (\<not> mw_stub w) (failing w {n} {i}) ?s (snd (try_mail w now n i e acc ?s)) ms" by auto
      obtain acc' where "fst (try_mail w now n i e acc ?s) = Inr acc'" using try_mail_returns by blast
      then have "snd (lane_loop w c now n (row # rows) acc s) = snd (lane_loop w c now n rows acc' (snd (try_mail w now n i e acc ?s)))"
        by (cases "try_mail w now n i e acc ?s") (simp add: row Mail seq_def allowed)
      moreover have "mails_sent (\<not> mw_stub w) (failing w {n} {i}) s (snd (try_mail w now n i e acc ?s)) ms"
        using mails_sent_trans [OF mails_sent_redis [of _ none_fail] m] by simp
      moreover have "\<forall>k j. (k, j) \<noteq> (n, i) \<longrightarrow> notified (snd (try_mail w now n i e acc ?s)) k j = notified s k j"
        using tried(2) due Mail by auto
      ultimately show ?thesis using more by blast
    qed (simp_all add: row Mail seq_def lane_effect_stop)
  qed
qed

lemma run_lane_effect: "notice_keys_ok s \<Longrightarrow> lane_effect w n (fst ` set (lane_rows c s n)) s (snd (run_lane w c now n s))"
proof -
  assume keys: "notice_keys_ok s"
  have "rows_due s n (lane_rows c s n)" unfolding rows_due_def using lane_distinct [OF keys] lane_entitled [OF keys] by blast
  then show ?thesis by (cases "mw_query w n") (simp_all add: run_lane_def seq_def lane_loop_effect lane_effect_stop)
qed

lemma mails_sent_keys: "mails_sent l f s s' ms \<Longrightarrow> notice_keys_ok s' = notice_keys_ok s"
  by (simp add: mails_sent_def notice_keys_ok_def)

lemma promise_all_snd: "snd (promise_all (m # ms) s) = snd (promise_all ms (snd (m s)))"
  by (simp split: prod.split sum.split)

lemma lanes_send:
  "distinct lanes \<Longrightarrow> notice_keys_ok s \<Longrightarrow>
   \<exists>ms. mails_sent (\<not> mw_stub w) (failing w (set lanes) UNIV) s (snd (promise_all (map (run_lane w c now) lanes) s)) ms"
proof (induction lanes arbitrary: s)
  case Nil
  then show ?case by (auto intro: mails_sent_refl)
next
  case (Cons n lanes)
  let ?s = "snd (run_lane w c now n s)"
  from run_lane_effect [OF Cons.prems(2)] obtain ms where
    1: "mails_sent (\<not> mw_stub w) (failing w {n} (fst ` set (lane_rows c s n))) s ?s ms" unfolding lane_effect_def by blast
  from Cons.IH [of ?s] 1 Cons.prems obtain ns where
    "mails_sent (\<not> mw_stub w) (failing w (set lanes) UNIV) ?s (snd (promise_all (map (run_lane w c now) lanes) ?s)) ns"
    by (auto simp: mails_sent_keys)
  from mails_sent_trans [OF 1 this] have
    "mails_sent (\<not> mw_stub w) (failing w (set (n # lanes)) UNIV) s (snd (promise_all (map (run_lane w c now) (n # lanes)) s)) (ms @ ns)"
    unfolding list.map promise_all_snd by (rule mails_sent_mono) (use Cons.prems(1) in \<open>auto simp: failing_def\<close>)
  then show ?case by blast
qed

text \<open>The ticks of the two crons, each with its own faults.\<close>

datatype notice_event = Merchant_Tick mail_world int | Payer_Tick mail_world int

fun event_world :: "notice_event \<Rightarrow> mail_world" where
  "event_world (Merchant_Tick w _) = w"
| "event_world (Payer_Tick w _) = w"

fun notice_tick :: "notice_settings \<Rightarrow> notice_event \<Rightarrow> store \<Rightarrow> store" where
  "notice_tick c (Merchant_Tick w now) s = snd (merchantTickNow w c now s)"
| "notice_tick c (Payer_Tick w now) s = snd (payerTickNow w c now s)"

lemma seq_ret_snd: "snd (seq m (\<lambda>x. ret (f x)) s) = snd (m s)"
  by (simp add: seq_def split: prod.split sum.split)

lemma tick_sends:
  assumes "notice_keys_ok s"
  shows "\<exists>ms. mails_sent (\<not> mw_stub (event_world ev)) (failing (event_world ev) UNIV UNIV) s (notice_tick c ev s) ms"
proof -
  have "\<exists>ms. mails_sent (\<not> mw_stub w) (failing w UNIV UNIV) s (snd (promise_all (map (run_lane w c now) lanes) s)) ms"
    if "distinct lanes" for w now lanes
  proof -
    from lanes_send [OF that assms] obtain ms where
      "mails_sent (\<not> mw_stub w) (failing w (set lanes) UNIV) s (snd (promise_all (map (run_lane w c now) lanes) s)) ms" by blast
    then have "mails_sent (\<not> mw_stub w) (failing w UNIV UNIV) s (snd (promise_all (map (run_lane w c now) lanes) s)) ms"
      by (rule mails_sent_mono) (auto simp: failing_def)
    then show ?thesis by blast
  qed
  moreover have "distinct MERCHANT_LANES" "distinct PAYER_LANES" by (simp_all add: MERCHANT_LANES_def PAYER_LANES_def)
  ultimately show ?thesis by (cases ev) (auto simp: merchantTickNow_def payerTickNow_def seq_ret_snd)
qed

text \<open>The number of ticks in which a stamp failed.\<close>

definition failed_stamps :: "notice_event list \<Rightarrow> notice \<Rightarrow> string \<Rightarrow> nat" where
  "failed_stamps evs n i = length (filter (\<lambda>ev. \<not> mw_stamp (event_world ev) n i) evs)"

lemma ticks_send:
  "notice_keys_ok s \<Longrightarrow> \<exists>ms. mails_sent (list_all (\<lambda>ev. \<not> mw_stub (event_world ev)) evs) (failed_stamps evs) s (fold (notice_tick c) evs s) ms"
proof (induction evs arbitrary: s)
  case Nil
  then show ?case by (auto intro: mails_sent_refl)
next
  case (Cons ev evs)
  let ?live = "list_all (\<lambda>ev. \<not> mw_stub (event_world ev)) (ev # evs)"
  obtain ms where "mails_sent (\<not> mw_stub (event_world ev)) (failing (event_world ev) UNIV UNIV) s (notice_tick c ev s) ms"
    using tick_sends [OF Cons.prems] by blast
  then have 1: "mails_sent ?live (failing (event_world ev) UNIV UNIV) s (notice_tick c ev s) ms" by (rule mails_sent_mono) simp_all
  obtain ns where "mails_sent (list_all (\<lambda>ev. \<not> mw_stub (event_world ev)) evs) (failed_stamps evs) (notice_tick c ev s) (fold (notice_tick c) evs (notice_tick c ev s)) ns"
    using Cons.IH [of "notice_tick c ev s"] mails_sent_keys [OF 1] Cons.prems by blast
  then have "mails_sent ?live (failed_stamps evs) (notice_tick c ev s) (fold (notice_tick c) evs (notice_tick c ev s)) ns"
    by (rule mails_sent_mono) simp_all
  from mails_sent_trans [OF 1 this] have "mails_sent ?live (failed_stamps (ev # evs)) s (fold (notice_tick c) (ev # evs) s) (ms @ ns)"
    unfolding fold_simps by (rule mails_sent_mono) (auto simp: failing_def failed_stamps_def)
  then show ?case by blast
qed

section \<open>Receipts arrive\<close>

definition good_world :: "mail_world \<Rightarrow> bool" where
  "good_world w \<longleftrightarrow> \<not> mw_stub w \<and> (\<forall>e. mw_deliver w e) \<and> (\<forall>n. mw_query w n) \<and> (\<forall>n i. mw_redis w n i = Redis_Ok) \<and>
     (\<forall>n i. mw_stamp w n i)"

text \<open>The rows a critical receipt is composed from are complete: decimal amounts, and the rows the foreign keys name.\<close>

definition receipts_composable :: "store \<Rightarrow> bool" where
  "receipts_composable s \<longleftrightarrow>
     (\<forall>r\<in>set (sessions s). list_all is_digit (ps_amount r) \<and> merchant_of s (ps_merchant_id r) \<noteq> None) \<and>
     (\<forall>r\<in>set (subs s). list_all is_digit (su_amount r) \<and> merchant_of s (su_merchant_id r) \<noteq> None \<and> plan_of s (su_plan_id r) \<noteq> None) \<and>
     (\<forall>r\<in>set (refunds s). list_all is_digit (rf_amount r) \<and> merchant_of s (rf_merchant_id r) \<noteq> None \<and>
        (\<forall>t. find_row tx_id (rf_transaction_id r) (transactions s) = Some t \<longrightarrow> list_all is_digit (tx_amount t)))"

definition CRITICAL :: "notice set" where
  "CRITICAL = {Payer_Payment, Payer_Sub_Started, Payer_Refund}"

lemma composable_core: "receipts_composable (core s) = receipts_composable s"
  by (simp add: receipts_composable_def core_def merchant_of_def plan_of_def)

lemma composable_sends: "mails_sent l f s s' ms \<Longrightarrow> receipts_composable s' = receipts_composable s"
  by (metis composable_core mails_sent_def)

lemma payer_mail_composes:
  assumes "merchant_of s mid \<noteq> None" "amount \<noteq> None"
  shows "payer_mail s mid cr email amount sub ab = Stamp_Only \<or> (\<exists>e. payer_mail s mid cr email amount sub ab = Mail (Some cr) (Some e))"
  using assms by (auto simp: payer_mail_def compose_def Let_def)

lemma critical_rows:
  assumes "receipts_composable s" "n \<in> CRITICAL" "(i, t) \<in> set (lane_rows c s n)"
  shows "t = Stamp_Only \<or> (\<exists>e. t = Mail (Some True) (Some e))"
proof -
  have amount: "amount_display a u \<noteq> None" if "list_all is_digit a" for a u using that by (simp add: amount_display_def)
  consider "n = Payer_Payment" | "n = Payer_Sub_Started" | "n = Payer_Refund" using assms(2) by (auto simp: CRITICAL_def)
  then show ?thesis
  proof cases
    case 1
    with assms(3) obtain r where r: "r \<in> set (sessions s)" "t = receipt_todo c s r"
      by (auto elim: batch_elem [where order = "sort_key ps_updated_at", OF mset_sort])
    with assms(1) show ?thesis unfolding r(2) receipt_todo_def receipts_composable_def
      by (intro payer_mail_composes amount) auto
  next
    case 2
    with assms(3) obtain r where r: "r \<in> set (subs s)" "t = enrolled_todo c s r"
      by (auto elim: batch_elem [where order = "sort_key su_created_at", OF mset_sort])
    with assms(1) obtain p where p: "plan_of s (su_plan_id r) = Some p" by (auto simp: receipts_composable_def)
    from r(1) assms(1) show ?thesis unfolding r(2) enrolled_todo_def receipts_composable_def p option.case
      by (intro payer_mail_composes amount) auto
  next
    case 3
    with assms(3) obtain r where r: "r \<in> set (refunds s)" "t = refunded_todo c s r"
      by (auto elim: batch_elem [where order = "nulls_last rf_completed_at", OF mset_nulls_last])
    have "amount_display (rf_amount r) (rf_currency r) \<noteq> None" and "merchant_of s (rf_merchant_id r) \<noteq> None"
      "\<And>x. find_row tx_id (rf_transaction_id r) (transactions s) = Some x \<Longrightarrow> amount_display (tx_amount x) (tx_currency x) \<noteq> None"
      using r(1) assms(1) amount by (auto simp: receipts_composable_def)
    then show ?thesis unfolding r(2) refunded_todo_def Let_def
      by (intro payer_mail_composes) (auto split: option.split)
  qed
qed

lemma good_try_mail:
  assumes "good_world w"
  shows "notified (snd (try_mail w now n i (Some e) acc s)) = (notified s)(n := (notified s n)(i := Some now))"
    and "\<exists>acc'. fst (try_mail w now n i (Some e) acc s) = Inr acc'"
  using assms by (auto simp: good_world_def try_mail_run stamp_run Let_def)

lemma critical_loop:
  assumes "good_world w"
  shows "(\<And>i t. (i, t) \<in> set rows \<Longrightarrow> t = Stamp_Only \<or> (\<exists>e. t = Mail (Some True) (Some e))) \<Longrightarrow>
    notified (snd (lane_loop w c now n rows acc s)) n j = None \<longleftrightarrow> notified s n j = None \<and> j \<notin> fst ` set rows"
proof (induction rows arbitrary: acc s)
  case Nil
  then show ?case by simp
next
  case (Cons row rows)
  obtain i t where row: "row = (i, t)" by (cases row)
  have "t' = Stamp_Only \<or> (\<exists>e. t' = Mail (Some True) (Some e))" if "(i', t') \<in> set rows" for i' t'
    using Cons.prems [of i' t'] that by simp
  note IH = Cons.IH [OF this]
  from Cons.prems [of i t] row consider "t = Stamp_Only" | e where "t = Mail (Some True) (Some e)" by auto
  then show ?case
  proof cases
    case 1
    have "stamp w now n i s = (Inr (), (touch n now i s)\<lparr>notified := (notified s)(n := (notified s n)(i := Some now))\<rparr>)"
      using assms by (simp add: good_world_def stamp_run)
    then show ?thesis by (simp add: seq_def row 1 IH)
  next
    case 2
    have redis: "mw_redis w n i = Redis_Ok" using assms by (simp add: good_world_def)
    obtain d where al: "allowance (mw_redis w n i) c now (Some True) s = (Inr True, s\<lparr>redis := d\<rparr>)"
      by (rule allowance_run [of "mw_redis w n i" c now "Some True" s]) (simp_all add: redis)
    let ?s = "s\<lparr>redis := d\<rparr>"
    obtain acc' where acc': "fst (try_mail w now n i (Some e) acc ?s) = Inr acc'" using good_try_mail(2) [OF assms] by blast
    have "lane_loop w c now n (row # rows) acc s = lane_loop w c now n rows acc' (snd (try_mail w now n i (Some e) acc ?s))"
      using acc' by (cases "try_mail w now n i (Some e) acc ?s") (simp add: row 2 seq_def al)
    then show ?thesis by (simp add: row IH good_try_mail(1) [OF assms])
  qed
qed

lemma pending_distinct: "notice_keys_ok s \<Longrightarrow> distinct (pending s n)"
  by (cases n) (auto simp: pending_def notice_keys_ok_def row_ids_def intro!: distinct_filter distinct_map_filter)

lemma critical_batch:
  assumes "n \<in> CRITICAL"
  shows "length (lane_rows c s n) = min (ns_batch_size c) (length (pending s n))"
    and "fst ` set (lane_rows c s n) \<subseteq> set (pending s n)"
proof -
  have "length (filter (\<lambda>i. N i = None) (map key (filter P t))) = length (filter (\<lambda>r. P r \<and> N (key r) = None) t)"
    for N :: "string \<Rightarrow> int option" and key :: "'r \<Rightarrow> string" and P t
    by (induction t) auto
  note shape = this
  note elem = batch_elem [where order = "sort_key f" for f, OF mset_sort] batch_elem [where order = "nulls_last f" for f, OF mset_nulls_last]
  consider "n = Payer_Payment" | "n = Payer_Sub_Started" | "n = Payer_Refund" using assms by (auto simp: CRITICAL_def)
  then show "length (lane_rows c s n) = min (ns_batch_size c) (length (pending s n))"
    by cases (simp_all add: pending_def shape length_batch mset_nulls_last conj_assoc,
      simp add: filter_map comp_def)
  from assms show "fst ` set (lane_rows c s n) \<subseteq> set (pending s n)"
    by (auto simp: CRITICAL_def pending_def elim!: elem)
qed

lemma critical_lane:
  assumes "good_world w" "notice_keys_ok s" "receipts_composable s" "n \<in> CRITICAL"
  shows "length (pending (snd (run_lane w c now n s)) n) = length (pending s n) - ns_batch_size c"
proof -
  let ?rows = "lane_rows c s n" and ?s = "snd (run_lane w c now n s)"
  have "notice_ids ?s = notice_ids s" using run_lane_effect [OF assms(2)] by (auto simp: lane_effect_def mails_sent_def)
  moreover have "notified ?s n j = None \<longleftrightarrow> notified s n j = None \<and> j \<notin> fst ` set ?rows" for j
    using critical_loop [OF assms(1) critical_rows [OF assms(3,4)]] assms(1) by (simp add: run_lane_def good_world_def)
  ultimately have "pending ?s n = filter (\<lambda>i. id i \<notin> set (map fst ?rows)) (pending s n)"
    by (auto simp: pending_def intro!: filter_cong)
  moreover have "length (filter (\<lambda>i. id i \<notin> set (map fst ?rows)) (pending s n)) = length (pending s n) - length (map fst ?rows)"
    by (rule length_filter_not_in) (use pending_distinct lane_distinct critical_batch(2) assms in auto)
  ultimately show ?thesis by (simp add: critical_batch(1) [OF assms(4)])
qed

lemma critical_lanes:
  assumes w: "good_world w" and n: "n \<in> CRITICAL"
  shows "distinct lanes \<Longrightarrow> notice_keys_ok s \<Longrightarrow> receipts_composable s \<Longrightarrow>
    length (pending (snd (promise_all (map (run_lane w c now) lanes) s)) n) =
      (if n \<in> set lanes then length (pending s n) - ns_batch_size c else length (pending s n))"
proof (induction lanes arbitrary: s)
  case Nil
  then show ?case by simp
next
  case (Cons k lanes)
  let ?s = "snd (run_lane w c now k s)"
  have 1: "\<forall>l j. l \<noteq> k \<longrightarrow> notified ?s l j = notified s l j" and ids: "notice_ids ?s = notice_ids s"
    and keys: "notice_keys_ok ?s" "receipts_composable ?s"
    using run_lane_effect [OF Cons.prems(2), of w k c now] Cons.prems(2,3)
    by (auto simp: lane_effect_def mails_sent_keys composable_sends) (simp add: mails_sent_def)
  have "length (pending ?s n) = (if n = k then length (pending s n) - ns_batch_size c else length (pending s n))"
  proof (cases "n = k")
    case True
    then show ?thesis using critical_lane [OF w Cons.prems(2,3) n] by simp
  next
    case False
    with 1 ids show ?thesis by (simp add: pending_def)
  qed
  moreover from Cons.IH [of ?s] Cons.prems keys have
    "length (pending (snd (promise_all (map (run_lane w c now) lanes) ?s)) n) =
      (if n \<in> set lanes then length (pending ?s n) - ns_batch_size c else length (pending ?s n))" by simp
  ultimately show ?case using Cons.prems(1) unfolding list.map promise_all_snd by auto
qed

lemma critical_tick:
  assumes "good_world w" "n \<in> CRITICAL" "notice_keys_ok s" "receipts_composable s"
  shows "length (pending (notice_tick c (Payer_Tick w now) s) n) = length (pending s n) - ns_batch_size c"
  using critical_lanes [OF assms(1,2) _ assms(3,4), of PAYER_LANES c now] assms(2)
  by (auto simp: payerTickNow_def seq_ret_snd PAYER_LANES_def CRITICAL_def)

lemma critical_ticks:
  assumes "notice_keys_ok s" "receipts_composable s" and "n \<in> CRITICAL"
    and "\<forall>(w, now)\<in>set ticks. good_world w" and "length (pending s n) \<le> length ticks * ns_batch_size c"
  shows "pending (fold (notice_tick c) (map (\<lambda>(w, now). Payer_Tick w now) ticks) s) n = []"
  using assms
proof (induction ticks arbitrary: s)
  case Nil
  then show ?case by simp
next
  case (Cons p ticks)
  obtain w now where p: "p = (w, now)" by (cases p)
  let ?s = "notice_tick c (Payer_Tick w now) s"
  have w: "good_world w" using Cons.prems p by simp
  obtain ms where "mails_sent (\<not> mw_stub w) (failing w UNIV UNIV) s ?s ms" using tick_sends [of s "Payer_Tick w now" c] Cons.prems(1) by auto
  then have "notice_keys_ok ?s" "receipts_composable ?s" using Cons.prems by (simp_all add: mails_sent_keys composable_sends)
  with Cons.IH [of ?s] Cons.prems critical_tick [OF w, of n s c now] p show ?case by simp
qed

section \<open>Properties\<close>

text \<open>
  C22. Mails are sent only when due, and once but for failed stamps. Whatever ticks of the merchant and payer crons
  follow one after the other, and whatever fails in them (the queries, Redis, the provider, the stamps): the mails that
  went out can be listed with the column and row of each so that a row has at most one mail of a column, and one more
  for each tick in which the stamp of that row and column failed; every such row was unstamped before, and its mail
  went to the address it is due to (the payment or charge has succeeded, the refund is completed, the merchant has not
  turned that kind off, the customer has an address); unless a tick ran in stub mode, every row that was stamped and
  has an address was mailed; apart from mails, stamps and their update times, and the counter of the day, nothing changes.
\<close>

theorem notices_at_most_once:
  assumes "notice_keys_ok s"
  shows "\<exists>ms. let s' = fold (notice_tick c) evs s in
    emails s' = emails s @ map snd ms \<and> core s' = core s \<and>
    (\<forall>n i. length (filter (\<lambda>m. fst m = (n, i)) ms) \<le>
       (if notified s' n i = None then 0 else 1) + length (filter (\<lambda>ev. \<not> mw_stamp (event_world ev) n i) evs)) \<and>
    (\<forall>n i e. ((n, i), e) \<in> set ms \<longrightarrow> notified s n i = None \<and> entitled s n i = Some (em_to e)) \<and>
    ((\<forall>ev\<in>set evs. \<not> mw_stub (event_world ev)) \<longrightarrow>
       (\<forall>n i. notified s n i = None \<and> notified s' n i \<noteq> None \<and> truthy (entitled s n i) \<longrightarrow> (n, i) \<in> fst ` set ms))"
  using ticks_send [OF assms, of evs c]
  unfolding mails_sent_def failed_stamps_def times_sent_def Let_def list_all_iff by blast

text \<open>
  C23. Critical receipts arrive. With a provider, Redis and a database that work, no stub mode, and complete rows, as
  many payer ticks as batches fit, one after the other, leave no payment, enrolment or refund receipt pending, whatever
  the daily budget is and whatever the other lanes do; and of the mails they send each receipt that was pending and whose
  payer has an address has exactly one, to that address, and one whose payer has none has none.
\<close>

theorem critical_receipts_drain:
  assumes "notice_keys_ok s" "receipts_composable s" and "n \<in> CRITICAL"
    and "\<forall>(w, now)\<in>set ticks. good_world w" and "length (pending s n) \<le> length ticks * ns_batch_size c"
  shows "\<exists>ms. let s' = fold (notice_tick c) (map (\<lambda>(w, now). Payer_Tick w now) ticks) s in
    pending s' n = [] \<and> emails s' = emails s @ map snd ms \<and>
    (\<forall>i\<in>set (pending s n).
       (truthy (entitled s n i) \<longrightarrow> (\<exists>e. filter (\<lambda>m. fst m = (n, i)) ms = [((n, i), e)] \<and> entitled s n i = Some (em_to e))) \<and>
       (entitled s n i = None \<longrightarrow> (n, i) \<notin> fst ` set ms))"
proof -
  let ?evs = "map (\<lambda>(w, now). Payer_Tick w now) ticks"
  let ?s' = "fold (notice_tick c) ?evs s"
  have good: "good_world (event_world ev)" if "ev \<in> set ?evs" for ev using that assms(4) by auto
  then have live: "list_all (\<lambda>ev. \<not> mw_stub (event_world ev)) ?evs" and none: "failed_stamps ?evs n i = 0" for i
    by (auto simp: list_all_iff good_world_def failed_stamps_def filter_empty_conv)
  obtain ms where ms: "mails_sent True (failed_stamps ?evs) s ?s' ms"
    using ticks_send [OF assms(1), of ?evs c] live by auto
  have drained: "pending ?s' n = []" by (rule critical_ticks [OF assms])
  have "\<exists>e. filter (\<lambda>m. fst m = (n, i)) ms = [((n, i), e)] \<and> entitled s n i = Some (em_to e)"
    if "i \<in> set (pending s n)" "truthy (entitled s n i)" for i
  proof -
    have "notified s n i = None" "i \<in> set (notice_ids s n)" using that(1) by (auto simp: pending_def)
    moreover from this drained ms have "notified ?s' n i \<noteq> None" by (auto simp: pending_def mails_sent_def filter_empty_conv)
    ultimately have "(n, i) \<in> fst ` set ms" using ms that(2) unfolding mails_sent_def by blast
    then have "1 \<le> times_sent n i ms" unfolding times_sent_mem .
    moreover have "times_sent n i ms \<le> (if notified ?s' n i = None then 0 else 1) + failed_stamps ?evs n i"
      using ms by (simp only: mails_sent_def)
    then have "times_sent n i ms \<le> 1" unfolding none by (simp split: if_splits)
    ultimately obtain m where m: "filter (\<lambda>m. fst m = (n, i)) ms = [m]" by (auto simp: times_sent_def length_Suc_conv le_Suc_eq)
    then have "m \<in> set ms" "fst m = (n, i)" by (auto simp: filter_eq_Cons_iff)
    with m ms show ?thesis by (cases m) (auto simp: mails_sent_def)
  qed
  moreover have "(n, i) \<notin> fst ` set ms" if "entitled s n i = None" for i using that ms by (auto simp: mails_sent_def)
  ultimately show ?thesis using drained ms unfolding Let_def mails_sent_def by (intro exI [of _ ms]) simp
qed

section \<open>Samples\<close>

definition sample_settings :: notice_settings where
  [sample_defs]: "sample_settings = \<lparr>ns_environment = Testnet, ns_batch_size = 50, ns_daily_email_budget = 90,
     ns_send_charge_receipts = False, ns_dashboard_url = None, ns_short_date = show_int, ns_long_date = show_int,
     ns_date_time = show_int, ns_utc = show_int\<rparr>"

definition working_mail :: mail_world where
  [sample_defs]: "working_mail = \<lparr>mw_stub = False, mw_query = (\<lambda>_. True), mw_redis = (\<lambda>_ _. Redis_Ok),
     mw_deliver = (\<lambda>_. True), mw_stamp = (\<lambda>_ _. True)\<rparr>"

definition sample_payer :: customer_row where
  [sample_defs]: "sample_payer = \<lparr>cu_id = ''cu1'', cu_merchant_id = ''m1'', cu_wallet_address = other_address,
     cu_email = Some ''payer@test'', cu_external_ref = None, cu_display_name = None, cu_email_history = [],
     cu_metadata = [], cu_first_seen_at = 0, cu_last_seen_at = 0\<rparr>"

text \<open>A payment confirmed at time 500.\<close>

definition receipt_store :: store where
  [sample_defs]: "receipt_store = sample_store\<lparr>customers := [sample_payer],
     sessions := [sample_session\<lparr>ps_status := Confirmed, ps_customer_id := Some ''cu1'', ps_updated_at := 500\<rparr>]\<rparr>"

lemma receipt_store_ok: "notice_keys_ok receipt_store" "receipts_composable receipt_store"
  by (simp_all add: sample_defs notice_keys_ok_def row_ids_def receipts_composable_def merchant_of_def is_digit_def)

lemma receipt_due: "pending receipt_store Payer_Payment = [''ps1'']" "entitled receipt_store Payer_Payment ''ps1'' = Some ''payer@test''"
  by (simp_all add: sample_defs pending_def if_some_def customer_email_def)

lemma good_working: "good_world working_mail"
  by (simp add: good_world_def working_mail_def)

text \<open>Two ticks, the stamp of the first failing: the receipt goes out at most twice.\<close>

theorem notices_at_most_once_witness:
  "\<exists>ms. emails (fold (notice_tick sample_settings)
        [Payer_Tick (working_mail\<lparr>mw_stamp := (\<lambda>_ _. False)\<rparr>) 1000, Payer_Tick working_mail 31000] receipt_store) = emails receipt_store @ map snd ms \<and>
    length (filter (\<lambda>m. fst m = (Payer_Payment, ''ps1'')) ms) \<le> 2 \<and>
    (\<forall>e. ((Payer_Payment, ''ps1''), e) \<in> set ms \<longrightarrow> em_to e = ''payer@test'')"
proof -
  let ?evs = "[Payer_Tick (working_mail\<lparr>mw_stamp := (\<lambda>_ _. False)\<rparr>) 1000, Payer_Tick working_mail 31000]"
  let ?s' = "fold (notice_tick sample_settings) ?evs receipt_store"
  have one: "length (filter (\<lambda>ev. \<not> mw_stamp (event_world ev) n i) ?evs) = 1" for n i by (simp add: working_mail_def)
  from notices_at_most_once [OF receipt_store_ok(1), where evs = ?evs and c = sample_settings, unfolded Let_def one]
  obtain ms where ms: "emails ?s' = emails receipt_store @ map snd ms"
    "\<forall>n i. length (filter (\<lambda>m. fst m = (n, i)) ms) \<le> (if notified ?s' n i = None then 0 else 1) + 1"
    "\<forall>n i e. ((n, i), e) \<in> set ms \<longrightarrow> notified receipt_store n i = None \<and> entitled receipt_store n i = Some (em_to e)" by blast
  have "length (filter (\<lambda>m. fst m = (Payer_Payment, ''ps1'')) ms) \<le> 2"
    using ms(2) [THEN spec, THEN spec, of Payer_Payment "''ps1''"] by (auto split: if_splits)
  moreover have "em_to e = ''payer@test''" if "((Payer_Payment, ''ps1''), e) \<in> set ms" for e
    using ms(3) that receipt_due(2) by (metis option.inject)
  ultimately show ?thesis using ms(1) by blast
qed

theorem critical_receipts_drain_witness:
  "\<exists>ms e. let s' = fold (notice_tick sample_settings) (map (\<lambda>(w, now). Payer_Tick w now) [(working_mail, 1000)]) receipt_store in
     pending s' Payer_Payment = [] \<and> emails s' = emails receipt_store @ map snd ms \<and>
     filter (\<lambda>m. fst m = (Payer_Payment, ''ps1'')) ms = [((Payer_Payment, ''ps1''), e)] \<and> em_to e = ''payer@test''"
proof -
  have "Payer_Payment \<in> CRITICAL" "\<forall>(w, now)\<in>set [(working_mail, 1000 :: int)]. good_world w"
    "length (pending receipt_store Payer_Payment) \<le> length [(working_mail, 1000 :: int)] * ns_batch_size sample_settings"
    by (simp_all add: CRITICAL_def good_working receipt_due(1)) (simp add: sample_settings_def)
  note run = critical_receipts_drain [OF receipt_store_ok this, unfolded Let_def]
  have "''ps1'' \<in> set (pending receipt_store Payer_Payment)" "truthy (entitled receipt_store Payer_Payment ''ps1'')"
    unfolding receipt_due by (simp_all add: truthy_def)
  with run obtain ms e where
    "pending (fold (notice_tick sample_settings) (map (\<lambda>(w, now). Payer_Tick w now) [(working_mail, 1000)]) receipt_store) Payer_Payment = []"
    "emails (fold (notice_tick sample_settings) (map (\<lambda>(w, now). Payer_Tick w now) [(working_mail, 1000)]) receipt_store) =
      emails receipt_store @ map snd ms"
    "filter (\<lambda>m. fst m = (Payer_Payment, ''ps1'')) ms = [((Payer_Payment, ''ps1''), e)]"
    "entitled receipt_store Payer_Payment ''ps1'' = Some (em_to e)" unfolding Let_def by blast
  with receipt_due(2) show ?thesis unfolding Let_def by (intro exI [of _ ms] exI [of _ e]) simp
qed

text \<open>
  The receipt shows the session's last update as the time of the payment: once the merchant's mail has stamped the
  row, the payer is told that they paid at the time of that stamp.
\<close>

lemmas lane_evals = sample_defs run_lane_def batch_def receipt_todo_def payer_mail_def customer_email_def truthy_def merchant_of_def
  business_name_def compose_def amount_display_def is_digit_def allowance_def reserve_def try_mail_def email_send_def stamp_def
  seq_def catch_def Let_def set_or_def sent_today_def

lemma receipt_shows_stamp_time:
  "map (\<lambda>e. (em_to e, em_about e ! 4)) (emails (snd (run_lane working_mail sample_settings 9000 Payer_Payment
     (snd (stamp working_mail 7000 Merchant_Payment ''ps1'' receipt_store))))) = [(''payer@test'', show_int 7000)]"
  by (simp add: lane_evals)

text \<open>A mail goes out before its row is stamped: when the stamp cannot be written it goes out again.\<close>

lemma receipt_repeats_when_stamp_fails:
  "length (emails (snd (run_lane working_mail sample_settings 31000 Payer_Payment
     (snd (run_lane (working_mail\<lparr>mw_stamp := (\<lambda>_ _. False)\<rparr>) sample_settings 1000 Payer_Payment receipt_store))))) = 2"
  by (simp add: lane_evals)

text \<open>The shown cadence and next charge: the interval names are adverbs, and a month is a calendar month that may overflow.\<close>

lemma cadence_examples:
  "cadenceDisplay (interval_name Monthly) 1 = ''every monthly''"
  "cadenceDisplay (interval_name Weekly) 2 = ''every 2 weeklys''"
  by code_simp+

lemma next_charge_differs:
  "addInterval (20484 * DAY_MS) Monthly 1 = 20515 * DAY_MS"
  "civil_of_day 20484 = \<lparr>cv_year = 2026, cv_month = 1, cv_day = 31\<rparr>"
  "civil_of_day 20515 = \<lparr>cv_year = 2026, cv_month = 3, cv_day = 3\<rparr>"
  "20484 * DAY_MS + intervalSeconds Monthly 1 * 1000 = 20514 * DAY_MS"
  by code_simp+

end
