(* ===== verification/Plan_Upgrade.thy ===== *)
theory Plan_Upgrade
  imports Chain_Service Sweepers
begin

text \<open>
  \<open>apps/scheduler/src/crons/plan-upgrade/plan-upgrade.service.ts\<close>: merchants whose confirmed volume has
  reached a higher plan get the plan's fee on the registry, then the plan, an audit row and a mail. The
  merchants table is taken to be in the order of its ids, the order of the candidates.
\<close>

section \<open>Candidates\<close>

record plan_candidate =
  pc_id :: string
  pc_email :: string
  pc_business_name :: "string option"
  pc_onchain_merchant_id :: nat
  pc_tier :: merchant_tier
  pc_volumes :: payment_volumes

definition counted_tx :: "api_mode \<Rightarrow> string \<Rightarrow> tx_row \<Rightarrow> bool" where
  "counted_tx mode i t \<longleftrightarrow>
     tx_merchant_id t = i \<and> tx_status t = Tx_Confirmed \<and> tx_kind t \<noteq> Refund_Kind \<and> tx_mode t = mode"

definition tx_volume :: "api_mode \<Rightarrow> string \<Rightarrow> tx_row list \<Rightarrow> payment_volumes" where
  "tx_volume mode i txs currency =
     sum_list (map (\<lambda>t. BigInt (tx_amount t)) (filter (\<lambda>t. counted_tx mode i t \<and> tx_currency t = currency) txs))"

definition plan_candidates :: "config \<Rightarrow> store \<Rightarrow> plan_candidate list" where
  "plan_candidates cfg s =
     (let mode = arcModeFor (cf_arc_environment cfg) in
      map (\<lambda>m. \<lparr>pc_id = m_id m, pc_email = m_email m, pc_business_name = m_business_name m,
             pc_onchain_merchant_id = the (m_onchain_merchant_id m), pc_tier = m_tier m,
             pc_volumes = tx_volume mode (m_id m) (transactions s)\<rparr>)
        (filter (\<lambda>m. m_onchain_merchant_id m \<noteq> None \<and> m_tier m \<noteq> Enterprise \<and>
             list_ex (counted_tx mode (m_id m)) (transactions s)) (merchants s)))"

section \<open>One upgrade\<close>

record plan_upgrade =
  pu_candidate :: plan_candidate
  pu_next :: merchant_tier
  pu_fee_bps :: nat
  pu_tx_hash :: "string option"

definition volumesForAudit :: "payment_volumes \<Rightarrow> (payment_currency \<times> string) list" where
  "volumesForAudit volumes = [(USDC, show_int (volumes USDC)), (EURC, show_int (volumes EURC))]"

definition raise_tier :: "string \<Rightarrow> merchant_tier \<Rightarrow> merchant_tier \<Rightarrow> (store, api_exn, nat) proc" where
  "raise_tier i tier nxt =
     seq (gets (\<lambda>s. count_where (\<lambda>m. m_id m = i \<and> m_tier m = tier) (merchants s))) (\<lambda>count.
     seq (modify (\<lambda>s. s\<lparr>merchants := update_where (\<lambda>m. m_id m = i \<and> m_tier m = tier) (\<lambda>m. m\<lparr>m_tier := nxt\<rparr>) (merchants s)\<rparr>)) (\<lambda>_.
     ret count))"

definition upgrade_audit :: "plan_candidate \<Rightarrow> merchant_tier \<Rightarrow> nat \<Rightarrow> string option \<Rightarrow> audit_row" where
  "upgrade_audit candidate nxt feeBps txHash = \<lparr>au_id = None, au_merchant_id = Some (pc_id candidate), au_actor_id = None, au_category = ''merchant'',
     au_action = ''merchant.plan_upgraded'', au_target_type = ''Merchant'', au_target_id = pc_id candidate,
     au_metadata = Plan_Upgraded_Meta (pc_tier candidate) nxt feeBps txHash (volumesForAudit (pc_volumes candidate))\<rparr>"

definition upgrade_rows :: "plan_candidate \<Rightarrow> merchant_tier \<Rightarrow> nat \<Rightarrow> string option \<Rightarrow> (store, api_exn, bool) proc" where
  "upgrade_rows candidate nxt feeBps txHash = in_tx (
     seq (raise_tier (pc_id candidate) (pc_tier candidate) nxt) (\<lambda>count.
     if count = 0 then ret False
     else seq (modify (\<lambda>s. s\<lparr>audit := audit s @ [upgrade_audit candidate nxt feeBps txHash]\<rparr>)) (\<lambda>_. ret True)))"

definition upgrade :: "chain_world \<Rightarrow> plan_candidate \<Rightarrow> merchant_tier \<Rightarrow> plan_upgrade option worker" where
  "upgrade w candidate nxt =
     (case planFeeBps nxt of
        None \<Rightarrow> raise (Crash ''the plan has no fixed fee'')
      | Some feeBps \<Rightarrow>
          seq (readMerchantFeeBps w (pc_onchain_merchant_id candidate)) (\<lambda>registryFeeBps.
          seq (if registryFeeBps = feeBps then ret None
               else seq (setMerchantFeeBps w (pc_onchain_merchant_id candidate) feeBps) (\<lambda>h. ret (Some h))) (\<lambda>txHash.
          seq (on_db (upgrade_rows candidate nxt feeBps txHash)) (\<lambda>moved.
          ret (if moved
               then Some \<lparr>pu_candidate = candidate, pu_next = nxt, pu_fee_bps = feeBps, pu_tx_hash = txHash\<rparr>
               else None)))))"

section \<open>The mail\<close>

definition FEATURE_NAMES :: "(plan_feature \<times> string) list" where
  "FEATURE_NAMES = [(Storefront_Builder, ''Storefront builder''), (Anomaly_Alerts, ''Anomaly alerts''),
     (Yield_Recommendations, ''Yield recommendations'')]"

text \<open>\<open>n / 100\<close> as JavaScript prints it, and \<open>toLocaleString('en-US')\<close> of a natural number.\<close>

definition hundredths :: "nat \<Rightarrow> string" where
  "hundredths n = show_nat (n div 100) @
     (if n mod 100 = 0 then [] else if n mod 10 = 0 then ''.'' @ show_nat (n mod 100 div 10)
      else ''.'' @ show_nat (n mod 100 div 10) @ show_nat (n mod 10))"

fun grouped :: "nat \<Rightarrow> string" where
  "grouped n =
     (if n < 1000 then show_nat n
      else grouped (n div 1000) @ '','' @ show_nat (n mod 1000 div 100) @ show_nat (n mod 100 div 10) @ show_nat (n mod 10))"

declare grouped.simps [simp del]

definition thresholdDisplay :: "merchant_tier \<Rightarrow> payment_volumes \<Rightarrow> api_exn + string" where
  "thresholdDisplay plan volumes =
     (case pd_enters_at_volume (PLANS plan) of
        None \<Rightarrow> Inl (Crash ''the plan has no volume threshold'')
      | Some threshold \<Rightarrow>
          (case find (\<lambda>t. int threshold * 10 ^ td_decimals (TOKENS (Pay t)) \<le> volumes t) PAYMENT_TOKENS of
             None \<Rightarrow> Inl (Crash ''no currency reached the threshold'')
           | Some token \<Rightarrow> Inr (grouped threshold @ '' '' @ currency_name token)))"

definition unlocked_features :: "merchant_tier \<Rightarrow> merchant_tier \<Rightarrow> string list" where
  "unlocked_features previous nxt =
     map snd (filter (\<lambda>(f, name). planIncludes nxt f \<and> \<not> planIncludes previous f) FEATURE_NAMES) @
     (if pd_priority_support (PLANS nxt) \<and> \<not> pd_priority_support (PLANS previous) then [''Priority email support''] else [])"

text \<open>\<open>mail_ok\<close> tells whether rendering and sending to an address succeed.\<close>

definition notify_upgrade :: "config \<Rightarrow> (string \<Rightarrow> bool) \<Rightarrow> plan_upgrade \<Rightarrow> (store, api_exn, bool) proc" where
  "notify_upgrade cfg mail_ok u =
     (let c = pu_candidate u; plan = PLANS (pu_next u); feeDisplay = hundredths (pu_fee_bps u) @ ''%'' in
      case thresholdDisplay (pu_next u) (pc_volumes c) of
        Inl e \<Rightarrow> ret False
      | Inr threshold \<Rightarrow>
          if mail_ok (pc_email c)
          then seq (modify (\<lambda>s. s\<lparr>emails := emails s @ [\<lparr>em_to = pc_email c,
                 em_subject = ''You've moved to '' @ pd_name plan @ '': '' @ feeDisplay @ '' per transaction'',
                 em_about = [pd_name plan, feeDisplay, threshold] @ unlocked_features (pc_tier c) (pu_next u) @
                   (case pu_tx_hash u of None \<Rightarrow> [] | Some h \<Rightarrow> [arcExplorerTxUrl (cf_arc_environment cfg) h])\<rparr>]\<rparr>)) (\<lambda>_. ret True)
          else ret False)"

section \<open>A run\<close>

record plan_upgrade_result =
  pr_checked :: nat
  pr_upgraded :: nat
  pr_failed :: nat
  pr_email_failed :: nat

definition no_upgrades :: plan_upgrade_result where
  "no_upgrades = \<lparr>pr_checked = 0, pr_upgraded = 0, pr_failed = 0, pr_email_failed = 0\<rparr>"

datatype upgrade_outcome = Upgrade_Failed | Upgrade_Left | Upgrade_Mailed bool

definition try_upgrade :: "config \<Rightarrow> chain_world \<Rightarrow> (string \<Rightarrow> bool) \<Rightarrow> plan_candidate \<Rightarrow> merchant_tier \<Rightarrow> upgrade_outcome worker" where
  "try_upgrade cfg w mail_ok candidate nxt =
     seq (catch (seq (upgrade w candidate nxt) (\<lambda>u. ret (Inr u))) (\<lambda>e. ret (Inl ()))) (\<lambda>r.
     case r of
       Inl _ \<Rightarrow> ret Upgrade_Failed
     | Inr None \<Rightarrow> ret Upgrade_Left
     | Inr (Some u) \<Rightarrow> seq (on_db (notify_upgrade cfg mail_ok u)) (\<lambda>sent. ret (Upgrade_Mailed sent)))"

fun count_outcome :: "upgrade_outcome \<Rightarrow> plan_upgrade_result \<Rightarrow> plan_upgrade_result" where
  "count_outcome Upgrade_Failed r = r\<lparr>pr_checked := pr_checked r + 1, pr_failed := pr_failed r + 1\<rparr>"
| "count_outcome Upgrade_Left r = r\<lparr>pr_checked := pr_checked r + 1\<rparr>"
| "count_outcome (Upgrade_Mailed sent) r = r\<lparr>pr_checked := pr_checked r + 1, pr_upgraded := pr_upgraded r + 1,
     pr_email_failed := pr_email_failed r + (if sent then 0 else 1)\<rparr>"

fun upgrade_each ::
  "config \<Rightarrow> chain_world \<Rightarrow> (string \<Rightarrow> bool) \<Rightarrow> plan_candidate list \<Rightarrow> plan_upgrade_result \<Rightarrow> plan_upgrade_result worker" where
  "upgrade_each cfg w mail_ok [] result = ret result"
| "upgrade_each cfg w mail_ok (c # cs) result =
     (case planUpgradeFor (pc_tier c) (pc_volumes c) of
        Inl e \<Rightarrow> raise e
      | Inr None \<Rightarrow> upgrade_each cfg w mail_ok cs result
      | Inr (Some nxt) \<Rightarrow>
          seq (try_upgrade cfg w mail_ok c nxt) (\<lambda>out. upgrade_each cfg w mail_ok cs (count_outcome out result)))"

text \<open>\<open>running\<close> is the flag that keeps two runs of one process apart.\<close>

definition upgradeNow :: "config \<Rightarrow> chain_world \<Rightarrow> (string \<Rightarrow> bool) \<Rightarrow> bool \<Rightarrow> plan_upgrade_result worker" where
  "upgradeNow cfg w mail_ok running =
     (if running then ret no_upgrades
      else seq (gets (\<lambda>x. plan_candidates cfg (wk_store x))) (\<lambda>cs. upgrade_each cfg w mail_ok cs no_upgrades))"

section \<open>What an upgrade does\<close>

text \<open>
  How a merchant may differ after a run: not at all, or moved to the plan its volume earned, with the plan's
  fee on the registry and an audit row.
\<close>

definition fee_landed :: "chain_world \<Rightarrow> worker_state \<Rightarrow> nat \<Rightarrow> nat \<Rightarrow> bool" where
  "fee_landed w x n fee \<longleftrightarrow> cw_merchant_fee_bps w n = Some fee \<or>
     (\<exists>h. Set_Fee_Bps n fee \<in> set (wk_writes x) \<and> cw_write w (Set_Fee_Bps n fee) = Some h \<and> cw_receipt_success w h = Some True)"

definition raised :: "chain_world \<Rightarrow> (string \<Rightarrow> payment_volumes) \<Rightarrow> worker_state \<Rightarrow> merchant_row \<Rightarrow> merchant_row \<Rightarrow> bool" where
  "raised w vol x m m' \<longleftrightarrow> m' = m \<or>
     (\<exists>p n fee a. planUpgradeFor (m_tier m) (vol (m_id m)) = Inr (Some p) \<and> m' = m\<lparr>m_tier := p\<rparr> \<and>
        m_onchain_merchant_id m = Some n \<and> planFeeBps p = Some fee \<and>
        fee_landed w x n fee \<and> a \<in> set (audit (wk_store x)) \<and> au_merchant_id a = Some (m_id m) \<and> (\<exists>h v. au_metadata a = Plan_Upgraded_Meta (m_tier m) p fee h v))"

lemma raised_mono:
  "raised w vol x m m' \<Longrightarrow> set (wk_writes x) \<subseteq> set (wk_writes y) \<Longrightarrow> set (audit (wk_store x)) \<subseteq> set (audit (wk_store y)) \<Longrightarrow>
   raised w vol y m m'"
  unfolding raised_def fee_landed_def by blast

definition advanced :: "chain_world \<Rightarrow> (string \<Rightarrow> payment_volumes) \<Rightarrow> merchant_row list \<Rightarrow> worker_state \<Rightarrow> bool" where
  "advanced w vol M x \<longleftrightarrow> list_all2 (raised w vol x) M (merchants (wk_store x))"

lemma advanced_grow:
  "advanced w vol M x \<Longrightarrow> merchants (wk_store y) = merchants (wk_store x) \<Longrightarrow> set (wk_writes x) \<subseteq> set (wk_writes y) \<Longrightarrow>
   set (audit (wk_store x)) \<subseteq> set (audit (wk_store y)) \<Longrightarrow> advanced w vol M y"
  unfolding advanced_def using raised_mono by (metis list_all2_mono)

lemma advanced_move:
  assumes adv: "advanced w vol M x" and keys: "distinct (map m_id M)"
    and m: "m \<in> set M" "m_onchain_merchant_id m = Some n" "planUpgradeFor (m_tier m) (vol (m_id m)) = Inr (Some p)"
    and fee: "planFeeBps p = Some fee" "fee_landed w y n fee"
    and grow: "set (wk_writes x) \<subseteq> set (wk_writes y)" "set (audit (wk_store x)) \<subseteq> set (audit (wk_store y))"
    and a: "a \<in> set (audit (wk_store y))" "au_merchant_id a = Some (m_id m)" "au_metadata a = Plan_Upgraded_Meta (m_tier m) p fee h v"
    and upd: "merchants (wk_store y) =
      update_where (\<lambda>r. m_id r = m_id m \<and> m_tier r = m_tier m) (\<lambda>r. r\<lparr>m_tier := p\<rparr>) (merchants (wk_store x))"
  shows "advanced w vol M y"
proof -
  have "raised w vol y r (if m_id r' = m_id m \<and> m_tier r' = m_tier m then r'\<lparr>m_tier := p\<rparr> else r')"
    if r: "r \<in> set M" "raised w vol x r r'" for r r'
  proof (cases "m_id r' = m_id m \<and> m_tier r' = m_tier m")
    case False
    with raised_mono [OF r(2) grow] show ?thesis by (simp only: if_False)
  next
    case True
    have "m_id r = m_id r'" using r(2) by (auto simp: raised_def)
    with True keys r(1) m(1) have rm: "r = m" by (auto simp: distinct_map inj_on_def)
    have "r' = m" using r(2) True planUpgradeFor_up unfolding raised_def rm by force
    with True rm show ?thesis
      unfolding raised_def using m(2,3) fee a by auto
  qed
  then show ?thesis
    using adv unfolding advanced_def upd update_where_def
    by (auto simp: list_all2_conv_all_nth simp del: if_split)
qed

lemma raise_tier_eq:
  "raise_tier i tier nxt s = (Inr (count_where (\<lambda>m. m_id m = i \<and> m_tier m = tier) (merchants s)),
     s\<lparr>merchants := update_where (\<lambda>m. m_id m = i \<and> m_tier m = tier) (\<lambda>m. m\<lparr>m_tier := nxt\<rparr>) (merchants s)\<rparr>)"
  by (simp add: raise_tier_def)

lemma upgrade_rows_eq:
  "upgrade_rows c nxt fee h s =
     (if count_where (\<lambda>m. m_id m = pc_id c \<and> m_tier m = pc_tier c) (merchants s) = 0 then (Inr False, s)
      else (Inr True, s\<lparr>merchants := update_where (\<lambda>m. m_id m = pc_id c \<and> m_tier m = pc_tier c) (\<lambda>m. m\<lparr>m_tier := nxt\<rparr>) (merchants s),
        audit := audit s @ [upgrade_audit c nxt fee h]\<rparr>))"
  by (simp add: upgrade_rows_def in_tx_def seq_def raise_tier_eq count_where_zero update_where_none)

text \<open>A candidate, as the query builds it from a merchant.\<close>

definition candidate_of :: "(string \<Rightarrow> payment_volumes) \<Rightarrow> merchant_row \<Rightarrow> plan_candidate \<Rightarrow> bool" where
  "candidate_of vol m c \<longleftrightarrow> pc_id c = m_id m \<and> m_onchain_merchant_id m = Some (pc_onchain_merchant_id c) \<and>
     pc_tier c = m_tier m \<and> pc_volumes c = vol (m_id m)"

lemma setMerchantFeeBps_eq:
  "setMerchantFeeBps w n fee x = (fst (setMerchantFeeBps w n fee x), x\<lparr>wk_writes := wk_writes x @ [Set_Fee_Bps n fee]\<rparr>)"
  by (auto simp: setMerchantFeeBps_def rpc_read_def seq_def writeContract_eq split: option.split)

lemma setMerchantFeeBps_landed:
  "fst (setMerchantFeeBps w n fee x) = Inr h \<Longrightarrow> fee_landed w (x\<lparr>wk_writes := wk_writes x @ [Set_Fee_Bps n fee]\<rparr>) n fee"
  by (auto simp: setMerchantFeeBps_def rpc_read_def seq_def writeContract_eq fee_landed_def split: option.splits if_splits)

lemma upgrade_rows_advance:
  assumes adv: "advanced w vol M x" and keys: "distinct (map m_id M)" and m: "m \<in> set M" "candidate_of vol m c"
    and up: "planUpgradeFor (pc_tier c) (pc_volumes c) = Inr (Some p)" and fee: "planFeeBps p = Some fee"
    and landed: "fee_landed w x (pc_onchain_merchant_id c) fee"
  shows "advanced w vol M (snd (on_db (upgrade_rows c p fee h) x))"
proof (cases "count_where (\<lambda>m. m_id m = pc_id c \<and> m_tier m = pc_tier c) (merchants (wk_store x)) = 0")
  case True
  with adv show ?thesis by (simp add: upgrade_rows_eq)
next
  case False
  let ?y = "snd (on_db (upgrade_rows c p fee h) x)"
  show ?thesis
  proof (rule advanced_move [OF adv keys m(1), of "pc_onchain_merchant_id c" p fee ?y "upgrade_audit c p fee h"])
    show "m_onchain_merchant_id m = Some (pc_onchain_merchant_id c)" "planUpgradeFor (m_tier m) (vol (m_id m)) = Inr (Some p)"
      using m(2) up by (simp_all add: candidate_of_def)
    show "fee_landed w ?y (pc_onchain_merchant_id c) fee" using landed by (simp add: fee_landed_def)
  qed (use False m(2) fee in \<open>auto simp: upgrade_rows_eq upgrade_audit_def candidate_of_def\<close>)
qed

lemma upgrade_advances:
  assumes adv: "advanced w vol M x" and keys: "distinct (map m_id M)" and m: "m \<in> set M" "candidate_of vol m c"
    and up: "planUpgradeFor (pc_tier c) (pc_volumes c) = Inr (Some p)"
  shows "advanced w vol M (snd (upgrade w c p x))"
proof -
  obtain fee where fee: "planFeeBps p = Some fee" using planUpgradeFor_up [OF up] by (cases "planFeeBps p") auto
  let ?n = "pc_onchain_merchant_id c" and ?x = "x\<lparr>wk_writes := wk_writes x @ [Set_Fee_Bps (pc_onchain_merchant_id c) fee]\<rparr>"
  have read: "readMerchantFeeBps w ?n x = (case cw_merchant_fee_bps w ?n of None \<Rightarrow> Inl (Crash ''rpc'') | Some f \<Rightarrow> Inr f, x)"
    by (simp add: readMerchantFeeBps_def rpc_read_def split: option.split)
  show ?thesis
  proof (cases "cw_merchant_fee_bps w ?n")
    case None
    then have "upgrade w c p x = (Inl (Crash ''rpc''), x)" using read fee by (simp add: upgrade_def seq_def)
    with adv show ?thesis by simp
  next
    case (Some f)
    then have read': "readMerchantFeeBps w ?n x = (Inr f, x)" using read by simp
    show ?thesis
    proof (cases "f = fee")
      case True
      then have "fee_landed w x ?n fee" using Some by (simp add: fee_landed_def)
      from upgrade_rows_advance [OF adv keys m up fee this] True fee show ?thesis
        by (simp add: upgrade_def seq_Inr [where m = "readMerchantFeeBps w ?n" and s = x, OF read'] del: on_db_app)
    next
      case False
      have ax: "advanced w vol M ?x" by (rule advanced_grow [OF adv]) auto
      show ?thesis
      proof (cases "fst (setMerchantFeeBps w ?n fee x)")
        case (Inl e)
        with setMerchantFeeBps_eq [of w ?n fee x] have "setMerchantFeeBps w ?n fee x = (Inl e, ?x)" by simp
        from ax False fee show ?thesis
          by (simp add: upgrade_def seq_Inr [where m = "readMerchantFeeBps w ?n" and s = x, OF read'] seq_assoc seq_Inl [where m = "setMerchantFeeBps w ?n fee" and s = x, OF \<open>setMerchantFeeBps w ?n fee x = (Inl e, ?x)\<close>])
      next
        case (Inr h)
        with setMerchantFeeBps_eq [of w ?n fee x] have "setMerchantFeeBps w ?n fee x = (Inr h, ?x)" by simp
        with upgrade_rows_advance [OF ax keys m up fee setMerchantFeeBps_landed [OF Inr]] False fee show ?thesis
          by (simp add: upgrade_def seq_Inr [where m = "readMerchantFeeBps w ?n" and s = x, OF read'] seq_assoc seq_Inr del: on_db_app)
      qed
    qed
  qed
qed

lemma notify_upgrade_rows: "merchants (snd (notify_upgrade cfg mail_ok u s)) = merchants s" "audit (snd (notify_upgrade cfg mail_ok u s)) = audit s"
  by (auto simp: notify_upgrade_def Let_def split: sum.split)

lemma try_upgrade_advances:
  assumes "advanced w vol M x" and "distinct (map m_id M)" and "m \<in> set M" "candidate_of vol m c"
    and "planUpgradeFor (pc_tier c) (pc_volumes c) = Inr (Some p)"
  shows "advanced w vol M (snd (try_upgrade cfg w mail_ok c p x))"
proof -
  have "advanced w vol M (snd (upgrade w c p x))" by (rule upgrade_advances) (use assms in auto)
  moreover have "advanced w vol M (y\<lparr>wk_store := snd (notify_upgrade cfg mail_ok u (wk_store y))\<rparr>)"
    if "advanced w vol M y" for y u
    by (rule advanced_grow [OF that]) (simp_all add: notify_upgrade_rows)
  ultimately show ?thesis
    by (cases "upgrade w c p x") (auto simp: try_upgrade_def seq_def catch_def split: sum.split option.split)
qed

lemma try_upgrade_merchants:
  "merchants (wk_store (snd (try_upgrade cfg w mail_ok c p x))) = merchants (wk_store (snd (upgrade w c p x)))"
  by (cases "upgrade w c p x") (simp add: try_upgrade_def seq_def catch_def notify_upgrade_rows split: sum.split option.split prod.split)

lemma upgrade_each_advances:
  assumes "advanced w vol M x" and "distinct (map m_id M)" and "\<forall>c\<in>set cs. \<exists>m\<in>set M. candidate_of vol m c"
  shows "advanced w vol M (snd (upgrade_each cfg w mail_ok cs result x))"
  using assms
proof (induction cs arbitrary: x result)
  case (Cons c cs)
  then obtain m where m: "m \<in> set M" "candidate_of vol m c" by auto
  show ?case
  proof (cases "planUpgradeFor (pc_tier c) (pc_volumes c)")
    case (Inr nxt)
    show ?thesis
    proof (cases nxt)
      case None
      with Inr Cons show ?thesis by simp
    next
      case (Some p)
      have "advanced w vol M (snd (try_upgrade cfg w mail_ok c p x))"
        using try_upgrade_advances [OF Cons.prems(1,2) m] Inr Some by simp
      with Cons.IH Cons.prems Inr Some show ?thesis
        by (cases "try_upgrade cfg w mail_ok c p x") (auto simp: seq_def split: sum.split)
    qed
  qed (use Cons.prems in simp)
qed simp

lemma raised_refl: "raised w vol x m m"
  by (simp add: raised_def)

lemma upgradeNow_advances:
  assumes "distinct (map m_id (merchants (wk_store x)))"
  shows "advanced w (\<lambda>i. tx_volume (arcModeFor (cf_arc_environment cfg)) i (transactions (wk_store x)))
    (merchants (wk_store x)) (snd (upgradeNow cfg w mail_ok running x))"
proof -
  let ?vol = "\<lambda>i. tx_volume (arcModeFor (cf_arc_environment cfg)) i (transactions (wk_store x))"
  have start: "advanced w ?vol (merchants (wk_store x)) x"
    by (simp add: advanced_def list_all2_same raised_refl)
  have "\<forall>c\<in>set (plan_candidates cfg (wk_store x)). \<exists>m\<in>set (merchants (wk_store x)). candidate_of ?vol m c"
    by (auto simp: plan_candidates_def Let_def candidate_of_def)
  from upgrade_each_advances [OF start assms this] start show ?thesis by (simp add: upgradeNow_def)
qed

section \<open>Properties\<close>

text \<open>
  C11. Plans follow the volume: whatever a run of the upgrade cron does, in error paths too, each merchant is
  either as it was or moved to exactly the plan its confirmed volume on this network earned, and then that plan's
  fee is on the registry (read there, or set by a transaction with a successful receipt) and an audit row records the move.
\<close>

theorem plan_upgrades_earned:
  assumes "distinct (map m_id (merchants (wk_store x)))"
  shows "list_all2 (raised w (\<lambda>i. tx_volume (arcModeFor (cf_arc_environment cfg)) i (transactions (wk_store x)))
      (snd (upgradeNow cfg w mail_ok running x)))
    (merchants (wk_store x)) (merchants (wk_store (snd (upgradeNow cfg w mail_ok running x))))"
  using upgradeNow_advances [OF assms] by (simp add: advanced_def)

section \<open>Witnesses\<close>

definition grown_store :: store where
  [sample_defs]: "grown_store = sample_store\<lparr>transactions := [sample_tx\<lparr>tx_amount := show_int 50000000000\<rparr>]\<rparr>"

definition upgrade_world :: chain_world where
  [sample_defs]: "upgrade_world = \<lparr>cw_subscription = \<lambda>_. None, cw_attempt_used = \<lambda>_. None,
     cw_merchant_fee_bps = \<lambda>_. Some 50, cw_write = \<lambda>_. Some ''0xhash'', cw_receipt_success = \<lambda>_. Some True,
     cw_keccak256 = \<lambda>_. []\<rparr>"

lemma grown_store_earns: "planUpgradeFor Starter (tx_volume Test ''m1'' (transactions grown_store)) = Inr (Some Growth)"
  by (simp add: tx_volume_def counted_tx_def grown_store_def sample_tx_def planUpgradeFor_def planForVolume_eq tier_order_defs)

lemma grown_run: "map m_tier (merchants (wk_store (snd (upgradeNow sample_config upgrade_world (\<lambda>_. False) False
     \<lparr>wk_store = grown_store, wk_writes = []\<rparr>)))) = [Growth, Starter]"
proof -
  let ?c = "\<lparr>pc_id = ''m1'', pc_email = ''m1@test'', pc_business_name = Some ''Shop'', pc_onchain_merchant_id = 7,
     pc_tier = Starter, pc_volumes = tx_volume Test ''m1'' (transactions grown_store)\<rparr>"
  have "plan_candidates sample_config grown_store = [?c]"
    by (simp add: plan_candidates_def Let_def grown_store_def sample_store_def sample_config_def sample_merchant_def
        unregistered_merchant_def counted_tx_def sample_tx_def)
  moreover have "map m_tier (merchants (wk_store (snd (upgrade upgrade_world ?c Growth \<lparr>wk_store = grown_store, wk_writes = []\<rparr>)))) =
      [Growth, Starter]"
    by (simp add: upgrade_def readMerchantFeeBps_def setMerchantFeeBps_def rpc_read_def planFeeBps_def upgrade_world_def
        writeContract_eq upgrade_rows_eq seq_def grown_store_def sample_store_def sample_merchant_def
        unregistered_merchant_def count_where_def update_where_def)
  ultimately show ?thesis
    using grown_store_earns by (simp add: upgradeNow_def try_upgrade_merchants)
qed

theorem plan_upgrades_earned_witness:
  "\<exists>m. raised upgrade_world (\<lambda>i. tx_volume Test i (transactions grown_store))
     (snd (upgradeNow sample_config upgrade_world (\<lambda>_. False) False \<lparr>wk_store = grown_store, wk_writes = []\<rparr>)) sample_merchant m \<and>
     m_tier m = Growth"
proof -
  let ?x = "\<lparr>wk_store = grown_store, wk_writes = []\<rparr>"
  let ?y = "snd (upgradeNow sample_config upgrade_world (\<lambda>_. False) False ?x)"
  have keys: "distinct (map m_id (merchants (wk_store ?x)))" and M: "merchants (wk_store ?x) = [sample_merchant, unregistered_merchant]"
    by (simp_all add: grown_store_def sample_store_def sample_merchant_def unregistered_merchant_def)
  obtain m m' where y: "merchants (wk_store ?y) = [m, m']" "m_tier m = Growth"
    using grown_run by (auto simp: map_eq_Cons_conv)
  from plan_upgrades_earned [OF keys, of upgrade_world sample_config "\<lambda>_. False" False] y
  show ?thesis unfolding M by (auto simp: sample_config_def)
qed

end
