(* ===== verification/Monitors.thy ===== *)
theory Monitors
  imports Notices Plan_Upgrade
begin

text \<open>
  The scheduler's mails to the operators: merchants whose on-chain fee differs from their plan
  (\<open>crons/fee-drift\<close>), the alerts for administrative events on the contracts (\<open>crons/contract-alerts\<close>), and low
  gas balances (\<open>crons/gas-balance-monitor\<close>). The first only records alert rows, which the second mails.
\<close>

section \<open>Fee drift\<close>

definition GRACE_MS :: int where
  "GRACE_MS = 15 * 60000"

record fee_drift_result =
  fd_checked :: nat
  fd_drifted :: nat

text \<open>The \<open>where\<close> of the query: registered merchants below the enterprise plan whose fee changed before the grace period.\<close>

definition fee_settled :: "int \<Rightarrow> merchant_row \<Rightarrow> bool" where
  "fee_settled now m \<longleftrightarrow> m_onchain_merchant_id m \<noteq> None \<and> m_onchain_fee_bps m \<noteq> None \<and> m_onchain_fee_tx_hash m \<noteq> None \<and>
     (case m_onchain_fee_changed_at m of None \<Rightarrow> False | Some t \<Rightarrow> t < now - GRACE_MS) \<and> m_tier m \<noteq> Enterprise"

text \<open>The plan fee and the fee on the chain, when they differ.\<close>

definition drift_of :: "merchant_row \<Rightarrow> (nat \<times> nat) option" where
  "drift_of m = (case (planFeeBps (m_tier m), m_onchain_fee_bps m, m_onchain_fee_changed_at m, m_onchain_fee_tx_hash m) of
     (Some planFee, Some onchainFee, Some _, Some _) \<Rightarrow> if planFee = onchainFee then None else Some (planFee, onchainFee)
   | _ \<Rightarrow> None)"

definition drift_id :: "merchant_row \<Rightarrow> nat \<Rightarrow> string" where
  "drift_id m onchainFee = ''fee-drift:'' @ m_id m @ '':'' @ tier_name (m_tier m) @ '':'' @ show_nat onchainFee @ '':'' @
     show_int (the (m_onchain_fee_changed_at m))"

definition no_alert_metadata :: alert_metadata where
  "no_alert_metadata = \<lparr>al_transaction_hash = None, al_contract_name = None, al_role_name = None,
     al_previous_admin_role_name = None, al_new_admin_role_name = None, al_account = None, al_sender = None,
     al_implementation = None, al_operation_id = None, al_target = None, al_value = None, al_data = None, al_delay = None,
     al_old_duration = None, al_new_duration = None, al_merchant_id = None, al_business_name = None, al_tier = None,
     al_plan_fee_bps = None, al_onchain_fee_bps = None, al_onchain_merchant_id = None, al_above_plan = None,
     al_new_payout_address = None, al_commit_at = None, al_current_owner = None, al_pending_owner = None,
     al_acceptable_at = None\<rparr>"

definition drift_audit :: "merchant_row \<Rightarrow> nat \<Rightarrow> nat \<Rightarrow> audit_row" where
  "drift_audit m planFee onchainFee = \<lparr>au_id = Some (drift_id m onchainFee), au_merchant_id = Some (m_id m), au_actor_id = None,
     au_category = ''merchant'', au_action = ''merchant.fee_drift'', au_target_type = ''Merchant'', au_target_id = m_id m,
     au_metadata = Alert_Meta (no_alert_metadata\<lparr>al_merchant_id := Some (m_id m), al_business_name := m_business_name m,
       al_tier := Some (m_tier m), al_plan_fee_bps := Some planFee, al_onchain_fee_bps := Some onchainFee,
       al_above_plan := Some (\<not> onchainFee < planFee), al_onchain_merchant_id := map_option show_nat (m_onchain_merchant_id m),
       al_transaction_hash := m_onchain_fee_tx_hash m\<rparr>)\<rparr>"

text \<open>\<open>createMany\<close> with \<open>skipDuplicates\<close> on the two tables, in one transaction.\<close>

definition record_drift :: "nat \<Rightarrow> int \<Rightarrow> merchant_row \<Rightarrow> nat \<Rightarrow> nat \<Rightarrow> store \<Rightarrow> store" where
  "record_drift chainId now m planFee onchainFee s =
     (let i = drift_id m onchainFee in
      s\<lparr>audit := (if Some i \<in> au_id ` set (audit s) then audit s else audit s @ [drift_audit m planFee onchainFee]),
        contract_alerts := (if i \<in> ca_audit_log_id ` set (contract_alerts s) then contract_alerts s
          else contract_alerts s @ [\<lparr>ca_audit_log_id = i, ca_chain_id = chainId, ca_created_at = now, ca_alerted_at = None\<rparr>])\<rparr>)"

fun drift_loop :: "nat \<Rightarrow> int \<Rightarrow> merchant_row list \<Rightarrow> nat \<Rightarrow> (store, api_exn, nat) proc" where
  "drift_loop chainId now [] n = ret n"
| "drift_loop chainId now (m # ms) n =
     (case drift_of m of
        None \<Rightarrow> drift_loop chainId now ms n
      | Some (planFee, onchainFee) \<Rightarrow>
          seq (modify (record_drift chainId now m planFee onchainFee)) (\<lambda>_. drift_loop chainId now ms (n + 1)))"

text \<open>\<open>checkNow\<close>; \<open>running\<close>: a check of this process is under way.\<close>

definition checkNow :: "arc_environment \<Rightarrow> bool \<Rightarrow> int \<Rightarrow> (store, api_exn, fee_drift_result) proc" where
  "checkNow env running now =
     (if running then ret \<lparr>fd_checked = 0, fd_drifted = 0\<rparr>
      else seq (gets (\<lambda>s. filter (fee_settled now) (merchants s))) (\<lambda>ms.
           seq (drift_loop (arc_chain_id env) now ms 0) (\<lambda>n. ret \<lparr>fd_checked = length ms, fd_drifted = n\<rparr>)))"

section \<open>Contract alerts\<close>

record alert_settings =
  as_environment :: arc_environment
  as_admin_email :: string
  as_relayer_address :: string
  as_scheduler_address :: string
  as_utc :: "int \<Rightarrow> string"

definition BATCH_LIMIT :: nat where
  "BATCH_LIMIT = 200"

definition EVENT_TITLES :: "string \<Rightarrow> alert_metadata \<Rightarrow> string option" where
  "EVENT_TITLES action m =
     (let role = set_or (al_role_name m) ''role'' in
      if action = ''contract.role_granted'' then Some (role @ '' granted'')
      else if action = ''contract.role_revoked'' then Some (role @ '' revoked'')
      else if action = ''contract.role_admin_changed''
        then Some (role @ '' now administered by '' @ set_or (al_new_admin_role_name m) ''another role'')
      else if action = ''contract.upgraded'' then Some ''implementation upgraded''
      else if action = ''contract.paused'' then Some ''paused''
      else if action = ''contract.unpaused'' then Some ''unpaused''
      else if action = ''timelock.call_scheduled'' then Some ''call scheduled''
      else if action = ''timelock.call_executed'' then Some ''call executed''
      else if action = ''timelock.cancelled'' then Some ''scheduled call cancelled''
      else if action = ''timelock.min_delay_changed'' then Some ''minimum delay changed''
      else None)"

record contract_alert_event =
  ce_title :: string
  ce_details :: "(string \<times> string) list"
  ce_tx_url :: string

definition label :: "alert_settings \<Rightarrow> string \<Rightarrow> string" where
  "label c address =
     (if to_lower address = to_lower (as_relayer_address c) then address @ '' (relayer)''
      else if to_lower address = to_lower (as_scheduler_address c) then address @ '' (scheduler)''
      else address)"

definition tx_url :: "alert_settings \<Rightarrow> alert_metadata \<Rightarrow> string" where
  "tx_url c m = arcExplorerTxUrl (as_environment c) (the (al_transaction_hash m))"

definition percent :: "nat option \<Rightarrow> string" where
  "percent bps = (case bps of None \<Rightarrow> ''unknown'' | Some n \<Rightarrow> hundredths n @ ''%'')"

definition describeFeeDrift :: "alert_settings \<Rightarrow> alert_metadata \<Rightarrow> contract_alert_event" where
  "describeFeeDrift c m = \<lparr>ce_title = ''Merchant fee differs from plan'',
     ce_details =
       [(''Merchant'', if truthy (al_business_name m) then the (al_business_name m) @ '' ('' @ set_or (al_merchant_id m) ''undefined'' @ '')''
          else set_or (al_merchant_id m) ''unknown''),
        (''On-chain merchant id'', set_or (al_onchain_merchant_id m) ''unknown''),
        (''Plan'', case al_tier m of None \<Rightarrow> ''unknown'' | Some t \<Rightarrow> pd_name (PLANS t) @ '' ('' @ percent (al_plan_fee_bps m) @ '')''),
        (''Fee on the chain'', percent (al_onchain_fee_bps m)),
        (''Effect'', if al_above_plan m = Some True then ''The merchant pays more than their plan''
          else ''Strimz collects less than the plan'')],
     ce_tx_url = tx_url c m\<rparr>"

definition describeMerchantChange ::
  "alert_settings \<Rightarrow> string \<Rightarrow> alert_metadata \<Rightarrow> (string \<times> string option) list \<Rightarrow> contract_alert_event" where
  "describeMerchantChange c title m rows = \<lparr>ce_title = title,
     ce_details = (''On-chain merchant id'', set_or (al_onchain_merchant_id m) ''unknown'') #
       map (\<lambda>(l, v). (l, set_or v ''unknown'')) rows,
     ce_tx_url = tx_url c m\<rparr>"

definition describe :: "alert_settings \<Rightarrow> string \<Rightarrow> alert_metadata \<Rightarrow> contract_alert_event" where
  "describe c action m =
     (if action = ''merchant.fee_drift'' then describeFeeDrift c m
      else if action = ''merchant.payout_change_initiated_onchain'' then
        describeMerchantChange c ''Merchant payout address change started'' m
          [(''New payout address'', al_new_payout_address m), (''Takes effect'', map_option (as_utc c) (al_commit_at m))]
      else if action = ''merchant.ownership_transfer_initiated_onchain'' then
        describeMerchantChange c ''Merchant ownership transfer started'' m
          [(''Current owner'', al_current_owner m), (''Nominated owner'', al_pending_owner m),
           (''Can accept from'', map_option (as_utc c) (al_acceptable_at m))]
      else \<lparr>ce_title = set_or (al_contract_name m) ''Unknown contract'' @ '': '' @ set_or (EVENT_TITLES action m) action,
        ce_details = concat (map (\<lambda>(l, v). case v of None \<Rightarrow> [] | Some x \<Rightarrow> [(l, x)])
          [(''Account'', map_option (label c) (al_account m)), (''Sent by'', map_option (label c) (al_sender m)),
           (''Previous admin role'', al_previous_admin_role_name m), (''New implementation'', al_implementation m),
           (''Operation'', al_operation_id m), (''Target'', al_target m), (''Value'', al_value m),
           (''Call data'', al_data m), (''Delay (seconds)'', al_delay m),
           (''Old delay (seconds)'', al_old_duration m), (''New delay (seconds)'', al_new_duration m)]),
        ce_tx_url = tx_url c m\<rparr>)"

text \<open>\<open>include: auditLog\<close> and \<open>alertMetadataSchema.parse\<close>, which throws on metadata of another shape.\<close>

definition alert_event :: "alert_settings \<Rightarrow> store \<Rightarrow> contract_alert_row \<Rightarrow> contract_alert_event option" where
  "alert_event c s r = Option.bind (audit_of s (ca_audit_log_id r)) (\<lambda>a.
     map_option (describe c (au_action a)) (alert_meta_of (au_metadata a)))"

definition alert_pending :: "nat \<Rightarrow> contract_alert_row \<Rightarrow> bool" where
  "alert_pending chainId r \<longleftrightarrow> ca_alerted_at r = None \<and> ca_chain_id r = chainId"

definition alert_rows :: "alert_settings \<Rightarrow> store \<Rightarrow> contract_alert_row list" where
  "alert_rows c s = take BATCH_LIMIT (sort_key ca_created_at (filter (alert_pending (arc_chain_id (as_environment c))) (contract_alerts s)))"

record alert_result =
  ar_sent :: nat
  ar_failed :: bool

definition alert_mail :: "alert_settings \<Rightarrow> contract_alert_event list \<Rightarrow> email" where
  "alert_mail c evs = (let n = length evs; network = network_name (as_environment c) in
     \<lparr>em_to = as_admin_email c,
      em_subject = ''[Strimz] Contract alert: '' @ show_nat n @ '' on-chain admin '' @ (if n = 1 then ''event'' else ''events'') @ '' on '' @ network,
      em_about = network # concat (map (\<lambda>e. ce_title e # concat (map (\<lambda>(l, v). [l, v]) (ce_details e)) @ [ce_tx_url e]) evs)\<rparr>)"

definition mark_alerted :: "string list \<Rightarrow> int \<Rightarrow> store \<Rightarrow> store" where
  "mark_alerted ids now s = s\<lparr>contract_alerts :=
     update_where (\<lambda>r. ca_audit_log_id r \<in> set ids) (\<lambda>r. r\<lparr>ca_alerted_at := Some now\<rparr>) (contract_alerts s)\<rparr>"

text \<open>\<open>sendNow\<close> and \<open>send\<close>; \<open>mark_ok\<close>: the update that stamps the rows succeeds.\<close>

definition sendNow ::
  "mail_world \<Rightarrow> bool \<Rightarrow> alert_settings \<Rightarrow> bool \<Rightarrow> int \<Rightarrow> (store, api_exn, alert_result) proc" where
  "sendNow w mark_ok c running now =
     (if running then ret \<lparr>ar_sent = 0, ar_failed = False\<rparr>
      else seq (gets (\<lambda>s. (alert_rows c s, map (alert_event c s) (alert_rows c s)))) (\<lambda>(rows, evs).
        if rows = [] then ret \<lparr>ar_sent = 0, ar_failed = False\<rparr>
        else if None \<in> set evs then raise (Crash ''ZodError'')
        else seq (catch (seq (email_send w (alert_mail c (map the evs))) (\<lambda>_. ret True)) (\<lambda>_. ret False)) (\<lambda>sent.
             if \<not> sent then ret \<lparr>ar_sent = 0, ar_failed = True\<rparr>
             else seq (require mark_ok (Crash ''database'')) (\<lambda>_.
                  seq (modify (mark_alerted (map ca_audit_log_id rows) now)) (\<lambda>_.
                  ret \<lparr>ar_sent = length rows, ar_failed = False\<rparr>)))))"

section \<open>Gas balances\<close>

record gas_settings =
  gs_environment :: arc_environment
  gs_admin_email :: string
  gs_relayer_address :: string
  gs_scheduler_address :: string
  gs_threshold :: nat

definition gas_watchlist :: "gas_settings \<Rightarrow> (string \<times> string) list" where
  "gas_watchlist c = [(''relayer'', gs_relayer_address c), (''scheduler'', gs_scheduler_address c)]"

definition gas_flag :: "string \<Rightarrow> string \<Rightarrow> string" where
  "gas_flag role address = ''strimz:gas-balance-alert:'' @ role @ '':'' @ to_lower address"

definition gas_mail :: "gas_settings \<Rightarrow> string \<Rightarrow> string \<Rightarrow> nat \<Rightarrow> email" where
  "gas_mail c role address balance = (let network = network_name (gs_environment c) in
     \<lparr>em_to = gs_admin_email c,
      em_subject = ''[Strimz] '' @ network @ '' '' @ role @ '' balance is '' @ formatUnits6 balance @ '' USDC'',
      em_about = [role, address, formatUnits6 balance, formatUnits6 (gs_threshold c), network] @
        (if gs_environment c = Testnet then [''https://faucet.circle.com''] else [])\<rparr>)"

text \<open>
  One wallet of the list. \<open>balance\<close> is what \<open>balanceOf\<close> of the USDC contract answers, if the call succeeds. The flag is
  set with a lifetime of 24 hours; its expiry is an event of its own.
\<close>

definition check_wallet :: "mail_world \<Rightarrow> gas_settings \<Rightarrow> (string \<Rightarrow> nat option) \<Rightarrow> string \<times> string \<Rightarrow> (store, api_exn, nat) proc" where
  "check_wallet w c balance = (\<lambda>(role, address).
     case balance address of
       None \<Rightarrow> raise (Crash ''readContract'')
     | Some b \<Rightarrow>
         let key = gas_flag role address; lowNow = b < gs_threshold c in
         seq (gets (\<lambda>s. redis s key = Some ''1'')) (\<lambda>alreadyAlerted.
         if lowNow \<and> \<not> alreadyAlerted then
           seq (email_send w (gas_mail c role address b)) (\<lambda>_.
           seq (modify (\<lambda>s. s\<lparr>redis := (redis s)(key := Some ''1'')\<rparr>)) (\<lambda>_. ret 1))
         else if \<not> lowNow \<and> alreadyAlerted then
           seq (modify (\<lambda>s. s\<lparr>redis := (redis s)(key := None)\<rparr>)) (\<lambda>_. ret 0)
         else ret 0))"

text \<open>\<open>tickNow\<close>: how many wallets were checked, and how many alerted.\<close>

definition gas_tick :: "mail_world \<Rightarrow> gas_settings \<Rightarrow> (string \<Rightarrow> nat option) \<Rightarrow> (store, api_exn, nat \<times> nat) proc" where
  "gas_tick w c balance =
     seq (for_each (check_wallet w c balance) (gas_watchlist c)) (\<lambda>ns. ret (length (gas_watchlist c), sum_list ns))"

section \<open>Fee drift is recorded once\<close>

definition alert_ids :: "store \<Rightarrow> string list" where
  "alert_ids s = map ca_audit_log_id (contract_alerts s)"

lemma record_drift_frame [simp]: "merchants (record_drift chainId now m p f s) = merchants s"
  by (simp add: record_drift_def Let_def)

lemma record_drift_ids:
  "set (alert_ids (record_drift chainId now m p f s)) = insert (drift_id m f) (set (alert_ids s))"
  "distinct (alert_ids (record_drift chainId now m p f s)) = distinct (alert_ids s)"
  by (auto simp: record_drift_def Let_def alert_ids_def)

text \<open>The rows of a store the alert mail can be composed from.\<close>

definition alerts_parse :: "store \<Rightarrow> bool" where
  "alerts_parse s \<longleftrightarrow> (\<forall>i\<in>set (alert_ids s). case audit_of s i of None \<Rightarrow> False | Some a \<Rightarrow> alert_meta_of (au_metadata a) \<noteq> None)"

text \<open>The transaction keeps the two rows of a drift together.\<close>

definition drift_paired :: "store \<Rightarrow> merchant_row \<Rightarrow> bool" where
  "drift_paired s m \<longleftrightarrow> (case drift_of m of None \<Rightarrow> True
     | Some (_, f) \<Rightarrow> Some (drift_id m f) \<in> au_id ` set (audit s) \<longrightarrow> drift_id m f \<in> set (alert_ids s))"

lemma audit_of_append: "i \<in> set (map au_id t) \<Longrightarrow> find_row au_id i (t @ u) = find_row au_id i t"
  by (cases "find_row au_id i t") (auto simp: find_row_None)

lemma record_drift_parses:
  assumes "alerts_parse s" "drift_of m = Some (p, f)" "drift_paired s m"
  shows "alerts_parse (record_drift chainId now m p f s)"
proof -
  let ?s = "record_drift chainId now m p f s"
  have hash: "m_onchain_fee_tx_hash m \<noteq> None" using assms(2) by (auto simp: drift_of_def split: option.splits)
  have old: "audit_of ?s i = audit_of s i" if "audit_of s i \<noteq> None" for i
    using that by (auto simp: audit_of_def record_drift_def Let_def)
  have new: "case audit_of ?s (drift_id m f) of None \<Rightarrow> False | Some a \<Rightarrow> alert_meta_of (au_metadata a) \<noteq> None"
    if "drift_id m f \<notin> set (alert_ids s)"
  proof -
    have "Some (drift_id m f) \<notin> au_id ` set (audit s)" using assms(2,3) that by (auto simp: drift_paired_def)
    then have "find_row au_id (Some (drift_id m f)) (audit s) = None" by (simp add: find_row_None) (metis image_eqI)
    with \<open>Some (drift_id m f) \<notin> au_id ` set (audit s)\<close> hash show ?thesis
      by (auto simp: audit_of_def record_drift_def Let_def drift_audit_def)
  qed
  show ?thesis unfolding alerts_parse_def
  proof
    fix i assume "i \<in> set (alert_ids ?s)"
    then have "i = drift_id m f \<or> i \<in> set (alert_ids s)" by (simp add: record_drift_ids)
    then show "case audit_of ?s i of None \<Rightarrow> False | Some a \<Rightarrow> alert_meta_of (au_metadata a) \<noteq> None"
    proof (cases "i \<in> set (alert_ids s)")
      case True
      with assms(1) have "case audit_of s i of None \<Rightarrow> False | Some a \<Rightarrow> alert_meta_of (au_metadata a) \<noteq> None"
        by (simp add: alerts_parse_def)
      then show ?thesis using old [of i] by (auto split: option.splits)
    qed (use new in auto)
  qed
qed

lemma record_drift_paired:
  assumes "drift_paired s k"
  shows "drift_paired (record_drift chainId now m p f s) k"
proof -
  have "au_id ` set (audit (record_drift chainId now m p f s)) = insert (Some (drift_id m f)) (au_id ` set (audit s))"
    by (auto simp: record_drift_def Let_def drift_audit_def)
  with assms show ?thesis by (auto simp: drift_paired_def record_drift_ids split: option.split)
qed

text \<open>What a check does to the tables: the alert rows grow by those of the drifting merchants.\<close>

lemma drift_loop_facts:
  "alerts_parse s \<Longrightarrow> (\<And>m. m \<in> set ms \<Longrightarrow> drift_paired s m) \<Longrightarrow>
   alerts_parse (snd (drift_loop chainId now ms n s)) \<and>
   (distinct (alert_ids (snd (drift_loop chainId now ms n s))) = distinct (alert_ids s)) \<and>
   set (alert_ids (snd (drift_loop chainId now ms n s))) =
     set (alert_ids s) \<union> {drift_id m f |m p f. m \<in> set ms \<and> drift_of m = Some (p, f)}"
proof (induction ms arbitrary: n s)
  case Nil
  then show ?case by simp
next
  case (Cons m ms)
  show ?case
  proof (cases "drift_of m")
    case None
    with Cons.IH [of s n] Cons.prems show ?thesis by auto
  next
    case (Some pf)
    obtain p f where pf: "drift_of m = Some (p, f)" using Some by (cases pf) auto
    let ?s = "record_drift chainId now m p f s"
    have "alerts_parse ?s" "\<And>k. k \<in> set ms \<Longrightarrow> drift_paired ?s k"
      using record_drift_parses [OF Cons.prems(1) pf] record_drift_paired Cons.prems(2) by simp_all
    with Cons.IH [of ?s "n + 1"] pf show ?thesis by (auto simp: record_drift_ids)
  qed
qed

lemma checkNow_facts:
  fixes env :: arc_environment and now :: int
  assumes "alerts_parse s" "\<forall>m\<in>set (merchants s). drift_paired s m"
  defines "s' \<equiv> snd (checkNow env False now s)"
  shows "alerts_parse s'" "distinct (alert_ids s') = distinct (alert_ids s)"
    "set (alert_ids s') = set (alert_ids s) \<union>
       {drift_id m f |m p f. m \<in> set (merchants s) \<and> fee_settled now m \<and> drift_of m = Some (p, f)}"
  using drift_loop_facts [OF assms(1), of "filter (fee_settled now) (merchants s)" "arc_chain_id env" now 0] assms(2)
  by (auto simp: s'_def checkNow_def)

section \<open>Alerts are mailed\<close>

definition pending_alerts :: "nat \<Rightarrow> store \<Rightarrow> nat" where
  "pending_alerts chainId s = count_where (alert_pending chainId) (contract_alerts s)"

lemma alert_rows_elem: "r \<in> set (alert_rows c s) \<Longrightarrow> r \<in> set (contract_alerts s) \<and> alert_pending (arc_chain_id (as_environment c)) r"
  by (auto simp: alert_rows_def dest: in_set_takeD)

lemma alert_rows_facts:
  assumes "distinct (alert_ids s)"
  shows "distinct (map ca_audit_log_id (alert_rows c s))"
    and "length (alert_rows c s) = min BATCH_LIMIT (pending_alerts (arc_chain_id (as_environment c)) s)"
proof -
  let ?t = "filter (alert_pending (arc_chain_id (as_environment c))) (contract_alerts s)"
  have "mset (map ca_audit_log_id (sort_key ca_created_at ?t)) = mset (map ca_audit_log_id ?t)" by simp
  then have "distinct (map ca_audit_log_id (sort_key ca_created_at ?t))"
    using assms by (metis alert_ids_def distinct_map_filter mset_eq_imp_distinct_iff)
  then show "distinct (map ca_audit_log_id (alert_rows c s))" by (simp add: alert_rows_def take_map [symmetric])
  show "length (alert_rows c s) = min BATCH_LIMIT (pending_alerts (arc_chain_id (as_environment c)) s)"
    by (simp add: alert_rows_def pending_alerts_def count_where_def min.commute)
qed

lemma pending_after_mark:
  "pending_alerts chainId (mark_alerted ids now s) =
     length (filter (\<lambda>r. ca_audit_log_id r \<notin> set ids) (filter (alert_pending chainId) (contract_alerts s)))"
proof -
  have "count_where (alert_pending chainId) (update_where (\<lambda>r. ca_audit_log_id r \<in> set ids) (\<lambda>r. r\<lparr>ca_alerted_at := Some now\<rparr>) t) =
    length (filter (\<lambda>r. ca_audit_log_id r \<notin> set ids) (filter (alert_pending chainId) t))" for t
    by (induction t) (auto simp: alert_pending_def)
  then show ?thesis by (simp add: pending_alerts_def mark_alerted_def)
qed

lemma marked_pending:
  assumes "distinct (alert_ids s)"
  shows "pending_alerts (arc_chain_id (as_environment c)) (mark_alerted (map ca_audit_log_id (alert_rows c s)) now s) =
    pending_alerts (arc_chain_id (as_environment c)) s - BATCH_LIMIT"
proof -
  let ?t = "filter (alert_pending (arc_chain_id (as_environment c))) (contract_alerts s)"
  have "length (filter (\<lambda>r. ca_audit_log_id r \<notin> set (map ca_audit_log_id (alert_rows c s))) ?t) =
      length ?t - length (map ca_audit_log_id (alert_rows c s))"
    by (rule length_filter_not_in)
      (use alert_rows_facts(1) alert_rows_elem assms in \<open>auto simp: alert_ids_def intro: distinct_map_filter\<close>)
  then show ?thesis
    using alert_rows_facts(2) [OF assms, of c] by (simp add: pending_after_mark) (simp add: pending_alerts_def count_where_def)
qed

lemma mark_alerted_frame [simp]: "alert_ids (mark_alerted ids now s) = alert_ids s" "audit (mark_alerted ids now s) = audit s"
proof -
  have "map ca_audit_log_id (update_where P (\<lambda>r. r\<lparr>ca_alerted_at := x\<rparr>) t) = map ca_audit_log_id t" for P x t
    by (induction t) auto
  then show "alert_ids (mark_alerted ids now s) = alert_ids s" by (simp add: alert_ids_def mark_alerted_def)
  show "audit (mark_alerted ids now s) = audit s" by (simp add: mark_alerted_def)
qed

lemma events_composed:
  assumes "alerts_parse s"
  shows "None \<notin> set (map (alert_event c s) (alert_rows c s))"
proof -
  have "alert_event c s r \<noteq> None" if "r \<in> set (contract_alerts s)" for r
    using assms that by (auto simp: alerts_parse_def alert_ids_def alert_event_def split: option.splits)
  then show ?thesis using alert_rows_elem by fastforce
qed

lemma alerts_parse_cong: "alert_ids s' = alert_ids s \<Longrightarrow> audit s' = audit s \<Longrightarrow> alerts_parse s' = alerts_parse s"
  by (simp add: alerts_parse_def audit_of_def)

text \<open>A provider is configured and takes every mail.\<close>

definition delivering :: "mail_world \<Rightarrow> bool" where
  "delivering w \<longleftrightarrow> \<not> mw_stub w \<and> (\<forall>e. mw_deliver w e)"

definition events_of :: "alert_settings \<Rightarrow> store \<Rightarrow> contract_alert_row list \<Rightarrow> contract_alert_event list" where
  "events_of c s rows = map (the \<circ> alert_event c s) rows"

lemma events_of_cong: "audit s' = audit s \<Longrightarrow> events_of c s' = events_of c s"
  by (simp add: events_of_def fun_eq_iff alert_event_def audit_of_def)

definition unmailed :: "alert_settings \<Rightarrow> store \<Rightarrow> contract_alert_row list" where
  "unmailed c s = filter (alert_pending (arc_chain_id (as_environment c))) (contract_alerts s)"

lemma sendNow_good:
  assumes "delivering w" "alerts_parse s"
  shows "snd (sendNow w True c False now s) =
    (if alert_rows c s = [] then s
     else mark_alerted (map ca_audit_log_id (alert_rows c s)) now (s\<lparr>emails := emails s @ [alert_mail c (events_of c s (alert_rows c s))]\<rparr>))"
proof (cases "alert_rows c s = []")
  case True
  then show ?thesis by (simp add: sendNow_def)
next
  case False
  note composed = events_composed [OF assms(2), of c, simplified]
  have "map the (map (alert_event c s) (alert_rows c s)) = events_of c s (alert_rows c s)" by (simp add: events_of_def)
  with False composed assms(1) show ?thesis
    by (simp add: sendNow_def email_send_def catch_def seq_def delivering_def del: map_map)
qed

lemma sendNow_keeps:
  assumes "delivering w" "alerts_parse s"
  shows "alert_ids (snd (sendNow w True c False now s)) = alert_ids s" "audit (snd (sendNow w True c False now s)) = audit s"
  by (simp_all add: sendNow_good [OF assms]) (simp_all add: alert_ids_def)

text \<open>The rows of a batch, and those that are left, make up the unmailed rows.\<close>

lemma unmailed_after:
  assumes "delivering w" "alerts_parse s" "distinct (alert_ids s)"
  shows "mset (unmailed c s) = mset (alert_rows c s) + mset (unmailed c (snd (sendNow w True c False now s)))"
proof -
  let ?rows = "alert_rows c s" and ?rest = "drop BATCH_LIMIT (sort_key ca_created_at (unmailed c s))"
  have split: "sort_key ca_created_at (unmailed c s) = ?rows @ ?rest" by (simp add: alert_rows_def unmailed_def)
  then have ms: "mset (unmailed c s) = mset ?rows + mset ?rest" by (metis mset_append mset_sort)
  have "distinct (map ca_audit_log_id (sort_key ca_created_at (unmailed c s)))"
  proof -
    have "mset (map ca_audit_log_id (sort_key ca_created_at (unmailed c s))) = mset (map ca_audit_log_id (unmailed c s))" by simp
    then show ?thesis using assms(3) by (metis alert_ids_def distinct_map_filter mset_eq_imp_distinct_iff unmailed_def)
  qed
  then have "distinct (map ca_audit_log_id (?rows @ ?rest))" using split by metis
  then have apart: "ca_audit_log_id r \<notin> ca_audit_log_id ` set ?rows" if "r \<in> set ?rest" for r
    using that by auto
  have keep: "filter (alert_pending k) (update_where (\<lambda>r. ca_audit_log_id r \<in> I) (\<lambda>r. r\<lparr>ca_alerted_at := Some now\<rparr>) t) =
      filter (\<lambda>r. ca_audit_log_id r \<notin> I) (filter (alert_pending k) t)" for k I t
    by (induction t) (auto simp: alert_pending_def)
  have "unmailed c (snd (sendNow w True c False now s)) = filter (\<lambda>r. ca_audit_log_id r \<notin> ca_audit_log_id ` set ?rows) (unmailed c s)"
    by (cases "?rows = []") (simp_all add: sendNow_good [OF assms(1,2)] unmailed_def mark_alerted_def keep del: filter_filter)
  then have "mset (unmailed c (snd (sendNow w True c False now s))) =
      filter_mset (\<lambda>r. ca_audit_log_id r \<notin> ca_audit_log_id ` set ?rows) (mset ?rows + mset ?rest)"
    by (simp only: mset_filter ms)
  also have "filter_mset (\<lambda>r. ca_audit_log_id r \<notin> ca_audit_log_id ` set ?rows) (mset ?rows) = {#}"
    unfolding mset_filter [symmetric] by (simp add: filter_empty_conv)
  then have "filter_mset (\<lambda>r. ca_audit_log_id r \<notin> ca_audit_log_id ` set ?rows) (mset ?rows + mset ?rest) =
      filter_mset (\<lambda>r. ca_audit_log_id r \<notin> ca_audit_log_id ` set ?rows) (mset ?rest)" by simp
  also have "\<dots> = mset ?rest" unfolding mset_filter [symmetric] using filter_True [of ?rest] apart by metis
  finally show ?thesis using ms by simp
qed

text \<open>Runs of the cron, one after the other: each takes a batch into one mail.\<close>

lemma alert_mails:
  assumes "delivering w"
  shows "alerts_parse s \<Longrightarrow> distinct (alert_ids s) \<Longrightarrow>
    \<exists>batches. emails (((\<lambda>s. snd (sendNow w True c False now s)) ^^ k) s) = emails s @ map (alert_mail c) batches \<and>
      list_all (\<lambda>b. b \<noteq> [] \<and> length b \<le> BATCH_LIMIT) batches \<and>
      mset (events_of c s (unmailed c s)) =
        mset (concat batches) + mset (events_of c s (unmailed c (((\<lambda>s. snd (sendNow w True c False now s)) ^^ k) s)))"
proof (induction k arbitrary: s)
  case 0
  then show ?case by (intro exI [of _ "[]"]) simp
next
  case (Suc k)
  let ?f = "\<lambda>s. snd (sendNow w True c False now s)"
  note keeps = sendNow_keeps [OF assms Suc.prems(1), of c now]
  have "alerts_parse (?f s)" "distinct (alert_ids (?f s))" using Suc.prems keeps alerts_parse_cong by metis+
  from Suc.IH [OF this] obtain bs where bs: "emails ((?f ^^ k) (?f s)) = emails (?f s) @ map (alert_mail c) bs"
    "list_all (\<lambda>b. b \<noteq> [] \<and> length b \<le> BATCH_LIMIT) bs"
    "mset (events_of c s (unmailed c (?f s))) = mset (concat bs) + mset (events_of c s (unmailed c ((?f ^^ k) (?f s))))"
    unfolding events_of_cong [OF keeps(2)] by blast
  let ?b = "events_of c s (alert_rows c s)"
  have swap: "(?f ^^ Suc k) s = (?f ^^ k) (?f s)" unfolding funpow_Suc_right comp_apply ..
  have "mset (events_of c s (unmailed c s)) = mset ?b + mset (events_of c s (unmailed c (?f s)))"
    using unmailed_after [OF assms Suc.prems, of c now] by (simp add: events_of_def)
  with bs(3) have sum: "mset (events_of c s (unmailed c s)) = mset ?b + mset (concat bs) + mset (events_of c s (unmailed c ((?f ^^ k) (?f s))))"
    by simp
  show ?case
  proof (cases "alert_rows c s = []")
    case True
    then have "?f s = s" by (simp add: sendNow_good [OF assms Suc.prems(1)])
    with bs(1,2) sum True show ?thesis unfolding swap by (intro exI [of _ bs]) (simp add: events_of_def)
  next
    case False
    then have "emails (?f s) = emails s @ [alert_mail c ?b]" by (simp add: sendNow_good [OF assms Suc.prems(1)] mark_alerted_def)
    moreover have "?b \<noteq> []" "length ?b \<le> BATCH_LIMIT" using False by (simp_all add: events_of_def alert_rows_def)
    ultimately show ?thesis using bs(1,2) sum unfolding swap by (intro exI [of _ "?b # bs"]) simp
  qed
qed

text \<open>One row whose metadata does not parse stops the whole batch: nothing is mailed and nothing is stamped.\<close>

lemma bad_alert_blocks:
  assumes "None \<in> set (map (alert_event c s) (alert_rows c s))"
  shows "sendNow w mark_ok c False now s = (Inl (Crash ''ZodError''), s)"
  using assms by (auto simp: sendNow_def)

interpretation alert_drain: batch_drain "\<lambda>s. snd (sendNow w True c False now s)"
  "\<lambda>s. delivering w \<and> distinct (alert_ids s) \<and> alerts_parse s" "pending_alerts (arc_chain_id (as_environment c))" BATCH_LIMIT
  for w c now
proof
  fix s
  assume ok: "delivering w \<and> distinct (alert_ids s) \<and> alerts_parse s"
  let ?s = "snd (sendNow w True c False now s)" and ?e = "emails s @ [alert_mail c (events_of c s (alert_rows c s))]"
  have e: "?s = (if alert_rows c s = [] then s else mark_alerted (map ca_audit_log_id (alert_rows c s)) now (s\<lparr>emails := ?e\<rparr>))"
    using sendNow_good ok by blast
  show "delivering w \<and> distinct (alert_ids ?s) \<and> alerts_parse ?s" using ok sendNow_keeps [of w s c now] alerts_parse_cong by metis
  have "alert_rows c (s\<lparr>emails := ?e\<rparr>) = alert_rows c s" "pending_alerts k (s\<lparr>emails := ?e\<rparr>) = pending_alerts k s"
    "alert_ids (s\<lparr>emails := ?e\<rparr>) = alert_ids s" for k
    by (simp_all add: alert_rows_def pending_alerts_def alert_ids_def)
  moreover have "pending_alerts (arc_chain_id (as_environment c)) s = 0" if "alert_rows c s = []"
    using alert_rows_facts(2) [of s c] ok that by (simp add: BATCH_LIMIT_def)
  ultimately show "pending_alerts (arc_chain_id (as_environment c)) ?s = pending_alerts (arc_chain_id (as_environment c)) s - BATCH_LIMIT"
    using e marked_pending [of "s\<lparr>emails := ?e\<rparr>" c now] ok by auto
qed

section \<open>Gas alerts are edges\<close>

text \<open>
  The reference: alerts of one wallet over what was seen of it, \<open>Some low\<close> at a tick and \<open>None\<close> when the flag lapsed.
\<close>

fun edges :: "bool \<Rightarrow> bool option list \<Rightarrow> nat" where
  "edges alerted [] = 0"
| "edges alerted (None # xs) = edges False xs"
| "edges alerted (Some low # xs) = (if low \<and> \<not> alerted then 1 else 0) + edges low xs"

text \<open>A tick with the balances it reads, or the end of a flag's 24 hours.\<close>

datatype gas_event = Gas_Tick "string \<Rightarrow> nat" | Flag_Lapses string

definition gas_event_step :: "mail_world \<Rightarrow> gas_settings \<Rightarrow> gas_event \<Rightarrow> store \<Rightarrow> store" where
  "gas_event_step w c ev s = (case ev of
     Gas_Tick b \<Rightarrow> snd (gas_tick w c (\<lambda>a. Some (b a)) s)
   | Flag_Lapses k \<Rightarrow> s\<lparr>redis := (redis s)(k := None)\<rparr>)"

definition seen_of :: "gas_settings \<Rightarrow> string \<times> string \<Rightarrow> gas_event \<Rightarrow> bool option list" where
  "seen_of c wallet ev = (case ev of
     Gas_Tick b \<Rightarrow> [Some (b (snd wallet) < gs_threshold c)]
   | Flag_Lapses k \<Rightarrow> if k = gas_flag (fst wallet) (snd wallet) then [None] else [])"

definition gas_mails :: "string \<Rightarrow> store \<Rightarrow> nat" where
  "gas_mails role s = length (filter (\<lambda>e. take 1 (em_about e) = [role]) (emails s))"

definition flagged :: "string \<times> string \<Rightarrow> store \<Rightarrow> bool" where
  "flagged wallet s \<longleftrightarrow> redis s (gas_flag (fst wallet) (snd wallet)) = Some ''1''"

lemma gas_flag_inj: "gas_flag ''relayer'' a \<noteq> gas_flag ''scheduler'' b"
  by (simp add: gas_flag_def)

text \<open>One wallet: its flag follows the level, a mail goes out exactly on a fall, and the other wallet is left alone.\<close>

lemma check_wallet_run:
  assumes "delivering w"
  shows "\<exists>n s'. check_wallet w c (\<lambda>a. Some (b a)) (role, a) s = (Inr n, s') \<and>
    (flagged (role, a) s' \<longleftrightarrow> b a < gs_threshold c) \<and>
    (\<forall>k. k \<noteq> gas_flag role a \<longrightarrow> redis s' k = redis s k) \<and>
    emails s' = emails s @ (if b a < gs_threshold c \<and> \<not> flagged (role, a) s then [gas_mail c role a (b a)] else [])"
  using assms by (auto simp: check_wallet_def flagged_def email_send_def delivering_def Let_def seq_def)

lemma gas_tick_run:
  fixes s :: store and b :: "string \<Rightarrow> nat"
  assumes "delivering w" and "wallet \<in> set (gas_watchlist c)"
  defines "s' \<equiv> snd (gas_tick w c (\<lambda>a. Some (b a)) s)"
  shows "flagged wallet s' \<longleftrightarrow> b (snd wallet) < gs_threshold c"
    and "gas_mails (fst wallet) s' = gas_mails (fst wallet) s +
      (if b (snd wallet) < gs_threshold c \<and> \<not> flagged wallet s then 1 else 0)"
proof -
  let ?r = "gs_relayer_address c" and ?h = "gs_scheduler_address c"
  from check_wallet_run [OF assms(1), of c b "''relayer''" ?r s] obtain n1 s1 where
    1: "check_wallet w c (\<lambda>a. Some (b a)) (''relayer'', ?r) s = (Inr n1, s1)"
      "flagged (''relayer'', ?r) s1 \<longleftrightarrow> b ?r < gs_threshold c" "\<forall>k. k \<noteq> gas_flag ''relayer'' ?r \<longrightarrow> redis s1 k = redis s k"
      "emails s1 = emails s @ (if b ?r < gs_threshold c \<and> \<not> flagged (''relayer'', ?r) s then [gas_mail c ''relayer'' ?r (b ?r)] else [])"
    by blast
  from check_wallet_run [OF assms(1), of c b "''scheduler''" ?h s1] obtain n2 s2 where
    2: "check_wallet w c (\<lambda>a. Some (b a)) (''scheduler'', ?h) s1 = (Inr n2, s2)"
      "flagged (''scheduler'', ?h) s2 \<longleftrightarrow> b ?h < gs_threshold c" "\<forall>k. k \<noteq> gas_flag ''scheduler'' ?h \<longrightarrow> redis s2 k = redis s1 k"
      "emails s2 = emails s1 @ (if b ?h < gs_threshold c \<and> \<not> flagged (''scheduler'', ?h) s1 then [gas_mail c ''scheduler'' ?h (b ?h)] else [])"
    by blast
  have s': "s' = s2" by (simp add: s'_def gas_tick_def gas_watchlist_def seq_def 1(1) 2(1))
  have keep: "flagged (''scheduler'', ?h) s1 = flagged (''scheduler'', ?h) s" "flagged (''relayer'', ?r) s2 = flagged (''relayer'', ?r) s1"
    using 1(3) 2(3) gas_flag_inj [of ?r ?h] by (simp_all add: flagged_def)
  from assms(2) consider "wallet = (''relayer'', ?r)" | "wallet = (''scheduler'', ?h)" by (auto simp: gas_watchlist_def)
  then show "flagged wallet s' \<longleftrightarrow> b (snd wallet) < gs_threshold c"
    by cases (simp_all add: s' 1(2) 2(2) keep)
  from \<open>wallet \<in> set (gas_watchlist c)\<close> consider "wallet = (''relayer'', ?r)" | "wallet = (''scheduler'', ?h)"
    by (auto simp: gas_watchlist_def)
  then show "gas_mails (fst wallet) s' = gas_mails (fst wallet) s +
      (if b (snd wallet) < gs_threshold c \<and> \<not> flagged wallet s then 1 else 0)"
    by cases (simp_all add: s' 1(4) 2(4) keep gas_mails_def gas_mail_def Let_def)
qed

text \<open>When the first wallet cannot be read, or its mail cannot be sent, the second is not looked at.\<close>

lemma gas_tick_aborts:
  assumes "balance (gs_relayer_address c) = None"
  shows "gas_tick w c balance s = (Inl (Crash ''readContract''), s)"
  using assms by (simp add: gas_tick_def gas_watchlist_def check_wallet_def seq_def)

section \<open>Properties\<close>

text \<open>
  C26. A merchant whose on-chain fee differs from the plan after the grace period is reported, once. After a check, the
  alert rows are the old ones and one for each drifting merchant, identified by merchant, plan, fee and time of the
  change, none twice however often checks run; and with a mail provider that takes every mail, enough runs of the
  alert cron, one after the other and with their stamps written, mail every alert row of the chain that was not yet
  mailed in exactly one mail to the operators, of at most two hundred events each, and leave none unstamped.
\<close>

theorem fee_drift_reaches_operators:
  fixes s :: store and c :: alert_settings and now later :: int and k :: nat and w :: mail_world
  assumes "distinct (alert_ids s)" "alerts_parse s" "\<forall>m\<in>set (merchants s). drift_paired s m" "delivering w"
  defines "s1 \<equiv> snd (checkNow (as_environment c) False now s)"
  assumes "pending_alerts (arc_chain_id (as_environment c)) s1 \<le> k * BATCH_LIMIT"
  defines "s2 \<equiv> ((\<lambda>s. snd (sendNow w True c False later s)) ^^ k) s1"
  shows "set (alert_ids s1) = set (alert_ids s) \<union>
      {drift_id m f |m p f. m \<in> set (merchants s) \<and> fee_settled now m \<and> drift_of m = Some (p, f)} \<and>
    distinct (alert_ids s1) \<and> pending_alerts (arc_chain_id (as_environment c)) s2 = 0 \<and>
    (\<exists>batches. emails s2 = emails s1 @ map (alert_mail c) batches \<and>
       list_all (\<lambda>b. b \<noteq> [] \<and> length b \<le> 200 \<and> em_to (alert_mail c b) = as_admin_email c) batches \<and>
       mset (concat batches) = mset (map (\<lambda>r. the (alert_event c s1 r))
         (filter (\<lambda>r. ca_alerted_at r = None \<and> ca_chain_id r = arc_chain_id (as_environment c)) (contract_alerts s1))))"
proof -
  note check = checkNow_facts [OF assms(2,3), of "as_environment c" now, folded s1_def]
  have drained: "pending_alerts (arc_chain_id (as_environment c)) s2 = 0"
    using alert_drain.drained [of w s1 c k later] check(1,2) assms(1,4,6) by (simp add: s2_def)
  then have "unmailed c s2 = []" by (simp add: unmailed_def pending_alerts_def count_where_def)
  moreover obtain batches where b: "emails s2 = emails s1 @ map (alert_mail c) batches"
    "list_all (\<lambda>b. b \<noteq> [] \<and> length b \<le> BATCH_LIMIT) batches"
    "mset (events_of c s1 (unmailed c s1)) = mset (concat batches) + mset (events_of c s1 (unmailed c s2))"
    using alert_mails [OF assms(4) check(1), where c = c and k = k and now = later] check(2) assms(1) unfolding s2_def by blast
  ultimately have "mset (concat batches) = mset (map (\<lambda>r. the (alert_event c s1 r))
      (filter (\<lambda>r. ca_alerted_at r = None \<and> ca_chain_id r = arc_chain_id (as_environment c)) (contract_alerts s1)))"
    by (simp add: events_of_def unmailed_def alert_pending_def [abs_def] comp_def)
  moreover have "list_all (\<lambda>b. b \<noteq> [] \<and> length b \<le> 200 \<and> em_to (alert_mail c b) = as_admin_email c) batches"
    using b(2) by (simp add: list_all_iff BATCH_LIMIT_def alert_mail_def Let_def)
  ultimately show ?thesis using check(2,3) assms(1) drained b(1) by blast
qed

text \<open>
  C27. Gas alerts are exactly the falls of a balance below the threshold. Over any ticks that read both balances and can
  send, interleaved with lapses of the Redis flags, the number of alerts for a wallet is the number of ticks that find
  it low where the tick before (or a lapse since) had not flagged it, whatever the other wallet does.
\<close>

theorem gas_alert_edges:
  assumes "delivering w" and "wallet \<in> set (gas_watchlist c)"
  shows "gas_mails (fst wallet) (fold (gas_event_step w c) evs s) =
    gas_mails (fst wallet) s + edges (flagged wallet s) (concat (map (seen_of c wallet) evs))"
proof (induction evs arbitrary: s)
  case Nil
  then show ?case by simp
next
  case (Cons ev evs)
  show ?case
  proof (cases ev)
    case (Gas_Tick b)
    with Cons.IH [of "gas_event_step w c ev s"] gas_tick_run [OF assms, of b s] show ?thesis
      by (simp add: gas_event_step_def seen_of_def)
  next
    case (Flag_Lapses k)
    have "gas_mails (fst wallet) (gas_event_step w c ev s) = gas_mails (fst wallet) s"
      by (simp add: Flag_Lapses gas_event_step_def gas_mails_def)
    moreover have "flagged wallet (gas_event_step w c ev s) \<longleftrightarrow> flagged wallet s \<and> k \<noteq> gas_flag (fst wallet) (snd wallet)"
      by (auto simp: Flag_Lapses gas_event_step_def flagged_def)
    ultimately show ?thesis using Cons.IH [of "gas_event_step w c ev s"] by (simp add: Flag_Lapses seen_of_def)
  qed
qed

section \<open>Samples\<close>

definition sample_alerts :: alert_settings where
  "sample_alerts = \<lparr>as_environment = Testnet, as_admin_email = ''ops@test'', as_relayer_address = sample_address,
     as_scheduler_address = other_address, as_utc = show_int\<rparr>"

text \<open>A starter merchant (fee 1.5\<open>%\<close>) with 2\<open>%\<close> on the chain.\<close>

definition drifted_store :: store where
  "drifted_store = empty_store\<lparr>merchants := [sample_merchant\<lparr>m_onchain_fee_bps := Some 200,
     m_onchain_fee_tx_hash := Some sample_hash, m_onchain_fee_changed_at := Some 0\<rparr>]\<rparr>"

theorem fee_drift_reaches_operators_witness:
  "let s1 = snd (checkNow (as_environment sample_alerts) False 1000000 drifted_store);
       s2 = ((\<lambda>s. snd (sendNow working_mail True sample_alerts False 1060000 s)) ^^ 1) s1 in
   pending_alerts (arc_chain_id (as_environment sample_alerts)) s1 = 1 \<and>
   pending_alerts (arc_chain_id (as_environment sample_alerts)) s2 = 0 \<and>
   (\<exists>batches. emails s2 = emails s1 @ map (alert_mail sample_alerts) batches \<and> length (concat batches) = 1 \<and>
      list_all (\<lambda>b. em_to (alert_mail sample_alerts b) = ''ops@test'') batches)"
proof -
  let ?s1 = "snd (checkNow (as_environment sample_alerts) False 1000000 drifted_store)"
  let ?s2 = "((\<lambda>s. snd (sendNow working_mail True sample_alerts False 1060000 s)) ^^ 1) ?s1"
  have eval: "pending_alerts (arc_chain_id (as_environment sample_alerts)) ?s1 = 1"
    by (simp add: pending_alerts_def checkNow_def drifted_store_def sample_defs fee_settled_def GRACE_MS_def drift_of_def
        planFeeBps_def record_drift_def Let_def alert_pending_def sample_alerts_def)
  have "distinct (alert_ids drifted_store)" "alerts_parse drifted_store" "delivering working_mail"
    "\<forall>m\<in>set (merchants drifted_store). drift_paired drifted_store m"
    by (simp_all add: alert_ids_def alerts_parse_def drifted_store_def delivering_def sample_defs drift_paired_def split: option.split)
  note run = fee_drift_reaches_operators [OF this(1,2,4,3), where c = sample_alerts and now = 1000000 and k = 1 and later = 1060000]
  have "pending_alerts (arc_chain_id (as_environment sample_alerts)) ?s1 \<le> 1 * BATCH_LIMIT" by (simp only: eval) (simp add: BATCH_LIMIT_def)
  from run [OF this] obtain batches where b: "pending_alerts (arc_chain_id (as_environment sample_alerts)) ?s2 = 0"
    "emails ?s2 = emails ?s1 @ map (alert_mail sample_alerts) batches"
    "list_all (\<lambda>b. b \<noteq> [] \<and> length b \<le> 200 \<and> em_to (alert_mail sample_alerts b) = as_admin_email sample_alerts) batches"
    "mset (concat batches) = mset (map (\<lambda>r. the (alert_event sample_alerts ?s1 r))
      (filter (\<lambda>r. ca_alerted_at r = None \<and> ca_chain_id r = arc_chain_id (as_environment sample_alerts)) (contract_alerts ?s1)))" by blast
  have "length (concat batches) = pending_alerts (arc_chain_id (as_environment sample_alerts)) ?s1"
    using mset_eq_length [OF b(4)] by (simp add: pending_alerts_def count_where_def alert_pending_def [abs_def])
  moreover have "list_all (\<lambda>b. em_to (alert_mail sample_alerts b) = ''ops@test'') batches"
    using b(3) by (simp add: list_all_iff) (simp add: sample_alerts_def)
  ultimately show ?thesis unfolding Let_def using eval b(1,2) by (intro conjI exI [of _ batches]) simp_all
qed

definition sample_gas :: gas_settings where
  "sample_gas = \<lparr>gs_environment = Testnet, gs_admin_email = ''ops@test'', gs_relayer_address = sample_address,
     gs_scheduler_address = other_address, gs_threshold = 5000000\<rparr>"

text \<open>Low, low, recovered, low: two alerts.\<close>

theorem gas_alert_edges_witness:
  "gas_mails ''relayer'' (fold (gas_event_step working_mail sample_gas)
     [Gas_Tick (\<lambda>_. 4), Gas_Tick (\<lambda>_. 3), Gas_Tick (\<lambda>_. 6000000), Gas_Tick (\<lambda>_. 1)] sample_store) = 2"
proof -
  have start: "gas_mails ''relayer'' sample_store = 0" "\<not> flagged wallet sample_store" for wallet
    by (simp_all add: gas_mails_def flagged_def sample_defs)
  have "delivering working_mail" "(''relayer'', sample_address) \<in> set (gas_watchlist sample_gas)"
    by (simp_all add: delivering_def working_mail_def gas_watchlist_def sample_gas_def)
  note run = gas_alert_edges [OF this, of
      "[Gas_Tick (\<lambda>_. 4), Gas_Tick (\<lambda>_. 3), Gas_Tick (\<lambda>_. 6000000), Gas_Tick (\<lambda>_. 1)]" sample_store]
  have "edges False (concat (map (seen_of sample_gas (''relayer'', sample_address))
      [Gas_Tick (\<lambda>_. 4), Gas_Tick (\<lambda>_. 3), Gas_Tick (\<lambda>_. 6000000), Gas_Tick (\<lambda>_. 1)])) = 2"
    by (simp add: seen_of_def sample_gas_def)
  then show ?thesis using run start by (simp only: fst_conv simp_thms add_0)
qed

end
