(* ===== verification/Agent_Worker.thy ===== *)
theory Agent_Worker
  imports Notices "HOL-Library.List_Lexorder" "HOL-Library.Char_ord"
begin

text \<open>
  The agent application (\<open>apps/agent/src\<close>): the recovery notices to payers of subscriptions at risk, the daily digest,
  the yield recommendation and the monthly commerce summary to merchants, and the worker that waits for Circle's
  attestation of a bridged payment. Each writes to the activity log, and reads it back to avoid repeating itself.
\<close>

section \<open>Common parts\<close>

text \<open>\<open>common/escape-html.ts\<close>.\<close>

definition escape_char :: "char \<Rightarrow> string" where
  "escape_char c = (if c = CHR ''&'' then ''&amp;'' else if c = CHR ''<'' then ''&lt;'' else if c = CHR ''>'' then ''&gt;''
     else if c = CHR 0x22 then ''&quot;'' else if c = CHR 0x27 then ''&#39;'' else [c])"

definition agent_escapeHtml :: "string \<Rightarrow> string" where
  "agent_escapeHtml s = concat (map escape_char s)"

text \<open>\<open>toISOString().slice(0, 10)\<close>, for the years with four digits.\<close>

definition iso_date :: "int \<Rightarrow> string" where
  "iso_date t = (let c = civil_of_day (day_of t) in show_int (cv_year c) @ ''-'' @ pad2 (cv_month c) @ ''-'' @ pad2 (cv_day c))"

text \<open>\<open>ActivityLogService.record\<close>. \<open>aid\<close> is the fresh identifier.\<close>

definition record_activity ::
  "string \<Rightarrow> int \<Rightarrow> string \<Rightarrow> agent_capability \<Rightarrow> string \<Rightarrow> activity_outcome \<Rightarrow> string option \<Rightarrow> metadata \<Rightarrow> (store, api_exn, unit) proc" where
  "record_activity aid now merchantId capability actionType result subscriptionId meta =
     modify (\<lambda>s. s\<lparr>activity := activity s @ [\<lparr>at_id = aid, at_merchant_id = merchantId, at_capability = capability,
       at_action_type = actionType, at_outcome = result, at_subscription_id = subscriptionId, at_transaction_id = None,
       at_job_id = None, at_metadata = meta, at_created_at = now\<rparr>]\<rparr>)"

text \<open>\<open>hasSuccessfulRecoveryAttempt\<close>.\<close>

definition recovery_attempt :: "string \<Rightarrow> nat \<Rightarrow> int \<Rightarrow> activity_row \<Rightarrow> bool" where
  "recovery_attempt subscriptionId attempt since r \<longleftrightarrow>
     at_subscription_id r = Some subscriptionId \<and> at_action_type r = ''recovery_notification_sent'' \<and> at_outcome r = Act_Success \<and>
     since \<le> at_created_at r \<and> map_of (at_metadata r) ''attemptNumber'' = Some (show_nat attempt)"

definition hasSuccessfulRecoveryAttempt :: "store \<Rightarrow> string \<Rightarrow> nat \<Rightarrow> int \<Rightarrow> bool" where
  "hasSuccessfulRecoveryAttempt s subscriptionId attempt since \<longleftrightarrow> list_ex (recovery_attempt subscriptionId attempt since) (activity s)"

text \<open>\<open>hasRecentForSubscription\<close>.\<close>

definition hasRecentForSubscription :: "store \<Rightarrow> int \<Rightarrow> string \<Rightarrow> string \<Rightarrow> int \<Rightarrow> bool" where
  "hasRecentForSubscription s now subscriptionId actionType sinceMs \<longleftrightarrow>
     list_ex (\<lambda>r. at_subscription_id r = Some subscriptionId \<and> at_action_type r = actionType \<and> now - sinceMs \<le> at_created_at r) (activity s)"

definition has_capability :: "agent_capability \<Rightarrow> agent_config_row \<Rightarrow> bool" where
  "has_capability c r \<longleftrightarrow> c \<in> set (ac_enabled_capabilities r)"

section \<open>Recovery\<close>

definition HOURS :: int where
  "HOURS = 60 * 60 * 1000"

definition DEFAULT_SCHEDULE :: "int list" where
  "DEFAULT_SCHEDULE = [0, 24 * HOURS]"

definition STRATEGY_SCHEDULE :: "string \<Rightarrow> int list" where
  "STRATEGY_SCHEDULE strategy =
     (if strategy = ''once'' then [0]
      else if strategy = ''until_grace_ends'' then [0, 24 * HOURS, 72 * HOURS]
      else DEFAULT_SCHEDULE)"

text \<open>The reverse search for the latest offset that has passed.\<close>

fun due_index :: "int list \<Rightarrow> int \<Rightarrow> nat \<Rightarrow> nat option" where
  "due_index schedule elapsed 0 = None"
| "due_index schedule elapsed (Suc i) = (if schedule ! i \<le> elapsed then Some i else due_index schedule elapsed i)"

definition recovery_mail :: "agent_config_row \<Rightarrow> merchant_row \<Rightarrow> string \<Rightarrow> sub_row \<Rightarrow> nat \<Rightarrow> nat \<Rightarrow> email" where
  "recovery_mail cfg m customerEmail u attempt totalAttempts =
     (let name = business_name ''your provider'' m in
      \<lparr>em_to = customerEmail, em_subject = ''Action needed: your subscription with '' @ name,
       em_about = [if truthy (ac_notification_template cfg) then agent_escapeHtml (the (ac_notification_template cfg)) else agent_escapeHtml name,
         show_nat attempt, show_nat totalAttempts, agent_escapeHtml (su_id u)]\<rparr>)"

text \<open>
  What one tick needs from outside: the mail provider, whether a write to the log succeeds (by action, outcome and
  subscription), and whether the transaction that logs the notice of a subscription commits.
\<close>

record agent_world =
  aw_mail :: mail_world
  aw_log :: "string \<Rightarrow> activity_outcome \<Rightarrow> string option \<Rightarrow> bool"
  aw_commit :: "string \<Rightarrow> bool"
  aw_fresh :: "nat \<Rightarrow> string"

record recovery_result =
  rr_notified :: nat
  rr_skipped :: nat

definition log_row ::
  "agent_world \<Rightarrow> int \<Rightarrow> string \<Rightarrow> agent_capability \<Rightarrow> string \<Rightarrow> activity_outcome \<Rightarrow> string option \<Rightarrow> metadata \<Rightarrow> (store, api_exn, unit) proc" where
  "log_row w now merchantId capability actionType result subscriptionId meta =
     seq (gets (\<lambda>s. aw_fresh w (length (activity s)))) (\<lambda>aid.
     record_activity aid now merchantId capability actionType result subscriptionId meta)"

text \<open>The same outside a transaction, where the write can fail by itself.\<close>

definition log_activity ::
  "agent_world \<Rightarrow> int \<Rightarrow> string \<Rightarrow> agent_capability \<Rightarrow> string \<Rightarrow> activity_outcome \<Rightarrow> string option \<Rightarrow> metadata \<Rightarrow> (store, api_exn, unit) proc" where
  "log_activity w now merchantId capability actionType result subscriptionId meta =
     seq (require (aw_log w actionType result subscriptionId) (Crash ''database'')) (\<lambda>_.
     log_row w now merchantId capability actionType result subscriptionId meta)"

fun error_message :: "api_exn \<Rightarrow> string" where
  "error_message (Http status code details) = code"
| "error_message (Crash message) = message"

text \<open>The body of the inner loop for one subscription: what it adds to the two counters.\<close>

definition recover_sub ::
  "agent_world \<Rightarrow> int \<Rightarrow> agent_config_row \<Rightarrow> merchant_row \<Rightarrow> sub_row \<Rightarrow> (store, api_exn, recovery_result) proc" where
  "recover_sub w now cfg m u =
     (let schedule = STRATEGY_SCHEDULE (ac_strategy cfg); mid = ac_merchant_id cfg;
          log = log_activity w now mid Cap_Recovery in
      case due_index schedule (now - su_current_period_end_at u) (length schedule) of
        None \<Rightarrow> ret \<lparr>rr_notified = 0, rr_skipped = 0\<rparr>
      | Some dueIndex \<Rightarrow>
          seq (gets (\<lambda>s. (hasSuccessfulRecoveryAttempt s (su_id u) (dueIndex + 1) (su_current_period_end_at u),
                          customer_email s (su_customer_id u)))) (\<lambda>(alreadySent, customerEmail).
          if alreadySent then ret \<lparr>rr_notified = 0, rr_skipped = 1\<rparr>
          else if \<not> truthy customerEmail then
            seq (log ''recovery_abandoned'' Act_Skipped (Some (su_id u)) [(''reason'', ''customer email not on file'')]) (\<lambda>_.
            ret \<lparr>rr_notified = 0, rr_skipped = 1\<rparr>)
          else
            catch (seq (email_send (aw_mail w) (recovery_mail cfg m (the customerEmail) u (dueIndex + 1) (length schedule))) (\<lambda>_.
                   seq (in_tx (
                     seq (log_row w now mid Cap_Recovery ''recovery_notification_sent'' Act_Success (Some (su_id u))
                       [(''attemptNumber'', show_nat (dueIndex + 1)), (''totalAttempts'', show_nat (length schedule)),
                        (''strategy'', ac_strategy cfg)]) (\<lambda>_.
                     seq (gets (\<lambda>s. aw_fresh w (length (events s)))) (\<lambda>eid.
                     seq (put_event (ref_event (''evt_'' @ eid) now mid ''subscription_recovery_attempt'' (su_mode u)
                       (Ref_Recovery_Attempt (su_id u) (int (dueIndex + 1))))) (\<lambda>_.
                     require (aw_commit w (su_id u)) (Crash ''database'')))))) (\<lambda>_.
                   ret \<lparr>rr_notified = 1, rr_skipped = 0\<rparr>)))
              (\<lambda>e. seq (log ''recovery_notification_sent'' Act_Failure (Some (su_id u)) [(''error'', error_message e)]) (\<lambda>_.
                    ret \<lparr>rr_notified = 0, rr_skipped = 0\<rparr>))))"

definition recovery_total :: "recovery_result list \<Rightarrow> recovery_result" where
  "recovery_total rs = \<lparr>rr_notified = sum_list (map rr_notified rs), rr_skipped = sum_list (map rr_skipped rs)\<rparr>"

definition at_risk_of :: "string \<Rightarrow> store \<Rightarrow> sub_row list" where
  "at_risk_of merchantId s = filter (\<lambda>u. su_merchant_id u = merchantId \<and> su_status u = At_Risk) (subs s)"

text \<open>The merchants of a capability, with their rows (\<open>include: { merchant: true }\<close>).\<close>

definition configured :: "agent_capability \<Rightarrow> (agent_config_row \<Rightarrow> merchant_row \<Rightarrow> bool) \<Rightarrow> store \<Rightarrow> (agent_config_row \<times> merchant_row) list" where
  "configured c P s = concat (map (\<lambda>r. case merchant_of s (ac_merchant_id r) of
     None \<Rightarrow> [] | Some m \<Rightarrow> if has_capability c r \<and> P r m then [(r, m)] else []) (agent_configs s))"

definition recovery_tick :: "agent_world \<Rightarrow> int \<Rightarrow> (store, api_exn, recovery_result) proc" where
  "recovery_tick w now =
     seq (gets (configured Cap_Recovery (\<lambda>_ _. True))) (\<lambda>cfgs.
     seq (for_each (\<lambda>(cfg, m). seq (gets (at_risk_of (ac_merchant_id cfg))) (\<lambda>us.
            seq (for_each (recover_sub w now cfg m) us) (\<lambda>rs. ret (recovery_total rs)))) cfgs) (\<lambda>rs.
     ret (recovery_total rs)))"

section \<open>Sums per currency\<close>

text \<open>
  \<open>SELECT currency, sum(...) GROUP BY currency\<close> over rows of the model, and \<open>toCurrencyAmounts\<close> of the result
  (\<open>common/money/currency-amounts.ts\<close> is the same code as the API's).
\<close>

definition currency_rows :: "('r \<Rightarrow> payment_currency) \<Rightarrow> ('r \<Rightarrow> string) \<Rightarrow> 'r list \<Rightarrow> (string \<times> string) list" where
  "currency_rows cur amount rows =
     map (\<lambda>c. (currency_name c, show_nat (sum_list (map (big_nat \<circ> amount) (filter (\<lambda>r. cur r = c) rows)))))
       (filter (\<lambda>c. c \<in> cur ` set rows) PAYMENT_TOKENS)"

definition currenciesToShow :: "payment_currency list \<Rightarrow> payment_currency list" where
  "currenciesToShow active = (let shown = filter (\<lambda>c. c \<in> set active) PAYMENT_TOKENS in if shown = [] then [USDC] else shown)"

definition formatAmount :: "nat \<Rightarrow> payment_currency \<Rightarrow> string" where
  "formatAmount raw currency = formatUnits6 raw @ '' '' @ currency_name currency"

section \<open>Daily digest\<close>

record digest_stats =
  dg_revenue :: "payment_currency \<Rightarrow> string"
  dg_fees :: "payment_currency \<Rightarrow> string"
  dg_net :: "payment_currency \<Rightarrow> string"
  dg_active :: "payment_currency list"
  dg_count :: nat
  dg_customers :: nat

definition digest_rows :: "string \<Rightarrow> int \<Rightarrow> int \<Rightarrow> store \<Rightarrow> tx_row list" where
  "digest_rows merchantId from until s = filter (\<lambda>t. tx_merchant_id t = merchantId \<and> tx_status t = Tx_Confirmed \<and>
     tx_mode t = Live \<and> tx_kind t \<noteq> Refund_Kind \<and> from \<le> tx_block_timestamp t \<and> tx_block_timestamp t < until) (transactions s)"

definition digest_aggregate :: "string \<Rightarrow> int \<Rightarrow> int \<Rightarrow> (store, api_exn, digest_stats) proc" where
  "digest_aggregate merchantId from until = (\<lambda>s.
     let rows = digest_rows merchantId from until s;
         sums = (\<lambda>f. toCurrencyAmounts (currency_rows tx_currency f rows)) in
     case (sums tx_amount, sums tx_fee_amount, sums tx_net_amount) of
       (Inr revenue, Inr fees, Inr net) \<Rightarrow> (Inr \<lparr>dg_revenue = revenue, dg_fees = fees, dg_net = net,
         dg_active = filter (\<lambda>c. c \<in> tx_currency ` set rows) PAYMENT_TOKENS, dg_count = length rows,
         dg_customers = length (remdups (List.map_filter tx_customer_id rows))\<rparr>, s)
     | _ \<Rightarrow> (Inl (Crash ''aggregate''), s))"

definition digest_mail :: "merchant_row \<Rightarrow> int \<Rightarrow> digest_stats \<Rightarrow> email" where
  "digest_mail m day d = \<lparr>em_to = m_email m, em_subject = ''Strimz daily digest - '' @ iso_date day,
     em_about = [agent_escapeHtml (business_name ''merchant'' m)] @
       concat (map (\<lambda>c. [formatAmount (big_nat (dg_revenue d c)) c, formatAmount (big_nat (dg_fees d c)) c,
         formatAmount (big_nat (dg_net d c)) c]) (currenciesToShow (dg_active d))) @ [show_nat (dg_count d), show_nat (dg_customers d)]\<rparr>"

definition digest_logged :: "string \<Rightarrow> int \<Rightarrow> activity_row \<Rightarrow> bool" where
  "digest_logged merchantId dayEnd r \<longleftrightarrow> at_merchant_id r = merchantId \<and> at_capability r = Cap_Cashflow \<and>
     at_action_type r = ''cashflow_digest_sent'' \<and> dayEnd \<le> at_created_at r"

record agent_tick_result =
  gt_sent :: nat
  gt_skipped :: nat

text \<open>The body of the loop for one merchant. \<open>day\<close> is the start of yesterday.\<close>

definition digest_merchant ::
  "agent_world \<Rightarrow> int \<Rightarrow> agent_config_row \<times> merchant_row \<Rightarrow> (store, api_exn, agent_tick_result) proc" where
  "digest_merchant w now = (\<lambda>(cfg, m).
     let dayStart = start_of_day (now - DAY_MS); dayEnd = dayStart + DAY_MS; mid = ac_merchant_id cfg;
         log = log_activity w now mid Cap_Cashflow ''cashflow_digest_sent'' in
     seq (gets (\<lambda>s. list_ex (digest_logged mid dayEnd) (activity s))) (\<lambda>alreadySent.
     if alreadySent then ret \<lparr>gt_sent = 0, gt_skipped = 1\<rparr>
     else seq (digest_aggregate mid dayStart dayEnd) (\<lambda>d.
       catch (seq (email_send (aw_mail w) (digest_mail m dayStart d)) (\<lambda>_.
              seq (log Act_Success None
                [(''day'', iso_date dayStart), (''revenueUsdc'', dg_revenue d USDC), (''revenueEurc'', dg_revenue d EURC),
                 (''feesUsdc'', dg_fees d USDC), (''feesEurc'', dg_fees d EURC), (''netUsdc'', dg_net d USDC),
                 (''netEurc'', dg_net d EURC), (''count'', show_nat (dg_count d)),
                 (''uniqueCustomers'', show_nat (dg_customers d))]) (\<lambda>_.
              ret \<lparr>gt_sent = 1, gt_skipped = 0\<rparr>)))
         (\<lambda>e. seq (log Act_Failure None [(''error'', error_message e)]) (\<lambda>_. ret \<lparr>gt_sent = 0, gt_skipped = 0\<rparr>)))))"

definition agent_total :: "agent_tick_result list \<Rightarrow> agent_tick_result" where
  "agent_total rs = \<lparr>gt_sent = sum_list (map gt_sent rs), gt_skipped = sum_list (map gt_skipped rs)\<rparr>"

definition digest_tick :: "agent_world \<Rightarrow> int \<Rightarrow> (store, api_exn, agent_tick_result) proc" where
  "digest_tick w now =
     seq (gets (configured Cap_Cashflow (\<lambda>r _. ac_digest_enabled r))) (\<lambda>cfgs.
     seq (for_each (digest_merchant w now) cfgs) (\<lambda>rs. ret (agent_total rs)))"

section \<open>Yield recommendation\<close>

definition liquid_balance :: "string \<Rightarrow> payment_currency \<Rightarrow> store \<Rightarrow> nat" where
  "liquid_balance merchantId c s =
     (let paid = sum_list (map (big_nat \<circ> tx_net_amount) (filter (\<lambda>t. tx_merchant_id t = merchantId \<and> tx_currency t = c \<and>
            tx_mode t = Live \<and> tx_status t = Tx_Confirmed \<and> tx_kind t \<noteq> Refund_Kind) (transactions s)));
          refunded = sum_list (map (big_nat \<circ> rf_amount) (filter (\<lambda>r. rf_merchant_id r = merchantId \<and> rf_currency r = c \<and>
            rf_mode r = Live \<and> rf_status r = Rf_Completed) (refunds s)))
      in paid - refunded)"

text \<open>\<open>(cents / 100).toFixed(2)\<close>.\<close>

definition dollars :: "nat \<Rightarrow> string" where
  "dollars cents = show_nat (cents div 100) @ ''.'' @ show_nat (cents mod 100 div 10) @ show_nat (cents mod 10)"

definition yield_mail :: "merchant_row \<Rightarrow> nat \<Rightarrow> nat \<Rightarrow> nat \<Rightarrow> email" where
  "yield_mail m surplus reserved eurc = \<lparr>em_to = m_email m, em_subject = ''Strimz: cash surplus available for yield'',
     em_about = [agent_escapeHtml (business_name ''merchant'' m), dollars surplus, dollars reserved, formatAmount eurc EURC]\<rparr>"

definition yield_logged :: "string \<Rightarrow> int \<Rightarrow> activity_row \<Rightarrow> bool" where
  "yield_logged merchantId now r \<longleftrightarrow> at_merchant_id r = merchantId \<and> at_capability r = Cap_Cashflow \<and>
     at_action_type r = ''cashflow_yield_converted'' \<and> now - 23 * HOURS \<le> at_created_at r"

definition swallow :: "('s, 'e, unit) proc \<Rightarrow> ('s, 'e, unit) proc" where
  "swallow m = catch m (\<lambda>_. ret ())"

definition yield_merchant ::
  "agent_world \<Rightarrow> int \<Rightarrow> agent_config_row \<times> merchant_row \<Rightarrow> (store, api_exn, agent_tick_result) proc" where
  "yield_merchant w now = (\<lambda>(cfg, m).
     let mid = ac_merchant_id cfg; reserved = ac_minimum_reserve_cents cfg in
     seq (gets (\<lambda>s. (liquid_balance mid USDC s div 10000, liquid_balance mid EURC s))) (\<lambda>(balance, eurc).
     if balance \<le> reserved then ret \<lparr>gt_sent = 0, gt_skipped = 1\<rparr>
     else seq (gets (\<lambda>s. list_ex (yield_logged mid now) (activity s))) (\<lambda>recent.
       if recent then ret \<lparr>gt_sent = 0, gt_skipped = 1\<rparr>
       else seq (swallow (email_send (aw_mail w) (yield_mail m (balance - reserved) reserved eurc))) (\<lambda>_.
            seq (log_activity w now mid Cap_Cashflow ''cashflow_yield_converted'' Act_Pending None
              [(''surplusCents'', show_nat (balance - reserved)), (''reserveCents'', show_nat reserved),
               (''balanceCents'', show_nat balance), (''eurcBalance'', show_nat eurc), (''stage'', ''recommendation_sent'')]) (\<lambda>_.
            ret \<lparr>gt_sent = 1, gt_skipped = 0\<rparr>)))))"

definition yield_tick :: "agent_world \<Rightarrow> int \<Rightarrow> (store, api_exn, agent_tick_result) proc" where
  "yield_tick w now =
     seq (gets (configured Cap_Cashflow (\<lambda>r m. ac_auto_convert_to_yield r \<and> m_tier m \<in> set (plansWith Yield_Recommendations)))) (\<lambda>cfgs.
     seq (for_each (yield_merchant w now) cfgs) (\<lambda>rs. ret (agent_total rs)))"

section \<open>Monthly commerce summary\<close>

record commerce_summary =
  cs_spend :: "payment_currency \<Rightarrow> string"
  cs_active :: "payment_currency list"
  cs_job_count :: nat
  cs_top_vendors :: "(string \<times> payment_currency \<times> nat \<times> nat) list"
  cs_proposed :: nat

definition spent_jobs :: "string \<Rightarrow> int \<Rightarrow> int \<Rightarrow> store \<Rightarrow> agent_job_row list" where
  "spent_jobs merchantId from until s = filter (\<lambda>j. aj_merchant_id j = merchantId \<and>
     aj_status j \<in> {Aj_Approved, Aj_Completed} \<and> from \<le> aj_created_at j \<and> aj_created_at j < until) (agent_jobs s)"

text \<open>The ranked query: per currency, the five vendors with the largest spend, ties by address.\<close>

definition vendor_spend :: "payment_currency \<Rightarrow> agent_job_row list \<Rightarrow> (string \<times> payment_currency \<times> nat \<times> nat) list" where
  "vendor_spend c jobs =
     (let js = filter (\<lambda>j. aj_currency j = c) jobs in
      map (\<lambda>v. let vs = filter (\<lambda>j. aj_vendor_address j = v) js in
             (v, c, sum_list (map (big_nat \<circ> aj_amount) vs), length vs))
        (remdups (map aj_vendor_address js)))"

definition top_vendors :: "agent_job_row list \<Rightarrow> (string \<times> payment_currency \<times> nat \<times> nat) list" where
  "top_vendors jobs = concat (map (\<lambda>c. take 5 (sort_key (\<lambda>(v, _, spend, _). - int spend) (sort_key fst (vendor_spend c jobs)))) PAYMENT_TOKENS)"

definition computeSummary :: "string \<Rightarrow> int \<Rightarrow> int \<Rightarrow> (store, api_exn, commerce_summary) proc" where
  "computeSummary merchantId from until = (\<lambda>s.
     let jobs = spent_jobs merchantId from until s in
     case toCurrencyAmounts (currency_rows aj_currency aj_amount jobs) of
       Inl e \<Rightarrow> (Inl e, s)
     | Inr spend \<Rightarrow> (Inr \<lparr>cs_spend = spend, cs_active = filter (\<lambda>c. c \<in> aj_currency ` set jobs) PAYMENT_TOKENS,
         cs_job_count = length jobs, cs_top_vendors = top_vendors jobs,
         cs_proposed = length (filter (\<lambda>j. aj_merchant_id j = merchantId \<and> aj_status j = Aj_Proposed \<and>
           from \<le> aj_created_at j \<and> aj_created_at j < until) (agent_jobs s))\<rparr>, s))"

text \<open>\<open>Math.round(usdcSpendCents(spend) * 100 / cap)\<close>, with an exact quotient.\<close>

definition capUtilisationPct :: "(payment_currency \<Rightarrow> string) \<Rightarrow> nat option \<Rightarrow> nat option" where
  "capUtilisationPct spend cap = (case cap of None \<Rightarrow> None | Some k \<Rightarrow>
     if k = 0 then None else Some ((2 * (big_nat (spend USDC) div 10000 * 100) + k) div (2 * k)))"

definition commerce_mail :: "(int \<Rightarrow> string) \<Rightarrow> merchant_row \<Rightarrow> int \<Rightarrow> commerce_summary \<Rightarrow> nat option \<Rightarrow> email" where
  "commerce_mail formatMonth m month d cap = \<lparr>em_to = m_email m, em_subject = ''Strimz: '' @ formatMonth month @ '' commerce summary'',
     em_about = [formatMonth month, agent_escapeHtml (business_name ''merchant'' m)] @
       map (\<lambda>c. formatAmount (big_nat (cs_spend d c)) c) (currenciesToShow (cs_active d)) @ [show_nat (cs_job_count d)] @
       (case (cap, capUtilisationPct (cs_spend d) cap) of
          (Some k, Some pct) \<Rightarrow> [formatAmount (big_nat (cs_spend d USDC)) USDC, dollars k, show_nat pct] | _ \<Rightarrow> []) @
       (if 0 < cs_proposed d then [show_nat (cs_proposed d)] else []) @
       concat (map (\<lambda>(v, c, spend, jobs). [agent_escapeHtml v, show_nat jobs, formatAmount spend c]) (cs_top_vendors d))\<rparr>"

definition commerce_logged :: "string \<Rightarrow> int \<Rightarrow> activity_row \<Rightarrow> bool" where
  "commerce_logged merchantId monthEnd r \<longleftrightarrow> at_merchant_id r = merchantId \<and> at_capability r = Cap_Commerce \<and>
     at_action_type r = ''commerce_job_completed'' \<and> monthEnd \<le> at_created_at r \<and>
     map_of (at_metadata r) ''stage'' = Some ''monthly_summary''"

definition commerce_merchant ::
  "agent_world \<Rightarrow> (int \<Rightarrow> string) \<Rightarrow> int \<Rightarrow> agent_config_row \<times> merchant_row \<Rightarrow> (store, api_exn, agent_tick_result) proc" where
  "commerce_merchant w formatMonth now = (\<lambda>(cfg, m).
     let monthEnd = start_of_month now; monthStart = start_of_month (monthEnd - 1); mid = ac_merchant_id cfg in
     seq (gets (\<lambda>s. list_ex (commerce_logged mid monthEnd) (activity s))) (\<lambda>already.
     if already then ret \<lparr>gt_sent = 0, gt_skipped = 1\<rparr>
     else seq (computeSummary mid monthStart monthEnd) (\<lambda>d.
          seq (swallow (email_send (aw_mail w) (commerce_mail formatMonth m monthStart d (ac_monthly_cap_cents cfg)))) (\<lambda>_.
          seq (log_activity w now mid Cap_Commerce ''commerce_job_completed'' Act_Success None
            ([(''stage'', ''monthly_summary''), (''month'', take 7 (iso_date monthStart)), (''spendUsdc'', cs_spend d USDC),
              (''spendEurc'', cs_spend d EURC), (''jobCount'', show_nat (cs_job_count d)),
              (''topVendorCount'', show_nat (length (cs_top_vendors d)))] @
             (case capUtilisationPct (cs_spend d) (ac_monthly_cap_cents cfg) of None \<Rightarrow> [] | Some p \<Rightarrow> [(''capUtilisationPct'', show_nat p)]))) (\<lambda>_.
          ret \<lparr>gt_sent = 1, gt_skipped = 0\<rparr>)))))"

definition commerce_tick :: "agent_world \<Rightarrow> (int \<Rightarrow> string) \<Rightarrow> int \<Rightarrow> (store, api_exn, agent_tick_result) proc" where
  "commerce_tick w formatMonth now =
     seq (gets (configured Cap_Commerce (\<lambda>_ _. True))) (\<lambda>cfgs.
     seq (for_each (commerce_merchant w formatMonth now) cfgs) (\<lambda>rs. ret (agent_total rs)))"

section \<open>Bridged payments\<close>

text \<open>
  \<open>CircleAttestationService.fetch\<close> on the response of the API: the status of the call and, for a readable body, its
  messages (each with its optional message, attestation and status). \<open>None\<close>: the call or the body failed.
\<close>

datatype attestation = Complete string string | Pending_Confirmations | Unknown_Status

type_synonym circle_message = "string option \<times> string option \<times> string option"

definition coerceHex :: "string \<Rightarrow> string" where
  "coerceHex s = (if starts_with s ''0x'' then s else ''0x'' @ s)"

fun first_complete :: "circle_message list \<Rightarrow> (string \<times> string) option" where
  "first_complete [] = None"
| "first_complete ((msg, att, st) # ms) =
     (if st = Some ''complete'' \<and> truthy msg \<and> truthy att then Some (the msg, the att) else first_complete ms)"

definition fetch_attestation :: "(nat \<times> circle_message list option) option \<Rightarrow> api_exn + attestation" where
  "fetch_attestation response = (case response of
     None \<Rightarrow> Inl (Crash ''fetch'')
   | Some (status, body) \<Rightarrow>
       if status = 404 then Inr Pending_Confirmations
       else if \<not> (200 \<le> status \<and> status < 300) then Inl (Crash ''circle attestation API'')
       else (case body of
         None \<Rightarrow> Inl (Crash ''json'')
       | Some [] \<Rightarrow> Inr Unknown_Status
       | Some (m # ms) \<Rightarrow> (case first_complete (m # ms) of
           Some (msg, att) \<Rightarrow> Inr (Complete (coerceHex msg) (coerceHex att))
         | None \<Rightarrow> Inr (if snd (snd m) = Some ''pending_confirmations'' then Pending_Confirmations else Unknown_Status))))"

record bridge_job =
  bj_merchant_id :: string
  bj_source_domain :: nat
  bj_source_tx :: string
  bj_ref :: "string option"
  bj_poll_count :: nat

definition bridge_job_ok :: "bridge_job \<Rightarrow> bool" where
  "bridge_job_ok j \<longleftrightarrow> tx_hash_ok (bj_source_tx j)"

definition POLL_DELAY_MS :: int where "POLL_DELAY_MS = 30000"
definition MAX_POLLS :: nat where "MAX_POLLS = 120"

text \<open>The status of the run, and the job that \<open>selfQueue.add\<close> queues with its delay.\<close>

datatype bridge_status = Bridge_Queued | Bridge_Pending "(bridge_job \<times> int) option"

definition process_bridge ::
  "(nat \<Rightarrow> string) \<Rightarrow> ((nat \<times> circle_message list option) option) \<Rightarrow> int \<Rightarrow> bridge_job \<Rightarrow> (store, api_exn, bridge_status) proc" where
  "process_bridge fresh response now j =
     (let log = (\<lambda>act result meta. seq (gets (\<lambda>s. fresh (length (activity s)))) (\<lambda>aid.
            record_activity aid now (bj_merchant_id j) Cap_Routing act result None meta));
          source = (''sourceTxHash'', bj_source_tx j) in
      seq (require (bridge_job_ok j) (Crash ''ZodError'')) (\<lambda>_.
      seq (if bj_poll_count j = 0
           then log ''routing_bridge_initiated'' Act_Pending [(''sourceDomainId'', show_nat (bj_source_domain j)), source, (''ref'', set_or (bj_ref j) ''null'')]
           else ret ()) (\<lambda>_.
      case fetch_attestation response of
        Inl e \<Rightarrow> raise e
      | Inr (Complete msg att) \<Rightarrow>
          seq (require (agent_action_job_ok (Cctp_Settle (bj_merchant_id j) (bj_source_domain j) (bj_source_tx j) msg att (bj_ref j))) (Crash ''ZodError'')) (\<lambda>_.
          seq (modify (\<lambda>s. s\<lparr>agent_queue := agent_queue s @
            [Cctp_Settle (bj_merchant_id j) (bj_source_domain j) (bj_source_tx j) msg att (bj_ref j)]\<rparr>)) (\<lambda>_.
          seq (log ''routing_payment_completed'' Act_Success [(''sourceDomainId'', show_nat (bj_source_domain j)), source,
            (''ref'', set_or (bj_ref j) ''null''), (''stage'', ''attestation_ready_settle_enqueued'')]) (\<lambda>_.
          ret Bridge_Queued)))
      | Inr _ \<Rightarrow>
          if MAX_POLLS \<le> bj_poll_count j
          then seq (log ''routing_bridge_initiated'' Act_Failure [source, (''reason'', ''attestation timed out'')]) (\<lambda>_. ret (Bridge_Pending None))
          else ret (Bridge_Pending (Some (j\<lparr>bj_poll_count := bj_poll_count j + 1\<rparr>, POLL_DELAY_MS))))))"

section \<open>Facts about the recovery tick\<close>


lemma log_row_app [simp]:
  "log_row w now mid cap act result sub meta s = (Inr (), s\<lparr>activity := activity s @ [\<lparr>at_id = aw_fresh w (length (activity s)),
     at_merchant_id = mid, at_capability = cap, at_action_type = act, at_outcome = result, at_subscription_id = sub,
     at_transaction_id = None, at_job_id = None, at_metadata = meta, at_created_at = now\<rparr>]\<rparr>)"
  by (simp add: log_row_def record_activity_def)

lemma log_activity_app [simp]:
  "log_activity w now mid cap act result sub meta s =
     (if aw_log w act result sub then log_row w now mid cap act result sub meta s else (Inl (Crash ''database''), s))"
  by (simp add: log_activity_def del: log_row_app)

definition notice_logged :: "activity_row \<Rightarrow> bool" where
  "notice_logged r \<longleftrightarrow> at_action_type r = ''recovery_notification_sent'' \<and> at_outcome r = Act_Success"








text \<open>
  The mails against the notices: never fewer; as many when every transaction commits (\<open>C\<close>); and when every log write
  succeeds (\<open>L\<close>), as many as notices and lost transactions.
\<close>

definition balance :: "store \<Rightarrow> int" where
  "balance s = int (length (emails s)) - int (count_where notice_logged (activity s))"














text \<open>Text a merchant or payer chose cannot open a tag or an attribute in a mail.\<close>

lemma agent_escapeHtml_safe: "set (agent_escapeHtml s) \<inter> {CHR ''<'', CHR ''>'', CHR 0x22, CHR 0x27} = {}"
  by (auto simp: agent_escapeHtml_def escape_char_def)

text \<open>A failed digest is logged under the same action, which the next tick takes for a sent one: it is not retried that day.\<close>

lemma digest_failure_blocks_retry:
  assumes "aw_log w ''cashflow_digest_sent'' Act_Failure None" "\<not> mw_stub (aw_mail w)" "\<And>e. \<not> mw_deliver (aw_mail w) e" "\<not> list_ex (digest_logged (ac_merchant_id cfg) (start_of_day (now - DAY_MS) + DAY_MS)) (activity s)"
    "fst (digest_aggregate (ac_merchant_id cfg) (start_of_day (now - DAY_MS)) (start_of_day (now - DAY_MS) + DAY_MS) s) = Inr d"
    "now \<le> later" "start_of_day (later - DAY_MS) = start_of_day (now - DAY_MS)"
  shows "fst (digest_merchant w' later (cfg, m) (snd (digest_merchant w now (cfg, m) s))) = Inr \<lparr>gt_sent = 0, gt_skipped = 1\<rparr>"
proof -
  have same: "snd (digest_aggregate mid a b s) = s" for mid a b
    by (simp add: digest_aggregate_def Let_def split: sum.split)
  have "start_of_day (now - DAY_MS) + DAY_MS \<le> now" using day_bounds(1) [of "now - DAY_MS"] by simp
  with assms(1-5) same [of "ac_merchant_id cfg" "start_of_day (now - DAY_MS)" "start_of_day (now - DAY_MS) + DAY_MS"]
  have "list_ex (digest_logged (ac_merchant_id cfg) (start_of_day (now - DAY_MS) + DAY_MS)) (activity (snd (digest_merchant w now (cfg, m) s)))"
    by (cases "digest_aggregate (ac_merchant_id cfg) (start_of_day (now - DAY_MS)) (start_of_day (now - DAY_MS) + DAY_MS) s")
      (simp add: digest_merchant_def Let_def seq_def catch_def email_send_def digest_logged_def)
  then show ?thesis by (simp add: digest_merchant_def Let_def assms(7))
qed

text \<open>The third notice of \<open>until_grace_ends\<close> is due only when the grace period, if shorter than 72 hours, is over.\<close>

lemma third_notice_after_grace:
  assumes "due_index (STRATEGY_SCHEDULE ''until_grace_ends'') (now - su_current_period_end_at u) 3 = Some 2"
    "su_status u = At_Risk" "su_grace_period_hours u < 72"
  shows "grace_over now u"
  using assms by (simp add: STRATEGY_SCHEDULE_def grace_over_def HOURS_def numeral_3_eq_3 split: if_splits)

section \<open>The chain of polls of a bridged payment\<close>

lemma log_routing_app [simp]:
  "seq (gets (\<lambda>s. fresh (length (activity s)))) (\<lambda>aid. record_activity aid now mid Cap_Routing act result None meta) s =
     (Inr (), s\<lparr>activity := activity s @ [\<lparr>at_id = fresh (length (activity s)), at_merchant_id = mid, at_capability = Cap_Routing,
       at_action_type = act, at_outcome = result, at_subscription_id = None, at_transaction_id = None, at_job_id = None,
       at_metadata = meta, at_created_at = now\<rparr>]\<rparr>)"
  by (simp add: record_activity_def)

lemma process_bridge_cases:
  assumes "process_bridge fresh response now j s = (r, s')"
  shows "(\<forall>j' d. r = Inr (Bridge_Pending (Some (j', d))) \<longrightarrow>
      bj_poll_count j < MAX_POLLS \<and> j' = j\<lparr>bj_poll_count := bj_poll_count j + 1\<rparr> \<and> agent_queue s' = agent_queue s) \<and>
    (r = Inr Bridge_Queued \<longrightarrow> (\<exists>msg att. fetch_attestation response = Inr (Complete msg att) \<and>
      agent_queue s' = agent_queue s @ [Cctp_Settle (bj_merchant_id j) (bj_source_domain j) (bj_source_tx j) msg att (bj_ref j)])) \<and>
    (r \<noteq> Inr Bridge_Queued \<longrightarrow> agent_queue s' = agent_queue s)"
  using assms unfolding process_bridge_def Let_def
  by (cases "bj_poll_count j = 0"; cases "fetch_attestation response"; simp add: seq_def record_activity_def split: if_splits attestation.splits)
    auto

text \<open>The runs of one bridged payment, job after job, as the queue delivers them. \<open>resp\<close>: what the API answers to each poll.\<close>

function bridge_chain ::
  "(nat \<Rightarrow> string) \<Rightarrow> (nat \<Rightarrow> (nat \<times> circle_message list option) option) \<Rightarrow> int \<Rightarrow> bridge_job \<Rightarrow> store \<Rightarrow> bool \<times> nat \<times> store" where
  "bridge_chain fresh resp now j s =
     (case process_bridge fresh (resp (bj_poll_count j)) now j s of
        (Inr (Bridge_Pending (Some (j', delay))), s') \<Rightarrow>
          (case bridge_chain fresh resp (now + delay) j' s' of (settled, n, t) \<Rightarrow> (settled, n + 1, t))
      | (r, s') \<Rightarrow> (r = Inr Bridge_Queued, 1, s'))"
  by pat_completeness auto

termination
  by (relation "measure (\<lambda>(_, _, _, j, _). MAX_POLLS - bj_poll_count j)")
    (auto dest!: process_bridge_cases [OF sym] process_bridge_cases)

declare bridge_chain.simps [simp del]

lemma bridge_run:
  assumes "bridge_job_ok j"
  shows "fetch_attestation response = Inr (Complete msg att) \<Longrightarrow> nonempty_hex_ok msg \<Longrightarrow> nonempty_hex_ok att \<Longrightarrow>
      fst (process_bridge fresh response now j s) = Inr Bridge_Queued"
    and "fetch_attestation response \<in> {Inr Pending_Confirmations, Inr Unknown_Status} \<Longrightarrow>
      fst (process_bridge fresh response now j s) = Inr (Bridge_Pending (if MAX_POLLS \<le> bj_poll_count j then None
        else Some (j\<lparr>bj_poll_count := bj_poll_count j + 1\<rparr>, POLL_DELAY_MS)))"
  using assms by (auto simp: process_bridge_def Let_def seq_def record_activity_def bridge_job_ok_def)

lemma bridge_chain_Pending:
  assumes "process_bridge fresh (resp (bj_poll_count j)) now j s = (Inr (Bridge_Pending (Some (j', d))), s')"
  shows "bridge_chain fresh resp now j s = (case bridge_chain fresh resp (now + d) j' s' of (settled, n, t) \<Rightarrow> (settled, n + 1, t))"
  using assms by (simp add: bridge_chain.simps [of fresh resp now j s])

lemma bridge_chain_last:
  assumes "process_bridge fresh (resp (bj_poll_count j)) now j s = (r, s')" "\<And>j' d. r \<noteq> Inr (Bridge_Pending (Some (j', d)))"
  shows "bridge_chain fresh resp now j s = (r = Inr Bridge_Queued, 1, s')"
  using assms by (auto simp: bridge_chain.simps [of fresh resp now j s] split: sum.splits bridge_status.splits option.splits)

definition settle_of :: "bridge_job \<Rightarrow> string \<Rightarrow> string \<Rightarrow> agent_action_job" where
  "settle_of j msg att = Cctp_Settle (bj_merchant_id j) (bj_source_domain j) (bj_source_tx j) msg att (bj_ref j)"

lemma settle_of_poll [simp]: "settle_of (j\<lparr>bj_poll_count := n\<rparr>) = settle_of j"
  by (simp add: settle_of_def fun_eq_iff)

lemma bridge_chain_facts:
  "bj_poll_count j \<le> MAX_POLLS \<Longrightarrow> (case bridge_chain fresh resp now j s of (settled, n, t) \<Rightarrow>
     n + bj_poll_count j \<le> MAX_POLLS + 1 \<and>
     (settled \<longrightarrow> (\<exists>k msg att. bj_poll_count j \<le> k \<and> k \<le> MAX_POLLS \<and> fetch_attestation (resp k) = Inr (Complete msg att) \<and>
        agent_queue t = agent_queue s @ [settle_of j msg att])) \<and>
     (\<not> settled \<longrightarrow> agent_queue t = agent_queue s))"
proof (induction fresh resp now j s rule: bridge_chain.induct)
  case (1 fresh resp now j s)
  obtain r s' where run: "process_bridge fresh (resp (bj_poll_count j)) now j s = (r, s')" by fastforce
  note facts = process_bridge_cases [OF run, folded settle_of_def]
  show ?case
  proof (cases "\<exists>j' d. r = Inr (Bridge_Pending (Some (j', d)))")
    case True
    then obtain j' d where r: "r = Inr (Bridge_Pending (Some (j', d)))" by blast
    with facts have j': "j' = j\<lparr>bj_poll_count := bj_poll_count j + 1\<rparr>" "bj_poll_count j < MAX_POLLS" "agent_queue s' = agent_queue s" by auto
    obtain settled n t where rec: "bridge_chain fresh resp (now + d) j' s' = (settled, n, t)" by (cases "bridge_chain fresh resp (now + d) j' s'")
    have IH: "n + bj_poll_count j' \<le> MAX_POLLS + 1 \<and>
       (settled \<longrightarrow> (\<exists>k msg att. bj_poll_count j' \<le> k \<and> k \<le> MAX_POLLS \<and> fetch_attestation (resp k) = Inr (Complete msg att) \<and>
          agent_queue t = agent_queue s' @ [settle_of j' msg att])) \<and> (\<not> settled \<longrightarrow> agent_queue t = agent_queue s')"
      using "1.IH" [OF run [symmetric, unfolded r] refl refl refl refl] j' rec by simp
    have "bridge_chain fresh resp now j s = (settled, n + 1, t)" using bridge_chain_Pending [where resp = resp, OF run [unfolded r]] rec by simp
    with IH j' show ?thesis by (auto intro: Suc_leD)
  next
    case False
    then have "bridge_chain fresh resp now j s = (r = Inr Bridge_Queued, 1, s')" using bridge_chain_last [where resp = resp, OF run] by blast
    with facts "1.prems" show ?thesis by auto
  qed
qed

lemma bridge_chain_settles:
  assumes "fetch_attestation (resp k) = Inr (Complete msg att)" "nonempty_hex_ok msg" "nonempty_hex_ok att" "k \<le> MAX_POLLS"
  shows "bridge_job_ok j \<Longrightarrow> bj_poll_count j \<le> k \<Longrightarrow>
    (\<And>i. bj_poll_count j \<le> i \<Longrightarrow> i < k \<Longrightarrow> fetch_attestation (resp i) \<in> {Inr Pending_Confirmations, Inr Unknown_Status}) \<Longrightarrow>
    fst (bridge_chain fresh resp now j s)"
proof (induction "k - bj_poll_count j" arbitrary: j now s)
  case 0
  then have "bj_poll_count j = k" by simp
  with bridge_run(1) [OF 0(2) assms(1-3), of fresh now s] show ?case
    by (cases "process_bridge fresh (resp (bj_poll_count j)) now j s") (simp add: bridge_chain_last)
next
  case (Suc x)
  let ?j = "j\<lparr>bj_poll_count := bj_poll_count j + 1\<rparr>"
  have lt: "bj_poll_count j < k" using Suc(2) by simp
  obtain s' where run: "process_bridge fresh (resp (bj_poll_count j)) now j s = (Inr (Bridge_Pending (Some (?j, POLL_DELAY_MS))), s')"
    using bridge_run(2) [OF Suc(3) Suc(5) [OF order_refl lt], of fresh now s] lt assms(4)
    by (cases "process_bridge fresh (resp (bj_poll_count j)) now j s") auto
  have "fst (bridge_chain fresh resp (now + POLL_DELAY_MS) ?j s')"
    by (rule Suc(1)) (use Suc lt in \<open>auto simp: bridge_job_ok_def\<close>)
  then show ?case
    by (cases "bridge_chain fresh resp (now + POLL_DELAY_MS) ?j s'") (simp add: bridge_chain_Pending [where resp = resp, OF run])
qed

section \<open>Properties\<close>


text \<open>
  C25. The poll of a bridged payment ends and settles it at most once. From a job with a poll count of at most 120, the
  chain of re-queued jobs stops after at most 121 polls; it queues no settlement, or exactly the one with the message
  and attestation that a poll brought; and it does queue it when the attestation arrives by the last poll, all polls
  before finding the payment in flight.
\<close>

theorem bridge_settles_once:
  assumes "bj_poll_count j \<le> MAX_POLLS"
  shows "case bridge_chain fresh resp now j s of (settled, n, t) \<Rightarrow>
     n + bj_poll_count j \<le> 121 \<and>
     (if settled then \<exists>k msg att. bj_poll_count j \<le> k \<and> k \<le> MAX_POLLS \<and> fetch_attestation (resp k) = Inr (Complete msg att) \<and>
        agent_queue t = agent_queue s @ [settle_of j msg att]
      else agent_queue t = agent_queue s) \<and>
     ((\<exists>k msg att. bridge_job_ok j \<and> bj_poll_count j \<le> k \<and> k \<le> MAX_POLLS \<and> fetch_attestation (resp k) = Inr (Complete msg att) \<and>
        nonempty_hex_ok msg \<and> nonempty_hex_ok att \<and>
        (\<forall>i\<in>{bj_poll_count j..<k}. fetch_attestation (resp i) \<in> {Inr Pending_Confirmations, Inr Unknown_Status})) \<longrightarrow> settled)"
proof -
  obtain settled n t where run: "bridge_chain fresh resp now j s = (settled, n, t)" by (cases "bridge_chain fresh resp now j s")
  have win: "settled" if "bridge_job_ok j" "bj_poll_count j \<le> k" "k \<le> MAX_POLLS" "fetch_attestation (resp k) = Inr (Complete msg att)"
    "nonempty_hex_ok msg" "nonempty_hex_ok att"
    "\<forall>i\<in>{bj_poll_count j..<k}. fetch_attestation (resp i) \<in> {Inr Pending_Confirmations, Inr Unknown_Status}" for k msg att
    using bridge_chain_settles [where resp = resp and fresh = fresh and now = now and s = s, OF that(4-6,3,1,2)] that(7) run by auto
  then have "(\<exists>k msg att. bridge_job_ok j \<and> bj_poll_count j \<le> k \<and> k \<le> MAX_POLLS \<and> fetch_attestation (resp k) = Inr (Complete msg att) \<and>
      nonempty_hex_ok msg \<and> nonempty_hex_ok att \<and>
      (\<forall>i\<in>{bj_poll_count j..<k}. fetch_attestation (resp i) \<in> {Inr Pending_Confirmations, Inr Unknown_Status})) \<longrightarrow> settled" by blast
  moreover have "n + bj_poll_count j \<le> 121 \<and> (if settled then
      \<exists>k msg att. bj_poll_count j \<le> k \<and> k \<le> MAX_POLLS \<and> fetch_attestation (resp k) = Inr (Complete msg att) \<and>
        agent_queue t = agent_queue s @ [settle_of j msg att] else agent_queue t = agent_queue s)"
    using bridge_chain_facts [where fresh = fresh and resp = resp and now = now and s = s, OF assms] run by (auto simp: MAX_POLLS_def)
  ultimately show ?thesis unfolding run prod.case by blast
qed

section \<open>Samples\<close>

definition sample_at_risk :: sub_row where
  "sample_at_risk = \<lparr>su_id = ''su1'', su_onchain_subscription_id = Some 4, su_enrolment_tx_hash = None, su_merchant_id = ''m1'',
     su_customer_id = ''cu1'', su_plan_id = ''pl1'', su_status = At_Risk, su_payer_address = other_address, su_currency = USDC,
     su_amount = ''5000000'', su_interval = Monthly, su_interval_count = 1, su_trial_ends_at = None,
     su_current_period_start_at = 0, su_current_period_end_at = 1000, su_next_charge_at = None, su_grace_period_hours = 48,
     su_charge_lock = False, su_charge_lock_acquired_at = None, su_next_retry_at = None, su_cancelled_at = None,
     su_cancellation_reason = None, su_mode = Test, su_metadata = [], su_created_at = 0, su_updated_at = 0\<rparr>"

definition sample_agent_world :: agent_world where
  "sample_agent_world = \<lparr>aw_mail = working_mail, aw_log = (\<lambda>_ _ _. True), aw_commit = (\<lambda>_. True), aw_fresh = show_nat\<rparr>"

text \<open>A world in which no notice can be committed.\<close>

definition lossy_agent_world :: agent_world where
  "lossy_agent_world = sample_agent_world\<lparr>aw_commit := (\<lambda>_. False)\<rparr>"

definition at_risk_store :: store where
  "at_risk_store = receipt_store\<lparr>subs := [sample_at_risk],
     agent_configs := [\<lparr>ac_merchant_id = ''m1'', ac_enabled_capabilities = [Cap_Recovery], ac_grace_period_hours = 48,
       ac_strategy = ''twice'', ac_notification_template = None, ac_digest_enabled = False, ac_anomaly_sensitivity = ''medium'',
       ac_auto_convert_to_yield = False, ac_minimum_reserve_cents = 100000, ac_approval_above_cents = 100000,
       ac_approved_vendors = [], ac_monthly_cap_cents = None\<rparr>]\<rparr>"



lemmas recovery_evals = recovery_tick_def at_risk_store_def sample_defs configured_def merchant_of_def has_capability_def at_risk_of_def
  sample_at_risk_def recover_sub_def STRATEGY_SCHEDULE_def DEFAULT_SCHEDULE_def HOURS_def hasSuccessfulRecoveryAttempt_def
  customer_email_def truthy_def sample_agent_world_def email_send_def recovery_mail_def put_event_def seq_def catch_def in_tx_def Let_def

text \<open>A mail whose notice could not be committed goes out again at the next tick.\<close>

lemma recovery_mail_repeats_when_commit_fails:
  "map em_to (emails (snd (recovery_tick sample_agent_world 7000 (snd (recovery_tick lossy_agent_world 2000 at_risk_store))))) =
     [''payer@test'', ''payer@test'']"
  by (simp add: recovery_evals lossy_agent_world_def recovery_attempt_def)

text \<open>A notice goes out at the first of these ticks.\<close>

lemma at_risk_notified:
  "map em_to (emails (snd (recovery_tick sample_agent_world 2000 at_risk_store))) = [''payer@test'']"
  by (simp add: recovery_evals)

definition sample_bridge :: bridge_job where
  "sample_bridge = \<lparr>bj_merchant_id = ''m1'', bj_source_domain = 0, bj_source_tx = sample_hash, bj_ref = None, bj_poll_count = 0\<rparr>"

text \<open>In flight at the first poll, attested at the second.\<close>

definition sample_circle :: "nat \<Rightarrow> (nat \<times> circle_message list option) option" where
  "sample_circle k = (if k = 0 then Some (404, None) else Some (200, Some [(Some ''0xab'', Some ''cd'', Some ''complete'')]))"

theorem bridge_settles_once_witness:
  "case bridge_chain show_nat sample_circle 0 sample_bridge sample_store of (settled, n, t) \<Rightarrow>
     n \<le> 121 \<and> settled \<and> (\<exists>k msg att. k \<le> MAX_POLLS \<and> fetch_attestation (sample_circle k) = Inr (Complete msg att) \<and>
       agent_queue t = agent_queue sample_store @ [settle_of sample_bridge msg att])"
proof -
  have le: "bj_poll_count sample_bridge \<le> MAX_POLLS" by (simp add: sample_bridge_def)
  have "bridge_job_ok sample_bridge" by (simp add: bridge_job_ok_def sample_bridge_def sample_defs) code_simp
  moreover have "fetch_attestation (sample_circle 1) = Inr (Complete ''0xab'' ''0xcd'')"
    "fetch_attestation (sample_circle 0) = Inr Pending_Confirmations"
    by code_simp+
  moreover have "nonempty_hex_ok ''0xab''" "nonempty_hex_ok ''0xcd''" by code_simp+
  ultimately have "\<exists>k msg att. bridge_job_ok sample_bridge \<and> bj_poll_count sample_bridge \<le> k \<and> k \<le> MAX_POLLS \<and>
      fetch_attestation (sample_circle k) = Inr (Complete msg att) \<and> nonempty_hex_ok msg \<and> nonempty_hex_ok att \<and>
      (\<forall>i\<in>{bj_poll_count sample_bridge..<k}. fetch_attestation (sample_circle i) \<in> {Inr Pending_Confirmations, Inr Unknown_Status})"
    by (intro exI [of _ 1] exI [of _ "''0xab''"] exI [of _ "''0xcd''"]) (auto simp: sample_bridge_def MAX_POLLS_def)
  with bridge_settles_once [where fresh = show_nat and resp = sample_circle and now = 0 and s = sample_store, OF le] show ?thesis
    by (cases "bridge_chain show_nat sample_circle 0 sample_bridge sample_store") (auto, blast)
qed

end
