(* ===== verification/Tray.thy ===== *)
theory Tray
  imports Notices
begin

text \<open>
  The merchant's notification tray (\<open>apps/api/src/modules/notifications\<close>), which is computed from four tables on each
  request, and the contact form (\<open>apps/api/src/modules/contact\<close>).
\<close>

section \<open>Plain text of an announcement\<close>

text \<open>
  The regular expressions of \<open>stripHtml\<close> as matchers: how many characters they take at the start of a string, if
  they match there. \<open>gsub\<close> is \<open>String.prototype.replace\<close> with the \<open>g\<close> flag.
\<close>

type_synonym matcher = "string \<Rightarrow> nat option"

function gsub :: "matcher \<Rightarrow> string \<Rightarrow> string \<Rightarrow> string" where
  "gsub m rep [] = []"
| "gsub m rep (c # cs) = (case m (c # cs) of
     None \<Rightarrow> c # gsub m rep cs
   | Some n \<Rightarrow> rep @ gsub m rep (drop (n - 1) cs))"
  by pat_completeness auto
termination by (relation "measure (\<lambda>(_, _, s). length s)") auto

definition lit :: "string \<Rightarrow> matcher" where
  "lit p s = (if starts_with s p then Some (length p) else None)"

definition spaces :: "string \<Rightarrow> nat" where
  "spaces s = length (takeWhile is_space s)"

text \<open>\<open><\s*br\s*\/?\s*>\<close>, without regard to case.\<close>

definition br_tag :: matcher where
  "br_tag s = (if \<not> starts_with s ''<'' then None else
     let a = 1 + spaces (drop 1 s) in
     if to_lower (take 2 (drop a s)) \<noteq> ''br'' then None else
     let b = a + 2 + spaces (drop (a + 2) s);
         c = (if starts_with (drop b s) ''/'' then b + 1 else b);
         d = c + spaces (drop c s) in
     if starts_with (drop d s) ''>'' then Some (d + 1) else None)"

text \<open>\<open><\/(?:p|div|li|h[1-6])>\<close>, without regard to case.\<close>

definition block_end :: matcher where
  "block_end s = Option.bind
     (find (\<lambda>t. to_lower (take (length t + 3) s) = ''</'' @ t @ ''>'')
        [''p'', ''div'', ''li'', ''h1'', ''h2'', ''h3'', ''h4'', ''h5'', ''h6''])
     (\<lambda>t. Some (length t + 3))"

text \<open>\<open><[^>]+>\<close>.\<close>

definition any_tag :: matcher where
  "any_tag s = (let n = length (takeWhile (\<lambda>c. c \<noteq> CHR ''>'') (drop 1 s)) in
     if starts_with s ''<'' \<and> 0 < n \<and> starts_with (drop (1 + n) s) ''>'' then Some (n + 2) else None)"

definition space_run :: matcher where
  "space_run s = (if spaces s = 0 then None else Some (spaces s))"

definition stripHtml :: "string \<Rightarrow> string" where
  "stripHtml html = js_trim (fold (\<lambda>(m, rep). gsub m rep)
     [(br_tag, '' ''), (block_end, '' ''), (any_tag, []), (lit ''&nbsp;'', '' ''), (lit ''&amp;'', ''&''), (lit ''&lt;'', ''<''),
      (lit ''&gt;'', ''>''), (lit ''&quot;'', [CHR 0x22]), (lit ''&#39;'', [CHR 0x27]), (space_run, '' '')] html)"

section \<open>The tray\<close>

definition BROADCAST_SNIPPET_MAX :: nat where "BROADCAST_SNIPPET_MAX = 140"
definition DEFAULT_LIMIT :: int where "DEFAULT_LIMIT = 20"
definition PER_SOURCE_LIMIT :: nat where "PER_SOURCE_LIMIT = 30"

datatype notification_kind = Payment_Received | Subscription_Started | Refund_Processed | Admin_Broadcast

record notification_view =
  nv_id :: string
  nv_kind :: notification_kind
  nv_title :: string
  nv_detail :: string
  nv_href :: string
  nv_created_at :: int
  nv_read :: bool
  nv_source_id :: string

record notification_list =
  nl_data :: "notification_view list"
  nl_unread :: nat
  nl_last_read :: "int option"

text \<open>Two decimals of six, cut off; an amount \<open>BigInt\<close> refuses is shown as it is (amount columns hold digits).\<close>

definition formatUnit :: "string \<Rightarrow> string" where
  "formatUnit base = (if list_all is_digit base then
     show_nat (big_nat base div 1000000) @ ''.'' @ pad2 (int (big_nat base mod 1000000 div 10000)) else base)"

definition shortenAddress :: "string \<Rightarrow> string" where
  "shortenAddress a = (if length a \<le> 12 then a else take 6 a @ ''...'' @ drop (length a - 4) a)"

definition dash_note :: "string option \<Rightarrow> string" where
  "dash_note t = (if truthy t then '' - '' @ the t else [])"

definition trim_end :: "string \<Rightarrow> string" where
  "trim_end s = rev (dropWhile is_space (rev s))"

definition snippet :: "string \<Rightarrow> string" where
  "snippet html = (let plain = stripHtml html in
     if BROADCAST_SNIPPET_MAX < length plain then trim_end (take BROADCAST_SNIPPET_MAX plain) @ ''...'' else plain)"

definition is_read :: "int option \<Rightarrow> int \<Rightarrow> bool" where
  "is_read lastRead t = (case lastRead of None \<Rightarrow> False | Some r \<Rightarrow> t \<le> r)"

definition payment_item :: "int option \<Rightarrow> session_row \<Rightarrow> notification_view" where
  "payment_item lastRead r = \<lparr>nv_id = ''payment:'' @ ps_id r, nv_kind = Payment_Received, nv_title = ''Payment received'',
     nv_detail = formatUnit (ps_amount r) @ '' '' @ currency_name (ps_currency r) @ dash_note (ps_description r),
     nv_href = ''/app/payment-sessions?highlight='' @ ps_id r, nv_created_at = ps_created_at r,
     nv_read = is_read lastRead (ps_created_at r), nv_source_id = ps_id r\<rparr>"

definition subscription_item :: "int option \<Rightarrow> sub_row \<Rightarrow> notification_view" where
  "subscription_item lastRead r = \<lparr>nv_id = ''subscription:'' @ su_id r, nv_kind = Subscription_Started, nv_title = ''New subscriber'',
     nv_detail = formatUnit (su_amount r) @ '' '' @ currency_name (su_currency r) @ ''/'' @ interval_name (su_interval r) @ '' - '' @
       shortenAddress (su_payer_address r),
     nv_href = ''/app/subscriptions?highlight='' @ su_id r, nv_created_at = su_created_at r,
     nv_read = is_read lastRead (su_created_at r), nv_source_id = su_id r\<rparr>"

definition refund_item :: "int option \<Rightarrow> refund_row \<Rightarrow> notification_view" where
  "refund_item lastRead r = \<lparr>nv_id = ''refund:'' @ rf_id r, nv_kind = Refund_Processed, nv_title = ''Refund processed'',
     nv_detail = formatUnit (rf_amount r) @ '' '' @ currency_name (rf_currency r) @ dash_note (Some (rf_reason r)),
     nv_href = ''/app/refunds?highlight='' @ rf_id r, nv_created_at = rf_created_at r,
     nv_read = is_read lastRead (rf_created_at r), nv_source_id = rf_id r\<rparr>"

definition broadcast_item :: "int option \<Rightarrow> broadcast_row \<Rightarrow> notification_view" where
  "broadcast_item lastRead b = \<lparr>nv_id = ''broadcast:'' @ bc_id b, nv_kind = Admin_Broadcast, nv_title = bc_title b,
     nv_detail = snippet (bc_body b), nv_href = ''/app/notifications/'' @ bc_id b, nv_created_at = bc_created_at b,
     nv_read = is_read lastRead (bc_created_at b), nv_source_id = bc_id b\<rparr>"

definition newest :: "('r \<Rightarrow> int) \<Rightarrow> 'r list \<Rightarrow> 'r list" where
  "newest f rows = take PER_SOURCE_LIMIT (newest_first f rows)"

definition tray_items :: "string \<Rightarrow> int option \<Rightarrow> store \<Rightarrow> notification_view list" where
  "tray_items mid lastRead s =
     map (payment_item lastRead) (newest ps_created_at (filter (\<lambda>r. ps_merchant_id r = mid \<and> ps_status r = Confirmed) (sessions s))) @
     map (subscription_item lastRead) (newest su_created_at (filter (\<lambda>r. su_merchant_id r = mid \<and> su_status r = Sub_Active) (subs s))) @
     map (refund_item lastRead) (newest rf_created_at (filter (\<lambda>r. rf_merchant_id r = mid) (refunds s))) @
     map (broadcast_item lastRead) (newest bc_created_at (filter (\<lambda>b. bc_to_all b \<or> bc_merchant_id b = Some mid) (broadcasts s)))"

text \<open>\<open>slice(0, n)\<close>: a negative bound counts from the end.\<close>

definition slice_to :: "int \<Rightarrow> 'a list \<Rightarrow> 'a list" where
  "slice_to n xs = (if 0 \<le> n then take (nat n) xs else take (length xs - nat (- n)) xs)"

definition list_notifications :: "string \<Rightarrow> int \<Rightarrow> (store, api_exn, notification_list) proc" where
  "list_notifications mid limit =
     seq (gets (\<lambda>s. merchant_of s mid)) (\<lambda>m.
     case m of
       None \<Rightarrow> raise (Http 404 ''not_found'' No_Details)
     | Some r \<Rightarrow> let lastRead = m_notifications_last_read_at r in
         seq (gets (\<lambda>s. newest_first nv_created_at (tray_items mid lastRead s))) (\<lambda>items.
         ret \<lparr>nl_data = slice_to (if limit = 0 then DEFAULT_LIMIT else limit) items,
              nl_unread = length (filter (\<lambda>n. \<not> nv_read n) items), nl_last_read = lastRead\<rparr>))"

definition markAllRead :: "int \<Rightarrow> string \<Rightarrow> (store, api_exn, int) proc" where
  "markAllRead now mid =
     seq (gets (\<lambda>s. merchant_of s mid)) (\<lambda>m.
     if m = None then raise p2025
     else seq (modify (\<lambda>s. s\<lparr>merchants := update_where (\<lambda>r. m_id r = mid) (\<lambda>r. r\<lparr>m_notifications_last_read_at := Some now\<rparr>) (merchants s)\<rparr>)) (\<lambda>_.
          ret now))"

section \<open>Contact form\<close>

datatype contact_topic = Sales | Support | Partnership | Security | Other_Topic

fun TOPIC_LABEL :: "contact_topic \<Rightarrow> string" where
  "TOPIC_LABEL Sales = ''Sales''"
| "TOPIC_LABEL Support = ''Support''"
| "TOPIC_LABEL Partnership = ''Partnership''"
| "TOPIC_LABEL Security = ''Security''"
| "TOPIC_LABEL Other_Topic = ''Other''"

record contact_submission =
  cr_name :: string
  cr_email :: string
  cr_company :: "string option"
  cr_topic :: contact_topic
  cr_message :: string

definition renderContactText :: "contact_submission \<Rightarrow> string list" where
  "renderContactText i = [''Topic: '' @ TOPIC_LABEL (cr_topic i), ''Name:  '' @ cr_name i, ''Email: '' @ cr_email i] @
     (if truthy (cr_company i) then [''Company: '' @ the (cr_company i)] else []) @ [[], cr_message i]"

definition submit_contact :: "string \<Rightarrow> mail_world \<Rightarrow> contact_submission \<Rightarrow> (store, api_exn, unit) proc" where
  "submit_contact inbox w i =
     catch (email_send w \<lparr>em_to = inbox,
         em_subject = ''['' @ TOPIC_LABEL (cr_topic i) @ ''] '' @ cr_name i @ '' - Strimz contact form'',
         em_about = cr_email i # renderContactText i\<rparr>)
       (\<lambda>_. raise (Http 502 ''email_unavailable'' No_Details))"

section \<open>Facts\<close>

lemma newest_in [dest!]: "r \<in> set (newest f rows) \<Longrightarrow> r \<in> set rows"
  by (auto simp: newest_def dest: in_set_takeD)

lemma length_newest: "length (newest f rows) \<le> 30"
  by (simp add: newest_def PER_SOURCE_LIMIT_def)

definition tray_instants :: "string \<Rightarrow> store \<Rightarrow> int set" where
  "tray_instants mid s = ps_created_at ` {r \<in> set (sessions s). ps_merchant_id r = mid} \<union> su_created_at ` {r \<in> set (subs s). su_merchant_id r = mid} \<union>
     rf_created_at ` {r \<in> set (refunds s). rf_merchant_id r = mid} \<union> bc_created_at ` set (broadcasts s)"

lemma tray_item_read:
  assumes "n \<in> set (tray_items mid lastRead s)"
  shows "nv_created_at n \<in> tray_instants mid s \<and> nv_read n = is_read lastRead (nv_created_at n)"
  using assms
  by (auto simp: tray_items_def tray_instants_def payment_item_def subscription_item_def refund_item_def broadcast_item_def)

lemma length_tray: "length (tray_items mid lastRead s) \<le> 120"
  using length_newest [of ps_created_at "filter (\<lambda>r. ps_merchant_id r = mid \<and> ps_status r = Confirmed) (sessions s)"]
    length_newest [of su_created_at "filter (\<lambda>r. su_merchant_id r = mid \<and> su_status r = Sub_Active) (subs s)"]
    length_newest [of rf_created_at "filter (\<lambda>r. rf_merchant_id r = mid) (refunds s)"]
    length_newest [of bc_created_at "filter (\<lambda>b. bc_to_all b \<or> bc_merchant_id b = Some mid) (broadcasts s)"]
  by (simp add: tray_items_def)

interpretation read_mark: row_update m_id "\<lambda>t r. r\<lparr>m_notifications_last_read_at := Some t\<rparr>" by unfold_locales simp

lemma markAllRead_run:
  assumes "merchant_of s mid = Some m"
  shows "markAllRead now mid s = (Inr now, s\<lparr>merchants := update_where (\<lambda>r. m_id r = mid) (\<lambda>r. r\<lparr>m_notifications_last_read_at := Some now\<rparr>) (merchants s)\<rparr>)"
    and "merchant_of (snd (markAllRead now mid s)) mid = Some (m\<lparr>m_notifications_last_read_at := Some now\<rparr>)"
  using assms by (auto simp: markAllRead_def merchant_of_def read_mark.find_row_update dest: find_row_Some)

text \<open>
  A payment is dated by the creation of its session: one made before the merchant read the tray and confirmed after
  it appears as read at once.
\<close>

lemma late_payment_appears_read:
  assumes "ps_created_at r \<le> t"
  shows "nv_read (payment_item (Some t) (r\<lparr>ps_status := Confirmed, ps_updated_at := later\<rparr>))"
  using assms by (simp add: payment_item_def is_read_def)

text \<open>A refund appears as processed whatever its status is.\<close>

lemma failed_refund_shown_processed: "nv_title (refund_item t (r\<lparr>rf_status := Rf_Failed\<rparr>)) = ''Refund processed''"
  by (simp add: refund_item_def)

lemma tray_listed:
  assumes "merchant_of s mid = Some m"
  shows "\<exists>items. list_notifications mid limit s = (Inr \<lparr>
        nl_data = slice_to (if limit = 0 then 20 else limit) items,
        nl_unread = length (filter (\<lambda>n. \<not> is_read (m_notifications_last_read_at m) (nv_created_at n)) items),
        nl_last_read = m_notifications_last_read_at m\<rparr>, s) \<and>
      sorted_wrt (\<lambda>a b. nv_created_at b \<le> nv_created_at a) items \<and> length items \<le> 120"
proof -
  let ?items = "newest_first nv_created_at (tray_items mid (m_notifications_last_read_at m) s)"
  have "sorted_wrt (\<lambda>a b. nv_created_at b \<le> nv_created_at a) ?items"
    using sorted_sort_key [of "\<lambda>n. - nv_created_at n" "tray_items mid (m_notifications_last_read_at m) s"]
    by (simp add: newest_first_def sorted_map)
  moreover have "filter (\<lambda>n. \<not> nv_read n) ?items = filter (\<lambda>n. \<not> is_read (m_notifications_last_read_at m) (nv_created_at n)) ?items"
    by (rule filter_cong) (use tray_item_read in \<open>auto simp: newest_first_def\<close>)
  moreover have "length ?items \<le> 120" using length_tray by (simp add: newest_first_def)
  ultimately show ?thesis
    using assms by (intro exI [of _ ?items]) (simp add: list_notifications_def Let_def DEFAULT_LIMIT_def)
qed

lemma tray_marked:
  assumes "merchant_of s mid = Some m" "\<forall>t\<in>tray_instants mid s. t \<le> now"
  shows "case fst (list_notifications mid limit (snd (markAllRead now mid s))) of
      Inl _ \<Rightarrow> False | Inr l \<Rightarrow> nl_unread l = 0 \<and> (\<forall>n\<in>set (nl_data l). nv_read n)"
proof -
  let ?s = "snd (markAllRead now mid s)"
  let ?items = "newest_first nv_created_at (tray_items mid (Some now) ?s)"
  have "tray_instants mid ?s = tray_instants mid s" using markAllRead_run(1) [OF assms(1)] by (simp add: tray_instants_def)
  then have read: "nv_read n" if "n \<in> set ?items" for n
    using tray_item_read [of n mid "Some now" ?s] that assms(2) by (auto simp: newest_first_def is_read_def)
  have "filter (\<lambda>n. \<not> nv_read n) ?items = []" using read by (simp add: filter_empty_conv)
  moreover have "n \<in> set ?items" if "n \<in> set (slice_to k ?items)" for n k
    using that by (auto simp: slice_to_def dest: in_set_takeD split: if_splits)
  ultimately show ?thesis
    using read markAllRead_run(2) [OF assms(1), of now] by (simp add: list_notifications_def Let_def)
qed

section \<open>Properties\<close>

text \<open>
  The tray is what it says. A known merchant gets the items newest first, as many as asked for (20 by default) of at
  most 120, and the unread count is the number of items newer than the last reading. After marking everything read at a
  time that no row is newer than, a request finds no unread item, and every item shown is read.
\<close>

theorem tray_consistent:
  assumes "merchant_of s mid = Some m" and "\<forall>t\<in>tray_instants mid s. t \<le> now"
  shows "(\<exists>items. list_notifications mid limit s = (Inr \<lparr>
        nl_data = slice_to (if limit = 0 then 20 else limit) items,
        nl_unread = length (filter (\<lambda>n. \<not> is_read (m_notifications_last_read_at m) (nv_created_at n)) items),
        nl_last_read = m_notifications_last_read_at m\<rparr>, s) \<and>
      sorted_wrt (\<lambda>a b. nv_created_at b \<le> nv_created_at a) items \<and> length items \<le> 120) \<and>
    (case fst (list_notifications mid limit (snd (markAllRead now mid s))) of
       Inl _ \<Rightarrow> False | Inr l \<Rightarrow> nl_unread l = 0 \<and> (\<forall>n\<in>set (nl_data l). nv_read n))"
  using tray_listed [OF assms(1)] tray_marked [OF assms(1)] assms(2) by blast

theorem tray_consistent_witness:
  "(\<exists>items. list_notifications ''m1'' 0 receipt_store = (Inr \<lparr>
        nl_data = slice_to 20 items, nl_unread = length (filter (\<lambda>n. \<not> is_read None (nv_created_at n)) items),
        nl_last_read = None\<rparr>, receipt_store) \<and>
      sorted_wrt (\<lambda>a b. nv_created_at b \<le> nv_created_at a) items \<and> length items \<le> 120) \<and>
    (case fst (list_notifications ''m1'' 0 (snd (markAllRead 9 ''m1'' receipt_store))) of
       Inl _ \<Rightarrow> False | Inr l \<Rightarrow> nl_unread l = 0 \<and> (\<forall>n\<in>set (nl_data l). nv_read n))"
proof -
  have m: "merchant_of receipt_store ''m1'' = Some sample_merchant" by (simp add: merchant_of_def sample_defs)
  have "\<forall>t\<in>tray_instants ''m1'' receipt_store. t \<le> 9" by (simp add: tray_instants_def sample_defs)
  from tray_consistent [OF m this, of 0] show ?thesis by (simp add: sample_merchant_def)
qed

end
