(* ===== verification/Checkout.thy ===== *)
theory Checkout
  imports Accounts Relay_Service
begin

text \<open>
  The public checkout (\<open>apps/api/src/modules/checkout\<close>): what the hosted pages \<open>/pay/:id\<close> and \<open>/sub/:id\<close> call
  without a login. A route composes the services of Sessions, Enrolment, Accounts and Relay_Service; the session or
  plan, not the caller, decides which merchant a payer or a submission belongs to. The bodies are the ones the
  validation pipe lets through.
\<close>

section \<open>Attaching a payer\<close>

record payer_identity =
  py_wallet_address :: string
  py_email :: string

text \<open>\<open>cid\<close> is the id a customer row gets if one is created.\<close>

definition attachToSession :: "config \<Rightarrow> string \<Rightarrow> int \<Rightarrow> string \<Rightarrow> payer_identity \<Rightarrow> (store, api_exn, string) proc" where
  "attachToSession cfg cid now sessionId payer =
     seq (retrieve_session_public cfg sessionId) (\<lambda>x.
     in_tx (seq (upsertFromCheckout cid now (sw_merchant_id x) (py_wallet_address payer) (py_email payer)) (\<lambda>customer.
            seq (bindCustomer now sessionId (cu_id customer)) (\<lambda>_.
            ret (cu_id customer)))))"

definition attachToPlan :: "config \<Rightarrow> string \<Rightarrow> int \<Rightarrow> string \<Rightarrow> payer_identity \<Rightarrow> (store, api_exn, string) proc" where
  "attachToPlan cfg cid now planId payer =
     seq (retrieve_plan_public cfg planId) (\<lambda>plan.
     seq (require (pl_status (pw_row plan) = Plan_Active) (conflict ''plan_not_active'')) (\<lambda>_.
     seq (upsertFromCheckout cid now (pl_merchant_id (pw_row plan)) (py_wallet_address payer) (py_email payer)) (\<lambda>customer.
     ret (cu_id customer))))"

section \<open>Routes\<close>

definition planSubscriptionStatus :: "config \<Rightarrow> string \<Rightarrow> string option \<Rightarrow> (store, api_exn, bool \<times> string option) proc" where
  "planSubscriptionStatus cfg planId payer =
     seq (retrieve_plan_public cfg planId) (\<lambda>_. gets (activeForPayer planId (set_or payer [])))"

definition relaySessionPayment ::
  "relay_world \<Rightarrow> config \<Rightarrow> int \<Rightarrow> string \<Rightarrow> pay_input \<Rightarrow> (store, api_exn, submission_view) proc" where
  "relaySessionPayment w cfg now sessionId body =
     seq (retrieve_session_public cfg sessionId) (\<lambda>x.
     submitPayWithAuthorization w cfg now (paymentRelayInput body (sw_merchant_id x) sessionId))"

definition relayPlanEnrolment ::
  "relay_world \<Rightarrow> config \<Rightarrow> int \<Rightarrow> string \<Rightarrow> enrol_input \<Rightarrow> (store, api_exn, submission_view) proc" where
  "relayPlanEnrolment w cfg now planId body =
     seq (retrieve_plan_public cfg planId) (\<lambda>plan.
     submitPermitAndCreateSubscription w cfg now (enrolmentRelayInput body (pl_merchant_id (pw_row plan)) planId))"

definition checkout_submission :: "string \<Rightarrow> string \<Rightarrow> string \<Rightarrow> (store, api_exn, submission_view) proc" where
  "checkout_submission key merchantInternalId checkoutId =
     seq (gets (getByIdempotencyKey key \<lparr>sc_merchant_internal_id = merchantInternalId, sc_session_id = Some checkoutId\<rparr>)) (\<lambda>found.
     or_raise (Http 404 ''submission_not_found'' No_Details) found)"

definition sessionSubmission :: "config \<Rightarrow> string \<Rightarrow> string \<Rightarrow> (store, api_exn, submission_view) proc" where
  "sessionSubmission cfg sessionId key =
     seq (retrieve_session_public cfg sessionId) (\<lambda>x. checkout_submission key (sw_merchant_id x) sessionId)"

definition planSubmission :: "config \<Rightarrow> string \<Rightarrow> string \<Rightarrow> (store, api_exn, submission_view) proc" where
  "planSubmission cfg planId key =
     seq (retrieve_plan_public cfg planId) (\<lambda>plan. checkout_submission key (pl_merchant_id (pw_row plan)) planId)"

datatype checkout_call =
    Get_Merchant string
  | Get_Session string
  | Get_Plan string
  | Get_Plan_Subscription string "string option"
  | Get_Plan_Terms string "string option"
  | Post_Session_Payer string payer_identity
  | Post_Plan_Payer string payer_identity
  | Post_Session_Relay string pay_input
  | Post_Plan_Relay string enrol_input
  | Get_Session_Submission string string
  | Get_Plan_Submission string string

datatype checkout_answer =
    Brand_Answer public_brand
  | Session_Answer session_wire
  | Plan_Answer plan_wire
  | Status_Answer "bool \<times> string option"
  | Terms_Answer enrolment_terms
  | Payer_Answer string
  | Relay_Answer submission_view

definition answer :: "('a \<Rightarrow> checkout_answer) \<Rightarrow> (store, api_exn, 'a) proc \<Rightarrow> (store, api_exn, checkout_answer) proc" where
  "answer f m = seq m (\<lambda>x. ret (f x))"

fun handle_checkout ::
  "relay_world \<Rightarrow> config \<Rightarrow> string \<Rightarrow> int \<Rightarrow> checkout_call \<Rightarrow> (store, api_exn, checkout_answer) proc" where
  "handle_checkout w cfg cid now (Get_Merchant i) = answer Brand_Answer (getPublicBrand i)"
| "handle_checkout w cfg cid now (Get_Session i) = answer Session_Answer (retrieve_session_public cfg i)"
| "handle_checkout w cfg cid now (Get_Plan i) = answer Plan_Answer (retrieve_plan_public cfg i)"
| "handle_checkout w cfg cid now (Get_Plan_Subscription i payer) = answer Status_Answer (planSubscriptionStatus cfg i payer)"
| "handle_checkout w cfg cid now (Get_Plan_Terms i payer) = answer Terms_Answer (quote i (set_or payer []) now)"
| "handle_checkout w cfg cid now (Post_Session_Payer i p) = answer Payer_Answer (attachToSession cfg cid now i p)"
| "handle_checkout w cfg cid now (Post_Plan_Payer i p) = answer Payer_Answer (attachToPlan cfg cid now i p)"
| "handle_checkout w cfg cid now (Post_Session_Relay i b) = answer Relay_Answer (relaySessionPayment w cfg now i b)"
| "handle_checkout w cfg cid now (Post_Plan_Relay i b) = answer Relay_Answer (relayPlanEnrolment w cfg now i b)"
| "handle_checkout w cfg cid now (Get_Session_Submission i key) = answer Relay_Answer (sessionSubmission cfg i key)"
| "handle_checkout w cfg cid now (Get_Plan_Submission i key) = answer Relay_Answer (planSubmission cfg i key)"

section \<open>Payers and their sessions\<close>

text \<open>
  The keys of the customer table, and the foreign key of a session: its customer exists and is one of the
  session's own merchant.
\<close>

definition payers_ok :: "store \<Rightarrow> bool" where
  "payers_ok s \<longleftrightarrow> session_keys_ok s \<and> distinct (map cu_id (customers s)) \<and>
     distinct (map (\<lambda>q. (cu_merchant_id q, cu_wallet_address q)) (customers s)) \<and>
     (\<forall>r\<in>set (sessions s). \<forall>c. ps_customer_id r = Some c \<longrightarrow>
        (\<exists>q\<in>set (customers s). cu_id q = c \<and> cu_merchant_id q = ps_merchant_id r))"

definition same_payer :: "customer_row \<Rightarrow> customer_row \<Rightarrow> bool" where
  "same_payer q q' \<longleftrightarrow> cu_id q' = cu_id q \<and> cu_merchant_id q' = cu_merchant_id q \<and> cu_wallet_address q' = cu_wallet_address q \<and>
     (cu_email q \<noteq> None \<longrightarrow> cu_email q' = cu_email q)"

definition customers_kept :: "customer_row list \<Rightarrow> customer_row list \<Rightarrow> bool" where
  "customers_kept t u \<longleftrightarrow> (\<forall>q\<in>set t. \<exists>q'\<in>set u. same_payer q q')"

definition same_session :: "session_row \<Rightarrow> session_row \<Rightarrow> bool" where
  "same_session x y \<longleftrightarrow> (ps_customer_id x \<noteq> None \<longrightarrow> ps_customer_id y = ps_customer_id x) \<and>
     y\<lparr>ps_customer_id := ps_customer_id x, ps_updated_at := ps_updated_at x\<rparr> = x"

definition payers_kept :: "store \<Rightarrow> store \<Rightarrow> bool" where
  "payers_kept s t \<longleftrightarrow> list_all2 same_session (sessions s) (sessions t) \<and> customers_kept (customers s) (customers t)"

definition checkout_step :: "string \<Rightarrow> store \<Rightarrow> store \<Rightarrow> bool" where
  "checkout_step cid s t \<longleftrightarrow> payers_ok t \<and> payers_kept s t \<and> cu_id ` set (customers t) \<subseteq> insert cid (cu_id ` set (customers s))"

lemma same_payer_refl [simp]: "same_payer q q"
  by (simp add: same_payer_def)

lemma same_payer_trans: "same_payer a b \<Longrightarrow> same_payer b c \<Longrightarrow> same_payer a c"
  by (auto simp: same_payer_def)

lemma same_session_refl [simp]: "same_session x x"
  by (simp add: same_session_def)

lemma same_session_trans: "same_session x y \<Longrightarrow> same_session y z \<Longrightarrow> same_session x z"
  by (cases x; cases y; cases z) (auto simp: same_session_def)

lemma customers_kept_subset: "set t \<subseteq> set u \<Longrightarrow> customers_kept t u"
  unfolding customers_kept_def using same_payer_refl by blast

lemma customers_kept_refl [simp]: "customers_kept t t"
  by (simp add: customers_kept_subset)

lemma customers_kept_trans: "customers_kept t u \<Longrightarrow> customers_kept u v \<Longrightarrow> customers_kept t v"
  unfolding customers_kept_def using same_payer_trans by meson

lemma payers_kept_refl [simp]: "payers_kept s s"
  by (simp add: payers_kept_def list.rel_refl)

lemma payers_kept_trans: "payers_kept s t \<Longrightarrow> payers_kept t u \<Longrightarrow> payers_kept s u"
proof -
  assume *: "payers_kept s t" "payers_kept t u"
  have "list_all2 same_session (sessions s) (sessions u)"
    by (rule list_all2_trans [of same_session same_session same_session, OF same_session_trans])
      (use * in \<open>auto simp: payers_kept_def\<close>)
  with * show "payers_kept s u" by (auto simp: payers_kept_def intro: customers_kept_trans)
qed

lemma customers_kept_update: "(\<And>q. P q \<Longrightarrow> same_payer q (g q)) \<Longrightarrow> customers_kept t (update_where P g t)"
  unfolding customers_kept_def
proof
  fix q
  assume "\<And>q. P q \<Longrightarrow> same_payer q (g q)" "q \<in> set t"
  then show "\<exists>q'\<in>set (update_where P g t). same_payer q q'"
    by (intro bexI [of _ "if P q then g q else q"]) (auto simp: set_update_where)
qed

text \<open>What an upsert of the checkout does, on a table with its unique keys.\<close>

lemma upsert_result:
  assumes ok: "payers_ok s" and fresh: "cid \<notin> cu_id ` set (customers s)"
    and run: "upsertFromCheckout cid now mid wallet email s = (r, t)"
  shows "checkout_step cid s t \<and> sessions t = sessions s \<and>
    (\<exists>c\<in>set (customers t). r = Inr c \<and> cu_merchant_id c = mid \<and> cu_wallet_address c = to_lower wallet)"
proof (cases "find (is_customer mid (to_lower wallet)) (customers s)")
  case None
  then have new: "(mid, to_lower wallet) \<notin> (\<lambda>q. (cu_merchant_id q, cu_wallet_address q)) ` set (customers s)"
    by (auto simp: find_None_iff is_customer_def)
  with ok fresh have "payers_ok (s\<lparr>customers := customers s @ [c]\<rparr>)"
    if "cu_id c = cid" "cu_merchant_id c = mid" "cu_wallet_address c = to_lower wallet" for c
    using that unfolding payers_ok_def session_keys_ok_def by auto
  with None run show ?thesis
    by (auto simp: upsertFromCheckout_def Let_def checkout_step_def payers_kept_def list.rel_refl intro!: customers_kept_subset)
next
  case (Some e)
  then have e: "e \<in> set (customers s)" "cu_merchant_id e = mid" "cu_wallet_address e = to_lower wallet"
    by (auto simp: find_Some_iff is_customer_def)
  define P :: "customer_row \<Rightarrow> bool" and g :: "customer_row \<Rightarrow> customer_row"
    where "P = (if cu_email e \<noteq> None then (\<lambda>r. cu_id r = cu_id e) else (\<lambda>r. cu_id r = cu_id e \<and> cu_email r = None))"
    and "g = (if cu_email e \<noteq> None then (\<lambda>r. r\<lparr>cu_last_seen_at := now\<rparr>)
      else (\<lambda>r. r\<lparr>cu_email := Some email, cu_metadata := cu_metadata e, cu_email_history := cu_email_history e @ [(email, now)], cu_last_seen_at := now\<rparr>))"
  have d: "distinct (map cu_id (customers s))" using ok by (simp add: payers_ok_def)
  have g: "cu_id (g q) = cu_id q \<and> cu_merchant_id (g q) = cu_merchant_id q \<and> cu_wallet_address (g q) = cu_wallet_address q" for q
    by (simp add: g_def)
  have same: "P q \<Longrightarrow> same_payer q (g q)" for q by (auto simp: P_def g_def same_payer_def split: if_splits)
  have found: "find_row cu_id (cu_id e) (update_where P g (customers s)) = Some (g e)"
    using find_row_self [OF d e(1)] row_update.find_row_update [of cu_id "\<lambda>_. g" "cu_id e" P _ "customers s"] g
    by (simp add: row_update_def P_def)
  then have mem: "g e \<in> set (update_where P g (customers s))" by (auto dest: find_row_Some)
  have t: "r = Inr (g e) \<and> t = s\<lparr>customers := update_where P g (customers s)\<rparr>"
    using run Some found by (auto simp: upsertFromCheckout_def Let_def P_def g_def split: if_splits)
  have kept: "customers_kept (customers s) (customers t)" using t customers_kept_update [OF same] by simp
  have "payers_ok t"
    unfolding payers_ok_def
  proof (intro conjI ballI allI impI)
    show "session_keys_ok t" using ok t by (simp add: payers_ok_def session_keys_ok_def)
    show "distinct (map cu_id (customers t))" using d t map_update_where [of cu_id g P "customers s"] g by simp
    show "distinct (map (\<lambda>q. (cu_merchant_id q, cu_wallet_address q)) (customers t))"
      using ok t map_update_where [of "\<lambda>q. (cu_merchant_id q, cu_wallet_address q)" g P "customers s"] g by (simp add: payers_ok_def)
  next
    fix x c
    assume "x \<in> set (sessions t)" "ps_customer_id x = Some c"
    then obtain q where q: "q \<in> set (customers s)" "cu_id q = c" "cu_merchant_id q = ps_merchant_id x"
      using ok t by (auto simp: payers_ok_def)
    from kept q(1) obtain q' where "q' \<in> set (customers t)" "same_payer q q'" by (auto simp: customers_kept_def)
    with q show "\<exists>q\<in>set (customers t). cu_id q = c \<and> cu_merchant_id q = ps_merchant_id x" by (auto simp: same_payer_def)
  qed
  moreover have "cu_id ` set (customers t) = cu_id ` set (customers s)"
    using t map_update_where [of cu_id g P "customers s"] g by (simp flip: set_map)
  ultimately show ?thesis using t kept mem g e by (auto simp: checkout_step_def payers_kept_def list.rel_refl)
qed

lemma bind_kept:
  assumes "payers_ok s" and run: "bindCustomer now i c s = (r, t)"
    and own: "\<exists>q\<in>set (customers s). cu_id q = c \<and> (\<forall>x. find_session i s = Some x \<longrightarrow> cu_merchant_id q = ps_merchant_id x)"
  shows "checkout_step cid s t"
proof -
  have keys: "session_keys_ok s" using assms(1) by (simp add: payers_ok_def)
  let ?P = "\<lambda>r. ps_id r = i \<and> ps_status r \<in> set OPEN_SESSION_STATUSES \<and> now < ps_expires_at r \<and>
               (ps_customer_id r = None \<or> ps_customer_id r = Some c)"
  have t: "sessions t = update_where ?P (patch_session (Set_Customer c) now) (sessions s)" "customers t = customers s"
    using bindCustomer_sessions [of now i c s] run by (auto simp: bindCustomer_def Let_def split: option.splits if_splits)
  have "list_all2 same_session xs (update_where ?P (patch_session (Set_Customer c) now) xs)" for xs
    by (induction xs) (auto simp: same_session_def)
  then have kept: "payers_kept s t" using t by (simp add: payers_kept_def)
  have found: "find_session i s = Some x" if "x \<in> set (sessions s)" "ps_id x = i" for x
    using find_row_self [of ps_id "sessions s" x] keys that by (simp add: find_session_def session_keys_ok_def)
  have "session_keys_ok t" using keys t by (auto simp: session_keys_ok_def set_update_where split: if_splits)
  with assms(1) own t found have "payers_ok t"
    by (fastforce simp: payers_ok_def set_update_where split: if_splits)
  with kept t show ?thesis by (auto simp: checkout_step_def)
qed


lemma checkout_step_refl: "payers_ok s \<Longrightarrow> checkout_step cid s s"
  by (auto simp: checkout_step_def)

lemma checkout_step_trans: "checkout_step cid s t \<Longrightarrow> checkout_step cid t u \<Longrightarrow> checkout_step cid s u"
  unfolding checkout_step_def using payers_kept_trans by blast

lemma public_session: "retrieve_session_public cfg i s = (Inr x, t) \<Longrightarrow>
    t = s \<and> (\<exists>r. find_session i s = Some r \<and> sw_merchant_id x = ps_merchant_id r)"
  by (auto simp: retrieve_session_public_def serialise_session_def split: option.splits)

lemma public_session_pure: "snd (retrieve_session_public cfg i s) = s"
  by (simp add: retrieve_session_public_def split: option.split)

lemma public_plan_pure: "snd (retrieve_plan_public cfg i s) = s"
  by (simp add: retrieve_plan_public_def split: option.split)

lemma attachToSession_kept:
  assumes ok: "payers_ok s" and fresh: "cid \<notin> cu_id ` set (customers s)"
    and run: "attachToSession cfg cid now i p s = (r, t)"
  shows "checkout_step cid s t"
proof (cases "retrieve_session_public cfg i s")
  case (Pair x u)
  then have u: "u = s" using public_session_pure [of cfg i s] by simp
  show ?thesis
  proof (cases x)
    case (Inl e)
    with run ok u Pair show ?thesis by (simp add: attachToSession_def seq_Inl checkout_step_refl)
  next
    case (Inr w)
    with Pair public_session obtain row where row: "find_session i s = Some row" "sw_merchant_id w = ps_merchant_id row" by blast
    obtain c v where up: "upsertFromCheckout cid now (ps_merchant_id row) (py_wallet_address p) (py_email p) s = (c, v)" by fastforce
    from upsert_result [OF ok fresh up] obtain q where q: "checkout_step cid s v" "sessions v = sessions s"
      "q \<in> set (customers v)" "c = Inr q" "cu_merchant_id q = ps_merchant_id row" by blast
    obtain b z where bind: "bindCustomer now i (cu_id q) v = (b, z)" by fastforce
    have "\<exists>q'\<in>set (customers v). cu_id q' = cu_id q \<and> (\<forall>x. find_session i v = Some x \<longrightarrow> cu_merchant_id q' = ps_merchant_id x)"
      using q row by (auto simp: find_session_def)
    moreover have "payers_ok v" using q(1) by (simp add: checkout_step_def)
    ultimately have "checkout_step cid v z" using bind_kept [OF _ bind] by blast
    with q(1) have z: "checkout_step cid s z" by (rule checkout_step_trans)
    from run Pair u Inr row up q bind have "t = (case b of Inl _ \<Rightarrow> s | Inr _ \<Rightarrow> z)"
      by (auto simp: attachToSession_def seq_Inr in_tx_def seq_def split: sum.splits)
    with z ok show ?thesis by (cases b) (auto simp: checkout_step_refl)
  qed
qed

lemma attachToPlan_kept:
  assumes ok: "payers_ok s" and fresh: "cid \<notin> cu_id ` set (customers s)"
    and run: "attachToPlan cfg cid now i p s = (r, t)"
  shows "checkout_step cid s t"
proof (cases "t = s")
  case False
  with run obtain mid c where up: "upsertFromCheckout cid now mid (py_wallet_address p) (py_email p) s = (c, t)"
    by (auto simp: attachToPlan_def retrieve_plan_public_def seq_def require_def split: option.splits sum.splits prod.splits if_splits)
  from upsert_result [OF ok fresh up] show ?thesis by blast
qed (use ok in \<open>simp add: checkout_step_refl\<close>)

text \<open>The relay touches neither sessions nor customers.\<close>

lemma claimAttempt_keeps: "(\<And>s r. I s \<Longrightarrow> I (s\<lparr>redis := r\<rparr>)) \<Longrightarrow> keeps I (claimAttempt w scope key)"
  by (rule keepsI) (simp add: claimAttempt_eq split: option.split sum.split)

lemma consume_customers: "consume cfg mid now s = (r, t) \<Longrightarrow> customers t = customers s"
proof -
  let ?I = "\<lambda>t. customers t = customers s"
  have alert: "?I t \<Longrightarrow> ?I (alert_email cfg m n q x t)" for m n q x t
    by (simp add: alert_email_def split: option.split)
  have a: "keeps ?I (alertOnce cfg m d ex n q t)" for m d ex n q t
    unfolding alertOnce_def Let_def by (intro keeps_intros) (auto simp: alert)
  have c: "keeps ?I (\<lambda>s. case count_submission m d q s of (row, s') \<Rightarrow> (Inr row, s'))" for m d q
    by (rule keepsI) (auto simp: count_submission_def patch_usage_of_def split: option.split)
  have "keeps ?I (consume cfg mid now)"
    unfolding consume_def find_merchant_def Let_def by (intro keeps_intros a c)
  then show "consume cfg mid now s = (r, t) \<Longrightarrow> customers t = customers s" by (rule keepsD) simp_all
qed

definition same_parties :: "store \<Rightarrow> store \<Rightarrow> bool" where
  "same_parties s t \<longleftrightarrow> sessions t = sessions s \<and> customers t = customers s"

lemma consume_parties: "keeps (same_parties s) (consume cfg mid now)"
proof (rule keepsI)
  fix t
  obtain r u where "consume cfg mid now t = (r, u)" by fastforce
  then show "same_parties s t \<Longrightarrow> same_parties s (snd (consume cfg mid now t))"
    using consume_frame consume_customers by (fastforce simp: same_parties_def)
qed

lemma enqueue_parties: "keeps (same_parties s) (enqueue w cfg now job mid scope)"
  unfolding enqueue_def parse_relay_job_def or_raise_def
  by (intro keeps_intros claimAttempt_keeps consume_parties) (simp_all add: same_parties_def)

lemma pure_keeps: "(\<And>s. snd (m s) = s) \<Longrightarrow> keeps I m"
  by (rule keepsI) simp

lemma checks_keep:
  "keeps I (assertMinimumAmount a)" "keeps I (simulate w x d)" "keeps I (assertSessionPayable cfg now sid m n tok)"
  "keeps I (assertSessionNonce w sid k)" "keeps I (assertFunded w j)" "keeps I (assertPlanTerms cfg now mid j)"
  by (rule pure_keeps, simp add: assertMinimumAmount_def simulate_def assertSessionPayable_def assertSessionNonce_def
      assertFunded_def assertPlanTerms_def Let_def verify_terms_pure split: option.split simulation.split sum.split prod.split)+

lemma submissions_parties:
  "keeps (same_parties s) (submitPayWithAuthorization w cfg now i)"
  "keeps (same_parties s) (submitPermitAndCreateSubscription w cfg now j)"
  unfolding submitPayWithAuthorization_def submitPermitAndCreateSubscription_def Let_def
  by (intro keeps_intros enqueue_parties checks_keep)+


lemma answer_run [simp]: "snd (answer f m s) = snd (m s)"
  by (simp add: answer_def)

lemma parties_step: "payers_ok s \<Longrightarrow> keeps (same_parties s) m \<Longrightarrow> checkout_step cid s (snd (m s))"
proof -
  assume ok: "payers_ok s" and "keeps (same_parties s) m"
  then have "same_parties s (snd (m s))" by (simp add: keeps_def same_parties_def)
  with ok show "checkout_step cid s (snd (m s))"
    by (auto simp: checkout_step_def payers_ok_def session_keys_ok_def payers_kept_def same_parties_def list.rel_refl)
qed

text \<open>The routes that only read, and the relay's.\<close>

lemma reading_keeps:
  "keeps I (getPublicBrand i)" "keeps I (retrieve_session_public cfg i)" "keeps I (retrieve_plan_public cfg i)"
  "keeps I (planSubscriptionStatus cfg i a)" "keeps I (quote i b now)" "keeps I (sessionSubmission cfg i k)" "keeps I (planSubmission cfg i k)"
  unfolding planSubscriptionStatus_def sessionSubmission_def planSubmission_def checkout_submission_def getPublicBrand_def or_raise_def
  by (intro keeps_intros pure_keeps public_session_pure public_plan_pure, (simp add: quote_eq split: sum.split option.split)?)+

lemma relaying_keeps:
  "keeps (same_parties s) (relaySessionPayment w cfg now i b)" "keeps (same_parties s) (relayPlanEnrolment w cfg now i c)"
  unfolding relaySessionPayment_def relayPlanEnrolment_def by (intro keeps_intros submissions_parties reading_keeps)+

lemma handle_checkout_step:
  assumes "payers_ok s" "cid \<notin> cu_id ` set (customers s)"
  shows "checkout_step cid s (snd (handle_checkout w cfg cid now c s))"
proof (cases c)
  case (Post_Session_Payer i p)
  then show ?thesis using attachToSession_kept [OF assms surjective_pairing] by simp
next
  case (Post_Plan_Payer i p)
  then show ?thesis using attachToPlan_kept [OF assms surjective_pairing] by simp
qed (simp_all add: parties_step assms reading_keeps relaying_keeps)

definition checkout_run :: "relay_world \<Rightarrow> config \<Rightarrow> (string \<times> int \<times> checkout_call) list \<Rightarrow> store \<Rightarrow> store" where
  "checkout_run w cfg calls = fold (\<lambda>(cid, now, c) s. snd (handle_checkout w cfg cid now c s)) calls"

section \<open>Properties\<close>

text \<open>
  C20. Whatever the public checkout is called with, and however often: a session that has a payer keeps that payer, and
  nothing else of a session is changed by anybody but its time stamp; the payer of a session is always a customer of
  the session's own merchant; customers keep their merchant and wallet, and an e-mail once known is never replaced;
  no second customer is made for a merchant and wallet.
\<close>

theorem payers_stay_bound:
  assumes "payers_ok s" and "distinct (map fst calls)" and "set (map fst calls) \<inter> cu_id ` set (customers s) = {}"
  shows "payers_ok (checkout_run w cfg calls s) \<and> payers_kept s (checkout_run w cfg calls s)"
  using assms
proof (induction calls arbitrary: s)
  case Nil
  then show ?case by (simp add: checkout_run_def)
next
  case (Cons a calls)
  obtain cid now c where a: "a = (cid, now, c)" by (cases a)
  let ?t = "snd (handle_checkout w cfg cid now c s)"
  have "cid \<notin> cu_id ` set (customers s)" using Cons.prems(3) a by auto
  from handle_checkout_step [OF Cons.prems(1) this] have t: "checkout_step cid s ?t" .
  then have "set (map fst calls) \<inter> cu_id ` set (customers ?t) = {}"
    using Cons.prems(2,3) unfolding a checkout_step_def list.map fst_conv distinct.simps list.set by blast
  from Cons.IH [OF _ _ this] t Cons.prems(2) show ?case
    using payers_kept_trans by (auto simp: checkout_run_def checkout_step_def a)
qed

definition sample_alice :: payer_identity where
  "sample_alice = \<lparr>py_wallet_address = sample_address, py_email = ''alice@example.com''\<rparr>"

definition sample_bob :: payer_identity where
  "sample_bob = \<lparr>py_wallet_address = other_address, py_email = ''bob@example.com''\<rparr>"

lemma sample_payers_ok: "payers_ok sample_store"
  by (simp add: payers_ok_def sample_session_keys) (simp add: sample_defs)

theorem payers_stay_bound_witness:
  "payers_kept sample_store (checkout_run sample_world sample_config
     [(''cu1'', 5, Post_Session_Payer ''ps1'' sample_alice), (''cu2'', 9, Post_Session_Payer ''ps1'' sample_bob)] sample_store)"
  using payers_stay_bound [OF sample_payers_ok, of "[(''cu1'', 5, Post_Session_Payer ''ps1'' sample_alice),
      (''cu2'', 9, Post_Session_Payer ''ps1'' sample_bob)]" sample_world sample_config]
  by (simp add: sample_store_def empty_store_def)

text \<open>
  A customer the API made with a checksummed address is not found by the checkout, which looks for the lower-case one:
  the payer becomes a second customer of the merchant.
\<close>

lemma checksummed_customer_duplicated:
  assumes "customers s = [q]" "cu_merchant_id q = mid" "cu_wallet_address q = wallet" "to_lower wallet \<noteq> wallet"
  shows "map cu_merchant_id (customers (snd (upsertFromCheckout cid now mid wallet email s))) = [mid, mid]"
  using assms by (auto simp: upsertFromCheckout_def Let_def is_customer_def)

text \<open>
  C21. A relayed payment is found again by the page that made it, and by no other: after a submission that queued a job,
  the status route of the session answers the same view for its key; for any other session it answers 404.
\<close>

theorem relayed_payment_visible:
  assumes run: "relaySessionPayment w cfg now sid b s = (Inr v, t)" and new: "relay_queue t \<noteq> relay_queue s"
  shows "sessionSubmission cfg sid (sv_idempotency_key v) t = (Inr v, t) \<and>
    (\<forall>other. other \<noteq> sid \<and> other \<noteq> [] \<longrightarrow> (\<exists>code. sessionSubmission cfg other (sv_idempotency_key v) t = (Inl (Http 404 code No_Details), t)))"
proof -
  from run obtain x where x: "retrieve_session_public cfg sid s = (Inr x, s)"
    and pay: "submitPayWithAuthorization w cfg now (paymentRelayInput b (sw_merchant_id x) sid) s = (Inr v, t)"
    unfolding relaySessionPayment_def by (rule seq_InrE) (metis public_session)
  let ?i = "paymentRelayInput b (sw_merchant_id x) sid"
  obtain addr where free: "find_job (pay_key w ?i) (relay_queue s) = None"
    and run: "enqueue w cfg now (pay_job w addr ?i) (py_merchant_internal_id ?i) (paymentAttemptScope (py_session_id ?i)) s = (Inr v, t)"
    using new by - (rule submitPay_run [OF pay], simp, blast)
  let ?job = "pay_job w addr ?i"
  have key: "job_key ?job = pay_key w ?i" by (simp add: pay_job_def)
  from enqueue_Inr [OF run] free key have q: "relay_queue t = relay_queue s @ [queued now ?job]" "sessions t = sessions s"
    "v = viewFromJob (queued now ?job)" by simp_all
  have found: "find_job (sv_idempotency_key v) (relay_queue t) = Some (queued now ?job)"
    using q free key by (simp add: find_job_def queued_def viewFromJob_def)
  have scope: "jobInScope ?job \<lparr>sc_merchant_internal_id = m, sc_session_id = Some other\<rparr> \<longleftrightarrow>
      m = sw_merchant_id x \<and> (other = [] \<or> other = sid)" for m other
    by (auto simp: pay_job_def paymentRelayInput_def)
  from public_session [OF x] obtain r where r: "find_session sid s = Some r" "sw_merchant_id x = ps_merchant_id r" by blast
  have public: "retrieve_session_public cfg other t = (case find_session other s of None \<Rightarrow> (Inl not_found, t)
      | Some r \<Rightarrow> (Inr ((serialise_session cfg t r)\<lparr>sw_fee_amount := ''0'', sw_net_amount := ps_amount r, sw_metadata := []\<rparr>), t))" for other
    using q(2) by (simp add: retrieve_session_public_def find_session_def serialise_session_def split: option.split)
  have view: "getByIdempotencyKey (sv_idempotency_key v) \<lparr>sc_merchant_internal_id = m, sc_session_id = Some other\<rparr> t =
      (if m = sw_merchant_id x \<and> (other = [] \<or> other = sid) then Some v else None)" for m other
    using found scope [of m other] q(3) by (auto simp: getByIdempotencyKey_def queued_def)
  show ?thesis
    using r by (auto simp: sessionSubmission_def checkout_submission_def public view seq_def serialise_session_def split: option.split)
qed

theorem relayed_payment_visible_witness:
  "\<exists>v t. relaySessionPayment sample_world sample_config 100 ''ps1'' sample_payment sample_store = (Inr v, t) \<and>
     sessionSubmission sample_config ''ps1'' (sv_idempotency_key v) t = (Inr v, t)"
proof (rule sample_submission)
  fix v t
  assume pay: "submitPayWithAuthorization sample_world sample_config 100 sample_payment sample_store = (Inr v, t)"
    and q: "relay_queue t = [queued 100 (pay_job sample_world sample_address sample_payment)]"
  have x: "find_session ''ps1'' sample_store = Some sample_session" "ps_merchant_id sample_session = ''m1''"
    by (simp_all add: find_session_def sample_store_def sample_session_def)
  have "paymentRelayInput sample_payment ''m1'' ''ps1'' = sample_payment" by (simp add: paymentRelayInput_def sample_payment_def)
  then have run: "relaySessionPayment sample_world sample_config 100 ''ps1'' sample_payment sample_store = (Inr v, t)"
    using pay x by (simp add: relaySessionPayment_def retrieve_session_public_def serialise_session_def seq_assoc or_raise_def)
  have "relay_queue sample_store = []" by (simp add: sample_defs)
  with relayed_payment_visible [OF run] q run show ?thesis by auto
qed

end
