(* ===== verification/Token_Info.thy ===== *)
theory Token_Info
  imports Enrolment "HOL-Library.Word"
begin

text \<open>
  Token metadata for the browser SDK (\<open>apps/api/src/modules/tokens\<close>): which signed path a token supports and the
  version of its EIP-712 domain, read from the chain and kept for ten minutes. The record \<open>token_chain\<close> is what the
  contracts answer at the time of a request; the state is the cache of the process.
\<close>

unbundle bit_operations_syntax

section \<open>Service\<close>

record token_chain =
  tk_is_whitelisted :: "string \<Rightarrow> api_exn + bool"
  tk_capabilities :: "string \<Rightarrow> api_exn + 8 word"
  tk_name :: "string \<Rightarrow> api_exn + string"
  tk_symbol :: "string \<Rightarrow> api_exn + string"
  tk_decimals :: "string \<Rightarrow> api_exn + 8 word"
  tk_domain_version :: "string \<Rightarrow> api_exn + string"
  tk_legacy_version :: "string \<Rightarrow> api_exn + string"
  tk_nonces :: "string \<Rightarrow> string \<Rightarrow> api_exn + nat"

record token_metadata =
  tm_address :: string
  tm_name :: string
  tm_symbol :: string
  tm_version :: string
  tm_decimals :: nat
  tm_permit2612 :: bool
  tm_transfer_auth3009 :: bool

record token_permit_nonce =
  tn_token :: string
  tn_owner :: string
  tn_nonce :: string

type_synonym token_cache = "string \<Rightarrow> (token_metadata \<times> int) option"

definition METADATA_TTL_MS :: int where
  "METADATA_TTL_MS = 10 * 60 * 1000"

definition CAP_PERMIT_2612 :: "8 word" where
  "CAP_PERMIT_2612 = 0x01"

definition CAP_TRANSFER_AUTH_3009 :: "8 word" where
  "CAP_TRANSFER_AUTH_3009 = 0x02"

text \<open>ERC-5267 first, then the legacy \<open>version()\<close>, then the default; a failed read of any cause moves on.\<close>

definition domain_version :: "token_chain \<Rightarrow> string \<Rightarrow> string" where
  "domain_version c token =
     (case tk_domain_version c token of Inr v \<Rightarrow> v
      | Inl _ \<Rightarrow> (case tk_legacy_version c token of Inr v \<Rightarrow> v | Inl _ \<Rightarrow> ''1''))"

text \<open>The three ERC-20 reads run at once; of several failures the first in this order is reported.\<close>

definition read_metadata :: "token_chain \<Rightarrow> string \<Rightarrow> (token_cache, api_exn, token_metadata) proc" where
  "read_metadata c token =
     seq (lift_sum (tk_is_whitelisted c token)) (\<lambda>listed.
     seq (require listed (Http 404 ''token_not_whitelisted'' No_Details)) (\<lambda>_.
     seq (lift_sum (tk_capabilities c token)) (\<lambda>caps.
     seq (lift_sum (tk_name c token)) (\<lambda>name.
     seq (lift_sum (tk_symbol c token)) (\<lambda>symbol.
     seq (lift_sum (tk_decimals c token)) (\<lambda>decimals.
     ret \<lparr>tm_address = token, tm_name = name, tm_symbol = symbol, tm_version = domain_version c token,
          tm_decimals = unat decimals, tm_permit2612 = (caps AND CAP_PERMIT_2612 = CAP_PERMIT_2612),
          tm_transfer_auth3009 = (caps AND CAP_TRANSFER_AUTH_3009 = CAP_TRANSFER_AUTH_3009)\<rparr>))))))"

definition getMetadata :: "string option \<Rightarrow> token_chain \<Rightarrow> int \<Rightarrow> string \<Rightarrow> (token_cache, api_exn, token_metadata) proc" where
  "getMetadata whitelist c now token =
     seq (require (truthy whitelist) (Crash ''STRIMZ_TOKEN_WHITELIST_ADDRESS is not configured'')) (\<lambda>_.
     let lower = to_lower token in
     seq (gets (\<lambda>cache. cache lower)) (\<lambda>cached.
     case cached of
       Some (m, expiresAt) \<Rightarrow> if now < expiresAt then ret m else
         seq (read_metadata c lower) (\<lambda>m. seq (modify (\<lambda>cache. cache(lower \<mapsto> (m, now + METADATA_TTL_MS)))) (\<lambda>_. ret m))
     | None \<Rightarrow>
         seq (read_metadata c lower) (\<lambda>m. seq (modify (\<lambda>cache. cache(lower \<mapsto> (m, now + METADATA_TTL_MS)))) (\<lambda>_. ret m))))"

definition getPermitNonce :: "token_chain \<Rightarrow> string \<Rightarrow> string \<Rightarrow> (token_cache, api_exn, token_permit_nonce) proc" where
  "getPermitNonce c token owner =
     (case tk_nonces c (to_lower token) owner of
        Inl _ \<Rightarrow> raise (Http 404 ''token_missing_permit'' No_Details)
      | Inr n \<Rightarrow> ret \<lparr>tn_token = to_lower token, tn_owner = to_lower owner, tn_nonce = show_nat n\<rparr>)"

section \<open>Routes\<close>

definition parseAddress :: "string \<Rightarrow> api_exn + string" where
  "parseAddress raw = (if address_ok raw then Inr (to_lower raw) else Inl (bad_request ''invalid_address''))"

definition metadata_route :: "string option \<Rightarrow> token_chain \<Rightarrow> int \<Rightarrow> string \<Rightarrow> (token_cache, api_exn, token_metadata) proc" where
  "metadata_route whitelist c now addressParam = seq (lift_sum (parseAddress addressParam)) (getMetadata whitelist c now)"

definition nonce_route :: "token_chain \<Rightarrow> string \<Rightarrow> string option \<Rightarrow> (token_cache, api_exn, token_permit_nonce) proc" where
  "nonce_route c addressParam ownerParam =
     seq (require (truthy ownerParam) (bad_request ''missing_owner'')) (\<lambda>_.
     seq (lift_sum (parseAddress addressParam)) (\<lambda>token.
     seq (lift_sum (parseAddress (the ownerParam))) (\<lambda>owner.
     getPermitNonce c token owner)))"

section \<open>How old an answer can be\<close>

text \<open>Requests with the chain and the time each one sees; the cache they leave, and the answer of one more.\<close>

type_synonym token_request = "token_chain \<times> int \<times> string"

definition serve_tokens :: "string option \<Rightarrow> token_request list \<Rightarrow> token_cache \<Rightarrow> token_cache" where
  "serve_tokens whitelist = fold (\<lambda>(c, now, raw) cache. snd (metadata_route whitelist c now raw cache))"

text \<open>The metadata the chain gives for a listed token.\<close>

definition listed_as :: "token_chain \<Rightarrow> string \<Rightarrow> token_metadata \<Rightarrow> bool" where
  "listed_as c token m \<longleftrightarrow> tk_is_whitelisted c token = Inr True \<and> (\<forall>cache. read_metadata c token cache = (Inr m, cache))"

definition cache_from :: "token_request list \<Rightarrow> token_cache \<Rightarrow> bool" where
  "cache_from reqs cache \<longleftrightarrow> (\<forall>token m e. cache token = Some (m, e) \<longrightarrow>
     (\<exists>(c, t, raw)\<in>set reqs. e = t + METADATA_TTL_MS \<and> listed_as c token m))"

lemma read_metadata_run:
  "read_metadata c token cache = (r, cache') \<Longrightarrow> cache' = cache \<and> (\<forall>m. r = Inr m \<longrightarrow> listed_as c token m)"
  by (auto simp: listed_as_def read_metadata_def seq_def require_def split: sum.splits prod.splits if_splits)

lemma getMetadata_run:
  assumes "getMetadata whitelist c now token cache = (r, cache')" and "cache_from reqs cache"
  shows "cache_from ((c, now, raw) # reqs) cache' \<and>
    (\<forall>m. r = Inr m \<longrightarrow> (\<exists>(d, t, raw)\<in>set ((c, now, raw) # reqs). now < t + METADATA_TTL_MS \<and> listed_as d (to_lower token) m))"
proof -
  let ?lower = "to_lower token"
  obtain q u where read: "read_metadata c ?lower cache = (q, u)" by fastforce
  note q = read_metadata_run [OF read]
  have fresh: "cache_from ((c, now, raw) # reqs) (cache(?lower \<mapsto> (m, now + METADATA_TTL_MS)))" if "listed_as c ?lower m" for m
    using assms(2) that by (auto simp: cache_from_def)
  have old: "cache_from ((c, now, raw) # reqs) cache" using assms(2) by (fastforce simp: cache_from_def)
  have ttl: "0 < METADATA_TTL_MS" by (simp add: METADATA_TTL_MS_def)
  consider (off) "\<not> truthy whitelist"
    | (hit) m e where "truthy whitelist" "cache ?lower = Some (m, e)" "now < e"
    | (miss) "truthy whitelist" "\<not> (\<exists>m e. cache ?lower = Some (m, e) \<and> now < e)" by fastforce
  then show ?thesis
  proof cases
    case off
    with assms(1) old show ?thesis by (auto simp: getMetadata_def)
  next
    case hit
    with assms(1) have "r = Inr m" "cache' = cache" by (auto simp: getMetadata_def Let_def)
    moreover from hit(2) assms(2) obtain d t raw where "(d, t, raw) \<in> set reqs" "e = t + METADATA_TTL_MS" "listed_as d ?lower m"
      by (fastforce simp: cache_from_def)
    ultimately show ?thesis using old hit(3) by fastforce
  next
    case miss
    then have "getMetadata whitelist c now token cache =
        seq (read_metadata c ?lower) (\<lambda>m. seq (modify (\<lambda>cache. cache(?lower \<mapsto> (m, now + METADATA_TTL_MS)))) (\<lambda>_. ret m)) cache"
      by (auto simp: getMetadata_def Let_def split: option.split)
    with assms(1) read q have "(\<exists>e. r = Inl e \<and> cache' = cache) \<or>
        (\<exists>m. r = Inr m \<and> listed_as c ?lower m \<and> cache' = cache(?lower \<mapsto> (m, now + METADATA_TTL_MS)))"
      by (cases q) (auto simp: seq_Inr seq_Inl)
    then show ?thesis using fresh old ttl by auto
  qed
qed

lemma metadata_route_run:
  assumes "metadata_route whitelist c now raw cache = (r, cache')" and "cache_from reqs cache"
  shows "cache_from ((c, now, raw) # reqs) cache' \<and> (\<forall>m. r = Inr m \<longrightarrow> address_ok raw \<and>
    (\<exists>(d, t, raw')\<in>set ((c, now, raw) # reqs). now < t + METADATA_TTL_MS \<and> listed_as d (to_lower raw) m))"
proof (cases "address_ok raw")
  case True
  with assms(1) have "getMetadata whitelist c now (to_lower raw) cache = (r, cache')"
    by (simp add: metadata_route_def parseAddress_def lift_sum_def)
  from getMetadata_run [OF this assms(2), of raw] True show ?thesis by simp
next
  case False
  with assms show ?thesis by (fastforce simp: metadata_route_def parseAddress_def lift_sum_def cache_from_def)
qed

lemma serve_tokens_cache: "cache_from old cache \<Longrightarrow> cache_from (rev reqs @ old) (serve_tokens whitelist reqs cache)"
proof (induction reqs arbitrary: old cache)
  case Nil
  then show ?case by (simp add: serve_tokens_def)
next
  case (Cons a reqs)
  obtain c now raw where a: "a = (c, now, raw)" by (cases a)
  have "cache_from (a # old) (snd (metadata_route whitelist c now raw cache))"
    using metadata_route_run [OF surjective_pairing Cons.prems] a by simp
  from Cons.IH [OF this] show ?case by (simp add: serve_tokens_def a)
qed

text \<open>
  When both version reads fail, for whatever reason, the answer says version 1, and so do the answers of the next ten
  minutes, whatever the token says then.
\<close>

lemma failed_read_pins_version:
  assumes "tk_domain_version c (to_lower token) = Inl x" "tk_legacy_version c (to_lower token) = Inl y"
    and "getMetadata whitelist c now token (\<lambda>_. None) = (Inr m, cache)" and "later < now + METADATA_TTL_MS"
  shows "tm_version m = ''1'' \<and> getMetadata whitelist d later token cache = (Inr m, cache)"
proof -
  obtain q u where read: "read_metadata c (to_lower token) (\<lambda>_. None) = (q, u)" by fastforce
  with assms(3) read_metadata_run [OF read] have run: "q = Inr m" "cache = (\<lambda>_. None)(to_lower token \<mapsto> (m, now + METADATA_TTL_MS))" "truthy whitelist"
    by (cases q; auto simp: getMetadata_def Let_def seq_Inr seq_Inl split: if_splits)+
  with read assms(1,2) have "tm_version m = ''1''"
    by (auto simp: read_metadata_def domain_version_def seq_def split: sum.splits if_splits)
  with run assms(4) show ?thesis by (simp add: getMetadata_def Let_def)
qed

text \<open>The nonce route does not ask the whitelist.\<close>

lemma nonce_of_unlisted_token: "getPermitNonce (c\<lparr>tk_is_whitelisted := w\<rparr>) token owner = getPermitNonce c token owner"
  by (simp add: getPermitNonce_def)

section \<open>Properties\<close>

text \<open>
  C28. Token metadata is only given for whitelisted tokens and is at most ten minutes old: after any requests, an answer
  is for a well-formed address and is exactly what the chain said, when it listed the token, at this or an earlier
  request less than ten minutes ago.
\<close>

theorem token_metadata_fresh:
  assumes "metadata_route whitelist c now raw (serve_tokens whitelist reqs (\<lambda>_. None)) = (Inr m, cache)"
  shows "address_ok raw \<and> (\<exists>(d, t, raw')\<in>set ((c, now, raw) # reqs). now < t + 600000 \<and> listed_as d (to_lower raw) m)"
proof -
  have "cache_from (rev reqs) (serve_tokens whitelist reqs (\<lambda>_. None))"
    using serve_tokens_cache [of "[]" "\<lambda>_. None" reqs whitelist] by (simp add: cache_from_def)
  from metadata_route_run [OF assms this] show ?thesis by (simp add: METADATA_TTL_MS_def)
qed

definition usdc_chain :: token_chain where
  "usdc_chain = \<lparr>tk_is_whitelisted = (\<lambda>_. Inr True), tk_capabilities = (\<lambda>_. Inr 3), tk_name = (\<lambda>_. Inr ''USD Coin''),
     tk_symbol = (\<lambda>_. Inr ''USDC''), tk_decimals = (\<lambda>_. Inr 6), tk_domain_version = (\<lambda>_. Inl (Crash ''revert'')),
     tk_legacy_version = (\<lambda>_. Inr ''2''), tk_nonces = (\<lambda>_ _. Inr 0)\<rparr>"

theorem token_metadata_fresh_witness:
  "\<exists>m cache. metadata_route (Some ''w'') usdc_chain 700000 sample_address
       (serve_tokens (Some ''w'') [(usdc_chain, 200000, sample_address)] (\<lambda>_. None)) = (Inr m, cache) \<and>
     tm_version m = ''2'' \<and> listed_as usdc_chain sample_address m"
proof -
  have ok: "address_ok sample_address" "to_lower sample_address = sample_address"
    by simp_all
  define m where "m = \<lparr>tm_address = sample_address, tm_name = ''USD Coin'', tm_symbol = ''USDC'', tm_version = ''2'', tm_decimals = 6,
     tm_permit2612 = True, tm_transfer_auth3009 = True\<rparr>"
  have read: "read_metadata usdc_chain sample_address cache = (Inr m, cache)" for cache
    by (simp add: read_metadata_def usdc_chain_def domain_version_def CAP_PERMIT_2612_def CAP_TRANSFER_AUTH_3009_def m_def)
  have first: "serve_tokens (Some ''w'') [(usdc_chain, 200000, sample_address)] (\<lambda>_. None) = [sample_address \<mapsto> (m, 800000)]"
    by (simp add: serve_tokens_def metadata_route_def parseAddress_def ok getMetadata_def Let_def lift_sum_def seq_Inr [OF read] METADATA_TTL_MS_def)
  then have run: "metadata_route (Some ''w'') usdc_chain 700000 sample_address
       (serve_tokens (Some ''w'') [(usdc_chain, 200000, sample_address)] (\<lambda>_. None)) = (Inr m, [sample_address \<mapsto> (m, 800000)])"
    by (simp add: metadata_route_def parseAddress_def ok getMetadata_def Let_def lift_sum_def)
  moreover have "tm_version m = ''2''" by (simp add: m_def)
  ultimately show ?thesis using token_metadata_fresh [OF run] ok by auto
qed

end
