(* ===== verification/Screening.thy ===== *)
theory Screening
  imports Paging Complex_Main
begin

text \<open>
  Screening of wallets (\<open>apps/api/src/modules/compliance\<close>): a provider is asked for a risk score, and every result is
  logged. The state is the log table; what a provider answers is a parameter (\<open>fetched\<close>), with its JSON in the shape the
  service reads.
\<close>

section \<open>Data\<close>

datatype compliance_provider = Trm | Elliptic | Screening_Disabled

datatype compliance_status = Clear_Status | Flagged_Status | Blocked_Status | Error_Status

datatype screening_context = Merchant_Onboarding | Payer_Checkout | Subscriber_Signup | Refund_Recipient

record compliance_settings =
  cs_provider :: compliance_provider
  cs_api_key :: "string option"
  cs_block_threshold :: int

record screen_input =
  sn_wallet_address :: string
  sn_context :: screening_context
  sn_merchant_id :: "string option"
  sn_session_id :: "string option"
  sn_subscription_id :: "string option"

record compliance_log =
  cl_id :: string
  cl_wallet_address :: string
  cl_provider :: compliance_provider
  cl_status :: compliance_status
  cl_risk_score :: "int option"
  cl_flags :: "string list"
  cl_context :: screening_context
  cl_merchant_id :: "string option"
  cl_session_id :: "string option"
  cl_subscription_id :: "string option"
  cl_provider_request_id :: "string option"
  cl_created_at :: int

text \<open>What \<open>callProvider\<close> returns; a score is a JSON number.\<close>

record provider_result =
  pv_status :: compliance_status
  pv_risk_score :: "rat option"
  pv_flags :: "string list"
  pv_request_id :: "string option"

record screen_result =
  sr_status :: compliance_status
  sr_blocked :: bool
  sr_risk_score :: "rat option"
  sr_flags :: "string list"
  sr_log :: compliance_log

section \<open>Provider adapters\<close>

text \<open>A request that throws (network or JSON), is answered with an error status, or brings a body.\<close>

datatype 'j fetched = Fetch_Threw | Fetch_Refused nat | Fetch_Body 'j

record trm_row =
  tr_indicators :: "string option list option"
  tr_score :: "rat option"
  tr_external_id :: "string option"

record elliptic_body =
  eb_risk_score :: "rat option"
  eb_rules :: "string option list option"
  eb_analysed_at :: "string option"

record screening_world =
  sw_trm :: "string \<Rightarrow> trm_row list fetched"
  sw_elliptic :: "string \<Rightarrow> elliptic_body fetched"

definition failed_screen :: provider_result where
  "failed_screen = \<lparr>pv_status = Error_Status, pv_risk_score = None, pv_flags = [], pv_request_id = None\<rparr>"

definition clear_screen :: provider_result where
  "clear_screen = \<lparr>pv_status = Clear_Status, pv_risk_score = None, pv_flags = [], pv_request_id = None\<rparr>"

text \<open>\<open>map(x => x ?? '').filter(Boolean)\<close> of a list that may be absent.\<close>

definition flag_names :: "string option list option \<Rightarrow> string list" where
  "flag_names xs = filter (\<lambda>s. s \<noteq> []) (map (\<lambda>x. case x of None \<Rightarrow> [] | Some s \<Rightarrow> s) (case xs of None \<Rightarrow> [] | Some l \<Rightarrow> l))"

definition grade :: "int \<Rightarrow> rat option \<Rightarrow> string list \<Rightarrow> compliance_status" where
  "grade threshold score flags =
     (if (case score of None \<Rightarrow> False | Some r \<Rightarrow> of_int threshold \<le> r) then Blocked_Status
      else if flags \<noteq> [] then Flagged_Status else Clear_Status)"

definition callTrm :: "screening_world \<Rightarrow> compliance_settings \<Rightarrow> string \<Rightarrow> provider_result" where
  "callTrm w cfg wallet = (case sw_trm w wallet of
     Fetch_Threw \<Rightarrow> failed_screen
   | Fetch_Refused _ \<Rightarrow> failed_screen
   | Fetch_Body rows \<Rightarrow>
       let first = (case rows of [] \<Rightarrow> None | r # _ \<Rightarrow> Some r);
           flags = flag_names (Option.bind first tr_indicators);
           score = Option.bind first tr_score
       in \<lparr>pv_status = grade (cs_block_threshold cfg) score flags, pv_risk_score = score, pv_flags = flags,
           pv_request_id = Option.bind first tr_external_id\<rparr>)"

definition callElliptic :: "screening_world \<Rightarrow> compliance_settings \<Rightarrow> string \<Rightarrow> provider_result" where
  "callElliptic w cfg wallet = (case sw_elliptic w wallet of
     Fetch_Threw \<Rightarrow> failed_screen
   | Fetch_Refused _ \<Rightarrow> failed_screen
   | Fetch_Body body \<Rightarrow>
       let flags = flag_names (eb_rules body)
       in \<lparr>pv_status = grade (cs_block_threshold cfg) (eb_risk_score body) flags, pv_risk_score = eb_risk_score body,
           pv_flags = flags, pv_request_id = eb_analysed_at body\<rparr>)"

definition callProvider :: "screening_world \<Rightarrow> compliance_settings \<Rightarrow> string \<Rightarrow> provider_result" where
  "callProvider w cfg wallet =
     (if cs_provider cfg = Screening_Disabled \<or> \<not> truthy (cs_api_key cfg) then clear_screen
      else if cs_provider cfg = Trm then callTrm w cfg wallet
      else if cs_provider cfg = Elliptic then callElliptic w cfg wallet
      else clear_screen)"

section \<open>Service\<close>

text \<open>The constructor refuses a provider without a key.\<close>

definition compliance_constructor :: "compliance_settings \<Rightarrow> api_exn + compliance_settings" where
  "compliance_constructor cfg =
     (if cs_provider cfg \<noteq> Screening_Disabled \<and> \<not> truthy (cs_api_key cfg)
      then Inl (Crash ''COMPLIANCE_API_KEY is required'') else Inr cfg)"

text \<open>The score column is an integer; Prisma refuses a fraction.\<close>

definition score_column :: "rat option \<Rightarrow> api_exn + int option" where
  "score_column score = (case score of None \<Rightarrow> Inr None
     | Some r \<Rightarrow> if r = of_int \<lfloor>r\<rfloor> then Inr (Some \<lfloor>r\<rfloor>) else Inl (Crash ''PrismaClientValidationError''))"

definition screen ::
  "screening_world \<Rightarrow> compliance_settings \<Rightarrow> string \<Rightarrow> int \<Rightarrow> screen_input \<Rightarrow> (compliance_log list, api_exn, screen_result) proc" where
  "screen w cfg lid now i =
     (let p = callProvider w cfg (sn_wallet_address i) in
      seq (lift_sum (score_column (pv_risk_score p))) (\<lambda>score.
      let row = \<lparr>cl_id = lid, cl_wallet_address = to_lower (sn_wallet_address i), cl_provider = cs_provider cfg, cl_status = pv_status p,
            cl_risk_score = score, cl_flags = pv_flags p, cl_context = sn_context i, cl_merchant_id = sn_merchant_id i,
            cl_session_id = sn_session_id i, cl_subscription_id = sn_subscription_id i, cl_provider_request_id = pv_request_id p,
            cl_created_at = now\<rparr> in
      seq (modify (\<lambda>logs. logs @ [row])) (\<lambda>_.
      ret \<lparr>sr_status = pv_status p, sr_blocked = (pv_status p = Blocked_Status \<or> pv_status p = Error_Status),
           sr_risk_score = pv_risk_score p, sr_flags = pv_flags p, sr_log = row\<rparr>)))"

definition log_rows :: "string \<Rightarrow> compliance_status option \<Rightarrow> compliance_log list \<Rightarrow> compliance_log list" where
  "log_rows merchantId status logs = newest_first cl_created_at
     (filter (\<lambda>r. cl_merchant_id r = Some merchantId \<and> (case status of None \<Rightarrow> True | Some st \<Rightarrow> cl_status r = st)) logs)"

definition listLogs :: "string \<Rightarrow> list_params \<Rightarrow> compliance_status option \<Rightarrow> compliance_log list \<Rightarrow> compliance_log page" where
  "listLogs merchantId p status logs = list_page cl_id p (log_rows merchantId status logs)"

section \<open>Facts\<close>

definition log_keys_ok :: "compliance_log list \<Rightarrow> bool" where
  "log_keys_ok logs \<longleftrightarrow> distinct (map cl_id logs) \<and> (\<forall>r\<in>set logs. cl_id r \<noteq> [])"

interpretation log_pages: paged_rows cl_id "log_rows m st" log_keys_ok for m st
proof
  fix logs
  assume ok: "log_keys_ok logs"
  then show "distinct (map cl_id (log_rows m st logs))"
    unfolding log_rows_def log_keys_ok_def by (blast intro: distinct_map_filter_sort)
  show "cl_id r \<noteq> []" if "r \<in> set (log_rows m st logs)" for r
    using that ok by (auto simp: log_rows_def log_keys_ok_def)
qed

text \<open>The abstract rule: what the provider has to answer for a wallet to pass, and to be clear.\<close>

definition provider_answer :: "screening_world \<Rightarrow> compliance_settings \<Rightarrow> string \<Rightarrow> (rat option \<times> string list) option" where
  "provider_answer w cfg wallet =
     (if cs_provider cfg = Trm then (case sw_trm w wallet of
          Fetch_Body rows \<Rightarrow> Some (case rows of [] \<Rightarrow> (None, []) | r # _ \<Rightarrow> (tr_score r, flag_names (tr_indicators r))) | _ \<Rightarrow> None)
      else (case sw_elliptic w wallet of Fetch_Body b \<Rightarrow> Some (eb_risk_score b, flag_names (eb_rules b)) | _ \<Rightarrow> None))"

lemma grade_iff:
  "grade t score flags = Blocked_Status \<longleftrightarrow> (\<exists>r. score = Some r \<and> of_int t \<le> r)"
  "grade t score flags = Clear_Status \<longleftrightarrow> flags = [] \<and> \<not> (\<exists>r. score = Some r \<and> of_int t \<le> r)"
  "grade t score flags \<noteq> Error_Status"
  by (auto simp: grade_def split: option.splits)

lemma flag_names_None [simp]: "flag_names None = []"
  by (simp add: flag_names_def)

lemma callProvider_answer:
  assumes "compliance_constructor cfg = Inr cfg" "cs_provider cfg \<noteq> Screening_Disabled"
  shows "callProvider w cfg wallet = (case provider_answer w cfg wallet of None \<Rightarrow> failed_screen
    | Some (score, flags) \<Rightarrow> \<lparr>pv_status = grade (cs_block_threshold cfg) score flags, pv_risk_score = score, pv_flags = flags,
        pv_request_id = pv_request_id (callProvider w cfg wallet)\<rparr>)"
  using assms
  by (cases "cs_provider cfg")
    (auto simp: compliance_constructor_def callProvider_def provider_answer_def callTrm_def callElliptic_def Let_def split: fetched.split list.split)

text \<open>An answer without a score, an empty one too, passes as clear.\<close>

lemma unscored_wallet_clear:
  "sw_trm w wallet = Fetch_Body [] \<Longrightarrow> cs_provider cfg = Trm \<Longrightarrow> pv_status (callProvider w cfg wallet) = Clear_Status"
  by (simp add: callProvider_def callTrm_def grade_def clear_screen_def)

text \<open>A fractional score fails the insertion: the screening throws and leaves no row.\<close>

lemma fractional_score_unrecorded:
  assumes "pv_risk_score (callProvider w cfg (sn_wallet_address i)) = Some (17 / 2)"
  shows "screen w cfg lid now i logs = (Inl (Crash ''PrismaClientValidationError''), logs)"
proof -
  have "\<lfloor>17 / 2 :: rat\<rfloor> = 8" by (rule floor_unique) simp_all
  with assms show ?thesis by (simp add: screen_def Let_def score_column_def)
qed

text \<open>What fits the column, and what does not.\<close>

lemma score_column_Inr: "score_column score = Inr c \<Longrightarrow> map_option of_int c = score"
  by (auto simp: score_column_def split: option.splits if_splits)

lemma score_column_Inl:
  assumes "score_column score = Inl e"
  shows "\<exists>r. score = Some r \<and> r \<notin> \<int>"
  using assms by (auto simp: score_column_def elim!: Ints_cases split: option.splits if_splits)

section \<open>Properties\<close>

text \<open>
  C29. The verdict of a screening is exact, and a provider that fails blocks. With a configured provider, a screening that
  returns blocks the wallet if and only if the provider gave no answer (the request threw or was refused: status error)
  or its answer has a score of at least the threshold (status blocked); any other answer passes, one without a score
  too, and is flagged if and only if it names an indicator. Exactly one row is logged, with that status, the score, the
  indicators and the address in lower case; a screening that throws (a score the column cannot hold) logs none.
\<close>

theorem screening_verdict_exact:
  assumes "compliance_constructor cfg = Inr cfg" "cs_provider cfg \<noteq> Screening_Disabled"
  shows "case screen w cfg lid now i logs of
      (Inl _, logs') \<Rightarrow> logs' = logs \<and>
        (\<exists>r flags. provider_answer w cfg (sn_wallet_address i) = Some (Some r, flags) \<and> r \<notin> \<int>)
    | (Inr res, logs') \<Rightarrow>
        sr_status res = (case provider_answer w cfg (sn_wallet_address i) of
           None \<Rightarrow> Error_Status
         | Some (None, flags) \<Rightarrow> if flags = [] then Clear_Status else Flagged_Status
         | Some (Some r, flags) \<Rightarrow> if of_int (cs_block_threshold cfg) \<le> r then Blocked_Status
             else if flags = [] then Clear_Status else Flagged_Status) \<and>
        (sr_blocked res \<longleftrightarrow> sr_status res \<in> {Error_Status, Blocked_Status}) \<and>
        (case provider_answer w cfg (sn_wallet_address i) of None \<Rightarrow> sr_risk_score res = None \<and> sr_flags res = []
         | Some (score, flags) \<Rightarrow> sr_risk_score res = score \<and> sr_flags res = flags) \<and>
        logs' = logs @ [sr_log res] \<and> cl_status (sr_log res) = sr_status res \<and> cl_flags (sr_log res) = sr_flags res \<and>
        map_option of_int (cl_risk_score (sr_log res)) = sr_risk_score res \<and>
        cl_wallet_address (sr_log res) = to_lower (sn_wallet_address i)"
proof (cases "provider_answer w cfg (sn_wallet_address i)")
  case None
  with callProvider_answer [OF assms, of w "sn_wallet_address i"] show ?thesis
    by (simp add: screen_def Let_def failed_screen_def score_column_def)
next
  case (Some a)
  obtain score flags where a: "a = (score, flags)" by (cases a)
  let ?p = "callProvider w cfg (sn_wallet_address i)"
  from callProvider_answer [OF assms, of w "sn_wallet_address i"] Some a
  have p: "pv_status ?p = grade (cs_block_threshold cfg) score flags" "pv_risk_score ?p = score" "pv_flags ?p = flags"
    by (metis (no_types, lifting) case_prod_conv option.simps(5) provider_result.select_convs)+
  show ?thesis
  proof (cases "score_column score")
    case (Inl e)
    with score_column_Inl obtain r where "score = Some r" "r \<notin> \<int>" by blast
    with Inl show ?thesis by (simp add: screen_def Let_def p Some a)
  next
    case (Inr c)
    then have "map_option of_int c = score" by (rule score_column_Inr)
    with Inr show ?thesis
      by (auto simp: screen_def Let_def p Some a grade_def split: option.split)
  qed
qed

definition sample_screening :: compliance_settings where
  "sample_screening = \<lparr>cs_provider = Trm, cs_api_key = Some ''key'', cs_block_threshold = 80\<rparr>"

definition sample_provider :: screening_world where
  "sample_provider = \<lparr>sw_trm = (\<lambda>_. Fetch_Body [\<lparr>tr_indicators = Some [Some ''mixer''], tr_score = Some 85, tr_external_id = None\<rparr>]),
     sw_elliptic = (\<lambda>_. Fetch_Threw)\<rparr>"

definition sample_screen_input :: screen_input where
  "sample_screen_input = \<lparr>sn_wallet_address = ''0xAB'', sn_context = Payer_Checkout, sn_merchant_id = Some ''m1'',
     sn_session_id = None, sn_subscription_id = None\<rparr>"

theorem screening_verdict_exact_witness:
  "\<exists>res. screen sample_provider sample_screening ''cl1'' 5 sample_screen_input [] = (Inr res, [sr_log res]) \<and>
     sr_status res = Blocked_Status \<and> sr_blocked res \<and> cl_risk_score (sr_log res) = Some 85"
proof -
  have cfg: "compliance_constructor sample_screening = Inr sample_screening" "cs_provider sample_screening \<noteq> Screening_Disabled"
    by (simp_all add: compliance_constructor_def sample_screening_def)
  obtain res logs where run: "screen sample_provider sample_screening ''cl1'' 5 sample_screen_input [] = (Inr res, logs)"
    by (simp add: screen_def Let_def callProvider_def callTrm_def sample_screening_def sample_provider_def score_column_def)
  have "provider_answer sample_provider sample_screening (sn_wallet_address sample_screen_input) = Some (Some 85, [''mixer''])"
    by (simp add: provider_answer_def sample_screening_def sample_provider_def flag_names_def)
  with screening_verdict_exact [OF cfg, where w = sample_provider and lid = "''cl1''" and now = 5 and i = sample_screen_input and logs = "[]"] run show ?thesis
    by (auto simp: sample_screening_def)
qed

end
