(* ===== verification/Spec2Isabelle.thy ===== *)
theory Spec2Isabelle
  imports Storefront Relay_Runner Charging Agents Webhook_System Request_Interceptors Admin
    Monitors Agent_Worker Tray Checkout Token_Info Screening
begin

text \<open>
  The payment platform of this repository: its API (\<open>apps/api/src\<close>), its scheduler
  (\<open>apps/scheduler/src\<close>), its agent (\<open>apps/agent/src\<close>) and the shared packages that hold
  its rules. Every handler is a function on one shared state, the record \<open>store\<close> of theory Store: the
  tables of \<open>packages/db/prisma/schema\<close>, the Redis keys and the queues. A handler is a
  \<open>proc\<close> (theory Prelude), a function from the state to a result and the next state, where the result
  is \<open>Inl\<close> the exception the code throws (theory Api_Error) or \<open>Inr\<close> its value; a handler
  that throws keeps the writes it made before, and a database transaction (\<open>in_tx\<close>) does not. The clock
  and the fresh identifiers are arguments (functions from the row, where one run draws several). RPC answers, ABI
  codecs, hashes, MACs, ciphers, DNS, HTTP and mail are parameters (the records \<open>relay_world\<close>,
  \<open>runner_world\<close>, \<open>chain_world\<close>, \<open>transport\<close>, \<open>delivery_world\<close>,
  \<open>admin_world\<close>, \<open>mail_world\<close>, \<open>agent_world\<close>, \<open>token_chain\<close>,
  \<open>screening_world\<close>), of which no law is assumed, but for the round trip of a secret, where the cipher
  decrypts what it encrypted, and of a page cursor, where decoding inverts encoding. Zod's \<open>url\<close> and
  \<open>email\<close> checks are the record \<open>zod\<close>.

  The shared theories.
  \<^item> Prelude: procedures, row tables, the locale \<open>row_update\<close> every update of a table meets, decimal strings.
  \<^item> Config: \<open>packages/shared-config\<close> (tokens, chains, key prefixes, plans, retry schedule).
  \<^item> Money: \<open>common/money\<close> and \<open>common/plans\<close> (fee split, minimum, aggregates, plan features).
  \<^item> Queue_Jobs: \<open>packages/queue-contracts\<close> (job payloads and their schemas).
  \<^item> Store: rows, queues, settings, and the outbox write of \<open>infra/events\<close>.
  \<^item> Paging: the cursor pages all list endpoints share, with the locale \<open>paged_rows\<close>.
  \<^item> Wire_Schemas: \<open>packages/shared-types\<close> (request, response and event schemas).
  \<^item> Webhook_Crypto: \<open>packages/shared-crypto\<close> (hex, webhook signatures, encrypted secrets, API keys).
  \<^item> Calendar: UTC days, months and civil dates, for what the code computes with \<open>Date\<close>.
  \<^item> Samples: the concrete state on which the witnesses are evaluated.

  The API.
  \<^item> Merchant_Chain: \<open>modules/merchants\<close> (registration, chain status, registry fee).
  \<^item> Sessions: \<open>modules/payment-sessions\<close>. A session is open while its status is created or awaiting payment;
    binding, cancelling and expiring need it open; a closed session gives its product unit back.
  \<^item> Enrolment: \<open>modules/subscription-plans\<close> and \<open>modules/subscriptions\<close> (plans, terms, cancel).
  \<^item> Storefront: \<open>modules/storefronts\<close> (catalogue, stock, public purchase).
  \<^item> Billing: \<open>modules/invoices\<close> and \<open>modules/refunds\<close>.
  \<^item> Relay_Guards: the four guards of \<open>modules/relay\<close>: attempt pointers, daily budget, gas price, nonces.
    The locales \<open>claims\<close> and \<open>dispenser\<close> state what a pointer and a counter promise to concurrent callers.
  \<^item> Relay_Service: \<open>relay.service.ts\<close>, what is checked before a signed payment or enrolment is queued.
  \<^item> Relay_Runner: \<open>relay-job-runner.ts\<close>, how a queued job is priced, signed, recorded, sent and resent.
  \<^item> Request_Interceptors: \<open>common/interceptors\<close>, idempotency keys as interleaved Redis steps and rate buckets.
  \<^item> Access: \<open>common/guards\<close> and \<open>modules/api-keys\<close>, who a bearer token stands for and what a key may do.
  \<^item> Accounts: \<open>modules/auth\<close>, the profile part of \<open>modules/merchants\<close>, \<open>modules/customers\<close>,
    \<open>modules/transactions\<close> and \<open>infra/privy\<close>; a login is split into its read and its write.
  \<^item> Webhook_Endpoints: \<open>modules/webhooks\<close> (endpoints, secrets, replays, the SSRF guard).
  \<^item> Agents: \<open>modules/agents\<close> (configuration and jobs). The jobs it queues are those Agent_Actions runs.
  \<^item> Analytics: \<open>modules/analytics\<close>; the locale \<open>keyset_pages\<close> is the contract of pages that resume
    behind a key.
  \<^item> Admin: \<open>modules/admin\<close>, the operators' accounts and invites, merchant status and plan, broadcasts, figures.
  \<^item> Checkout: \<open>modules/checkout\<close>, the public routes, composed of Sessions, Enrolment, Accounts and Relay_Service.
  \<^item> Token_Info, Screening: \<open>modules/tokens\<close> with its cache and \<open>modules/compliance\<close> with its log, each over a state
    of its own.
  \<^item> Tray: \<open>modules/notifications\<close> and \<open>modules/contact\<close>.

  The scheduler.
  \<^item> Sweepers: the crons that expire sessions, lapse subscriptions, mark invoices overdue and queue due
    charges. The locale \<open>flip_sweep\<close> is the contract of the first three, \<open>batch_drain\<close> that of a worker
    that takes pending rows in batches.
  \<^item> Chain_Service, Charging, Agent_Actions: \<open>infra/chain\<close> and the workers that broadcast charges and
    agent escrow calls; the broadcasts are recorded in \<open>wk_writes\<close>.
  \<^item> Plan_Upgrade: \<open>crons/plan-upgrade\<close>, the move to the plan a merchant's volume earned.
  \<^item> Notices: \<open>infra/email\<close>, \<open>crons/merchant-notifications\<close> and \<open>crons/payer-notifications\<close>. A lane takes a batch
    of unstamped rows, mails each and stamps it; the stamps are the field \<open>notified\<close> of the store. The queries, Redis,
    the provider and the stamps can fail, and without a provider a send only logs (stub mode).
  \<^item> Monitors: \<open>crons/fee-drift\<close>, \<open>crons/contract-alerts\<close> and \<open>crons/gas-balance-monitor\<close>.
  \<^item> Outbox: \<open>infra/webhook-outbox\<close>, with faults of each database or queue operation of an event,
    the update that records its failure included, which ends the tick.
  \<^item> Webhook_Transport: \<open>infra/webhook-transport\<close>, the addresses a webhook may go to, as 32 and 128 bit
    words.
  \<^item> Delivery, Delivery_Facts: \<open>infra/webhook-signing\<close>, \<open>workers/webhook-delivery\<close> and
    \<open>crons/webhook-recovery\<close>. The relation \<open>delivery_machine\<close>, on status and attempt number, is the state
    machine a delivery promises to follow, \<open>delivery_move\<close> the row updates that refine it, and the locale
    \<open>bounded_retry\<close> the contract of a job that is retried.
  \<^item> Webhook_System: outbox, delivery, recovery and the endpoint routes together, over their shared tables and queue.

  The agent.
  \<^item> Agent_Worker: \<open>capabilities\<close> (recovery notices, digests, yield and commerce mails, bridged payments),
    \<open>infra/activity-log\<close> and \<open>infra/circle-attestation\<close>.

  What is shown: money (fee splits are exact, refunds stay within a payment when they do not overlap), stock
  (units are conserved, never oversold, and given back when a session expires), one payer per session, the
  terms of an enrolment, complete list pages; for the relay that a payment is queued only when it can count,
  that one attempt per checkout is alive, that replays change nothing, and that a resend replaces what was
  sent; for the scheduler that a row is flipped and a charge queued once, that a charge and an escrow are
  broadcast only after their checks; and for webhooks the way of an event: no event is lost without a trace but in
  a tick that throws, one whose reference resolves goes out under its own type, deliveries stay with their tenant and settle within the attempts allowed, requests are signed so that the
  receiver accepts them and reach public addresses only, lost jobs are queued again, and what registration
  accepts and hands out is what delivery can reach and signs with. For access: keys and what they mint never
  exceed the first key, a suspended merchant is locked out, an invite works once, a super administrator remains,
  one idempotency key runs one handler, a limit holds in every window. For the figures: they count each row
  once, of one merchant and mode. For the public checkout: payers stay bound to their sessions and relayed payments
  are found again. For mails: none goes out undue, or again but where a stamp or the transaction of a notice failed;
  receipts arrive whatever the budget, and drifts and low balances are mailed to the operators. Polls end, token answers
  age ten minutes at most, and a wallet is blocked exactly when the provider gave no answer or a score at the threshold.

  Handlers run one after the other: an interleaving of two handlers is modelled only where a property is
  about it (the claims on an attempt pointer, requests with one idempotency key, two first logins, acceptances
  of one invite) or where it shows a flaw (overlapping refunds, spending caps, demotions). Ticks of the
  crons and runs of delivery jobs follow one another too. The fuelled functions
  are \<open>all_pages\<close> and \<open>ltv_pages\<close>, the clients that follow cursors; the theorems about them give a fuel
  that suffices.

  Not modelled: most controllers, validation pipes, CORS and error rendering, which add no state; the revenue
  forecast, the anomaly scores and the price forecast (statistics in floating point); HTML templates and the rendering
  of dates; the web application (user interface), the indexer (Go) and the contracts (Solidity).
\<close>

end
